(* ===== verification/Gateway_Prelude.thy ===== *)
theory Gateway_Prelude
  imports Complex_Main
begin

text \<open>
  Shared vocabulary of the development: Rust's \<open>Result\<close> as a sum, the loops over
  slices that stop at the first error, machine integers as bounded naturals with their checked,
  saturating and wrapping operations, the iterator adaptors the sources use
  (\<open>min_by\<close>, \<open>max_by_key\<close>), and the generic locales of the library: layered
  restrictions (\<open>restriction\<close>), systems with an invariant (\<open>invariant_system\<close>) and systems that
  refine an abstract one (\<open>refinement_system\<close>).
\<close>

named_theorems result_simps \<open>unfolding of the result combinators\<close>
named_theorems int_simps \<open>unfolding of the machine integer operations\<close>

section \<open>Results\<close>

text \<open>\<open>Result<T, E>\<close> with the error on the left.\<close>

abbreviation Err :: "'e \<Rightarrow> 'e + 'a" where
  "Err \<equiv> Inl"

abbreviation Ok :: "'a \<Rightarrow> 'e + 'a" where
  "Ok \<equiv> Inr"

text \<open>The operator \<open>?\<close>: continue with the value, return the error.\<close>

definition and_then :: "'e + 'a \<Rightarrow> ('a \<Rightarrow> 'e + 'b) \<Rightarrow> 'e + 'b" where
  [result_simps]: "and_then r f = (case r of Inl e \<Rightarrow> Inl e | Inr x \<Rightarrow> f x)"

definition ok_or :: "'a option \<Rightarrow> 'e \<Rightarrow> 'e + 'a" where
  [result_simps]: "ok_or x e = (case x of None \<Rightarrow> Inl e | Some y \<Rightarrow> Inr y)"

definition is_ok :: "'e + 'a \<Rightarrow> bool" where
  [result_simps]: "is_ok r = (case r of Inl _ \<Rightarrow> False | Inr _ \<Rightarrow> True)"

text \<open>\<open>for x in xs { f(x)?; }\<close>\<close>

fun try_each :: "('a \<Rightarrow> 'e + unit) \<Rightarrow> 'a list \<Rightarrow> 'e + unit" where
  "try_each f [] = Ok ()"
| "try_each f (x # xs) = and_then (f x) (\<lambda>_. try_each f xs)"

text \<open>\<open>xs.iter().try_fold(acc, f)\<close>\<close>

fun try_fold :: "('b \<Rightarrow> 'a \<Rightarrow> 'e + 'b) \<Rightarrow> 'b \<Rightarrow> 'a list \<Rightarrow> 'e + 'b" where
  "try_fold f acc [] = Ok acc"
| "try_fold f acc (x # xs) = and_then (f acc x) (\<lambda>acc'. try_fold f acc' xs)"

text \<open>\<open>xs.iter().map(f).collect::<Result<Vec<_>, _>>()\<close>\<close>

fun try_map :: "('a \<Rightarrow> 'e + 'b) \<Rightarrow> 'a list \<Rightarrow> 'e + 'b list" where
  "try_map f [] = Ok []"
| "try_map f (x # xs) = and_then (f x) (\<lambda>y. and_then (try_map f xs) (\<lambda>ys. Ok (y # ys)))"

lemma and_then_Ok_iff [simp]:
  "and_then r f = Inr y \<longleftrightarrow> (\<exists>x. r = Inr x \<and> f x = Inr y)"
  by (auto simp: result_simps split: sum.splits)

lemma and_then_Inr [simp]: "and_then (Inr x) f = f x"
  by (simp add: result_simps)

lemma and_then_Inl [simp]: "and_then (Inl e) f = Inl e"
  by (simp add: result_simps)

lemma and_then_Err_iff:
  "and_then r f = Inl e \<longleftrightarrow> r = Inl e \<or> (\<exists>x. r = Inr x \<and> f x = Inl e)"
  by (auto simp: result_simps split: sum.splits)

text \<open>
  Elimination of a chain of guards that returned a value: one case per guard that answers, without
  the negations of the guards before it.
\<close>

lemma if_OkE:
  assumes "(if b then Inr x else r) = Inr y"
  obtains "b" "y = x" | "r = Inr y"
  using assms by (cases b) simp_all

lemma if_ErrE:
  assumes "(if b then Inl e else r) = Inr y"
  obtains "\<not> b" "r = Inr y"
  using assms by (cases b) simp_all

lemma bind_SomeE:
  assumes "Option.bind x f = Some y"
  obtains z where "x = Some z" "f z = Some y"
  using assms by (cases x) simp_all

lemma ok_or_simps [simp]:
  "ok_or None e = Inl e" "ok_or (Some x) e = Inr x"
  "ok_or z e = Inr x \<longleftrightarrow> z = Some x"
  by (auto simp: result_simps split: option.splits)

lemma is_ok_simps [simp]: "is_ok (Inr x)" "\<not> is_ok (Inl e)"
  by (auto simp: result_simps)

lemma is_ok_iff: "is_ok r \<longleftrightarrow> (\<exists>x. r = Inr x)"
  by (cases r) auto

lemma try_each_Ok_iff [simp]: "try_each f xs = Inr u \<longleftrightarrow> (\<forall>x \<in> set xs. f x = Inr ())"
  by (induction xs) auto

lemma try_each_Err:
  "try_each f xs = Inl e \<Longrightarrow> \<exists>x \<in> set xs. f x = Inl e"
  by (induction xs) (auto simp: and_then_Err_iff)

lemma try_map_Ok_iff:
  "try_map f xs = Inr ys \<longleftrightarrow> list_all2 (\<lambda>x y. f x = Inr y) xs ys"
  by (induction xs arbitrary: ys) (auto simp: list_all2_Cons1)

lemma try_map_Ok_set:
  assumes "try_map f xs = Inr ys" and "y \<in> set ys"
  shows "\<exists>x \<in> set xs. f x = Inr y"
  using assms by (auto simp: try_map_Ok_iff list_all2_conv_all_nth in_set_conv_nth) (metis nth_mem)

lemma try_fold_append:
  "try_fold f acc (xs @ ys) = and_then (try_fold f acc xs) (\<lambda>a. try_fold f a ys)"
  by (induction xs arbitrary: acc) (auto simp: result_simps split: sum.splits)

text \<open>Invariants of a fallible loop, and what each of its passes establishes for good.\<close>

lemma try_fold_invar:
  assumes "try_fold f acc xs = Inr acc'" and "I acc"
    and "\<And>a x b. x \<in> set xs \<Longrightarrow> I a \<Longrightarrow> f a x = Inr b \<Longrightarrow> I b"
  shows "I acc'"
  using assms
proof (induction xs arbitrary: acc)
  case (Cons x xs)
  then obtain b where "f acc x = Inr b" "try_fold f b xs = Inr acc'" by auto
  with Cons show ?case by (metis list.set_intros(1,2))
qed simp

lemma try_fold_establish:
  assumes "try_fold f acc xs = Inr acc'" and "x \<in> set xs"
    and "\<And>a b. f a x = Inr b \<Longrightarrow> Q b"
    and "\<And>a y b. Q a \<Longrightarrow> f a y = Inr b \<Longrightarrow> Q b"
  shows "Q acc'"
  using assms(1,2)
proof (induction xs arbitrary: acc)
  case (Cons y xs)
  then obtain b where b: "f acc y = Inr b" "try_fold f b xs = Inr acc'" by auto
  show ?case
  proof (cases "x = y")
    case True
    with b assms(3) have "Q b" by simp
    then show ?thesis using try_fold_invar [OF b(2), of Q] assms(4) by blast
  next
    case False
    with Cons b show ?thesis by auto
  qed
qed simp

section \<open>Machine integers\<close>

text \<open>
  \<open>usize\<close> and \<open>u64\<close> values are naturals below \<open>2 ^ 64\<close>; the operations write the
  width out. Subtraction wraps, as the atomic \<open>fetch_sub\<close> and release arithmetic do, so that
  a theorem that a counter never underflows says something.
\<close>

definition usize_max :: nat where
  "usize_max = 2 ^ 64 - 1"

definition checked_add :: "nat \<Rightarrow> nat \<Rightarrow> nat option" where
  [int_simps]: "checked_add a b = (if a + b < 2 ^ 64 then Some (a + b) else None)"

definition checked_sub :: "nat \<Rightarrow> nat \<Rightarrow> nat option" where
  [int_simps]: "checked_sub a b = (if b \<le> a then Some (a - b) else None)"

definition checked_mul :: "nat \<Rightarrow> nat \<Rightarrow> nat option" where
  [int_simps]: "checked_mul a b = (if a * b < 2 ^ 64 then Some (a * b) else None)"

definition saturating_add :: "nat \<Rightarrow> nat \<Rightarrow> nat" where
  [int_simps]: "saturating_add a b = min (a + b) (2 ^ 64 - 1)"

definition wrapping_sub :: "nat \<Rightarrow> nat \<Rightarrow> nat" where
  [int_simps]: "wrapping_sub a b = (if b \<le> a then a - b else 2 ^ 64 + a - b)"

lemma checked_add_Some [simp]: "checked_add a b = Some c \<longleftrightarrow> a + b < 2 ^ 64 \<and> c = a + b"
  by (auto simp: int_simps)

lemma checked_mul_Some [simp]: "checked_mul a b = Some c \<longleftrightarrow> a * b < 2 ^ 64 \<and> c = a * b"
  by (auto simp: int_simps)

lemma checked_sub_Some [simp]: "checked_sub a b = Some c \<longleftrightarrow> b \<le> a \<and> c = a - b"
  by (auto simp: int_simps)

lemma wrapping_sub_exact [simp]: "b \<le> a \<Longrightarrow> wrapping_sub a b = a - b"
  by (simp add: int_simps)

text \<open>Signed 32-bit addition, wrapping as in a release build.\<close>

definition wrap_i32 :: "int \<Rightarrow> int" where
  "wrap_i32 x = (x + 2 ^ 31) mod 2 ^ 32 - 2 ^ 31"

lemma wrap_i32_id [simp]: "- (2 ^ 31) \<le> x \<Longrightarrow> x < 2 ^ 31 \<Longrightarrow> wrap_i32 x = x"
  by (simp add: wrap_i32_def)

definition i64_max :: int where
  "i64_max = 2 ^ 63 - 1"

section \<open>Iterator adaptors\<close>

text \<open>
  \<open>Iterator::min_by\<close> keeps the first of equal minima (\<open>lt y x\<close> is \<open>Ordering::Less\<close>),
  \<open>Iterator::max_by_key\<close> the last of equal maxima.
\<close>

fun min_by :: "('a \<Rightarrow> 'a \<Rightarrow> bool) \<Rightarrow> 'a list \<Rightarrow> 'a option" where
  "min_by lt [] = None"
| "min_by lt (x # xs) = Some (foldl (\<lambda>best y. if lt y best then y else best) x xs)"

fun max_by_key :: "('a \<Rightarrow> 'k::linorder) \<Rightarrow> 'a list \<Rightarrow> 'a option" where
  "max_by_key key [] = None"
| "max_by_key key (x # xs) = Some (foldl (\<lambda>best y. if key best \<le> key y then y else best) x xs)"

lemma foldl_pick_mem:
  "foldl (\<lambda>best y. if p best y then y else best) x xs \<in> insert x (set xs)"
proof (induction xs arbitrary: x)
  case (Cons y xs)
  show ?case using Cons.IH [of "if p x y then y else x"] by (auto split: if_splits)
qed simp

lemma min_by_mem: "min_by lt xs = Some y \<Longrightarrow> y \<in> set xs"
  by (cases xs) (use foldl_pick_mem [of "\<lambda>b z. lt z b"] in auto)

lemma max_by_key_mem: "max_by_key key xs = Some y \<Longrightarrow> y \<in> set xs"
  by (cases xs) (use foldl_pick_mem [of "\<lambda>b z. key b \<le> key z"] in auto)

lemma min_by_None [simp]: "min_by lt xs = None \<longleftrightarrow> xs = []"
  by (cases xs) auto

lemma max_by_key_None [simp]: "max_by_key key xs = None \<longleftrightarrow> xs = []"
  by (cases xs) auto

text \<open>
  The order laws that make \<open>min_by\<close> a minimum: a strict weak order on the elements compared. The carrier
  leaves out the values on which a comparison is no order, such as a float that is not a number.
\<close>

locale comparator =
  fixes lt :: "'a \<Rightarrow> 'a \<Rightarrow> bool"
    and carrier :: "'a \<Rightarrow> bool"
  assumes lt_asym: "carrier x \<Longrightarrow> carrier y \<Longrightarrow> lt x y \<Longrightarrow> \<not> lt y x"
    and lt_negtrans: "carrier x \<Longrightarrow> carrier y \<Longrightarrow> carrier z \<Longrightarrow> \<not> lt x y \<Longrightarrow> \<not> lt y z \<Longrightarrow> \<not> lt x z"
begin

lemma foldl_min:
  "list_all carrier (x # xs) \<Longrightarrow> z \<in> insert x (set xs) \<Longrightarrow>
   \<not> lt z (foldl (\<lambda>best y. if lt y best then y else best) x xs)"
proof (induction xs arbitrary: x z)
  case Nil
  then show ?case using lt_asym [of x x] by auto
next
  case (Cons y xs)
  let ?b = "if lt y x then y else x"
  let ?m = "foldl (\<lambda>best y. if lt y best then y else best) ?b xs"
  have carriers: "list_all carrier (?b # xs)" using Cons.prems(1) by simp
  have best: "\<not> lt ?b ?m" by (rule Cons.IH [OF carriers]) simp
  have "?m \<in> insert ?b (set xs)" by (rule foldl_pick_mem)
  then have m: "carrier ?m" using carriers by (auto simp: list_all_iff)
  show ?case
  proof (cases "z \<in> set xs")
    case True
    then show ?thesis using Cons.IH [OF carriers, of z] by simp
  next
    case False
    with Cons.prems have z: "carrier z" "\<not> lt z ?b"
      using lt_asym [of x x] lt_asym [of y y] lt_asym [of y x] by auto
    have "carrier ?b" using carriers by simp
    from lt_negtrans [OF z(1) this m z(2) best] show ?thesis by simp
  qed
qed

lemma min_by_least: "list_all carrier xs \<Longrightarrow> min_by lt xs = Some y \<Longrightarrow> z \<in> set xs \<Longrightarrow> \<not> lt z y"
  by (cases xs) (use foldl_min in force)+

end

interpretation key_order: comparator "\<lambda>x y. key x < key y" "\<lambda>_. True" for key :: "'a \<Rightarrow> 'k::linorder"
  by unfold_locales auto

lemma foldl_max:
  fixes key :: "'a \<Rightarrow> 'k::linorder"
  shows "z \<in> insert x (set xs) \<Longrightarrow>
    key z \<le> key (foldl (\<lambda>best y. if key best \<le> key y then y else best) x xs)"
proof (induction xs arbitrary: x z)
  case (Cons y xs)
  let ?b = "if key x \<le> key y then y else x"
  have best: "key ?b \<le> key (foldl (\<lambda>best y. if key best \<le> key y then y else best) ?b xs)"
    by (rule Cons.IH) simp
  show ?case
  proof (cases "z \<in> set xs")
    case True
    then show ?thesis using Cons.IH [of z ?b] by simp
  next
    case False
    with Cons.prems have "key z \<le> key ?b" by auto
    also note best
    finally show ?thesis by simp
  qed
qed simp

lemma max_by_key_greatest:
  "max_by_key key xs = Some y \<Longrightarrow> z \<in> set xs \<Longrightarrow> key z \<le> key y"
  by (cases xs) (auto intro: foldl_max [of _ _ _ key, simplified])

section \<open>Layered restrictions\<close>

text \<open>
  A restriction is merged with the restriction of the next layer. The first contract says that a merge
  with a well-formed layer admits only what both admit, the second that it admits exactly that; the
  consequences for a whole stack of layers are proved once.
\<close>

locale tightening =
  fixes merge :: "'p \<Rightarrow> 'q \<Rightarrow> 'p"
    and admits :: "'p \<Rightarrow> 'x \<Rightarrow> bool"
    and layer_admits :: "'q \<Rightarrow> 'x \<Rightarrow> bool"
    and layer_wf :: "'q \<Rightarrow> bool"
  assumes merge_tightens: "layer_wf b \<Longrightarrow> admits (merge a b) x \<Longrightarrow> admits a x \<and> layer_admits b x"
begin

lemma foldl_tightens:
  "list_all layer_wf qs \<Longrightarrow> admits (foldl merge p qs) x \<Longrightarrow> admits p x \<and> list_all (\<lambda>q. layer_admits q x) qs"
proof (induction qs arbitrary: p)
  case (Cons q qs)
  then have "admits (merge p q) x \<and> list_all (\<lambda>q. layer_admits q x) qs" by simp
  with Cons.prems(1) merge_tightens [of q p x] show ?case by simp
qed simp

end

locale restriction = tightening +
  assumes merge_exact: "admits a x \<Longrightarrow> layer_admits b x \<Longrightarrow> admits (merge a b) x"
begin

lemma foldl_exact:
  "list_all layer_wf qs \<Longrightarrow>
   admits (foldl merge p qs) x \<longleftrightarrow> admits p x \<and> list_all (\<lambda>q. layer_admits q x) qs"
proof (induction qs arbitrary: p)
  case (Cons q qs)
  have "admits (merge p q) x \<longleftrightarrow> admits p x \<and> layer_admits q x"
    using merge_tightens [of q p x] merge_exact [of p x q] Cons.prems by (simp, blast)
  with Cons.IH [of "merge p q"] Cons.prems show ?case by simp
qed simp

lemma foldl_set_only:
  assumes "list_all layer_wf qs" and "set qs = set rs"
  shows "admits (foldl merge p qs) x = admits (foldl merge p rs) x"
proof -
  have "list_all layer_wf rs" using assms by (simp add: list_all_iff)
  from foldl_exact [OF assms(1)] foldl_exact [OF this] show ?thesis
    by (simp only: list_all_iff assms(2))
qed

end

section \<open>Systems with an invariant\<close>

text \<open>
  A component whose operations are events: if every event keeps the invariant, every run keeps it,
  and the invariant holds in every reachable state.
\<close>

locale invariant_system =
  fixes step :: "'s \<Rightarrow> 'e \<Rightarrow> 's"
    and invar :: "'s \<Rightarrow> bool"
  assumes step_invar: "invar s \<Longrightarrow> invar (step s e)"
begin

lemma run_invar: "invar s \<Longrightarrow> invar (foldl step s es)"
  by (induction es arbitrary: s) (auto intro: step_invar)

end

text \<open>A system whose steps an abstract system follows, as long as the invariant holds.\<close>

locale refinement_system = invariant_system step invar
  for step :: "'s \<Rightarrow> 'e \<Rightarrow> 's"
    and invar :: "'s \<Rightarrow> bool" +
  fixes abs_step :: "'a \<Rightarrow> 'e \<Rightarrow> 'a"
    and abstraction :: "'s \<Rightarrow> 'a"
  assumes step_refines: "invar s \<Longrightarrow> abstraction (step s e) = abs_step (abstraction s) e"
begin

lemma run_refines: "invar s \<Longrightarrow> abstraction (foldl step s es) = foldl abs_step (abstraction s) es"
  by (induction es arbitrary: s) (simp_all add: step_invar step_refines)

end

end
