(* ===== verification/Rust_Strings.thy ===== *)
theory Rust_Strings
  imports Gateway_Prelude
begin

text \<open>
  The operations of Rust's \<open>str\<close> and \<open>char\<close> that the gateway calls. A Rust string is its
  sequence of UTF-8 bytes, an Isabelle \<^typ>\<open>string\<close>: \<open>length\<close> is \<open>str::len\<close>, and a code
  point beyond ASCII is its several bytes. White space is Unicode's \<open>White_Space\<close>, listed by
  encoding, so that \<open>trim\<close> does what the library does on any valid string.
\<close>

section \<open>Characters\<close>

definition byte :: "char \<Rightarrow> nat" where
  "byte c = of_char c"

definition is_ascii_digit :: "char \<Rightarrow> bool" where
  "is_ascii_digit c = (48 \<le> byte c \<and> byte c \<le> 57)"

definition is_ascii_lowercase :: "char \<Rightarrow> bool" where
  "is_ascii_lowercase c = (97 \<le> byte c \<and> byte c \<le> 122)"

definition is_ascii_uppercase :: "char \<Rightarrow> bool" where
  "is_ascii_uppercase c = (65 \<le> byte c \<and> byte c \<le> 90)"

definition is_ascii_alphanumeric :: "char \<Rightarrow> bool" where
  "is_ascii_alphanumeric c = (is_ascii_digit c \<or> is_ascii_lowercase c \<or> is_ascii_uppercase c)"

definition is_ascii_graphic :: "char \<Rightarrow> bool" where
  "is_ascii_graphic c = (33 \<le> byte c \<and> byte c \<le> 126)"

definition to_ascii_lower :: "char \<Rightarrow> char" where
  "to_ascii_lower c = (if is_ascii_uppercase c then char_of (byte c + 32) else c)"

definition to_ascii_upper :: "char \<Rightarrow> char" where
  "to_ascii_upper c = (if is_ascii_lowercase c then char_of (byte c - 32) else c)"

definition to_ascii_lowercase :: "string \<Rightarrow> string" where
  "to_ascii_lowercase = map to_ascii_lower"

definition to_ascii_uppercase :: "string \<Rightarrow> string" where
  "to_ascii_uppercase = map to_ascii_upper"

definition eq_ignore_ascii_case :: "string \<Rightarrow> string \<Rightarrow> bool" where
  "eq_ignore_ascii_case a b = (to_ascii_lowercase a = to_ascii_lowercase b)"

section \<open>Prefixes, suffixes and substrings\<close>

fun strip_prefix :: "'a list \<Rightarrow> 'a list \<Rightarrow> 'a list option" where
  "strip_prefix [] s = Some s"
| "strip_prefix (p # ps) [] = None"
| "strip_prefix (p # ps) (c # s) = (if p = c then strip_prefix ps s else None)"

definition strip_suffix :: "'a list \<Rightarrow> 'a list \<Rightarrow> 'a list option" where
  "strip_suffix p s = map_option rev (strip_prefix (rev p) (rev s))"

definition starts_with :: "'a list \<Rightarrow> 'a list \<Rightarrow> bool" where
  "starts_with s p = (strip_prefix p s \<noteq> None)"

definition ends_with :: "'a list \<Rightarrow> 'a list \<Rightarrow> bool" where
  "ends_with s p = (strip_suffix p s \<noteq> None)"

fun contains_str :: "'a list \<Rightarrow> 'a list \<Rightarrow> bool" where
  "contains_str [] p = (p = [])"
| "contains_str (c # s) p = (starts_with (c # s) p \<or> contains_str s p)"

text \<open>\<open>str::trim_start_matches\<close> with a string pattern removes it as often as it occurs.\<close>

function trim_start_matches :: "'a list \<Rightarrow> 'a list \<Rightarrow> 'a list" where
  "trim_start_matches p s =
     (case strip_prefix p s of
        None \<Rightarrow> s
      | Some t \<Rightarrow> if p = [] then s else trim_start_matches p t)"
  by pat_completeness auto

section \<open>Splitting and joining\<close>

fun split_char :: "char \<Rightarrow> string \<Rightarrow> string list" where
  "split_char d [] = [[]]"
| "split_char d (c # s) =
     (if c = d then [] # split_char d s
      else (case split_char d s of [] \<Rightarrow> [[c]] | w # ws \<Rightarrow> (c # w) # ws))"

fun join_with :: "string \<Rightarrow> string list \<Rightarrow> string" where
  "join_with d [] = []"
| "join_with d [w] = w"
| "join_with d (w # v # ws) = w @ d @ join_with d (v # ws)"

fun split_once :: "char \<Rightarrow> string \<Rightarrow> (string \<times> string) option" where
  "split_once d [] = None"
| "split_once d (c # s) =
     (if c = d then Some ([], s)
      else map_option (\<lambda>(a, b). (c # a, b)) (split_once d s))"

section \<open>Trimming\<close>

definition trim_end_matches :: "('a \<Rightarrow> bool) \<Rightarrow> 'a list \<Rightarrow> 'a list" where
  "trim_end_matches f s = rev (dropWhile f (rev s))"

definition trim_matches :: "('a \<Rightarrow> bool) \<Rightarrow> 'a list \<Rightarrow> 'a list" where
  "trim_matches f s = trim_end_matches f (dropWhile f s)"

text \<open>The UTF-8 encodings of the code points with the property \<open>White_Space\<close>.\<close>

definition white_space :: "string list" where
  "white_space =
     [[CHR 0x09], [CHR 0x0A], [CHR 0x0B], [CHR 0x0C], [CHR 0x0D], [CHR 0x20],
      [CHR 0xC2, CHR 0x85], [CHR 0xC2, CHR 0xA0], [CHR 0xE1, CHR 0x9A, CHR 0x80],
      [CHR 0xE2, CHR 0x80, CHR 0x80], [CHR 0xE2, CHR 0x80, CHR 0x81],
      [CHR 0xE2, CHR 0x80, CHR 0x82], [CHR 0xE2, CHR 0x80, CHR 0x83],
      [CHR 0xE2, CHR 0x80, CHR 0x84], [CHR 0xE2, CHR 0x80, CHR 0x85],
      [CHR 0xE2, CHR 0x80, CHR 0x86], [CHR 0xE2, CHR 0x80, CHR 0x87],
      [CHR 0xE2, CHR 0x80, CHR 0x88], [CHR 0xE2, CHR 0x80, CHR 0x89],
      [CHR 0xE2, CHR 0x80, CHR 0x8A], [CHR 0xE2, CHR 0x80, CHR 0xA8],
      [CHR 0xE2, CHR 0x80, CHR 0xA9], [CHR 0xE2, CHR 0x80, CHR 0xAF],
      [CHR 0xE2, CHR 0x81, CHR 0x9F], [CHR 0xE3, CHR 0x80, CHR 0x80]]"

fun strip_any_prefix :: "'a list list \<Rightarrow> 'a list \<Rightarrow> 'a list option" where
  "strip_any_prefix [] s = None"
| "strip_any_prefix (w # ws) s =
     (case strip_prefix w s of Some t \<Rightarrow> Some t | None \<Rightarrow> strip_any_prefix ws s)"

text \<open>
  The loop of \<open>trim_start\<close>. Every pass removes at least one byte; a pattern that is empty stops it,
  and there is none in \<open>white_space\<close>.
\<close>

function trim_any_start :: "'a list list \<Rightarrow> 'a list \<Rightarrow> 'a list" where
  "trim_any_start ws s =
     (case strip_any_prefix ws s of
        None \<Rightarrow> s
      | Some t \<Rightarrow> if length t < length s then trim_any_start ws t else s)"
  by pat_completeness auto
termination
  by (relation "measure (\<lambda>(ws, s). length s)") auto

definition trim_start :: "string \<Rightarrow> string" where
  "trim_start s = trim_any_start white_space s"

definition trim_end :: "string \<Rightarrow> string" where
  "trim_end s = rev (trim_any_start (map rev white_space) (rev s))"

definition trim :: "string \<Rightarrow> string" where
  "trim s = trim_end (trim_start s)"

definition contains_white_space :: "string \<Rightarrow> bool" where
  "contains_white_space s = list_ex (contains_str s) white_space"

text \<open>\<open>char::is_control\<close>: the C0 and C1 controls and delete.\<close>

fun contains_control :: "string \<Rightarrow> bool" where
  "contains_control [] = False"
| "contains_control (c # s) =
     (byte c < 32 \<or> byte c = 127 \<or>
      (byte c = 0xC2 \<and> (case s of [] \<Rightarrow> False | d # _ \<Rightarrow> 128 \<le> byte d \<and> byte d < 160)) \<or>
      contains_control s)"

text \<open>The decimal digits of an unsigned integer, as \<open>Display\<close> prints it.\<close>

fun show_nat :: "nat \<Rightarrow> string" where
  "show_nat n =
     (if n < 10 then [char_of (48 + n)] else show_nat (n div 10) @ [char_of (48 + n mod 10)])"

declare show_nat.simps [simp del]

text \<open>The value of a string of digits.\<close>

definition read_digits :: "string \<Rightarrow> nat" where
  "read_digits v = foldl (\<lambda>n c. 10 * n + (byte c - 48)) 0 v"

section \<open>Replacing\<close>

fun replace_first :: "string \<Rightarrow> string \<Rightarrow> string \<Rightarrow> string" where
  "replace_first from to [] = (if from = [] then to else [])"
| "replace_first from to (c # s) =
     (case strip_prefix from (c # s) of
        Some t \<Rightarrow> to @ t
      | None \<Rightarrow> c # replace_first from to s)"

text \<open>Lemmas about prefixes; they also give the termination of \<open>trim_start_matches\<close>.\<close>

lemma strip_prefix_Some [simp]: "strip_prefix p s = Some t \<longleftrightarrow> s = p @ t"
  by (induction p s rule: strip_prefix.induct) auto

lemma strip_prefix_append [simp]: "strip_prefix p (p @ s) = Some s"
  by simp

lemma strip_prefix_None_iff: "strip_prefix p s = None \<longleftrightarrow> (\<forall>t. s \<noteq> p @ t)"
  by (metis not_None_eq strip_prefix_Some)

termination trim_start_matches
  by (relation "measure (\<lambda>(p, s). length s)") auto

text \<open>\<open>str::replace\<close> scans on after each replacement; the pattern is not empty where it is used.\<close>

function replace_all :: "string \<Rightarrow> string \<Rightarrow> string \<Rightarrow> string" where
  "replace_all from to s =
     (case s of
        [] \<Rightarrow> []
      | c # cs \<Rightarrow>
          (case strip_prefix from s of
             Some t \<Rightarrow> if from = [] then s else to @ replace_all from to t
           | None \<Rightarrow> c # replace_all from to cs))"
  by pat_completeness auto
termination
  by (relation "measure (\<lambda>(from, to, s). length s)") auto

declare trim_start_matches.simps [simp del]
declare trim_any_start.simps [simp del]
declare replace_all.simps [simp del]

lemma starts_with_iff: "starts_with s p \<longleftrightarrow> (\<exists>t. s = p @ t)"
  by (auto simp: starts_with_def strip_prefix_None_iff)

lemma starts_with_append [simp]: "starts_with (p @ t) p"
  by (auto simp: starts_with_iff)

lemma starts_with_self [simp]: "starts_with s s"
  by (auto simp: starts_with_iff)

lemma starts_with_simps [simp]:
  "starts_with s []"
  "\<not> starts_with [] (p # ps)"
  "starts_with (c # s) (p # ps) \<longleftrightarrow> p = c \<and> starts_with s ps"
  by (auto simp: starts_with_def)

lemma starts_with_trans: "starts_with s p \<Longrightarrow> starts_with p q \<Longrightarrow> starts_with s q"
  by (auto simp: starts_with_iff)

lemma strip_suffix_Some [simp]: "strip_suffix p s = Some t \<longleftrightarrow> s = t @ p"
  by (auto simp: strip_suffix_def) (metis rev_append rev_rev_ident)

lemma ends_with_iff: "ends_with s p \<longleftrightarrow> (\<exists>t. s = t @ p)"
  by (metis ends_with_def not_None_eq strip_suffix_Some)

lemma strip_prefix_None: "strip_prefix p s = None \<longleftrightarrow> \<not> starts_with s p"
  by (auto simp: starts_with_iff strip_prefix_None_iff)

lemma contains_str_iff: "contains_str s p \<longleftrightarrow> (\<exists>a b. s = a @ p @ b)"
proof (induction s)
  case (Cons c s)
  show ?case
  proof
    assume "contains_str (c # s) p"
    then consider "starts_with (c # s) p" | "contains_str s p" by auto
    then show "\<exists>a b. c # s = a @ p @ b"
    proof cases
      case 1
      then show ?thesis by (auto simp: starts_with_iff) (metis append_Nil)
    next
      case 2
      with Cons.IH show ?thesis by (metis append_Cons)
    qed
  next
    assume "\<exists>a b. c # s = a @ p @ b"
    then obtain a b where ab: "c # s = a @ p @ b" by blast
    show "contains_str (c # s) p"
    proof (cases a)
      case Nil
      with ab have "starts_with (c # s) p" by (auto simp: starts_with_iff)
      then show ?thesis by simp
    next
      case (Cons x xs)
      with ab Cons.IH show ?thesis by auto
    qed
  qed
qed auto

lemma trim_start_matches_not_prefix [simp]:
  "\<not> starts_with s p \<Longrightarrow> trim_start_matches p s = s"
  by (simp add: trim_start_matches.simps [of p s] flip: strip_prefix_None)

lemma trim_start_matches_strip:
  "p \<noteq> [] \<Longrightarrow> trim_start_matches p (p @ s) = trim_start_matches p s"
  by (simp only: trim_start_matches.simps [of p "p @ s"] strip_prefix_append) simp

lemma trim_start_matches_result:
  "p \<noteq> [] \<Longrightarrow> \<not> starts_with (trim_start_matches p s) p"
proof (induction p s rule: trim_start_matches.induct)
  case (1 p s)
  show ?case
  proof (cases "strip_prefix p s")
    case None
    then show ?thesis by (simp add: strip_prefix_None)
  next
    case (Some t)
    with 1 show ?thesis by (simp add: trim_start_matches_strip)
  qed
qed

text \<open>Splitting: the pieces have no separator and join back to the string.\<close>

lemma split_char_nonempty [simp]: "split_char d s \<noteq> []"
  by (induction s) (auto split: list.splits)

lemma split_char_no_sep: "w \<in> set (split_char d s) \<Longrightarrow> d \<notin> set w"
proof (induction s arbitrary: w)
  case (Cons c s)
  then show ?case by (auto split: if_splits list.splits)
qed simp

lemma join_split: "join_with [d] (split_char d s) = s"
proof (induction s)
  case (Cons c s)
  then show ?case
    by (cases "split_char d s" rule: remdups_adj.cases) auto
qed simp

lemma split_char_append_sep:
  "split_char d (a @ d # b) = split_char d a @ split_char d b"
proof (induction a)
  case (Cons c a)
  then show ?case by (cases "split_char d a") auto
qed simp

lemma split_char_none [simp]: "d \<notin> set s \<Longrightarrow> split_char d s = [s]"
  by (induction s) auto

lemma split_once_Some:
  "split_once d s = Some (a, b) \<longleftrightarrow> s = a @ d # b \<and> d \<notin> set a"
proof (induction s arbitrary: a)
  case (Cons c s)
  then show ?case by (cases a) auto
qed simp

lemma split_once_None: "split_once d s = None \<longleftrightarrow> d \<notin> set s"
  by (induction s) auto

lemma trim_end_matches_no_last:
  "trim_end_matches f s = [] \<or> \<not> f (last (trim_end_matches f s))"
proof -
  have "dropWhile f (rev s) = [] \<or> \<not> f (hd (dropWhile f (rev s)))"
    using hd_dropWhile by blast
  then show ?thesis by (auto simp: trim_end_matches_def last_rev)
qed

lemma eq_ignore_ascii_case_refl [simp]: "eq_ignore_ascii_case a a"
  by (simp add: eq_ignore_ascii_case_def)

lemma eq_ignore_ascii_case_sym: "eq_ignore_ascii_case a b \<Longrightarrow> eq_ignore_ascii_case b a"
  by (simp add: eq_ignore_ascii_case_def)

lemma show_nat_digits: "list_all is_ascii_digit (show_nat n)"
proof (induction n rule: show_nat.induct)
  case (1 n)
  have "is_ascii_digit (char_of (48 + n mod 10))" for n :: nat
    using mod_less_divisor [of 10 n] by (simp add: is_ascii_digit_def byte_def)
  from this [of n] 1 show ?case by (subst show_nat.simps) auto
qed

lemma show_nat_notin: "\<not> is_ascii_digit c \<Longrightarrow> c \<notin> set (show_nat n)"
  using show_nat_digits [of n] by (auto simp: list_all_iff)

lemma read_show_nat: "read_digits (show_nat n) = n"
proof (induction n rule: show_nat.induct)
  case (1 n)
  show ?case
  proof (cases "n < 10")
    case True
    then show ?thesis by (subst show_nat.simps) (simp add: read_digits_def byte_def)
  next
    case False
    with 1 show ?thesis by (subst show_nat.simps) (simp add: read_digits_def byte_def)
  qed
qed

section \<open>UTF-8\<close>

text \<open>\<open>std::str::from_utf8\<close>: the width of the first character, if the text begins with a valid one.\<close>

definition utf8_tail :: "nat \<Rightarrow> string \<Rightarrow> bool" where
  "utf8_tail n s = (n \<le> length s \<and> list_all (\<lambda>c. 128 \<le> byte c \<and> byte c < 192) (take n s))"

definition second_between :: "nat \<Rightarrow> nat \<Rightarrow> string \<Rightarrow> bool" where
  "second_between lo hi s = (case s of c # _ \<Rightarrow> lo \<le> byte c \<and> byte c \<le> hi | [] \<Rightarrow> False)"

fun utf8_width :: "string \<Rightarrow> nat option" where
  "utf8_width [] = None"
| "utf8_width (c # s) =
     (let b = byte c
      in if b < 128 then Some 1
         else if 194 \<le> b \<and> b \<le> 223 \<and> utf8_tail 1 s then Some 2
         else if b = 224 \<and> second_between 160 191 s \<and> utf8_tail 2 s then Some 3
         else if (225 \<le> b \<and> b \<le> 236 \<or> b = 238 \<or> b = 239) \<and> utf8_tail 2 s then Some 3
         else if b = 237 \<and> second_between 128 159 s \<and> utf8_tail 2 s then Some 3
         else if b = 240 \<and> second_between 144 191 s \<and> utf8_tail 3 s then Some 4
         else if 241 \<le> b \<and> b \<le> 243 \<and> utf8_tail 3 s then Some 4
         else if b = 244 \<and> second_between 128 143 s \<and> utf8_tail 3 s then Some 4
         else None)"

lemma utf8_width_pos: "utf8_width s = Some n \<Longrightarrow> s \<noteq> [] \<and> 0 < n"
  by (cases s) (auto simp: Let_def split: if_splits)

function valid_utf8 :: "string \<Rightarrow> bool" where
  "valid_utf8 s = (s = [] \<or> (case utf8_width s of Some n \<Rightarrow> valid_utf8 (drop n s) | None \<Rightarrow> False))"
  by pat_completeness auto
termination
  by (relation "measure length") (auto dest: utf8_width_pos)

declare valid_utf8.simps [simp del]

section \<open>Numbers\<close>

text \<open>\<open>str::parse::<u64>\<close>\<close>

definition parse_u64 :: "string \<Rightarrow> nat option" where
  "parse_u64 s =
     (let ds = (case s of c # ds \<Rightarrow> if c = CHR ''+'' then ds else s | [] \<Rightarrow> s)
      in if ds \<noteq> [] \<and> list_all is_ascii_digit ds \<and> read_digits ds < 2 ^ 64 then Some (read_digits ds) else None)"

end
