(* ===== verification/Gateway_Errors.thy ===== *)
theory Gateway_Errors
  imports Rust_Strings
begin

text \<open>
  The error type of the gateway (\<open>gateway-core/src/errors.rs\<close>): every variant, the HTTP status, the
  stable machine code and the public message of each, and the error body the listeners return.
\<close>

datatype (plugins only: code size) gateway_error =
    AuthenticationOverloaded
  | SourceRateLimitExceeded
  | AuthenticationProfileDenied
  | AuthenticationProfileConflict
  | MissingAuthorization
  | MalformedAuthorization
  | InvalidKeyPayload
  | InvalidVirtualKey
  | DisabledVirtualKey
  | RevokedVirtualKey
  | ExpiredVirtualKey
  | MissingEntraAuthorization
  | MalformedEntraAuthorization
  | InvalidEntraToken
  | ExpiredEntraToken
  | InvalidEntraAudience
  | InvalidEntraIssuer
  | InsufficientEntraAuthorization
  | UntrustedApigeeIdentity
  | InvalidOperatorToken
  | DisabledOperatorToken
  | InsufficientOperatorScope
  | InvalidPortalSession
  | PendingPortalMember
  | BlockedPortalMember
  | InsufficientPortalAccess
  | InvalidAccessPayload
  | InvalidOidcTransaction
  | OidcUnavailable
  | InvalidCsrfToken
  | UnsupportedRoute
  | DisabledRoute
  | RequestBodyTooLarge
  | ResponseBodyTooLarge
  | GatewayOverloaded
  | UpstreamTimeout
  | UpstreamConnection
  | LiteLlmAuthenticationConflict
  | PolicyDenied
  | RateLimitExceeded "nat option"
  | TokenRateLimitExceeded "nat option"
  | BudgetExceeded
  | GuardrailBlocked
  | GuardrailForbidden
  | GuardrailUnavailable
  | InvalidGuardrailRequest
  | DuplicateProject
  | MissingProject
  | ProjectInUse
  | InvalidProjectPayload
  | DuplicateProviderConfig
  | MissingProviderConfig
  | ProviderConfigInUse
  | InvalidProviderConfigPayload
  | InvalidFoundryConfiguration
  | InvalidFoundryRequest
  | FoundryCredentialUnavailable
  | DuplicateService
  | MissingService
  | DisabledService
  | IncompleteService
  | InvalidServicePayload
  | KeyProfileProjectConflict
  | InvalidServiceUpstream
  | ServiceOpenApiUnavailable
  | InvalidServiceOpenApi
  | ServiceOpenApiChanged
  | InvalidUsageQuery
  | MissingDebugBundle
  | MissingUsageEvent
  | StudioUnavailable
  | InvalidStudioConnectionPayload
  | ControlStateUnavailable
  | StoreUnavailable
  | InvalidConfiguration

type_synonym 'a gateway_result = "gateway_error + 'a"

primrec status_code :: "gateway_error \<Rightarrow> nat" where
  "status_code AuthenticationOverloaded = 503"
| "status_code SourceRateLimitExceeded = 429"
| "status_code AuthenticationProfileDenied = 403"
| "status_code AuthenticationProfileConflict = 409"
| "status_code MissingAuthorization = 401"
| "status_code MalformedAuthorization = 401"
| "status_code InvalidKeyPayload = 400"
| "status_code InvalidVirtualKey = 401"
| "status_code DisabledVirtualKey = 401"
| "status_code RevokedVirtualKey = 401"
| "status_code ExpiredVirtualKey = 401"
| "status_code MissingEntraAuthorization = 401"
| "status_code MalformedEntraAuthorization = 401"
| "status_code InvalidEntraToken = 401"
| "status_code ExpiredEntraToken = 401"
| "status_code InvalidEntraAudience = 401"
| "status_code InvalidEntraIssuer = 401"
| "status_code InsufficientEntraAuthorization = 403"
| "status_code UntrustedApigeeIdentity = 401"
| "status_code InvalidOperatorToken = 401"
| "status_code DisabledOperatorToken = 401"
| "status_code InsufficientOperatorScope = 403"
| "status_code InvalidPortalSession = 401"
| "status_code PendingPortalMember = 403"
| "status_code BlockedPortalMember = 403"
| "status_code InsufficientPortalAccess = 403"
| "status_code InvalidAccessPayload = 400"
| "status_code InvalidOidcTransaction = 401"
| "status_code OidcUnavailable = 502"
| "status_code InvalidCsrfToken = 403"
| "status_code UnsupportedRoute = 404"
| "status_code DisabledRoute = 403"
| "status_code RequestBodyTooLarge = 413"
| "status_code ResponseBodyTooLarge = 413"
| "status_code GatewayOverloaded = 503"
| "status_code UpstreamTimeout = 504"
| "status_code UpstreamConnection = 502"
| "status_code LiteLlmAuthenticationConflict = 503"
| "status_code PolicyDenied = 403"
| "status_code (RateLimitExceeded r) = 429"
| "status_code (TokenRateLimitExceeded r) = 429"
| "status_code BudgetExceeded = 402"
| "status_code GuardrailBlocked = 403"
| "status_code GuardrailForbidden = 403"
| "status_code GuardrailUnavailable = 502"
| "status_code InvalidGuardrailRequest = 400"
| "status_code DuplicateProject = 409"
| "status_code MissingProject = 404"
| "status_code ProjectInUse = 409"
| "status_code InvalidProjectPayload = 400"
| "status_code DuplicateProviderConfig = 409"
| "status_code MissingProviderConfig = 404"
| "status_code ProviderConfigInUse = 409"
| "status_code InvalidProviderConfigPayload = 400"
| "status_code InvalidFoundryConfiguration = 400"
| "status_code InvalidFoundryRequest = 400"
| "status_code FoundryCredentialUnavailable = 502"
| "status_code DuplicateService = 409"
| "status_code MissingService = 404"
| "status_code DisabledService = 403"
| "status_code IncompleteService = 409"
| "status_code InvalidServicePayload = 400"
| "status_code KeyProfileProjectConflict = 409"
| "status_code InvalidServiceUpstream = 400"
| "status_code ServiceOpenApiUnavailable = 502"
| "status_code InvalidServiceOpenApi = 400"
| "status_code ServiceOpenApiChanged = 409"
| "status_code InvalidUsageQuery = 400"
| "status_code MissingDebugBundle = 404"
| "status_code MissingUsageEvent = 404"
| "status_code StudioUnavailable = 502"
| "status_code InvalidStudioConnectionPayload = 400"
| "status_code ControlStateUnavailable = 503"
| "status_code StoreUnavailable = 502"
| "status_code InvalidConfiguration = 500"

primrec error_code :: "gateway_error \<Rightarrow> string" where
  "error_code AuthenticationOverloaded = ''authentication_overloaded''"
| "error_code SourceRateLimitExceeded = ''source_rate_limit_exceeded''"
| "error_code AuthenticationProfileDenied = ''authentication_profile_denied''"
| "error_code AuthenticationProfileConflict = ''authentication_profile_conflict''"
| "error_code MissingAuthorization = ''missing_authorization''"
| "error_code MalformedAuthorization = ''malformed_authorization''"
| "error_code InvalidKeyPayload = ''invalid_key_payload''"
| "error_code InvalidVirtualKey = ''invalid_virtual_key''"
| "error_code DisabledVirtualKey = ''disabled_virtual_key''"
| "error_code RevokedVirtualKey = ''revoked_virtual_key''"
| "error_code ExpiredVirtualKey = ''expired_virtual_key''"
| "error_code MissingEntraAuthorization = ''missing_entra_authorization''"
| "error_code MalformedEntraAuthorization = ''malformed_entra_authorization''"
| "error_code InvalidEntraToken = ''invalid_entra_token''"
| "error_code ExpiredEntraToken = ''expired_entra_token''"
| "error_code InvalidEntraAudience = ''invalid_entra_audience''"
| "error_code InvalidEntraIssuer = ''invalid_entra_issuer''"
| "error_code InsufficientEntraAuthorization = ''insufficient_entra_authorization''"
| "error_code UntrustedApigeeIdentity = ''untrusted_apigee_identity''"
| "error_code InvalidOperatorToken = ''invalid_operator_token''"
| "error_code DisabledOperatorToken = ''disabled_operator_token''"
| "error_code InsufficientOperatorScope = ''insufficient_operator_scope''"
| "error_code InvalidPortalSession = ''invalid_portal_session''"
| "error_code PendingPortalMember = ''pending_portal_member''"
| "error_code BlockedPortalMember = ''blocked_portal_member''"
| "error_code InsufficientPortalAccess = ''insufficient_portal_access''"
| "error_code InvalidAccessPayload = ''invalid_access_payload''"
| "error_code InvalidOidcTransaction = ''invalid_oidc_transaction''"
| "error_code OidcUnavailable = ''oidc_unavailable''"
| "error_code InvalidCsrfToken = ''invalid_csrf_token''"
| "error_code UnsupportedRoute = ''unsupported_route''"
| "error_code DisabledRoute = ''disabled_route''"
| "error_code RequestBodyTooLarge = ''request_body_too_large''"
| "error_code ResponseBodyTooLarge = ''response_body_too_large''"
| "error_code GatewayOverloaded = ''gateway_overloaded''"
| "error_code UpstreamTimeout = ''upstream_timeout''"
| "error_code UpstreamConnection = ''upstream_connection''"
| "error_code LiteLlmAuthenticationConflict = ''litellm_authentication_conflict''"
| "error_code PolicyDenied = ''policy_denied''"
| "error_code (RateLimitExceeded r) = ''rate_limit_exceeded''"
| "error_code (TokenRateLimitExceeded r) = ''token_rate_limit_exceeded''"
| "error_code BudgetExceeded = ''budget_exceeded''"
| "error_code GuardrailBlocked = ''guardrail_blocked''"
| "error_code GuardrailForbidden = ''guardrail_forbidden''"
| "error_code GuardrailUnavailable = ''guardrail_unavailable''"
| "error_code InvalidGuardrailRequest = ''invalid_guardrail_request''"
| "error_code DuplicateProject = ''duplicate_project''"
| "error_code MissingProject = ''missing_project''"
| "error_code ProjectInUse = ''project_in_use''"
| "error_code InvalidProjectPayload = ''invalid_project_payload''"
| "error_code DuplicateProviderConfig = ''duplicate_provider_config''"
| "error_code MissingProviderConfig = ''missing_provider_config''"
| "error_code ProviderConfigInUse = ''provider_config_in_use''"
| "error_code InvalidProviderConfigPayload = ''invalid_provider_config_payload''"
| "error_code InvalidFoundryConfiguration = ''invalid_foundry_configuration''"
| "error_code InvalidFoundryRequest = ''invalid_foundry_request''"
| "error_code FoundryCredentialUnavailable = ''foundry_credential_unavailable''"
| "error_code DuplicateService = ''duplicate_service''"
| "error_code MissingService = ''missing_service''"
| "error_code DisabledService = ''disabled_service''"
| "error_code IncompleteService = ''incomplete_service''"
| "error_code InvalidServicePayload = ''invalid_service_payload''"
| "error_code KeyProfileProjectConflict = ''key_profile_project_conflict''"
| "error_code InvalidServiceUpstream = ''invalid_service_upstream''"
| "error_code ServiceOpenApiUnavailable = ''service_openapi_unavailable''"
| "error_code InvalidServiceOpenApi = ''invalid_service_openapi''"
| "error_code ServiceOpenApiChanged = ''service_openapi_changed''"
| "error_code InvalidUsageQuery = ''invalid_usage_query''"
| "error_code MissingDebugBundle = ''debug_bundle_not_found''"
| "error_code MissingUsageEvent = ''request_not_found''"
| "error_code StudioUnavailable = ''studio_unavailable''"
| "error_code InvalidStudioConnectionPayload = ''invalid_studio_connection_payload''"
| "error_code ControlStateUnavailable = ''control_state_unavailable''"
| "error_code StoreUnavailable = ''store_unavailable''"
| "error_code InvalidConfiguration = ''invalid_configuration''"

primrec public_message :: "gateway_error \<Rightarrow> string" where
  "public_message AuthenticationOverloaded = ''Gateway authentication capacity is temporarily exhausted.''"
| "public_message SourceRateLimitExceeded = ''Source request rate limit exceeded.''"
| "public_message AuthenticationProfileDenied = ''Authentication profile selection denied.''"
| "public_message AuthenticationProfileConflict = ''Authentication configuration changed. Reload before saving.''"
| "public_message MissingAuthorization = ''Authorization header is required.''"
| "public_message MalformedAuthorization = ''Authorization header must be a Bearer Relayna key.''"
| "public_message InvalidKeyPayload = ''Key name must be at most 120 characters without control characters.''"
| "public_message InvalidVirtualKey = ''Virtual key is invalid.''"
| "public_message DisabledVirtualKey = ''Virtual key is disabled.''"
| "public_message RevokedVirtualKey = ''Virtual key is revoked.''"
| "public_message ExpiredVirtualKey = ''Virtual key has expired.''"
| "public_message MissingEntraAuthorization = ''Entra authorization is required.''"
| "public_message MalformedEntraAuthorization = ''Entra authorization must be a Bearer token.''"
| "public_message InvalidEntraToken = ''Entra token is invalid.''"
| "public_message ExpiredEntraToken = ''Entra token has expired.''"
| "public_message InvalidEntraAudience = ''Entra token audience is invalid.''"
| "public_message InvalidEntraIssuer = ''Entra token issuer is invalid.''"
| "public_message InsufficientEntraAuthorization = ''Entra token lacks the required gateway authorization.''"
| "public_message UntrustedApigeeIdentity = ''Apigee identity proof is untrusted.''"
| "public_message InvalidOperatorToken = ''Operator token is invalid.''"
| "public_message DisabledOperatorToken = ''Operator token is disabled.''"
| "public_message InsufficientOperatorScope = ''Operator token lacks the required scope.''"
| "public_message InvalidPortalSession = ''Portal session is invalid or expired.''"
| "public_message PendingPortalMember = ''Portal access is awaiting administrator approval.''"
| "public_message BlockedPortalMember = ''Portal access is blocked.''"
| "public_message InsufficientPortalAccess = ''Portal member lacks access to this resource.''"
| "public_message InvalidAccessPayload = ''Portal access payload is invalid.''"
| "public_message InvalidOidcTransaction = ''OIDC login transaction is invalid or expired.''"
| "public_message OidcUnavailable = ''OIDC provider is unavailable.''"
| "public_message InvalidCsrfToken = ''CSRF validation failed.''"
| "public_message UnsupportedRoute = ''Route is not supported by this gateway.''"
| "public_message DisabledRoute = ''Route is disabled by gateway policy.''"
| "public_message RequestBodyTooLarge = ''Request body exceeds the route limit.''"
| "public_message ResponseBodyTooLarge = ''Response body exceeds the policy limit.''"
| "public_message GatewayOverloaded = ''Gateway body processing capacity is temporarily exhausted.''"
| "public_message UpstreamTimeout = ''Upstream provider timed out.''"
| "public_message UpstreamConnection = ''Upstream provider is unavailable.''"
| "public_message LiteLlmAuthenticationConflict = ''LiteLLM caller-key mode conflicts with mandatory Gateway authentication. Review route profiles and inherited identity settings.''"
| "public_message PolicyDenied = ''Request is denied by key policy.''"
| "public_message (RateLimitExceeded r) = ''Rate limit exceeded.''"
| "public_message (TokenRateLimitExceeded r) = ''Token rate limit exceeded.''"
| "public_message BudgetExceeded = ''Budget limit exceeded.''"
| "public_message GuardrailBlocked = ''Request was blocked by a gateway guardrail.''"
| "public_message GuardrailForbidden = ''Guardrail is not allowed by policy.''"
| "public_message GuardrailUnavailable = ''Gateway guardrail is unavailable.''"
| "public_message InvalidGuardrailRequest = ''Guardrail request is invalid.''"
| "public_message DuplicateProject = ''Project already exists.''"
| "public_message MissingProject = ''Project was not found.''"
| "public_message ProjectInUse = ''Project is still referenced.''"
| "public_message InvalidProjectPayload = ''Project payload is invalid.''"
| "public_message DuplicateProviderConfig = ''Provider configuration already exists.''"
| "public_message MissingProviderConfig = ''Provider configuration was not found.''"
| "public_message ProviderConfigInUse = ''This provider is used by registered Foundry services. Reassign or delete those services before deleting the provider.''"
| "public_message InvalidProviderConfigPayload = ''Provider configuration payload is invalid.''"
| "public_message InvalidFoundryConfiguration = ''Check the Foundry project endpoint, Azure identity and provider connection. Registered agents need a valid agent name and optional version.''"
| "public_message InvalidFoundryRequest = ''Use POST responses with inline text input. Stored conversations, response IDs, background execution and registered-agent overrides are not supported.''"
| "public_message FoundryCredentialUnavailable = ''The gateway could not obtain an Azure token. Ask an administrator to check the Foundry identity credentials and Azure connectivity.''"
| "public_message DuplicateService = ''Service registration already exists.''"
| "public_message MissingService = ''Service registration was not found.''"
| "public_message DisabledService = ''Service registration is disabled.''"
| "public_message IncompleteService = ''Service registration is incomplete.''"
| "public_message InvalidServicePayload = ''Service registration payload is invalid.''"
| "public_message KeyProfileProjectConflict = ''This key is assigned to authentication profiles in its current project. Remove those service profile assignments before changing the key project, then assign it to profiles in the new project.''"
| "public_message InvalidServiceUpstream = ''Service upstream configuration is invalid.''"
| "public_message ServiceOpenApiUnavailable = ''Service OpenAPI document is unavailable.''"
| "public_message InvalidServiceOpenApi = ''Service OpenAPI document is invalid.''"
| "public_message ServiceOpenApiChanged = ''Service OpenAPI document changed after preview; preview it again.''"
| "public_message InvalidUsageQuery = ''Usage query is invalid.''"
| "public_message MissingDebugBundle = ''No debug bundle was captured for this request. Try a proxy request that records debug traces.''"
| "public_message MissingUsageEvent = ''No request exists for the supplied request ID.''"
| "public_message StudioUnavailable = ''Relayna Studio catalog is unavailable.''"
| "public_message InvalidStudioConnectionPayload = ''Studio connection payload is invalid.''"
| "public_message ControlStateUnavailable = ''Gateway control state is unavailable.''"
| "public_message StoreUnavailable = ''Gateway store is unavailable.''"
| "public_message InvalidConfiguration = ''Gateway configuration is invalid.''"

record error_envelope =
  env_code :: string
  env_message :: string
  env_request_id :: string
  env_retry_after_seconds :: "nat option"

record error_body =
  error_of_body :: error_envelope

definition retry_after :: "gateway_error \<Rightarrow> nat option" where
  "retry_after e =
     (case e of
        RateLimitExceeded r \<Rightarrow> r
      | TokenRateLimitExceeded r \<Rightarrow> r
      | GatewayOverloaded \<Rightarrow> Some 1
      | AuthenticationOverloaded \<Rightarrow> Some 1
      | SourceRateLimitExceeded \<Rightarrow> Some 1
      | _ \<Rightarrow> None)"

definition gateway_error_body :: "gateway_error \<Rightarrow> string \<Rightarrow> error_body" where
  "gateway_error_body e request_id =
     \<lparr>error_of_body =
        \<lparr>env_code = error_code e, env_message = public_message e, env_request_id = request_id,
         env_retry_after_seconds = retry_after e\<rparr>\<rparr>"

section \<open>Laws\<close>

lemma status_code_class: "400 \<le> status_code e \<and> status_code e < 600"
  by (cases e) simp_all

text \<open>Only overload and limit answers carry a retry hint, and they are 429 or 503.\<close>

lemma retry_after_status: "retry_after e = Some n \<Longrightarrow> status_code e \<in> {429, 503}"
  by (cases e) (simp_all add: retry_after_def)

end
