(* ===== verification/F64.thy ===== *)
theory F64
  imports Gateway_Prelude "HOL-Library.Log_Nat"
begin

text \<open>
  Rust's \<open>f64\<close> (IEEE 754 binary64). A value is not-a-number, an infinity or a rational number; the
  two zeros are one value, which no comparison of the gateway tells apart. Arithmetic is exact
  rational arithmetic followed by the rounding of the standard, to the nearest representable number
  and to the even one of two nearest, so every operation here evaluates.
\<close>

datatype f64 = NaN | NegInf | PosInf | Fin rat

section \<open>Comparison\<close>

fun f64_lt :: "f64 \<Rightarrow> f64 \<Rightarrow> bool" where
  "f64_lt (Fin a) (Fin b) = (a < b)"
| "f64_lt (Fin a) PosInf = True"
| "f64_lt NegInf (Fin b) = True"
| "f64_lt NegInf PosInf = True"
| "f64_lt _ _ = False"

fun f64_le :: "f64 \<Rightarrow> f64 \<Rightarrow> bool" where
  "f64_le (Fin a) (Fin b) = (a \<le> b)"
| "f64_le NaN _ = False"
| "f64_le _ NaN = False"
| "f64_le NegInf _ = True"
| "f64_le _ PosInf = True"
| "f64_le _ _ = False"

definition is_nan :: "f64 \<Rightarrow> bool" where
  "is_nan x = (x = NaN)"

fun is_finite :: "f64 \<Rightarrow> bool" where
  "is_finite (Fin _) = True"
| "is_finite _ = False"

text \<open>\<open>f64::min\<close> and \<open>f64::max\<close> return the other operand when one is not a number.\<close>

definition f64_min :: "f64 \<Rightarrow> f64 \<Rightarrow> f64" where
  "f64_min a b = (if a = NaN then b else if b = NaN then a else if f64_lt b a then b else a)"

definition f64_max :: "f64 \<Rightarrow> f64 \<Rightarrow> f64" where
  "f64_max a b = (if a = NaN then b else if b = NaN then a else if f64_lt a b then b else a)"

section \<open>Rounding\<close>

definition pow2 :: "int \<Rightarrow> rat" where
  "pow2 e = (if 0 \<le> e then 2 ^ nat e else 1 / 2 ^ nat (- e))"

text \<open>The exponent of a positive rational: \<open>pow2 e \<le> x < pow2 (e + 1)\<close>.\<close>

definition exponent :: "rat \<Rightarrow> int" where
  "exponent x =
     (case quotient_of x of (p, q) \<Rightarrow>
        let e = bitlen p - bitlen q in if pow2 e \<le> x then e else e - 1)"

definition round_half_even :: "rat \<Rightarrow> int" where
  "round_half_even q =
     (let f = \<lfloor>q\<rfloor>; d = q - of_int f
      in if d < 1 / 2 then f else if 1 / 2 < d then f + 1 else if even f then f else f + 1)"

text \<open>52 fraction bits; below the exponent -1022 the numbers are subnormal, spaced \<open>2 ^ -1074\<close>.\<close>

definition unit_exponent :: "rat \<Rightarrow> int" where
  "unit_exponent x = max (exponent x - 52) (- 1074)"

definition round_pos :: "rat \<Rightarrow> f64" where
  "round_pos x =
     (let u = pow2 (unit_exponent x); v = of_int (round_half_even (x / u)) * u
      in if v < pow2 1024 then Fin v else PosInf)"

fun f64_neg :: "f64 \<Rightarrow> f64" where
  "f64_neg NaN = NaN"
| "f64_neg NegInf = PosInf"
| "f64_neg PosInf = NegInf"
| "f64_neg (Fin a) = Fin (- a)"

definition round64 :: "rat \<Rightarrow> f64" where
  "round64 x = (if x = 0 then Fin 0 else if 0 < x then round_pos x else f64_neg (round_pos (- x)))"

section \<open>Arithmetic\<close>

fun f64_add :: "f64 \<Rightarrow> f64 \<Rightarrow> f64" where
  "f64_add (Fin a) (Fin b) = round64 (a + b)"
| "f64_add NaN _ = NaN"
| "f64_add _ NaN = NaN"
| "f64_add PosInf NegInf = NaN"
| "f64_add NegInf PosInf = NaN"
| "f64_add PosInf _ = PosInf"
| "f64_add _ PosInf = PosInf"
| "f64_add NegInf _ = NegInf"
| "f64_add _ NegInf = NegInf"

definition f64_sub :: "f64 \<Rightarrow> f64 \<Rightarrow> f64" where
  "f64_sub a b = f64_add a (f64_neg b)"

definition f64_sign :: "f64 \<Rightarrow> rat" where
  "f64_sign x = (case x of PosInf \<Rightarrow> 1 | NegInf \<Rightarrow> - 1 | Fin a \<Rightarrow> sgn a | NaN \<Rightarrow> 0)"

definition f64_inf :: "rat \<Rightarrow> f64" where
  "f64_inf s = (if s = 0 then NaN else if 0 < s then PosInf else NegInf)"

definition f64_mul :: "f64 \<Rightarrow> f64 \<Rightarrow> f64" where
  "f64_mul a b =
     (case (a, b) of
        (Fin x, Fin y) \<Rightarrow> round64 (x * y)
      | (NaN, _) \<Rightarrow> NaN
      | (_, NaN) \<Rightarrow> NaN
      | _ \<Rightarrow> f64_inf (f64_sign a * f64_sign b))"

text \<open>Division by a positive finite divisor, the only division of the modelled code.\<close>

definition f64_div_pos :: "f64 \<Rightarrow> rat \<Rightarrow> f64" where
  "f64_div_pos a d = (case a of Fin x \<Rightarrow> round64 (x / d) | _ \<Rightarrow> a)"

text \<open>\<open>n as f64\<close> for an unsigned integer.\<close>

definition f64_of_nat :: "nat \<Rightarrow> f64" where
  "f64_of_nat n = round64 (of_nat n)"

definition f64_nonneg :: "f64 \<Rightarrow> bool" where
  "f64_nonneg x = f64_le (Fin 0) x"

section \<open>Laws\<close>

lemma f64_lt_irrefl [simp]: "\<not> f64_lt x x"
  by (cases x) auto

lemma f64_lt_asym: "f64_lt x y \<Longrightarrow> \<not> f64_lt y x"
  by (cases x; cases y) auto

lemma f64_lt_trans: "f64_lt x y \<Longrightarrow> f64_lt y z \<Longrightarrow> f64_lt x z"
  by (cases x; cases y; cases z) auto

lemma f64_le_refl [simp]: "f64_le x x \<longleftrightarrow> x \<noteq> NaN"
  by (cases x) auto

lemma f64_le_trans: "f64_le x y \<Longrightarrow> f64_le y z \<Longrightarrow> f64_le x z"
  by (cases x; cases y; cases z) auto

lemma f64_le_NaN [simp]: "\<not> f64_le NaN x" "\<not> f64_le x NaN"
  by (cases x; simp)+

lemma f64_lt_NaN [simp]: "\<not> f64_lt NaN x" "\<not> f64_lt x NaN"
  by (cases x; simp)+

lemma f64_not_lt_le: "x \<noteq> NaN \<Longrightarrow> y \<noteq> NaN \<Longrightarrow> \<not> f64_lt x y \<longleftrightarrow> f64_le y x"
  by (cases x; cases y) auto

lemma f64_gt_min:
  "b \<noteq> NaN \<Longrightarrow> c \<noteq> NaN \<Longrightarrow> f64_lt (f64_min b c) x \<longleftrightarrow> f64_lt b x \<or> f64_lt c x"
  by (cases b; cases c; cases x) (auto simp: f64_min_def)

lemma f64_min_not_NaN: "b \<noteq> NaN \<Longrightarrow> c \<noteq> NaN \<Longrightarrow> f64_min b c \<noteq> NaN"
  by (auto simp: f64_min_def)

lemma f64_min_le: "a \<noteq> NaN \<Longrightarrow> b \<noteq> NaN \<Longrightarrow> f64_le (f64_min a b) b"
  by (cases a; cases b) (auto simp: f64_min_def)

lemma f64_max_ge: "a \<noteq> NaN \<Longrightarrow> b \<noteq> NaN \<Longrightarrow> f64_le a (f64_max a b) \<and> f64_le b (f64_max a b)"
  by (cases a; cases b) (auto simp: f64_max_def)

lemma pow2_pos [simp]: "0 < pow2 e"
  by (simp add: pow2_def)

lemma pow2_Suc: "pow2 (e + 1) = 2 * pow2 e"
proof (cases "0 \<le> e")
  case True
  then show ?thesis by (simp add: pow2_def nat_add_distrib)
next
  case False
  then have "nat (- e) = Suc (nat (- (e + 1)))" by simp
  with False show ?thesis by (auto simp: pow2_def)
qed

lemma round_half_even_int [simp]: "round_half_even (of_int n) = n"
  by (simp add: round_half_even_def)

lemma round_half_even_nonneg: "0 \<le> q \<Longrightarrow> 0 \<le> round_half_even q"
  by (auto simp: round_half_even_def Let_def)

lemma round_pos_nonneg: "0 < x \<Longrightarrow> f64_nonneg (round_pos x)"
  by (simp add: round_pos_def Let_def f64_nonneg_def round_half_even_nonneg less_imp_le)

lemma round64_nonneg: "0 \<le> x \<Longrightarrow> f64_nonneg (round64 x)"
  using round_pos_nonneg [of x] by (auto simp: round64_def f64_nonneg_def)

lemma f64_nonneg_iff: "f64_nonneg x \<longleftrightarrow> x = PosInf \<or> (\<exists>v \<ge> 0. x = Fin v)"
  by (cases x) (auto simp: f64_nonneg_def)

lemma f64_add_nonneg: "f64_nonneg a \<Longrightarrow> f64_nonneg b \<Longrightarrow> f64_nonneg (f64_add a b)"
proof -
  have "f64_nonneg (round64 (v + w))" if "0 \<le> v" "0 \<le> w" for v w
    using that by (simp add: round64_nonneg)
  then show "f64_nonneg a \<Longrightarrow> f64_nonneg b \<Longrightarrow> f64_nonneg (f64_add a b)"
    by (cases a; cases b) (auto simp: f64_nonneg_def)
qed

lemma f64_mul_nonneg:
  "0 \<le> x \<Longrightarrow> 0 \<le> y \<Longrightarrow> f64_nonneg (f64_mul (Fin x) (Fin y))"
  by (simp add: f64_mul_def round64_nonneg)

text \<open>Integers up to \<open>2 ^ 53\<close> are represented exactly.\<close>

lemma pow2_nat: "0 \<le> e \<Longrightarrow> pow2 e = of_int (2 ^ nat e)"
  by (simp add: pow2_def)

lemma pow2_add: "0 \<le> d \<Longrightarrow> pow2 (e + d) = pow2 e * 2 ^ nat d"
proof (induction "nat d" arbitrary: d)
  case (Suc n)
  then have d: "0 \<le> d - 1" "n = nat (d - 1)" "nat d = Suc (nat (d - 1))" by auto
  have "pow2 (e + d) = 2 * pow2 (e + (d - 1))" using pow2_Suc [of "e + (d - 1)"] by simp
  also have "\<dots> = 2 * (pow2 e * 2 ^ nat (d - 1))" using Suc(1) [OF d(2) d(1)] by simp
  finally show ?case using d(3) by simp
qed simp

lemma pow2_mono: "a \<le> b \<Longrightarrow> pow2 a \<le> pow2 b"
  using pow2_add [of "b - a" a] by simp

lemma pow2_neg_mult: "0 \<le> k \<Longrightarrow> pow2 (- k) * of_int (2 ^ nat k) = 1"
  by (cases "k = 0") (auto simp: pow2_def)

lemma exponent_int:
  assumes "0 < n" and "n < 2 ^ 53"
  shows "exponent (of_int n) \<le> 52"
proof -
  have "bitlen n \<le> 53" using assms bitlen_le_iff_power [of n 53] by simp
  moreover have "bitlen (1 :: int) = 1" by code_simp
  ultimately show ?thesis by (simp add: exponent_def Let_def)
qed

lemma round64_int:
  assumes "0 \<le> n" and "n < 2 ^ 53"
  shows "round64 (of_int n) = Fin (of_int n)"
proof (cases "n = 0")
  case False
  with assms have n: "0 < n" by simp
  define k where "k = - unit_exponent (of_int n)"
  have k: "0 \<le> k" using exponent_int [OF n assms(2)] by (simp add: k_def unit_exponent_def)
  have unit: "pow2 (unit_exponent (of_int n)) = pow2 (- k)" by (simp add: k_def)
  have inv: "1 / pow2 (- k) = of_int (2 ^ nat k)"
    using pow2_neg_mult [OF k] pow2_pos [of "- k"] by (metis less_irrefl nonzero_mult_div_cancel_left)
  have "of_int n / pow2 (- k) = of_int n * (1 / pow2 (- k))" by simp
  then have "of_int n / pow2 (- k) = of_int (n * 2 ^ nat k)" by (simp only: inv of_int_mult)
  then have "of_int (round_half_even (of_int n / pow2 (- k))) * pow2 (- k) = of_int n"
    using pow2_neg_mult [OF k] by (simp only: round_half_even_int) (simp add: mult.commute)
  moreover have "of_int n < pow2 1024"
  proof -
    have "(of_int n :: rat) < of_int (2 ^ 53)" using assms(2) by (simp only: of_int_less_iff)
    also have "\<dots> = pow2 53" by (simp add: pow2_def)
    also have "\<dots> \<le> pow2 1024" by (rule pow2_mono) simp
    finally show ?thesis .
  qed
  ultimately have "round_pos (of_int n) = Fin (of_int n)"
    by (simp add: round_pos_def Let_def unit)
  with n show ?thesis by (simp add: round64_def)
qed (simp add: round64_def)

lemma f64_of_nat_exact: "n < 2 ^ 53 \<Longrightarrow> f64_of_nat n = Fin (of_nat n)"
  using round64_int [of "int n"] by (simp add: f64_of_nat_def)

end
