(* ===== verification/Routing.thy ===== *)
theory Routing
  imports Gateway_Errors F64
begin

text \<open>
  Route resolution (\<open>gateway-core/src/routing.rs\<close>): the providers, routes and backends, the
  resolution of a method and a path to a route with its limits, in the order of the match arms of
  \<open>Route::resolve_match\<close>, and the status codes that may be retried. An HTTP method is its token.
\<close>

datatype provider = LiteLlm | OpenAiCompatible | InternalService

datatype route =
    ChatCompletions
  | Responses
  | LiteLlmEmbeddings
  | LiteLlmRerank
  | AnthropicMessages
  | AnthropicMessagesCountTokens
  | AnthropicMessageBatches
  | AnthropicMessageBatch
  | AnthropicMessageBatchResults
  | AnthropicMessageBatchCancel
  | AnthropicModels
  | DirectOpenAi
  | LiteLlmPassthrough
  | Summary
  | Translation
  | Ocr
  | Embeddings
  | ServiceWildcard

datatype backend_type = LiteLlmBackend | DirectProvider | InternalServiceBackend

record route_match =
  rm_route :: route
  rm_backend :: backend_type
  rm_provider :: provider
  rm_service_name :: "string option"
  rm_timeout_ms :: nat
  rm_max_body_bytes :: nat
  rm_max_response_body_bytes :: nat
  rm_estimated_cost_usd :: "f64 option"

definition litellm_match :: "route \<Rightarrow> route_match" where
  "litellm_match r =
     \<lparr>rm_route = r, rm_backend = LiteLlmBackend, rm_provider = LiteLlm, rm_service_name = None,
      rm_timeout_ms = 120000, rm_max_body_bytes = 1048576, rm_max_response_body_bytes = 1048576,
      rm_estimated_cost_usd = Some (round64 (1 / 100))\<rparr>"

definition service_match :: "route \<Rightarrow> string \<Rightarrow> route_match" where
  "service_match r service_name =
     \<lparr>rm_route = r, rm_backend = InternalServiceBackend, rm_provider = InternalService,
      rm_service_name = Some service_name,
      rm_timeout_ms = 60000, rm_max_body_bytes = 2097152, rm_max_response_body_bytes = usize_max,
      rm_estimated_cost_usd = Some (round64 (1 / 100))\<rparr>"

definition direct_openai_match :: route_match where
  "direct_openai_match =
     \<lparr>rm_route = DirectOpenAi, rm_backend = DirectProvider, rm_provider = OpenAiCompatible,
      rm_service_name = None,
      rm_timeout_ms = 60000, rm_max_body_bytes = 1048576, rm_max_response_body_bytes = 1048576,
      rm_estimated_cost_usd = Some (round64 (1 / 100))\<rparr>"

text \<open>The service name of a \<open>/services/\<close> path: the first segment after the prefix, if any.\<close>

definition wildcard_service_name :: "string \<Rightarrow> string option" where
  "wildcard_service_name path =
     (case split_char CHR ''/'' (trim_start_matches ''/services/'' path) of
        [] \<Rightarrow> None
      | name # _ \<Rightarrow> if name = [] then None else Some name)"

definition resolve_match :: "string \<Rightarrow> string \<Rightarrow> route_match gateway_result" where
  "resolve_match meth path =
     (if path \<in> {''/chat/completions'', ''/v1/chat/completions''} \<and> meth = ''POST''
        then Ok (litellm_match ChatCompletions)
      else if path \<in> {''/responses'', ''/v1/responses''} \<and> meth = ''POST''
        then Ok (litellm_match Responses)
      else if path \<in> {''/embeddings'', ''/v1/embeddings''} \<and> meth = ''POST''
        then Ok (litellm_match LiteLlmEmbeddings)
      else if path \<in> {''/rerank'', ''/v1/rerank'', ''/v2/rerank''} \<and> meth = ''POST''
        then Ok (litellm_match LiteLlmRerank)
      else if path = ''/v1/messages'' \<and> meth = ''POST''
        then Ok (litellm_match AnthropicMessages)
      else if path = ''/v1/messages/count_tokens'' \<and> meth = ''POST''
        then Ok (litellm_match AnthropicMessagesCountTokens)
      else if path = ''/v1/messages/batches'' \<and> (meth = ''POST'' \<or> meth = ''GET'')
        then Ok (litellm_match AnthropicMessageBatches)
      else if meth = ''GET'' \<and> starts_with path ''/v1/messages/batches/''
          \<and> ends_with path ''/results''
        then Ok (litellm_match AnthropicMessageBatchResults)
      else if meth = ''GET'' \<and> starts_with path ''/v1/messages/batches/''
        then Ok (litellm_match AnthropicMessageBatch)
      else if meth = ''POST'' \<and> starts_with path ''/v1/messages/batches/''
          \<and> ends_with path ''/cancel''
        then Ok (litellm_match AnthropicMessageBatchCancel)
      else if path = ''/v1/models'' \<and> meth = ''GET''
        then Ok (litellm_match AnthropicModels)
      else if path = ''/summary'' \<and> meth = ''POST''
        then Ok (service_match Summary ''summary'')
      else if path = ''/translation'' \<and> meth = ''POST''
        then Ok (service_match Translation ''translation'')
      else if path = ''/ocr'' \<and> meth = ''POST''
        then Ok (service_match Ocr ''ocr'')
      else if starts_with path ''/services/''
        then and_then (ok_or (wildcard_service_name path) UnsupportedRoute)
               (\<lambda>name. Ok (service_match ServiceWildcard name))
      else if meth = ''POST'' \<and> starts_with path ''/providers/openai/''
        then Ok direct_openai_match
      else Err UnsupportedRoute)"

definition resolve :: "string \<Rightarrow> string \<Rightarrow> route gateway_result" where
  "resolve meth path = and_then (resolve_match meth path) (\<lambda>m. Ok (rm_route m))"

fun route_as_str :: "route \<Rightarrow> string" where
  "route_as_str ChatCompletions = ''/v1/chat/completions''"
| "route_as_str Responses = ''/v1/responses''"
| "route_as_str LiteLlmEmbeddings = ''/v1/embeddings''"
| "route_as_str LiteLlmRerank = ''/v1/rerank''"
| "route_as_str AnthropicMessages = ''/v1/messages''"
| "route_as_str AnthropicMessagesCountTokens = ''/v1/messages/count_tokens''"
| "route_as_str AnthropicMessageBatches = ''/v1/messages/batches''"
| "route_as_str AnthropicMessageBatch = ''/v1/messages/batches/*''"
| "route_as_str AnthropicMessageBatchResults = ''/v1/messages/batches/*/results''"
| "route_as_str AnthropicMessageBatchCancel = ''/v1/messages/batches/*/cancel''"
| "route_as_str AnthropicModels = ''/v1/models''"
| "route_as_str DirectOpenAi = ''/providers/openai/*''"
| "route_as_str LiteLlmPassthrough = ''/litellm/*''"
| "route_as_str Summary = ''/summary''"
| "route_as_str Translation = ''/translation''"
| "route_as_str Ocr = ''/ocr''"
| "route_as_str Embeddings = ''/embeddings''"
| "route_as_str ServiceWildcard = ''/services/*''"

fun provider_as_str :: "provider \<Rightarrow> string" where
  "provider_as_str LiteLlm = ''litellm''"
| "provider_as_str OpenAiCompatible = ''openai-compatible''"
| "provider_as_str InternalService = ''internal-service''"

definition is_retry_safe_status :: "nat \<Rightarrow> bool" where
  "is_retry_safe_status status \<longleftrightarrow> status \<in> {429, 500, 502, 503, 504}"

section \<open>Laws\<close>

lemma route_as_str_inj: "route_as_str a = route_as_str b \<longleftrightarrow> a = b"
  by (cases a; cases b) simp_all

text \<open>The name a wildcard path yields: not empty, without a slash.\<close>

lemma wildcard_service_name_Some:
  assumes "wildcard_service_name path = Some name"
  shows "name \<noteq> []" and "CHR ''/'' \<notin> set name"
proof -
  obtain ws where ws: "split_char CHR ''/'' (trim_start_matches ''/services/'' path) = name # ws"
    and ne: "name \<noteq> []"
    using assms by (auto simp: wildcard_service_name_def split: list.splits if_splits)
  from ne show "name \<noteq> []" .
  from ws show "CHR ''/'' \<notin> set name"
    by (intro split_char_no_sep [of _ _ "trim_start_matches ''/services/'' path"]) simp
qed

lemma trim_services_strip:
  "trim_start_matches ''/services/'' (''/services/'' @ t) = trim_start_matches ''/services/'' t"
  by (rule trim_start_matches_strip) simp

lemma wildcard_service_name_path:
  assumes "name \<noteq> []" and "CHR ''/'' \<notin> set name"
  shows "wildcard_service_name (''/services/'' @ name @ CHR ''/'' # rest) = Some name"
proof -
  have "\<not> starts_with (name @ CHR ''/'' # rest) ''/services/''"
    using assms by (cases name) auto
  then have "trim_start_matches ''/services/'' (''/services/'' @ name @ CHR ''/'' # rest)
      = name @ CHR ''/'' # rest"
    unfolding trim_services_strip by (rule trim_start_matches_not_prefix)
  then show ?thesis
    using assms by (simp add: wildcard_service_name_def split_char_append_sep)
qed

text \<open>Backend, provider, route and service name of a match fit together and fit the path.\<close>

definition route_match_consistent :: "string \<Rightarrow> route_match \<Rightarrow> bool" where
  "route_match_consistent path m =
     (case rm_backend m of
        LiteLlmBackend \<Rightarrow> rm_provider m = LiteLlm \<and> rm_service_name m = None \<and>
          rm_route m \<in> {ChatCompletions, Responses, LiteLlmEmbeddings, LiteLlmRerank,
            AnthropicMessages, AnthropicMessagesCountTokens, AnthropicMessageBatches,
            AnthropicMessageBatch, AnthropicMessageBatchResults, AnthropicMessageBatchCancel,
            AnthropicModels}
      | DirectProvider \<Rightarrow> rm_provider m = OpenAiCompatible \<and> rm_service_name m = None \<and>
          rm_route m = DirectOpenAi
      | InternalServiceBackend \<Rightarrow> rm_provider m = InternalService \<and>
          (\<exists>name. rm_service_name m = Some name \<and> name \<noteq> [] \<and> CHR ''/'' \<notin> set name \<and>
            (rm_route m \<in> {Summary, Translation, Ocr} \<and> path = ''/'' @ name \<and> path = route_as_str (rm_route m) \<or>
             rm_route m = ServiceWildcard \<and> wildcard_service_name path = Some name)))"

lemma consistent_litellm:
  "r \<in> {ChatCompletions, Responses, LiteLlmEmbeddings, LiteLlmRerank, AnthropicMessages,
      AnthropicMessagesCountTokens, AnthropicMessageBatches, AnthropicMessageBatch,
      AnthropicMessageBatchResults, AnthropicMessageBatchCancel, AnthropicModels}
   \<Longrightarrow> route_match_consistent path (litellm_match r)"
  by (simp add: route_match_consistent_def litellm_match_def)

lemma consistent_service:
  "r \<in> {Summary, Translation, Ocr} \<Longrightarrow> name = tl (route_as_str r) \<Longrightarrow> path = route_as_str r
   \<Longrightarrow> route_match_consistent path (service_match r name)"
  "wildcard_service_name path = Some name \<Longrightarrow> route_match_consistent path (service_match ServiceWildcard name)"
  using wildcard_service_name_Some [of path name]
  by (auto simp: route_match_consistent_def service_match_def)

lemma consistent_direct: "route_match_consistent path direct_openai_match"
  by (simp add: route_match_consistent_def direct_openai_match_def)

lemmas consistent_intros = consistent_litellm consistent_service consistent_direct

lemma wildcard_OkE:
  assumes "(if starts_with path ''/services/''
            then and_then (ok_or (wildcard_service_name path) UnsupportedRoute)
                   (\<lambda>name. Ok (service_match ServiceWildcard name))
            else r) = Ok m"
  obtains name where "m = service_match ServiceWildcard name" "wildcard_service_name path = Some name"
    | "r = Ok m"
  using assms by (auto split: if_splits)

section \<open>Properties\<close>

text \<open>
  Whatever \<open>Route::resolve_match\<close> returns is consistent: the backend determines the
  provider and the family of routes; internal-service matches, and only they, carry a service name,
  which is the one the path names: the whole path of a built-in route, the first segment after
  \<open>/services/\<close> otherwise. It is never empty and never contains a slash (so it cannot smuggle a second
  path segment into the registry lookup).
\<close>

theorem resolve_match_consistent:
  assumes "resolve_match meth path = Ok m"
  shows "route_match_consistent path m"
  using assms unfolding resolve_match_def
  by (elim if_OkE wildcard_OkE) (simp_all add: consistent_intros)

theorem resolve_match_consistent_witness:
  "route_match_consistent ''/services/custom-ai/run'' (service_match ServiceWildcard ''custom-ai'')"
proof (rule resolve_match_consistent)
  have "wildcard_service_name (''/services/'' @ ''custom-ai'' @ CHR ''/'' # ''run'') = Some ''custom-ai''"
    by (rule wildcard_service_name_path) simp_all
  then show "resolve_match ''GET'' ''/services/custom-ai/run'' =
      Ok (service_match ServiceWildcard ''custom-ai'')"
    by (simp add: resolve_match_def starts_with_iff)
qed

text \<open>
  Generation stays closed to other methods: a match on a canonical OpenAI-compatible
  generation route or on the direct provider comes from a \<open>POST\<close>, a \<open>GET\<close> reaches LiteLLM only on
  the batch and model listings, and every other method reaches only registered services.
\<close>

theorem resolve_match_methods:
  assumes "resolve_match meth path = Ok m"
  shows "(rm_backend m = DirectProvider \<longrightarrow> meth = ''POST'') \<and>
    (rm_backend m = LiteLlmBackend \<longrightarrow> meth = ''POST'' \<or>
      meth = ''GET'' \<and> rm_route m \<in> {AnthropicMessageBatches, AnthropicMessageBatch,
        AnthropicMessageBatchResults, AnthropicModels}) \<and>
    (meth \<notin> {''GET'', ''POST''} \<longrightarrow> rm_route m = ServiceWildcard)"
  using assms unfolding resolve_match_def
  by (elim if_OkE wildcard_OkE)
    (auto simp: litellm_match_def service_match_def direct_openai_match_def)

theorem resolve_match_methods_witness:
  "resolve_match ''GET'' ''/v1/models'' = Ok (litellm_match AnthropicModels) \<and>
   (''GET'' = ''POST'' \<or> ''GET'' = ''GET'' \<and>
     rm_route (litellm_match AnthropicModels) \<in> {AnthropicMessageBatches, AnthropicMessageBatch,
       AnthropicMessageBatchResults, AnthropicModels})"
proof -
  have ok: "resolve_match ''GET'' ''/v1/models'' = Ok (litellm_match AnthropicModels)"
    by (simp add: resolve_match_def starts_with_def)
  have "rm_backend (litellm_match AnthropicModels) = LiteLlmBackend" by (simp add: litellm_match_def)
  with resolve_match_methods [OF ok] ok show ?thesis by blast
qed

end
