(* ===== verification/Route_Settings.thy ===== *)
theory Route_Settings
  imports Routing
begin

text \<open>
  Settings of the LiteLLM routes (\<open>gateway-core/src/route_settings.rs\<close>): the identifiers of the
  canonical routes, the validation of patches, and the decisions of the wildcard passthrough:
  which paths are denied, which are allowed and which the trusted ingress may reach. The parser of
  HTTP methods belongs to the \<open>http\<close> crate and is the argument \<open>is_method\<close> of the validator.
\<close>

datatype openai_route_mode = ManagedByGateway | DirectLiteLlmPassthrough

datatype exposure = Disabled | OperatorOnly | ExplicitlyExposed | TrustedIngress

datatype authentication_mode = GatewayAuth | LitellmBearer

record route_limits =
  rl_timeout_ms :: int
  rl_max_request_body_bytes :: int
  rl_max_response_body_bytes :: int

record route_config_patch =
  rc_mode :: "openai_route_mode option"
  rc_timeout_ms :: "int option"
  rc_max_request_body_bytes :: "int option"
  rc_max_response_body_bytes :: "int option"

record passthrough_patch =
  pp_authentication_mode :: "authentication_mode option"
  pp_blocked_paths :: "string list option"
  pp_enabled :: "bool option"
  pp_allowed_paths :: "string list option"
  pp_allowed_methods :: "string list option"
  pp_ui_exposure :: "exposure option"
  pp_admin_api_exposure :: "exposure option"
  pp_timeout_ms :: "int option"
  pp_max_request_body_bytes :: "int option"
  pp_max_response_body_bytes :: "int option"

record passthrough_settings =
  ps_authentication_mode :: authentication_mode
  ps_blocked_paths :: "string list"
  ps_enabled :: bool
  ps_allowed_paths :: "string list"
  ps_allowed_methods :: "string list"
  ps_ui_exposure :: exposure
  ps_admin_api_exposure :: exposure
  ps_timeout_ms :: int
  ps_max_request_body_bytes :: int
  ps_max_response_body_bytes :: int
  ps_updated_at :: int

fun authentication_mode_as_str :: "authentication_mode \<Rightarrow> string" where
  "authentication_mode_as_str GatewayAuth = ''gateway''"
| "authentication_mode_as_str LitellmBearer = ''litellm_bearer''"

section \<open>Route identifiers\<close>

fun openai_route_id :: "route \<Rightarrow> string option" where
  "openai_route_id ChatCompletions = Some ''chat-completions''"
| "openai_route_id Responses = Some ''responses''"
| "openai_route_id LiteLlmEmbeddings = Some ''embeddings''"
| "openai_route_id LiteLlmRerank = Some ''rerank''"
| "openai_route_id _ = None"

definition openai_route_from_id :: "string \<Rightarrow> route option" where
  "openai_route_from_id route_id =
     (if route_id = ''chat-completions'' then Some ChatCompletions
      else if route_id = ''responses'' then Some Responses
      else if route_id = ''embeddings'' then Some LiteLlmEmbeddings
      else if route_id = ''rerank'' then Some LiteLlmRerank
      else None)"

fun anthropic_route_id :: "route \<Rightarrow> string option" where
  "anthropic_route_id AnthropicMessages = Some ''messages''"
| "anthropic_route_id AnthropicMessagesCountTokens = Some ''messages-count-tokens''"
| "anthropic_route_id AnthropicMessageBatches = Some ''message-batches''"
| "anthropic_route_id AnthropicMessageBatch = Some ''message-batch''"
| "anthropic_route_id AnthropicMessageBatchResults = Some ''message-batch-results''"
| "anthropic_route_id AnthropicMessageBatchCancel = Some ''message-batch-cancel''"
| "anthropic_route_id AnthropicModels = Some ''models''"
| "anthropic_route_id _ = None"

definition anthropic_route_from_id :: "string \<Rightarrow> route option" where
  "anthropic_route_from_id route_id =
     (if route_id = ''messages'' then Some AnthropicMessages
      else if route_id = ''messages-count-tokens'' then Some AnthropicMessagesCountTokens
      else if route_id = ''message-batches'' then Some AnthropicMessageBatches
      else if route_id = ''message-batch'' then Some AnthropicMessageBatch
      else if route_id = ''message-batch-results'' then Some AnthropicMessageBatchResults
      else if route_id = ''message-batch-cancel'' then Some AnthropicMessageBatchCancel
      else if route_id = ''models'' then Some AnthropicModels
      else None)"

definition is_openai_route :: "route \<Rightarrow> bool" where
  "is_openai_route r = (openai_route_id r \<noteq> None)"

definition is_anthropic_route :: "route \<Rightarrow> bool" where
  "is_anthropic_route r = (anthropic_route_id r \<noteq> None)"

definition is_litellm_canonical_route :: "route \<Rightarrow> bool" where
  "is_litellm_canonical_route r = (is_openai_route r \<or> is_anthropic_route r)"

section \<open>Names of modes and exposures\<close>

fun openai_route_mode_str :: "openai_route_mode \<Rightarrow> string" where
  "openai_route_mode_str ManagedByGateway = ''managed_by_gateway''"
| "openai_route_mode_str DirectLiteLlmPassthrough = ''direct_litellm_passthrough''"

definition parse_openai_route_mode :: "string \<Rightarrow> openai_route_mode gateway_result" where
  "parse_openai_route_mode v =
     (if v = ''managed_by_gateway'' then Ok ManagedByGateway
      else if v = ''direct_litellm_passthrough'' then Ok DirectLiteLlmPassthrough
      else Err InvalidProviderConfigPayload)"

fun litellm_exposure_str :: "exposure \<Rightarrow> string" where
  "litellm_exposure_str Disabled = ''disabled''"
| "litellm_exposure_str OperatorOnly = ''operator_only''"
| "litellm_exposure_str ExplicitlyExposed = ''explicitly_exposed''"
| "litellm_exposure_str TrustedIngress = ''trusted_ingress''"

definition parse_litellm_exposure :: "string \<Rightarrow> exposure gateway_result" where
  "parse_litellm_exposure v =
     (if v = ''disabled'' then Ok Disabled
      else if v = ''operator_only'' then Ok OperatorOnly
      else if v = ''explicitly_exposed'' then Ok ExplicitlyExposed
      else if v = ''trusted_ingress'' then Ok TrustedIngress
      else Err InvalidProviderConfigPayload)"

section \<open>Paths\<close>

definition unambiguous_litellm_path :: "string \<Rightarrow> bool" where
  "unambiguous_litellm_path path \<longleftrightarrow>
     starts_with path ''/'' \<and>
     \<not> list_ex (\<lambda>c. c \<in> {CHR ''%'', CHR 0x5C, CHR '';''}) path \<and>
     \<not> contains_str path ''//'' \<and>
     \<not> contains_white_space path \<and>
     \<not> list_ex (\<lambda>segment. segment = ''.'' \<or> segment = ''..'') (split_char CHR ''/'' path)"

definition path_matches_allowed_pattern :: "string \<Rightarrow> string \<Rightarrow> bool" where
  "path_matches_allowed_pattern path pattern =
     (let pattern = trim pattern
      in case strip_suffix ''*'' pattern of
           Some prefix \<Rightarrow> starts_with path prefix
         | None \<Rightarrow> path = pattern)"

definition is_litellm_ui_path :: "string \<Rightarrow> bool" where
  "is_litellm_ui_path path = (path = ''/ui'' \<or> starts_with path ''/ui/'')"

definition ui_support_exact :: "string list" where
  "ui_support_exact =
    [''/'', ''/get_image'', ''/in_product_nudges'', ''/litellm/.well-known/litellm-ui-config'',
     ''/login'', ''/logout'', ''/models'', ''/user/info'', ''/v1/models'', ''/v2/login'']"

definition ui_support_prefixes :: "string list" where
  "ui_support_prefixes =
    [''/get/'', ''/health/'', ''/litellm-asset-prefix/'', ''/model/'', ''/model_group/'',
     ''/public/'', ''/schedule/'', ''/v1/model/'']"

definition is_litellm_ui_support_path :: "string \<Rightarrow> bool" where
  "is_litellm_ui_support_path path =
     (path \<in> set ui_support_exact \<or> list_ex (starts_with path) ui_support_prefixes)"

definition admin_prefixes :: "string list" where
  "admin_prefixes =
    [''/api/'', ''/audit'', ''/audit/'', ''/key/'', ''/keys/'', ''/user/'', ''/team/'',
     ''/config/'', ''/config_overrides/'', ''/credentials'', ''/credentials/'', ''/files'',
     ''/files/'', ''/guardrails/'', ''/health'', ''/health/'', ''/spend/'', ''/global/'',
     ''/budget/'', ''/customer/'', ''/alerting/'', ''/cache/'', ''/callbacks/'',
     ''/cloudzero/'', ''/email/'', ''/mcp'', ''/mcp/'', ''/mcp-rest/'', ''/model_hub/'',
     ''/model_hub_table'', ''/model_hub_table/'', ''/organization/'', ''/policies/'',
     ''/project/'', ''/prompts/'', ''/provider/'', ''/reload/'', ''/router/'',
     ''/search_tools/'', ''/sso/'', ''/tag/'', ''/utils/'', ''/v2/'', ''/v1/agents'',
     ''/v1/agents/'', ''/v1/mcp/'', ''/v1/memory'', ''/v1/memory/'', ''/v1/tool/'',
     ''/v1/workflows/'', ''/v2/guardrails/'', ''/v2/key/'', ''/v2/model/'', ''/v2/team/'',
     ''/v2/user/'', ''/v3/'']"

definition is_litellm_admin_path :: "string \<Rightarrow> bool" where
  "is_litellm_admin_path path =
     list_ex (\<lambda>p. path = trim_end_matches (\<lambda>c. c = CHR ''/'') p \<or> starts_with path p) admin_prefixes"

section \<open>Validation\<close>

definition validate_allowed_paths :: "string list \<Rightarrow> unit gateway_result" where
  "validate_allowed_paths paths =
     (if paths = [] \<or> 64 < length paths then Err InvalidProviderConfigPayload
      else try_each
        (\<lambda>path. let path = trim path in
           if \<not> unambiguous_litellm_path path \<or> CHR ''?'' \<in> set path \<or> CHR ''#'' \<in> set path
             \<or> CHR ''*'' \<in> set (case strip_suffix ''*'' path of Some p \<Rightarrow> p | None \<Rightarrow> path)
           then Err InvalidProviderConfigPayload else Ok ())
        paths)"

definition validate_allowed_methods ::
  "(string \<Rightarrow> bool) \<Rightarrow> string list \<Rightarrow> unit gateway_result" where
  "validate_allowed_methods is_method methods =
     (if methods = [] \<or> 16 < length methods then Err InvalidProviderConfigPayload
      else try_each
        (\<lambda>m. if \<not> is_method (trim m) then Err InvalidProviderConfigPayload else Ok ()) methods)"

definition validate_optional_runtime_limit ::
  "int option \<Rightarrow> int option \<Rightarrow> unit gateway_result" where
  "validate_optional_runtime_limit timeout_ms max_body_bytes =
     (if (\<exists>t. timeout_ms = Some t \<and> \<not> (1 \<le> t \<and> t \<le> 600000))
      then Err InvalidProviderConfigPayload
      else if (\<exists>b. max_body_bytes = Some b \<and> \<not> (1 \<le> b \<and> b \<le> 104857600))
      then Err InvalidProviderConfigPayload
      else Ok ())"

definition passthrough_patch_validate ::
  "(string \<Rightarrow> bool) \<Rightarrow> passthrough_patch \<Rightarrow> unit gateway_result" where
  "passthrough_patch_validate is_method p =
     and_then (case pp_allowed_paths p of Some ps \<Rightarrow> validate_allowed_paths ps | None \<Rightarrow> Ok ()) (\<lambda>_.
     and_then (case pp_blocked_paths p of
                 Some ps \<Rightarrow> if ps \<noteq> [] then validate_allowed_paths ps else Ok ()
               | None \<Rightarrow> Ok ()) (\<lambda>_.
     and_then (case pp_allowed_methods p of
                 Some ms \<Rightarrow> validate_allowed_methods is_method ms | None \<Rightarrow> Ok ()) (\<lambda>_.
     if pp_admin_api_exposure p = Some TrustedIngress then Err InvalidProviderConfigPayload
     else
       and_then (validate_optional_runtime_limit (pp_timeout_ms p) (pp_max_request_body_bytes p))
         (\<lambda>_. validate_optional_runtime_limit (pp_timeout_ms p) (pp_max_response_body_bytes p)))))"

definition route_config_patch_validate :: "route_config_patch \<Rightarrow> unit gateway_result" where
  "route_config_patch_validate p =
     and_then (validate_optional_runtime_limit (rc_timeout_ms p) (rc_max_request_body_bytes p))
       (\<lambda>_. validate_optional_runtime_limit (rc_timeout_ms p) (rc_max_response_body_bytes p))"

definition default_route_limits :: route_limits where
  "default_route_limits =
     \<lparr>rl_timeout_ms = 120000, rl_max_request_body_bytes = 1048576,
      rl_max_response_body_bytes = 1048576\<rparr>"

definition default_with_updated_at :: "int \<Rightarrow> passthrough_settings" where
  "default_with_updated_at updated_at =
     \<lparr>ps_authentication_mode = GatewayAuth, ps_blocked_paths = [], ps_enabled = False,
      ps_allowed_paths = [''/v1/*''], ps_allowed_methods = [''GET'', ''POST''],
      ps_ui_exposure = Disabled, ps_admin_api_exposure = Disabled, ps_timeout_ms = 120000,
      ps_max_request_body_bytes = 1048576, ps_max_response_body_bytes = 1048576,
      ps_updated_at = updated_at\<rparr>"

section \<open>Decisions\<close>

text \<open>\<open>path.split('?').next().unwrap_or(path)\<close>\<close>

definition without_query :: "string \<Rightarrow> string" where
  "without_query path = hd (split_char CHR ''?'' path)"

definition slash_end :: "string \<Rightarrow> string" where
  "slash_end = trim_end_matches (\<lambda>c. c = CHR ''/'')"

definition blocked_by :: "string \<Rightarrow> string \<Rightarrow> bool" where
  "blocked_by path pattern =
     (path_matches_allowed_pattern path pattern
      \<or> path_matches_allowed_pattern (slash_end path) (slash_end (trim pattern)))"

definition denies_path :: "passthrough_settings \<Rightarrow> string \<Rightarrow> bool" where
  "denies_path s path =
     (let path = without_query path
      in \<not> unambiguous_litellm_path path \<or> list_ex (blocked_by path) (ps_blocked_paths s))"

definition sensitive_exposure_for_path :: "passthrough_settings \<Rightarrow> string \<Rightarrow> exposure option" where
  "sensitive_exposure_for_path s path =
     (if is_litellm_ui_path path then Some (ps_ui_exposure s)
      else if is_litellm_admin_path path then Some (ps_admin_api_exposure s)
      else None)"

definition allows :: "passthrough_settings \<Rightarrow> string \<Rightarrow> string \<Rightarrow> bool" where
  "allows s meth path =
     (let path = without_query path
      in if \<not> ps_enabled s \<or> denies_path s path then False
         else if \<not> list_ex (\<lambda>allowed. eq_ignore_ascii_case allowed meth) (ps_allowed_methods s)
         then False
         else if sensitive_exposure_for_path s path = Some Disabled then False
         else list_ex (path_matches_allowed_pattern path) (ps_allowed_paths s))"

definition trusted_ingress_ui_path_allowed :: "passthrough_settings \<Rightarrow> string \<Rightarrow> string \<Rightarrow> bool" where
  "trusted_ingress_ui_path_allowed s meth path =
     (let path = without_query path
      in if denies_path s path then False
         else if ps_ui_exposure s \<noteq> TrustedIngress \<or> \<not> ps_enabled s then False
         else if \<not> list_ex (\<lambda>allowed. eq_ignore_ascii_case allowed meth) (ps_allowed_methods s)
         then False
         else if \<not> (is_litellm_ui_path path \<or> is_litellm_ui_support_path path) then False
         else list_ex (path_matches_allowed_pattern path) (ps_allowed_paths s))"

definition trusted_ingress_passthrough_path_allowed ::
  "passthrough_settings \<Rightarrow> string \<Rightarrow> string \<Rightarrow> bool" where
  "trusted_ingress_passthrough_path_allowed s meth path =
     (let path = without_query path
      in if denies_path s path then False
         else if trusted_ingress_ui_path_allowed s meth path then True
         else if ps_ui_exposure s \<noteq> TrustedIngress
           \<or> ps_admin_api_exposure s \<noteq> ExplicitlyExposed \<or> \<not> ps_enabled s
         then False
         else if \<not> list_ex (\<lambda>allowed. eq_ignore_ascii_case allowed meth) (ps_allowed_methods s)
         then False
         else if \<not> is_litellm_admin_path path then False
         else list_ex (path_matches_allowed_pattern path) (ps_allowed_paths s))"

section \<open>Laws\<close>

lemma openai_route_id_iff: "openai_route_id r = Some i \<longleftrightarrow> openai_route_from_id i = Some r"
  by (cases r) (auto simp: openai_route_from_id_def)

lemma anthropic_route_id_iff: "anthropic_route_id r = Some i \<longleftrightarrow> anthropic_route_from_id i = Some r"
  by (cases r) (auto simp: anthropic_route_from_id_def)

lemma without_query_idem [simp]: "without_query (without_query path) = without_query path"
proof -
  have "CHR ''?'' \<notin> set (without_query path)"
    unfolding without_query_def by (rule split_char_no_sep [OF hd_in_set]) simp
  then show ?thesis by (simp add: without_query_def [of "without_query path"])
qed

lemma without_query_append: "CHR ''?'' \<notin> set p \<Longrightarrow> without_query (p @ CHR ''?'' # q) = p"
  by (simp add: without_query_def split_char_append_sep)

lemma without_query_plain: "CHR ''?'' \<notin> set p \<Longrightarrow> without_query p = p"
  by (simp add: without_query_def)

lemma unambiguous_segments:
  "unambiguous_litellm_path p \<Longrightarrow> ''..'' \<notin> set (split_char CHR ''/'' p) \<and> ''.'' \<notin> set (split_char CHR ''/'' p)"
  by (auto simp: unambiguous_litellm_path_def list_ex_iff)

section \<open>Properties\<close>

text \<open>
  C3 (roundtrip): route identifiers are exact names: an identifier resolves to a route if and only
  if it is that route's identifier, for both route families, and no route belongs to both.
\<close>

theorem route_ids_roundtrip:
  "(openai_route_from_id i = Some r \<longleftrightarrow> openai_route_id r = Some i) \<and>
   (anthropic_route_from_id i = Some r \<longleftrightarrow> anthropic_route_id r = Some i) \<and>
   \<not> (is_openai_route r \<and> is_anthropic_route r)"
proof (intro conjI)
  show "openai_route_from_id i = Some r \<longleftrightarrow> openai_route_id r = Some i"
    by (simp add: openai_route_id_iff)
  show "anthropic_route_from_id i = Some r \<longleftrightarrow> anthropic_route_id r = Some i"
    by (simp add: anthropic_route_id_iff)
  show "\<not> (is_openai_route r \<and> is_anthropic_route r)"
    by (cases r) (simp_all add: is_openai_route_def is_anthropic_route_def)
qed



text \<open>
  The query string never changes a passthrough decision, and an additional blocked
  pattern removes exactly the paths it matches (with or without a trailing slash).
\<close>

theorem passthrough_query_and_blocking:
  assumes "CHR ''?'' \<notin> set path"
  shows "allows s meth (path @ CHR ''?'' # query) = allows s meth path \<and>
    trusted_ingress_passthrough_path_allowed s meth (path @ CHR ''?'' # query)
      = trusted_ingress_passthrough_path_allowed s meth path \<and>
    allows (s\<lparr>ps_blocked_paths := pat # ps_blocked_paths s\<rparr>) meth path
      = (allows s meth path \<and> \<not> blocked_by path pat)"
proof (intro conjI)
  note q = without_query_append [OF assms] without_query_plain [OF assms]
  show "allows s meth (path @ CHR ''?'' # query) = allows s meth path"
    by (simp add: allows_def q)
  show "trusted_ingress_passthrough_path_allowed s meth (path @ CHR ''?'' # query)
      = trusted_ingress_passthrough_path_allowed s meth path"
    by (simp add: trusted_ingress_passthrough_path_allowed_def q)
  show "allows (s\<lparr>ps_blocked_paths := pat # ps_blocked_paths s\<rparr>) meth path
      = (allows s meth path \<and> \<not> blocked_by path pat)"
    by (auto simp: allows_def denies_path_def sensitive_exposure_for_path_def q Let_def)
qed

theorem passthrough_query_and_blocking_witness:
  "allows (default_with_updated_at 0) ''GET'' (''/v1/models'' @ CHR ''?'' # ''x=1'')
     = allows (default_with_updated_at 0) ''GET'' ''/v1/models''"
proof -
  have "CHR ''?'' \<notin> set ''/v1/models''" by simp
  from passthrough_query_and_blocking [OF this] show ?thesis by blast
qed

text \<open>
  A validated settings patch never opens the admin API to the trusted ingress, and its
  paths, methods and limits are within their bounds: every listed path starts with a slash, has no
  dot segments and carries at most a final wildcard, and timeouts and body limits are positive and capped.
\<close>

theorem passthrough_patch_validated:
  assumes "passthrough_patch_validate is_method p = Ok ()"
  shows "pp_admin_api_exposure p \<noteq> Some TrustedIngress \<and>
    (\<forall>ps. pp_allowed_paths p = Some ps \<longrightarrow> ps \<noteq> [] \<and> length ps \<le> 64 \<and>
      (\<forall>q \<in> set ps. unambiguous_litellm_path (trim q) \<and> CHR ''?'' \<notin> set (trim q))) \<and>
    (\<forall>ms. pp_allowed_methods p = Some ms \<longrightarrow> ms \<noteq> [] \<and> length ms \<le> 16 \<and> (\<forall>m \<in> set ms. is_method (trim m))) \<and>
    (\<forall>t. pp_timeout_ms p = Some t \<longrightarrow> 1 \<le> t \<and> t \<le> 600000) \<and>
    (\<forall>b. pp_max_request_body_bytes p = Some b \<longrightarrow> 1 \<le> b \<and> b \<le> 104857600) \<and>
    (\<forall>b. pp_max_response_body_bytes p = Some b \<longrightarrow> 1 \<le> b \<and> b \<le> 104857600)"
proof -
  have paths: "ps \<noteq> [] \<and> length ps \<le> 64 \<and>
      (\<forall>q \<in> set ps. unambiguous_litellm_path (trim q) \<and> CHR ''?'' \<notin> set (trim q))"
    if "validate_allowed_paths ps = Ok ()" for ps
    using that by (auto simp: validate_allowed_paths_def Let_def split: if_splits)
  have methods: "ms \<noteq> [] \<and> length ms \<le> 16 \<and> (\<forall>m \<in> set ms. is_method (trim m))"
    if "validate_allowed_methods is_method ms = Ok ()" for ms
    using that by (auto simp: validate_allowed_methods_def split: if_splits)
  have limits: "(\<forall>x. t = Some x \<longrightarrow> 1 \<le> x \<and> x \<le> 600000) \<and> (\<forall>x. b = Some x \<longrightarrow> 1 \<le> x \<and> x \<le> 104857600)"
    if "validate_optional_runtime_limit t b = Ok ()" for t b
    using that by (auto simp: validate_optional_runtime_limit_def split: if_splits)
  show ?thesis
    using assms unfolding passthrough_patch_validate_def
    by (auto split: if_splits simp: paths methods dest: paths methods limits)
qed

theorem passthrough_patch_validated_witness:
  "\<exists>p. passthrough_patch_validate (\<lambda>m. m = ''GET'') p = Ok () \<and>
     pp_timeout_ms p = Some 1000 \<and> (1::int) \<le> 1000 \<and> (1000::int) \<le> 600000"
proof -
  define p where "p = \<lparr>pp_authentication_mode = None, pp_blocked_paths = Some [], pp_enabled = None,
    pp_allowed_paths = Some [''/v1/*''], pp_allowed_methods = Some [''GET''], pp_ui_exposure = None,
    pp_admin_api_exposure = None, pp_timeout_ms = Some 1000, pp_max_request_body_bytes = None,
    pp_max_response_body_bytes = None\<rparr>"
  have "validate_allowed_paths [''/v1/*''] = Ok ()" by code_simp
  moreover have "validate_allowed_methods (\<lambda>m. m = ''GET'') [''GET''] = Ok ()" by code_simp
  ultimately have ok: "passthrough_patch_validate (\<lambda>m. m = ''GET'') p = Ok ()"
    by (simp add: passthrough_patch_validate_def p_def validate_optional_runtime_limit_def)
  from passthrough_patch_validated [OF ok] ok show ?thesis by (auto simp: p_def)
qed

end
