(* ===== verification/Guardrails.thy ===== *)
theory Guardrails
  imports Routing Json_Values
begin

text \<open>
  Guardrails (\<open>gateway-core/src/guardrails.rs\<close>): the catalog entries and the policies, the resolution
  of the plan a request runs, the executor with its failure policies, the built-in PII redaction and
  the configuration of the HTTP guardrails. A handler is an argument: a function from its input to the
  latency the executor measured and its result; the calls of the HTTP client stay outside.
\<close>

datatype guardrail_mode = PreCall | PostCall | DuringCall

datatype guardrail_action = Allow | Block | Modify | Warn

datatype failure_policy = FailClosed | FailOpen | DryRun

fun mode_as_str :: "guardrail_mode \<Rightarrow> string" where
  "mode_as_str PreCall = ''pre_call''"
| "mode_as_str PostCall = ''post_call''"
| "mode_as_str DuringCall = ''during_call''"

definition mode_from_str :: "string \<Rightarrow> guardrail_mode gateway_result" where
  "mode_from_str v =
     (if v = ''pre_call'' then Ok PreCall
      else if v = ''post_call'' then Ok PostCall
      else if v = ''during_call'' then Ok DuringCall
      else Err InvalidGuardrailRequest)"

fun action_as_str :: "guardrail_action \<Rightarrow> string" where
  "action_as_str Allow = ''allow''"
| "action_as_str Block = ''block''"
| "action_as_str Modify = ''modify''"
| "action_as_str Warn = ''warn''"

definition action_from_str :: "string \<Rightarrow> guardrail_action gateway_result" where
  "action_from_str v =
     (if v = ''allow'' then Ok Allow
      else if v = ''block'' then Ok Block
      else if v = ''modify'' then Ok Modify
      else if v = ''warn'' then Ok Warn
      else Err InvalidGuardrailRequest)"

fun failure_policy_as_str :: "failure_policy \<Rightarrow> string" where
  "failure_policy_as_str FailClosed = ''fail_closed''"
| "failure_policy_as_str FailOpen = ''fail_open''"
| "failure_policy_as_str DryRun = ''dry_run''"

definition failure_policy_from_str :: "string \<Rightarrow> failure_policy gateway_result" where
  "failure_policy_from_str v =
     (if v = ''fail_closed'' then Ok FailClosed
      else if v = ''fail_open'' then Ok FailOpen
      else if v = ''dry_run'' then Ok DryRun
      else Err InvalidGuardrailRequest)"

section \<open>Definitions and policies\<close>

record guardrail_definition =
  gd_name :: string
  gd_description :: string
  gd_modes :: "guardrail_mode list"
  gd_default_on :: bool
  gd_failure_policy :: failure_policy
  gd_config_schema :: json
  gd_config :: json
  gd_enabled :: bool

record guardrail_policy =
  mandatory_guardrails :: "string list"
  optional_guardrails :: "string list"
  forbidden_guardrails :: "string list"
  guardrail_config_overrides :: "json btree_map"

definition default_guardrail_policy :: guardrail_policy where
  "default_guardrail_policy =
     \<lparr>mandatory_guardrails = [], optional_guardrails = [], forbidden_guardrails = [],
      guardrail_config_overrides = []\<rparr>"

definition validate_guardrail_name :: "string \<Rightarrow> unit gateway_result" where
  "validate_guardrail_name name =
     (if name \<noteq> [] \<and> length name \<le> 128 \<and>
         list_all (\<lambda>c. is_ascii_alphanumeric c \<or> c \<in> {CHR ''-'', CHR ''_'', CHR ''.''}) name
      then Ok () else Err InvalidGuardrailRequest)"

definition guardrail_policy_validate :: "guardrail_policy \<Rightarrow> unit gateway_result" where
  "guardrail_policy_validate p =
     and_then (try_each validate_guardrail_name
                 (mandatory_guardrails p @ optional_guardrails p @ forbidden_guardrails p))
       (\<lambda>_. try_each
          (\<lambda>(name, value).
             and_then (validate_guardrail_name name) (\<lambda>_.
             if \<not> is_object value then Err InvalidGuardrailRequest
             else if name \<in> set (forbidden_guardrails p) then Err GuardrailForbidden
             else Ok ()))
          (guardrail_config_overrides p))"

record guardrail_policy_patch =
  gpp_mandatory_guardrails :: "string list option"
  gpp_optional_guardrails :: "string list option"
  gpp_forbidden_guardrails :: "string list option"
  gpp_guardrail_config_overrides :: "json btree_map option"

definition patch_apply :: "guardrail_policy_patch \<Rightarrow> guardrail_policy \<Rightarrow> guardrail_policy gateway_result" where
  "patch_apply patch p =
     (let p1 = (case gpp_mandatory_guardrails patch of Some v \<Rightarrow> p\<lparr>mandatory_guardrails := v\<rparr> | None \<Rightarrow> p);
          p2 = (case gpp_optional_guardrails patch of Some v \<Rightarrow> p1\<lparr>optional_guardrails := v\<rparr> | None \<Rightarrow> p1);
          p3 = (case gpp_forbidden_guardrails patch of Some v \<Rightarrow> p2\<lparr>forbidden_guardrails := v\<rparr> | None \<Rightarrow> p2);
          p4 = (case gpp_guardrail_config_overrides patch of
                  Some v \<Rightarrow> p3\<lparr>guardrail_config_overrides := v\<rparr> | None \<Rightarrow> p3)
      in and_then (guardrail_policy_validate p4) (\<lambda>_. Ok p4))"

definition supports_mode :: "guardrail_definition \<Rightarrow> guardrail_mode \<Rightarrow> bool" where
  "supports_mode d mode = (gd_enabled d \<and> mode \<in> set (gd_modes d))"

section \<open>Plans\<close>

record guardrail_policy_set =
  key_policy :: guardrail_policy
  team_policy :: "guardrail_policy option"
  route_policy :: "guardrail_policy option"
  model_policy :: "guardrail_policy option"

record plan_request =
  pr_mode :: guardrail_mode
  pr_definitions :: "guardrail_definition list"
  pr_policies :: guardrail_policy_set
  pr_client_requested :: "string list"

text \<open>\<open>[a, b, c].into_iter().flatten()\<close> over options.\<close>

fun flatten_options :: "'a option list \<Rightarrow> 'a list" where
  "flatten_options [] = []"
| "flatten_options (None # xs) = flatten_options xs"
| "flatten_options (Some x # xs) = x # flatten_options xs"

definition policy_iter :: "guardrail_policy_set \<Rightarrow> guardrail_policy list" where
  "policy_iter ps =
     flatten_options [Some (key_policy ps), team_policy ps, route_policy ps, model_policy ps]"

definition effective_forbidden_guardrails :: "guardrail_policy_set \<Rightarrow> string list" where
  "effective_forbidden_guardrails ps =
     foldl (\<lambda>acc p. acc @ forbidden_guardrails p) (forbidden_guardrails (key_policy ps))
       (flatten_options [team_policy ps, route_policy ps, model_policy ps])"

definition effective_optional_guardrails :: "guardrail_policy_set \<Rightarrow> string list" where
  "effective_optional_guardrails ps =
     foldl (\<lambda>acc p. acc @ optional_guardrails p) (optional_guardrails (key_policy ps))
       (flatten_options [team_policy ps, route_policy ps, model_policy ps])"

definition validate_guardrail_config_overrides :: "plan_request \<Rightarrow> unit gateway_result" where
  "validate_guardrail_config_overrides request =
     (let known_names = map gd_name (pr_definitions request);
          forbidden = effective_forbidden_guardrails (pr_policies request)
      in try_each
           (\<lambda>p. and_then (guardrail_policy_validate p) (\<lambda>_.
              try_each
                (\<lambda>name. if name \<notin> set known_names then Err InvalidGuardrailRequest
                        else if name \<in> set forbidden then Err GuardrailForbidden
                        else Ok ())
                (bt_keys (guardrail_config_overrides p))))
           (policy_iter (pr_policies request)))"

definition merge_object_config :: "json \<Rightarrow> json \<Rightarrow> json" where
  "merge_object_config base override_config =
     (let merged = (case as_object base of Some m \<Rightarrow> m | None \<Rightarrow> [])
      in JObject (case as_object override_config of
                    Some values \<Rightarrow> bt_extend merged values
                  | None \<Rightarrow> merged))"

definition merge_http_provider_config :: "json \<Rightarrow> json \<Rightarrow> json" where
  "merge_http_provider_config base override_config =
     (let config = (case as_object base of Some m \<Rightarrow> m | None \<Rightarrow> []);
          provider_config = (case bt_get config ''provider_config'' of Some v \<Rightarrow> v | None \<Rightarrow> JObject [])
      in JObject (bt_insert ''provider_config'' (merge_object_config provider_config override_config)
                    (bt_remove ''provider_config'' config)))"

definition merge_runtime_config :: "json \<Rightarrow> json \<Rightarrow> json" where
  "merge_runtime_config base override_config =
     (if Option.bind (json_get base ''provider_kind'') as_str = Some ''http''
      then merge_http_provider_config base override_config
      else merge_object_config base override_config)"

definition with_effective_config ::
  "guardrail_definition \<Rightarrow> guardrail_policy_set \<Rightarrow> guardrail_definition" where
  "with_effective_config d ps =
     d\<lparr>gd_config :=
        foldl (\<lambda>config p.
                 case bt_get (guardrail_config_overrides p) (gd_name d) of
                   Some override_config \<Rightarrow> merge_runtime_config config override_config
                 | None \<Rightarrow> config)
          (gd_config d) (policy_iter ps)\<rparr>"

text \<open>A plan is the list of the definitions of its entries.\<close>

definition push_definition_once ::
  "guardrail_definition list \<Rightarrow> guardrail_definition \<Rightarrow> guardrail_definition list" where
  "push_definition_once plan d =
     (if list_ex (\<lambda>e. gd_name e = gd_name d) plan then plan else plan @ [d])"

definition plan_definitions :: "plan_request \<Rightarrow> guardrail_definition btree_map" where
  "plan_definitions request =
     foldl (\<lambda>m d. if supports_mode d (pr_mode request)
                  then let d' = with_effective_config d (pr_policies request)
                       in bt_insert (gd_name d') d' m
                  else m)
       [] (pr_definitions request)"

definition add_mandatory ::
  "guardrail_definition btree_map \<Rightarrow> string list \<Rightarrow> guardrail_definition list \<Rightarrow> string \<Rightarrow>
   guardrail_definition list gateway_result" where
  "add_mandatory definitions forbidden plan name =
     (if name \<in> set forbidden then Err GuardrailForbidden
      else and_then (ok_or (bt_get definitions name) GuardrailUnavailable)
             (\<lambda>d. Ok (push_definition_once plan d)))"

definition add_client_requested ::
  "guardrail_definition btree_map \<Rightarrow> string list \<Rightarrow> string list \<Rightarrow> guardrail_definition list \<Rightarrow> string \<Rightarrow>
   guardrail_definition list gateway_result" where
  "add_client_requested definitions forbidden optional plan name =
     (if name \<in> set forbidden then Err GuardrailForbidden
      else if name \<notin> set optional then Err GuardrailForbidden
      else and_then (ok_or (bt_get definitions name) InvalidGuardrailRequest)
             (\<lambda>d. Ok (push_definition_once plan d)))"

definition resolve_guardrail_plan :: "plan_request \<Rightarrow> guardrail_definition list gateway_result" where
  "resolve_guardrail_plan request =
     and_then (validate_guardrail_config_overrides request) (\<lambda>_.
     let definitions = plan_definitions request;
         forbidden = effective_forbidden_guardrails (pr_policies request);
         optional = effective_optional_guardrails (pr_policies request);
         plan = foldl push_definition_once [] (filter gd_default_on (bt_values definitions))
     in and_then (try_fold (\<lambda>plan p. try_fold (add_mandatory definitions forbidden) plan (mandatory_guardrails p))
                    plan (policy_iter (pr_policies request)))
          (\<lambda>plan. try_fold (add_client_requested definitions forbidden optional) plan
                    (pr_client_requested request)))"

section \<open>Client fields\<close>

definition strip_client_guardrails :: "json \<Rightarrow> json" where
  "strip_client_guardrails v =
     (case v of JObject m \<Rightarrow> JObject (bt_remove ''guardrails'' m) | _ \<Rightarrow> v)"

definition extract_client_guardrails_value :: "json option \<Rightarrow> string list gateway_result" where
  "extract_client_guardrails_value guardrails =
     (case guardrails of
        None \<Rightarrow> Ok []
      | Some g \<Rightarrow>
          (case as_array g of
             None \<Rightarrow> Err InvalidGuardrailRequest
           | Some items \<Rightarrow>
               try_map (\<lambda>item.
                 and_then (ok_or (as_str item) InvalidGuardrailRequest) (\<lambda>name.
                 and_then (validate_guardrail_name name) (\<lambda>_. Ok name))) items))"

definition extract_client_guardrails :: "json \<Rightarrow> string list gateway_result" where
  "extract_client_guardrails v = extract_client_guardrails_value (json_get v ''guardrails'')"

section \<open>Execution\<close>

record execution_record =
  er_guardrail_name :: string
  er_mode :: guardrail_mode
  er_action :: guardrail_action
  er_failure_policy :: failure_policy
  er_latency_ms :: nat
  er_reason :: "string option"
  er_metadata :: json

record guardrail_context =
  gc_request_id :: string
  gc_key_id :: "string option"
  gc_team_id :: "string option"
  gc_user_id :: "string option"
  gc_project_id :: "string option"
  gc_model :: "string option"
  gc_route :: "route option"
  gc_provider :: "provider option"
  gc_pii_mappings :: "(string \<times> string) list"
  gc_applied_guardrails :: "string list"
  gc_guardrail_results :: "execution_record list"

record guardrail_input =
  gi_mode :: guardrail_mode
  gi_request :: "json option"
  gi_response :: "json option"
  gi_context :: guardrail_context
  gi_config :: json

record guardrail_result =
  gr_action :: guardrail_action
  gr_request :: "json option"
  gr_response :: "json option"
  gr_reason :: "string option"
  gr_metadata :: json
  gr_pii_mappings :: "(string \<times> string) list"

record guardrail_execution =
  ge_request :: "json option"
  ge_response :: "json option"
  ge_context :: guardrail_context
  ge_records :: "execution_record list"

type_synonym guardrail_handler = "guardrail_input \<Rightarrow> nat \<times> guardrail_result gateway_result"

definition push_record :: "string \<Rightarrow> execution_record \<Rightarrow> guardrail_execution \<Rightarrow> guardrail_execution" where
  "push_record name r x =
     x\<lparr>ge_context := (ge_context x)
          \<lparr>gc_applied_guardrails := gc_applied_guardrails (ge_context x) @ [name],
           gc_guardrail_results := gc_guardrail_results (ge_context x) @ [r]\<rparr>,
       ge_records := ge_records x @ [r]\<rparr>"

definition handle_guardrail_failure ::
  "guardrail_execution \<Rightarrow> guardrail_definition \<Rightarrow> guardrail_mode \<Rightarrow> gateway_error \<Rightarrow> nat \<Rightarrow>
   guardrail_execution gateway_result" where
  "handle_guardrail_failure x d mode error latency_ms =
     (if gd_failure_policy d = FailClosed then Err error
      else Ok (push_record (gd_name d)
             \<lparr>er_guardrail_name = gd_name d, er_mode = mode, er_action = Warn,
              er_failure_policy = gd_failure_policy d, er_latency_ms = latency_ms,
              er_reason = Some (error_code error), er_metadata = JObject []\<rparr> x))"

definition apply_result ::
  "guardrail_execution \<Rightarrow> guardrail_definition \<Rightarrow> guardrail_mode \<Rightarrow> nat \<Rightarrow> guardrail_result \<Rightarrow>
   guardrail_execution gateway_result" where
  "apply_result x d mode latency_ms result =
     (let dry = (gd_failure_policy d = DryRun);
          r = \<lparr>er_guardrail_name = gd_name d, er_mode = mode,
               er_action = (if dry then Warn else gr_action result),
               er_failure_policy = gd_failure_policy d, er_latency_ms = latency_ms,
               er_reason = gr_reason result, er_metadata = gr_metadata result\<rparr>;
          c = (ge_context x)\<lparr>gc_pii_mappings := gc_pii_mappings (ge_context x) @ gr_pii_mappings result\<rparr>;
          x = push_record (gd_name d) r (x\<lparr>ge_context := c\<rparr>)
      in if dry then Ok x
         else (case gr_action result of
                 Allow \<Rightarrow> Ok x
               | Warn \<Rightarrow> Ok x
               | Modify \<Rightarrow>
                   Ok (x\<lparr>ge_request := (case gr_request result of Some q \<Rightarrow> Some q | None \<Rightarrow> ge_request x),
                        ge_response := (case gr_response result of Some q \<Rightarrow> Some q | None \<Rightarrow> ge_response x)\<rparr>)
               | Block \<Rightarrow> Err GuardrailBlocked))"

definition execute_entry ::
  "(string \<Rightarrow> guardrail_handler option) \<Rightarrow> guardrail_mode \<Rightarrow> guardrail_execution \<Rightarrow>
   guardrail_definition \<Rightarrow> guardrail_execution gateway_result" where
  "execute_entry handlers mode x d =
     (case handlers (gd_name d) of
        None \<Rightarrow> handle_guardrail_failure x d mode GuardrailUnavailable 0
      | Some handler \<Rightarrow>
          (case handler \<lparr>gi_mode = mode, gi_request = ge_request x, gi_response = ge_response x,
                         gi_context = ge_context x, gi_config = gd_config d\<rparr> of
             (latency_ms, Inl error) \<Rightarrow> handle_guardrail_failure x d mode error latency_ms
           | (latency_ms, Inr result) \<Rightarrow> apply_result x d mode latency_ms result))"

definition execute ::
  "(string \<Rightarrow> guardrail_handler option) \<Rightarrow> guardrail_definition list \<Rightarrow> guardrail_mode \<Rightarrow>
   guardrail_context \<Rightarrow> json option \<Rightarrow> json option \<Rightarrow> guardrail_execution gateway_result" where
  "execute handlers plan mode context request response =
     try_fold (execute_entry handlers mode)
       \<lparr>ge_request = request, ge_response = response, ge_context = context, ge_records = []\<rparr> plan"

section \<open>Laws\<close>

lemma mode_roundtrip: "mode_from_str v = Ok m \<longleftrightarrow> v = mode_as_str m"
  by (cases m) (auto simp: mode_from_str_def)

lemma action_roundtrip: "action_from_str v = Ok a \<longleftrightarrow> v = action_as_str a"
  by (cases a) (auto simp: action_from_str_def)

lemma failure_policy_roundtrip: "failure_policy_from_str v = Ok p \<longleftrightarrow> v = failure_policy_as_str p"
  by (cases p) (auto simp: failure_policy_from_str_def)

lemma with_effective_config_frame [simp]:
  "gd_name (with_effective_config d ps) = gd_name d"
  "gd_default_on (with_effective_config d ps) = gd_default_on d"
  "supports_mode (with_effective_config d ps) = supports_mode d"
  "gd_failure_policy (with_effective_config d ps) = gd_failure_policy d"
  by (auto simp: with_effective_config_def supports_mode_def fun_eq_iff)

text \<open>The table of the definitions that can run: keyed by name, all of them support the mode.\<close>

lemma foldl_invar: "I a \<Longrightarrow> (\<And>a x. x \<in> set xs \<Longrightarrow> I a \<Longrightarrow> I (f a x)) \<Longrightarrow> I (foldl f a xs)"
  by (induction xs arbitrary: a) auto

lemma plan_definitions_entry:
  assumes "bt_get (plan_definitions request) n = Some d"
  shows "gd_name d = n \<and> supports_mode d (pr_mode request)"
proof -
  have "\<forall>n d. bt_get (plan_definitions request) n = Some d \<longrightarrow>
      gd_name d = n \<and> supports_mode d (pr_mode request)"
    unfolding plan_definitions_def
    by (rule foldl_invar) (auto simp: bt_get_insert Let_def bt_get_def [of "[]"])
  with assms show ?thesis by blast
qed

lemma plan_definitions_wf: "bt_wf (plan_definitions request)"
  unfolding plan_definitions_def
  by (rule foldl_invar) (auto simp: Let_def bt_wf_insert bt_wf_def [of "[]"])

lemma plan_definitions_values:
  assumes "d \<in> set (bt_values (plan_definitions request))"
  shows "bt_get (plan_definitions request) (gd_name d) = Some d"
proof -
  from assms obtain n where "(n, d) \<in> set (plan_definitions request)" by (auto simp: bt_values_def)
  then have "bt_get (plan_definitions request) n = Some d"
    using bt_wf_distinct [OF plan_definitions_wf] by (simp add: bt_get_def)
  with plan_definitions_entry show ?thesis by fastforce
qed

text \<open>
  The invariant of a plan under construction: no guardrail twice, every entry taken from the table, and
  an entry that a policy forbids is there by default only.
\<close>

definition plan_ok :: "guardrail_definition btree_map \<Rightarrow> string list \<Rightarrow> guardrail_definition list \<Rightarrow> bool" where
  "plan_ok definitions forbidden plan \<longleftrightarrow>
     distinct (map gd_name plan) \<and>
     (\<forall>d \<in> set plan. bt_get definitions (gd_name d) = Some d \<and>
        (gd_name d \<in> set forbidden \<longrightarrow> gd_default_on d))"

lemma push_once_alt:
  "push_definition_once plan d = (if gd_name d \<in> gd_name ` set plan then plan else plan @ [d])"
proof -
  have "list_ex (\<lambda>e. gd_name e = gd_name d) plan \<longleftrightarrow> gd_name d \<in> gd_name ` set plan"
    by (induction plan) auto
  then show ?thesis by (simp add: push_definition_once_def)
qed

lemma push_once_names: "gd_name ` set (push_definition_once plan d) = insert (gd_name d) (gd_name ` set plan)"
  by (simp add: push_once_alt insert_absorb)

lemma push_once_ok:
  assumes "plan_ok definitions forbidden plan" and "bt_get definitions (gd_name d) = Some d"
    and "gd_name d \<in> set forbidden \<Longrightarrow> gd_default_on d"
  shows "plan_ok definitions forbidden (push_definition_once plan d)"
  using assms by (simp add: plan_ok_def push_once_alt)

lemma default_plan_ok:
  "plan_ok (plan_definitions r) forbidden
     (foldl push_definition_once [] (filter gd_default_on (bt_values (plan_definitions r))))"
  by (rule foldl_invar) (auto simp: plan_ok_def [of _ _ "[]"] intro!: push_once_ok plan_definitions_values)

lemma default_plan_names:
  "gd_name ` set (foldl push_definition_once plan ds) = gd_name ` set plan \<union> gd_name ` set ds"
  by (induction ds arbitrary: plan) (auto simp: push_once_names)

lemma add_mandatory_Ok:
  assumes "add_mandatory (plan_definitions r) forbidden plan n = Ok plan'"
  shows "gd_name ` set plan' = insert n (gd_name ` set plan)" "n \<notin> set forbidden"
    "plan_ok (plan_definitions r) forbidden plan \<Longrightarrow> plan_ok (plan_definitions r) forbidden plan'"
proof -
  obtain d where d: "bt_get (plan_definitions r) n = Some d" "plan' = push_definition_once plan d"
    and n: "n \<notin> set forbidden"
    using assms by (auto simp: add_mandatory_def split: if_splits)
  note name = plan_definitions_entry [OF d(1)]
  show "gd_name ` set plan' = insert n (gd_name ` set plan)"
    using push_once_names [of plan d] name d(2) by simp
  show "n \<notin> set forbidden" by (rule n)
  show "plan_ok (plan_definitions r) forbidden plan \<Longrightarrow> plan_ok (plan_definitions r) forbidden plan'"
    using d n name by (auto intro: push_once_ok)
qed

lemma add_client_requested_Ok:
  assumes "add_client_requested (plan_definitions r) forbidden optional plan n = Ok plan'"
  shows "gd_name ` set plan' = insert n (gd_name ` set plan)" "n \<notin> set forbidden" "n \<in> set optional"
    "plan_ok (plan_definitions r) forbidden plan \<Longrightarrow> plan_ok (plan_definitions r) forbidden plan'"
proof -
  obtain d where d: "bt_get (plan_definitions r) n = Some d" "plan' = push_definition_once plan d"
    and n: "n \<notin> set forbidden" "n \<in> set optional"
    using assms by (auto simp: add_client_requested_def split: if_splits)
  note name = plan_definitions_entry [OF d(1)]
  show "gd_name ` set plan' = insert n (gd_name ` set plan)"
    using push_once_names [of plan d] name d(2) by simp
  show "n \<notin> set forbidden" "n \<in> set optional" by (rule n)+
  show "plan_ok (plan_definitions r) forbidden plan \<Longrightarrow> plan_ok (plan_definitions r) forbidden plan'"
    using d n name by (auto intro: push_once_ok)
qed

lemma plan_stages:
  assumes "resolve_guardrail_plan r = Ok plan"
  obtains plan1 where
    "try_fold (\<lambda>plan p. try_fold (add_mandatory (plan_definitions r)
        (effective_forbidden_guardrails (pr_policies r))) plan (mandatory_guardrails p))
      (foldl push_definition_once [] (filter gd_default_on (bt_values (plan_definitions r))))
      (policy_iter (pr_policies r)) = Ok plan1"
    "try_fold (add_client_requested (plan_definitions r) (effective_forbidden_guardrails (pr_policies r))
        (effective_optional_guardrails (pr_policies r))) plan1 (pr_client_requested r) = Ok plan"
  using assms by (auto simp: resolve_guardrail_plan_def Let_def)

lemma client_stage_names:
  "try_fold (add_client_requested (plan_definitions r) forbidden optional) plan ns = Ok plan' \<Longrightarrow>
   gd_name ` set plan' = gd_name ` set plan \<union> set ns \<and> set ns \<subseteq> set optional - set forbidden"
proof (induction ns arbitrary: plan)
  case (Cons n ns)
  then obtain p where p: "add_client_requested (plan_definitions r) forbidden optional plan n = Ok p"
    and rest: "try_fold (add_client_requested (plan_definitions r) forbidden optional) p ns = Ok plan'"
    by auto
  from Cons.IH [OF rest] add_client_requested_Ok(1-3) [OF p] show ?case by simp
qed simp

lemma mandatory_stage_names:
  "try_fold (add_mandatory (plan_definitions r) forbidden) plan ns = Ok plan' \<Longrightarrow>
   gd_name ` set plan' = gd_name ` set plan \<union> set ns"
proof (induction ns arbitrary: plan)
  case (Cons n ns)
  then obtain p where p: "add_mandatory (plan_definitions r) forbidden plan n = Ok p"
    and rest: "try_fold (add_mandatory (plan_definitions r) forbidden) p ns = Ok plan'"
    by auto
  from Cons.IH [OF rest] add_mandatory_Ok(1) [OF p] show ?case by simp
qed simp

lemma policy_stage_names:
  "try_fold (\<lambda>plan p. try_fold (add_mandatory (plan_definitions r) forbidden) plan
      (mandatory_guardrails p)) plan ps = Ok plan' \<Longrightarrow>
   gd_name ` set plan' = gd_name ` set plan \<union> (\<Union>p \<in> set ps. set (mandatory_guardrails p))"
proof (induction ps arbitrary: plan)
  case (Cons p ps)
  then obtain q where q: "try_fold (add_mandatory (plan_definitions r) forbidden) plan
        (mandatory_guardrails p) = Ok q"
    and rest: "try_fold (\<lambda>plan p. try_fold (add_mandatory (plan_definitions r) forbidden) plan
        (mandatory_guardrails p)) q ps = Ok plan'"
    by auto
  from Cons.IH [OF rest] mandatory_stage_names [OF q] show ?case by auto
qed simp

lemma resolved_plan_ok:
  assumes "resolve_guardrail_plan r = Ok plan"
  shows "plan_ok (plan_definitions r) (effective_forbidden_guardrails (pr_policies r)) plan"
proof -
  obtain plan1 where 1: "try_fold (\<lambda>plan p. try_fold (add_mandatory (plan_definitions r)
        (effective_forbidden_guardrails (pr_policies r))) plan (mandatory_guardrails p))
      (foldl push_definition_once [] (filter gd_default_on (bt_values (plan_definitions r))))
      (policy_iter (pr_policies r)) = Ok plan1"
    and 2: "try_fold (add_client_requested (plan_definitions r) (effective_forbidden_guardrails (pr_policies r))
        (effective_optional_guardrails (pr_policies r))) plan1 (pr_client_requested r) = Ok plan"
    using assms by (rule plan_stages)
  let ?I = "plan_ok (plan_definitions r) (effective_forbidden_guardrails (pr_policies r))"
  have policy: "?I b" if "?I a" and
      "try_fold (add_mandatory (plan_definitions r) (effective_forbidden_guardrails (pr_policies r))) a ns = Ok b"
    for a b ns
    by (rule try_fold_invar [OF that(2), of ?I]) (use that(1) add_mandatory_Ok(3) in blast)+
  have "?I plan1"
    by (rule try_fold_invar [OF 1, of ?I]) (use default_plan_ok policy in blast)+
  then show ?thesis
    by (rule try_fold_invar [OF 2, of ?I]) (use add_client_requested_Ok(4) in blast)
qed

lemma resolved_plan_names:
  assumes "resolve_guardrail_plan r = Ok plan"
  shows "gd_name ` set plan =
      gd_name ` {d \<in> set (bt_values (plan_definitions r)). gd_default_on d} \<union>
      (\<Union>p \<in> set (policy_iter (pr_policies r)). set (mandatory_guardrails p)) \<union>
      set (pr_client_requested r)"
    and "set (pr_client_requested r) \<subseteq>
      set (effective_optional_guardrails (pr_policies r)) - set (effective_forbidden_guardrails (pr_policies r))"
proof -
  obtain plan1 :: "guardrail_definition list" where 1: "gd_name ` set plan1 =
      gd_name ` {d \<in> set (bt_values (plan_definitions r)). gd_default_on d} \<union>
      (\<Union>p \<in> set (policy_iter (pr_policies r)). set (mandatory_guardrails p))"
    and 2: "gd_name ` set plan = gd_name ` set plan1 \<union> set (pr_client_requested r) \<and>
      set (pr_client_requested r) \<subseteq> set (effective_optional_guardrails (pr_policies r))
        - set (effective_forbidden_guardrails (pr_policies r))"
    using assms
  proof (rule plan_stages)
    fix plan1 :: "guardrail_definition list"
    assume "try_fold (\<lambda>plan p. try_fold (add_mandatory (plan_definitions r)
        (effective_forbidden_guardrails (pr_policies r))) plan (mandatory_guardrails p))
      (foldl push_definition_once [] (filter gd_default_on (bt_values (plan_definitions r))))
      (policy_iter (pr_policies r)) = Ok plan1"
      and "try_fold (add_client_requested (plan_definitions r) (effective_forbidden_guardrails (pr_policies r))
        (effective_optional_guardrails (pr_policies r))) plan1 (pr_client_requested r) = Ok plan"
    from policy_stage_names [OF this(1)] client_stage_names [OF this(2)] show thesis
      by (intro that [of plan1]) (simp_all add: default_plan_names)
  qed
  from 1 2 show "gd_name ` set plan =
      gd_name ` {d \<in> set (bt_values (plan_definitions r)). gd_default_on d} \<union>
      (\<Union>p \<in> set (policy_iter (pr_policies r)). set (mandatory_guardrails p)) \<union>
      set (pr_client_requested r)" by simp
  from 2 show "set (pr_client_requested r) \<subseteq>
      set (effective_optional_guardrails (pr_policies r)) - set (effective_forbidden_guardrails (pr_policies r))"
    by blast
qed

text \<open>One entry of an execution: what it records and what it may change.\<close>

lemma push_record_frame [simp]:
  "ge_request (push_record n r x) = ge_request x"
  "ge_response (push_record n r x) = ge_response x"
  "ge_records (push_record n r x) = ge_records x @ [r]"
  "gc_applied_guardrails (ge_context (push_record n r x)) = gc_applied_guardrails (ge_context x) @ [n]"
  by (simp_all add: push_record_def)

lemmas entry_defs = execute_entry_def handle_guardrail_failure_def apply_result_def Let_def

lemma execute_entry_record:
  assumes "execute_entry handlers mode x d = Ok x'"
  obtains r where "ge_records x' = ge_records x @ [r]" "er_guardrail_name r = gd_name d"
    "er_mode r = mode" "er_action r \<noteq> Block" "er_failure_policy r = gd_failure_policy d"
    "gc_applied_guardrails (ge_context x') = gc_applied_guardrails (ge_context x) @ [gd_name d]"
  using assms
  by (auto simp: entry_defs split: option.splits prod.splits sum.splits if_splits guardrail_action.splits)

lemma execute_entry_dry_run:
  assumes "gd_failure_policy d = DryRun"
  shows "\<exists>x'. execute_entry handlers mode x d = Ok x' \<and> ge_request x' = ge_request x \<and>
    ge_response x' = ge_response x"
  using assms by (auto simp: entry_defs split: option.splits prod.splits sum.splits)

lemma execute_entry_fail_closed:
  assumes "execute_entry handlers mode x d = Ok x'" and "gd_failure_policy d = FailClosed"
  shows "\<exists>h. handlers (gd_name d) = Some h"
  using assms by (auto simp: entry_defs split: option.splits)

lemma try_fold_records:
  "try_fold (execute_entry handlers mode) x plan = Ok x' \<Longrightarrow>
   \<exists>rs. ge_records x' = ge_records x @ rs \<and> map er_guardrail_name rs = map gd_name plan \<and>
     map er_failure_policy rs = map gd_failure_policy plan \<and>
     (\<forall>r \<in> set rs. er_action r \<noteq> Block \<and> er_mode r = mode) \<and>
     gc_applied_guardrails (ge_context x') = gc_applied_guardrails (ge_context x) @ map gd_name plan"
proof (induction plan arbitrary: x)
  case (Cons d plan)
  then obtain y where y: "execute_entry handlers mode x d = Ok y"
    and rest: "try_fold (execute_entry handlers mode) y plan = Ok x'" by auto
  obtain r where r: "ge_records y = ge_records x @ [r]" "er_guardrail_name r = gd_name d"
    "er_mode r = mode" "er_action r \<noteq> Block" "er_failure_policy r = gd_failure_policy d"
    "gc_applied_guardrails (ge_context y) = gc_applied_guardrails (ge_context x) @ [gd_name d]"
    using y by (rule execute_entry_record)
  from Cons.IH [OF rest] obtain rs where rs: "ge_records x' = ge_records y @ rs"
    "map er_guardrail_name rs = map gd_name plan" "map er_failure_policy rs = map gd_failure_policy plan"
    "\<forall>r \<in> set rs. er_action r \<noteq> Block \<and> er_mode r = mode"
    "gc_applied_guardrails (ge_context x') = gc_applied_guardrails (ge_context y) @ map gd_name plan"
    by blast
  show ?case by (rule exI [of _ "r # rs"]) (use r rs in simp)
qed simp

lemma try_fold_dry_run:
  "(\<forall>d \<in> set plan. gd_failure_policy d = DryRun) \<Longrightarrow>
   \<exists>x'. try_fold (execute_entry handlers mode) x plan = Ok x' \<and> ge_request x' = ge_request x \<and>
     ge_response x' = ge_response x"
proof (induction plan arbitrary: x)
  case (Cons d plan)
  then obtain y where "execute_entry handlers mode x d = Ok y" "ge_request y = ge_request x"
    "ge_response y = ge_response x"
    using execute_entry_dry_run [of d handlers mode x] by auto
  with Cons show ?case by fastforce
qed simp

section \<open>Properties\<close>

text \<open>
  C7 (functional): a resolved plan runs every mandatory guardrail of every policy layer and every
  requested one; a client can only add guardrails that some layer lists as optional and none forbids; no
  guardrail runs twice; every entry is an enabled catalog entry that supports the mode; and an entry that
  a layer forbids can only be a default-on one.
\<close>

theorem guardrail_plan_sound:
  assumes "resolve_guardrail_plan r = Ok plan"
  shows "(\<forall>p \<in> set (policy_iter (pr_policies r)). set (mandatory_guardrails p) \<subseteq> gd_name ` set plan) \<and>
    set (pr_client_requested r) \<subseteq> gd_name ` set plan \<and>
    set (pr_client_requested r) \<subseteq> set (effective_optional_guardrails (pr_policies r))
      - set (effective_forbidden_guardrails (pr_policies r)) \<and>
    distinct (map gd_name plan) \<and>
    (\<forall>d \<in> set plan. gd_enabled d \<and> pr_mode r \<in> set (gd_modes d)) \<and>
    (\<forall>d \<in> set plan. gd_name d \<in> set (effective_forbidden_guardrails (pr_policies r)) \<longrightarrow> gd_default_on d)"
proof -
  note names = resolved_plan_names [OF assms]
  note ok = resolved_plan_ok [OF assms]
  have "\<forall>d \<in> set plan. supports_mode d (pr_mode r)"
    using ok plan_definitions_entry by (auto simp: plan_ok_def)
  then show ?thesis using names ok by (auto simp: plan_ok_def supports_mode_def)
qed

definition sample_definition :: "string \<Rightarrow> bool \<Rightarrow> guardrail_definition" where
  "sample_definition name default_on =
     \<lparr>gd_name = name, gd_description = [], gd_modes = [PreCall], gd_default_on = default_on,
      gd_failure_policy = FailClosed, gd_config_schema = JObject [], gd_config = JObject [], gd_enabled = True\<rparr>"

definition sample_plan_request :: plan_request where
  "sample_plan_request =
     \<lparr>pr_mode = PreCall, pr_definitions = [sample_definition ''base'' True, sample_definition ''pii'' False],
      pr_policies = \<lparr>key_policy = default_guardrail_policy\<lparr>mandatory_guardrails := [''pii''],
          forbidden_guardrails := [''base'']\<rparr>, team_policy = None, route_policy = None, model_policy = None\<rparr>,
      pr_client_requested = []\<rparr>"

lemma sample_plan:
  "resolve_guardrail_plan sample_plan_request =
     Ok [sample_definition ''base'' True, sample_definition ''pii'' False]"
  by code_simp

theorem guardrail_plan_sound_witness:
  "resolve_guardrail_plan sample_plan_request =
     Ok [sample_definition ''base'' True, sample_definition ''pii'' False] \<and>
   ''pii'' \<in> gd_name ` set [sample_definition ''base'' True, sample_definition ''pii'' False] \<and>
   distinct (map gd_name [sample_definition ''base'' True, sample_definition ''pii'' False])"
  using guardrail_plan_sound [OF sample_plan] sample_plan by (simp add: sample_definition_def)

text \<open>
  A default-on guardrail that supports the mode is in every resolved plan, also when a
  policy layer lists it as forbidden: the forbidden lists are consulted for mandatory, requested and
  overridden guardrails only. The catalog documentation says that default-on applies "when allowed".
\<close>

theorem default_on_ignores_forbidden:
  assumes "resolve_guardrail_plan r = Ok plan"
    and "bt_get (plan_definitions r) name = Some d" and "gd_default_on d"
  shows "name \<in> gd_name ` set plan"
proof -
  have "d \<in> set (bt_values (plan_definitions r))"
    using bt_get_set [OF assms(2)] by (force simp: bt_values_def)
  moreover have "gd_name d = name" using plan_definitions_entry [OF assms(2)] by simp
  ultimately show ?thesis using resolved_plan_names(1) [OF assms(1)] assms(3) by auto
qed

theorem default_on_ignores_forbidden_witness:
  "''base'' \<in> set (effective_forbidden_guardrails (pr_policies sample_plan_request)) \<and>
   ''base'' \<in> gd_name ` set [sample_definition ''base'' True, sample_definition ''pii'' False]"
proof
  show "''base'' \<in> set (effective_forbidden_guardrails (pr_policies sample_plan_request))" by code_simp
  have "bt_get (plan_definitions sample_plan_request) ''base'' = Some (sample_definition ''base'' True)"
    by code_simp
  then show "''base'' \<in> gd_name ` set [sample_definition ''base'' True, sample_definition ''pii'' False]"
    by (rule default_on_ignores_forbidden [OF sample_plan]) (simp add: sample_definition_def)
qed

text \<open>
  An execution that succeeds has run the whole plan in order: one record per entry,
  with the entry's name and failure policy, none of them a block, all appended to the applied list of the
  context; and every fail-closed entry had a handler.
\<close>

theorem execute_runs_whole_plan:
  assumes "execute handlers plan mode context request response = Ok x"
  shows "map er_guardrail_name (ge_records x) = map gd_name plan \<and>
    map er_failure_policy (ge_records x) = map gd_failure_policy plan \<and>
    (\<forall>r \<in> set (ge_records x). er_action r \<noteq> Block \<and> er_mode r = mode) \<and>
    gc_applied_guardrails (ge_context x) = gc_applied_guardrails context @ map gd_name plan \<and>
    (\<forall>d \<in> set plan. gd_failure_policy d = FailClosed \<longrightarrow> handlers (gd_name d) \<noteq> None)"
proof -
  let ?x0 = "\<lparr>ge_request = request, ge_response = response, ge_context = context, ge_records = []\<rparr>"
  have run: "try_fold (execute_entry handlers mode) ?x0 plan = Ok x"
    using assms by (simp add: execute_def)
  have "handlers (gd_name d) \<noteq> None" if "d \<in> set plan" "gd_failure_policy d = FailClosed" for d
  proof -
    have "\<exists>h. handlers (gd_name d) = Some h"
      by (rule try_fold_establish [OF run that(1)]) (use that(2) execute_entry_fail_closed in blast)+
    then show ?thesis by blast
  qed
  with try_fold_records [OF run] show ?thesis by auto
qed

definition allow_handler :: guardrail_handler where
  "allow_handler i = (3, Ok \<lparr>gr_action = Allow, gr_request = None, gr_response = None, gr_reason = None,
     gr_metadata = JObject [], gr_pii_mappings = []\<rparr>)"

definition empty_context :: guardrail_context where
  "empty_context = \<lparr>gc_request_id = [], gc_key_id = None, gc_team_id = None, gc_user_id = None,
     gc_project_id = None, gc_model = None, gc_route = None, gc_provider = None, gc_pii_mappings = [],
     gc_applied_guardrails = [], gc_guardrail_results = []\<rparr>"

theorem execute_runs_whole_plan_witness:
  "\<exists>x. execute (\<lambda>n. Some allow_handler) [sample_definition ''pii'' False] PreCall empty_context None None = Ok x \<and>
     map er_guardrail_name (ge_records x) = [''pii'']"
proof -
  obtain x where x: "execute (\<lambda>n. Some allow_handler) [sample_definition ''pii'' False] PreCall
      empty_context None None = Ok x"
    by (simp add: execute_def entry_defs allow_handler_def sample_definition_def)
  from execute_runs_whole_plan [OF x] x show ?thesis by (simp add: sample_definition_def)
qed

text \<open>
  Blocking is final, dry runs never interfere: when the entries before a guardrail have
  run and its handler blocks, the execution fails with \<open>GuardrailBlocked\<close> whatever the later entries
  are, unless the entry is a dry run; and a plan of dry runs always succeeds and leaves request and
  response as they were, whatever its handlers answer.
\<close>

theorem blocking_and_dry_run:
  assumes "execute handlers pre mode context request response = Ok x"
    and "handlers (gd_name d) = Some h" and "gd_failure_policy d \<noteq> DryRun"
    and "h \<lparr>gi_mode = mode, gi_request = ge_request x, gi_response = ge_response x,
             gi_context = ge_context x, gi_config = gd_config d\<rparr> = (l, Ok result)"
    and "gr_action result = Block"
    and "\<forall>e \<in> set dry. gd_failure_policy e = DryRun"
  shows "execute handlers (pre @ d # post) mode context request response = Err GuardrailBlocked \<and>
    (\<exists>y. execute handlers dry mode context request response = Ok y \<and>
       ge_request y = request \<and> ge_response y = response)"
proof
  have "execute_entry handlers mode x d = Err GuardrailBlocked"
    using assms(2-5) by (simp add: entry_defs)
  then show "execute handlers (pre @ d # post) mode context request response = Err GuardrailBlocked"
    using assms(1) by (simp add: execute_def try_fold_append)
  show "\<exists>y. execute handlers dry mode context request response = Ok y \<and>
      ge_request y = request \<and> ge_response y = response"
    using try_fold_dry_run [OF assms(6)] by (force simp: execute_def)
qed

definition block_handler :: guardrail_handler where
  "block_handler i = (1, Ok \<lparr>gr_action = Block, gr_request = None, gr_response = None, gr_reason = None,
     gr_metadata = JObject [], gr_pii_mappings = []\<rparr>)"

theorem blocking_and_dry_run_witness:
  "execute (\<lambda>n. Some block_handler) [sample_definition ''pii'' False] PreCall empty_context None None
     = Err GuardrailBlocked"
proof -
  have pre: "execute (\<lambda>n. Some block_handler) [] PreCall empty_context None None
      = Ok \<lparr>ge_request = None, ge_response = None, ge_context = empty_context, ge_records = []\<rparr>"
    by (simp add: execute_def)
  show ?thesis
    using blocking_and_dry_run [OF pre refl _ block_handler_def, of "sample_definition ''pii'' False" "[]" "[]"]
    by (simp add: sample_definition_def)
qed

end
