(* ===== verification/Pii_Redaction.thy ===== *)
theory Pii_Redaction
  imports Guardrails
begin

text \<open>
  The built-in guardrail handlers (\<open>gateway-core/src/guardrails.rs\<close>): the PII redaction with its
  placeholders, the HTTP guardrail with the sanitised context and metadata, and the executor that knows
  them. Strings are UTF-8 bytes; every character test of the redaction is on ASCII characters, so reading
  bytes instead of code points changes no token. The HTTP exchange with a provider is the argument
  \<open>send\<close>, the latency the executor measures the argument \<open>latency\<close>.
\<close>

section \<open>Results of a handler\<close>

definition modify_request :: "json \<Rightarrow> guardrail_result" where
  "modify_request request =
     \<lparr>gr_action = Modify, gr_request = Some request, gr_response = None, gr_reason = None,
      gr_metadata = JObject [], gr_pii_mappings = []\<rparr>"

definition modify_response :: "json \<Rightarrow> guardrail_result" where
  "modify_response response =
     \<lparr>gr_action = Modify, gr_request = None, gr_response = Some response, gr_reason = None,
      gr_metadata = JObject [], gr_pii_mappings = []\<rparr>"

section \<open>Tokens\<close>

datatype pii_kind = Email | Phone | Ssn

fun pii_label :: "pii_kind \<Rightarrow> string" where
  "pii_label Email = ''EMAIL''"
| "pii_label Phone = ''PHONE''"
| "pii_label Ssn = ''SSN''"

record redaction_result =
  email_count :: nat
  phone_count :: nat
  ssn_count :: nat
  mappings :: "(string \<times> string) list"

definition default_redaction :: redaction_result where
  "default_redaction = \<lparr>email_count = 0, phone_count = 0, ssn_count = 0, mappings = []\<rparr>"

definition redaction_metadata :: "redaction_result \<Rightarrow> json" where
  "redaction_metadata r =
     JObject [(''email_count'', JNumber (PosInt (email_count r))),
              (''phone_count'', JNumber (PosInt (phone_count r))),
              (''ssn_count'', JNumber (PosInt (ssn_count r)))]"

fun pii_token_character :: "pii_kind \<Rightarrow> char \<Rightarrow> bool" where
  "pii_token_character Email c = (is_ascii_alphanumeric c \<or> c \<in> set ''@._%+-'')"
| "pii_token_character Phone c = (is_ascii_digit c \<or> c \<in> set ''+-().'')"
| "pii_token_character Ssn c = (is_ascii_digit c \<or> c = CHR ''-'')"

definition looks_like_email :: "string \<Rightarrow> bool" where
  "looks_like_email v =
     (case split_once (CHR ''@'') v of
        None \<Rightarrow> False
      | Some (l, domain) \<Rightarrow>
          l \<noteq> [] \<and> CHR ''.'' \<in> set domain \<and> \<not> starts_with domain ''.'' \<and> \<not> ends_with domain ''.'' \<and>
          list_all (\<lambda>c. is_ascii_alphanumeric c \<or> c \<in> set ''@._%+-'') v)"

definition looks_like_ssn :: "string \<Rightarrow> bool" where
  "looks_like_ssn v =
     (case split_char (CHR ''-'') v of
        [a, b, c] \<Rightarrow> length a = 3 \<and> length b = 2 \<and> length c = 4 \<and> list_all (list_all is_ascii_digit) [a, b, c]
      | _ \<Rightarrow> False)"

definition looks_like_phone :: "string \<Rightarrow> bool" where
  "looks_like_phone v =
     (let digits = length (filter is_ascii_digit v)
      in 10 \<le> digits \<and> digits \<le> 15 \<and> list_all (\<lambda>c. is_ascii_digit c \<or> c \<in> set ''+-().'') v)"

fun looks_like :: "pii_kind \<Rightarrow> string \<Rightarrow> bool" where
  "looks_like Email v = looks_like_email v"
| "looks_like Phone v = looks_like_phone v"
| "looks_like Ssn v = looks_like_ssn v"

text \<open>The characters trimmed from both ends of a token: \<open>, . ; : ) ( [ ] { }\<close> and the two quotes.\<close>

definition pii_trim_character :: "char \<Rightarrow> bool" where
  "pii_trim_character c \<longleftrightarrow> c \<in> set '',.;:)([]{}'' \<or> c = CHR 0x22 \<or> c = CHR 0x27"

abbreviation pii_trim :: "string \<Rightarrow> string" where
  "pii_trim \<equiv> trim_matches pii_trim_character"

section \<open>Redaction\<close>

fun next_index :: "pii_kind \<Rightarrow> redaction_result \<Rightarrow> redaction_result \<times> nat" where
  "next_index Email r = (r\<lparr>email_count := email_count r + 1\<rparr>, email_count r + 1)"
| "next_index Phone r = (r\<lparr>phone_count := phone_count r + 1\<rparr>, phone_count r + 1)"
| "next_index Ssn r = (r\<lparr>ssn_count := ssn_count r + 1\<rparr>, ssn_count r + 1)"

definition placeholder :: "pii_kind \<Rightarrow> nat \<Rightarrow> string" where
  "placeholder kind index = CHR ''['' # pii_label kind @ CHR ''_'' # show_nat index @ '']''"

definition push_redacted_token ::
  "pii_kind \<Rightarrow> bool \<Rightarrow> string \<Rightarrow> string \<Rightarrow> redaction_result \<Rightarrow> string \<times> redaction_result" where
  "push_redacted_token kind collect_mapping out token result =
     (if token = [] then (out, result)
      else let trimmed = pii_trim token
      in if \<not> looks_like kind trimmed then (out @ token, result)
         else let (result, index) = next_index kind result;
                  ph = placeholder kind index;
                  result = (if collect_mapping then result\<lparr>mappings := mappings result @ [(ph, trimmed)]\<rparr>
                            else result)
              in (out @ replace_first trimmed ph token, result))"

text \<open>The loop over the characters, with the output, the open token and the counters as its state.\<close>

fun redact_loop ::
  "pii_kind \<Rightarrow> bool \<Rightarrow> string \<Rightarrow> string \<Rightarrow> redaction_result \<Rightarrow> string \<Rightarrow> string \<times> redaction_result" where
  "redact_loop kind collect out token result [] = push_redacted_token kind collect out token result"
| "redact_loop kind collect out token result (c # s) =
     (if pii_token_character kind c then redact_loop kind collect out (token @ [c]) result s
      else let (out, result) = push_redacted_token kind collect out token result
           in redact_loop kind collect (out @ [c]) [] result s)"

definition redact_tokens :: "string \<Rightarrow> redaction_result \<Rightarrow> bool \<Rightarrow> pii_kind \<Rightarrow> string \<times> redaction_result" where
  "redact_tokens input result collect_mapping kind = redact_loop kind collect_mapping [] [] result input"

definition redact_text :: "string \<Rightarrow> redaction_result \<Rightarrow> bool \<Rightarrow> string \<times> redaction_result" where
  "redact_text input result collect_mapping =
     (let (with_email, result) = redact_tokens input result collect_mapping Email;
          (with_ssn, result) = redact_tokens with_email result collect_mapping Ssn
      in redact_tokens with_ssn result collect_mapping Phone)"

definition redact_pii_text :: "string \<Rightarrow> string \<times> json" where
  "redact_pii_text input =
     (let (redacted, result) = redact_text input default_redaction False
      in (redacted, redaction_metadata result))"

fun redact_json_strings_inner :: "bool \<Rightarrow> json \<Rightarrow> redaction_result \<Rightarrow> json \<times> redaction_result"
  and redact_items :: "bool \<Rightarrow> json list \<Rightarrow> redaction_result \<Rightarrow> json list \<times> redaction_result"
  and redact_fields ::
    "bool \<Rightarrow> (string \<times> json) list \<Rightarrow> redaction_result \<Rightarrow> (string \<times> json) list \<times> redaction_result"
where
  "redact_json_strings_inner collect (JString text) r =
     (let (text, r) = redact_text text r collect in (JString text, r))"
| "redact_json_strings_inner collect (JArray items) r =
     (let (items, r) = redact_items collect items r in (JArray items, r))"
| "redact_json_strings_inner collect (JObject object) r =
     (let (object, r) = redact_fields collect object r in (JObject object, r))"
| "redact_json_strings_inner collect JNull r = (JNull, r)"
| "redact_json_strings_inner collect (JBool b) r = (JBool b, r)"
| "redact_json_strings_inner collect (JNumber n) r = (JNumber n, r)"
| "redact_items collect [] r = ([], r)"
| "redact_items collect (item # items) r =
     (let (item, r) = redact_json_strings_inner collect item r;
          (items, r) = redact_items collect items r
      in (item # items, r))"
| "redact_fields collect [] r = ([], r)"
| "redact_fields collect ((k, v) # object) r =
     (let (v, r) = redact_json_strings_inner collect v r;
          (object, r) = redact_fields collect object r
      in ((k, v) # object, r))"

definition redact_json_strings :: "json \<Rightarrow> bool \<Rightarrow> json \<times> redaction_result" where
  "redact_json_strings v collect_mapping = redact_json_strings_inner collect_mapping v default_redaction"

definition redact_value :: "json option \<Rightarrow> bool \<Rightarrow> guardrail_result gateway_result" where
  "redact_value v collect_mapping =
     (let (v, result) = redact_json_strings (case v of Some v \<Rightarrow> v | None \<Rightarrow> JNull) collect_mapping
      in Ok ((modify_request v)\<lparr>gr_metadata := redaction_metadata result, gr_pii_mappings := mappings result\<rparr>))"

definition restore_text :: "(string \<times> string) list \<Rightarrow> string \<Rightarrow> string" where
  "restore_text ms text = foldl (\<lambda>text (ph, original). replace_all ph original text) text ms"

fun restore_placeholders :: "guardrail_context \<Rightarrow> json \<Rightarrow> json" where
  "restore_placeholders context (JString text) = JString (restore_text (gc_pii_mappings context) text)"
| "restore_placeholders context (JArray items) = JArray (map (restore_placeholders context) items)"
| "restore_placeholders context (JObject object) =
     JObject (map (\<lambda>(k, v). (k, restore_placeholders context v)) object)"
| "restore_placeholders context JNull = JNull"
| "restore_placeholders context (JBool b) = JBool b"
| "restore_placeholders context (JNumber n) = JNumber n"

definition pii_redact_execute :: "guardrail_input \<Rightarrow> guardrail_result gateway_result" where
  "pii_redact_execute input =
     (case gi_mode input of
        PreCall \<Rightarrow> redact_value (gi_request input) True
      | PostCall \<Rightarrow>
          (let restore_output = (case Option.bind (json_get (gi_config input) ''restore_output'') as_bool of
                                   Some b \<Rightarrow> b | None \<Rightarrow> True);
               response = (case gi_response input of Some v \<Rightarrow> v | None \<Rightarrow> JNull);
               response = (if restore_output then restore_placeholders (gi_context input) response else response);
               (response, result) = redact_json_strings response True
           in Ok ((modify_response response)\<lparr>gr_metadata := redaction_metadata result\<rparr>))
      | DuringCall \<Rightarrow>
          (let (response, result) =
                 redact_json_strings (case gi_response input of Some v \<Rightarrow> v | None \<Rightarrow> JNull) False
           in Ok ((modify_response response)\<lparr>gr_metadata := redaction_metadata result\<rparr>)))"

section \<open>HTTP guardrails\<close>

record http_config =
  endpoint_url :: string
  bearer_token :: "string option"
  timeout_ms :: nat

record http_provider_request =
  hq_request_id :: string
  hq_guardrail :: string
  hq_mode :: guardrail_mode
  hq_context :: json
  hq_config :: json
  hq_request :: "json option"
  hq_response :: "json option"

record http_provider_response =
  hp_action :: guardrail_action
  hp_request :: "json option"
  hp_response :: "json option"
  hp_reason :: "string option"
  hp_metadata :: json

definition http_guardrail_config :: "json \<Rightarrow> http_config option" where
  "http_guardrail_config v =
     (if Option.bind (json_get v ''provider_kind'') as_str \<noteq> Some ''http'' then None
      else (case Option.bind (json_get v ''endpoint_url'') as_str of
              None \<Rightarrow> None
            | Some url \<Rightarrow>
                Some \<lparr>endpoint_url = url,
                      bearer_token = Option.bind (json_get v ''bearer_token_secret'') as_str,
                      timeout_ms = min (max (case Option.bind (json_get v ''timeout_ms'') as_u64 of
                                               Some t \<Rightarrow> t | None \<Rightarrow> 1500) 100) 10000\<rparr>))"

fun json_of_option :: "string option \<Rightarrow> json" where
  "json_of_option None = JNull"
| "json_of_option (Some s) = JString s"

definition sanitized_context :: "guardrail_context \<Rightarrow> json" where
  "sanitized_context context =
     JObject [(''key_id'', json_of_option (gc_key_id context)),
              (''model'', json_of_option (gc_model context)),
              (''project_id'', json_of_option (gc_project_id context)),
              (''provider'', json_of_option (map_option provider_as_str (gc_provider context))),
              (''route'', json_of_option (map_option route_as_str (gc_route context))),
              (''team_id'', json_of_option (gc_team_id context)),
              (''user_id'', json_of_option (gc_user_id context))]"

definition sensitive_key :: "string \<Rightarrow> bool" where
  "sensitive_key key =
     (let normalized = to_ascii_lowercase key
      in contains_str normalized ''secret'' \<or> contains_str normalized ''token'' \<or>
         contains_str normalized ''password'' \<or> contains_str normalized ''authorization'')"

fun sanitize_metadata :: "json \<Rightarrow> json" where
  "sanitize_metadata (JObject object) =
     JObject (map (\<lambda>(k, v). (k, sanitize_metadata v)) (filter (\<lambda>(k, v). \<not> sensitive_key k) object))"
| "sanitize_metadata (JArray items) = JArray (map sanitize_metadata items)"
| "sanitize_metadata JNull = JNull"
| "sanitize_metadata (JBool b) = JBool b"
| "sanitize_metadata (JNumber n) = JNumber n"
| "sanitize_metadata (JString s) = JString s"

type_synonym http_send =
  "http_config \<Rightarrow> http_provider_request \<Rightarrow> http_provider_response gateway_result"

definition http_guardrail_execute :: "http_send \<Rightarrow> guardrail_input \<Rightarrow> guardrail_result gateway_result" where
  "http_guardrail_execute send input =
     and_then (ok_or (http_guardrail_config (gi_config input)) GuardrailUnavailable) (\<lambda>config.
     and_then (send config
        \<lparr>hq_request_id = gc_request_id (gi_context input),
         hq_guardrail = (case Option.bind (json_get (gi_config input) ''guardrail_name'') as_str of
                           Some n \<Rightarrow> n | None \<Rightarrow> ''custom''),
         hq_mode = gi_mode input, hq_context = sanitized_context (gi_context input),
         hq_config = (case json_get (gi_config input) ''provider_config'' of
                        Some c \<Rightarrow> c | None \<Rightarrow> JObject []),
         hq_request = gi_request input, hq_response = gi_response input\<rparr>) (\<lambda>response.
     Ok \<lparr>gr_action = hp_action response, gr_request = hp_request response,
         gr_response = hp_response response, gr_reason = hp_reason response,
         gr_metadata = sanitize_metadata (hp_metadata response), gr_pii_mappings = []\<rparr>))"

section \<open>The executor and its definitions\<close>

definition pii_redact_guardrail :: string where
  "pii_redact_guardrail = ''pii-redact''"

definition new_definition :: "string \<Rightarrow> string \<Rightarrow> guardrail_mode list \<Rightarrow> failure_policy \<Rightarrow> guardrail_definition" where
  "new_definition name description modes policy =
     \<lparr>gd_name = name, gd_description = description, gd_modes = modes, gd_default_on = False,
      gd_failure_policy = policy, gd_config_schema = JObject [], gd_config = JObject [], gd_enabled = True\<rparr>"

definition pii_redact_definition :: guardrail_definition where
  "pii_redact_definition =
     (new_definition pii_redact_guardrail
        ''Redacts common PII before provider calls and optionally restores placeholders after responses.''
        [PreCall, PostCall, DuringCall] FailClosed)
     \<lparr>gd_config := JObject [(''restore_output'', JBool True)],
      gd_config_schema := JObject [(''restore_output'', JString ''boolean'')]\<rparr>"

definition builtin_guardrail_executor ::
  "nat \<Rightarrow> string \<rightharpoonup> guardrail_handler" where
  "builtin_guardrail_executor latency = [pii_redact_guardrail \<mapsto> \<lambda>i. (latency, pii_redact_execute i)]"

definition guardrail_executor_for_definitions ::
  "http_send \<Rightarrow> nat \<Rightarrow> guardrail_definition list \<Rightarrow> string \<rightharpoonup> guardrail_handler" where
  "guardrail_executor_for_definitions send latency definitions =
     foldl (\<lambda>executor d.
        if gd_name d = pii_redact_guardrail then executor
        else if http_guardrail_config (gd_config d) \<noteq> None
        then executor(gd_name d \<mapsto> \<lambda>i. (latency, http_guardrail_execute send i))
        else executor)
       (builtin_guardrail_executor latency) definitions"

section \<open>What is left after a pass\<close>

text \<open>The maximal runs of characters in a class, empty runs between two separators included.\<close>

fun tokens :: "(char \<Rightarrow> bool) \<Rightarrow> string \<Rightarrow> string \<Rightarrow> string list" where
  "tokens P t [] = [t]"
| "tokens P t (c # s) = (if P c then tokens P (t @ [c]) s else t # tokens P [] s)"

definition free_of :: "pii_kind \<Rightarrow> string \<Rightarrow> bool" where
  "free_of kind s = list_all (\<lambda>t. \<not> looks_like kind (pii_trim t)) (tokens (pii_token_character kind) [] s)"

lemma tokens_run: "list_all P xs \<Longrightarrow> tokens P t (xs @ s) = tokens P (t @ xs) s"
  by (induction xs arbitrary: t) auto

lemma tokens_all: "list_all P xs \<Longrightarrow> tokens P t xs = [t @ xs]"
  using tokens_run [of P xs t "[]"] by simp

lemma tokens_sep: "\<not> P c \<Longrightarrow> tokens P t (a @ c # s) = tokens P t a @ tokens P [] s"
  by (induction a arbitrary: t) auto

lemma tokens_none: "list_all (\<lambda>c. \<not> P c) xs \<Longrightarrow> tokens P t xs = t # map (\<lambda>_. []) xs"
  by (induction xs arbitrary: t) auto

lemma show_nat_length: "n < 10 ^ k \<Longrightarrow> 0 < k \<Longrightarrow> length (show_nat n) \<le> k"
proof (induction k arbitrary: n)
  case (Suc k)
  show ?case
  proof (cases "n < 10")
    case False
    then have "k \<noteq> 0" using Suc.prems by (cases k) auto
    moreover have "n div 10 < 10 ^ k" using Suc.prems(1) by (simp add: less_mult_imp_div_less mult.commute)
    ultimately have "length (show_nat (n div 10)) \<le> k" using Suc.IH by blast
    with False show ?thesis by (subst show_nat.simps) simp
  qed (simp add: show_nat.simps)
qed simp

lemma trim_matches_split:
  obtains pre suf where "s = pre @ trim_matches f s @ suf" "list_all f pre" "list_all f suf"
    "trim_matches f s = [] \<or> \<not> f (hd (trim_matches f s))"
proof
  let ?t = "dropWhile f s"
  have suf: "?t = trim_end_matches f ?t @ rev (takeWhile f (rev ?t))"
    unfolding trim_end_matches_def by (metis rev_append rev_rev_ident takeWhile_dropWhile_id)
  then show "s = takeWhile f s @ trim_matches f s @ rev (takeWhile f (rev ?t))"
    unfolding trim_matches_def by (metis takeWhile_dropWhile_id)
  show "list_all f (takeWhile f s)" "list_all f (rev (takeWhile f (rev ?t)))"
    by (auto simp: list_all_iff dest: set_takeWhileD)
  show "trim_matches f s = [] \<or> \<not> f (hd (trim_matches f s))"
    unfolding trim_matches_def using suf hd_dropWhile [of f s]
    by (metis append_is_Nil_conv hd_append2)
qed

lemma replace_first_at:
  "list_all f pre \<Longrightarrow> \<not> f c \<Longrightarrow> replace_first (c # t) new (pre @ (c # t) @ suf) = pre @ new @ suf"
proof (induction pre)
  case Nil
  show ?case by simp
next
  case (Cons a pre)
  then have "a \<noteq> c" by auto
  then have "strip_prefix (c # t) (a # pre @ (c # t) @ suf) = None"
    by (simp add: strip_prefix_None_iff)
  with Cons show ?case by simp
qed

lemma not_looks_like_Nil [simp]: "\<not> looks_like kind []"
  by (cases kind) (simp_all add: looks_like_email_def looks_like_ssn_def looks_like_phone_def)

lemma pii_trim_all: "list_all pii_trim_character xs \<Longrightarrow> pii_trim xs = []"
  by (auto simp: trim_matches_def trim_end_matches_def list_all_iff dest: set_dropWhileD)

text \<open>A matching token is replaced where it stands: only characters that are trimmed stay around it.\<close>

lemma push_redacted_token_cases:
  obtains (keep) "push_redacted_token kind collect out token r = (out @ token, r)"
      "\<not> looks_like kind (pii_trim token)"
  | (redact) pre suf r' where
      "push_redacted_token kind collect out token r
         = (out @ pre @ placeholder kind (snd (next_index kind r)) @ suf, r')"
      "token = pre @ pii_trim token @ suf" "list_all pii_trim_character pre"
      "list_all pii_trim_character suf" "looks_like kind (pii_trim token)"
      "r' = (fst (next_index kind r))\<lparr>mappings := mappings r @
         (if collect then [(placeholder kind (snd (next_index kind r)), pii_trim token)] else [])\<rparr>"
proof (cases "looks_like kind (pii_trim token)")
  case False
  then show ?thesis by (intro keep) (auto simp: push_redacted_token_def Let_def)
next
  case True
  obtain pre suf where split: "token = pre @ pii_trim token @ suf" "list_all pii_trim_character pre"
    "list_all pii_trim_character suf" "pii_trim token = [] \<or> \<not> pii_trim_character (hd (pii_trim token))"
    by (rule trim_matches_split)
  from True obtain c t where ct: "pii_trim token = c # t" "\<not> pii_trim_character c"
    using split(4) by (cases "pii_trim token") auto
  have "token \<noteq> []" using True by (auto simp: trim_matches_def trim_end_matches_def)
  moreover have "replace_first (pii_trim token) new token = pre @ new @ suf" for new
    using replace_first_at [OF split(2) ct(2)] split(1) ct(1) by metis
  moreover have "mappings (fst (next_index kind r)) = mappings r" by (cases kind) simp_all
  ultimately show ?thesis
    using True split(1-3)
    by (intro redact [of pre suf]) (auto simp: push_redacted_token_def Let_def split: prod.splits)
qed

text \<open>The output of a pass, separated from what was written before it.\<close>

lemma push_redacted_token_out:
  "push_redacted_token kind collect out token r =
     (out @ fst (push_redacted_token kind collect [] token r), snd (push_redacted_token kind collect [] token r))"
  by (simp add: push_redacted_token_def Let_def split: prod.splits)

lemma redact_loop_out:
  "redact_loop kind collect out token r s =
     (out @ fst (redact_loop kind collect [] token r s), snd (redact_loop kind collect [] token r s))"
proof (induction s arbitrary: out token r)
  case Nil
  show ?case unfolding redact_loop.simps by (rule push_redacted_token_out)
next
  case (Cons c s)
  show ?case
  proof (cases "pii_token_character kind c")
    case True
    show ?thesis unfolding redact_loop.simps if_P [OF True] by (rule Cons.IH)
  next
    case False
    let ?p = "push_redacted_token kind collect [] token r"
    have "redact_loop kind collect out token r (c # s)
        = redact_loop kind collect (out @ fst ?p @ [c]) [] (snd ?p) s" for out
      using False by (simp add: push_redacted_token_out [of _ _ out] Let_def split: prod.splits)
    then show ?thesis
      using Cons.IH [of "out @ fst ?p @ [c]" "[]" "snd ?p"] Cons.IH [of "fst ?p @ [c]" "[]" "snd ?p"]
      by (metis append.assoc append_Nil fst_conv snd_conv)
  qed
qed

lemma redact_loop_sep:
  assumes "\<not> pii_token_character kind c"
  shows "fst (redact_loop kind collect [] token r (c # s)) =
      fst (push_redacted_token kind collect [] token r) @ c #
      fst (redact_loop kind collect [] [] (snd (push_redacted_token kind collect [] token r)) s)"
    and "snd (redact_loop kind collect [] token r (c # s)) =
      snd (redact_loop kind collect [] [] (snd (push_redacted_token kind collect [] token r)) s)"
  using assms by (simp_all add: Let_def split: prod.splits) (subst redact_loop_out, simp)+

fun pii_count :: "pii_kind \<Rightarrow> redaction_result \<Rightarrow> nat" where
  "pii_count Email r = email_count r"
| "pii_count Phone r = phone_count r"
| "pii_count Ssn r = ssn_count r"

lemma pii_count_next:
  "pii_count k (fst (next_index kind r)) = (if k = kind then Suc (pii_count k r) else pii_count k r)"
  "snd (next_index kind r) = Suc (pii_count kind r)"
  "pii_count k (r\<lparr>mappings := m\<rparr>) = pii_count k r"
  by (cases k; cases kind; simp)+

lemma push_count_mono: "pii_count k r \<le> pii_count k (snd (push_redacted_token kind collect out token r))"
  by (rule push_redacted_token_cases [of kind collect out token r]) (simp_all add: pii_count_next)

lemma redact_loop_count_mono: "pii_count k r \<le> pii_count k (snd (redact_loop kind collect out token r s))"
proof (induction s arbitrary: out token r)
  case Nil
  show ?case by (simp add: push_count_mono)
next
  case (Cons c s)
  obtain o' r' where p: "push_redacted_token kind collect out token r = (o', r')" by fastforce
  have "pii_count k r \<le> pii_count k r'" using push_count_mono [of k r kind collect out token] p by simp
  then show ?case using Cons.IH [of r "out" "token @ [c]"] Cons.IH [of r' "o' @ [c]" "[]"] p by simp
qed

text \<open>Brackets separate tokens of every kind, and the label and index of a placeholder are no match.\<close>

lemmas ascii_class_defs = is_ascii_alphanumeric_def is_ascii_lowercase_def is_ascii_uppercase_def
  is_ascii_digit_def byte_def

lemma bracket_not_token [simp]:
  "\<not> pii_token_character kind (CHR ''['')" "\<not> pii_token_character kind (CHR '']'')"
  by (cases kind; simp add: ascii_class_defs)+

definition placeholder_text :: "pii_kind \<Rightarrow> nat \<Rightarrow> string" where
  "placeholder_text kind n = pii_label kind @ CHR ''_'' # show_nat n"

lemma placeholder_alt: "placeholder kind n = [] @ CHR ''['' # placeholder_text kind n @ CHR '']'' # []"
  by (simp add: placeholder_def placeholder_text_def)

lemma tokens_placeholder:
  "tokens (pii_token_character k) [] (pre @ placeholder kind n @ suf) =
     tokens (pii_token_character k) [] pre @ tokens (pii_token_character k) [] (placeholder_text kind n) @
     tokens (pii_token_character k) [] suf"
  by (simp add: placeholder_alt tokens_sep)

lemma free_of_sep:
  "\<not> pii_token_character k c \<Longrightarrow> free_of k (a @ c # b) \<longleftrightarrow> free_of k a \<and> free_of k b"
  by (simp add: free_of_def tokens_sep)

lemma free_of_placeholder:
  "free_of k (pre @ placeholder kind n @ suf) \<longleftrightarrow>
     free_of k pre \<and> free_of k (placeholder_text kind n) \<and> free_of k suf"
  by (simp add: free_of_def tokens_placeholder)

lemma tokens_subset: "t' \<in> set (tokens P t s) \<Longrightarrow> set t' \<subseteq> set t \<union> set s"
  by (induction P t s rule: tokens.induct) (auto split: if_splits)

lemma free_of_trimmed:
  assumes "list_all pii_trim_character xs"
  shows "free_of k xs"
proof -
  have "pii_trim t = []" if "t \<in> set (tokens (pii_token_character k) [] xs)" for t
    using tokens_subset [OF that] assms by (intro pii_trim_all) (auto simp: list_all_iff)
  then show ?thesis by (simp add: free_of_def list_all_iff)
qed

lemma set_trim_matches: "set (trim_matches f s) \<subseteq> set s"
  by (rule trim_matches_split [of s f]) (metis Un_upper1 Un_upper2 le_supI2 order_trans set_append)

lemma free_of_run:
  "list_all (pii_token_character k) t \<Longrightarrow> free_of k t \<longleftrightarrow> \<not> looks_like k (pii_trim t)"
  by (simp add: free_of_def tokens_all)

lemma free_of_digits:
  assumes "k \<noteq> Email" and "k = Phone \<longrightarrow> n < 10 ^ 9"
  shows "free_of k (show_nat n)"
proof -
  have P: "list_all (pii_token_character k) (show_nat n)"
    using show_nat_digits [of n] assms(1) by (cases k) (auto simp: list_all_iff)
  have "\<not> looks_like k (pii_trim (show_nat n))"
  proof (cases k)
    case Phone
    have "length (filter is_ascii_digit (pii_trim (show_nat n))) \<le> length (show_nat n)"
      using length_filter_le [of is_ascii_digit "pii_trim (show_nat n)"]
        length_dropWhile_le order_trans
      by (metis (no_types, lifting) length_rev trim_end_matches_def trim_matches_def)
    also have "\<dots> \<le> 9" using show_nat_length [of n 9] assms(2) Phone by simp
    finally show ?thesis using Phone by (simp add: looks_like_phone_def)
  next
    case Ssn
    have "CHR ''-'' \<notin> set (pii_trim (show_nat n))"
      using set_trim_matches [of pii_trim_character "show_nat n"] show_nat_notin [of "CHR ''-''" n]
      by (auto simp: is_ascii_digit_def byte_def)
    then have "split_char (CHR ''-'') (pii_trim (show_nat n)) = [pii_trim (show_nat n)]"
      by (rule split_char_none)
    then show ?thesis using Ssn by (simp add: looks_like_ssn_def)
  qed (use assms in simp)
  with P show ?thesis by (simp add: free_of_run)
qed

lemma free_of_placeholder_text:
  assumes "k \<noteq> Email" and "k = Phone \<longrightarrow> n < 10 ^ 9"
  shows "free_of k (placeholder_text kind n)"
proof -
  have "list_all (\<lambda>c. \<not> pii_token_character k c) (pii_label kind)"
    using assms(1) by (cases k; cases kind) (simp_all add: ascii_class_defs)
  then have "free_of k (pii_label kind)"
    by (simp add: free_of_def tokens_none list_all_iff trim_matches_def trim_end_matches_def)
  moreover have "\<not> pii_token_character k (CHR ''_'')"
    using assms(1) by (cases k) (simp_all add: ascii_class_defs)
  ultimately show ?thesis
    unfolding placeholder_text_def by (simp add: free_of_sep free_of_digits [OF assms])
qed

lemma free_of_email_placeholder_text: "free_of Email (placeholder_text Email n)"
proof -
  have "list_all (pii_token_character Email) ''EMAIL_''" by (simp add: ascii_class_defs)
  moreover have "list_all (pii_token_character Email) (show_nat n)"
    using show_nat_digits [of n]
    by (rule list.pred_mono_strong) (simp add: is_ascii_alphanumeric_def)
  ultimately have "list_all (pii_token_character Email) (''EMAIL_'' @ show_nat n)"
    by (simp only: list_all_append)
  then have P: "list_all (pii_token_character Email) (placeholder_text Email n)"
    by (simp only: placeholder_text_def pii_label.simps append_Cons append_Nil)
  have "CHR ''@'' \<notin> set (placeholder_text Email n)"
    using show_nat_notin [of "CHR ''@''" n] by (simp add: placeholder_text_def is_ascii_digit_def byte_def)
  then have "CHR ''@'' \<notin> set (pii_trim (placeholder_text Email n))"
    by (rule contra_subsetD [OF set_trim_matches])
  then have "split_once (CHR ''@'') (pii_trim (placeholder_text Email n)) = None"
    by (simp add: split_once_None)
  then show ?thesis using P by (simp add: free_of_run looks_like_email_def)
qed

lemma push_free:
  assumes "list_all (pii_token_character kind) token"
    and "kind = Phone \<longrightarrow> phone_count (snd (push_redacted_token kind collect [] token r)) < 10 ^ 9"
  shows "free_of kind (fst (push_redacted_token kind collect [] token r))"
proof (cases rule: push_redacted_token_cases [of kind collect "[]" token r])
  case keep
  with assms(1) show ?thesis by (simp add: free_of_run)
next
  case (redact pre suf r')
  have "kind = Phone \<longrightarrow> snd (next_index kind r) < 10 ^ 9" using assms(2) redact(1,6) by auto
  then have "free_of kind (placeholder_text kind (snd (next_index kind r)))"
    using free_of_email_placeholder_text free_of_placeholder_text by (cases kind) auto
  with redact(1,3,4) show ?thesis by (simp add: free_of_placeholder free_of_trimmed)
qed

text \<open>A pass leaves no match of its own kind, and the phone pass leaves no new social security number.\<close>

lemma redact_loop_free:
  "list_all (pii_token_character kind) token \<Longrightarrow>
   (kind = Phone \<longrightarrow> phone_count (snd (redact_loop kind collect [] token r s)) < 10 ^ 9) \<Longrightarrow>
   free_of kind (fst (redact_loop kind collect [] token r s))"
proof (induction s arbitrary: token r)
  case Nil
  then show ?case by (simp add: push_free)
next
  case (Cons c s)
  show ?case
  proof (cases "pii_token_character kind c")
    case True
    then have step: "redact_loop kind collect [] token r (c # s) = redact_loop kind collect [] (token @ [c]) r s"
      by simp
    show ?thesis unfolding step by (rule Cons.IH) (use Cons.prems(1) True in simp, rule Cons.prems(2) [unfolded step])
  next
    case False
    let ?r = "snd (push_redacted_token kind collect [] token r)"
    note bound = Cons.prems(2) [unfolded redact_loop_sep(2) [OF False]]
    have rest: "free_of kind (fst (redact_loop kind collect [] [] ?r s))"
      by (rule Cons.IH [OF _ bound]) simp
    have "pii_count Phone ?r \<le> pii_count Phone (snd (redact_loop kind collect [] [] ?r s))"
      by (rule redact_loop_count_mono)
    then have "free_of kind (fst (push_redacted_token kind collect [] token r))"
      using bound by (intro push_free Cons.prems(1)) auto
    with rest show ?thesis unfolding redact_loop_sep(1) [OF False] by (simp add: free_of_sep False)
  qed
qed

lemma phone_push_keeps_ssn:
  assumes "free_of Ssn token"
  shows "free_of Ssn (fst (push_redacted_token Phone collect [] token r))"
proof (cases rule: push_redacted_token_cases [of Phone collect "[]" token r])
  case keep
  with assms show ?thesis by simp
next
  case (redact pre suf r')
  then show ?thesis by (simp add: free_of_placeholder free_of_trimmed free_of_placeholder_text)
qed

lemma phone_pass_keeps_ssn:
  "free_of Ssn (token @ s) \<Longrightarrow> free_of Ssn (fst (redact_loop Phone collect [] token r s))"
proof (induction s arbitrary: token r)
  case Nil
  then show ?case by (simp add: phone_push_keeps_ssn)
next
  case (Cons c s)
  show ?case
  proof (cases "pii_token_character Phone c")
    case True
    with Cons.prems show ?thesis using Cons.IH [of "token @ [c]" r] by simp
  next
    case False
    then have sep: "\<not> pii_token_character Ssn c" by auto
    have "free_of Ssn token" "free_of Ssn s" using Cons.prems by (simp_all add: free_of_sep [OF sep])
    then show ?thesis
      unfolding redact_loop_sep(1) [OF False] using Cons.IH [of "[]"]
      by (simp add: free_of_sep [OF sep] phone_push_keeps_ssn)
  qed
qed

lemma redact_text_free:
  assumes "redact_text input r collect = (s, r')" and "phone_count r' < 10 ^ 9"
  shows "free_of Ssn s \<and> free_of Phone s"
proof -
  obtain e r1 where 1: "redact_loop Email collect [] [] r input = (e, r1)" by fastforce
  obtain t r2 where 2: "redact_loop Ssn collect [] [] r1 e = (t, r2)" by fastforce
  have 3: "redact_loop Phone collect [] [] r2 t = (s, r')"
    using assms(1) 1 2 by (simp add: redact_text_def redact_tokens_def)
  have "free_of Ssn t" using redact_loop_free [of Ssn "[]" collect r1 e] 2 by simp
  then have "free_of Ssn s" using phone_pass_keeps_ssn [of "[]" t collect r2] 3 by simp
  moreover have "free_of Phone s" using redact_loop_free [of Phone "[]" collect r2 t] 3 assms(2) by simp
  ultimately show ?thesis by blast
qed

text \<open>The string values of a JSON value at every depth; the keys of an object are not redacted.\<close>

fun all_strings :: "(string \<Rightarrow> bool) \<Rightarrow> json \<Rightarrow> bool" where
  "all_strings P (JString s) = P s"
| "all_strings P (JArray items) = list_all (all_strings P) items"
| "all_strings P (JObject object) = list_all (\<lambda>(k, v). all_strings P v) object"
| "all_strings P _ = True"

lemma redact_text_count: "phone_count r \<le> phone_count (snd (redact_text s r collect))"
  using redact_loop_count_mono [of Phone]
  by (auto simp: redact_text_def redact_tokens_def split: prod.splits) (metis order_trans snd_conv)

definition number_free :: "string \<Rightarrow> bool" where
  "number_free s \<longleftrightarrow> free_of Ssn s \<and> free_of Phone s"

lemma redact_json_free:
  "phone_count r \<le> phone_count (snd (redact_json_strings_inner collect v r)) \<and>
   (phone_count (snd (redact_json_strings_inner collect v r)) < 10 ^ 9 \<longrightarrow>
     all_strings number_free (fst (redact_json_strings_inner collect v r)))"
  "phone_count r \<le> phone_count (snd (redact_items collect items r)) \<and>
   (phone_count (snd (redact_items collect items r)) < 10 ^ 9 \<longrightarrow>
     list_all (all_strings number_free) (fst (redact_items collect items r)))"
  "phone_count r \<le> phone_count (snd (redact_fields collect object r)) \<and>
   (phone_count (snd (redact_fields collect object r)) < 10 ^ 9 \<longrightarrow>
     list_all (\<lambda>(k, v). all_strings number_free v) (fst (redact_fields collect object r)))"
proof (induction collect v r and collect items r and collect object r
    rule: redact_json_strings_inner_redact_items_redact_fields.induct)
  case (1 collect input r)
  obtain s r' where "redact_text input r collect = (s, r')" by fastforce
  then show ?case
    using redact_text_free [of input r collect s r'] redact_text_count [of r input collect]
    by (auto simp: number_free_def)
next
  case (8 collect item items r)
  obtain v r1 where v: "redact_json_strings_inner collect item r = (v, r1)" by fastforce
  obtain vs r2 where "redact_items collect items r1 = (vs, r2)" by fastforce
  with 8(1) 8(2) [OF v [symmetric] refl] v show ?case by auto
next
  case (10 collect k w object r)
  obtain v r1 where v: "redact_json_strings_inner collect w r = (v, r1)" by fastforce
  obtain vs r2 where "redact_fields collect object r1 = (vs, r2)" by fastforce
  with 10(1) 10(2) [OF v [symmetric] refl] v show ?case by auto
qed (auto split: prod.split)

section \<open>Sanitised metadata\<close>

fun no_sensitive_key :: "json \<Rightarrow> bool" where
  "no_sensitive_key (JArray items) = list_all no_sensitive_key items"
| "no_sensitive_key (JObject object) = list_all (\<lambda>(k, v). \<not> sensitive_key k \<and> no_sensitive_key v) object"
| "no_sensitive_key _ = True"

lemma sanitize_metadata_no_sensitive_key: "no_sensitive_key (sanitize_metadata v)"
  by (induction v rule: sanitize_metadata.induct) (auto simp: list_all_iff)

lemma executor_for_definitions:
  "guardrail_executor_for_definitions send latency ds n =
     (if n = pii_redact_guardrail then Some (\<lambda>i. (latency, pii_redact_execute i))
      else if \<exists>d \<in> set ds. gd_name d = n \<and> http_guardrail_config (gd_config d) \<noteq> None
      then Some (\<lambda>i. (latency, http_guardrail_execute send i)) else None)"
  unfolding guardrail_executor_for_definitions_def builtin_guardrail_executor_def
  by (induction ds rule: rev_induct) auto

text \<open>Text without a match is copied, and the counters stay.\<close>

lemma redact_loop_id:
  "free_of kind (token @ s) \<Longrightarrow> list_all (pii_token_character kind) token \<Longrightarrow>
   redact_loop kind collect out token r s = (out @ token @ s, r)"
proof (induction s arbitrary: out token)
  case Nil
  then show ?case by (simp add: free_of_run push_redacted_token_def Let_def)
next
  case (Cons c s)
  show ?case
  proof (cases "pii_token_character kind c")
    case True
    with Cons.prems show ?thesis using Cons.IH [of "token @ [c]" out] by simp
  next
    case False
    then have "free_of kind token" "free_of kind s" using Cons.prems(1) by (simp_all add: free_of_sep)
    with False Cons.prems(2) show ?thesis
      using Cons.IH [of "[]" "out @ token @ [c]"]
      by (auto simp: free_of_run push_redacted_token_def Let_def)
  qed
qed

lemma pii_redact_execute_Ok:
  assumes "pii_redact_execute i = Ok g"
  obtains v collect where "gr_action g = Modify"
    "gr_metadata g = redaction_metadata (snd (redact_json_strings_inner collect v default_redaction))"
    "{gr_request g, gr_response g} = {None, Some (fst (redact_json_strings_inner collect v default_redaction))}"
proof (cases "gi_mode i")
  case PreCall
  with assms show ?thesis
    by (intro that [of True "case gi_request i of Some v \<Rightarrow> v | None \<Rightarrow> JNull"])
      (auto simp: pii_redact_execute_def redact_value_def redact_json_strings_def modify_request_def
        case_prod_unfold Let_def)
next
  case PostCall
  let ?response = "case gi_response i of Some v \<Rightarrow> v | None \<Rightarrow> JNull"
  let ?restore = "case Option.bind (json_get (gi_config i) ''restore_output'') as_bool of
    Some b \<Rightarrow> b | None \<Rightarrow> True"
  from PostCall assms show ?thesis
    by (intro that [of True "if ?restore then restore_placeholders (gi_context i) ?response else ?response"])
      (auto simp: pii_redact_execute_def redact_json_strings_def modify_response_def case_prod_unfold Let_def)
next
  case DuringCall
  with assms show ?thesis
    by (intro that [of False "case gi_response i of Some v \<Rightarrow> v | None \<Rightarrow> JNull"])
      (auto simp: pii_redact_execute_def redact_json_strings_def modify_response_def case_prod_unfold Let_def)
qed

section \<open>Properties\<close>


definition restore_input :: guardrail_input where
  "restore_input =
     \<lparr>gi_mode = PostCall, gi_request = None, gi_response = Some (JObject [(''content'', JString ''Call [PHONE_1]'')]),
      gi_context = empty_context\<lparr>gc_pii_mappings := [(''[PHONE_1]'', ''+15551234567'')]\<rparr>,
      gi_config = JObject [(''restore_output'', JBool True)]\<rparr>"

definition restore_result :: guardrail_result where
  "restore_result =
     (modify_response (JObject [(''content'', JString ''Call [PHONE_1]'')]))
     \<lparr>gr_metadata := redaction_metadata (default_redaction\<lparr>phone_count := 1\<rparr>)\<rparr>"


text \<open>
  A pass over a text removes every match of its kind, a second pass over its output
  changes nothing and counts nothing, and a text without a match is returned as it is. The index of a
  phone placeholder would itself be a phone number from a billion on, hence the bound for that kind.
\<close>

theorem redact_tokens_idempotent:
  assumes "redact_tokens input r collect kind = (s, r')"
    and "kind = Phone \<longrightarrow> phone_count r' < 10 ^ 9"
  shows "free_of kind s \<and> redact_tokens s r2 collect2 kind = (s, r2) \<and>
    (free_of kind input \<longrightarrow> s = input \<and> r' = r)"
proof -
  have loop: "redact_loop kind collect [] [] r input = (s, r')"
    using assms(1) by (simp add: redact_tokens_def)
  then have free: "free_of kind s"
    using redact_loop_free [of kind "[]" collect r input] assms(2) by (cases "kind = Phone") auto
  moreover from free have "redact_tokens s r2 collect2 kind = (s, r2)"
    using redact_loop_id [of kind "[]" s] by (simp add: redact_tokens_def)
  moreover have "s = input \<and> r' = r" if "free_of kind input"
    using redact_loop_id [of kind "[]" input collect "[]" r] that loop by simp
  ultimately show ?thesis by blast
qed

theorem redact_tokens_idempotent_witness:
  "redact_tokens ''mail a@b.co, now'' default_redaction False Email =
     (''mail [EMAIL_1], now'', default_redaction\<lparr>email_count := 1\<rparr>) \<and>
   free_of Email ''mail [EMAIL_1], now''"
proof -
  have run: "redact_tokens ''mail a@b.co, now'' default_redaction False Email =
      (''mail [EMAIL_1], now'', default_redaction\<lparr>email_count := 1\<rparr>)" by code_simp
  from redact_tokens_idempotent [OF run] run show ?thesis by simp
qed

text \<open>
  C13 (safety): no result of the executor's handlers carries a metadata key that names a secret, token,
  password or authorization, at any depth and whatever the HTTP provider answers; the PII guardrail
  cannot be replaced by a catalog entry, and every other handler belongs to an entry with a valid HTTP
  configuration, yields no PII mappings and is called with a timeout between 0.1 and 10 seconds.
\<close>

theorem executor_results_sanitised:
  assumes "guardrail_executor_for_definitions send latency ds n = Some h" and "h i = (l, Ok g)"
  shows "no_sensitive_key (gr_metadata g) \<and>
    (n = pii_redact_guardrail \<longrightarrow> pii_redact_execute i = Ok g) \<and>
    (n \<noteq> pii_redact_guardrail \<longrightarrow> gr_pii_mappings g = [] \<and>
       (\<exists>d \<in> set ds. gd_name d = n \<and> http_guardrail_config (gd_config d) \<noteq> None) \<and>
       (\<exists>c. http_guardrail_config (gi_config i) = Some c \<and> 100 \<le> timeout_ms c \<and> timeout_ms c \<le> 10000))"
proof (cases "n = pii_redact_guardrail")
  case True
  have "no_sensitive_key (redaction_metadata r)" for r
    by (simp add: redaction_metadata_def) code_simp
  with True assms show ?thesis
    by (auto simp: executor_for_definitions pii_redact_execute_def redact_value_def Let_def
        split: guardrail_mode.splits prod.splits)
next
  case False
  then have g: "http_guardrail_execute send i = Ok g"
    "\<exists>d \<in> set ds. gd_name d = n \<and> http_guardrail_config (gd_config d) \<noteq> None"
    using assms by (auto simp: executor_for_definitions split: if_splits)
  from g(1) obtain c where c: "http_guardrail_config (gi_config i) = Some c"
    by (auto simp: http_guardrail_execute_def ok_or_def split: option.splits)
  then have "100 \<le> timeout_ms c \<and> timeout_ms c \<le> 10000"
    by (auto simp: http_guardrail_config_def split: if_splits option.splits)
  moreover have "no_sensitive_key (gr_metadata g) \<and> gr_pii_mappings g = []"
    using g(1) sanitize_metadata_no_sensitive_key by (auto simp: http_guardrail_execute_def)
  ultimately show ?thesis using False g(2) c by blast
qed

definition http_entry :: guardrail_definition where
  "http_entry = (sample_definition ''http-check'' False)
     \<lparr>gd_config := JObject [(''endpoint_url'', JString ''http://guard''), (''provider_kind'', JString ''http'')]\<rparr>"

definition leaky_send :: http_send where
  "leaky_send c q = Ok \<lparr>hp_action = Allow, hp_request = None, hp_response = None, hp_reason = None,
     hp_metadata = JObject [(''Api-Token'', JString ''x''), (''score'', JBool True)]\<rparr>"

theorem executor_results_sanitised_witness:
  "\<exists>h l g. guardrail_executor_for_definitions leaky_send 4 [http_entry] ''http-check'' = Some h \<and>
     h \<lparr>gi_mode = PreCall, gi_request = None, gi_response = None, gi_context = empty_context,
        gi_config = gd_config http_entry\<rparr> = (l, Ok g) \<and>
     gr_metadata g = JObject [(''score'', JBool True)] \<and> no_sensitive_key (gr_metadata g)"
proof -
  let ?i = "\<lparr>gi_mode = PreCall, gi_request = None, gi_response = None, gi_context = empty_context,
        gi_config = gd_config http_entry\<rparr>"
  have "http_guardrail_config (gd_config http_entry) \<noteq> None"
    by (simp add: http_entry_def http_guardrail_config_def json_get_def bt_get_def)
  then have h: "guardrail_executor_for_definitions leaky_send 4 [http_entry] ''http-check''
      = Some (\<lambda>i. (4, http_guardrail_execute leaky_send i))"
    by (simp add: executor_for_definitions pii_redact_guardrail_def) (simp add: http_entry_def sample_definition_def)
  have run: "http_guardrail_execute leaky_send ?i = Ok \<lparr>gr_action = Allow, gr_request = None, gr_response = None,
      gr_reason = None, gr_metadata = JObject [(''score'', JBool True)], gr_pii_mappings = []\<rparr>"
    by code_simp
  from executor_results_sanitised [OF h, of ?i 4] run h show ?thesis by simp
qed

end
