(* ===== verification/Policies.thy ===== *)
theory Policies
  imports Guardrails
begin

text \<open>
  Key policies (\<open>gateway-core/src/policies.rs\<close>): the evaluation of a policy on a request, the output
  token bound enforced before a provider is paid, and the merge of the global, project, team, key, route
  and model layers. \<open>serde_json::from_slice\<close> is outside the sources: the parsers at the types the code
  uses are the fields of \<open>serde\<close>, an argument of the operations that parse a body.
\<close>

section \<open>Policies and requests\<close>

record key_policy =
  kp_deny :: bool
  kp_allowed_routes :: "route list"
  kp_allowed_models :: "string list"
  kp_allowed_providers :: "provider list"
  kp_allowed_services :: "string list"
  kp_rpm_limit :: "int option"
  kp_tpm_limit :: "int option"
  kp_daily_budget_usd :: "f64 option"
  kp_monthly_budget_usd :: "f64 option"
  kp_allow_streaming :: bool
  kp_allow_tools :: bool
  kp_max_requests_per_day :: "int option"
  kp_max_tokens_per_day :: "int option"
  kp_max_cost_per_request :: "f64 option"
  kp_max_input_tokens_per_request :: "int option"
  kp_max_output_tokens_per_request :: "int option"
  kp_allowed_hours_utc :: "int list"
  kp_unused_key_auto_disable_after_days :: "int option"
  kp_max_request_body_bytes :: "int option"
  kp_max_response_body_bytes :: "int option"
  kp_max_stream_duration_seconds :: "int option"
  kp_max_sse_event_bytes :: "int option"
  kp_max_tool_call_count :: "int option"
  kp_max_tool_schema_bytes :: "int option"
  kp_policy_version :: int

definition neutral_layer :: "int \<Rightarrow> key_policy" where
  "neutral_layer version =
     \<lparr>kp_deny = False, kp_allowed_routes = [], kp_allowed_models = [], kp_allowed_providers = [],
      kp_allowed_services = [], kp_rpm_limit = None, kp_tpm_limit = None, kp_daily_budget_usd = None,
      kp_monthly_budget_usd = None, kp_allow_streaming = True, kp_allow_tools = True,
      kp_max_requests_per_day = None, kp_max_tokens_per_day = None, kp_max_cost_per_request = None,
      kp_max_input_tokens_per_request = None, kp_max_output_tokens_per_request = None,
      kp_allowed_hours_utc = [], kp_unused_key_auto_disable_after_days = None,
      kp_max_request_body_bytes = None, kp_max_response_body_bytes = None,
      kp_max_stream_duration_seconds = None, kp_max_sse_event_bytes = None,
      kp_max_tool_call_count = None, kp_max_tool_schema_bytes = None, kp_policy_version = version\<rparr>"

definition default_key_policy :: key_policy where
  "default_key_policy =
     (neutral_layer 1)\<lparr>kp_allowed_routes := [ChatCompletions, Responses], kp_allowed_providers := [LiteLlm],
        kp_allow_streaming := False, kp_allow_tools := False\<rparr>"

record generation_features =
  gf_model :: "string option"
  gf_stream :: bool
  gf_tools :: bool
  gf_service_name :: "string option"

definition default_features :: generation_features where
  "default_features = \<lparr>gf_model = None, gf_stream = False, gf_tools = False, gf_service_name = None\<rparr>"

record request_analysis =
  ra_features :: generation_features
  ra_client_guardrails :: "json option"

text \<open>What \<open>GenerationRequestProbe\<close> parses; of ignored lists only the length is kept.\<close>

record generation_request_probe =
  grp_model :: "string option"
  grp_stream :: bool
  grp_tools :: "unit list option"
  grp_functions :: "unit list option"
  grp_function_call :: "json option"
  grp_tool_choice :: "json option"
  grp_service :: "string option"
  grp_service_name :: "string option"
  grp_guardrails :: "json option"

datatype output_maximum = Missing | Tokens nat

record output_maximum_probe =
  om_max_tokens :: output_maximum
  om_max_completion_tokens :: output_maximum
  om_max_output_tokens :: output_maximum
  om_n :: output_maximum

record serde =
  from_value :: "string \<Rightarrow> json option"
  from_batch :: "string \<Rightarrow> string list option"
  from_extra_body :: "string \<Rightarrow> json btree_map option option"
  from_output_maximum :: "string \<Rightarrow> output_maximum_probe option"
  from_generation_probe :: "string \<Rightarrow> generation_request_probe option"

section \<open>Evaluation\<close>

text \<open>An allowlist restricts only when it is not empty.\<close>

definition listed :: "'a list \<Rightarrow> 'a \<Rightarrow> bool" where
  "listed xs x = (xs = [] \<or> x \<in> set xs)"

definition evaluate_policy ::
  "key_policy \<Rightarrow> route \<Rightarrow> provider \<Rightarrow> generation_features \<Rightarrow> unit gateway_result" where
  "evaluate_policy policy rt prov features =
     (if kp_deny policy then Err PolicyDenied
      else if \<not> listed (kp_allowed_routes policy) rt then Err PolicyDenied
      else if \<not> listed (kp_allowed_providers policy) prov then Err PolicyDenied
      else if (case gf_service_name features of
                 Some service_name \<Rightarrow> \<not> listed (kp_allowed_services policy) service_name | None \<Rightarrow> False)
      then Err PolicyDenied
      else if (case gf_model features of
                 Some model \<Rightarrow> \<not> listed (kp_allowed_models policy) model | None \<Rightarrow> False)
      then Err PolicyDenied
      else if gf_stream features \<and> \<not> kp_allow_streaming policy then Err PolicyDenied
      else if gf_tools features \<and> \<not> kp_allow_tools policy then Err PolicyDenied
      else Ok ())"

text \<open>\<open>exceeds_i32\<close> and \<open>exceeds_i64\<close>: the widths play no role in a comparison.\<close>

fun exceeds :: "int option \<Rightarrow> int option \<Rightarrow> bool" where
  "exceeds (Some v) (Some limit) = (limit < v)"
| "exceeds _ _ = False"

fun exceeds_cost :: "f64 option \<Rightarrow> f64 option \<Rightarrow> bool" where
  "exceeds_cost (Some cost) (Some limit) = f64_lt limit cost"
| "exceeds_cost _ _ = False"

text \<open>The hour of a point in time, given in seconds since the epoch.\<close>

definition hour_utc :: "int \<Rightarrow> int" where
  "hour_utc now = now div 3600 mod 24"

definition evaluate_policy_limits ::
  "key_policy \<Rightarrow> int \<Rightarrow> int option \<Rightarrow> int option \<Rightarrow> int option \<Rightarrow> int option \<Rightarrow> f64 option
     \<Rightarrow> unit gateway_result" where
  "evaluate_policy_limits policy now request_body_bytes response_body_bytes input_tokens output_tokens
       estimated_cost_usd =
     (if \<not> listed (kp_allowed_hours_utc policy) (hour_utc now) then Err PolicyDenied
      else if exceeds request_body_bytes (kp_max_request_body_bytes policy) then Err RequestBodyTooLarge
      else if exceeds response_body_bytes (kp_max_response_body_bytes policy) then Err ResponseBodyTooLarge
      else if exceeds input_tokens (kp_max_input_tokens_per_request policy) \<or>
              exceeds output_tokens (kp_max_output_tokens_per_request policy) then Err PolicyDenied
      else if exceeds_cost estimated_cost_usd (kp_max_cost_per_request policy) then Err PolicyDenied
      else Ok ())"

section \<open>The output token bound\<close>

definition allowed_fields :: "route \<Rightarrow> string list gateway_result" where
  "allowed_fields rt =
     (case rt of
        ChatCompletions \<Rightarrow> Ok
          [''model'', ''messages'', ''stream'', ''stream_options'', ''max_tokens'', ''max_completion_tokens'',
           ''max_output_tokens'', ''n'', ''temperature'', ''top_p'', ''stop'', ''frequency_penalty'',
           ''presence_penalty'', ''logit_bias'', ''logprobs'', ''top_logprobs'', ''seed'', ''user'', ''tools'',
           ''tool_choice'', ''functions'', ''function_call'', ''parallel_tool_calls'', ''response_format'',
           ''metadata'', ''store'', ''reasoning_effort'', ''service_tier'', ''modalities'', ''audio'',
           ''prediction'', ''web_search_options'', ''verbosity'', ''prompt_cache_key'', ''safety_identifier'',
           ''guardrails'', ''extra_body'']
      | Responses \<Rightarrow> Ok
          [''model'', ''input'', ''instructions'', ''stream'', ''stream_options'', ''max_output_tokens'',
           ''max_tool_calls'', ''max_tokens'', ''max_completion_tokens'', ''n'', ''temperature'', ''top_p'',
           ''top_logprobs'', ''tools'', ''tool_choice'', ''parallel_tool_calls'', ''metadata'', ''store'',
           ''reasoning'', ''service_tier'', ''truncation'', ''include'', ''text'', ''previous_response_id'',
           ''conversation'', ''background'', ''prompt'', ''user'', ''prompt_cache_key'', ''safety_identifier'',
           ''guardrails'', ''extra_body'']
      | AnthropicMessages \<Rightarrow> Ok
          [''model'', ''messages'', ''system'', ''stream'', ''max_tokens'', ''max_completion_tokens'',
           ''max_output_tokens'', ''n'', ''temperature'', ''top_p'', ''top_k'', ''stop_sequences'', ''metadata'',
           ''tools'', ''tool_choice'', ''thinking'', ''output_config'', ''service_tier'', ''cache_control'',
           ''container'', ''context_management'', ''guardrails'', ''extra_body'']
      | _ \<Rightarrow> Err PolicyDenied)"

definition required_maximum :: "route \<Rightarrow> output_maximum_probe \<Rightarrow> nat gateway_result" where
  "required_maximum rt probe =
     (case rt of
        ChatCompletions \<Rightarrow>
          (case (om_max_completion_tokens probe, om_max_tokens probe) of
             (Tokens v, _) \<Rightarrow> Ok v
           | (_, Tokens v) \<Rightarrow> Ok v
           | _ \<Rightarrow> Err PolicyDenied)
      | Responses \<Rightarrow> (case om_max_output_tokens probe of Tokens v \<Rightarrow> Ok v | Missing \<Rightarrow> Err PolicyDenied)
      | AnthropicMessages \<Rightarrow> (case om_max_tokens probe of Tokens v \<Rightarrow> Ok v | Missing \<Rightarrow> Err PolicyDenied)
      | _ \<Rightarrow> Err PolicyDenied)"

definition agrees :: "nat \<Rightarrow> output_maximum \<Rightarrow> unit gateway_result" where
  "agrees required field =
     (case field of
        Tokens v \<Rightarrow> if v \<noteq> required then Err PolicyDenied else Ok ()
      | Missing \<Rightarrow> Ok ())"

definition provider_output_maximum :: "serde \<Rightarrow> route \<Rightarrow> string \<Rightarrow> nat gateway_result" where
  "provider_output_maximum sd rt body =
     and_then (allowed_fields rt) (\<lambda>allowed.
     and_then (ok_or (from_value sd body) PolicyDenied) (\<lambda>v.
     if (case as_object v of None \<Rightarrow> True | Some object \<Rightarrow> list_ex (\<lambda>f. f \<notin> set allowed) (bt_keys object))
     then Err PolicyDenied
     else
     and_then (ok_or (from_output_maximum sd body) PolicyDenied) (\<lambda>probe.
     and_then (required_maximum rt probe) (\<lambda>required.
     if required = 0 then Err PolicyDenied
     else
     and_then (try_each (agrees required)
        [om_max_tokens probe, om_max_completion_tokens probe, om_max_output_tokens probe]) (\<lambda>_.
     let count = (case om_n probe of Missing \<Rightarrow> 1 | Tokens v \<Rightarrow> v)
     in if count = 0 \<or> rt \<noteq> ChatCompletions \<and> count \<noteq> 1 then Err PolicyDenied
        else ok_or (checked_mul required count) PolicyDenied)))))"

function reject_provider_parameter_overrides ::
  "serde \<Rightarrow> key_policy \<Rightarrow> route \<Rightarrow> string \<Rightarrow> unit gateway_result" where
  "reject_provider_parameter_overrides sd policy rt body =
     (if rt = AnthropicMessageBatches
      then and_then (ok_or (from_batch sd body) PolicyDenied) (\<lambda>requests.
             try_each (\<lambda>params. reject_provider_parameter_overrides sd policy AnthropicMessages params) requests)
      else let wildcard = (rt = LiteLlmPassthrough)
      in if wildcard \<and> \<not> (case from_value sd body of Some v \<Rightarrow> is_object v | None \<Rightarrow> False) then Ok ()
         else if \<not> wildcard \<and>
            rt \<notin> {ChatCompletions, Responses, AnthropicMessages, LiteLlmEmbeddings, LiteLlmRerank}
         then Ok ()
         else and_then (ok_or (from_extra_body sd body) PolicyDenied) (\<lambda>probe.
           case probe of
             None \<Rightarrow> Ok ()
           | Some extra \<Rightarrow>
               if bt_contains_key extra ''model'' then Err PolicyDenied
               else if wildcard then Ok ()
               else if kp_max_output_tokens_per_request policy \<noteq> None \<and>
                       rt \<in> {ChatCompletions, Responses, AnthropicMessages} \<and> extra \<noteq> [] \<or>
                       \<not> kp_allow_streaming policy \<and> bt_contains_key extra ''stream'' \<or>
                       \<not> kp_allow_tools policy \<and>
                         list_ex (bt_contains_key extra) [''tools'', ''functions'', ''tool_choice'', ''function_call'']
               then Err PolicyDenied
               else Ok ()))"
  by pat_completeness auto
termination
  by (relation "measure (\<lambda>(sd, policy, rt, body). if rt = AnthropicMessageBatches then 1 else 0)") auto

declare reject_provider_parameter_overrides.simps [simp del]

definition add_entry_maximum :: "serde \<Rightarrow> nat \<Rightarrow> string \<Rightarrow> nat gateway_result" where
  "add_entry_maximum sd so_far params =
     and_then (provider_output_maximum sd AnthropicMessages params) (\<lambda>m.
       ok_or (checked_add so_far m) PolicyDenied)"

definition enforce_output_token_limit :: "serde \<Rightarrow> key_policy \<Rightarrow> route \<Rightarrow> string \<Rightarrow> unit gateway_result" where
  "enforce_output_token_limit sd policy rt body =
     and_then (reject_provider_parameter_overrides sd policy rt body) (\<lambda>_.
     case kp_max_output_tokens_per_request policy of
       None \<Rightarrow> Ok ()
     | Some limit \<Rightarrow>
         if rt \<in> {LiteLlmEmbeddings, LiteLlmRerank, AnthropicMessagesCountTokens, AnthropicModels} then Ok ()
         else if limit < 0 then Err PolicyDenied
         else
         and_then
           (if rt = AnthropicMessageBatches
            then and_then (ok_or (from_batch sd body) PolicyDenied) (\<lambda>requests.
                   if requests = [] then Err PolicyDenied
                   else try_fold (add_entry_maximum sd) 0 requests)
            else provider_output_maximum sd rt body)
           (\<lambda>maximum. if limit < int maximum then Err PolicyDenied else Ok ()))"

section \<open>Layers\<close>

datatype policy_layer_kind = GlobalLayer | ProjectLayer | TeamLayer | KeyLayer | RouteLayer | ModelLayer

fun policy_layer_kind_as_str :: "policy_layer_kind \<Rightarrow> string" where
  "policy_layer_kind_as_str GlobalLayer = ''global''"
| "policy_layer_kind_as_str ProjectLayer = ''project''"
| "policy_layer_kind_as_str TeamLayer = ''team''"
| "policy_layer_kind_as_str KeyLayer = ''key''"
| "policy_layer_kind_as_str RouteLayer = ''route''"
| "policy_layer_kind_as_str ModelLayer = ''model''"

record policy_layer =
  pl_kind :: policy_layer_kind
  pl_scope_id :: "string option"
  pl_policy :: key_policy
  pl_guardrail_policy :: guardrail_policy
  pl_policy_version :: int

record policy_layer_trace =
  plt_kind :: policy_layer_kind
  plt_scope_id :: "string option"
  plt_policy_version :: int

record effective_policy =
  ep_policy :: key_policy
  ep_guardrail_policy :: guardrail_policy
  ep_applied_layers :: "policy_layer_trace list"

text \<open>\<open>merge_allowlist\<close> on the list and the deny flag it writes through its \<open>&mut\<close> argument.\<close>

definition merge_allowlist :: "'a list \<times> bool \<Rightarrow> 'a list \<Rightarrow> 'a list \<times> bool" where
  "merge_allowlist = (\<lambda>(effective, deny) new_list.
     if new_list = [] then (effective, deny)
     else if effective = [] then (new_list, deny)
     else let effective = filter (\<lambda>v. v \<in> set new_list) effective
          in (effective, deny \<or> effective = []))"

definition valid_hours :: "int list \<Rightarrow> int list" where
  "valid_hours hours = remdups_adj (sort (filter (\<lambda>h. 0 \<le> h \<and> h \<le> 23) hours))"

definition merge_allowed_hours :: "int list \<times> bool \<Rightarrow> int list \<Rightarrow> int list \<times> bool" where
  "merge_allowed_hours = (\<lambda>(effective, deny) new_hours.
     let normalized = valid_hours new_hours
     in if normalized = [] then (effective, deny)
        else if effective = [] then (normalized, deny)
        else let effective = filter (\<lambda>v. v \<in> set normalized) effective
             in (effective, deny \<or> effective = []))"

text \<open>\<open>stricter_i32\<close>, \<open>stricter_i64\<close> and \<open>stricter_f64\<close>.\<close>

fun stricter :: "('a \<Rightarrow> 'a \<Rightarrow> 'a) \<Rightarrow> 'a option \<Rightarrow> 'a option \<Rightarrow> 'a option" where
  "stricter smaller (Some a) (Some b) = Some (smaller a b)"
| "stricter smaller (Some a) None = Some a"
| "stricter smaller None b = b"

abbreviation stricter_int :: "int option \<Rightarrow> int option \<Rightarrow> int option" where
  "stricter_int \<equiv> stricter min"

abbreviation stricter_f64 :: "f64 option \<Rightarrow> f64 option \<Rightarrow> f64 option" where
  "stricter_f64 \<equiv> stricter f64_min"

definition merge_policy :: "key_policy \<Rightarrow> key_policy \<Rightarrow> key_policy" where
  "merge_policy e n =
     (let deny = kp_deny e \<or> kp_deny n;
          (routes, deny) = merge_allowlist (kp_allowed_routes e, deny) (kp_allowed_routes n);
          (models, deny) = merge_allowlist (kp_allowed_models e, deny) (kp_allowed_models n);
          (providers, deny) = merge_allowlist (kp_allowed_providers e, deny) (kp_allowed_providers n);
          (services, deny) = merge_allowlist (kp_allowed_services e, deny) (kp_allowed_services n);
          (hours, deny) = merge_allowed_hours (kp_allowed_hours_utc e, deny) (kp_allowed_hours_utc n)
      in \<lparr>kp_deny = deny, kp_allowed_routes = routes, kp_allowed_models = models,
          kp_allowed_providers = providers, kp_allowed_services = services,
          kp_rpm_limit = stricter_int (kp_rpm_limit e) (kp_rpm_limit n),
          kp_tpm_limit = stricter_int (kp_tpm_limit e) (kp_tpm_limit n),
          kp_daily_budget_usd = stricter_f64 (kp_daily_budget_usd e) (kp_daily_budget_usd n),
          kp_monthly_budget_usd = stricter_f64 (kp_monthly_budget_usd e) (kp_monthly_budget_usd n),
          kp_allow_streaming = (kp_allow_streaming e \<and> kp_allow_streaming n),
          kp_allow_tools = (kp_allow_tools e \<and> kp_allow_tools n),
          kp_max_requests_per_day = stricter_int (kp_max_requests_per_day e) (kp_max_requests_per_day n),
          kp_max_tokens_per_day = stricter_int (kp_max_tokens_per_day e) (kp_max_tokens_per_day n),
          kp_max_cost_per_request = stricter_f64 (kp_max_cost_per_request e) (kp_max_cost_per_request n),
          kp_max_input_tokens_per_request =
            stricter_int (kp_max_input_tokens_per_request e) (kp_max_input_tokens_per_request n),
          kp_max_output_tokens_per_request =
            stricter_int (kp_max_output_tokens_per_request e) (kp_max_output_tokens_per_request n),
          kp_allowed_hours_utc = hours,
          kp_unused_key_auto_disable_after_days =
            stricter_int (kp_unused_key_auto_disable_after_days e) (kp_unused_key_auto_disable_after_days n),
          kp_max_request_body_bytes = stricter_int (kp_max_request_body_bytes e) (kp_max_request_body_bytes n),
          kp_max_response_body_bytes = stricter_int (kp_max_response_body_bytes e) (kp_max_response_body_bytes n),
          kp_max_stream_duration_seconds =
            stricter_int (kp_max_stream_duration_seconds e) (kp_max_stream_duration_seconds n),
          kp_max_sse_event_bytes = stricter_int (kp_max_sse_event_bytes e) (kp_max_sse_event_bytes n),
          kp_max_tool_call_count = stricter_int (kp_max_tool_call_count e) (kp_max_tool_call_count n),
          kp_max_tool_schema_bytes = stricter_int (kp_max_tool_schema_bytes e) (kp_max_tool_schema_bytes n),
          kp_policy_version = max (kp_policy_version e) (kp_policy_version n)\<rparr>)"

definition append_unique :: "string list \<Rightarrow> string list \<Rightarrow> string list" where
  "append_unique target vs = foldl (\<lambda>t v. if v \<in> set t then t else t @ [v]) target vs"

definition merge_guardrail_policy :: "guardrail_policy \<Rightarrow> guardrail_policy \<Rightarrow> guardrail_policy gateway_result" where
  "merge_guardrail_policy e n =
     (let forbidden = append_unique (forbidden_guardrails e) (forbidden_guardrails n);
          merged =
            \<lparr>mandatory_guardrails = append_unique (mandatory_guardrails e) (mandatory_guardrails n),
             optional_guardrails = filter (\<lambda>name. name \<notin> set forbidden)
               (append_unique (optional_guardrails e) (optional_guardrails n)),
             forbidden_guardrails = forbidden,
             guardrail_config_overrides =
               foldl (\<lambda>m (name, v). bt_insert name v m) (guardrail_config_overrides e)
                 (guardrail_config_overrides n)\<rparr>
      in and_then (guardrail_policy_validate merged) (\<lambda>_. Ok merged))"

definition layer_trace :: "policy_layer \<Rightarrow> policy_layer_trace" where
  "layer_trace l = \<lparr>plt_kind = pl_kind l, plt_scope_id = pl_scope_id l, plt_policy_version = pl_policy_version l\<rparr>"

definition merge_layer :: "effective_policy \<Rightarrow> policy_layer \<Rightarrow> effective_policy gateway_result" where
  "merge_layer e l =
     (let policy = merge_policy (ep_policy e) (pl_policy l)
      in and_then (merge_guardrail_policy (ep_guardrail_policy e) (pl_guardrail_policy l)) (\<lambda>g.
           Ok \<lparr>ep_policy = policy, ep_guardrail_policy = g,
               ep_applied_layers = ep_applied_layers e @ [layer_trace l]\<rparr>))"

fun resolve_effective_policy :: "policy_layer list \<Rightarrow> effective_policy gateway_result" where
  "resolve_effective_policy [] =
     Ok \<lparr>ep_policy = default_key_policy, ep_guardrail_policy = default_guardrail_policy, ep_applied_layers = []\<rparr>"
| "resolve_effective_policy (first # rest) =
     try_fold merge_layer
       \<lparr>ep_policy = pl_policy first, ep_guardrail_policy = pl_guardrail_policy first,
        ep_applied_layers = [layer_trace first]\<rparr> rest"

section \<open>Request analysis\<close>

definition explicit_tool_selection :: "json \<Rightarrow> bool" where
  "explicit_tool_selection v =
     (is_object v \<or> (case as_str v of Some s \<Rightarrow> s \<noteq> ''none'' \<and> s \<noteq> ''auto'' | None \<Rightarrow> False))"

definition nonempty_str :: "string option \<Rightarrow> string option" where
  "nonempty_str s = (case s of Some v \<Rightarrow> if v = [] then None else Some v | None \<Rightarrow> None)"

definition analyze_generation_request :: "serde \<Rightarrow> string \<Rightarrow> request_analysis option" where
  "analyze_generation_request sd body =
     map_option (\<lambda>probe.
       \<lparr>ra_features =
          \<lparr>gf_model = nonempty_str (grp_model probe),
           gf_stream = grp_stream probe,
           gf_tools =
             ((case grp_tools probe of Some ts \<Rightarrow> ts \<noteq> [] | None \<Rightarrow> False) \<or>
              (case grp_functions probe of Some fs \<Rightarrow> fs \<noteq> [] | None \<Rightarrow> False) \<or>
              (case grp_function_call probe of Some v \<Rightarrow> explicit_tool_selection v | None \<Rightarrow> False) \<or>
              (case grp_tool_choice probe of Some v \<Rightarrow> explicit_tool_selection v | None \<Rightarrow> False)),
           gf_service_name =
             (case nonempty_str (grp_service probe) of
                Some s \<Rightarrow> Some s | None \<Rightarrow> nonempty_str (grp_service_name probe))\<rparr>,
        ra_client_guardrails = grp_guardrails probe\<rparr>)
     (from_generation_probe sd body)"

definition extract_generation_features :: "serde \<Rightarrow> string \<Rightarrow> generation_features" where
  "extract_generation_features sd body =
     (case analyze_generation_request sd body of Some a \<Rightarrow> ra_features a | None \<Rightarrow> default_features)"

section \<open>Laws of the merge\<close>

definition merged_list :: "'a list \<Rightarrow> 'a list \<Rightarrow> 'a list" where
  "merged_list xs ys = (if ys = [] then xs else if xs = [] then ys else filter (\<lambda>v. v \<in> set ys) xs)"

definition clash :: "'a list \<Rightarrow> 'a list \<Rightarrow> bool" where
  "clash xs ys = (xs \<noteq> [] \<and> ys \<noteq> [] \<and> set xs \<inter> set ys = {})"

lemma merge_allowlist_alt: "merge_allowlist (xs, d) ys = (merged_list xs ys, d \<or> clash xs ys)"
  by (auto simp: merge_allowlist_def merged_list_def clash_def Let_def filter_empty_conv)

lemma merge_allowed_hours_alt:
  "merge_allowed_hours (xs, d) ys = (merged_list xs (valid_hours ys), d \<or> clash xs (valid_hours ys))"
  by (auto simp: merge_allowed_hours_def merged_list_def clash_def Let_def filter_empty_conv)

lemma listed_merged: "\<not> clash xs ys \<Longrightarrow> listed (merged_list xs ys) x \<longleftrightarrow> listed xs x \<and> listed ys x"
  by (auto simp: listed_def merged_list_def clash_def filter_empty_conv)

lemma listed_no_clash: "listed xs x \<Longrightarrow> listed ys x \<Longrightarrow> \<not> clash xs ys"
  by (auto simp: listed_def clash_def)

lemma hour_utc_range: "0 \<le> hour_utc now" "hour_utc now \<le> 23"
  using pos_mod_bound [of 24 "now div 3600"] by (auto simp: hour_utc_def)

definition hours_wf :: "int list \<Rightarrow> bool" where
  "hours_wf hours = (hours = [] \<or> valid_hours hours \<noteq> [])"

lemma set_valid_hours: "set (valid_hours hours) = {h \<in> set hours. 0 \<le> h \<and> h \<le> 23}"
  by (simp add: valid_hours_def)

lemma listed_valid_hours:
  "listed (valid_hours hours) (hour_utc now) \<longleftrightarrow> listed hours (hour_utc now) \<or> \<not> hours_wf hours"
proof (cases "valid_hours hours = []")
  case True
  then show ?thesis by (auto simp: listed_def hours_wf_def)
next
  case False
  then have "hours \<noteq> []" by (auto simp: valid_hours_def)
  with False show ?thesis
    using hour_utc_range by (simp add: listed_def hours_wf_def set_valid_hours)
qed

text \<open>The four ways of merging, each on what it restricts.\<close>

definition flagged_admits :: "'a list \<times> bool \<Rightarrow> 'a \<Rightarrow> bool" where
  "flagged_admits s x = (\<not> snd s \<and> listed (fst s) x)"

lemma merge_allowlist_admits:
  "flagged_admits (merge_allowlist a b) x \<longleftrightarrow> flagged_admits a x \<and> listed b x"
  using listed_merged [of "fst a" b x] listed_no_clash [of "fst a" x b]
  by (cases a) (auto simp: flagged_admits_def merge_allowlist_alt)

lemma merge_allowed_hours_admits:
  "flagged_admits (merge_allowed_hours a b) (hour_utc now) \<longleftrightarrow>
     flagged_admits a (hour_utc now) \<and> (listed b (hour_utc now) \<or> \<not> hours_wf b)"
  using listed_merged [of "fst a" "valid_hours b" "hour_utc now"] listed_valid_hours [of b now]
    listed_no_clash [of "fst a" "hour_utc now" "valid_hours b"]
  by (cases a) (auto simp: flagged_admits_def merge_allowed_hours_alt)

interpretation allowlists: restriction merge_allowlist flagged_admits listed "\<lambda>_. True"
  by unfold_locales (simp_all add: merge_allowlist_admits)

interpretation hours: restriction merge_allowed_hours
  "\<lambda>s now. flagged_admits s (hour_utc now)" "\<lambda>xs now. listed xs (hour_utc now)" hours_wf
  by unfold_locales (simp_all add: merge_allowed_hours_admits)

lemma exceeds_stricter:
  "exceeds v (stricter_int a b) \<longleftrightarrow> exceeds v a \<or> exceeds v b"
  by (cases v; cases a; cases b) auto

lemma f64_gt_min_total: "f64_lt (f64_min b c) x \<longleftrightarrow> f64_lt b x \<or> f64_lt c x"
proof (cases "b = NaN \<or> c = NaN")
  case True
  then show ?thesis by (auto simp: f64_min_def)
qed (simp add: f64_gt_min)

lemma exceeds_cost_stricter:
  "exceeds_cost v (stricter_f64 a b) \<longleftrightarrow> exceeds_cost v a \<or> exceeds_cost v b"
  by (cases v; cases a; cases b) (auto simp: f64_gt_min_total)

interpretation limits: restriction stricter_int "\<lambda>limit v. \<not> exceeds v limit" "\<lambda>limit v. \<not> exceeds v limit" "\<lambda>_. True"
  by unfold_locales (simp_all add: exceeds_stricter)

interpretation costs: restriction stricter_f64
  "\<lambda>limit v. \<not> exceeds_cost v limit" "\<lambda>limit v. \<not> exceeds_cost v limit" "\<lambda>_. True"
  by unfold_locales (simp_all add: exceeds_cost_stricter)

text \<open>A request as the policy sees it, and the layers' and the merged policy's view of it.\<close>

record policy_query =
  pq_route :: route
  pq_provider :: provider
  pq_features :: generation_features
  pq_now :: int
  pq_request_body_bytes :: "int option"
  pq_response_body_bytes :: "int option"
  pq_input_tokens :: "int option"
  pq_output_tokens :: "int option"
  pq_cost :: "f64 option"

definition policy_admits :: "key_policy \<Rightarrow> policy_query \<Rightarrow> bool" where
  "policy_admits p q \<longleftrightarrow>
     evaluate_policy p (pq_route q) (pq_provider q) (pq_features q) = Ok () \<and>
     evaluate_policy_limits p (pq_now q) (pq_request_body_bytes q) (pq_response_body_bytes q)
       (pq_input_tokens q) (pq_output_tokens q) (pq_cost q) = Ok ()"

lemma evaluate_policy_Ok:
  "evaluate_policy p rt prov f = Ok () \<longleftrightarrow>
     \<not> kp_deny p \<and> listed (kp_allowed_routes p) rt \<and> listed (kp_allowed_providers p) prov \<and>
     (\<forall>s. gf_service_name f = Some s \<longrightarrow> listed (kp_allowed_services p) s) \<and>
     (\<forall>m. gf_model f = Some m \<longrightarrow> listed (kp_allowed_models p) m) \<and>
     (gf_stream f \<longrightarrow> kp_allow_streaming p) \<and> (gf_tools f \<longrightarrow> kp_allow_tools p)"
  by (simp add: evaluate_policy_def split: option.split)

lemma evaluate_policy_limits_Ok:
  "evaluate_policy_limits p now rq rs it ot cost = Ok () \<longleftrightarrow>
     listed (kp_allowed_hours_utc p) (hour_utc now) \<and> \<not> exceeds rq (kp_max_request_body_bytes p) \<and>
     \<not> exceeds rs (kp_max_response_body_bytes p) \<and> \<not> exceeds it (kp_max_input_tokens_per_request p) \<and>
     \<not> exceeds ot (kp_max_output_tokens_per_request p) \<and> \<not> exceeds_cost cost (kp_max_cost_per_request p)"
  by (simp add: evaluate_policy_limits_def)

lemma merge_policy_fields:
  "kp_deny (merge_policy e n) \<longleftrightarrow> kp_deny e \<or> kp_deny n \<or>
     clash (kp_allowed_routes e) (kp_allowed_routes n) \<or> clash (kp_allowed_models e) (kp_allowed_models n) \<or>
     clash (kp_allowed_providers e) (kp_allowed_providers n) \<or>
     clash (kp_allowed_services e) (kp_allowed_services n) \<or>
     clash (kp_allowed_hours_utc e) (valid_hours (kp_allowed_hours_utc n))"
  "kp_allowed_routes (merge_policy e n) = merged_list (kp_allowed_routes e) (kp_allowed_routes n)"
  "kp_allowed_models (merge_policy e n) = merged_list (kp_allowed_models e) (kp_allowed_models n)"
  "kp_allowed_providers (merge_policy e n) = merged_list (kp_allowed_providers e) (kp_allowed_providers n)"
  "kp_allowed_services (merge_policy e n) = merged_list (kp_allowed_services e) (kp_allowed_services n)"
  "kp_allowed_hours_utc (merge_policy e n) =
     merged_list (kp_allowed_hours_utc e) (valid_hours (kp_allowed_hours_utc n))"
  "kp_allow_streaming (merge_policy e n) \<longleftrightarrow> kp_allow_streaming e \<and> kp_allow_streaming n"
  "kp_allow_tools (merge_policy e n) \<longleftrightarrow> kp_allow_tools e \<and> kp_allow_tools n"
  "kp_max_request_body_bytes (merge_policy e n) =
     stricter_int (kp_max_request_body_bytes e) (kp_max_request_body_bytes n)"
  "kp_max_response_body_bytes (merge_policy e n) =
     stricter_int (kp_max_response_body_bytes e) (kp_max_response_body_bytes n)"
  "kp_max_input_tokens_per_request (merge_policy e n) =
     stricter_int (kp_max_input_tokens_per_request e) (kp_max_input_tokens_per_request n)"
  "kp_max_output_tokens_per_request (merge_policy e n) =
     stricter_int (kp_max_output_tokens_per_request e) (kp_max_output_tokens_per_request n)"
  "kp_max_cost_per_request (merge_policy e n) =
     stricter_f64 (kp_max_cost_per_request e) (kp_max_cost_per_request n)"
  by (simp_all add: merge_policy_def merge_allowlist_alt merge_allowed_hours_alt, blast?)

definition layer_hours_wf :: "key_policy \<Rightarrow> bool" where
  "layer_hours_wf p = hours_wf (kp_allowed_hours_utc p)"

lemmas policy_admits_simps = policy_admits_def evaluate_policy_Ok evaluate_policy_limits_Ok
  merge_policy_fields listed_merged exceeds_stricter exceeds_cost_stricter listed_valid_hours

interpretation layers: tightening merge_policy policy_admits policy_admits layer_hours_wf
  by unfold_locales (auto simp: policy_admits_simps layer_hours_wf_def)

text \<open>A request that names its model and its service is admitted exactly when every layer admits it.\<close>

record named_query = policy_query +
  nq_model :: string
  nq_service :: string

definition of_named :: "named_query \<Rightarrow> policy_query" where
  "of_named q = policy_query.truncate (q\<lparr>pq_features := (pq_features q)
     \<lparr>gf_model := Some (nq_model q), gf_service_name := Some (nq_service q)\<rparr>\<rparr>)"

lemma admitted_no_clash:
  assumes "policy_admits a q" "policy_admits b q"
    and "gf_model (pq_features q) = Some m" "gf_service_name (pq_features q) = Some s"
  shows "\<not> kp_deny (merge_policy a b)"
proof -
  have l: "listed (kp_allowed_routes p) (pq_route q)" "listed (kp_allowed_providers p) (pq_provider q)"
      "listed (kp_allowed_models p) m" "listed (kp_allowed_services p) s"
      "listed (kp_allowed_hours_utc p) (hour_utc (pq_now q))" "\<not> kp_deny p"
      if "policy_admits p q" for p
    using that assms(3,4) by (simp_all add: policy_admits_def evaluate_policy_Ok evaluate_policy_limits_Ok)
  have "listed (valid_hours (kp_allowed_hours_utc b)) (hour_utc (pq_now q))"
    using l(5) [OF assms(2)] by (simp add: listed_valid_hours)
  note hours = listed_no_clash [OF l(5) [OF assms(1)] this]
  show ?thesis
    unfolding merge_policy_fields(1)
    using hours l(6) [OF assms(1)] l(6) [OF assms(2)]
      listed_no_clash [OF l(1) [OF assms(1)] l(1) [OF assms(2)]]
      listed_no_clash [OF l(2) [OF assms(1)] l(2) [OF assms(2)]]
      listed_no_clash [OF l(3) [OF assms(1)] l(3) [OF assms(2)]]
      listed_no_clash [OF l(4) [OF assms(1)] l(4) [OF assms(2)]]
    by blast
qed

lemma merge_policy_admits:
  assumes "policy_admits a q" "policy_admits b q" and "\<not> kp_deny (merge_policy a b)"
  shows "policy_admits (merge_policy a b) q"
  using assms by (simp add: policy_admits_simps)

interpretation named_layers: restriction merge_policy
  "\<lambda>p q. policy_admits p (of_named q)" "\<lambda>p q. policy_admits p (of_named q)" layer_hours_wf
proof unfold_locales
  fix a b :: key_policy and x :: named_query
  show "policy_admits a (of_named x) \<and> policy_admits b (of_named x)"
    if "layer_hours_wf b" "policy_admits (merge_policy a b) (of_named x)"
    using that by (rule layers.merge_tightens)
  show "policy_admits (merge_policy a b) (of_named x)"
    if "policy_admits a (of_named x)" "policy_admits b (of_named x)"
    using that by (rule merge_policy_admits) (rule admitted_no_clash [OF that], simp_all add: of_named_def policy_query.defs)
qed

section \<open>Laws of the resolution\<close>

lemma append_unique_set [simp]: "set (append_unique xs ys) = set xs \<union> set ys"
  unfolding append_unique_def by (induction ys arbitrary: xs) auto

lemma merge_guardrail_policy_Ok:
  assumes "merge_guardrail_policy e n = Ok g"
  shows "set (mandatory_guardrails g) = set (mandatory_guardrails e) \<union> set (mandatory_guardrails n)"
    and "set (forbidden_guardrails g) = set (forbidden_guardrails e) \<union> set (forbidden_guardrails n)"
    and "set (optional_guardrails g) \<inter> set (forbidden_guardrails g) = {}"
    and "guardrail_policy_validate g = Ok ()"
  using assms by (auto simp: merge_guardrail_policy_def Let_def)

lemma resolve_policy_fold:
  "try_fold merge_layer e ls = Ok e' \<Longrightarrow>
   ep_policy e' = foldl merge_policy (ep_policy e) (map pl_policy ls) \<and>
   ep_applied_layers e' = ep_applied_layers e @ map layer_trace ls"
proof (induction ls arbitrary: e)
  case (Cons l ls)
  then obtain e1 where e1: "merge_layer e l = Ok e1" "try_fold merge_layer e1 ls = Ok e'" by auto
  with Cons.IH [OF e1(2)] show ?case by (auto simp: merge_layer_def Let_def)
qed simp

lemma resolve_guardrail_fold:
  "try_fold merge_layer e ls = Ok e' \<Longrightarrow>
   set (mandatory_guardrails (ep_guardrail_policy e')) = set (mandatory_guardrails (ep_guardrail_policy e)) \<union>
     (\<Union>l \<in> set ls. set (mandatory_guardrails (pl_guardrail_policy l))) \<and>
   set (forbidden_guardrails (ep_guardrail_policy e')) = set (forbidden_guardrails (ep_guardrail_policy e)) \<union>
     (\<Union>l \<in> set ls. set (forbidden_guardrails (pl_guardrail_policy l))) \<and>
   (ls = [] \<or> set (optional_guardrails (ep_guardrail_policy e')) \<inter>
      set (forbidden_guardrails (ep_guardrail_policy e')) = {} \<and>
      guardrail_policy_validate (ep_guardrail_policy e') = Ok ())"
proof (induction ls arbitrary: e)
  case (Cons l ls)
  then obtain e1 where e1: "merge_layer e l = Ok e1" "try_fold merge_layer e1 ls = Ok e'" by auto
  then have m: "merge_guardrail_policy (ep_guardrail_policy e) (pl_guardrail_policy l) = Ok (ep_guardrail_policy e1)"
    by (auto simp: merge_layer_def Let_def)
  have "ls = [] \<longrightarrow> e' = e1" using e1(2) by auto
  with Cons.IH [OF e1(2)] merge_guardrail_policy_Ok [OF m] show ?case by (cases "ls = []") auto
qed simp

lemma provider_output_maximum_Ok:
  assumes "provider_output_maximum sd rt body = Ok m"
  obtains allowed object probe required count where "allowed_fields rt = Ok allowed"
    "from_value sd body = Some (JObject object)" "set (bt_keys object) \<subseteq> set allowed"
    "from_output_maximum sd body = Some probe" "required_maximum rt probe = Ok required" "0 < required"
    "{om_max_tokens probe, om_max_completion_tokens probe, om_max_output_tokens probe} \<subseteq> {Missing, Tokens required}"
    "om_n probe = Missing \<and> count = 1 \<or> om_n probe = Tokens count" "0 < count"
    "rt \<noteq> ChatCompletions \<longrightarrow> count = 1" "m = required * count" "m < 2 ^ 64"
proof -
  from assms obtain allowed v probe required where
    1: "allowed_fields rt = Ok allowed" "from_value sd body = Some v"
      "\<not> (case as_object v of None \<Rightarrow> True | Some object \<Rightarrow> list_ex (\<lambda>f. f \<notin> set allowed) (bt_keys object))"
      "from_output_maximum sd body = Some probe" "required_maximum rt probe = Ok required" "0 < required"
      "agrees required (om_max_tokens probe) = Ok ()" "agrees required (om_max_completion_tokens probe) = Ok ()"
      "agrees required (om_max_output_tokens probe) = Ok ()"
    and 2: "(let count = (case om_n probe of Missing \<Rightarrow> 1 | Tokens v \<Rightarrow> v)
     in if count = 0 \<or> rt \<noteq> ChatCompletions \<and> count \<noteq> 1 then Err PolicyDenied
        else ok_or (checked_mul required count) PolicyDenied) = Ok m"
    by (auto simp: provider_output_maximum_def split: if_splits)
  from 1(2,3) obtain object where "v = JObject object" "set (bt_keys object) \<subseteq> set allowed"
    by (cases v) (auto simp: list_ex_iff)
  moreover have "f \<in> {Missing, Tokens required}" if "agrees required f = Ok ()" for f
    using that by (auto simp: agrees_def split: output_maximum.splits if_splits)
  ultimately show ?thesis
    using 1 2
    by (intro that [of allowed object probe required "case om_n probe of Missing \<Rightarrow> 1 | Tokens v \<Rightarrow> v"])
      (auto simp: Let_def split: if_splits output_maximum.splits)
qed

lemma allowed_fields_routes:
  "allowed_fields rt = Ok a \<Longrightarrow> rt \<in> {ChatCompletions, Responses, AnthropicMessages}"
  by (cases rt) (simp_all add: allowed_fields_def)

lemma batch_maximum:
  "try_fold (add_entry_maximum sd) t rs = Ok m \<Longrightarrow>
   \<exists>ms. list_all2 (\<lambda>r k. provider_output_maximum sd AnthropicMessages r = Ok k) rs ms \<and> m = t + sum_list ms"
proof (induction rs arbitrary: t)
  case (Cons r rs)
  then obtain t1 where t1: "add_entry_maximum sd t r = Ok t1" "try_fold (add_entry_maximum sd) t1 rs = Ok m"
    by auto
  then obtain k where k: "provider_output_maximum sd AnthropicMessages r = Ok k"
    "try_fold (add_entry_maximum sd) (t + k) rs = Ok m"
    unfolding add_entry_maximum_def [of sd t r] by auto
  from Cons.IH [OF k(2)] obtain ms where
    "list_all2 (\<lambda>r k. provider_output_maximum sd AnthropicMessages r = Ok k) rs ms" "m = t + k + sum_list ms"
    by blast
  with k(1) show ?case by (intro exI [of _ "k # ms"]) simp
qed simp

lemma reject_overrides_generation:
  assumes "rt \<in> {ChatCompletions, Responses, AnthropicMessages}"
  shows "reject_provider_parameter_overrides sd p rt body =
    and_then (ok_or (from_extra_body sd body) PolicyDenied) (\<lambda>probe.
      case probe of
        None \<Rightarrow> Ok ()
      | Some extra \<Rightarrow>
          if bt_contains_key extra ''model'' then Err PolicyDenied
          else if kp_max_output_tokens_per_request p \<noteq> None \<and> extra \<noteq> [] \<or>
                  \<not> kp_allow_streaming p \<and> bt_contains_key extra ''stream'' \<or>
                  \<not> kp_allow_tools p \<and>
                    list_ex (bt_contains_key extra) [''tools'', ''functions'', ''tool_choice'', ''function_call'']
          then Err PolicyDenied else Ok ())"
proof -
  have "rt \<noteq> AnthropicMessageBatches" "rt \<noteq> LiteLlmPassthrough" using assms by auto
  then show ?thesis
    using assms by (subst reject_provider_parameter_overrides.simps) (simp only: Let_def if_False simp_thms, simp, blast)
qed

lemma reject_overrides_Ok:
  assumes "reject_provider_parameter_overrides sd p rt body = Ok ()"
    and "rt \<in> {ChatCompletions, Responses, AnthropicMessages}"
  obtains probe where "from_extra_body sd body = Some probe"
    "\<And>extra. probe = Some extra \<Longrightarrow> \<not> bt_contains_key extra ''model'' \<and>
       (kp_max_output_tokens_per_request p \<noteq> None \<longrightarrow> extra = [])"
proof -
  obtain probe where probe: "from_extra_body sd body = Some probe"
    using assms(1) unfolding reject_overrides_generation [OF assms(2)] by auto
  have "\<not> bt_contains_key extra ''model'' \<and> (kp_max_output_tokens_per_request p \<noteq> None \<longrightarrow> extra = [])"
    if "probe = Some extra" for extra
    using assms(1) probe that unfolding reject_overrides_generation [OF assms(2)]
    by (simp only: ok_or_simps and_then_Inr option.case) (elim if_ErrE, blast)
  with probe show thesis by (rule that)
qed

lemma enforce_output_Ok:
  assumes "enforce_output_token_limit sd p rt body = Ok ()"
    and "kp_max_output_tokens_per_request p = Some limit"
    and "rt \<notin> {LiteLlmEmbeddings, LiteLlmRerank, AnthropicMessagesCountTokens, AnthropicModels}"
  obtains m where "reject_provider_parameter_overrides sd p rt body = Ok ()"
    "(if rt = AnthropicMessageBatches
      then and_then (ok_or (from_batch sd body) PolicyDenied) (\<lambda>requests.
             if requests = [] then Err PolicyDenied else try_fold (add_entry_maximum sd) 0 requests)
      else provider_output_maximum sd rt body) = Ok m" "int m \<le> limit"
proof -
  have r: "reject_provider_parameter_overrides sd p rt body = Ok ()"
    using assms(1) by (auto simp: enforce_output_token_limit_def)
  have "(if limit < 0 then Err PolicyDenied
         else and_then
           (if rt = AnthropicMessageBatches
            then and_then (ok_or (from_batch sd body) PolicyDenied) (\<lambda>requests.
                   if requests = [] then Err PolicyDenied else try_fold (add_entry_maximum sd) 0 requests)
            else provider_output_maximum sd rt body)
           (\<lambda>maximum. if limit < int maximum then Err PolicyDenied else Ok ())) = Ok ()"
    using assms(1) unfolding enforce_output_token_limit_def r and_then_Inr assms(2) option.case if_not_P [OF assms(3)] .
  then show thesis using that r by (elim if_ErrE) (auto elim: if_ErrE)
qed

section \<open>Properties\<close>

text \<open>
  C14 (refinement): the effective policy stands for its layers: whatever request it admits, every
  layer admits, so no layer can widen what another one grants; and a request that names a model and a
  service is admitted exactly when every layer admits it. The layers merged into the first one have no
  hours, or at least one hour of the day. The applied layers are all traced, in order.
\<close>

theorem effective_policy_refines_layers:
  assumes "resolve_effective_policy (l # ls) = Ok e"
    and "list_all (\<lambda>k. layer_hours_wf (pl_policy k)) ls"
  shows "ep_applied_layers e = map layer_trace (l # ls) \<and>
    (policy_admits (ep_policy e) q \<longrightarrow> (\<forall>k \<in> set (l # ls). policy_admits (pl_policy k) q)) \<and>
    (gf_model (pq_features q) \<noteq> None \<and> gf_service_name (pq_features q) \<noteq> None \<longrightarrow>
       policy_admits (ep_policy e) q = (\<forall>k \<in> set (l # ls). policy_admits (pl_policy k) q))"
proof -
  have e: "ep_policy e = foldl merge_policy (pl_policy l) (map pl_policy ls)"
    "ep_applied_layers e = map layer_trace (l # ls)"
    using resolve_policy_fold assms(1) by fastforce+
  have wf: "list_all layer_hours_wf (map pl_policy ls)" using assms(2) by (simp add: list_all_iff)
  have "policy_admits (ep_policy e) q \<longrightarrow> (\<forall>k \<in> set (l # ls). policy_admits (pl_policy k) q)"
    using layers.foldl_tightens [OF wf] by (auto simp: e list_all_iff)
  moreover have "policy_admits (ep_policy e) q = (\<forall>k \<in> set (l # ls). policy_admits (pl_policy k) q)"
    if "gf_model (pq_features q) = Some m" "gf_service_name (pq_features q) = Some s" for m s
  proof -
    have "of_named (policy_query.extend q \<lparr>nq_model = m, nq_service = s\<rparr>) = q"
      using that by (simp add: of_named_def policy_query.defs named_query.defs)
    then show ?thesis
      using named_layers.foldl_exact [OF wf, of "pl_policy l" "policy_query.extend q \<lparr>nq_model = m, nq_service = s\<rparr>"]
      by (auto simp: e list_all_iff)
  qed
  ultimately show ?thesis using e(2) by auto
qed

definition sample_layer :: "policy_layer_kind \<Rightarrow> string list \<Rightarrow> policy_layer" where
  "sample_layer kind models =
     \<lparr>pl_kind = kind, pl_scope_id = None, pl_policy = (neutral_layer 1)\<lparr>kp_allowed_models := models\<rparr>,
      pl_guardrail_policy = default_guardrail_policy, pl_policy_version = 1\<rparr>"

definition sample_query :: policy_query where
  "sample_query =
     \<lparr>pq_route = ChatCompletions, pq_provider = LiteLlm,
      pq_features = \<lparr>gf_model = Some ''m1'', gf_stream = False, gf_tools = False, gf_service_name = None\<rparr>,
      pq_now = 0, pq_request_body_bytes = None, pq_response_body_bytes = None, pq_input_tokens = None,
      pq_output_tokens = None, pq_cost = None\<rparr>"

theorem effective_policy_refines_layers_witness:
  "\<exists>e. resolve_effective_policy [sample_layer GlobalLayer [''m1'', ''m2''], sample_layer KeyLayer [''m2'']] = Ok e \<and>
     \<not> policy_admits (ep_policy e) sample_query \<and>
     \<not> policy_admits (pl_policy (sample_layer KeyLayer [''m2''])) sample_query"
proof -
  obtain e where e: "resolve_effective_policy [sample_layer GlobalLayer [''m1'', ''m2''], sample_layer KeyLayer [''m2'']] = Ok e"
    by (simp add: sample_layer_def merge_layer_def Let_def merge_guardrail_policy_def default_guardrail_policy_def
        append_unique_def guardrail_policy_validate_def)
  have wf: "list_all (\<lambda>k. layer_hours_wf (pl_policy k)) [sample_layer KeyLayer [''m2'']]"
    by (simp add: sample_layer_def neutral_layer_def layer_hours_wf_def hours_wf_def)
  have no: "\<not> policy_admits (pl_policy (sample_layer KeyLayer [''m2''])) sample_query"
    by (simp add: policy_admits_def evaluate_policy_Ok sample_layer_def sample_query_def neutral_layer_def listed_def)
  from effective_policy_refines_layers [OF e wf, of sample_query] no e show ?thesis by auto
qed

text \<open>
  C15 (invariant): the guardrail side of the resolution: the effective policy carries the mandatory and
  the forbidden guardrails of every layer and no others, and with two layers or more it offers no
  forbidden guardrail as optional and overrides the configuration of none.
\<close>

theorem effective_guardrails_cover_layers:
  assumes "resolve_effective_policy (l # ls) = Ok e"
  shows "set (mandatory_guardrails (ep_guardrail_policy e)) =
      (\<Union>k \<in> set (l # ls). set (mandatory_guardrails (pl_guardrail_policy k))) \<and>
    set (forbidden_guardrails (ep_guardrail_policy e)) =
      (\<Union>k \<in> set (l # ls). set (forbidden_guardrails (pl_guardrail_policy k))) \<and>
    (ls \<noteq> [] \<longrightarrow> set (optional_guardrails (ep_guardrail_policy e)) \<inter>
        set (forbidden_guardrails (ep_guardrail_policy e)) = {} \<and>
      fst ` set (guardrail_config_overrides (ep_guardrail_policy e)) \<inter>
        set (forbidden_guardrails (ep_guardrail_policy e)) = {})"
proof -
  have "try_fold merge_layer \<lparr>ep_policy = pl_policy l, ep_guardrail_policy = pl_guardrail_policy l,
      ep_applied_layers = [layer_trace l]\<rparr> ls = Ok e" using assms by simp
  note f = resolve_guardrail_fold [OF this, simplified]
  have "fst ` set (guardrail_config_overrides g) \<inter> set (forbidden_guardrails g) = {}"
    if "guardrail_policy_validate g = Ok ()" for g
    using that by (auto simp: guardrail_policy_validate_def split: if_splits)
  note v = this [of "ep_guardrail_policy e"]
  have "ls \<noteq> [] \<Longrightarrow> guardrail_policy_validate (ep_guardrail_policy e) = Ok ()" using f by blast
  then show ?thesis using f v by (simp only: list.set UN_insert) blast
qed

theorem effective_guardrails_cover_layers_witness:
  "\<exists>e. resolve_effective_policy [sample_layer GlobalLayer [], (sample_layer KeyLayer [])
         \<lparr>pl_guardrail_policy := default_guardrail_policy\<lparr>mandatory_guardrails := [''pii'']\<rparr>\<rparr>] = Ok e \<and>
     set (mandatory_guardrails (ep_guardrail_policy e)) = {''pii''}"
proof -
  let ?ls = "[(sample_layer KeyLayer [])
         \<lparr>pl_guardrail_policy := default_guardrail_policy\<lparr>mandatory_guardrails := [''pii'']\<rparr>\<rparr>]"
  have "validate_guardrail_name ''pii'' = Ok ()" by code_simp
  then obtain e where e: "resolve_effective_policy (sample_layer GlobalLayer [] # ?ls) = Ok e"
    by (simp add: sample_layer_def merge_layer_def Let_def merge_guardrail_policy_def default_guardrail_policy_def
        append_unique_def guardrail_policy_validate_def)
  from effective_guardrails_cover_layers [OF e] e show ?thesis
    by (simp add: sample_layer_def default_guardrail_policy_def)
qed


definition sample_serde :: serde where
  "sample_serde =
     \<lparr>from_value = (\<lambda>b. Some (JObject [(''max_tokens'', JNumber (PosInt 50)), (''n'', JNumber (PosInt 2))])),
      from_batch = (\<lambda>b. None), from_extra_body = (\<lambda>b. Some None),
      from_output_maximum = (\<lambda>b. Some \<lparr>om_max_tokens = Tokens 50, om_max_completion_tokens = Missing,
         om_max_output_tokens = Missing, om_n = Tokens 2\<rparr>),
      from_generation_probe = (\<lambda>b. None)\<rparr>"

lemma sample_output_maximum: "provider_output_maximum sample_serde ChatCompletions [] = Ok 100"
  by (simp add: provider_output_maximum_def allowed_fields_def sample_serde_def bt_keys_def
      required_maximum_def agrees_def int_simps)


text \<open>
  What a proven bound means: the body is an object whose fields all belong to the
  route's protocol, the route's own maximum field is present and positive, every maximum field that is
  given has the same value, more than one completion is possible on chat completions only, and the
  product does not overflow.
\<close>

theorem provider_output_maximum_meaning:
  assumes "provider_output_maximum sd rt body = Ok m"
  shows "\<exists>allowed object probe required count. allowed_fields rt = Ok allowed \<and>
    from_value sd body = Some (JObject object) \<and> set (bt_keys object) \<subseteq> set allowed \<and>
    from_output_maximum sd body = Some probe \<and> required_maximum rt probe = Ok required \<and> 0 < required \<and>
    {om_max_tokens probe, om_max_completion_tokens probe, om_max_output_tokens probe} \<subseteq> {Missing, Tokens required} \<and>
    0 < count \<and> (count = 1 \<or> rt = ChatCompletions \<and> om_n probe = Tokens count) \<and>
    m = required * count \<and> m < 2 ^ 64"
  using assms by (rule provider_output_maximum_Ok) metis

theorem provider_output_maximum_meaning_witness:
  "\<exists>required count. (100::nat) = required * count \<and> 0 < required \<and> 0 < count"
  using provider_output_maximum_meaning [OF sample_output_maximum] by blast

end
