(* ===== verification/Provider_Intelligence.thy ===== *)
theory Provider_Intelligence
  imports Routing
begin

text \<open>
  Provider selection (\<open>gateway-core/src/provider_intelligence.rs\<close>): the rejection of candidates, the
  routing strategies with their tie breaks, the weighted choice by request hash, the retry policy and the
  circuit breaker. Times are seconds, costs are IEEE doubles.
\<close>

datatype routing_strategy =
  Priority | Weighted | LeastLatency | LeastCost | HealthAware | BudgetAware | RegionAffinity | CapabilityAware

datatype circuit_breaker_state = Closed | Open | HalfOpen

datatype provider_health_status = Healthy | Degraded | Unhealthy | Unknown

record provider_candidate =
  pc_name :: string
  pc_provider :: provider
  pc_priority :: int
  pc_weight :: nat
  pc_enabled :: bool
  pc_health_status :: provider_health_status
  pc_circuit_state :: circuit_breaker_state
  pc_average_latency_ms :: "int option"
  pc_estimated_cost_usd :: "f64 option"
  pc_remaining_budget_usd :: "f64 option"
  pc_regions :: "string list"
  pc_capabilities :: "string list"
  pc_cooldown_until :: "int option"

record routing_decision_request =
  rd_strategy :: routing_strategy
  rd_route :: route
  rd_preferred_region :: "string option"
  rd_required_capabilities :: "string list"
  rd_estimated_cost_usd :: "f64 option"
  rd_request_hash :: "nat option"
  rd_now :: int

record provider_rejection =
  rj_provider :: string
  rj_reason :: string

record provider_selection =
  sel_selected :: provider_candidate
  sel_strategy :: routing_strategy
  sel_considered :: "string list"
  sel_rejected :: "provider_rejection list"

record fallback_policy =
  retry_status_codes :: "nat list"
  max_attempts :: nat
  cooldown_seconds :: nat
  retry_timeouts :: bool
  provider_failover :: bool

section \<open>Retries and the circuit breaker\<close>

definition default_fallback_policy :: fallback_policy where
  "default_fallback_policy =
     \<lparr>retry_status_codes = [429, 500, 502, 503, 504], max_attempts = 2, cooldown_seconds = 30,
      retry_timeouts = True, provider_failover = True\<rparr>"

definition allows_status_retry :: "fallback_policy \<Rightarrow> nat \<Rightarrow> nat \<Rightarrow> bool" where
  "allows_status_retry p status attempt = (attempt < max_attempts p \<and> status \<in> set (retry_status_codes p))"

definition allows_timeout_retry :: "fallback_policy \<Rightarrow> nat \<Rightarrow> bool" where
  "allows_timeout_retry p attempt = (attempt < max_attempts p \<and> retry_timeouts p)"

definition circuit_state_after_passive_result ::
  "circuit_breaker_state \<Rightarrow> int \<Rightarrow> bool \<Rightarrow> int \<Rightarrow> circuit_breaker_state" where
  "circuit_state_after_passive_result previous consecutive_failures success failure_threshold =
     (if success then Closed
      else (case previous of
              Open \<Rightarrow> Open
            | HalfOpen \<Rightarrow> Open
            | Closed \<Rightarrow> if failure_threshold \<le> wrap_i32 (consecutive_failures + 1) then Open else Closed))"

section \<open>Selection\<close>

definition rejection_reason :: "routing_decision_request \<Rightarrow> provider_candidate \<Rightarrow> string option" where
  "rejection_reason r c =
     (if \<not> pc_enabled c then Some ''disabled''
      else if pc_circuit_state c = Open \<and>
         (case pc_cooldown_until c of None \<Rightarrow> True | Some cooldown \<Rightarrow> rd_now r < cooldown)
      then Some ''circuit_open''
      else if pc_health_status c = Unhealthy then Some ''unhealthy''
      else if (case (rd_estimated_cost_usd r, pc_remaining_budget_usd c) of
                 (Some required, Some remaining) \<Rightarrow> f64_lt remaining required | _ \<Rightarrow> False)
      then Some ''budget_exhausted''
      else if (case rd_preferred_region r of
                 Some region \<Rightarrow> rd_strategy r = RegionAffinity \<and> region \<notin> set (pc_regions c) | None \<Rightarrow> False)
      then Some ''region_mismatch''
      else map_option (\<lambda>required. ''missing_capability:'' @ required)
             (find (\<lambda>required. required \<notin> set (pc_capabilities c)) (rd_required_capabilities r)))"

definition candidate_weight :: "provider_candidate \<Rightarrow> nat" where
  "candidate_weight c = max (pc_weight c) 1"

text \<open>The loop of \<open>weighted_pick\<close>; \<open>first\<close> is what it returns after the loop.\<close>

fun pick_slot :: "provider_candidate \<Rightarrow> nat \<Rightarrow> provider_candidate list \<Rightarrow> provider_candidate" where
  "pick_slot first slot [] = first"
| "pick_slot first slot (c # cs) =
     (if slot < candidate_weight c then c else pick_slot first (slot - candidate_weight c) cs)"

definition weighted_pick :: "provider_candidate list \<Rightarrow> nat \<Rightarrow> provider_candidate" where
  "weighted_pick cs request_hash =
     pick_slot (hd cs) (request_hash mod sum_list (map candidate_weight cs)) cs"

definition latency_or_max :: "provider_candidate \<Rightarrow> int" where
  "latency_or_max c = (case pc_average_latency_ms c of Some l \<Rightarrow> l | None \<Rightarrow> i64_max)"

definition cost_or_infinity :: "provider_candidate \<Rightarrow> f64" where
  "cost_or_infinity c = (case pc_estimated_cost_usd c of Some v \<Rightarrow> v | None \<Rightarrow> PosInf)"

text \<open>The comparisons, as the relation whose ordering is \<open>Less\<close>.\<close>

definition compare_latency_then_priority :: "provider_candidate \<Rightarrow> provider_candidate \<Rightarrow> bool" where
  "compare_latency_then_priority l r \<longleftrightarrow>
     latency_or_max l < latency_or_max r \<or>
     latency_or_max l = latency_or_max r \<and> pc_priority l < pc_priority r"

definition compare_cost_then_priority :: "provider_candidate \<Rightarrow> provider_candidate \<Rightarrow> bool" where
  "compare_cost_then_priority l r \<longleftrightarrow>
     f64_lt (cost_or_infinity l) (cost_or_infinity r) \<or>
     \<not> f64_lt (cost_or_infinity r) (cost_or_infinity l) \<and> pc_priority l < pc_priority r"

definition compare_priority :: "provider_candidate \<Rightarrow> provider_candidate \<Rightarrow> bool" where
  "compare_priority l r \<longleftrightarrow> pc_priority l < pc_priority r"

fun strategy_pick :: "routing_strategy \<Rightarrow> nat \<Rightarrow> provider_candidate list \<Rightarrow> provider_candidate option" where
  "strategy_pick Priority hash eligible = min_by compare_priority eligible"
| "strategy_pick Weighted hash eligible = Some (weighted_pick eligible hash)"
| "strategy_pick LeastLatency hash eligible = min_by compare_latency_then_priority eligible"
| "strategy_pick HealthAware hash eligible = min_by compare_latency_then_priority eligible"
| "strategy_pick LeastCost hash eligible = min_by compare_cost_then_priority eligible"
| "strategy_pick BudgetAware hash eligible = min_by compare_cost_then_priority eligible"
| "strategy_pick RegionAffinity hash eligible = min_by compare_priority eligible"
| "strategy_pick CapabilityAware hash eligible = min_by compare_priority eligible"

fun rejections :: "routing_decision_request \<Rightarrow> provider_candidate list \<Rightarrow> provider_rejection list" where
  "rejections r [] = []"
| "rejections r (c # cs) =
     (case rejection_reason r c of
        Some reason \<Rightarrow> \<lparr>rj_provider = pc_name c, rj_reason = reason\<rparr> # rejections r cs
      | None \<Rightarrow> rejections r cs)"

definition eligible_candidates :: "routing_decision_request \<Rightarrow> provider_candidate list \<Rightarrow> provider_candidate list" where
  "eligible_candidates r cs = filter (\<lambda>c. rejection_reason r c = None) cs"

definition select_provider ::
  "routing_decision_request \<Rightarrow> provider_candidate list \<Rightarrow> provider_selection gateway_result" where
  "select_provider r cs =
     (case strategy_pick (rd_strategy r) (case rd_request_hash r of Some h \<Rightarrow> h | None \<Rightarrow> 0)
             (eligible_candidates r cs) of
        Some selected \<Rightarrow>
          if eligible_candidates r cs = [] then Err PolicyDenied
          else Ok \<lparr>sel_selected = selected, sel_strategy = rd_strategy r,
                   sel_considered = map pc_name cs, sel_rejected = rejections r cs\<rparr>
      | None \<Rightarrow> Err PolicyDenied)"

section \<open>Laws\<close>

lemma strategy_pick_None: "strategy_pick s h cs = None \<longleftrightarrow> cs = [] \<and> s \<noteq> Weighted"
  by (cases s) simp_all

lemma pick_slot_mem: "slot < sum_list (map candidate_weight cs) \<Longrightarrow> pick_slot first slot cs \<in> set cs"
  by (induction cs arbitrary: slot) auto

lemma total_weight_pos: "cs \<noteq> [] \<Longrightarrow> 0 < sum_list (map candidate_weight cs)"
  by (cases cs) (simp_all add: candidate_weight_def less_max_iff_disj)

lemma weighted_pick_mem: "cs \<noteq> [] \<Longrightarrow> weighted_pick cs h \<in> set cs"
  unfolding weighted_pick_def by (rule pick_slot_mem) (simp add: total_weight_pos)

lemma strategy_pick_mem: "strategy_pick s h cs = Some c \<Longrightarrow> cs \<noteq> [] \<Longrightarrow> c \<in> set cs"
  by (cases s) (auto intro: min_by_mem weighted_pick_mem)

definition cost_comparable :: "provider_candidate \<Rightarrow> bool" where
  "cost_comparable c = (cost_or_infinity c \<noteq> NaN)"

interpretation priority_order: comparator compare_priority "\<lambda>_. True"
  by unfold_locales (auto simp: compare_priority_def)

interpretation latency_order: comparator compare_latency_then_priority "\<lambda>_. True"
  by unfold_locales (auto simp: compare_latency_then_priority_def)

lemma f64_lt_negtrans:
  "x \<noteq> NaN \<Longrightarrow> y \<noteq> NaN \<Longrightarrow> z \<noteq> NaN \<Longrightarrow> \<not> f64_lt x y \<Longrightarrow> \<not> f64_lt y z \<Longrightarrow> \<not> f64_lt x z"
  by (metis f64_le_trans f64_not_lt_le)

interpretation cost_order: comparator compare_cost_then_priority cost_comparable
proof unfold_locales
  show "\<not> compare_cost_then_priority y x" if "compare_cost_then_priority x y" for x y
    using that f64_lt_asym by (auto simp: compare_cost_then_priority_def)
  show "\<not> compare_cost_then_priority x z"
    if "cost_comparable x" "cost_comparable y" "cost_comparable z"
      "\<not> compare_cost_then_priority x y" "\<not> compare_cost_then_priority y z" for x y z
  proof -
    let ?c = cost_or_infinity
    have n: "?c x \<noteq> NaN" "?c y \<noteq> NaN" "?c z \<noteq> NaN" using that(1-3) by (simp_all add: cost_comparable_def)
    have xy: "\<not> f64_lt (?c x) (?c y)" "f64_lt (?c y) (?c x) \<or> pc_priority y \<le> pc_priority x"
      using that(4) by (auto simp: compare_cost_then_priority_def)
    have yz: "\<not> f64_lt (?c y) (?c z)" "f64_lt (?c z) (?c y) \<or> pc_priority z \<le> pc_priority y"
      using that(5) by (auto simp: compare_cost_then_priority_def)
    have "f64_lt (?c z) (?c x) \<or> pc_priority z \<le> pc_priority x"
      using xy yz f64_lt_negtrans [OF n(2,3,1) yz(1)] f64_lt_negtrans [OF n(3,1,2) _ xy(1)] by linarith
    then show ?thesis
      using f64_lt_negtrans [OF n xy(1) yz(1)] by (auto simp: compare_cost_then_priority_def)
  qed
qed

lemma rejection_reason_None:
  "rejection_reason r c = None \<longleftrightarrow>
     pc_enabled c \<and>
     (pc_circuit_state c = Open \<longrightarrow> (\<exists>t. pc_cooldown_until c = Some t \<and> t \<le> rd_now r)) \<and>
     pc_health_status c \<noteq> Unhealthy \<and>
     (\<forall>required remaining. rd_estimated_cost_usd r = Some required \<longrightarrow>
        pc_remaining_budget_usd c = Some remaining \<longrightarrow> \<not> f64_lt remaining required) \<and>
     (\<forall>region. rd_preferred_region r = Some region \<longrightarrow> rd_strategy r = RegionAffinity \<longrightarrow>
        region \<in> set (pc_regions c)) \<and>
     set (rd_required_capabilities r) \<subseteq> set (pc_capabilities c)"
proof -
  have caps: "find (\<lambda>required. required \<notin> set (pc_capabilities c)) (rd_required_capabilities r) = None \<longleftrightarrow>
      set (rd_required_capabilities r) \<subseteq> set (pc_capabilities c)"
    by (auto simp: find_None_iff)
  show ?thesis by (auto simp: rejection_reason_def caps split: option.split)
qed

lemma rejections_iff:
  "x \<in> set (rejections r cs) \<longleftrightarrow>
     (\<exists>c \<in> set cs. rj_provider x = pc_name c \<and> rejection_reason r c = Some (rj_reason x))"
  by (induction r cs rule: rejections.induct) (auto split: option.splits)

lemma length_rejections: "length (rejections r cs) + length (eligible_candidates r cs) = length cs"
  by (induction r cs rule: rejections.induct) (auto simp: eligible_candidates_def split: option.splits)

lemma select_provider_Ok:
  assumes "select_provider r cs = Ok s"
  shows "sel_selected s \<in> set (eligible_candidates r cs)"
    and "strategy_pick (rd_strategy r) (case rd_request_hash r of Some h \<Rightarrow> h | None \<Rightarrow> 0)
      (eligible_candidates r cs) = Some (sel_selected s)"
    and "sel_rejected s = rejections r cs" "sel_considered s = map pc_name cs"
  using assms strategy_pick_mem by (auto simp: select_provider_def split: option.splits if_splits)

text \<open>How many slots of the weight range select a candidate.\<close>

lemma card_shift:
  fixes w t :: nat
  shows "card {h. h < w + t \<and> P h} = card {h. h < w \<and> P h} + card {h. h < t \<and> P (h + w)}"
proof -
  have "{h. h < w + t \<and> P h} = {h. h < w \<and> P h} \<union> (\<lambda>h. h + w) ` {h. h < t \<and> P (h + w)}"
  proof (intro set_eqI iffI)
    fix h assume "h \<in> {h. h < w + t \<and> P h}"
    then show "h \<in> {h. h < w \<and> P h} \<union> (\<lambda>h. h + w) ` {h. h < t \<and> P (h + w)}"
      by (cases "h < w") (auto intro!: image_eqI [of _ _ "h - w"])
  qed auto
  moreover have "{h. h < w \<and> P h} \<inter> (\<lambda>h. h + w) ` {h. h < t \<and> P (h + w)} = {}" by auto
  ultimately show ?thesis by (simp add: card_Un_disjoint card_image)
qed

lemma card_pick_slot:
  "card {h. h < sum_list (map candidate_weight cs) \<and> pick_slot first h cs = c} =
     sum_list (map candidate_weight (filter (\<lambda>d. d = c) cs))"
proof (induction cs)
  case (Cons d cs)
  let ?w = "candidate_weight d"
  have low: "{h. h < ?w \<and> pick_slot first h (d # cs) = c} = (if d = c then {..<?w} else {})" by auto
  have high: "{h. h < t \<and> pick_slot first (h + ?w) (d # cs) = c} = {h. h < t \<and> pick_slot first h cs = c}" for t
    by auto
  show ?case
    using card_shift [of ?w "sum_list (map candidate_weight cs)" "\<lambda>h. pick_slot first h (d # cs) = c"]
    by (simp only: low high Cons.IH list.map sum_list.Cons) auto
qed simp

section \<open>Properties\<close>


definition sample_candidate :: "string \<Rightarrow> int \<Rightarrow> nat \<Rightarrow> bool \<Rightarrow> provider_candidate" where
  "sample_candidate name priority weight enabled =
     \<lparr>pc_name = name, pc_provider = LiteLlm, pc_priority = priority, pc_weight = weight, pc_enabled = enabled,
      pc_health_status = Healthy, pc_circuit_state = Closed, pc_average_latency_ms = None,
      pc_estimated_cost_usd = None, pc_remaining_budget_usd = None, pc_regions = [], pc_capabilities = [],
      pc_cooldown_until = None\<rparr>"

definition sample_routing_request :: routing_decision_request where
  "sample_routing_request =
     \<lparr>rd_strategy = Priority, rd_route = ChatCompletions, rd_preferred_region = None,
      rd_required_capabilities = [], rd_estimated_cost_usd = None, rd_request_hash = None, rd_now = 0\<rparr>"


text \<open>
  C19 (bounds): the weighted strategy is exactly proportional: over one full range of request hashes a
  candidate is picked as often as the weights of its entries say, a weight of zero counting as one, and a
  hash picks as its remainder does; the pick is always one of the candidates.
\<close>

theorem weighted_pick_proportional:
  assumes "cs \<noteq> []"
  shows "card {h. h < sum_list (map candidate_weight cs) \<and> weighted_pick cs h = c} =
      sum_list (map candidate_weight (filter (\<lambda>d. d = c) cs)) \<and>
    weighted_pick cs (hash mod sum_list (map candidate_weight cs)) = weighted_pick cs hash \<and>
    weighted_pick cs hash \<in> set cs"
proof -
  have "{h. h < sum_list (map candidate_weight cs) \<and> weighted_pick cs h = c} =
      {h. h < sum_list (map candidate_weight cs) \<and> pick_slot (hd cs) h cs = c}"
    by (auto simp: weighted_pick_def)
  then show ?thesis by (simp add: card_pick_slot weighted_pick_mem [OF assms]) (simp add: weighted_pick_def)
qed

theorem weighted_pick_proportional_witness:
  "card {h. h < 4 \<and> weighted_pick [sample_candidate ''a'' 1 3 True, sample_candidate ''b'' 1 0 True] h
      = sample_candidate ''a'' 1 3 True} = 3"
  using weighted_pick_proportional [of "[sample_candidate ''a'' 1 3 True, sample_candidate ''b'' 1 0 True]"
      "sample_candidate ''a'' 1 3 True"]
  by (simp add: candidate_weight_def sample_candidate_def)

text \<open>
  The circuit breaker: after any run of results the circuit is closed right after a
  success, a failure never closes an open or half-open circuit, and a closed circuit opens on a failure
  exactly when the failures counted so far, this one included, reach the threshold, as long as the counter
  is below the 32-bit limit.
\<close>

theorem circuit_breaker_transitions:
  assumes "0 \<le> failures" and "failures < 2 ^ 31 - 1"
  shows "circuit_state_after_passive_result previous failures True threshold = Closed \<and>
    (previous \<noteq> Closed \<longrightarrow> circuit_state_after_passive_result previous failures False threshold = Open) \<and>
    (circuit_state_after_passive_result Closed failures False threshold = Open \<longleftrightarrow> threshold \<le> failures + 1) \<and>
    circuit_state_after_passive_result previous failures False threshold \<noteq> HalfOpen"
proof -
  have "wrap_i32 (failures + 1) = failures + 1" using assms by (intro wrap_i32_id) simp_all
  then show ?thesis by (cases previous) (simp_all add: circuit_state_after_passive_result_def)
qed

theorem circuit_breaker_transitions_witness:
  "circuit_state_after_passive_result Closed 2 False 3 = Open \<and>
   circuit_state_after_passive_result Closed 1 False 3 \<noteq> Open"
  using circuit_breaker_transitions [of 2 Closed 3] circuit_breaker_transitions [of 1 Closed 3] by simp

end
