(* ===== verification/Endpoint_Access.thy ===== *)
theory Endpoint_Access
  imports Routing
begin

text \<open>
  Identity requirements of an endpoint (\<open>gateway-core/src/endpoint_access.rs\<close>,
  \<open>gateway-core/src/auth_profiles.rs\<close>): the Entra policy of a route, the authentication profiles a key
  selects, the Accessa and WebSocket contracts, and their validation. Two functions of the environment are
  arguments: \<open>header_name\<close>, which accepts the byte strings the http crate takes as header names, and
  \<open>lower\<close>, the Unicode lowercase mapping of the standard library.
\<close>

record endpoint_entra_policy =
  ee_audience :: string
  ee_required_scopes :: "string list"
  ee_required_roles :: "string list"
  ee_allowed_groups :: "string list"
  ee_allow_apigee :: bool

record websocket_settings =
  ws_idle_timeout_ms :: nat
  ws_max_connections :: nat
  ws_max_connections_per_key :: nat
  ws_max_frame_bytes :: nat
  ws_max_session_duration_seconds :: nat

record user_token_forwarding =
  uf_enabled :: bool
  uf_header :: string

record accessa_binding =
  ab_app :: "string option"
  ab_channel :: string
  ab_idle_timeout_ms :: nat
  ab_max_connections :: nat
  ab_max_connections_per_key :: nat
  ab_max_frame_bytes :: nat

datatype profile_authentication = EntraAndRelaynaKey | RelaynaKeyOnly

record authentication_profile =
  ap_id :: string
  ap_name :: string
  ap_enabled :: bool
  ap_authentication :: profile_authentication
  ap_entra :: "endpoint_entra_policy option"

record profile_binding =
  pb_key_id :: string
  pb_profile_id :: string

record authentication_profiles =
  aps_revision :: nat
  aps_profiles :: "authentication_profile list"
  aps_bindings :: "profile_binding list"

record endpoint_access =
  ea_authentication_profiles :: "authentication_profiles option"
  ea_skip_entra :: bool
  ea_entra :: "endpoint_entra_policy option"
  ea_accessa :: "accessa_binding option"
  ea_websocket :: "websocket_settings option"
  ea_user_token_forwarding :: "user_token_forwarding option"

datatype entra_identity_source = Jwt | ApigeeTrustedHeader

record entra_identity =
  ei_audiences :: "string list"
  ei_expires_at :: "int option"
  ei_tenant_id :: string
  ei_subject :: "string option"
  ei_object_id :: "string option"
  ei_app_id :: "string option"
  ei_authorized_party :: "string option"
  ei_email :: "string option"
  ei_display_name :: "string option"
  ei_nonce :: "string option"
  ei_scopes :: "string list"
  ei_roles :: "string list"
  ei_groups :: "string list"
  ei_token_version :: string
  ei_source :: entra_identity_source

definition default_endpoint_access :: endpoint_access where
  "default_endpoint_access =
     \<lparr>ea_authentication_profiles = None, ea_skip_entra = False, ea_entra = None, ea_accessa = None,
      ea_websocket = None, ea_user_token_forwarding = None\<rparr>"

definition default_websocket_settings :: websocket_settings where
  "default_websocket_settings =
     \<lparr>ws_idle_timeout_ms = 60000, ws_max_connections = 100, ws_max_connections_per_key = 10,
      ws_max_frame_bytes = 1048576, ws_max_session_duration_seconds = 3600\<rparr>"

definition default_user_token_forwarding :: user_token_forwarding where
  "default_user_token_forwarding = \<lparr>uf_enabled = False, uf_header = ''x-access-token''\<rparr>"

section \<open>Validation\<close>

definition in_range :: "nat \<Rightarrow> nat \<Rightarrow> nat \<Rightarrow> bool" where
  "in_range lo hi x = (lo \<le> x \<and> x \<le> hi)"

definition websocket_validate :: "websocket_settings \<Rightarrow> unit gateway_result" where
  "websocket_validate s =
     (if \<not> in_range 100 600000 (ws_idle_timeout_ms s) \<or>
         \<not> in_range 1 10000 (ws_max_connections s) \<or>
         \<not> in_range 1 (ws_max_connections s) (ws_max_connections_per_key s) \<or>
         \<not> in_range 125 16777216 (ws_max_frame_bytes s) \<or>
         \<not> in_range 1 86400 (ws_max_session_duration_seconds s)
      then Err InvalidServicePayload else Ok ())"

definition reserved_headers :: "string list" where
  "reserved_headers =
     [''accept'', ''accept-encoding'', ''accept-language'', ''authorization'', ''proxy-authorization'', ''host'',
      ''connection'', ''keep-alive'', ''upgrade'', ''te'', ''trailer'', ''transfer-encoding'', ''cookie'',
      ''set-cookie'', ''origin'', ''referer'', ''forwarded'', ''via'', ''range'', ''expect'', ''cache-control'',
      ''pragma'', ''date'', ''location'', ''server'', ''vary'', ''allow'', ''etag'', ''last-modified'',
      ''traceparent'', ''tracestate'', ''baggage'', ''x-api-key'', ''api-key'', ''x-request-id'',
      ''x-correlation-id'', ''x-amzn-trace-id'']"

definition reserved_header_prefixes :: "string list" where
  "reserved_header_prefixes =
     [''content-'', ''accept-'', ''if-'', ''sec-'', ''access-control-'', ''proxy-'', ''x-caller-'', ''x-route-'',
      ''x-relayna-'', ''x-apigee-'', ''x-forwarded-'', ''x-original-'', ''x-envoy-'', ''x-ms-'']"

definition forwarding_validate :: "(string \<Rightarrow> bool) \<Rightarrow> user_token_forwarding \<Rightarrow> unit gateway_result" where
  "forwarding_validate header_name f =
     (let name = to_ascii_lowercase (uf_header f)
      in if 128 < length name \<or> \<not> header_name name \<or> name \<in> set reserved_headers \<or>
            list_ex (starts_with name) reserved_header_prefixes
         then Err InvalidServicePayload else Ok ())"

definition valid_claim :: "string \<Rightarrow> bool" where
  "valid_claim v = (v \<noteq> [] \<and> length v \<le> 512 \<and> \<not> contains_white_space v)"

definition valid_segment :: "string \<Rightarrow> bool" where
  "valid_segment v =
     (v \<noteq> [] \<and> length v \<le> 64 \<and> list_all (\<lambda>c. is_ascii_alphanumeric c \<or> c = CHR ''-'' \<or> c = CHR ''_'') v)"

definition binding_route_pattern :: "accessa_binding \<Rightarrow> string" where
  "binding_route_pattern b =
     (case ab_app b of
        Some app \<Rightarrow> ''/app/'' @ app @ ''/channel/'' @ ab_channel b @ ''/v1/*''
      | None \<Rightarrow> ''/channel/'' @ ab_channel b @ ''/v1/me'')"

definition run_path :: "accessa_binding \<Rightarrow> string option" where
  "run_path b = map_option (\<lambda>app. ''/app/'' @ app @ ''/channel/'' @ ab_channel b @ ''/v1/run'') (ab_app b)"

definition entra_claims_invalid :: "endpoint_entra_policy \<Rightarrow> bool" where
  "entra_claims_invalid p =
     (\<not> valid_claim (ee_audience p) \<or>
      list_ex (\<lambda>v. \<not> valid_claim v) (ee_required_scopes p @ ee_required_roles p @ ee_allowed_groups p))"

definition accessa_invalid :: "endpoint_access \<Rightarrow> string \<Rightarrow> accessa_binding \<Rightarrow> bool" where
  "accessa_invalid a route_pattern b =
     (ea_entra a = None \<and> ea_authentication_profiles a = None \<or>
      \<not> valid_segment (ab_channel b) \<or>
      (case ab_app b of Some app \<Rightarrow> \<not> valid_segment app | None \<Rightarrow> False) \<or>
      \<not> in_range 100 600000 (ab_idle_timeout_ms b) \<or>
      \<not> in_range 1 10000 (ab_max_connections b) \<or>
      \<not> in_range 1 (ab_max_connections b) (ab_max_connections_per_key b) \<or>
      \<not> in_range 125 16777216 (ab_max_frame_bytes b) \<or>
      route_pattern \<noteq> binding_route_pattern b)"

text \<open>An optional part is checked when it is present.\<close>

definition if_some :: "'a option \<Rightarrow> ('a \<Rightarrow> unit gateway_result) \<Rightarrow> unit gateway_result" where
  "if_some x f = (case x of Some y \<Rightarrow> f y | None \<Rightarrow> Ok ())"

definition deny_if :: "bool \<Rightarrow> gateway_error \<Rightarrow> unit gateway_result" where
  "deny_if b e = (if b then Err e else Ok ())"

text \<open>
  \<open>EndpointAccess::validate\<close>, with the validation of the profiles as an argument: that validation calls
  \<open>EndpointAccess::validate\<close> again, on accesses without profiles.
\<close>

definition endpoint_validate_with ::
  "(bool \<Rightarrow> authentication_profiles \<Rightarrow> unit gateway_result) \<Rightarrow> (string \<Rightarrow> bool) \<Rightarrow> endpoint_access \<Rightarrow> string
     \<Rightarrow> unit gateway_result" where
  "endpoint_validate_with profiles_check header_name a route_pattern =
     and_then (if_some (ea_websocket a) (\<lambda>s.
        and_then (websocket_validate s) (\<lambda>_. deny_if (ea_accessa a \<noteq> None) InvalidServicePayload))) (\<lambda>_.
     and_then (if_some (ea_user_token_forwarding a) (\<lambda>f.
        and_then (deny_if (ea_accessa a = None) InvalidServicePayload) (\<lambda>_.
          forwarding_validate header_name f))) (\<lambda>_.
     and_then (if_some (ea_authentication_profiles a) (\<lambda>ps.
        and_then (profiles_check (ea_accessa a \<noteq> None) ps) (\<lambda>_.
          deny_if (ea_skip_entra a \<or> ea_entra a \<noteq> None) InvalidServicePayload))) (\<lambda>_.
     and_then (deny_if (ea_skip_entra a \<and> (ea_entra a \<noteq> None \<or> ea_accessa a \<noteq> None)) InvalidServicePayload) (\<lambda>_.
     and_then (if_some (ea_entra a) (\<lambda>p. deny_if (entra_claims_invalid p) InvalidServicePayload)) (\<lambda>_.
     if_some (ea_accessa a) (\<lambda>b. deny_if (accessa_invalid a route_pattern b) InvalidServicePayload))))))"

definition profile_id_valid :: "string \<Rightarrow> bool" where
  "profile_id_valid i =
     (i \<noteq> [] \<and> length i \<le> 64 \<and> list_all (\<lambda>c. is_ascii_alphanumeric c \<or> c = CHR ''-'' \<or> c = CHR ''_'') i)"

definition profile_claims_check :: "(string \<Rightarrow> bool) \<Rightarrow> endpoint_entra_policy \<Rightarrow> unit gateway_result" where
  "profile_claims_check header_name e =
     and_then (deny_if (list_ex (\<lambda>claims. 64 < length claims)
        [ee_required_scopes e, ee_required_roles e, ee_allowed_groups e]) InvalidServicePayload) (\<lambda>_.
     endpoint_validate_with (\<lambda>_ _. Ok ()) header_name (default_endpoint_access\<lparr>ea_entra := Some e\<rparr>) ''/profile'')"

text \<open>The loop over the profiles; its state holds the identifiers and the normalised names seen so far.\<close>

definition check_profile ::
  "(string \<Rightarrow> bool) \<Rightarrow> (string \<Rightarrow> string) \<Rightarrow> bool \<Rightarrow> string list \<times> string list \<Rightarrow> authentication_profile
     \<Rightarrow> (string list \<times> string list) gateway_result" where
  "check_profile header_name lower accessa seen p =
     (if \<not> profile_id_valid (ap_id p) \<or> trim (ap_name p) = [] \<or> 120 < length (ap_name p) \<or>
         contains_control (ap_name p) \<or> ap_id p \<in> set (fst seen) \<or> lower (trim (ap_name p)) \<in> set (snd seen) \<or>
         accessa \<and> ap_entra p = None \<or> (ap_authentication p = EntraAndRelaynaKey) \<noteq> (ap_entra p \<noteq> None)
      then Err InvalidServicePayload
      else and_then (if_some (ap_entra p) (profile_claims_check header_name)) (\<lambda>_.
        Ok (ap_id p # fst seen, lower (trim (ap_name p)) # snd seen)))"

definition check_binding :: "string list \<Rightarrow> string list \<Rightarrow> profile_binding \<Rightarrow> string list gateway_result" where
  "check_binding ids keys b =
     (if pb_profile_id b \<notin> set ids \<or> pb_key_id b \<in> set keys then Err InvalidServicePayload
      else Ok (pb_key_id b # keys))"

definition profiles_validate ::
  "(string \<Rightarrow> bool) \<Rightarrow> (string \<Rightarrow> string) \<Rightarrow> bool \<Rightarrow> authentication_profiles \<Rightarrow> unit gateway_result" where
  "profiles_validate header_name lower accessa ps =
     (if aps_profiles ps = [] \<or> 32 < length (aps_profiles ps) \<or> 1024 < length (aps_bindings ps) \<or>
         i64_max \<le> int (aps_revision ps)
      then Err InvalidServicePayload
      else and_then (try_fold (check_profile header_name lower accessa) ([], []) (aps_profiles ps)) (\<lambda>seen.
        and_then (try_fold (check_binding (fst seen)) [] (aps_bindings ps)) (\<lambda>_. Ok ())))"

definition endpoint_validate ::
  "(string \<Rightarrow> bool) \<Rightarrow> (string \<Rightarrow> string) \<Rightarrow> endpoint_access \<Rightarrow> string \<Rightarrow> unit gateway_result" where
  "endpoint_validate header_name lower a route_pattern =
     endpoint_validate_with (profiles_validate header_name lower) header_name a route_pattern"

definition identity_routes :: "route list" where
  "identity_routes =
     [ChatCompletions, Responses, LiteLlmEmbeddings, LiteLlmRerank, AnthropicMessages,
      AnthropicMessagesCountTokens, AnthropicMessageBatches, AnthropicMessageBatch,
      AnthropicMessageBatchResults, AnthropicMessageBatchCancel, AnthropicModels, DirectOpenAi,
      LiteLlmPassthrough, Summary, Translation, Ocr, ServiceWildcard]"

definition route_identity_validate ::
  "(string \<Rightarrow> bool) \<Rightarrow> (string \<Rightarrow> string) \<Rightarrow> string \<Rightarrow> endpoint_access \<Rightarrow> unit gateway_result" where
  "route_identity_validate header_name lower rt a =
     (if \<not> list_ex (\<lambda>r. route_as_str r = rt) identity_routes \<or> ea_accessa a \<noteq> None \<or>
         ea_websocket a \<noteq> None \<and> rt \<notin> {''/litellm/*'', ''/v1/responses''}
      then Err InvalidServicePayload
      else endpoint_validate header_name lower a rt)"

section \<open>Selection and authorisation\<close>

definition profiles_select :: "authentication_profiles \<Rightarrow> string \<Rightarrow> authentication_profile gateway_result" where
  "profiles_select ps key_id =
     (case filter (\<lambda>b. pb_key_id b = key_id) (aps_bindings ps) of
        [] \<Rightarrow> Err AuthenticationProfileDenied
      | b # others \<Rightarrow>
          if others \<noteq> [] then Err AuthenticationProfileDenied
          else (case filter (\<lambda>p. ap_id p = pb_profile_id b) (aps_profiles ps) of
                  [] \<Rightarrow> Err AuthenticationProfileDenied
                | p # rest \<Rightarrow>
                    if \<not> ap_enabled p \<or> rest \<noteq> [] then Err AuthenticationProfileDenied else Ok p))"

definition authentication_type :: "authentication_profile \<Rightarrow> string" where
  "authentication_type p = (if ap_entra p \<noteq> None then ''entra_and_relayna_key'' else ''relayna_key_only'')"

definition identity_for_key :: "endpoint_access \<Rightarrow> string \<Rightarrow> endpoint_entra_policy option gateway_result" where
  "identity_for_key a key_id =
     (case ea_authentication_profiles a of
        Some ps \<Rightarrow> and_then (profiles_select ps key_id) (\<lambda>p. Ok (ap_entra p))
      | None \<Rightarrow> Ok (ea_entra a))"

definition entra_authorize :: "endpoint_entra_policy \<Rightarrow> entra_identity \<Rightarrow> int \<Rightarrow> unit gateway_result" where
  "entra_authorize p identity now =
     (if ee_audience p \<notin> set (ei_audiences identity) then Err InvalidEntraAudience
      else if (case ei_expires_at identity of None \<Rightarrow> True | Some expiry \<Rightarrow> expiry \<le> now) then Err ExpiredEntraToken
      else if list_ex (\<lambda>s. s \<notin> set (ei_scopes identity)) (ee_required_scopes p) \<or>
              list_ex (\<lambda>r. r \<notin> set (ei_roles identity)) (ee_required_roles p) \<or>
              ee_allowed_groups p \<noteq> [] \<and> \<not> list_ex (\<lambda>g. g \<in> set (ei_groups identity)) (ee_allowed_groups p)
      then Err InsufficientEntraAuthorization
      else Ok ())"

section \<open>Laws\<close>

lemma if_some_Ok [simp]: "if_some x f = Ok () \<longleftrightarrow> (\<forall>y. x = Some y \<longrightarrow> f y = Ok ())"
  by (cases x) (simp_all add: if_some_def)

lemma deny_if_Ok [simp]: "deny_if b e = Ok () \<longleftrightarrow> \<not> b"
  by (simp add: deny_if_def)

lemma endpoint_validate_with_Ok:
  "endpoint_validate_with pv hn a rp = Ok () \<longleftrightarrow>
     (\<forall>s. ea_websocket a = Some s \<longrightarrow> websocket_validate s = Ok () \<and> ea_accessa a = None) \<and>
     (\<forall>f. ea_user_token_forwarding a = Some f \<longrightarrow> ea_accessa a \<noteq> None \<and> forwarding_validate hn f = Ok ()) \<and>
     (\<forall>ps. ea_authentication_profiles a = Some ps \<longrightarrow>
        pv (ea_accessa a \<noteq> None) ps = Ok () \<and> \<not> ea_skip_entra a \<and> ea_entra a = None) \<and>
     \<not> (ea_skip_entra a \<and> (ea_entra a \<noteq> None \<or> ea_accessa a \<noteq> None)) \<and>
     (\<forall>p. ea_entra a = Some p \<longrightarrow> \<not> entra_claims_invalid p) \<and>
     (\<forall>b. ea_accessa a = Some b \<longrightarrow> \<not> accessa_invalid a rp b)"
  by (simp add: endpoint_validate_with_def)

lemma check_profile_Ok:
  assumes "check_profile hn lower accessa seen p = Ok seen'"
  shows "seen' = (ap_id p # fst seen, lower (trim (ap_name p)) # snd seen)" "ap_id p \<notin> set (fst seen)"
    "accessa \<longrightarrow> ap_entra p \<noteq> None" "(ap_authentication p = EntraAndRelaynaKey) = (ap_entra p \<noteq> None)"
  using assms by (auto simp: check_profile_def split: if_splits)

lemma profile_loop:
  "try_fold (check_profile hn lower accessa) seen ps = Ok seen' \<Longrightarrow> distinct (fst seen) \<Longrightarrow>
   fst seen' = rev (map ap_id ps) @ fst seen \<and> distinct (fst seen') \<and>
   (\<forall>p \<in> set ps. (accessa \<longrightarrow> ap_entra p \<noteq> None) \<and>
      (ap_authentication p = EntraAndRelaynaKey) = (ap_entra p \<noteq> None))"
proof (induction ps arbitrary: seen)
  case (Cons p ps)
  then obtain seen1 where s: "check_profile hn lower accessa seen p = Ok seen1"
    "try_fold (check_profile hn lower accessa) seen1 ps = Ok seen'" by auto
  note ok = check_profile_Ok [OF s(1)]
  have "distinct (fst seen1)" using ok(1,2) Cons.prems(2) by simp
  from Cons.IH [OF s(2) this] ok show ?case by (elim conjE) simp
qed simp

lemma binding_loop:
  "try_fold (check_binding ids) keys bs = Ok keys' \<Longrightarrow> distinct keys \<Longrightarrow>
   keys' = rev (map pb_key_id bs) @ keys \<and> distinct keys' \<and> (\<forall>b \<in> set bs. pb_profile_id b \<in> set ids)"
proof (induction bs arbitrary: keys)
  case (Cons b bs)
  then obtain k1 where k: "check_binding ids keys b = Ok k1" "try_fold (check_binding ids) k1 bs = Ok keys'" by auto
  then have "k1 = pb_key_id b # keys" "pb_key_id b \<notin> set keys" "pb_profile_id b \<in> set ids"
    by (auto simp: check_binding_def split: if_splits)
  with Cons.IH [OF k(2)] Cons.prems(2) show ?case by simp (elim conjE, simp)
qed simp

lemma profiles_validate_Ok:
  assumes "profiles_validate hn lower accessa ps = Ok ()"
  shows "distinct (map ap_id (aps_profiles ps))" "distinct (map pb_key_id (aps_bindings ps))"
    "\<forall>b \<in> set (aps_bindings ps). pb_profile_id b \<in> ap_id ` set (aps_profiles ps)"
    "\<forall>p \<in> set (aps_profiles ps). (accessa \<longrightarrow> ap_entra p \<noteq> None) \<and>
      (ap_authentication p = EntraAndRelaynaKey) = (ap_entra p \<noteq> None)"
proof -
  from assms obtain seen keys where
    s: "try_fold (check_profile hn lower accessa) ([], []) (aps_profiles ps) = Ok seen"
      "try_fold (check_binding (fst seen)) [] (aps_bindings ps) = Ok keys"
    by (auto simp: profiles_validate_def split: if_splits)
  note p = profile_loop [OF s(1), simplified]
  note b = binding_loop [OF s(2), simplified]
  show "distinct (map ap_id (aps_profiles ps))" "distinct (map pb_key_id (aps_bindings ps))"
    "\<forall>b \<in> set (aps_bindings ps). pb_profile_id b \<in> ap_id ` set (aps_profiles ps)"
    "\<forall>p \<in> set (aps_profiles ps). (accessa \<longrightarrow> ap_entra p \<noteq> None) \<and>
      (ap_authentication p = EntraAndRelaynaKey) = (ap_entra p \<noteq> None)"
    using p b by auto
qed

lemma filter_unique:
  "distinct (map f xs) \<Longrightarrow> x \<in> set xs \<Longrightarrow> filter (\<lambda>y. f y = f x) xs = [x]"
  by (induction xs) (auto simp: filter_empty_conv image_iff)

lemma profiles_select_mem:
  assumes "profiles_select ps k = Ok p"
  shows "p \<in> set (aps_profiles ps)" "ap_enabled p"
    "\<exists>b \<in> set (aps_bindings ps). pb_key_id b = k \<and> pb_profile_id b = ap_id p"
proof -
  from assms obtain b where b: "filter (\<lambda>b. pb_key_id b = k) (aps_bindings ps) = [b]"
    "filter (\<lambda>p. ap_id p = pb_profile_id b) (aps_profiles ps) = [p]" "ap_enabled p"
    by (auto simp: profiles_select_def split: list.splits if_splits)
  from arg_cong [OF b(1), of set] arg_cong [OF b(2), of set] b(3)
  show "p \<in> set (aps_profiles ps)" "ap_enabled p"
    "\<exists>b \<in> set (aps_bindings ps). pb_key_id b = k \<and> pb_profile_id b = ap_id p"
    by (simp_all add: set_eq_iff) metis+
qed

section \<open>Properties\<close>

text \<open>
  With validated profiles a key selects exactly the enabled profile it is bound to:
  the selection succeeds with a profile if and only if some binding of the key names it and it is
  enabled, and is refused otherwise; a key is bound at most once and every binding names a profile.
\<close>

theorem profiles_select_exact:
  assumes "profiles_validate hn lower accessa ps = Ok ()"
  shows "(profiles_select ps k = Ok p \<longleftrightarrow> p \<in> set (aps_profiles ps) \<and> ap_enabled p \<and>
      (\<exists>b \<in> set (aps_bindings ps). pb_key_id b = k \<and> pb_profile_id b = ap_id p)) \<and>
    (profiles_select ps k = Err AuthenticationProfileDenied \<or> is_ok (profiles_select ps k))"
proof (intro conjI iffI)
  assume "profiles_select ps k = Ok p"
  then show "p \<in> set (aps_profiles ps)" "ap_enabled p"
    "\<exists>b \<in> set (aps_bindings ps). pb_key_id b = k \<and> pb_profile_id b = ap_id p"
    by (rule profiles_select_mem)+
next
  assume "p \<in> set (aps_profiles ps) \<and> ap_enabled p \<and>
    (\<exists>b \<in> set (aps_bindings ps). pb_key_id b = k \<and> pb_profile_id b = ap_id p)"
  then obtain b where b: "b \<in> set (aps_bindings ps)" "pb_key_id b = k" "pb_profile_id b = ap_id p"
    and p: "p \<in> set (aps_profiles ps)" "ap_enabled p" by blast
  note v = profiles_validate_Ok [OF assms]
  have "filter (\<lambda>b. pb_key_id b = k) (aps_bindings ps) = [b]"
    using filter_unique [OF v(2) b(1)] b(2) by simp
  moreover have "filter (\<lambda>q. ap_id q = pb_profile_id b) (aps_profiles ps) = [p]"
    using filter_unique [OF v(1) p(1)] b(3) by simp
  ultimately show "profiles_select ps k = Ok p" using p(2) by (simp add: profiles_select_def)
next
  show "profiles_select ps k = Err AuthenticationProfileDenied \<or> is_ok (profiles_select ps k)"
    by (auto simp: profiles_select_def split: list.split)
qed

definition sample_profiles :: authentication_profiles where
  "sample_profiles =
     \<lparr>aps_revision = 1,
      aps_profiles = [\<lparr>ap_id = ''svc'', ap_name = ''Service'', ap_enabled = True, ap_authentication = RelaynaKeyOnly,
         ap_entra = None\<rparr>],
      aps_bindings = [\<lparr>pb_key_id = ''k1'', pb_profile_id = ''svc''\<rparr>]\<rparr>"

theorem profiles_select_exact_witness:
  "profiles_validate (\<lambda>_. True) (\<lambda>s. s) False sample_profiles = Ok () \<and>
   profiles_select sample_profiles ''k2'' = Err AuthenticationProfileDenied \<and>
   profiles_select sample_profiles ''k1'' = Ok (hd (aps_profiles sample_profiles))"
proof -
  have ok: "profiles_validate (\<lambda>_. True) (\<lambda>s. s) False sample_profiles = Ok ()" by code_simp
  from profiles_select_exact [OF ok, of "''k1''" "hd (aps_profiles sample_profiles)"] ok
  show ?thesis by (simp add: sample_profiles_def) (simp add: profiles_select_def)
qed

text \<open>
  C22 (safety): a validated Accessa endpoint cannot be reached with a key alone: whatever key asks, the
  identity it must present is an Entra policy, or the key is refused. Its connection limits are within
  bounds, no WebSocket setting competes with it, and a forwarded user token never travels in a header
  with a meaning of its own.
\<close>

theorem accessa_requires_identity:
  assumes "endpoint_validate hn lower a rp = Ok ()" and "ea_accessa a = Some b"
  shows "identity_for_key a k \<noteq> Ok None \<and> \<not> ea_skip_entra a \<and> ea_websocket a = None \<and>
    rp = binding_route_pattern b \<and> 1 \<le> ab_max_connections_per_key b \<and>
    ab_max_connections_per_key b \<le> ab_max_connections b \<and> ab_max_connections b \<le> 10000 \<and>
    (\<forall>f. ea_user_token_forwarding a = Some f \<longrightarrow>
       to_ascii_lowercase (uf_header f) \<notin> set reserved_headers \<and>
       (\<forall>x \<in> set reserved_header_prefixes. \<not> starts_with (to_ascii_lowercase (uf_header f)) x))"
proof -
  note v = assms(1) [unfolded endpoint_validate_def endpoint_validate_with_Ok]
  have b: "\<not> accessa_invalid a rp b" using v assms(2) by blast
  have "ap_entra p \<noteq> None" if "ea_authentication_profiles a = Some ps" "profiles_select ps k = Ok p" for ps p
  proof -
    have "profiles_validate hn lower True ps = Ok ()" using v assms(2) that(1) by auto
    from profiles_validate_Ok(4) [OF this] profiles_select_mem(1) [OF that(2)] show ?thesis by blast
  qed
  then have "identity_for_key a k \<noteq> Ok None"
    using b by (auto simp: identity_for_key_def accessa_invalid_def split: option.splits)
  moreover have "\<forall>f. ea_user_token_forwarding a = Some f \<longrightarrow>
       to_ascii_lowercase (uf_header f) \<notin> set reserved_headers \<and>
       (\<forall>x \<in> set reserved_header_prefixes. \<not> starts_with (to_ascii_lowercase (uf_header f)) x)"
    using v by (auto simp: forwarding_validate_def Let_def list_ex_iff split: if_splits)
  ultimately show ?thesis
    using v b assms(2) by (auto simp: accessa_invalid_def in_range_def)
qed

definition sample_accessa :: endpoint_access where
  "sample_accessa = default_endpoint_access
     \<lparr>ea_entra := Some \<lparr>ee_audience = ''api://accessa'', ee_required_scopes = [''run''], ee_required_roles = [],
        ee_allowed_groups = [], ee_allow_apigee = False\<rparr>,
      ea_accessa := Some \<lparr>ab_app = Some ''tara'', ab_channel = ''web'', ab_idle_timeout_ms = 60000,
        ab_max_connections = 10, ab_max_connections_per_key = 2, ab_max_frame_bytes = 1024\<rparr>\<rparr>"

theorem accessa_requires_identity_witness:
  "endpoint_validate (\<lambda>_. True) (\<lambda>s. s) sample_accessa ''/app/tara/channel/web/v1/*'' = Ok () \<and>
   identity_for_key sample_accessa ''k1'' \<noteq> Ok None"
proof -
  have "valid_claim ''api://accessa''" "valid_claim ''run''" "valid_segment ''tara''" "valid_segment ''web''"
    by code_simp+
  then have ok: "endpoint_validate (\<lambda>_. True) (\<lambda>s. s) sample_accessa ''/app/tara/channel/web/v1/*'' = Ok ()"
    by (simp add: endpoint_validate_def endpoint_validate_with_Ok sample_accessa_def default_endpoint_access_def
        entra_claims_invalid_def accessa_invalid_def in_range_def binding_route_pattern_def)
  have "ea_accessa sample_accessa = Some \<lparr>ab_app = Some ''tara'', ab_channel = ''web'', ab_idle_timeout_ms = 60000,
        ab_max_connections = 10, ab_max_connections_per_key = 2, ab_max_frame_bytes = 1024\<rparr>"
    by (simp add: sample_accessa_def)
  from accessa_requires_identity [OF ok this] ok show ?thesis by blast
qed

text \<open>
  A verified identity is authorised exactly when it was issued for the audience, has
  an expiry in the future, carries every required scope and role, and is in one of the allowed groups if
  there are any; otherwise the first failed requirement names the error.
\<close>

theorem entra_authorize_exact:
  "(entra_authorize p i now = Ok () \<longleftrightarrow>
     ee_audience p \<in> set (ei_audiences i) \<and> (\<exists>t. ei_expires_at i = Some t \<and> now < t) \<and>
     set (ee_required_scopes p) \<subseteq> set (ei_scopes i) \<and> set (ee_required_roles p) \<subseteq> set (ei_roles i) \<and>
     (ee_allowed_groups p = [] \<or> (\<exists>g. g \<in> set (ee_allowed_groups p) \<and> g \<in> set (ei_groups i)))) \<and>
   (entra_authorize p i now = Err InvalidEntraAudience \<longleftrightarrow> ee_audience p \<notin> set (ei_audiences i)) \<and>
   (entra_authorize p i now = Err ExpiredEntraToken \<longleftrightarrow>
     ee_audience p \<in> set (ei_audiences i) \<and> \<not> (\<exists>t. ei_expires_at i = Some t \<and> now < t))"
  by (auto simp: entra_authorize_def list_ex_iff split: option.splits)

end
