(* ===== verification/Foundry.thy ===== *)
theory Foundry
  imports Routing Json_Values
begin

text \<open>
  Foundry connections (\<open>gateway-core/src/foundry.rs\<close>): the identity of a connection, the binding of a
  service to an agent or an endpoint, the path a bound service exposes and the stateless request that is
  sent upstream. The URL parser and the JSON parser and printer are arguments; a URI is given by its path
  and its query.
\<close>

datatype foundry_identity_method = ClientSecret | WorkloadIdentity | ManagedIdentity

record foundry_identity =
  fi_method :: foundry_identity_method
  fi_tenant_id :: "string option"
  fi_client_id :: "string option"

datatype foundry_binding =
    RegisteredAgent string string "string option"
  | EndpointPassthrough string

text \<open>The parts of a parsed URL that the code reads.\<close>

record url_parts =
  url_scheme :: string
  url_host_str :: "string option"
  url_path :: string
  url_username :: string
  url_password :: "string option"
  url_query :: "string option"
  url_fragment :: "string option"

fun binding_provider_id :: "foundry_binding \<Rightarrow> string" where
  "binding_provider_id (RegisteredAgent provider_id name version) = provider_id"
| "binding_provider_id (EndpointPassthrough provider_id) = provider_id"

definition foundry_segment :: "string \<Rightarrow> bool" where
  "foundry_segment v =
     (v \<noteq> [] \<and> length v \<le> 128 \<and> list_all (\<lambda>c. is_ascii_alphanumeric c \<or> c = CHR ''-'' \<or> c = CHR ''_'') v)"

definition project_url :: "(string \<Rightarrow> url_parts option) \<Rightarrow> string \<Rightarrow> url_parts gateway_result" where
  "project_url parse_url endpoint =
     and_then (ok_or (parse_url endpoint) InvalidFoundryConfiguration) (\<lambda>url.
     let host = (case url_host_str url of Some h \<Rightarrow> h | None \<Rightarrow> []);
         azure = (ends_with host ''.services.ai.azure.com'' \<and> url_scheme url = ''https'');
         loopback = ((host = ''127.0.0.1'' \<or> host = ''[::1]'') \<and> url_scheme url = ''http'');
         path = split_char (CHR ''/'') (trim_end_matches (\<lambda>c. c = CHR ''/'') (url_path url))
     in if \<not> azure \<and> \<not> loopback \<or> url_username url \<noteq> [] \<or> url_password url \<noteq> None \<or>
           url_query url \<noteq> None \<or> url_fragment url \<noteq> None \<or> length path \<noteq> 4 \<or>
           path ! 1 \<noteq> ''api'' \<or> path ! 2 \<noteq> ''projects'' \<or> \<not> foundry_segment (path ! 3)
        then Err InvalidFoundryConfiguration else Ok url)"

definition foundry_identity_validate ::
  "(string \<Rightarrow> url_parts option) \<Rightarrow> foundry_identity \<Rightarrow> string \<Rightarrow> bool \<Rightarrow> unit gateway_result" where
  "foundry_identity_validate parse_url i endpoint secret_present =
     and_then (project_url parse_url endpoint) (\<lambda>_.
     if fi_method i \<noteq> ManagedIdentity \<and> (fi_tenant_id i = None \<or> fi_client_id i = None)
     then Err InvalidFoundryConfiguration
     else if fi_method i = ClientSecret \<and> \<not> secret_present then Err InvalidFoundryConfiguration
     else Ok ())"

fun binding_validate :: "foundry_binding \<Rightarrow> unit gateway_result" where
  "binding_validate (RegisteredAgent provider_id agent_name agent_version) =
     (if \<not> foundry_segment agent_name \<or> (case agent_version of Some v \<Rightarrow> \<not> foundry_segment v | None \<Rightarrow> False)
      then Err InvalidFoundryConfiguration else Ok ())"
| "binding_validate (EndpointPassthrough provider_id) = Ok ()"

definition foundry_validate_path :: "string \<Rightarrow> string \<Rightarrow> string option \<Rightarrow> string \<Rightarrow> unit gateway_result" where
  "foundry_validate_path meth uri_path uri_query rt =
     (let expected = trim_end_matches (\<lambda>c. c = CHR ''/'') (trim_end_matches (\<lambda>c. c = CHR ''*'') rt) @ ''/responses''
      in if meth \<noteq> ''POST'' \<or> uri_path \<noteq> expected \<or> uri_query \<noteq> None then Err InvalidFoundryRequest else Ok ())"

section \<open>Requests\<close>

definition is_str :: "json \<Rightarrow> bool" where
  "is_str v = (as_str v \<noteq> None)"

definition validate_part :: "json \<Rightarrow> unit gateway_result" where
  "validate_part part =
     and_then (ok_or (as_object part) InvalidFoundryRequest) (\<lambda>p.
     if list_ex (\<lambda>key. key \<notin> {''type'', ''text''}) (bt_keys p) \<or>
        bt_get p ''type'' \<notin> {Some (JString ''input_text''), Some (JString ''output_text'')} \<or>
        \<not> (case bt_get p ''text'' of Some v \<Rightarrow> is_str v | None \<Rightarrow> False)
     then Err InvalidFoundryRequest else Ok ())"

definition validate_message :: "json \<Rightarrow> unit gateway_result" where
  "validate_message message =
     and_then (ok_or (as_object message) InvalidFoundryRequest) (\<lambda>item.
     if list_ex (\<lambda>key. key \<notin> {''type'', ''role'', ''content''}) (bt_keys item) \<or>
        bt_get item ''type'' \<notin> {None, Some (JString ''message'')} \<or>
        bt_get item ''role'' \<notin> {Some (JString ''user''), Some (JString ''assistant'')}
     then Err InvalidFoundryRequest
     else and_then (ok_or (bt_get item ''content'') InvalidFoundryRequest) (\<lambda>content.
       if is_str content then Ok ()
       else and_then (ok_or (as_array content) InvalidFoundryRequest) (try_each validate_part)))"

definition validate_input :: "json \<Rightarrow> unit gateway_result" where
  "validate_input v =
     (if is_str v then Ok ()
      else and_then (ok_or (as_array v) InvalidFoundryRequest) (try_each validate_message))"

text \<open>One pass of the loop over the fields that refer to persisted state.\<close>

definition drop_stateful_field :: "json btree_map \<Rightarrow> string \<Rightarrow> json btree_map gateway_result" where
  "drop_stateful_field object name =
     (if bt_get object name \<notin> {None, Some JNull, Some (JBool False)} then Err InvalidFoundryRequest
      else Ok (bt_remove name object))"

definition agent_fields :: "string list" where
  "agent_fields = [''input'', ''stream'', ''store'', ''metadata'', ''max_output_tokens'', ''guardrails'']"

definition agent_reference :: "string \<Rightarrow> string option \<Rightarrow> json" where
  "agent_reference name version =
     (let reference = bt_insert ''name'' (JString name) (bt_insert ''type'' (JString ''agent_reference'') [])
      in JObject (case version of Some v \<Rightarrow> bt_insert ''version'' (JString v) reference | None \<Rightarrow> reference))"

definition bind_agent :: "foundry_binding \<Rightarrow> json btree_map \<Rightarrow> json btree_map gateway_result" where
  "bind_agent binding object =
     (case binding of
        RegisteredAgent provider_id name version \<Rightarrow>
          if list_ex (\<lambda>key. key \<notin> set agent_fields) (bt_keys object) then Err InvalidFoundryRequest
          else Ok (bt_insert ''agent_reference'' (agent_reference name version) object)
      | EndpointPassthrough provider_id \<Rightarrow> Ok object)"

definition prepare_object :: "foundry_binding \<Rightarrow> json btree_map \<Rightarrow> json btree_map gateway_result" where
  "prepare_object binding object =
     and_then (try_fold drop_stateful_field object [''conversation'', ''previous_response_id'', ''background''])
     (\<lambda>object.
       if bt_get object ''store'' \<notin> {None, Some (JBool False)} then Err InvalidFoundryRequest
       else and_then (ok_or (bt_get object ''input'') InvalidFoundryRequest) (\<lambda>input.
         and_then (validate_input input) (\<lambda>_.
         and_then (bind_agent binding object) (\<lambda>object.
         Ok (bt_insert ''store'' (JBool False) object)))))"

definition prepare_request ::
  "(string \<Rightarrow> json option) \<Rightarrow> (json \<Rightarrow> string option) \<Rightarrow> foundry_binding \<Rightarrow> string \<Rightarrow> string gateway_result" where
  "prepare_request from_slice to_vec binding body =
     and_then (ok_or (from_slice body) InvalidFoundryRequest) (\<lambda>v.
     and_then (ok_or (as_object v) InvalidFoundryRequest) (\<lambda>object.
     and_then (prepare_object binding object) (\<lambda>object.
     ok_or (to_vec (JObject object)) InvalidFoundryRequest)))"

section \<open>Laws\<close>

lemma keys_remove: "set (bt_keys (bt_remove k m)) = set (bt_keys m) - {k}"
  by (force simp: bt_keys_def bt_remove_def)

lemma keys_insert: "set (bt_keys (bt_insert k v m)) = insert k (set (bt_keys m))"
  using fst_bt_insert [of k v m] by (simp add: bt_keys_def)

lemma get_keys: "bt_get m k \<noteq> None \<longleftrightarrow> k \<in> set (bt_keys m)"
  by (simp add: bt_get_def bt_keys_def map_of_eq_None_iff)

lemma drop_stateful_fields:
  "try_fold drop_stateful_field object names = Ok object' \<Longrightarrow>
   bt_get object' k = (if k \<in> set names then None else bt_get object k) \<and>
   set (bt_keys object') = set (bt_keys object) - set names \<and>
   (k \<in> set names \<longrightarrow> bt_get object k \<in> {None, Some JNull, Some (JBool False)})"
proof (induction names arbitrary: object)
  case (Cons n names)
  then obtain o1 where o1: "drop_stateful_field object n = Ok o1"
    "try_fold drop_stateful_field o1 names = Ok object'" by auto
  then have "o1 = bt_remove n object" "bt_get object n \<in> {None, Some JNull, Some (JBool False)}"
    by (auto simp: drop_stateful_field_def split: if_splits)
  with Cons.IH [OF o1(2)] show ?case by (auto simp: bt_get_remove keys_remove split: if_splits)
qed simp

lemma prepare_object_Ok:
  assumes "prepare_object binding object = Ok out"
  obtains o1 input o2 where
    "try_fold drop_stateful_field object [''conversation'', ''previous_response_id'', ''background''] = Ok o1"
    "bt_get o1 ''store'' \<in> {None, Some (JBool False)}" "bt_get o1 ''input'' = Some input"
    "validate_input input = Ok ()" "bind_agent binding o1 = Ok o2" "out = bt_insert ''store'' (JBool False) o2"
  using assms by (auto simp: prepare_object_def split: if_splits)

section \<open>Properties\<close>

text \<open>
  C24 (safety): a request prepared for Foundry is stateless: it never stores its response, refers to no
  conversation or earlier response and does not run in the background, and it asks for none of them in
  the first place; its input is inline text. For a registered agent the only fields are the allowed ones
  and the reference to the configured agent, which the caller cannot choose.
\<close>

theorem foundry_request_stateless:
  assumes "prepare_request from_slice to_vec binding body = Ok bytes"
  shows "\<exists>object out. from_slice body = Some (JObject object) \<and> to_vec (JObject out) = Some bytes \<and>
    bt_get out ''store'' = Some (JBool False) \<and>
    (\<forall>k \<in> {''conversation'', ''previous_response_id'', ''background''}.
       bt_get out k = None \<and> bt_get object k \<in> {None, Some JNull, Some (JBool False)}) \<and>
    bt_get object ''store'' \<in> {None, Some (JBool False)} \<and>
    (\<exists>input. bt_get out ''input'' = Some input \<and> validate_input input = Ok ()) \<and>
    (\<forall>i name version. binding = RegisteredAgent i name version \<longrightarrow>
       set (bt_keys out) \<subseteq> insert ''agent_reference'' (set agent_fields) \<and>
       bt_get out ''agent_reference'' = Some (agent_reference name version))"
proof -
  from assms obtain v object out where o: "from_slice body = Some v" "as_object v = Some object"
    "prepare_object binding object = Ok out" "to_vec (JObject out) = Some bytes"
    by (auto simp: prepare_request_def)
  then have v: "v = JObject object" by (cases v) auto
  from o(3) show ?thesis
  proof (rule prepare_object_Ok)
    fix o1 input o2
    assume d: "try_fold drop_stateful_field object [''conversation'', ''previous_response_id'', ''background''] = Ok o1"
      and s: "bt_get o1 ''store'' \<in> {None, Some (JBool False)}" and i: "bt_get o1 ''input'' = Some input"
      "validate_input input = Ok ()" and b: "bind_agent binding o1 = Ok o2"
      and out: "out = bt_insert ''store'' (JBool False) o2"
    note g = drop_stateful_fields [OF d]
    have o2: "bt_get o2 k = bt_get o1 k" if "k \<noteq> ''agent_reference''" for k
      using b that by (auto simp: bind_agent_def bt_get_insert split: foundry_binding.splits if_splits)
    have agent: "set (bt_keys out) \<subseteq> insert ''agent_reference'' (set agent_fields) \<and>
       bt_get out ''agent_reference'' = Some (agent_reference name version)"
      if "binding = RegisteredAgent i name version" for i name version
    proof -
      have k: "set (bt_keys o1) \<subseteq> set agent_fields" and e: "o2 = bt_insert ''agent_reference'' (agent_reference name version) o1"
        using b that by (auto simp: bind_agent_def list_ex_iff split: if_splits)
      have "''store'' \<in> set agent_fields" by (simp add: agent_fields_def)
      with k show ?thesis unfolding out e by (auto simp only: keys_insert) (simp add: bt_get_insert)
    qed
    have gone: "\<forall>k \<in> {''conversation'', ''previous_response_id'', ''background''}.
         bt_get out k = None \<and> bt_get object k \<in> {None, Some JNull, Some (JBool False)}"
      using g o2 by (auto simp: out bt_get_insert)
    have "bt_get object ''store'' \<in> {None, Some (JBool False)}" using g [of "''store''"] s by simp
    moreover have "bt_get out ''input'' = Some input" "bt_get out ''store'' = Some (JBool False)"
      using i o2 by (simp_all add: out bt_get_insert)
    ultimately show ?thesis
      using o(1,4) v i(2) gone agent by (intro exI [of _ object] exI [of _ out]) blast
  qed
qed

definition foundry_body :: "string \<Rightarrow> json option" where
  "foundry_body body = Some (JObject [(''background'', JBool False), (''input'', JString body)])"

theorem foundry_request_stateless_witness:
  "\<exists>out. bt_get out ''store'' = Some (JBool False) \<and> bt_get out ''background'' = None \<and>
     bt_get out ''agent_reference'' = Some (agent_reference ''research'' None)"
proof -
  have ok: "prepare_request foundry_body (\<lambda>j. Some ''sent'') (RegisteredAgent ''p'' ''research'' None) ''hi'' = Ok ''sent''"
    by code_simp
  from foundry_request_stateless [OF ok] show ?thesis by auto
qed

end
