(* ===== verification/Services.thy ===== *)
theory Services
  imports Endpoint_Access Foundry "HOL-Library.Product_Lexorder"
begin

text \<open>
  The service registry (\<open>gateway-core/src/services.rs\<close>): registrations with their create, patch and
  Studio import requests, the validation of every part, route suffixes, OpenAPI endpoint templates, the
  import preview of a Studio catalog entry and what makes a service routable. What the sources take from
  other libraries is the record \<open>service_env\<close>: the URL and header name parsers, the Unicode lowercase
  mapping, the shortest decimal printing of a double, the digest of a JSON value, JSON pointers and the
  acceptance of an HTTP method token.
\<close>

record service_env =
  parse_url :: "string \<Rightarrow> url_parts option"
  header_name :: "string \<Rightarrow> bool"
  lower :: "string \<Rightarrow> string"
  display :: "f64 \<Rightarrow> string"
  digest :: "json \<Rightarrow> string"
  pointer :: "json \<Rightarrow> string \<Rightarrow> json option"
  method_token :: "string \<Rightarrow> bool"

section \<open>Data\<close>

datatype service_source = GatewaySource | StudioSource

datatype service_sync_status = LocalStatus | Synced | Incomplete | Stale | SyncFailed

datatype service_cost_mode = FixedCost | PassthroughCost | NoCost

record service_pricing_rule =
  pr_name :: "string option"
  pr_json_pointer :: string
  pr_equals :: string
  pr_cost_mode :: service_cost_mode
  pr_estimated_cost_usd :: "f64 option"

record openapi_endpoint =
  oe_method :: string
  oe_path_template :: string
  oe_operation_id :: "string option"
  oe_summary :: "string option"
  oe_relayna_default :: bool

record endpoint_pricing_rule =
  er_method :: string
  er_path_template :: string
  er_operation_id :: "string option"
  er_cost_mode :: service_cost_mode
  er_estimated_cost_usd :: "f64 option"

record service_registration =
  sr_foundry :: "foundry_binding option"
  sr_access :: endpoint_access
  sr_name :: string
  sr_project_id :: "string option"
  sr_studio_service_id :: "string option"
  sr_route_pattern :: string
  sr_upstream_base_url :: "string option"
  sr_health_check_path :: "string option"
  sr_health_check_method :: string
  sr_enabled :: bool
  sr_allowed_methods :: "string list"
  sr_timeout_ms :: int
  sr_max_body_bytes :: int
  sr_cost_mode :: service_cost_mode
  sr_estimated_cost_usd :: "f64 option"
  sr_pricing_rules :: "service_pricing_rule list"
  sr_openapi_source_path :: "string option"
  sr_openapi_schema_hash :: "string option"
  sr_openapi_synced_at :: "int option"
  sr_openapi_endpoints :: "openapi_endpoint list"
  sr_endpoint_pricing_rules :: "endpoint_pricing_rule list"
  sr_credential_secret :: "string option"
  sr_fallback_services :: "string list"
  sr_source :: service_source
  sr_sync_status :: service_sync_status
  sr_last_synced_at :: "int option"
  sr_disabled_at :: "int option"
  sr_created_at :: int
  sr_updated_at :: int

record service_create_request =
  sc_foundry :: "foundry_binding option"
  sc_access :: endpoint_access
  sc_name :: string
  sc_project_id :: "string option"
  sc_studio_service_id :: "string option"
  sc_route_pattern :: "string option"
  sc_upstream_base_url :: "string option"
  sc_health_check_path :: "string option"
  sc_health_check_method :: string
  sc_enabled :: bool
  sc_allowed_methods :: "string list"
  sc_credential :: "string option"
  sc_timeout_ms :: int
  sc_max_body_bytes :: int
  sc_cost_mode :: service_cost_mode
  sc_estimated_cost_usd :: "f64 option"
  sc_pricing_rules :: "service_pricing_rule list"
  sc_openapi_source_path :: "string option"
  sc_openapi_endpoints :: "openapi_endpoint list"
  sc_endpoint_pricing_rules :: "endpoint_pricing_rule list"
  sc_fallback_services :: "string list"

record service_patch_request =
  sp_foundry :: "foundry_binding option option"
  sp_access :: "endpoint_access option"
  sp_project_id :: "string option option"
  sp_studio_service_id :: "string option option"
  sp_route_pattern :: "string option"
  sp_upstream_base_url :: "string option option"
  sp_health_check_path :: "string option option"
  sp_health_check_method :: "string option"
  sp_enabled :: "bool option"
  sp_allowed_methods :: "string list option"
  sp_credential :: "string option option"
  sp_timeout_ms :: "int option"
  sp_max_body_bytes :: "int option"
  sp_cost_mode :: "service_cost_mode option"
  sp_estimated_cost_usd :: "f64 option option"
  sp_pricing_rules :: "service_pricing_rule list option"
  sp_openapi_source_path :: "string option option"
  sp_openapi_schema_hash :: "string option option"
  sp_openapi_synced_at :: "int option option"
  sp_openapi_endpoints :: "openapi_endpoint list option"
  sp_endpoint_pricing_rules :: "endpoint_pricing_rule list option"
  sp_fallback_services :: "string list option"
  sp_sync_status :: "service_sync_status option"
  sp_reprice_existing_usage :: bool

record studio_pricing =
  spr_cost_mode :: service_cost_mode
  spr_estimated_cost_usd :: "f64 option"
  spr_pricing_rules :: "service_pricing_rule list"

record studio_import_request =
  si_studio_service_id :: string
  si_name :: string
  si_project_id :: "string option"
  si_route_pattern :: "string option"
  si_upstream_base_url :: "string option"
  si_health_check_path :: "string option"
  si_health_check_method :: string
  si_allowed_methods :: "string list"
  si_category :: "string option"
  si_default_pricing :: "studio_pricing option"

record studio_catalog_service =
  cs_studio_service_id :: string
  cs_name :: "string option"
  cs_gateway_service_name :: "string option"
  cs_display_name :: "string option"
  cs_base_url :: "string option"
  cs_health_check_path :: "string option"
  cs_health_check_method :: "string option"
  cs_environment :: "string option"
  cs_tags :: "string list"
  cs_status :: "string option"
  cs_auth_mode :: "string option"
  cs_default_route_pattern :: "string option"
  cs_allowed_methods :: "string list option"
  cs_default_pricing :: "studio_pricing option"

record studio_import_preview =
  ip_studio_service_id :: string
  ip_name :: string
  ip_display_name :: "string option"
  ip_environment :: "string option"
  ip_status :: "string option"
  ip_base_url :: "string option"
  ip_tags :: "string list"
  ip_route_pattern :: string
  ip_import_request :: studio_import_request

record service_sync_status_response =
  ss_name :: string
  ss_source :: service_source
  ss_sync_status :: service_sync_status
  ss_last_synced_at :: "int option"
  ss_missing_runtime_fields :: "string list"

section \<open>Names, routes and templates\<close>

abbreviation name_char :: "char \<Rightarrow> bool" where
  "name_char c \<equiv> is_ascii_lowercase c \<or> is_ascii_digit c"

definition validate_service_name :: "string \<Rightarrow> unit gateway_result" where
  "validate_service_name name =
     (if name \<noteq> [] \<and> length name \<le> 64 \<and> list_all (\<lambda>c. name_char c \<or> c = CHR ''-'') name \<and>
         name_char (hd name) \<and> name_char (last name)
      then Ok () else Err InvalidServicePayload)"

definition default_route_pattern :: "string \<Rightarrow> string option" where
  "default_route_pattern name =
     (if name = ''summary'' then Some ''/summary''
      else if name = ''translation'' then Some ''/translation''
      else if name = ''ocr'' then Some ''/ocr''
      else if name = ''embeddings'' then Some ''/embeddings''
      else None)"

definition service_pattern :: "string option \<Rightarrow> string \<Rightarrow> string" where
  "service_pattern pattern name =
     (case pattern of
        Some p \<Rightarrow> p
      | None \<Rightarrow> (case default_route_pattern name of Some p \<Rightarrow> p | None \<Rightarrow> ''/services/'' @ name @ ''/*''))"

definition is_relayna_default_endpoint :: "string \<Rightarrow> bool" where
  "is_relayna_default_endpoint path_template =
     (path_template \<in> {''/health'', ''/history''} \<or>
      list_ex (\<lambda>prefix. path_template = prefix \<or>
          (case strip_prefix prefix path_template of Some suffix \<Rightarrow> starts_with suffix ''/'' | None \<Rightarrow> False))
        [''/events'', ''/status'', ''/dlq'', ''/broker/dlq'', ''/failed-tasks'', ''/relayna'', ''/executions''])"

abbreviation slash :: "char \<Rightarrow> bool" where
  "slash c \<equiv> c = CHR ''/''"

definition path_segments :: "string \<Rightarrow> string list" where
  "path_segments path = split_char (CHR ''/'') (trim_matches slash path)"

definition is_parameter :: "string \<Rightarrow> bool" where
  "is_parameter segment = (starts_with segment ''{'' \<and> ends_with segment ''}'')"

fun segments_match :: "string list \<Rightarrow> string list \<Rightarrow> bool" where
  "segments_match [] [] = True"
| "segments_match (t # ts) (a # as) =
     (if \<not> is_parameter t \<and> t \<noteq> a then False else segments_match ts as)"
| "segments_match _ _ = False"

definition endpoint_template_matches :: "string \<Rightarrow> string \<Rightarrow> bool" where
  "endpoint_template_matches path_template path =
     segments_match (path_segments path_template) (path_segments path)"

definition endpoint_template_specificity :: "string \<Rightarrow> nat \<times> nat" where
  "endpoint_template_specificity path =
     (length (filter (\<lambda>s. \<not> is_parameter s) (path_segments path)), length path)"

definition normalized_endpoint_template :: "string \<Rightarrow> string" where
  "normalized_endpoint_template path =
     join_with ''/'' (map (\<lambda>s. if is_parameter s then ''{}'' else s) (split_char (CHR ''/'') path))"

definition matching_openapi_endpoint :: "string \<Rightarrow> string \<Rightarrow> openapi_endpoint list \<Rightarrow> openapi_endpoint option" where
  "matching_openapi_endpoint meth path endpoints =
     max_by_key (\<lambda>e. endpoint_template_specificity (oe_path_template e))
       (filter (\<lambda>e. endpoint_template_matches (oe_path_template e) path)
         (filter (\<lambda>e. eq_ignore_ascii_case (oe_method e) meth) endpoints))"

definition service_wildcard_suffix :: "string \<Rightarrow> string \<Rightarrow> string option" where
  "service_wildcard_suffix path service_name =
     (case strip_prefix (''/services/'' @ service_name) path of
        None \<Rightarrow> None
      | Some suffix \<Rightarrow>
          if suffix = [] then Some ''/'' else if starts_with suffix ''/'' then Some suffix else None)"

definition route_pattern_wildcard_suffix :: "string \<Rightarrow> string \<Rightarrow> string option" where
  "route_pattern_wildcard_suffix path route_pattern =
     (case strip_suffix ''/*'' route_pattern of
        None \<Rightarrow> None
      | Some prefix \<Rightarrow>
          (case strip_prefix prefix path of
             None \<Rightarrow> None
           | Some suffix \<Rightarrow>
               if suffix = [] then Some ''/''
               else if starts_with suffix ''?'' then Some (CHR ''/'' # suffix)
               else if starts_with suffix ''/'' then Some suffix
               else None))"

text \<open>The loop of \<open>normalize_gateway_service_name\<close>, over the bytes of the lowercased value.\<close>

fun normalize_loop :: "string \<Rightarrow> bool \<Rightarrow> string \<Rightarrow> string" where
  "normalize_loop out previous_dash [] = out"
| "normalize_loop out previous_dash (c # cs) =
     (if name_char c then normalize_loop (out @ [c]) False cs
      else if \<not> previous_dash then normalize_loop (out @ ''-'') True cs
      else normalize_loop out previous_dash cs)"

definition normalize_gateway_service_name :: "service_env \<Rightarrow> string \<Rightarrow> string" where
  "normalize_gateway_service_name env v =
     take 64 (trim_matches (\<lambda>c. c = CHR ''-'') (normalize_loop [] False (lower env v)))"

section \<open>Validation\<close>

definition payload :: "bool \<Rightarrow> unit gateway_result" where
  "payload b = (if b then Ok () else Err InvalidServicePayload)"

definition validate_route_pattern :: "string \<Rightarrow> unit gateway_result" where
  "validate_route_pattern p = payload (starts_with p ''/'' \<and> \<not> contains_str p ''//'')"

definition validate_optional_upstream :: "service_env \<Rightarrow> string option \<Rightarrow> unit gateway_result" where
  "validate_optional_upstream env upstream =
     (case upstream of
        None \<Rightarrow> Ok ()
      | Some u \<Rightarrow>
          if u = [] then Ok ()
          else and_then (ok_or (parse_url env u) InvalidServiceUpstream) (\<lambda>url.
            if url_scheme url \<in> {''http'', ''https''} \<and> url_host_str url \<noteq> None then Ok ()
            else Err InvalidServiceUpstream))"

definition validate_optional_health_check_path :: "string option \<Rightarrow> unit gateway_result" where
  "validate_optional_health_check_path path =
     (case path of
        None \<Rightarrow> Ok ()
      | Some p \<Rightarrow> if trim p = [] then Ok () else payload (starts_with p ''/'' \<and> \<not> contains_str p ''//''))"

definition validate_openapi_source_path :: "string \<Rightarrow> unit gateway_result" where
  "validate_openapi_source_path path =
     payload (length path \<le> 512 \<and> starts_with path ''/'' \<and> \<not> starts_with path ''//'' \<and>
       \<not> contains_str path ''//'' \<and> set path \<inter> {CHR ''?'', CHR ''#'', CHR 0x5C} = {} \<and> \<not> contains_control path)"

definition braces :: "string \<Rightarrow> bool" where
  "braces s = list_ex (\<lambda>c. c = CHR ''{'' \<or> c = CHR ''}'') s"

definition segment_ok :: "string \<Rightarrow> bool" where
  "segment_ok s = (\<not> braces s \<or> is_parameter s \<and> 2 < length s \<and> \<not> braces (butlast (tl s)))"

definition validate_openapi_endpoint_path :: "string \<Rightarrow> unit gateway_result" where
  "validate_openapi_endpoint_path path =
     (if 512 < length path \<or> \<not> starts_with path ''/'' \<or> contains_str path ''//'' then Err InvalidServicePayload
      else try_each (\<lambda>s. payload (segment_ok s)) (path_segments path))"

definition validate_endpoint_method :: "string \<Rightarrow> unit gateway_result" where
  "validate_endpoint_method m =
     payload (m \<in> {''GET'', ''POST'', ''PUT'', ''PATCH'', ''DELETE'', ''HEAD'', ''OPTIONS''})"

definition validate_health_check_method :: "string \<Rightarrow> unit gateway_result" where
  "validate_health_check_method m = payload (m \<in> {''GET'', ''HEAD''})"

definition validate_service_methods :: "string list \<Rightarrow> unit gateway_result" where
  "validate_service_methods methods =
     (if methods = [] then Err InvalidServicePayload
      else try_each (\<lambda>m. payload (m \<in> {''GET'', ''POST'', ''PUT'', ''PATCH'', ''DELETE''})) methods)"

definition validate_runtime_limits :: "int \<Rightarrow> int \<Rightarrow> unit gateway_result" where
  "validate_runtime_limits timeout max_body_bytes =
     payload (1 \<le> timeout \<and> timeout \<le> 600000 \<and> 1 \<le> max_body_bytes \<and> max_body_bytes \<le> 104857600)"

definition validate_cost :: "service_env \<Rightarrow> service_cost_mode \<Rightarrow> f64 option \<Rightarrow> unit gateway_result" where
  "validate_cost env cost_mode estimated_cost_usd =
     (if (case estimated_cost_usd of
            Some cost \<Rightarrow>
              \<not> is_finite cost \<or> \<not> (f64_le (Fin 0) cost \<and> f64_lt cost (Fin 1000000000000)) \<or>
              (case split_once (CHR ''.'') (display env cost) of
                 Some (_, fraction) \<Rightarrow> 8 < length fraction | None \<Rightarrow> False)
          | None \<Rightarrow> False)
      then Err InvalidServicePayload
      else if cost_mode = FixedCost \<and> estimated_cost_usd = None then Err InvalidServicePayload
      else Ok ())"

definition validate_pricing_rule :: "service_env \<Rightarrow> service_pricing_rule \<Rightarrow> unit gateway_result" where
  "validate_pricing_rule env rule =
     and_then (if_some (pr_name rule) validate_service_name) (\<lambda>_.
     if \<not> starts_with (pr_json_pointer rule) ''/'' then Err InvalidServicePayload
     else if pr_equals rule = [] then Err InvalidServicePayload
     else validate_cost env (pr_cost_mode rule) (pr_estimated_cost_usd rule))"

definition validate_pricing_rules :: "service_env \<Rightarrow> service_pricing_rule list \<Rightarrow> unit gateway_result" where
  "validate_pricing_rules env rules =
     (if 50 < length rules then Err InvalidServicePayload else try_each (validate_pricing_rule env) rules)"

type_synonym endpoint_identity = "string \<times> string"

definition endpoint_identity :: "string \<Rightarrow> string \<Rightarrow> endpoint_identity" where
  "endpoint_identity meth path_template = (to_ascii_uppercase meth, normalized_endpoint_template path_template)"

text \<open>The loops over endpoints and endpoint prices keep the identities seen so far.\<close>

definition check_endpoint ::
  "endpoint_identity list \<Rightarrow> openapi_endpoint \<Rightarrow> endpoint_identity list gateway_result" where
  "check_endpoint seen e =
     and_then (validate_endpoint_method (oe_method e)) (\<lambda>_.
     and_then (validate_openapi_endpoint_path (oe_path_template e)) (\<lambda>_.
     if (case oe_operation_id e of Some v \<Rightarrow> 256 < length v | None \<Rightarrow> False) \<or>
        (case oe_summary e of Some v \<Rightarrow> 512 < length v | None \<Rightarrow> False)
     then Err InvalidServicePayload
     else let identity = endpoint_identity (oe_method e) (oe_path_template e)
          in if identity \<in> set seen then Err InvalidServicePayload else Ok (identity # seen)))"

definition validate_openapi_endpoints :: "openapi_endpoint list \<Rightarrow> unit gateway_result" where
  "validate_openapi_endpoints endpoints =
     (if 500 < length endpoints then Err InvalidServicePayload
      else and_then (try_fold check_endpoint [] endpoints) (\<lambda>_. Ok ()))"

definition check_endpoint_rule ::
  "service_env \<Rightarrow> endpoint_identity list \<Rightarrow> endpoint_pricing_rule \<Rightarrow> endpoint_identity list gateway_result" where
  "check_endpoint_rule env seen r =
     and_then (validate_endpoint_method (er_method r)) (\<lambda>_.
     and_then (validate_openapi_endpoint_path (er_path_template r)) (\<lambda>_.
     and_then (validate_cost env (er_cost_mode r) (er_estimated_cost_usd r)) (\<lambda>_.
     if (case er_operation_id r of Some v \<Rightarrow> 256 < length v | None \<Rightarrow> False) then Err InvalidServicePayload
     else let identity = endpoint_identity (er_method r) (er_path_template r)
          in if identity \<in> set seen then Err InvalidServicePayload else Ok (identity # seen))))"

definition validate_endpoint_pricing_rules :: "service_env \<Rightarrow> endpoint_pricing_rule list \<Rightarrow> unit gateway_result" where
  "validate_endpoint_pricing_rules env rules =
     (if 500 < length rules then Err InvalidServicePayload
      else and_then (try_fold (check_endpoint_rule env) [] rules) (\<lambda>_. Ok ()))"

definition validate_fallback_services :: "string list \<Rightarrow> unit gateway_result" where
  "validate_fallback_services services = try_each validate_service_name services"

definition validate_optional_secret :: "string option \<Rightarrow> unit gateway_result" where
  "validate_optional_secret secret = payload (\<not> (case secret of Some v \<Rightarrow> trim v = [] | None \<Rightarrow> False))"

definition validate_foundry_service ::
  "foundry_binding option \<Rightarrow> string \<Rightarrow> string list \<Rightarrow> string option \<Rightarrow> string option \<Rightarrow> string list
     \<Rightarrow> endpoint_access \<Rightarrow> unit gateway_result" where
  "validate_foundry_service binding pattern methods upstream credential fallbacks access =
     if_some binding (\<lambda>b.
       and_then (binding_validate b) (\<lambda>_.
       deny_if (\<not> ends_with pattern ''/*'' \<or> methods \<noteq> [''POST''] \<or> upstream \<noteq> None \<or> credential \<noteq> None \<or>
         fallbacks \<noteq> [] \<or> ea_accessa access \<noteq> None \<or> ea_websocket access \<noteq> None) InvalidFoundryConfiguration))"

definition create_validate :: "service_env \<Rightarrow> service_create_request \<Rightarrow> unit gateway_result" where
  "create_validate env r =
     (if sc_foundry r \<noteq> None \<and> sc_studio_service_id r \<noteq> None then Err InvalidFoundryConfiguration
      else
      and_then (validate_service_name (sc_name r)) (\<lambda>_.
      let pattern = service_pattern (sc_route_pattern r) (sc_name r) in
      and_then (validate_foundry_service (sc_foundry r) pattern (sc_allowed_methods r) (sc_upstream_base_url r)
        (sc_credential r) (sc_fallback_services r) (sc_access r)) (\<lambda>_.
      and_then (validate_route_pattern pattern) (\<lambda>_.
      and_then (endpoint_validate (header_name env) (lower env) (sc_access r) pattern) (\<lambda>_.
      and_then (validate_optional_upstream env (sc_upstream_base_url r)) (\<lambda>_.
      and_then (validate_optional_health_check_path (sc_health_check_path r)) (\<lambda>_.
      and_then (validate_health_check_method (sc_health_check_method r)) (\<lambda>_.
      and_then (validate_service_methods (sc_allowed_methods r)) (\<lambda>_.
      and_then (validate_runtime_limits (sc_timeout_ms r) (sc_max_body_bytes r)) (\<lambda>_.
      and_then (validate_cost env (sc_cost_mode r) (sc_estimated_cost_usd r)) (\<lambda>_.
      and_then (validate_pricing_rules env (sc_pricing_rules r)) (\<lambda>_.
      and_then (if_some (sc_openapi_source_path r) validate_openapi_source_path) (\<lambda>_.
      and_then (validate_openapi_endpoints (sc_openapi_endpoints r)) (\<lambda>_.
      and_then (validate_endpoint_pricing_rules env (sc_endpoint_pricing_rules r)) (\<lambda>_.
      and_then (validate_fallback_services (sc_fallback_services r)) (\<lambda>_.
      validate_optional_secret (sc_credential r)))))))))))))))))"

definition service_patch_validate :: "service_env \<Rightarrow> service_patch_request \<Rightarrow> unit gateway_result" where
  "service_patch_validate env p =
     (if sp_reprice_existing_usage p \<and> sp_cost_mode p = None \<and> sp_estimated_cost_usd p = None \<and>
         sp_pricing_rules p = None \<and> sp_endpoint_pricing_rules p = None
      then Err InvalidServicePayload
      else
      and_then (if_some (sp_route_pattern p) validate_route_pattern) (\<lambda>_.
      and_then (if_some (sp_upstream_base_url p) (validate_optional_upstream env)) (\<lambda>_.
      and_then (if_some (sp_health_check_path p) validate_optional_health_check_path) (\<lambda>_.
      and_then (if_some (sp_health_check_method p) validate_health_check_method) (\<lambda>_.
      and_then (if_some (sp_allowed_methods p) validate_service_methods) (\<lambda>_.
      and_then (if_some (sp_timeout_ms p) (\<lambda>t.
        validate_runtime_limits t (case sp_max_body_bytes p of Some m \<Rightarrow> m | None \<Rightarrow> 1))) (\<lambda>_.
      and_then (if_some (sp_max_body_bytes p) (\<lambda>m.
        validate_runtime_limits (case sp_timeout_ms p of Some t \<Rightarrow> t | None \<Rightarrow> 1) m)) (\<lambda>_.
      and_then (case sp_estimated_cost_usd p of
          Some (Some cost) \<Rightarrow>
            validate_cost env (case sp_cost_mode p of Some m \<Rightarrow> m | None \<Rightarrow> NoCost) (Some cost)
        | _ \<Rightarrow> Ok ()) (\<lambda>_.
      and_then (if_some (sp_pricing_rules p) (validate_pricing_rules env)) (\<lambda>_.
      and_then (if_some (sp_openapi_source_path p) (\<lambda>s. if_some s validate_openapi_source_path)) (\<lambda>_.
      and_then (if_some (sp_openapi_endpoints p) validate_openapi_endpoints) (\<lambda>_.
      and_then (if_some (sp_endpoint_pricing_rules p) (validate_endpoint_pricing_rules env)) (\<lambda>_.
      and_then (if_some (sp_fallback_services p) validate_fallback_services) (\<lambda>_.
      if_some (sp_credential p) validate_optional_secret))))))))))))))"

definition pricing_validate :: "service_env \<Rightarrow> studio_pricing \<Rightarrow> unit gateway_result" where
  "pricing_validate env p =
     and_then (validate_cost env (spr_cost_mode p) (spr_estimated_cost_usd p)) (\<lambda>_.
       validate_pricing_rules env (spr_pricing_rules p))"

definition import_validate :: "service_env \<Rightarrow> studio_import_request \<Rightarrow> unit gateway_result" where
  "import_validate env r =
     and_then (validate_service_name (si_name r)) (\<lambda>_.
     if trim (si_studio_service_id r) = [] then Err InvalidServicePayload
     else
     and_then (if_some (si_route_pattern r) validate_route_pattern) (\<lambda>_.
     and_then (validate_optional_upstream env (si_upstream_base_url r)) (\<lambda>_.
     and_then (validate_optional_health_check_path (si_health_check_path r)) (\<lambda>_.
     and_then (validate_health_check_method (si_health_check_method r)) (\<lambda>_.
     and_then (validate_service_methods (si_allowed_methods r)) (\<lambda>_.
     if_some (si_default_pricing r) (pricing_validate env)))))))"

section \<open>Studio catalog\<close>

definition gateway_name :: "service_env \<Rightarrow> studio_catalog_service \<Rightarrow> string gateway_result" where
  "gateway_name env c =
     (let candidates = (case cs_gateway_service_name c of Some n \<Rightarrow> [n] | None \<Rightarrow> []) @
            (case cs_name c of Some n \<Rightarrow> [n] | None \<Rightarrow> []) @ [cs_studio_service_id c]
      in case find (\<lambda>n. validate_service_name n = Ok ()) (map (normalize_gateway_service_name env) candidates) of
           Some n \<Rightarrow> Ok n
         | None \<Rightarrow> Err InvalidServicePayload)"

definition into_preview :: "service_env \<Rightarrow> studio_catalog_service \<Rightarrow> studio_import_preview gateway_result" where
  "into_preview env c =
     and_then (gateway_name env c) (\<lambda>name.
     let pattern = service_pattern (cs_default_route_pattern c) name;
         methods = (case cs_allowed_methods c of Some ms \<Rightarrow> if ms = [] then [''POST''] else ms | None \<Rightarrow> [''POST'']);
         import_request =
           \<lparr>si_studio_service_id = cs_studio_service_id c, si_name = name, si_project_id = None,
            si_route_pattern = Some pattern, si_upstream_base_url = cs_base_url c,
            si_health_check_path = cs_health_check_path c,
            si_health_check_method = (case cs_health_check_method c of Some m \<Rightarrow> m | None \<Rightarrow> ''GET''),
            si_allowed_methods = methods, si_category = cs_environment c,
            si_default_pricing = cs_default_pricing c\<rparr>
     in
     and_then (validate_route_pattern pattern) (\<lambda>_.
     and_then (validate_optional_upstream env (cs_base_url c)) (\<lambda>_.
     and_then (validate_optional_health_check_path (cs_health_check_path c)) (\<lambda>_.
     and_then (if_some (cs_health_check_method c) validate_health_check_method) (\<lambda>_.
     and_then (validate_service_methods methods) (\<lambda>_.
     and_then (if_some (cs_default_pricing c) (pricing_validate env)) (\<lambda>_.
     and_then (import_validate env import_request) (\<lambda>_.
     Ok \<lparr>ip_studio_service_id = cs_studio_service_id c, ip_name = name, ip_display_name = cs_display_name c,
         ip_environment = cs_environment c, ip_status = cs_status c, ip_base_url = cs_base_url c,
         ip_tags = cs_tags c, ip_route_pattern = pattern, ip_import_request = import_request\<rparr>))))))))"

section \<open>Registrations\<close>

definition validate_foundry :: "service_registration \<Rightarrow> unit gateway_result" where
  "validate_foundry s =
     (if sr_foundry s \<noteq> None \<and> sr_studio_service_id s \<noteq> None then Err InvalidFoundryConfiguration
      else validate_foundry_service (sr_foundry s) (sr_route_pattern s) (sr_allowed_methods s)
        (sr_upstream_base_url s) (sr_credential_secret s) (sr_fallback_services s) (sr_access s))"

definition missing :: "string option \<Rightarrow> bool" where
  "missing v = (case v of None \<Rightarrow> True | Some s \<Rightarrow> s = [])"

definition missing_runtime_fields :: "service_registration \<Rightarrow> string list" where
  "missing_runtime_fields s =
     (if sr_foundry s \<noteq> None then []
      else (if missing (sr_upstream_base_url s) then [''upstream_base_url''] else []) @
           (if missing (sr_credential_secret s) then [''credential''] else []))"

definition ensure_routable :: "service_env \<Rightarrow> service_registration \<Rightarrow> unit gateway_result" where
  "ensure_routable env s =
     (if \<not> sr_enabled s then Err DisabledService
      else if missing_runtime_fields s \<noteq> [] then Err IncompleteService
      else and_then (validate_optional_upstream env (sr_upstream_base_url s)) (\<lambda>_. validate_foundry s))"

definition registration_validate_openapi :: "service_env \<Rightarrow> service_registration \<Rightarrow> unit gateway_result" where
  "registration_validate_openapi env s =
     and_then (if_some (sr_openapi_source_path s) validate_openapi_source_path) (\<lambda>_.
     and_then (validate_openapi_endpoints (sr_openapi_endpoints s)) (\<lambda>_.
     validate_endpoint_pricing_rules env (sr_endpoint_pricing_rules s)))"

definition sync_status_response :: "service_registration \<Rightarrow> service_sync_status_response" where
  "sync_status_response s =
     \<lparr>ss_name = sr_name s, ss_source = sr_source s, ss_sync_status = sr_sync_status s,
      ss_last_synced_at = sr_last_synced_at s, ss_missing_runtime_fields = missing_runtime_fields s\<rparr>"

end
