(* ===== verification/Service_Pricing.thy ===== *)
theory Service_Pricing
  imports Services
begin

text \<open>
  Service pricing (\<open>gateway-core/src/services.rs\<close>): the price of a request by its body and by its
  endpoint, the estimate taken before the body is known, the merge of imported endpoints with existing
  prices, and the repricing of recorded usage.
\<close>

record resolved_service_cost =
  rc_pricing_rule_fingerprint :: "string option"
  rc_cost_mode :: service_cost_mode
  rc_estimated_cost_usd :: "f64 option"
  rc_pricing_rule_name :: "string option"

definition default_service_cost :: "service_cost_mode \<Rightarrow> f64 option \<Rightarrow> resolved_service_cost" where
  "default_service_cost cost_mode estimated_cost_usd =
     \<lparr>rc_pricing_rule_fingerprint = None, rc_cost_mode = cost_mode, rc_estimated_cost_usd = estimated_cost_usd,
      rc_pricing_rule_name = None\<rparr>"

definition endpoint_pricing_rule_name :: "endpoint_pricing_rule \<Rightarrow> string" where
  "endpoint_pricing_rule_name rule =
     (case er_operation_id rule of
        Some n \<Rightarrow> n
      | None \<Rightarrow> to_ascii_uppercase (er_method rule) @ CHR '' '' # er_path_template rule)"

definition pricing_fingerprint :: "service_env \<Rightarrow> string \<Rightarrow> json \<Rightarrow> string" where
  "pricing_fingerprint env kind selector = ''v1:'' @ kind @ CHR '':'' # digest env selector"

definition body_pricing_fingerprint :: "service_env \<Rightarrow> service_pricing_rule \<Rightarrow> string" where
  "body_pricing_fingerprint env rule =
     pricing_fingerprint env ''body''
       (JArray [case pr_name rule of Some n \<Rightarrow> JString n | None \<Rightarrow> JNull,
                JString (pr_json_pointer rule), JString (pr_equals rule)])"

definition endpoint_pricing_fingerprint :: "service_env \<Rightarrow> endpoint_pricing_rule \<Rightarrow> string" where
  "endpoint_pricing_fingerprint env rule =
     pricing_fingerprint env ''endpoint''
       (JArray [JString (endpoint_pricing_rule_name rule), JString (to_ascii_uppercase (er_method rule)),
                JString (er_path_template rule)])"

definition rule_cost :: "service_env \<Rightarrow> service_pricing_rule \<Rightarrow> resolved_service_cost" where
  "rule_cost env rule =
     \<lparr>rc_pricing_rule_fingerprint = Some (body_pricing_fingerprint env rule), rc_cost_mode = pr_cost_mode rule,
      rc_estimated_cost_usd = pr_estimated_cost_usd rule, rc_pricing_rule_name = pr_name rule\<rparr>"

definition endpoint_rule_applies :: "string \<Rightarrow> string \<Rightarrow> endpoint_pricing_rule \<Rightarrow> bool" where
  "endpoint_rule_applies meth path rule =
     (eq_ignore_ascii_case (er_method rule) meth \<and> endpoint_template_matches (er_path_template rule) path)"

definition resolve_endpoint_pricing_rule ::
  "service_env \<Rightarrow> string \<Rightarrow> string \<Rightarrow> endpoint_pricing_rule list \<Rightarrow> resolved_service_cost option" where
  "resolve_endpoint_pricing_rule env meth path rules =
     map_option (\<lambda>rule.
         \<lparr>rc_pricing_rule_fingerprint = Some (endpoint_pricing_fingerprint env rule),
          rc_cost_mode = er_cost_mode rule, rc_estimated_cost_usd = er_estimated_cost_usd rule,
          rc_pricing_rule_name = Some (endpoint_pricing_rule_name rule)\<rparr>)
       (max_by_key (\<lambda>rule. endpoint_template_specificity (er_path_template rule))
         (filter (endpoint_rule_applies meth path) rules))"

definition same_endpoint :: "endpoint_pricing_rule \<Rightarrow> openapi_endpoint \<Rightarrow> bool" where
  "same_endpoint rule e =
     (eq_ignore_ascii_case (er_method rule) (oe_method e) \<and>
      normalized_endpoint_template (er_path_template rule) = normalized_endpoint_template (oe_path_template e))"

definition rule_for_endpoint ::
  "endpoint_pricing_rule list \<Rightarrow> service_cost_mode \<Rightarrow> f64 option \<Rightarrow> openapi_endpoint \<Rightarrow> endpoint_pricing_rule" where
  "rule_for_endpoint existing default_mode default_cost e =
     (case find (\<lambda>rule. same_endpoint rule e) existing of
        Some rule \<Rightarrow> rule\<lparr>er_path_template := oe_path_template e, er_operation_id := oe_operation_id e\<rparr>
      | None \<Rightarrow>
          \<lparr>er_method = oe_method e, er_path_template = oe_path_template e, er_operation_id = oe_operation_id e,
           er_cost_mode = (if oe_relayna_default e then NoCost else default_mode),
           er_estimated_cost_usd = (if oe_relayna_default e then None else default_cost)\<rparr>)"

definition merge_endpoint_pricing_rules ::
  "openapi_endpoint list \<Rightarrow> endpoint_pricing_rule list \<Rightarrow> service_cost_mode \<Rightarrow> f64 option
     \<Rightarrow> endpoint_pricing_rule list" where
  "merge_endpoint_pricing_rules endpoints existing default_mode default_cost =
     map (rule_for_endpoint existing default_mode default_cost) endpoints @
     filter (\<lambda>rule. \<not> list_ex (same_endpoint rule) endpoints) existing"

definition matching_service_pricing_rule ::
  "service_env \<Rightarrow> json \<Rightarrow> service_pricing_rule list \<Rightarrow> service_pricing_rule option" where
  "matching_service_pricing_rule env v rules =
     find (\<lambda>rule. case Option.bind (pointer env v (pr_json_pointer rule)) as_str of
                    Some actual \<Rightarrow> actual = pr_equals rule | None \<Rightarrow> False) rules"

definition resolve_service_cost_from_value ::
  "service_env \<Rightarrow> json \<Rightarrow> service_cost_mode \<Rightarrow> f64 option \<Rightarrow> service_pricing_rule list \<Rightarrow> resolved_service_cost" where
  "resolve_service_cost_from_value env v default_mode default_cost rules =
     (case matching_service_pricing_rule env v rules of
        Some rule \<Rightarrow> rule_cost env rule
      | None \<Rightarrow> default_service_cost default_mode default_cost)"

definition resolve_service_cost ::
  "service_env \<Rightarrow> (string \<Rightarrow> json option) \<Rightarrow> string \<Rightarrow> service_cost_mode \<Rightarrow> f64 option \<Rightarrow> service_pricing_rule list
     \<Rightarrow> resolved_service_cost" where
  "resolve_service_cost env from_slice body default_mode default_cost rules =
     (case from_slice body of
        Some v \<Rightarrow> resolve_service_cost_from_value env v default_mode default_cost rules
      | None \<Rightarrow> default_service_cost default_mode default_cost)"

definition fixed_costs :: "service_pricing_rule list \<Rightarrow> f64 list" where
  "fixed_costs rules =
     List.map_filter pr_estimated_cost_usd (filter (\<lambda>rule. pr_cost_mode rule = FixedCost) rules)"

definition service_preflight_estimated_cost ::
  "service_cost_mode \<Rightarrow> f64 option \<Rightarrow> service_pricing_rule list \<Rightarrow> f64 option" where
  "service_preflight_estimated_cost default_mode default_cost rules =
     foldl (\<lambda>highest cost. Some (case highest of Some current \<Rightarrow> f64_max current cost | None \<Rightarrow> cost))
       (if default_mode = FixedCost then default_cost else None) (fixed_costs rules)"

section \<open>Repricing\<close>

definition named_rules :: "string \<Rightarrow> service_registration \<Rightarrow> service_pricing_rule list" where
  "named_rules name s = filter (\<lambda>rule. pr_name rule = Some name) (sr_pricing_rules s)"

definition final_cost :: "resolved_service_cost \<Rightarrow> resolved_service_cost option" where
  "final_cost resolved =
     (case rc_cost_mode resolved of
        PassthroughCost \<Rightarrow> None
      | FixedCost \<Rightarrow>
          (case rc_estimated_cost_usd resolved of
             Some cost \<Rightarrow> if is_finite cost \<and> f64_le (Fin 0) cost then Some resolved else None
           | None \<Rightarrow> None)
      | NoCost \<Rightarrow> Some (resolved\<lparr>rc_estimated_cost_usd := None\<rparr>))"

text \<open>The attribution of a named rule: a body rule or an endpoint rule of the old configuration.\<close>

definition reprice_named ::
  "service_env \<Rightarrow> service_registration \<Rightarrow> service_registration \<Rightarrow> string \<Rightarrow> string option
     \<Rightarrow> resolved_service_cost option \<Rightarrow> resolved_service_cost option \<Rightarrow> resolved_service_cost
     \<Rightarrow> resolved_service_cost option" where
  "reprice_named env before after name fingerprint old_endpoint new_endpoint base =
     (let from_endpoint = (case old_endpoint of Some r \<Rightarrow> rc_pricing_rule_name r = Some name | None \<Rightarrow> False)
      in case named_rules name before of
           old_body # others \<Rightarrow>
             if others \<noteq> [] \<or> from_endpoint then None
             else if fingerprint \<noteq> Some (body_pricing_fingerprint env old_body) then None
             else (case named_rules name after of
                     [] \<Rightarrow> None
                   | new_body # rest \<Rightarrow>
                       if rest \<noteq> [] \<or> pr_json_pointer old_body \<noteq> pr_json_pointer new_body \<or>
                          pr_equals old_body \<noteq> pr_equals new_body
                       then None
                       else if rc_cost_mode base = NoCost \<and> new_endpoint \<noteq> None then Some base
                       else Some (rule_cost env new_body))
         | [] \<Rightarrow>
             if from_endpoint \<and> fingerprint \<noteq> None \<and>
                fingerprint = Option.bind old_endpoint rc_pricing_rule_fingerprint
             then Some base else None)"

definition recorded_attribution ::
  "service_env \<Rightarrow> service_registration \<Rightarrow> service_registration \<Rightarrow> string option \<Rightarrow> string option
     \<Rightarrow> resolved_service_cost option \<Rightarrow> resolved_service_cost option \<Rightarrow> resolved_service_cost option" where
  "recorded_attribution env before after rule_name fingerprint old_endpoint new_endpoint =
     (let base = (case new_endpoint of Some c \<Rightarrow> c
                  | None \<Rightarrow> default_service_cost (sr_cost_mode after) (sr_estimated_cost_usd after))
      in case rule_name of
           Some name \<Rightarrow> reprice_named env before after name fingerprint old_endpoint new_endpoint base
         | None \<Rightarrow>
             if fingerprint \<noteq> None \<or> list_ex (\<lambda>rule. pr_name rule = None) (sr_pricing_rules before) \<or>
                old_endpoint \<noteq> None
             then None else Some base)"

definition reprice_recorded_service_cost ::
  "service_env \<Rightarrow> service_registration \<Rightarrow> service_registration \<Rightarrow> string option \<Rightarrow> string option \<Rightarrow> string option
     \<Rightarrow> string option \<Rightarrow> string option \<Rightarrow> resolved_service_cost option" where
  "reprice_recorded_service_cost env before after cost_source rule_name meth endpoint_path fingerprint =
     (if ea_accessa (sr_access before) \<noteq> None \<or>
         cost_source \<notin> {Some ''service_default_fixed'', Some ''service_pricing_rule_fixed'', Some ''none''}
      then None
      else
      let endpoint_context = (case (meth, endpoint_path) of
            (Some m, Some path) \<Rightarrow> if method_token env m then Some (m, path) else None
          | _ \<Rightarrow> None)
      in if endpoint_context = None \<and>
            (sr_endpoint_pricing_rules before \<noteq> [] \<or> sr_endpoint_pricing_rules after \<noteq> [])
         then None
         else
         let old_endpoint = Option.bind endpoint_context (\<lambda>(m, path).
               resolve_endpoint_pricing_rule env m path (sr_endpoint_pricing_rules before));
             new_endpoint = Option.bind endpoint_context (\<lambda>(m, path).
               resolve_endpoint_pricing_rule env m path (sr_endpoint_pricing_rules after))
         in Option.bind (recorded_attribution env before after rule_name fingerprint old_endpoint new_endpoint)
              final_cost)"

section \<open>Laws\<close>

lemma byte_char_of: "m < 256 \<Longrightarrow> byte (char_of m) = m"
  by (simp add: byte_def)

lemma char_of_byte: "char_of (byte c) = c"
  by (simp add: byte_def)

lemma upper_lower_char: "to_ascii_upper (to_ascii_lower c) = to_ascii_upper c"
proof (cases "is_ascii_uppercase c")
  case True
  then have "byte c + 32 < 256" "\<not> is_ascii_lowercase c"
    by (simp_all add: is_ascii_uppercase_def is_ascii_lowercase_def)
  with True show ?thesis
    by (simp add: to_ascii_lower_def to_ascii_upper_def is_ascii_lowercase_def is_ascii_uppercase_def
        byte_char_of char_of_byte)
qed (simp add: to_ascii_lower_def)

lemma lower_upper_char: "to_ascii_lower (to_ascii_upper c) = to_ascii_lower c"
proof (cases "is_ascii_lowercase c")
  case True
  then have "byte c - 32 < 256" "\<not> is_ascii_uppercase c" "65 \<le> byte c - 32" "byte c - 32 \<le> 90"
    "byte c - 32 + 32 = byte c"
    by (auto simp: is_ascii_uppercase_def is_ascii_lowercase_def)
  with True show ?thesis
    by (simp add: to_ascii_lower_def to_ascii_upper_def is_ascii_lowercase_def is_ascii_uppercase_def
        byte_char_of char_of_byte)
qed (simp add: to_ascii_upper_def)

lemma eq_ignore_ascii_case_upper:
  "eq_ignore_ascii_case a b \<longleftrightarrow> to_ascii_uppercase a = to_ascii_uppercase b"
proof
  assume "eq_ignore_ascii_case a b"
  then have "map to_ascii_upper (map to_ascii_lower a) = map to_ascii_upper (map to_ascii_lower b)"
    by (simp add: eq_ignore_ascii_case_def to_ascii_lowercase_def)
  then show "to_ascii_uppercase a = to_ascii_uppercase b"
    by (simp add: to_ascii_uppercase_def comp_def upper_lower_char)
next
  assume "to_ascii_uppercase a = to_ascii_uppercase b"
  then have "map to_ascii_lower (map to_ascii_upper a) = map to_ascii_lower (map to_ascii_upper b)"
    by (simp add: to_ascii_uppercase_def)
  then show "eq_ignore_ascii_case a b"
    by (simp add: eq_ignore_ascii_case_def to_ascii_lowercase_def comp_def lower_upper_char)
qed

definition rule_identity :: "endpoint_pricing_rule \<Rightarrow> endpoint_identity" where
  "rule_identity r = endpoint_identity (er_method r) (er_path_template r)"

definition oe_identity :: "openapi_endpoint \<Rightarrow> endpoint_identity" where
  "oe_identity e = endpoint_identity (oe_method e) (oe_path_template e)"

lemma same_endpoint_identity: "same_endpoint rule e \<longleftrightarrow> rule_identity rule = oe_identity e"
  by (simp add: same_endpoint_def rule_identity_def oe_identity_def endpoint_identity_def eq_ignore_ascii_case_upper)

lemma rule_for_endpoint_identity: "rule_identity (rule_for_endpoint existing m c e) = oe_identity e"
proof (cases "find (\<lambda>rule. same_endpoint rule e) existing")
  case None
  then show ?thesis by (simp add: rule_for_endpoint_def rule_identity_def oe_identity_def)
next
  case (Some rule)
  then have "same_endpoint rule e" by (auto simp: find_Some_iff)
  with Some show ?thesis
    by (simp add: rule_for_endpoint_def same_endpoint_identity) (simp add: rule_identity_def oe_identity_def endpoint_identity_def)
qed

lemma endpoint_loop:
  "try_fold check_endpoint seen es = Ok seen' \<Longrightarrow> distinct seen \<Longrightarrow> distinct (rev (map oe_identity es) @ seen)"
proof (induction es arbitrary: seen)
  case (Cons e es)
  then obtain s1 where s: "check_endpoint seen e = Ok s1" "try_fold check_endpoint s1 es = Ok seen'" by auto
  then have "s1 = oe_identity e # seen" "oe_identity e \<notin> set seen"
    by (auto simp: check_endpoint_def oe_identity_def Let_def split: if_splits)
  with Cons.IH [OF s(2)] Cons.prems(2) show ?case by simp
qed simp

lemma endpoint_rule_loop:
  "try_fold (check_endpoint_rule env) seen rs = Ok seen' \<Longrightarrow> distinct seen \<Longrightarrow>
   distinct (rev (map rule_identity rs) @ seen)"
proof (induction rs arbitrary: seen)
  case (Cons r rs)
  then obtain s1 where s: "check_endpoint_rule env seen r = Ok s1" "try_fold (check_endpoint_rule env) s1 rs = Ok seen'"
    by auto
  then have "s1 = rule_identity r # seen" "rule_identity r \<notin> set seen"
    by (auto simp: check_endpoint_rule_def rule_identity_def Let_def split: if_splits)
  with Cons.IH [OF s(2)] Cons.prems(2) show ?case by simp
qed simp

lemma validated_endpoints_distinct: "validate_openapi_endpoints es = Ok () \<Longrightarrow> distinct (map oe_identity es)"
  using endpoint_loop [of "[]" es] by (auto simp: validate_openapi_endpoints_def split: if_splits)

lemma validated_rules_distinct: "validate_endpoint_pricing_rules env rs = Ok () \<Longrightarrow> distinct (map rule_identity rs)"
  using endpoint_rule_loop [of env "[]" rs] by (auto simp: validate_endpoint_pricing_rules_def split: if_splits)

lemma find_unique:
  "distinct (map f xs) \<Longrightarrow> x \<in> set xs \<Longrightarrow> find (\<lambda>y. f y = f x) xs = Some x"
  by (induction xs) (auto simp: image_iff)

lemma map_filter_mem: "y \<in> set (List.map_filter f xs) \<longleftrightarrow> (\<exists>x \<in> set xs. f x = Some y)"
  by (force simp: List.map_filter_def)

lemma f64_le_max:
  "a \<noteq> NaN \<Longrightarrow> b \<noteq> NaN \<Longrightarrow> f64_max a b \<noteq> NaN \<and> f64_le a (f64_max a b) \<and> f64_le b (f64_max a b)"
  using f64_max_ge [of a b] by (auto simp: f64_max_def split: if_splits)

lemma preflight_fold:
  assumes "NaN \<notin> set cs" and "d \<noteq> Some NaN"
  shows "case foldl (\<lambda>h c. Some (case h of Some current \<Rightarrow> f64_max current c | None \<Rightarrow> c)) d cs of
      Some p \<Rightarrow> p \<noteq> NaN \<and> (\<forall>c \<in> set cs. f64_le c p) \<and> (\<forall>x. d = Some x \<longrightarrow> f64_le x p)
    | None \<Rightarrow> d = None \<and> cs = []"
  using assms
proof (induction cs arbitrary: d)
  case Nil
  then show ?case by (cases d) auto
next
  case (Cons c cs)
  let ?d = "Some (case d of Some current \<Rightarrow> f64_max current c | None \<Rightarrow> c)"
  obtain m where m: "?d = Some m" "m \<noteq> NaN" "f64_le c m" "\<forall>x. d = Some x \<longrightarrow> f64_le x m"
    using Cons.prems f64_le_max [of _ c] by (cases d) auto
  have "?d \<noteq> Some NaN" using m by simp
  from Cons.IH [OF _ this] Cons.prems(1) show ?case
    using f64_le_trans [OF m(3)] m(4) f64_le_trans by (auto simp: m(1) split: option.splits)
qed

lemma if_SomeE:
  assumes "(if b then None else r) = Some y"
  obtains "\<not> b" "r = Some y"
  using assms by (cases b) simp_all

lemma preflight_covers:
  assumes "\<forall>rule \<in> set rules. pr_estimated_cost_usd rule \<noteq> Some NaN" and "default_cost \<noteq> Some NaN"
    and "cost \<in> set (fixed_costs rules) \<or> mode = FixedCost \<and> default_cost = Some cost"
  shows "\<exists>p. service_preflight_estimated_cost mode default_cost rules = Some p \<and> f64_le cost p"
proof -
  have "NaN \<notin> set (fixed_costs rules)"
    using assms(1) by (auto simp: fixed_costs_def map_filter_mem)
  then show ?thesis
    using preflight_fold [of "fixed_costs rules" "if mode = FixedCost then default_cost else None"] assms(2,3)
    unfolding service_preflight_estimated_cost_def by (auto split: option.splits if_splits)
qed

lemma resolved_fixed_cost:
  assumes "rc_cost_mode (resolve_service_cost_from_value env v mode default_cost rules) = FixedCost"
    and "rc_estimated_cost_usd (resolve_service_cost_from_value env v mode default_cost rules) = Some cost"
  shows "cost \<in> set (fixed_costs rules) \<or> mode = FixedCost \<and> default_cost = Some cost"
  using assms
  by (auto simp: resolve_service_cost_from_value_def default_service_cost_def
    rule_cost_def matching_service_pricing_rule_def fixed_costs_def map_filter_mem find_Some_iff split: option.splits)

section \<open>Properties\<close>

text \<open>
  The estimate used before a body is read is an upper bound: whatever body is sent, a
  fixed price that the service's rules or its default resolve to is at most the preflight estimate, and
  there is an estimate. Configured prices are numbers, as their validation demands.
\<close>

theorem preflight_bounds_cost:
  assumes "\<forall>rule \<in> set rules. pr_estimated_cost_usd rule \<noteq> Some NaN" and "default_cost \<noteq> Some NaN"
    and "rc_cost_mode (resolve_service_cost env from_slice body mode default_cost rules) = FixedCost"
    and "rc_estimated_cost_usd (resolve_service_cost env from_slice body mode default_cost rules) = Some cost"
  shows "\<exists>p. service_preflight_estimated_cost mode default_cost rules = Some p \<and> f64_le cost p"
proof -
  have "cost \<in> set (fixed_costs rules) \<or> mode = FixedCost \<and> default_cost = Some cost"
    using assms(3,4) resolved_fixed_cost [of env _ mode default_cost rules cost]
    by (auto simp: resolve_service_cost_def default_service_cost_def split: option.splits)
  then show ?thesis by (rule preflight_covers [OF assms(1,2)])
qed

definition sample_env :: service_env where
  "sample_env =
     \<lparr>parse_url = (\<lambda>_. None), header_name = (\<lambda>_. True), lower = (\<lambda>s. s), display = (\<lambda>_. ''1''),
      digest = (\<lambda>_. ''d''), pointer = (\<lambda>v p. json_get v (tl p)), method_token = (\<lambda>_. True)\<rparr>"

definition sample_rule :: service_pricing_rule where
  "sample_rule = \<lparr>pr_name = Some ''big'', pr_json_pointer = ''/size'', pr_equals = ''xl'',
     pr_cost_mode = FixedCost, pr_estimated_cost_usd = Some (Fin 5)\<rparr>"

theorem preflight_bounds_cost_witness:
  "rc_estimated_cost_usd (resolve_service_cost sample_env (\<lambda>b. Some (JObject [(''size'', JString ''xl'')])) []
     FixedCost (Some (Fin 2)) [sample_rule]) = Some (Fin 5) \<and>
   (\<exists>p. service_preflight_estimated_cost FixedCost (Some (Fin 2)) [sample_rule] = Some p \<and> f64_le (Fin 5) p)"
proof -
  let ?c = "resolve_service_cost sample_env (\<lambda>b. Some (JObject [(''size'', JString ''xl'')])) [] FixedCost
    (Some (Fin 2)) [sample_rule]"
  have c: "rc_cost_mode ?c = FixedCost" "rc_estimated_cost_usd ?c = Some (Fin 5)"
    by (simp_all add: resolve_service_cost_def resolve_service_cost_from_value_def rule_cost_def
        matching_service_pricing_rule_def sample_env_def sample_rule_def json_get_def bt_get_def)
  from preflight_bounds_cost [OF _ _ c] c(2) show ?thesis by (simp add: sample_rule_def)
qed

text \<open>
  The price of an endpoint comes from a rule for its method whose template matches the
  path and that is at least as specific as every other such rule; there is none exactly when no rule
  applies.
\<close>

theorem endpoint_price_most_specific:
  "(resolve_endpoint_pricing_rule env meth path rules = None \<longleftrightarrow>
      (\<forall>rule \<in> set rules. \<not> endpoint_rule_applies meth path rule)) \<and>
   (\<forall>c. resolve_endpoint_pricing_rule env meth path rules = Some c \<longrightarrow>
      (\<exists>rule \<in> set rules. endpoint_rule_applies meth path rule \<and>
         rc_cost_mode c = er_cost_mode rule \<and> rc_estimated_cost_usd c = er_estimated_cost_usd rule \<and>
         rc_pricing_rule_name c = Some (endpoint_pricing_rule_name rule) \<and>
         (\<forall>r \<in> set rules. endpoint_rule_applies meth path r \<longrightarrow>
            endpoint_template_specificity (er_path_template r)
              \<le> endpoint_template_specificity (er_path_template rule))))"
proof (intro conjI allI impI)
  show "resolve_endpoint_pricing_rule env meth path rules = None \<longleftrightarrow>
      (\<forall>rule \<in> set rules. \<not> endpoint_rule_applies meth path rule)"
    by (simp add: resolve_endpoint_pricing_rule_def filter_empty_conv)
next
  fix c assume c: "resolve_endpoint_pricing_rule env meth path rules = Some c"
  let ?key = "\<lambda>rule. endpoint_template_specificity (er_path_template rule)"
  from c obtain rule where r: "max_by_key ?key (filter (endpoint_rule_applies meth path) rules) = Some rule"
    and cost: "rc_cost_mode c = er_cost_mode rule" "rc_estimated_cost_usd c = er_estimated_cost_usd rule"
      "rc_pricing_rule_name c = Some (endpoint_pricing_rule_name rule)"
    by (auto simp: resolve_endpoint_pricing_rule_def)
  have "\<forall>r \<in> set rules. endpoint_rule_applies meth path r \<longrightarrow> ?key r \<le> ?key rule"
    using max_by_key_greatest [OF r] by simp
  with max_by_key_mem [OF r] cost show "\<exists>rule \<in> set rules. endpoint_rule_applies meth path rule \<and>
         rc_cost_mode c = er_cost_mode rule \<and> rc_estimated_cost_usd c = er_estimated_cost_usd rule \<and>
         rc_pricing_rule_name c = Some (endpoint_pricing_rule_name rule) \<and>
         (\<forall>r \<in> set rules. endpoint_rule_applies meth path r \<longrightarrow> ?key r \<le> ?key rule)"
    by auto
qed

theorem endpoint_price_most_specific_witness:
  "resolve_endpoint_pricing_rule sample_env ''GET'' ''/a'' [] = None"
  using endpoint_price_most_specific [of sample_env "''GET''" "''/a''" "[]"] by simp

text \<open>
  Importing OpenAPI endpoints keeps the prices an operator set: with validated endpoints
  and prices the merged list still has one price per endpoint, every imported endpoint has one, every
  existing price survives with its cost, and only prices of new endpoints are defaults.
\<close>

theorem merge_keeps_prices:
  assumes "validate_openapi_endpoints es = Ok ()" and "validate_endpoint_pricing_rules env rs = Ok ()"
  shows "distinct (map rule_identity (merge_endpoint_pricing_rules es rs mode cost)) \<and>
    oe_identity ` set es \<subseteq> rule_identity ` set (merge_endpoint_pricing_rules es rs mode cost) \<and>
    (\<forall>r \<in> set rs. \<exists>m \<in> set (merge_endpoint_pricing_rules es rs mode cost).
       rule_identity m = rule_identity r \<and> er_cost_mode m = er_cost_mode r \<and>
       er_estimated_cost_usd m = er_estimated_cost_usd r) \<and>
    length (merge_endpoint_pricing_rules es rs mode cost) \<le> length es + length rs"
proof -
  let ?m = "merge_endpoint_pricing_rules es rs mode cost"
  have des: "distinct (map oe_identity es)" using assms(1) by (rule validated_endpoints_distinct)
  have drs: "distinct (map rule_identity rs)" using assms(2) by (rule validated_rules_distinct)
  have ids: "map rule_identity ?m = map oe_identity es @
      map rule_identity (filter (\<lambda>r. rule_identity r \<notin> oe_identity ` set es) rs)"
    by (auto simp: merge_endpoint_pricing_rules_def rule_for_endpoint_identity list_ex_iff
        same_endpoint_identity image_iff intro!: arg_cong [where f = "map rule_identity"] filter_cong)
  have "distinct (map rule_identity (filter (\<lambda>r. rule_identity r \<notin> oe_identity ` set es) rs))"
    using drs by (simp add: distinct_map_filter)
  then have "distinct (map rule_identity ?m)" unfolding ids using des by auto
  moreover have "oe_identity ` set es \<subseteq> rule_identity ` set ?m"
    using arg_cong [OF ids, of set] by auto
  moreover have "\<exists>m \<in> set ?m. rule_identity m = rule_identity r \<and> er_cost_mode m = er_cost_mode r \<and>
       er_estimated_cost_usd m = er_estimated_cost_usd r" if r: "r \<in> set rs" for r
  proof (cases "\<exists>e \<in> set es. rule_identity r = oe_identity e")
    case True
    then obtain e where e: "e \<in> set es" "rule_identity r = oe_identity e" by blast
    have "find (\<lambda>q. same_endpoint q e) rs = Some r"
      using find_unique [OF drs r] e(2) by (simp add: same_endpoint_identity)
    then have "rule_for_endpoint rs mode cost e = r\<lparr>er_path_template := oe_path_template e, er_operation_id := oe_operation_id e\<rparr>"
      by (simp add: rule_for_endpoint_def)
    moreover have "rule_for_endpoint rs mode cost e \<in> set ?m" using e(1) by (simp add: merge_endpoint_pricing_rules_def)
    ultimately show ?thesis using rule_for_endpoint_identity [of rs mode cost e] e(2) by (intro bexI) auto
  next
    case False
    then have "r \<in> set ?m" using r by (auto simp: merge_endpoint_pricing_rules_def list_ex_iff same_endpoint_identity)
    then show ?thesis by blast
  qed
  moreover have "length ?m \<le> length es + length rs" by (simp add: merge_endpoint_pricing_rules_def)
  ultimately show ?thesis by blast
qed

definition sample_endpoint :: openapi_endpoint where
  "sample_endpoint = \<lparr>oe_method = ''GET'', oe_path_template = ''/jobs/{id}'', oe_operation_id = None, oe_summary = None,
     oe_relayna_default = False\<rparr>"

definition sample_endpoint_rule :: endpoint_pricing_rule where
  "sample_endpoint_rule = \<lparr>er_method = ''GET'', er_path_template = ''/jobs/{job}'', er_operation_id = None,
     er_cost_mode = NoCost, er_estimated_cost_usd = None\<rparr>"

theorem merge_keeps_prices_witness:
  "validate_openapi_endpoints [sample_endpoint] = Ok () \<and>
   distinct (map rule_identity (merge_endpoint_pricing_rules [sample_endpoint] [sample_endpoint_rule] FixedCost None))"
proof -
  have es: "validate_openapi_endpoints [sample_endpoint] = Ok ()" by code_simp
  have rs: "validate_endpoint_pricing_rules sample_env [sample_endpoint_rule] = Ok ()" by code_simp
  from merge_keeps_prices [OF es rs] es show ?thesis by blast
qed

text \<open>
  C28 (safety): repricing recorded usage is conservative. It never touches usage of an Accessa service or
  a cost with another source, and never produces a charge that must come from upstream; a price it
  produces is a finite amount that is not negative, or none; and a price attributed to a named body rule
  is only derived when the recorded fingerprint is that of the one rule of that name.
\<close>

theorem reprice_conservative:
  assumes "reprice_recorded_service_cost env before after source rule_name meth path fingerprint = Some c"
  shows "ea_accessa (sr_access before) = None \<and>
    source \<in> {Some ''service_default_fixed'', Some ''service_pricing_rule_fixed'', Some ''none''} \<and>
    rc_cost_mode c \<noteq> PassthroughCost \<and>
    (rc_cost_mode c = NoCost \<longrightarrow> rc_estimated_cost_usd c = None) \<and>
    (rc_cost_mode c = FixedCost \<longrightarrow> (\<exists>v. rc_estimated_cost_usd c = Some v \<and> is_finite v \<and> f64_le (Fin 0) v)) \<and>
    (\<forall>name. rule_name = Some name \<and> named_rules name before \<noteq> [] \<longrightarrow>
       (\<exists>old new. named_rules name before = [old] \<and> named_rules name after = [new] \<and>
          fingerprint = Some (body_pricing_fingerprint env old) \<and>
          pr_json_pointer old = pr_json_pointer new \<and> pr_equals old = pr_equals new))"
proof -
  have fin: "rc_cost_mode c \<noteq> PassthroughCost \<and> (rc_cost_mode c = NoCost \<longrightarrow> rc_estimated_cost_usd c = None) \<and>
    (rc_cost_mode c = FixedCost \<longrightarrow> (\<exists>v. rc_estimated_cost_usd c = Some v \<and> is_finite v \<and> f64_le (Fin 0) v))"
    if "final_cost r = Some c" for r
    using that by (auto simp: final_cost_def split: service_cost_mode.splits option.splits if_splits)
  have named: "\<exists>old new. named_rules name before = [old] \<and> named_rules name after = [new] \<and>
      fingerprint = Some (body_pricing_fingerprint env old) \<and>
      pr_json_pointer old = pr_json_pointer new \<and> pr_equals old = pr_equals new"
    if "reprice_named env before after name fingerprint oe ne base = Some r" "named_rules name before \<noteq> []"
    for name oe ne base r
    using that by (auto simp: reprice_named_def Let_def split: list.splits if_splits)
  have "\<exists>oe ne r. recorded_attribution env before after rule_name fingerprint oe ne = Some r \<and> final_cost r = Some c"
    using assms unfolding reprice_recorded_service_cost_def Let_def by (elim if_SomeE bind_SomeE) blast
  then obtain oe ne r where r: "recorded_attribution env before after rule_name fingerprint oe ne = Some r"
    "final_cost r = Some c" by blast
  have "\<not> (ea_accessa (sr_access before) \<noteq> None \<or>
      source \<notin> {Some ''service_default_fixed'', Some ''service_pricing_rule_fixed'', Some ''none''})"
    using assms unfolding reprice_recorded_service_cost_def by (rule if_SomeE)
  moreover have "\<exists>old new. named_rules name before = [old] \<and> named_rules name after = [new] \<and>
      fingerprint = Some (body_pricing_fingerprint env old) \<and>
      pr_json_pointer old = pr_json_pointer new \<and> pr_equals old = pr_equals new"
    if "rule_name = Some name" "named_rules name before \<noteq> []" for name
    by (rule named [OF _ that(2)]) (use r(1) that(1) in \<open>simp add: recorded_attribution_def Let_def\<close>)
  ultimately show ?thesis using fin [OF r(2)] by blast
qed

definition sample_registration :: "f64 \<Rightarrow> service_registration" where
  "sample_registration price =
     \<lparr>sr_foundry = None, sr_access = default_endpoint_access, sr_name = ''ocr'', sr_project_id = None,
      sr_studio_service_id = None, sr_route_pattern = ''/ocr'', sr_upstream_base_url = None,
      sr_health_check_path = None, sr_health_check_method = ''GET'', sr_enabled = True,
      sr_allowed_methods = [''POST''], sr_timeout_ms = 1000, sr_max_body_bytes = 1000, sr_cost_mode = FixedCost,
      sr_estimated_cost_usd = Some price, sr_pricing_rules = [], sr_openapi_source_path = None,
      sr_openapi_schema_hash = None, sr_openapi_synced_at = None, sr_openapi_endpoints = [],
      sr_endpoint_pricing_rules = [], sr_credential_secret = None, sr_fallback_services = [],
      sr_source = GatewaySource, sr_sync_status = LocalStatus, sr_last_synced_at = None, sr_disabled_at = None,
      sr_created_at = 0, sr_updated_at = 0\<rparr>"

theorem reprice_conservative_witness:
  "\<exists>c. reprice_recorded_service_cost sample_env (sample_registration (Fin 1)) (sample_registration (Fin 3))
         (Some ''service_default_fixed'') None None None None = Some c \<and> rc_estimated_cost_usd c = Some (Fin 3) \<and>
     rc_cost_mode c \<noteq> PassthroughCost"
proof -
  obtain c where c: "reprice_recorded_service_cost sample_env (sample_registration (Fin 1)) (sample_registration (Fin 3))
      (Some ''service_default_fixed'') None None None None = Some c" "rc_estimated_cost_usd c = Some (Fin 3)"
    by (simp add: reprice_recorded_service_cost_def recorded_attribution_def sample_registration_def
        default_endpoint_access_def default_service_cost_def final_cost_def)
  from reprice_conservative [OF c(1)] c show ?thesis by blast
qed

end
