(* ===== verification/Verification_Cache.thy ===== *)
theory Verification_Cache
  imports Gateway_Errors "HOL-Library.AList"
begin

text \<open>
  The cache of successful secret verifications (\<open>gateway-core/src/verification_cache.rs\<close>): a map from
  proofs to the instant of their verification, with the order of insertion beside it. Instants are
  nanoseconds of the monotonic clock, which is read while the lock is held, so the times of the
  operations never decrease; \<open>duration_since\<close> saturates at zero, as subtraction of naturals does.
  The abstract cache is one first-in first-out list of dated proofs.
\<close>

section \<open>The cache\<close>

type_synonym instant = nat
type_synonym proof_bytes = string

definition cache_capacity :: nat where
  "cache_capacity = 1024"

definition cache_ttl :: nat where
  "cache_ttl = 60 * 10 ^ 9"

record cache_entries =
  ce_proofs :: "(proof_bytes \<times> instant) list"
  ce_order :: "proof_bytes list"

definition empty_entries :: cache_entries where
  "empty_entries = \<lparr>ce_proofs = [], ce_order = []\<rparr>"

definition remove_oldest :: "cache_entries \<Rightarrow> cache_entries" where
  "remove_oldest e =
     (case ce_order e of
        [] \<Rightarrow> e
      | oldest # rest \<Rightarrow> e\<lparr>ce_proofs := AList.delete oldest (ce_proofs e), ce_order := rest\<rparr>)"

definition cache_contains :: "cache_entries \<Rightarrow> proof_bytes \<Rightarrow> instant \<Rightarrow> bool" where
  "cache_contains e p now =
     (case map_of (ce_proofs e) p of Some verified \<Rightarrow> now - verified < cache_ttl | None \<Rightarrow> False)"

text \<open>The two loops remove the front of the order, so its length decreases.\<close>

lemma length_remove_oldest: "ce_order e = x # xs \<Longrightarrow> length (ce_order (remove_oldest e)) < Suc (length xs)"
  by (simp add: remove_oldest_def)

function purge_expired :: "cache_entries \<Rightarrow> instant \<Rightarrow> cache_entries" where
  "purge_expired e now =
     (case ce_order e of
        [] \<Rightarrow> e
      | oldest # _ \<Rightarrow> if cache_contains e oldest now then e else purge_expired (remove_oldest e) now)"
  by pat_completeness auto
termination
  by (relation "measure (\<lambda>(e, _). length (ce_order e))") (auto simp: length_remove_oldest)

function evict :: "cache_entries \<Rightarrow> instant \<Rightarrow> cache_entries" where
  "evict e now =
     (case ce_order e of
        [] \<Rightarrow> e
      | oldest # _ \<Rightarrow>
          if length (ce_proofs e) < cache_capacity \<and> cache_contains e oldest now then e
          else evict (remove_oldest e) now)"
  by pat_completeness auto
termination
  by (relation "measure (\<lambda>(e, _). length (ce_order e))") (auto simp: length_remove_oldest)

declare purge_expired.simps [simp del] evict.simps [simp del]

definition cache_insert :: "cache_entries \<Rightarrow> proof_bytes \<Rightarrow> instant \<Rightarrow> cache_entries" where
  "cache_insert e p now =
     (if cache_contains e p now then e
      else let e = evict e now
           in if map_of (ce_proofs e) p = None
              then e\<lparr>ce_proofs := (p, now) # ce_proofs e, ce_order := ce_order e @ [p]\<rparr>
              else e)"

section \<open>The abstract cache\<close>

text \<open>
  A list of dated proofs, oldest first. An expired proof is no member; an insertion drops the expired
  proofs and, if the list is full, the oldest of the others.
\<close>

type_synonym dated_proofs = "(proof_bytes \<times> instant) list"

definition live :: "instant \<Rightarrow> proof_bytes \<times> instant \<Rightarrow> bool" where
  "live now = (\<lambda>(p, v). now - v < cache_ttl)"

definition spec_contains :: "dated_proofs \<Rightarrow> proof_bytes \<Rightarrow> instant \<Rightarrow> bool" where
  "spec_contains q p now = (p \<in> fst ` set (filter (live now) q))"

definition spec_insert :: "dated_proofs \<Rightarrow> proof_bytes \<Rightarrow> instant \<Rightarrow> dated_proofs" where
  "spec_insert q p now =
     (if spec_contains q p now then q
      else let q = filter (live now) q in drop (Suc (length q) - cache_capacity) q @ [(p, now)])"

definition spec_purge :: "dated_proofs \<Rightarrow> instant \<Rightarrow> dated_proofs" where
  "spec_purge q now = filter (live now) q"

text \<open>The list a cache stands for, and when it is one.\<close>

definition view :: "cache_entries \<Rightarrow> dated_proofs" where
  "view e = map (\<lambda>p. (p, the (map_of (ce_proofs e) p))) (ce_order e)"

definition consistent :: "cache_entries \<Rightarrow> bool" where
  "consistent e \<longleftrightarrow> distinct (ce_order e) \<and> distinct (map fst (ce_proofs e)) \<and>
     set (ce_order e) = fst ` set (ce_proofs e)"

definition dated_upto :: "instant \<Rightarrow> dated_proofs \<Rightarrow> bool" where
  "dated_upto now q \<longleftrightarrow> sorted (map snd q) \<and> (\<forall>v \<in> set (map snd q). v \<le> now)"

lemma consistent_empty: "consistent empty_entries" "view empty_entries = []"
  by (simp_all add: consistent_def view_def empty_entries_def)

lemma length_view: "consistent e \<Longrightarrow> length (view e) = length (ce_proofs e)"
proof -
  assume "consistent e"
  then have "length (ce_order e) = card (fst ` set (ce_proofs e))"
    by (metis consistent_def distinct_card)
  also have "\<dots> = length (map fst (ce_proofs e))"
    using \<open>consistent e\<close> distinct_card [of "map fst (ce_proofs e)"] by (simp add: consistent_def)
  finally show ?thesis by (simp add: view_def)
qed

lemma length_order: "consistent e \<Longrightarrow> length (ce_order e) = length (ce_proofs e)"
  using length_view [of e] by (simp add: view_def)

lemma map_of_mem: "consistent e \<Longrightarrow> p \<in> set (ce_order e) \<longleftrightarrow> (\<exists>v. map_of (ce_proofs e) p = Some v)"
  by (metis consistent_def list.set_map map_of_eq_None_iff option.exhaust option.simps(3))

lemma view_mem:
  "(p, v) \<in> set (view e) \<longleftrightarrow> p \<in> set (ce_order e) \<and> v = the (map_of (ce_proofs e) p)"
  by (auto simp: view_def)

lemma contains_view:
  assumes "consistent e"
  shows "cache_contains e p now \<longleftrightarrow> spec_contains (view e) p now"
proof -
  have "spec_contains (view e) p now \<longleftrightarrow> (\<exists>v. (p, v) \<in> set (view e) \<and> now - v < cache_ttl)"
    by (force simp: spec_contains_def live_def image_iff)
  also have "\<dots> \<longleftrightarrow> cache_contains e p now"
    using map_of_mem [OF assms, of p] by (auto simp: view_mem cache_contains_def split: option.splits)
  finally show ?thesis by simp
qed

lemma remove_oldest_view:
  assumes "consistent e"
  shows "consistent (remove_oldest e)" and "view (remove_oldest e) = tl (view e)"
proof -
  show "consistent (remove_oldest e)"
  proof (cases "ce_order e")
    case (Cons p rest)
    with assms have "set rest = fst ` set (ce_proofs e) - {p}"
      by (metis Diff_insert_absorb consistent_def distinct.simps(2) list.simps(15))
    moreover have "set (map fst (AList.delete p (ce_proofs e))) = fst ` set (ce_proofs e) - {p}"
      by (simp only: delete_keys set_removeAll list.set_map)
    ultimately show ?thesis
      using assms Cons by (simp add: consistent_def remove_oldest_def distinct_delete del: set_map) simp
  qed (use assms in \<open>simp add: remove_oldest_def\<close>)
  show "view (remove_oldest e) = tl (view e)"
    using assms by (auto simp: consistent_def view_def remove_oldest_def delete_conv split: list.splits)
qed

lemma dated_Cons:
  assumes "dated_upto now (x # q)"
  shows "dated_upto now q" and "live now x \<Longrightarrow> filter (live now) (x # q) = x # q"
proof -
  show "dated_upto now q" using assms by (simp add: dated_upto_def)
  assume "live now x"
  moreover have "snd x \<le> snd y" if "y \<in> set q" for y using assms that by (simp add: dated_upto_def)
  ultimately have "live now y" if "y \<in> set q" for y
    using that by (fastforce simp: live_def split: prod.splits)
  with \<open>live now x\<close> show "filter (live now) (x # q) = x # q" by simp
qed

text \<open>The head of the order is the head of the list, and is contained exactly if it is live.\<close>

lemma view_Cons:
  assumes "consistent e" and "ce_order e = p # rest"
  obtains v where "view e = (p, v) # tl (view e)" and "cache_contains e p now \<longleftrightarrow> live now (p, v)"
proof -
  obtain v where "map_of (ce_proofs e) p = Some v" using map_of_mem [OF assms(1)] assms(2) by auto
  with assms(2) have "view e = (p, v) # tl (view e)" "cache_contains e p now \<longleftrightarrow> live now (p, v)"
    by (simp_all add: view_def cache_contains_def live_def)
  then show ?thesis by (rule that)
qed

lemma purge_view:
  "consistent e \<Longrightarrow> dated_upto now (view e) \<Longrightarrow>
   consistent (purge_expired e now) \<and> view (purge_expired e now) = spec_purge (view e) now"
proof (induction e now rule: purge_expired.induct)
  case (1 e now)
  show ?case
  proof (cases "ce_order e")
    case Nil
    with 1 show ?thesis by (simp add: purge_expired.simps [of e] view_def spec_purge_def)
  next
    case (Cons p rest)
    from view_Cons [OF 1(2) Cons, where now = now] obtain v where
      v: "view e = (p, v) # tl (view e)" "cache_contains e p now \<longleftrightarrow> live now (p, v)" .
    from dated_Cons [of now "(p, v)" "tl (view e)"] 1(3) v(1)
    have d: "dated_upto now (tl (view e))"
      and all: "live now (p, v) \<Longrightarrow> filter (live now) ((p, v) # tl (view e)) = (p, v) # tl (view e)"
      by simp_all
    show ?thesis
    proof (cases "cache_contains e p now")
      case True
      with 1 Cons all v show ?thesis
        by (simp add: purge_expired.simps [of e] spec_purge_def del: filter.simps)
    next
      case False
      have "spec_purge (view e) now = spec_purge (tl (view e)) now"
        using False v by (metis (no_types) filter.simps(2) spec_purge_def)
      with 1(1) [OF Cons False] remove_oldest_view [OF 1(2)] d Cons False show ?thesis
        by (simp add: purge_expired.simps [of e])
    qed
  qed
qed

lemma drop_full: "cap \<le> Suc (length q) \<Longrightarrow> drop (Suc (Suc (length q)) - cap) (x # q) = drop (Suc (length q) - cap) q"
  by (simp add: Suc_diff_le)

definition make_room :: "dated_proofs \<Rightarrow> instant \<Rightarrow> dated_proofs" where
  "make_room q now = (let q = filter (live now) q in drop (Suc (length q) - cache_capacity) q)"

lemma make_room_Cons:
  assumes "dated_upto now (x # q)"
  shows "live now x \<Longrightarrow> Suc (length q) < cache_capacity \<Longrightarrow> make_room (x # q) now = x # q"
    and "\<not> (Suc (length q) < cache_capacity \<and> live now x) \<Longrightarrow> make_room (x # q) now = make_room q now"
proof -
  note all = dated_Cons(2) [OF assms]
  show "live now x \<Longrightarrow> Suc (length q) < cache_capacity \<Longrightarrow> make_room (x # q) now = x # q"
    using all unfolding make_room_def by (simp only: Let_def) simp
  assume "\<not> (Suc (length q) < cache_capacity \<and> live now x)"
  moreover have "filter (live now) q = q" if "live now x" using all [OF that] that by simp
  ultimately show "make_room (x # q) now = make_room q now"
    using drop_full [of cache_capacity q x] by (cases "live now x") (auto simp: make_room_def Let_def)
qed

lemma evict_view:
  "consistent e \<Longrightarrow> dated_upto now (view e) \<Longrightarrow>
   consistent (evict e now) \<and> view (evict e now) = make_room (view e) now"
proof (induction e now rule: evict.induct)
  case (1 e now)
  show ?case
  proof (cases "ce_order e")
    case Nil
    with 1 show ?thesis by (simp add: evict.simps [of e] view_def make_room_def)
  next
    case (Cons p rest)
    from view_Cons [OF 1(2) Cons, where now = now] obtain v where
      v: "view e = (p, v) # tl (view e)" "cache_contains e p now \<longleftrightarrow> live now (p, v)" .
    have dv: "dated_upto now ((p, v) # tl (view e))" using 1(3) v(1) by simp
    have len: "length (ce_proofs e) = Suc (length (tl (view e)))"
      using length_view [OF 1(2)] v(1) by (metis length_Cons)
    show ?thesis
    proof (cases "length (ce_proofs e) < cache_capacity \<and> cache_contains e p now")
      case True
      with 1 Cons make_room_Cons(1) [OF dv] v len show ?thesis
        by (simp add: evict.simps [of e])
    next
      case False
      have "make_room (view e) now = make_room (tl (view e)) now"
        using make_room_Cons(2) [OF dv] False v len by simp
      moreover have "evict e now = evict (remove_oldest e) now"
        using Cons False by (simp only: evict.simps [of e] list.case if_False)
      ultimately show ?thesis
        using 1(1) [OF Cons False] remove_oldest_view [OF 1(2)] dated_Cons(1) [OF dv] by simp
    qed
  qed
qed

lemma make_room_live: "x \<in> set (make_room q now) \<Longrightarrow> x \<in> set q \<and> live now x"
  by (auto simp: make_room_def Let_def dest: in_set_dropD)

lemma make_room_dated: "dated_upto now q \<Longrightarrow> dated_upto now (make_room q now)"
proof -
  assume d: "dated_upto now q"
  have "sorted (map snd (filter (live now) q))" using d by (simp add: dated_upto_def sorted_filter)
  then have "sorted (map snd (make_room q now))"
    by (simp add: make_room_def Let_def drop_map [symmetric])
  then show ?thesis using d by (auto simp: dated_upto_def dest: make_room_live)
qed

lemma length_make_room: "length (make_room q now) < cache_capacity"
  by (auto simp: make_room_def Let_def cache_capacity_def)

lemma spec_insert_make_room:
  "spec_insert q p now = (if spec_contains q p now then q else make_room q now @ [(p, now)])"
  by (simp add: spec_insert_def make_room_def Let_def)

lemma insert_view:
  assumes "consistent e" and "dated_upto now (view e)"
  shows "consistent (cache_insert e p now) \<and> view (cache_insert e p now) = spec_insert (view e) p now"
proof (cases "cache_contains e p now")
  case True
  with assms show ?thesis by (simp add: cache_insert_def spec_insert_def contains_view [symmetric])
next
  case False
  let ?e = "evict e now"
  from evict_view [OF assms] have e: "consistent ?e" and v: "view ?e = make_room (view e) now" by simp_all
  have "p \<notin> set (ce_order ?e)"
  proof
    assume "p \<in> set (ce_order ?e)"
    then obtain t where "(p, t) \<in> set (make_room (view e) now)" by (metis v view_mem)
    from make_room_live [OF this] have "spec_contains (view e) p now"
      by (force simp: spec_contains_def image_iff)
    with False assms(1) show False by (simp add: contains_view)
  qed
  then have fresh: "map_of (ce_proofs ?e) p = None" and new: "p \<notin> fst ` set (ce_proofs ?e)"
    using map_of_mem [OF e, of p] e by (auto simp: consistent_def)
  let ?i = "?e\<lparr>ce_proofs := (p, now) # ce_proofs ?e, ce_order := ce_order ?e @ [p]\<rparr>"
  have i: "cache_insert e p now = ?i" using False fresh by (simp add: cache_insert_def Let_def)
  have "consistent ?i" using e new \<open>p \<notin> set (ce_order ?e)\<close> by (simp add: consistent_def)
  moreover have "view ?i = view ?e @ [(p, now)]"
    using \<open>p \<notin> set (ce_order ?e)\<close> by (auto simp: view_def)
  moreover have "\<not> spec_contains (view e) p now" using False assms(1) by (simp add: contains_view)
  ultimately show ?thesis by (simp add: i v spec_insert_make_room)
qed

lemma contains_insert:
  assumes "consistent e" and "dated_upto now (view e)"
  shows "cache_contains (cache_insert e p now) p now"
  using insert_view [OF assms, of p]
  by (simp add: contains_view spec_insert_make_room) (simp add: spec_contains_def live_def cache_ttl_def)

section \<open>Runs\<close>

text \<open>
  The operations in the order the lock serialises them, each after a number of nanoseconds: an
  insertion and a maintenance tick. Lookups change nothing.
\<close>

datatype cache_event = InsertProof proof_bytes nat | PurgeTick nat

fun cache_step :: "cache_entries \<times> instant \<Rightarrow> cache_event \<Rightarrow> cache_entries \<times> instant" where
  "cache_step (e, t) (InsertProof p d) = (cache_insert e p (t + d), t + d)"
| "cache_step (e, t) (PurgeTick d) = (purge_expired e (t + d), t + d)"

fun spec_step :: "dated_proofs \<times> instant \<Rightarrow> cache_event \<Rightarrow> dated_proofs \<times> instant" where
  "spec_step (q, t) (InsertProof p d) = (spec_insert q p (t + d), t + d)"
| "spec_step (q, t) (PurgeTick d) = (spec_purge q (t + d), t + d)"

fun cache_invar :: "cache_entries \<times> instant \<Rightarrow> bool" where
  "cache_invar (e, t) \<longleftrightarrow> consistent e \<and> dated_upto t (view e) \<and> length (view e) \<le> cache_capacity"

fun cache_abs :: "cache_entries \<times> instant \<Rightarrow> dated_proofs \<times> instant" where
  "cache_abs (e, t) = (view e, t)"

lemma dated_later: "dated_upto t q \<Longrightarrow> dated_upto (t + d) q"
  by (fastforce simp: dated_upto_def)

lemma spec_insert_dated:
  "dated_upto now q \<Longrightarrow> length q \<le> cache_capacity \<Longrightarrow>
   dated_upto now (spec_insert q p now) \<and> length (spec_insert q p now) \<le> cache_capacity"
  using make_room_dated [of now q] length_make_room [of q now]
  by (auto simp: spec_insert_make_room dated_upto_def sorted_append)

lemma spec_purge_dated:
  "dated_upto now q \<Longrightarrow> length q \<le> cache_capacity \<Longrightarrow>
   dated_upto now (spec_purge q now) \<and> length (spec_purge q now) \<le> cache_capacity"
  by (auto simp: spec_purge_def dated_upto_def sorted_filter intro: order_trans [OF length_filter_le])

lemma cache_step_ok:
  assumes "cache_invar s"
  shows "cache_invar (cache_step s ev) \<and> cache_abs (cache_step s ev) = spec_step (cache_abs s) ev"
proof -
  obtain e t where s: "s = (e, t)" by (cases s)
  from assms have e: "consistent e" "dated_upto t (view e)" "length (view e) \<le> cache_capacity"
    by (simp_all add: s)
  show ?thesis
  proof (cases ev)
    case (InsertProof p d)
    from insert_view [OF e(1) dated_later [OF e(2)]] spec_insert_dated [OF dated_later [OF e(2)] e(3)]
    show ?thesis by (simp add: s InsertProof)
  next
    case (PurgeTick d)
    from purge_view [OF e(1) dated_later [OF e(2)]] spec_purge_dated [OF dated_later [OF e(2)] e(3)]
    show ?thesis by (simp add: s PurgeTick)
  qed
qed

interpretation cache: refinement_system cache_step cache_invar spec_step cache_abs
  by unfold_locales (use cache_step_ok in blast)+

lemma cache_invar_empty: "cache_invar (empty_entries, t)"
  by (simp add: consistent_empty dated_upto_def)

text \<open>
  C29 (refinement): whatever the sequence of insertions and maintenance ticks, the map and the queue of
  the cache stand for one first-in first-out list of at most 1024 dated proofs: a proof is contained
  exactly if it was inserted less than 60 seconds ago and not evicted since, where an insertion evicts
  the oldest proof of a full cache and no lookup or repeated insertion extends the age of a proof.
\<close>

theorem cache_refines_fifo:
  "case (foldl cache_step (empty_entries, t) evs, foldl spec_step ([], t) evs) of
     ((e, now), (q, now')) \<Rightarrow>
       view e = q \<and> now = now' \<and> cache_contains e p now = spec_contains q p now \<and>
       length (ce_proofs e) = length q \<and> length (ce_order e) = length q \<and> length q \<le> 1024"
proof -
  obtain e now where r: "foldl cache_step (empty_entries, t) evs = (e, now)" by fastforce
  from cache.run_invar [OF cache_invar_empty, of t evs] r
  have i: "consistent e" "length (view e) \<le> cache_capacity" by simp_all
  from cache.run_refines [OF cache_invar_empty, of t evs] r
  have "foldl spec_step ([], t) evs = (view e, now)" by (simp add: consistent_empty)
  with i show ?thesis
    by (simp add: r contains_view length_view length_order cache_capacity_def)
qed

end
