(* ===== verification/Verification_Flight.thy ===== *)
theory Verification_Flight
  imports Verification_Cache
begin

text \<open>
  Coalescing of secret verifications (\<open>gateway-core/src/verification_flight.rs\<close>): concurrent requests with
  the same proof share one verification. The first becomes the leader and owns the sender of a watch
  channel; the others wait on it as followers, within a global and a per-proof bound. Tasks run
  concurrently, so the component is a system of events: the requests, the steps of the leaders, the
  wake-ups, timeouts and cancellations of the waiting requests, in any order. A channel outlives its
  entry in the table, because the waiting requests hold receivers of it: channels are kept in a list
  and named by their position. The lock is never poisoned, as no operation panics while holding it.
  What the code takes from the argon2 and hmac packages and from the random generator is the record
  \<open>crypto_env\<close>.
\<close>

section \<open>Secrets and proofs\<close>

record crypto_env =
  cv_secret :: "string option"
  cv_hmac :: "string \<Rightarrow> string \<Rightarrow> string"
  cv_parses_hash :: "string \<Rightarrow> bool"
  cv_argon2 :: "string \<Rightarrow> string \<Rightarrow> bool"

record auth_request =
  rq_id :: string
  rq_raw :: string
  rq_hash :: string

text \<open>\<open>(n as u64).to_le_bytes()\<close>\<close>

definition le_bytes :: "nat \<Rightarrow> string" where
  "le_bytes n = map (\<lambda>i. char_of (n div 256 ^ i mod 256)) [0..<8]"

definition proof_input :: "auth_request \<Rightarrow> string" where
  "proof_input r = rq_id r @ le_bytes (length (rq_hash r)) @ rq_hash r @ rq_raw r"

definition key_proof :: "crypto_env \<Rightarrow> auth_request \<Rightarrow> proof_bytes option" where
  "key_proof env r = map_option (\<lambda>secret. cv_hmac env secret (proof_input r)) (cv_secret env)"

definition verify_secret :: "crypto_env \<Rightarrow> string \<Rightarrow> string \<Rightarrow> unit gateway_result" where
  "verify_secret env raw encoded_hash =
     (if \<not> cv_parses_hash env encoded_hash then Err InvalidVirtualKey
      else if cv_argon2 env raw encoded_hash then Ok () else Err InvalidVirtualKey)"

section \<open>The table of flights\<close>

definition max_flights :: nat where
  "max_flights = 10"

definition max_followers_per_proof :: nat where
  "max_followers_per_proof = 63"

definition max_followers :: nat where
  "max_followers = 64"

record flight_channel =
  ch_value :: "unit gateway_result option"
  ch_sender :: bool
  ch_followers :: nat

record flights =
  fs_entries :: "(proof_bytes \<times> nat) list"
  fs_channels :: "flight_channel list"
  fs_followers :: nat

definition default_flights :: flights where
  "default_flights = \<lparr>fs_entries = [], fs_channels = [], fs_followers = max_followers\<rparr>"

definition with_channel :: "flights \<Rightarrow> nat \<Rightarrow> (flight_channel \<Rightarrow> flight_channel) \<Rightarrow> flights" where
  "with_channel fl c f = fl\<lparr>fs_channels := (fs_channels fl)[c := f (fs_channels fl ! c)]\<rparr>"

text \<open>
  \<open>Flights::join\<close>: the channel to wait on and whether as a follower. A refused per-proof permit gives
  the global one back.
\<close>

definition join :: "flights \<Rightarrow> proof_bytes \<Rightarrow> (nat \<times> bool) gateway_result \<times> flights" where
  "join fl p =
     (case map_of (fs_entries fl) p of
        Some c \<Rightarrow>
          if fs_followers fl = 0 then (Err AuthenticationOverloaded, fl)
          else if ch_followers (fs_channels fl ! c) = 0 then (Err AuthenticationOverloaded, fl)
          else (Ok (c, True),
                with_channel (fl\<lparr>fs_followers := fs_followers fl - 1\<rparr>) c (\<lambda>ch. ch\<lparr>ch_followers := ch_followers ch - 1\<rparr>))
      | None \<Rightarrow>
          if max_flights \<le> length (fs_entries fl) then (Err AuthenticationOverloaded, fl)
          else let c = length (fs_channels fl)
               in (Ok (c, False),
                   fl\<lparr>fs_entries := (p, c) # fs_entries fl,
                      fs_channels := fs_channels fl @
                        [\<lparr>ch_value = None, ch_sender = True, ch_followers = max_followers_per_proof\<rparr>]\<rparr>))"

text \<open>\<open>leader.result.send_replace(Some(result))\<close> and the drop of the leader.\<close>

definition send_replace :: "flights \<Rightarrow> nat \<Rightarrow> unit gateway_result \<Rightarrow> flights" where
  "send_replace fl c r = with_channel fl c (\<lambda>ch. ch\<lparr>ch_value := Some r\<rparr>)"

definition leader_drop :: "flights \<Rightarrow> proof_bytes \<Rightarrow> nat \<Rightarrow> flights" where
  "leader_drop fl p c =
     with_channel (fl\<lparr>fs_entries := AList.delete p (fs_entries fl)\<rparr>) c (\<lambda>ch. ch\<lparr>ch_sender := False\<rparr>)"

text \<open>
  One round of \<open>Waiting::wait\<close>: the value if there is one, the error of a channel without sender, and
  otherwise no answer yet. When the waiting request ends, its permits are released.
\<close>

definition wait_poll :: "flights \<Rightarrow> nat \<Rightarrow> unit gateway_result option" where
  "wait_poll fl c =
     (let ch = fs_channels fl ! c
      in case ch_value ch of
           Some r \<Rightarrow> Some r
         | None \<Rightarrow> if ch_sender ch then None else Some (Err AuthenticationOverloaded))"

definition waiting_drop :: "flights \<Rightarrow> nat \<Rightarrow> bool \<Rightarrow> flights" where
  "waiting_drop fl c follower =
     (if follower
      then with_channel (fl\<lparr>fs_followers := fs_followers fl + 1\<rparr>) c (\<lambda>ch. ch\<lparr>ch_followers := ch_followers ch + 1\<rparr>)
      else fl)"

section \<open>The verifier\<close>

text \<open>
  The state shared by the tasks: the clock, the cache, the flights, the leader tasks by their channel
  and the waiting requests by a number. \<open>vs_proofs\<close> (the proof of each channel) and
  \<open>vs_requests\<close> (all requests so far) record the history and are read by no operation.
\<close>

datatype leader_stage = Queued | Verified | Sent

record leader =
  ld_proof :: proof_bytes
  ld_request :: auth_request
  ld_stage :: leader_stage

record waiter =
  wt_request :: auth_request
  wt_channel :: nat
  wt_follower :: bool

record verifier =
  vs_clock :: instant
  vs_cache :: cache_entries
  vs_flights :: flights
  vs_leaders :: "(nat \<times> leader) list"
  vs_waiting :: "(nat \<times> waiter) list"
  vs_next :: nat
  vs_proofs :: "proof_bytes list"
  vs_requests :: "auth_request list"

definition initial_verifier :: "instant \<Rightarrow> verifier" where
  "initial_verifier t =
     \<lparr>vs_clock = t, vs_cache = empty_entries, vs_flights = default_flights, vs_leaders = [],
      vs_waiting = [], vs_next = 0, vs_proofs = [], vs_requests = []\<rparr>"

text \<open>
  The events: the clock, the maintenance of the cache, a request that computes its proof (which only the
  history sees), a request that enters \<open>verify\<close>, the steps of the
  leader of a channel (the check of the cache and of the secret, the insertion of the proof, a job that
  the executor refuses or aborts, the end of the task), and the wake-up and the departure of a waiting
  request (its timeout or its cancellation).
\<close>

datatype crypto_failure = CryptoOverloaded | CryptoAborted

datatype verifier_event =
    Tick nat
  | Maintenance
  | ComputeProof auth_request
  | Verify auth_request
  | WorkCheck nat
  | WorkInsert nat
  | WorkFailed nat crypto_failure
  | LeaderEnd nat
  | Wake nat
  | Leave nat

fun crypto_error :: "crypto_failure \<Rightarrow> gateway_error" where
  "crypto_error CryptoOverloaded = AuthenticationOverloaded"
| "crypto_error CryptoAborted = InvalidVirtualKey"

definition cached :: "crypto_env \<Rightarrow> verifier \<Rightarrow> auth_request \<Rightarrow> bool" where
  "cached env vs r = (case key_proof env r of Some p \<Rightarrow> cache_contains (vs_cache vs) p (vs_clock vs) | None \<Rightarrow> False)"

text \<open>\<open>verify\<close> up to its wait: the answer that is known at once, or the number of the waiting request.\<close>

definition enter_verify :: "crypto_env \<Rightarrow> verifier \<Rightarrow> auth_request \<Rightarrow> (unit gateway_result + nat) \<times> verifier" where
  "enter_verify env vs r =
     (case key_proof env r of
        None \<Rightarrow> (Inl (verify_secret env (rq_raw r) (rq_hash r)), vs)
      | Some p \<Rightarrow>
          let vs = vs\<lparr>vs_requests := r # vs_requests vs\<rparr>
          in if cache_contains (vs_cache vs) p (vs_clock vs) then (Inl (Ok ()), vs)
             else (case join (vs_flights vs) p of
                 (Inl e, fl) \<Rightarrow> (Inl (Err e), vs\<lparr>vs_flights := fl\<rparr>)
               | (Inr (c, follower), fl) \<Rightarrow>
                   (Inr (vs_next vs),
                    vs\<lparr>vs_flights := fl,
                       vs_leaders := if follower then vs_leaders vs
                         else (c, \<lparr>ld_proof = p, ld_request = r, ld_stage = Queued\<rparr>) # vs_leaders vs,
                       vs_waiting := (vs_next vs, \<lparr>wt_request = r, wt_channel = c, wt_follower = follower\<rparr>) # vs_waiting vs,
                       vs_next := Suc (vs_next vs),
                       vs_proofs := if follower then vs_proofs vs else vs_proofs vs @ [p]\<rparr>)))"

definition set_stage :: "verifier \<Rightarrow> nat \<Rightarrow> leader_stage \<Rightarrow> verifier" where
  "set_stage vs c st = vs\<lparr>vs_leaders := map (\<lambda>(c', l). (c', if c' = c then l\<lparr>ld_stage := st\<rparr> else l)) (vs_leaders vs)\<rparr>"

definition publish :: "verifier \<Rightarrow> nat \<Rightarrow> unit gateway_result \<Rightarrow> verifier" where
  "publish vs c r = (set_stage vs c Sent)\<lparr>vs_flights := send_replace (vs_flights vs) c r\<rparr>"

definition work_check :: "crypto_env \<Rightarrow> verifier \<Rightarrow> nat \<Rightarrow> leader \<Rightarrow> verifier" where
  "work_check env vs c l =
     (if cache_contains (vs_cache vs) (ld_proof l) (vs_clock vs) then publish vs c (Ok ())
      else case verify_secret env (rq_raw (ld_request l)) (rq_hash (ld_request l)) of
             Inl e \<Rightarrow> publish vs c (Err e)
           | Inr _ \<Rightarrow> set_stage vs c Verified)"

definition leave :: "verifier \<Rightarrow> nat \<Rightarrow> verifier" where
  "leave vs i =
     (case map_of (vs_waiting vs) i of
        None \<Rightarrow> vs
      | Some w \<Rightarrow> vs\<lparr>vs_waiting := AList.delete i (vs_waiting vs),
                     vs_flights := waiting_drop (vs_flights vs) (wt_channel w) (wt_follower w)\<rparr>)"

definition poll :: "verifier \<Rightarrow> nat \<Rightarrow> unit gateway_result option" where
  "poll vs i = (case map_of (vs_waiting vs) i of None \<Rightarrow> None | Some w \<Rightarrow> wait_poll (vs_flights vs) (wt_channel w))"

definition leader_at :: "verifier \<Rightarrow> nat \<Rightarrow> leader_stage \<Rightarrow> leader option" where
  "leader_at vs c st =
     (case map_of (vs_leaders vs) c of Some l \<Rightarrow> if ld_stage l = st then Some l else None | None \<Rightarrow> None)"

fun verifier_step :: "crypto_env \<Rightarrow> verifier \<Rightarrow> verifier_event \<Rightarrow> verifier" where
  "verifier_step env vs (Tick d) = vs\<lparr>vs_clock := vs_clock vs + d\<rparr>"
| "verifier_step env vs Maintenance = vs\<lparr>vs_cache := purge_expired (vs_cache vs) (vs_clock vs)\<rparr>"
| "verifier_step env vs (ComputeProof r) = vs\<lparr>vs_requests := r # vs_requests vs\<rparr>"
| "verifier_step env vs (Verify r) = snd (enter_verify env vs r)"
| "verifier_step env vs (WorkCheck c) =
     (case leader_at vs c Queued of Some l \<Rightarrow> work_check env vs c l | None \<Rightarrow> vs)"
| "verifier_step env vs (WorkInsert c) =
     (case leader_at vs c Verified of
        Some l \<Rightarrow> publish (vs\<lparr>vs_cache := cache_insert (vs_cache vs) (ld_proof l) (vs_clock vs)\<rparr>) c (Ok ())
      | None \<Rightarrow> vs)"
| "verifier_step env vs (WorkFailed c f) =
     (case leader_at vs c Queued of Some l \<Rightarrow> publish vs c (Err (crypto_error f)) | None \<Rightarrow> vs)"
| "verifier_step env vs (LeaderEnd c) =
     (case map_of (vs_leaders vs) c of
        Some l \<Rightarrow> vs\<lparr>vs_leaders := AList.delete c (vs_leaders vs),
                     vs_flights := leader_drop (vs_flights vs) (ld_proof l) c\<rparr>
      | None \<Rightarrow> vs)"
| "verifier_step env vs (Wake i) = (if poll vs i = None then vs else leave vs i)"
| "verifier_step env vs (Leave i) = leave vs i"

section \<open>Accounting\<close>

text \<open>
  The table lists exactly the live leaders, one per proof and at most ten, and a channel has its sender
  as long as its leader lives. It is stated over the entries, the sender flags of the channels and the
  keys of the leaders, which is all it depends on.
\<close>

definition table_ok :: "(proof_bytes \<times> nat) list \<Rightarrow> bool list \<Rightarrow> (proof_bytes \<times> nat) list \<Rightarrow> bool" where
  "table_ok E S K \<longleftrightarrow>
     distinct (map fst E) \<and> length E \<le> max_flights \<and> distinct (map snd K) \<and> set E = set K \<and>
     (\<forall>c < length S. S ! c \<longleftrightarrow> c \<in> snd ` set K) \<and> snd ` set K \<subseteq> {..<length S}"

text \<open>
  Permits are conserved: the free ones and those of the waiting followers add up to the capacity, over
  all proofs and for each channel.
\<close>

definition permits_ok :: "nat \<Rightarrow> nat list \<Rightarrow> (nat \<times> nat \<times> bool) list \<Rightarrow> nat \<Rightarrow> bool" where
  "permits_ok G F W n \<longleftrightarrow>
     distinct (map fst W) \<and> (\<forall>(i, c, f) \<in> set W. i < n \<and> c < length F) \<and>
     G + length (filter (\<lambda>(i, c, f). f) W) = max_followers \<and>
     (\<forall>c < length F. F ! c + length (filter (\<lambda>(i, d, f). f \<and> d = c) W) = max_followers_per_proof)"

lemma table_join:
  assumes "table_ok E S K" and "p \<notin> fst ` set E" and "length E < max_flights"
  shows "table_ok ((p, length S) # E) (S @ [True]) ((p, length S) # K)"
  using assms by (auto simp: table_ok_def nth_append less_Suc_eq)

lemma delete_filter: "AList.delete k xs = filter (\<lambda>(q, _). q \<noteq> k) xs"
  by (induction xs) auto

lemma set_delete_filter: "set (AList.delete k xs) = {x \<in> set xs. fst x \<noteq> k}"
  by (auto simp: delete_filter)

lemma table_drop:
  assumes "table_ok E S K" and "(p, c) \<in> set K"
  shows "table_ok (AList.delete p E) (S[c := False]) (filter (\<lambda>(q, d). d \<noteq> c) K)"
proof -
  from assms have E: "distinct (map fst E)" "set E = set K" and K: "distinct (map snd K)"
    by (simp_all add: table_ok_def)
  have iff: "q = p \<longleftrightarrow> d = c" if "(q, d) \<in> set K" for q d
    using that assms(2) E K
    by (metis (no_types, lifting) eq_key_imp_eq_value inj_onD distinct_map prod.inject snd_conv)
  have "set (AList.delete p E) = {x \<in> set E. fst x \<noteq> p}"
    by (rule set_delete_filter)
  also have "\<dots> = set (filter (\<lambda>(q, d). d \<noteq> c) K)" using iff by (auto simp: E(2)) (use iff in blast)+
  finally have "set (AList.delete p E) = set (filter (\<lambda>(q, d). d \<noteq> c) K)" .
  moreover have "length (AList.delete p E) \<le> max_flights"
    using assms(1) length_delete_le [of p E] by (simp add: table_ok_def)
  moreover have "S[c := False] ! e \<longleftrightarrow> e \<in> snd ` set (filter (\<lambda>(q, d). d \<noteq> c) K)" if "e < length S" for e
  proof -
    have "snd ` set (filter (\<lambda>(q, d). d \<noteq> c) K) = snd ` set K - {c}" by force
    moreover have "S ! e \<longleftrightarrow> e \<in> snd ` set K" using assms(1) that by (simp add: table_ok_def)
    ultimately show ?thesis using that by (cases "e = c") simp_all
  qed
  ultimately show ?thesis
    using assms(1) by (auto simp: table_ok_def distinct_delete distinct_map_filter)
qed

lemma filter_key:
  assumes "distinct (map fst W)" and "(i, x) \<in> set W"
  shows "length (filter P W) = length (filter P (filter (\<lambda>(j, y). j \<noteq> i) W)) + (if P (i, x) then 1 else 0)"
  using assms
proof (induction W)
  case (Cons w W)
  show ?case
  proof (cases "w = (i, x)")
    case True
    with Cons.prems(1) have "filter (\<lambda>(j, y). j \<noteq> i) W = W" by (force simp: filter_id_conv image_iff)
    with True show ?thesis by simp
  next
    case False
    with Cons.prems have "(i, x) \<in> set W" "fst w \<noteq> i" by (auto simp: image_iff)
    with Cons show ?thesis by (auto simp: case_prod_beta)
  qed
qed simp

lemma permits_follow:
  assumes "permits_ok G F W n" and "c < length F" and "G \<noteq> 0" and "F ! c \<noteq> 0"
  shows "permits_ok (G - 1) (F[c := F ! c - 1]) ((n, c, True) # W) (Suc n)"
  using assms by (fastforce simp: permits_ok_def nth_list_update)

lemma permits_lead:
  assumes "permits_ok G F W n"
  shows "permits_ok G (F @ [max_followers_per_proof]) ((n, length F, False) # W) (Suc n)"
proof -
  have "filter (\<lambda>(i, d, f). f \<and> d = length F) W = []"
    using assms by (auto simp: permits_ok_def filter_empty_conv)
  with assms show ?thesis by (fastforce simp: permits_ok_def nth_append less_Suc_eq)
qed

lemma permits_leave:
  assumes "permits_ok G F W n" and "(i, c, f) \<in> set W"
  shows "permits_ok (if f then G + 1 else G) (if f then F[c := F ! c + 1] else F) (filter (\<lambda>(j, _). j \<noteq> i) W) n"
proof -
  have d: "distinct (map fst W)" and c: "c < length F" using assms by (auto simp: permits_ok_def)
  let ?W = "filter (\<lambda>(j, _). j \<noteq> i) W"
  note count = filter_key [OF d assms(2)]
  have "(if f then G + 1 else G) + length (filter (\<lambda>(i, c, f). f) ?W) = max_followers"
    using assms(1) count [of "\<lambda>(i, c, f). f"] by (simp add: permits_ok_def split: if_splits)
  moreover have "(if f then F[c := F ! c + 1] else F) ! e + length (filter (\<lambda>(i, d, f). f \<and> d = e) ?W) =
      max_followers_per_proof" if "e < length F" for e
  proof -
    have "F ! e + length (filter (\<lambda>(i, d, f). f \<and> d = e) W) = max_followers_per_proof"
      using assms(1) that by (simp add: permits_ok_def)
    then show ?thesis
      using that c count [of "\<lambda>(i, d, f). f \<and> d = e"] by (cases "f \<and> c = e") (auto simp: nth_list_update)
  qed
  ultimately show ?thesis
    using assms(1) d by (auto simp: permits_ok_def distinct_map_filter)
qed

text \<open>The parts of a state the two accounts are about.\<close>

definition leader_keys :: "(nat \<times> leader) list \<Rightarrow> (proof_bytes \<times> nat) list" where
  "leader_keys ls = map (\<lambda>(c, l). (ld_proof l, c)) ls"

definition waiter_keys :: "(nat \<times> waiter) list \<Rightarrow> (nat \<times> nat \<times> bool) list" where
  "waiter_keys ws = map (\<lambda>(i, w). (i, wt_channel w, wt_follower w)) ws"

definition flights_ok :: "verifier \<Rightarrow> bool" where
  "flights_ok vs \<longleftrightarrow>
     table_ok (fs_entries (vs_flights vs)) (map ch_sender (fs_channels (vs_flights vs))) (leader_keys (vs_leaders vs)) \<and>
     permits_ok (fs_followers (vs_flights vs)) (map ch_followers (fs_channels (vs_flights vs)))
       (waiter_keys (vs_waiting vs)) (vs_next vs)"

lemma map_with_channel:
  "map g (fs_channels (with_channel fl c f)) =
     (if c < length (fs_channels fl) then (map g (fs_channels fl))[c := g (f (fs_channels fl ! c))]
      else map g (fs_channels fl))"
  by (simp add: with_channel_def map_update list_update_beyond)

lemma map_with_channel_same:
  "(\<And>ch. g (f ch) = g ch) \<Longrightarrow> map g (fs_channels (with_channel fl c f)) = map g (fs_channels fl)"
  by (simp add: map_with_channel list_update_same_conv)

lemma senders_kept [simp]:
  "map ch_sender (fs_channels (with_channel fl c (\<lambda>ch. ch\<lparr>ch_followers := g ch\<rparr>))) = map ch_sender (fs_channels fl)"
  "map ch_sender (fs_channels (with_channel fl c (\<lambda>ch. ch\<lparr>ch_value := v\<rparr>))) = map ch_sender (fs_channels fl)"
  by (rule map_with_channel_same, simp)+

lemma followers_kept [simp]:
  "map ch_followers (fs_channels (with_channel fl c (\<lambda>ch. ch\<lparr>ch_value := v\<rparr>))) = map ch_followers (fs_channels fl)"
  "map ch_followers (fs_channels (with_channel fl c (\<lambda>ch. ch\<lparr>ch_sender := s\<rparr>))) = map ch_followers (fs_channels fl)"
  by (rule map_with_channel_same, simp)+

lemma with_channel_simps [simp]:
  "fs_entries (with_channel fl c f) = fs_entries fl"
  "fs_followers (with_channel fl c f) = fs_followers fl"
  "length (fs_channels (with_channel fl c f)) = length (fs_channels fl)"
  by (simp_all add: with_channel_def)

lemma leader_keys_delete: "leader_keys (AList.delete c ls) = filter (\<lambda>(q, d). d \<noteq> c) (leader_keys ls)"
  by (induction ls) (auto simp: leader_keys_def)

lemma waiter_keys_delete: "waiter_keys (AList.delete i ws) = filter (\<lambda>(j, _). j \<noteq> i) (waiter_keys ws)"
  by (induction ws) (auto simp: waiter_keys_def)

lemma leader_keys_mem: "map_of ls c = Some l \<Longrightarrow> (ld_proof l, c) \<in> set (leader_keys ls)"
  by (force simp: leader_keys_def dest: map_of_SomeD)

lemma waiter_keys_mem: "map_of ws i = Some w \<Longrightarrow> (i, wt_channel w, wt_follower w) \<in> set (waiter_keys ws)"
  by (force simp: waiter_keys_def dest: map_of_SomeD)

lemma leader_keys_stage: "leader_keys (map (\<lambda>(c', l). (c', if c' = c then l\<lparr>ld_stage := st\<rparr> else l)) ls) = leader_keys ls"
  by (auto simp: leader_keys_def)

lemma flights_ok_stage: "flights_ok (set_stage vs c st) = flights_ok vs"
  by (simp add: flights_ok_def set_stage_def leader_keys_stage)

lemma flights_ok_publish: "flights_ok (publish vs c r) = flights_ok vs"
  by (simp add: flights_ok_def publish_def set_stage_def leader_keys_stage send_replace_def)

lemma flights_ok_entry:
  assumes "flights_ok vs" and "map_of (fs_entries (vs_flights vs)) p = Some c"
  shows "c < length (fs_channels (vs_flights vs))"
  using assms map_of_SomeD [OF assms(2)] by (force simp: flights_ok_def table_ok_def)

lemma flights_ok_enter:
  assumes ok: "flights_ok vs"
  shows "flights_ok (snd (enter_verify env vs r))"
proof (cases "key_proof env r")
  case (Some p)
  let ?fl = "vs_flights vs"
  let ?t = "table_ok (fs_entries ?fl) (map ch_sender (fs_channels ?fl)) (leader_keys (vs_leaders vs))"
  have t: ?t and q: "permits_ok (fs_followers ?fl) (map ch_followers (fs_channels ?fl)) (waiter_keys (vs_waiting vs)) (vs_next vs)"
    using ok by (simp_all add: flights_ok_def)
  show ?thesis
  proof (cases "map_of (fs_entries ?fl) p")
    case None
    then have new: "p \<notin> fst ` set (fs_entries ?fl)" by (simp add: map_of_eq_None_iff)
    from table_join [OF t new] permits_lead [OF q] ok None Some show ?thesis
      by (auto simp: enter_verify_def join_def flights_ok_def leader_keys_def waiter_keys_def Let_def)
  next
    case (Some c)
    from flights_ok_entry [OF ok Some] have c: "c < length (map ch_followers (fs_channels ?fl))" by simp
    from permits_follow [OF q c] ok c Some \<open>key_proof env r = _\<close> show ?thesis
      by (auto simp: enter_verify_def join_def flights_ok_def waiter_keys_def Let_def map_with_channel [of ch_followers])
  qed
qed (simp add: enter_verify_def ok)

lemma flights_ok_leave: "flights_ok vs \<Longrightarrow> flights_ok (leave vs i)"
proof (cases "map_of (vs_waiting vs) i")
  case (Some w)
  assume ok: "flights_ok vs"
  then have "permits_ok (fs_followers (vs_flights vs)) (map ch_followers (fs_channels (vs_flights vs)))
      (waiter_keys (vs_waiting vs)) (vs_next vs)" by (simp add: flights_ok_def)
  note q = permits_leave [OF this waiter_keys_mem [OF Some]]
  have "wt_channel w < length (fs_channels (vs_flights vs))"
    using ok waiter_keys_mem [OF Some] by (force simp: flights_ok_def permits_ok_def)
  with q ok Some show ?thesis
    by (auto simp: leave_def flights_ok_def waiting_drop_def map_with_channel [of ch_followers] waiter_keys_delete split: if_splits)
qed (simp add: leave_def)

lemma flights_ok_end: "flights_ok vs \<Longrightarrow> flights_ok (verifier_step env vs (LeaderEnd c))"
proof (cases "map_of (vs_leaders vs) c")
  case (Some l)
  assume ok: "flights_ok vs"
  then have t: "table_ok (fs_entries (vs_flights vs)) (map ch_sender (fs_channels (vs_flights vs))) (leader_keys (vs_leaders vs))"
    by (simp add: flights_ok_def)
  have "c < length (fs_channels (vs_flights vs))"
    using t leader_keys_mem [OF Some] by (force simp: table_ok_def)
  with table_drop [OF t leader_keys_mem [OF Some]] ok Some show ?thesis
    by (auto simp: flights_ok_def leader_drop_def leader_keys_delete map_with_channel [of ch_sender])
qed simp

lemma flights_ok_cong [simp]:
  "flights_ok (vs\<lparr>vs_cache := x\<rparr>) = flights_ok vs"
  "flights_ok (vs\<lparr>vs_clock := t\<rparr>) = flights_ok vs"
  "flights_ok (vs\<lparr>vs_requests := rs\<rparr>) = flights_ok vs"
  by (simp_all add: flights_ok_def)

lemma flights_ok_step:
  assumes ok: "flights_ok vs"
  shows "flights_ok (verifier_step env vs ev)"
proof (cases ev)
  case (Verify r)
  then show ?thesis by (simp add: flights_ok_enter ok)
next
  case (LeaderEnd c)
  then show ?thesis by (simp only: flights_ok_end ok)
qed (auto simp: ok flights_ok_publish flights_ok_stage flights_ok_leave work_check_def
       split: option.splits sum.splits)

lemma flights_ok_initial: "flights_ok (initial_verifier t)"
  by (simp add: flights_ok_def initial_verifier_def default_flights_def table_ok_def permits_ok_def
      leader_keys_def waiter_keys_def)

section \<open>Soundness of shared results\<close>

text \<open>
  A proof is verified if some request of the history has it and its secret passed. The invariant over
  the values of the channels, their proofs, the leaders, the waiting requests, the history and the
  cached proofs: a positive answer, in a channel or in the cache, only stands for a verified proof.
\<close>

abbreviation secret_ok :: "crypto_env \<Rightarrow> auth_request \<Rightarrow> bool" where
  "secret_ok env r \<equiv> verify_secret env (rq_raw r) (rq_hash r) = Ok ()"

definition proof_verified :: "crypto_env \<Rightarrow> auth_request set \<Rightarrow> proof_bytes \<Rightarrow> bool" where
  "proof_verified env R p \<longleftrightarrow> (\<exists>r \<in> R. key_proof env r = Some p \<and> secret_ok env r)"

definition leader_sound ::
  "crypto_env \<Rightarrow> unit gateway_result option list \<Rightarrow> proof_bytes list \<Rightarrow> auth_request set \<Rightarrow> nat \<Rightarrow> leader \<Rightarrow> bool" where
  "leader_sound env V P R c l \<longleftrightarrow>
     c < length P \<and> ld_proof l = P ! c \<and> ld_request l \<in> R \<and> key_proof env (ld_request l) = Some (P ! c) \<and>
     (ld_stage l = Sent \<longleftrightarrow> V ! c \<noteq> None) \<and> (ld_stage l = Verified \<longrightarrow> secret_ok env (ld_request l))"

definition sound ::
  "crypto_env \<Rightarrow> unit gateway_result option list \<Rightarrow> proof_bytes list \<Rightarrow> (nat \<times> leader) set \<Rightarrow> waiter set \<Rightarrow>
   auth_request set \<Rightarrow> proof_bytes set \<Rightarrow> bool" where
  "sound env V P L W R C \<longleftrightarrow>
     length V = length P \<and> (\<forall>(c, l) \<in> L. leader_sound env V P R c l) \<and>
     (\<forall>w \<in> W. wt_channel w < length P \<and> wt_request w \<in> R \<and> key_proof env (wt_request w) = Some (P ! wt_channel w)) \<and>
     (\<forall>p \<in> C. proof_verified env R p) \<and>
     (\<forall>c < length P. V ! c = Some (Ok ()) \<longrightarrow> proof_verified env R (P ! c))"

definition verifier_sound :: "crypto_env \<Rightarrow> verifier \<Rightarrow> bool" where
  "verifier_sound env vs =
     sound env (map ch_value (fs_channels (vs_flights vs))) (vs_proofs vs) (set (vs_leaders vs))
       (snd ` set (vs_waiting vs)) (set (vs_requests vs)) (fst ` set (ce_proofs (vs_cache vs)))"

lemma sound_request: "sound env V P L W R C \<Longrightarrow> sound env V P L W (insert r R) C"
  by (fastforce simp: sound_def leader_sound_def proof_verified_def)

lemma sound_subset: "sound env V P L W R C \<Longrightarrow> L' \<subseteq> L \<Longrightarrow> W' \<subseteq> W \<Longrightarrow> C' \<subseteq> C \<Longrightarrow> sound env V P L' W' R C'"
  by (fastforce simp: sound_def)

lemma sound_lead:
  assumes "sound env V P L W R C" and "r \<in> R" and "key_proof env r = Some p"
  shows "sound env (V @ [None]) (P @ [p]) (insert (length P, \<lparr>ld_proof = p, ld_request = r, ld_stage = Queued\<rparr>) L)
    (insert \<lparr>wt_request = r, wt_channel = length P, wt_follower = f\<rparr> W) R C"
proof -
  have "leader_sound env (V @ [None]) (P @ [p]) R c l" if "(c, l) \<in> L" for c l
    using assms(1) that by (fastforce simp: sound_def leader_sound_def nth_append)
  moreover have "(V @ [None]) ! length P = None"
    using assms(1) nth_append_length [of V None] by (simp add: sound_def del: nth_append_length)
  ultimately show ?thesis
    using assms by (auto simp: sound_def leader_sound_def nth_append less_Suc_eq)
qed

lemma sound_follow:
  assumes "sound env V P L W R C" and "r \<in> R" and "key_proof env r = Some p" and "(c, l) \<in> L" and "ld_proof l = p"
  shows "sound env V P L (insert \<lparr>wt_request = r, wt_channel = c, wt_follower = f\<rparr> W) R C"
  using assms by (fastforce simp: sound_def leader_sound_def)

lemma sound_stage:
  assumes "sound env V P L W R C" and "(c, l) \<in> L" and "secret_ok env (ld_request l)"
    and "ld_stage l = Queued" and unique: "\<forall>l'. (c, l') \<in> L \<longrightarrow> l' = l"
  shows "sound env V P ((\<lambda>(c', l). (c', if c' = c then l\<lparr>ld_stage := Verified\<rparr> else l)) ` L) W R C"
proof -
  have "leader_sound env V P R c (l\<lparr>ld_stage := Verified\<rparr>)"
    using assms(1-4) by (fastforce simp: sound_def leader_sound_def)
  then have "leader_sound env V P R c' (if c' = c then l'\<lparr>ld_stage := Verified\<rparr> else l')"
    if "(c', l') \<in> L" for c' l'
    using that assms(1) unique by (auto simp: sound_def)
  with assms(1) show ?thesis by (auto simp: sound_def)
qed

lemma sound_publish:
  assumes "sound env V P L W R C" and "c < length P" and "v = Ok () \<Longrightarrow> proof_verified env R (P ! c)"
  shows "sound env (V[c := Some v]) P ((\<lambda>(c', l). (c', if c' = c then l\<lparr>ld_stage := Sent\<rparr> else l)) ` L) W R C"
proof -
  have "leader_sound env (V[c := Some v]) P R c' (if c' = c then l\<lparr>ld_stage := Sent\<rparr> else l)"
    if "(c', l) \<in> L" for c' l
    using assms that by (fastforce simp: sound_def leader_sound_def nth_list_update)
  then show ?thesis using assms by (fastforce simp: sound_def nth_list_update)
qed

text \<open>The cache holds no proof but the inserted ones.\<close>

abbreviation cached_proofs :: "cache_entries \<Rightarrow> proof_bytes set" where
  "cached_proofs e \<equiv> fst ` set (ce_proofs e)"

lemma remove_oldest_proofs: "cached_proofs (remove_oldest e) \<subseteq> cached_proofs e"
  by (simp add: remove_oldest_def dom_delete_subset split: list.split)

lemma purge_proofs: "cached_proofs (purge_expired e now) \<subseteq> cached_proofs e"
proof (induction e now rule: purge_expired.induct)
  case (1 e now)
  show ?case
  proof (cases "ce_order e")
    case Nil
    then show ?thesis by (simp add: purge_expired.simps [of e])
  next
    case (Cons p rest)
    with subset_trans [OF 1 [OF Cons] remove_oldest_proofs] show ?thesis
      by (simp add: purge_expired.simps [of e])
  qed
qed

lemma evict_proofs: "cached_proofs (evict e now) \<subseteq> cached_proofs e"
proof (induction e now rule: evict.induct)
  case (1 e now)
  show ?case
  proof (cases "ce_order e")
    case Nil
    then show ?thesis by (simp add: evict.simps [of e])
  next
    case (Cons p rest)
    show ?thesis
    proof (cases "length (ce_proofs e) < cache_capacity \<and> cache_contains e p now")
      case False
      then have "evict e now = evict (remove_oldest e) now"
        using Cons by (simp only: evict.simps [of e] list.case if_False)
      with subset_trans [OF 1 [OF Cons False] remove_oldest_proofs] show ?thesis by simp
    qed (simp add: evict.simps [of e] Cons)
  qed
qed

lemma insert_proofs: "cached_proofs (cache_insert e p now) \<subseteq> insert p (cached_proofs e)"
  using evict_proofs [of e now] by (auto simp: cache_insert_def Let_def)

lemma contains_cached: "cache_contains e p now \<Longrightarrow> p \<in> cached_proofs e"
  by (force simp: cache_contains_def split: option.splits dest: map_of_SomeD)

lemma values_kept [simp]:
  "map ch_value (fs_channels (with_channel fl c (\<lambda>ch. ch\<lparr>ch_followers := g ch\<rparr>))) = map ch_value (fs_channels fl)"
  "map ch_value (fs_channels (with_channel fl c (\<lambda>ch. ch\<lparr>ch_sender := s\<rparr>))) = map ch_value (fs_channels fl)"
  by (rule map_with_channel_same, simp)+

lemma sound_set_stage:
  "set (vs_leaders (set_stage vs c st)) =
     (\<lambda>(c', l). (c', if c' = c then l\<lparr>ld_stage := st\<rparr> else l)) ` set (vs_leaders vs)"
  by (simp add: set_stage_def)

lemma sound_after_publish:
  assumes "verifier_sound env vs" and "map_of (vs_leaders vs) c = Some l"
    and "v = Ok () \<Longrightarrow> proof_verified env (set (vs_requests vs)) (ld_proof l)"
  shows "verifier_sound env (publish vs c v)"
proof -
  from assms(1) map_of_SomeD [OF assms(2)]
  have c: "c < length (vs_proofs vs)" "ld_proof l = vs_proofs vs ! c"
    and len: "length (fs_channels (vs_flights vs)) = length (vs_proofs vs)"
    by (auto simp: verifier_sound_def sound_def leader_sound_def)
  from sound_publish [OF assms(1) [unfolded verifier_sound_def] c(1), of v] assms(3) c len show ?thesis
    by (simp add: verifier_sound_def publish_def sound_set_stage send_replace_def map_with_channel [of ch_value])
      (simp add: set_stage_def)
qed

lemma sound_after_enter:
  assumes ok: "flights_ok vs" and sd: "verifier_sound env vs"
  shows "verifier_sound env (snd (enter_verify env vs r))"
proof (cases "key_proof env r")
  case (Some p)
  let ?fl = "vs_flights vs" and ?R = "insert r (set (vs_requests vs))"
  have sr: "sound env (map ch_value (fs_channels ?fl)) (vs_proofs vs) (set (vs_leaders vs))
      (snd ` set (vs_waiting vs)) ?R (cached_proofs (vs_cache vs))"
    using sd by (simp add: verifier_sound_def sound_request)
  have len: "length (fs_channels ?fl) = length (vs_proofs vs)" using sr by (simp add: sound_def)
  show ?thesis
  proof (cases "map_of (fs_entries ?fl) p")
    case None
    from sound_lead [OF sr _ \<open>key_proof env r = Some p\<close>] sr None Some show ?thesis
      by (simp add: enter_verify_def join_def verifier_sound_def Let_def len)
  next
    case (Some c)
    then have "(p, c) \<in> set (leader_keys (vs_leaders vs))"
      using ok map_of_SomeD [OF Some] by (simp add: flights_ok_def table_ok_def)
    then obtain l where "(c, l) \<in> set (vs_leaders vs)" "ld_proof l = p" by (auto simp: leader_keys_def)
    from sound_follow [OF sr _ \<open>key_proof env r = Some p\<close> this] sr Some \<open>key_proof env r = Some p\<close> show ?thesis
      by (simp add: enter_verify_def join_def verifier_sound_def Let_def)
  qed
qed (simp add: enter_verify_def sd)

lemma sound_after_leave: "verifier_sound env vs \<Longrightarrow> verifier_sound env (leave vs i)"
proof (cases "map_of (vs_waiting vs) i")
  case (Some w)
  assume "verifier_sound env vs"
  then show ?thesis using Some
    by (auto simp: leave_def waiting_drop_def verifier_sound_def set_delete_filter intro: sound_subset)
qed (simp add: leave_def)

lemma sound_after_check:
  assumes ok: "flights_ok vs" and sd: "verifier_sound env vs" and l: "leader_at vs c Queued = Some l"
  shows "verifier_sound env (work_check env vs c l)"
proof -
  from l have m: "map_of (vs_leaders vs) c = Some l" and q: "ld_stage l = Queued"
    by (auto simp: leader_at_def split: option.splits if_splits)
  have cached: "proof_verified env (set (vs_requests vs)) p" if "cache_contains (vs_cache vs) p t" for p t
    using sd contains_cached [OF that] by (auto simp: verifier_sound_def sound_def)
  have "distinct (map fst (vs_leaders vs))"
    using ok by (simp add: flights_ok_def table_ok_def leader_keys_def case_prod_beta comp_def)
  then have "\<forall>l'. (c, l') \<in> set (vs_leaders vs) \<longrightarrow> l' = l" using map_of_SomeD [OF m] eq_key_imp_eq_value by fast
  from sound_stage [OF sd [unfolded verifier_sound_def] map_of_SomeD [OF m] _ q this]
  have "verifier_sound env (set_stage vs c Verified)" if "secret_ok env (ld_request l)"
    using that by (simp add: verifier_sound_def sound_set_stage) (simp add: set_stage_def)
  then show ?thesis
    using sound_after_publish [OF sd m] cached by (auto simp: work_check_def split: sum.splits)
qed

lemma sound_after_insert:
  assumes sd: "verifier_sound env vs" and l: "leader_at vs c Verified = Some l"
  shows "verifier_sound env (verifier_step env vs (WorkInsert c))"
proof -
  from l have m: "map_of (vs_leaders vs) c = Some l" and q: "ld_stage l = Verified"
    by (auto simp: leader_at_def split: option.splits if_splits)
  let ?vs = "vs\<lparr>vs_cache := cache_insert (vs_cache vs) (ld_proof l) (vs_clock vs)\<rparr>"
  from sd map_of_SomeD [OF m] q have p: "proof_verified env (set (vs_requests vs)) (ld_proof l)"
    by (fastforce simp: verifier_sound_def sound_def leader_sound_def proof_verified_def)
  moreover have "\<forall>x \<in> cached_proofs (vs_cache vs). proof_verified env (set (vs_requests vs)) x"
    using sd unfolding verifier_sound_def sound_def by (elim conjE)
  ultimately have "\<forall>x \<in> cached_proofs (cache_insert (vs_cache vs) (ld_proof l) (vs_clock vs)).
      proof_verified env (set (vs_requests vs)) x"
    using insert_proofs [THEN subsetD] by (metis insert_iff)
  with sd have "verifier_sound env ?vs" by (simp add: verifier_sound_def sound_def)
  from sound_after_publish [OF this, of c l] m p l show ?thesis by simp
qed

lemma verifier_sound_step:
  assumes ok: "flights_ok vs" and sd: "verifier_sound env vs"
  shows "verifier_sound env (verifier_step env vs ev)"
proof (cases ev)
  case Maintenance
  with sd purge_proofs [of "vs_cache vs" "vs_clock vs"] show ?thesis
    by (auto simp: verifier_sound_def intro: sound_subset)
next
  case (LeaderEnd c)
  with sd show ?thesis
    by (auto simp: verifier_sound_def leader_drop_def set_delete_filter intro: sound_subset split: option.splits)
next
  case (WorkInsert c)
  with sound_after_insert [OF sd] sd show ?thesis by (cases "leader_at vs c Verified") auto
next
  case (WorkFailed c f)
  then show ?thesis
    using sd by (auto simp: leader_at_def split: option.splits if_splits intro!: sound_after_publish)
next
  case (Tick d)
  then show ?thesis using sd by (simp add: verifier_sound_def)
next
  case (ComputeProof r)
  then show ?thesis using sd by (simp add: verifier_sound_def sound_request)
qed (auto simp: sd sound_after_enter [OF ok sd] sound_after_leave sound_after_check [OF ok sd] split: option.splits)

lemma verifier_sound_initial: "verifier_sound env (initial_verifier t)"
  by (simp add: verifier_sound_def initial_verifier_def default_flights_def empty_entries_def sound_def)

text \<open>The states the verifier reaches, under one invariant.\<close>

definition verifier_ok :: "crypto_env \<Rightarrow> verifier \<Rightarrow> bool" where
  "verifier_ok env vs \<longleftrightarrow> flights_ok vs \<and> verifier_sound env vs \<and> cache_invar (vs_cache vs, vs_clock vs)"

lemma cache_invar_step:
  assumes "cache_invar (vs_cache vs, vs_clock vs)"
  shows "cache_invar (vs_cache (verifier_step env vs ev), vs_clock (verifier_step env vs ev))"
proof -
  have insert: "cache_invar (cache_insert (vs_cache vs) p (vs_clock vs), vs_clock vs)" for p
    using cache.step_invar [OF assms, of "InsertProof p 0"] by simp
  have purge: "cache_invar (purge_expired (vs_cache vs) (vs_clock vs), vs_clock vs)"
    using cache.step_invar [OF assms, of "PurgeTick 0"] by simp
  have tick: "cache_invar (vs_cache vs, vs_clock vs + d)" for d
    using assms dated_later by simp
  show ?thesis
    using assms insert purge tick
    by (cases ev) (auto simp: enter_verify_def work_check_def publish_def set_stage_def leave_def Let_def
        simp del: cache_invar.simps split: option.splits sum.splits prod.splits)
qed

interpretation flight: invariant_system "verifier_step env" "verifier_ok env" for env
  by unfold_locales (simp add: verifier_ok_def flights_ok_step verifier_sound_step cache_invar_step del: cache_invar.simps)

lemma verifier_ok_initial: "verifier_ok env (initial_verifier t)"
  using cache_invar_empty [of t]
  by (simp add: verifier_ok_def flights_ok_initial verifier_sound_initial del: cache_invar.simps)
    (simp add: initial_verifier_def)

lemmas reachable_ok = flight.run_invar [OF verifier_ok_initial]

section \<open>Properties\<close>

lemma leaders_of_entries:
  assumes "flights_ok vs"
  shows "length (vs_leaders vs) = length (fs_entries (vs_flights vs))"
proof -
  from assms have E: "distinct (map fst (fs_entries (vs_flights vs)))"
    and K: "distinct (map snd (leader_keys (vs_leaders vs)))"
    and eq: "set (fs_entries (vs_flights vs)) = set (leader_keys (vs_leaders vs))"
    by (simp_all add: flights_ok_def table_ok_def)
  from distinct_card [OF distinct_map [THEN iffD1, THEN conjunct1, OF E]]
    distinct_card [OF distinct_map [THEN iffD1, THEN conjunct1, OF K]] eq
  show ?thesis by (simp add: leader_keys_def)
qed

text \<open>
  C30 (bounds): whatever the interleaving of requests, leaders, wake-ups, timeouts and cancellations,
  at most ten verifications are in flight, each with a live leader task and no two with the same proof;
  the free follower permits and the waiting followers add up to 64 over all proofs and to 63 on each
  channel, so no permit is lost or made up and no counter passes zero.
\<close>

theorem flights_bounded:
  assumes "vs = foldl (verifier_step env) (initial_verifier t) evs"
    and "c < length (fs_channels (vs_flights vs))"
  shows "length (fs_entries (vs_flights vs)) \<le> 10 \<and> distinct (map fst (fs_entries (vs_flights vs))) \<and>
    length (vs_leaders vs) = length (fs_entries (vs_flights vs)) \<and>
    fs_followers (vs_flights vs) + length (filter wt_follower (map snd (vs_waiting vs))) = 64 \<and>
    ch_followers (fs_channels (vs_flights vs) ! c) +
      length (filter (\<lambda>w. wt_follower w \<and> wt_channel w = c) (map snd (vs_waiting vs))) = 63"
proof -
  have ok: "flights_ok vs" using reachable_ok [of env t evs] assms(1) by (simp add: verifier_ok_def)
  then have "permits_ok (fs_followers (vs_flights vs)) (map ch_followers (fs_channels (vs_flights vs)))
      (waiter_keys (vs_waiting vs)) (vs_next vs)" by (simp add: flights_ok_def)
  with assms(2) have "fs_followers (vs_flights vs) + length (filter wt_follower (map snd (vs_waiting vs))) = 64"
    "ch_followers (fs_channels (vs_flights vs) ! c) +
      length (filter (\<lambda>w. wt_follower w \<and> wt_channel w = c) (map snd (vs_waiting vs))) = 63"
    by (simp_all add: permits_ok_def waiter_keys_def filter_map comp_def case_prod_beta
        max_followers_def max_followers_per_proof_def)
  with ok leaders_of_entries [OF ok] show ?thesis
    by (simp add: flights_ok_def table_ok_def max_flights_def)
qed

definition sample_crypto :: crypto_env where
  "sample_crypto = \<lparr>cv_secret = Some ''s'', cv_hmac = (\<lambda>s x. x), cv_parses_hash = (\<lambda>_. True),
     cv_argon2 = (\<lambda>raw hash. raw = hash)\<rparr>"

definition sample_request :: auth_request where
  "sample_request = \<lparr>rq_id = ''id'', rq_raw = ''key'', rq_hash = ''key''\<rparr>"

definition sample_verifier :: verifier where
  "sample_verifier =
     foldl (verifier_step sample_crypto) (initial_verifier 0) [Verify sample_request, Verify sample_request]"

lemma sample_key_proof: "key_proof sample_crypto sample_request = Some (proof_input sample_request)"
  by (simp add: key_proof_def sample_crypto_def)

lemmas sample_simps = sample_verifier_def sample_key_proof enter_verify_def join_def initial_verifier_def
  default_flights_def empty_entries_def cache_contains_def with_channel_def
  max_flights_def max_followers_def max_followers_per_proof_def

theorem flights_bounded_witness:
  "length (fs_entries (vs_flights sample_verifier)) \<le> 10 \<and>
   fs_followers (vs_flights sample_verifier) = 63"
proof -
  have "0 < length (fs_channels (vs_flights sample_verifier))"
    "length (filter wt_follower (map snd (vs_waiting sample_verifier))) = 1"
    by (simp_all add: sample_simps Let_def)
  with flights_bounded [OF sample_verifier_def, of 0] show ?thesis by simp
qed

text \<open>What a waiting request sees, in terms of the values and the senders of the channels.\<close>

lemma wait_poll_maps:
  "c < length (fs_channels fl) \<Longrightarrow> wait_poll fl c =
     (case map ch_value (fs_channels fl) ! c of
        Some r \<Rightarrow> Some r
      | None \<Rightarrow> if map ch_sender (fs_channels fl) ! c then None else Some (Err AuthenticationOverloaded))"
  by (simp add: wait_poll_def Let_def split: option.splits)

lemma waiter_channel:
  assumes "verifier_ok env vs" and "map_of (vs_waiting vs) i = Some w"
  shows "wt_channel w < length (fs_channels (vs_flights vs))" and "i < vs_next vs"
  using assms waiter_keys_mem [OF assms(2)] by (force simp: verifier_ok_def flights_ok_def permits_ok_def)+

lemma sender_iff_leader:
  assumes "flights_ok vs" and "c < length (fs_channels (vs_flights vs))"
  shows "ch_sender (fs_channels (vs_flights vs) ! c) \<longleftrightarrow> (\<exists>l. map_of (vs_leaders vs) c = Some l)"
proof -
  have "ch_sender (fs_channels (vs_flights vs) ! c) \<longleftrightarrow> c \<in> snd ` set (leader_keys (vs_leaders vs))"
    using assms by (simp add: flights_ok_def table_ok_def)
  also have "\<dots> \<longleftrightarrow> c \<in> fst ` set (vs_leaders vs)" by (force simp: leader_keys_def)
  also have "\<dots> \<longleftrightarrow> map_of (vs_leaders vs) c \<noteq> None" by (simp add: map_of_eq_None_iff)
  finally show ?thesis by auto
qed

lemma leader_value:
  assumes "verifier_ok env vs" and "map_of (vs_leaders vs) c = Some l"
  shows "c < length (fs_channels (vs_flights vs))" and "ch_sender (fs_channels (vs_flights vs) ! c)"
    and "ld_stage l = Sent \<longleftrightarrow> ch_value (fs_channels (vs_flights vs) ! c) \<noteq> None"
proof -
  from assms map_of_SomeD [OF assms(2)]
  show c: "c < length (fs_channels (vs_flights vs))"
    and "ld_stage l = Sent \<longleftrightarrow> ch_value (fs_channels (vs_flights vs) ! c) \<noteq> None"
    by (fastforce simp: verifier_ok_def verifier_sound_def sound_def leader_sound_def)+
  show "ch_sender (fs_channels (vs_flights vs) ! c)"
    using sender_iff_leader [OF _ c] assms by (simp add: verifier_ok_def)
qed

lemma poll_maps:
  assumes "map_of (vs_waiting vs) i = Some w" and "wt_channel w < length (fs_channels (vs_flights vs))"
  shows "poll vs i = (case ch_value (fs_channels (vs_flights vs) ! wt_channel w) of
      Some r \<Rightarrow> Some r
    | None \<Rightarrow> if ch_sender (fs_channels (vs_flights vs) ! wt_channel w) then None
              else Some (Err AuthenticationOverloaded))"
  using assms by (simp add: poll_def wait_poll_def Let_def)

lemma poll_publish:
  assumes "map_of (vs_waiting vs) i = Some w" and "wt_channel w < length (fs_channels (vs_flights vs))"
  shows "poll (publish vs c v) i = (if wt_channel w = c then Some v else poll vs i)"
proof -
  let ?vs = "publish vs c v"
  have w: "map_of (vs_waiting ?vs) i = Some w" "wt_channel w < length (fs_channels (vs_flights ?vs))"
    using assms by (simp_all add: publish_def set_stage_def send_replace_def)
  have ch: "fs_channels (vs_flights ?vs) = (fs_channels (vs_flights vs))[c := (fs_channels (vs_flights vs) ! c)\<lparr>ch_value := Some v\<rparr>]"
    by (simp add: publish_def send_replace_def with_channel_def)
  show ?thesis
    unfolding poll_maps [OF w] poll_maps [OF assms] ch using assms(2) by (cases "wt_channel w = c") simp_all
qed

lemma poll_stage [simp]: "poll (set_stage vs c st) i = poll vs i"
  by (cases "map_of (vs_waiting vs) i") (simp_all add: poll_def set_stage_def)

lemma poll_cong [simp]:
  "poll (vs\<lparr>vs_cache := x\<rparr>) i = poll vs i"
  "poll (vs\<lparr>vs_clock := t\<rparr>) i = poll vs i"
  "poll (vs\<lparr>vs_requests := rs\<rparr>) i = poll vs i"
  by (cases "map_of (vs_waiting vs) i"; simp add: poll_def)+

lemma nth_followers [simp]:
  "ch_value (xs[c := (xs ! c)\<lparr>ch_followers := n\<rparr>] ! d) = ch_value (xs ! d)"
  "ch_sender (xs[c := (xs ! c)\<lparr>ch_followers := n\<rparr>] ! d) = ch_sender (xs ! d)"
  by (cases "c < length xs"; simp add: nth_list_update list_update_beyond)+

lemma poll_enter:
  assumes "verifier_ok env vs" and "map_of (vs_waiting vs) i = Some w"
  shows "poll (snd (enter_verify env vs r)) i = poll vs i"
proof -
  note w = waiter_channel [OF assms]
  have "map_of (vs_waiting (snd (enter_verify env vs r))) i = Some w"
    using assms(2) w(2) by (auto simp: enter_verify_def Let_def split: option.split sum.split prod.split)
  moreover have "ch_value (fs_channels (vs_flights (snd (enter_verify env vs r))) ! wt_channel w) =
      ch_value (fs_channels (vs_flights vs) ! wt_channel w)
    \<and> ch_sender (fs_channels (vs_flights (snd (enter_verify env vs r))) ! wt_channel w) =
      ch_sender (fs_channels (vs_flights vs) ! wt_channel w)
    \<and> wt_channel w < length (fs_channels (vs_flights (snd (enter_verify env vs r))))"
    using w(1) by (auto simp: enter_verify_def join_def with_channel_def nth_append Let_def
        split: option.split sum.split prod.split)
  ultimately show ?thesis by (simp add: poll_maps [of _ _ w] assms(2) w(1))
qed

lemma poll_leave:
  assumes "verifier_ok env vs" and "map_of (vs_waiting vs) i = Some w" and "j \<noteq> i"
  shows "poll (leave vs j) i = poll vs i"
proof -
  note w = waiter_channel [OF assms(1,2)]
  have "map_of (vs_waiting (leave vs j)) i = Some w"
    using assms by (simp add: leave_def split: option.split)
  moreover have "ch_value (fs_channels (vs_flights (leave vs j)) ! wt_channel w) =
      ch_value (fs_channels (vs_flights vs) ! wt_channel w)
    \<and> ch_sender (fs_channels (vs_flights (leave vs j)) ! wt_channel w) =
      ch_sender (fs_channels (vs_flights vs) ! wt_channel w)
    \<and> wt_channel w < length (fs_channels (vs_flights (leave vs j)))"
    using w(1) by (auto simp: leave_def waiting_drop_def with_channel_def split: option.split)
  ultimately show ?thesis by (simp add: poll_maps [of _ _ w] assms(2) w(1))
qed

lemma poll_end:
  assumes "verifier_ok env vs" and "map_of (vs_waiting vs) i = Some w"
  shows "poll (verifier_step env vs (LeaderEnd c)) i =
    (if c = wt_channel w \<and> poll vs i = None then Some (Err AuthenticationOverloaded) else poll vs i)"
proof (cases "map_of (vs_leaders vs) c")
  case None
  note w = waiter_channel [OF assms]
  have "poll vs i \<noteq> None" if "c = wt_channel w"
    using sender_iff_leader [OF _ w(1)] assms None that
    by (simp add: verifier_ok_def poll_maps [OF assms(2) w(1)] split: option.split)
  with None show ?thesis by auto
next
  case (Some l)
  note w = waiter_channel [OF assms] and l = leader_value [OF assms(1) Some]
  let ?vs = "verifier_step env vs (LeaderEnd c)"
  have m: "map_of (vs_waiting ?vs) i = Some w" using assms(2) Some by simp
  have ch: "fs_channels (vs_flights ?vs) = (fs_channels (vs_flights vs))[c := (fs_channels (vs_flights vs) ! c)\<lparr>ch_sender := False\<rparr>]"
    using Some by (simp add: leader_drop_def with_channel_def)
  then have len: "wt_channel w < length (fs_channels (vs_flights ?vs))" using w(1) by simp
  show ?thesis
    unfolding poll_maps [OF m len] poll_maps [OF assms(2) w(1)] ch
    using w(1) l by (cases "wt_channel w = c") (auto split: option.split)
qed

lemma leader_at_value:
  assumes "verifier_ok env vs" and "leader_at vs c st = Some l" and "st \<noteq> Sent"
    and "map_of (vs_waiting vs) i = Some w" and "wt_channel w = c"
  shows "poll vs i = None"
proof -
  from assms(2,3) have m: "map_of (vs_leaders vs) c = Some l" and "ld_stage l \<noteq> Sent"
    by (auto simp: leader_at_def split: option.splits if_splits)
  with leader_value [OF assms(1) m] assms(4,5) show ?thesis by (simp add: poll_maps)
qed

text \<open>An answer stays until the request takes it or leaves.\<close>

lemma poll_stable:
  assumes ok: "verifier_ok env vs" and w: "map_of (vs_waiting vs) i = Some w"
    and x: "poll vs i = Some x" and ev: "ev \<noteq> Wake i" "ev \<noteq> Leave i"
  shows "poll (verifier_step env vs ev) i = Some x \<and> map_of (vs_waiting (verifier_step env vs ev)) i = Some w"
proof -
  note wc = waiter_channel [OF ok w]
  have other: "leader_at vs c st = Some l \<Longrightarrow> st \<noteq> Sent \<Longrightarrow> wt_channel w \<noteq> c" for c st l
    using leader_at_value [OF ok _ _ w] x by fastforce
  have pub: "poll (publish vs c v) i = Some x \<and> map_of (vs_waiting (publish vs c v)) i = Some w"
    if "wt_channel w \<noteq> c" for c v
    using that poll_publish [OF w wc(1)] x w by (simp add: publish_def set_stage_def)
  show ?thesis
  proof (cases ev)
    case (Verify r)
    have "map_of (vs_waiting (snd (enter_verify env vs r))) i = Some w"
      using w wc(2) by (auto simp: enter_verify_def Let_def split: option.split sum.split prod.split)
    with poll_enter [OF ok w] x Verify show ?thesis by simp
  next
    case (LeaderEnd c)
    with poll_end [OF ok w, of c] x w show ?thesis by (simp split: option.split)
  next
    case (WorkCheck c)
    then show ?thesis
      using pub other [of c Queued] x w
      by (auto simp: work_check_def set_stage_def poll_stage [unfolded set_stage_def] split: option.split sum.split)
  next
    case (WorkInsert c)
    have "poll (publish (vs\<lparr>vs_cache := y\<rparr>) c v) i = Some x" if "wt_channel w \<noteq> c" for y v
      using that poll_publish [of "vs\<lparr>vs_cache := y\<rparr>" i w c v] x w wc(1) by simp
    with WorkInsert show ?thesis
      using other [of c Verified] x w by (auto simp: publish_def set_stage_def split: option.split)
  next
    case (WorkFailed c f)
    then show ?thesis using pub other [of c Queued] x w by (auto split: option.split)
  next
    case (Wake j)
    then show ?thesis
      using poll_leave [OF ok w, of j] ev x w by (simp add: leave_def split: option.split)
  next
    case (Leave j)
    then show ?thesis
      using poll_leave [OF ok w, of j] ev x w by (simp add: leave_def split: option.split)
  qed (use x w in simp_all)
qed

lemma poll_stable_run:
  "verifier_ok env vs \<Longrightarrow> map_of (vs_waiting vs) i = Some w \<Longrightarrow> poll vs i = Some x \<Longrightarrow>
   Wake i \<notin> set es \<Longrightarrow> Leave i \<notin> set es \<Longrightarrow> poll (foldl (verifier_step env) vs es) i = Some x"
proof (induction es arbitrary: vs)
  case (Cons ev es)
  with poll_stable [of env vs i w x ev] flight.step_invar [of env vs ev] show ?case by (metis foldl_Cons list.set_intros)
qed simp

lemma leader_at_set_stage:
  "map_of (vs_leaders vs) c = Some l \<Longrightarrow> leader_at (set_stage vs c st) c st = Some (l\<lparr>ld_stage := st\<rparr>)"
proof -
  have "map_of (map (\<lambda>(c', l). (c', if c' = c then l\<lparr>ld_stage := st\<rparr> else l)) ls) c =
      map_option (\<lambda>l. l\<lparr>ld_stage := st\<rparr>) (map_of ls c)" for ls :: "(nat \<times> leader) list"
    by (induction ls) auto
  then show "map_of (vs_leaders vs) c = Some l \<Longrightarrow> ?thesis" by (simp add: leader_at_def set_stage_def)
qed

text \<open>The two steps of a leader whose job the executor runs give every waiting request its answer.\<close>

lemma work_answers:
  assumes ok: "verifier_ok env vs" and w: "map_of (vs_waiting vs) i = Some w"
  shows "poll (foldl (verifier_step env) vs [WorkCheck (wt_channel w), WorkInsert (wt_channel w)]) i \<noteq> None"
proof (cases "poll vs i")
  case (Some x)
  with poll_stable_run [OF ok w Some, of "[WorkCheck (wt_channel w), WorkInsert (wt_channel w)]"] show ?thesis by simp
next
  case None
  let ?c = "wt_channel w"
  note wc = waiter_channel [OF ok w]
  from None have "ch_value (fs_channels (vs_flights vs) ! ?c) = None" "ch_sender (fs_channels (vs_flights vs) ! ?c)"
    by (auto simp: poll_maps [OF w wc(1)] split: option.splits if_splits)
  with sender_iff_leader [OF _ wc(1)] ok obtain l where l: "map_of (vs_leaders vs) ?c = Some l"
    by (auto simp: verifier_ok_def)
  with leader_value [OF ok l] \<open>ch_value _ = None\<close> have ns: "ld_stage l \<noteq> Sent" by simp
  let ?s1 = "verifier_step env vs (WorkCheck ?c)"
  have ok1: "verifier_ok env ?s1" by (rule flight.step_invar [OF ok])
  have "poll ?s1 i \<noteq> None \<and> map_of (vs_waiting ?s1) i = Some w \<or>
      (\<exists>l'. leader_at ?s1 ?c Verified = Some l') \<and> map_of (vs_waiting ?s1) i = Some w"
  proof (cases "ld_stage l")
    case Queued
    then have s1: "?s1 = work_check env vs ?c l" using l by (simp add: leader_at_def)
    have pub: "poll (publish vs ?c v) i \<noteq> None \<and> map_of (vs_waiting (publish vs ?c v)) i = Some w" for v
      using poll_publish [OF w wc(1), of ?c v] w by (simp add: publish_def set_stage_def)
    have "map_of (vs_waiting (set_stage vs ?c Verified)) i = Some w" using w by (simp add: set_stage_def)
    with pub leader_at_set_stage [OF l, of Verified] show ?thesis
      unfolding s1 work_check_def by (auto split: sum.split)
  next
    case Verified
    with l w show ?thesis by (simp add: leader_at_def)
  qed (use ns in simp)
  then show ?thesis
  proof (elim disjE conjE exE)
    fix l' assume "leader_at ?s1 ?c Verified = Some l'" and m: "map_of (vs_waiting ?s1) i = Some w"
    then show ?thesis
      using poll_publish [of "?s1\<lparr>vs_cache := x\<rparr>" i w ?c "Ok ()" for x] waiter_channel [OF ok1 m] by simp
  next
    assume "poll ?s1 i \<noteq> None" and "map_of (vs_waiting ?s1) i = Some w"
    with poll_stable [OF ok1] show ?thesis by fastforce
  qed
qed

text \<open>
  C31 (liveness): no waiting request is forgotten. In every reachable state a request without an answer
  has a live leader; the steps of that leader's job give it an answer, and so does the end of the leader
  task, even one that panicked or was shut down; an answer, once given, stays whatever the others do
  until the request takes it or leaves.
\<close>

theorem waiters_answered:
  assumes "vs = foldl (verifier_step env) (initial_verifier t) evs"
    and "map_of (vs_waiting vs) i = Some w"
  shows "(poll vs i = None \<longrightarrow> (\<exists>l. map_of (vs_leaders vs) (wt_channel w) = Some l)) \<and>
    poll (foldl (verifier_step env) vs [WorkCheck (wt_channel w), WorkInsert (wt_channel w)]) i \<noteq> None \<and>
    poll (verifier_step env vs (LeaderEnd (wt_channel w))) i \<noteq> None \<and>
    (poll vs i = Some x \<longrightarrow> Wake i \<notin> set es \<longrightarrow> Leave i \<notin> set es \<longrightarrow>
       poll (foldl (verifier_step env) vs es) i = Some x)"
proof -
  have ok: "verifier_ok env vs" using reachable_ok [of env t evs] assms(1) by simp
  note wc = waiter_channel [OF ok assms(2)]
  have "\<exists>l. map_of (vs_leaders vs) (wt_channel w) = Some l" if "poll vs i = None"
    using that sender_iff_leader [OF _ wc(1)] ok
    by (auto simp: verifier_ok_def poll_maps [OF assms(2) wc(1)] split: option.splits if_splits)
  then show ?thesis
    using work_answers [OF ok assms(2)] poll_end [OF ok assms(2), of "wt_channel w"]
      poll_stable_run [OF ok assms(2)] by auto
qed

theorem waiters_answered_witness:
  "poll sample_verifier 1 = None \<and>
   poll (foldl (verifier_step sample_crypto) sample_verifier [WorkCheck 0, WorkInsert 0]) 1 \<noteq> None"
proof -
  have w: "map_of (vs_waiting sample_verifier) 1 = Some \<lparr>wt_request = sample_request, wt_channel = 0, wt_follower = True\<rparr>"
    by (simp add: sample_simps Let_def)
  have "poll sample_verifier 1 = None" by (simp add: sample_simps poll_def wait_poll_def Let_def)
  with waiters_answered [OF sample_verifier_def w] show ?thesis by simp
qed

end
