(* ===== verification/Key_Authentication.thy ===== *)
theory Key_Authentication
  imports Verification_Flight Rust_Strings
begin

text \<open>
  Authentication of virtual keys (\<open>gateway-core/src/auth.rs\<close>): the form of a key, the state of the stored
  key, and the authenticator with its two lookups around a verification that may be cached or shared.
  The key store is an argument, one function per lookup, because its content may change in between;
  so are the time that passes and what the other tasks do while a request waits.
\<close>

section \<open>Keys\<close>

definition max_key_bytes :: nat where
  "max_key_bytes = 1024"

definition validate_key_text :: "string \<Rightarrow> unit gateway_result" where
  "validate_key_text v =
     (if max_key_bytes < length v \<or> \<not> list_all (\<lambda>b. is_ascii_graphic b \<and> b \<noteq> CHR '','') v
      then Err MalformedAuthorization else Ok ())"

definition relayna_key_prefix :: string where
  "relayna_key_prefix = ''rk_live_''"

definition lookup_prefix_len :: nat where
  "lookup_prefix_len = 16"

record virtual_key =
  vk_raw :: string
  vk_prefix :: string

text \<open>The text is ASCII once \<open>validate_key_text\<close> has passed, so the first 16 characters are 16 bytes.\<close>

definition virtual_key_parse :: "string \<Rightarrow> virtual_key gateway_result" where
  "virtual_key_parse raw =
     and_then (validate_key_text raw) (\<lambda>_.
     if \<not> starts_with raw relayna_key_prefix \<or> length raw \<le> lookup_prefix_len then Err MalformedAuthorization
     else Ok \<lparr>vk_raw = raw, vk_prefix = take lookup_prefix_len raw\<rparr>)"

definition from_authorization :: "string \<Rightarrow> virtual_key gateway_result" where
  "from_authorization v =
     (case strip_prefix ''Bearer '' v of
        None \<Rightarrow> Err MalformedAuthorization
      | Some token \<Rightarrow> virtual_key_parse (trim token))"

record stored_virtual_key =
  sv_id :: string
  sv_project_id :: "string option"
  sv_key_prefix :: string
  sv_key_hash :: string
  sv_disabled :: bool
  sv_revoked_at :: "int option"
  sv_expires_at :: "int option"

record authenticated_key =
  ak_key_id :: string
  ak_project_id :: "string option"
  ak_key_prefix :: string

definition validate_key_state :: "stored_virtual_key \<Rightarrow> int \<Rightarrow> unit gateway_result" where
  "validate_key_state s now =
     (if sv_revoked_at s \<noteq> None then Err RevokedVirtualKey
      else if sv_disabled s then Err DisabledVirtualKey
      else if (case sv_expires_at s of Some expiry \<Rightarrow> expiry \<le> now | None \<Rightarrow> False) then Err ExpiredVirtualKey
      else Ok ())"

section \<open>The authenticator\<close>

text \<open>
  What a request meets: a free lookup permit or none, the answers of the two lookups, the time passed at
  each check of the key state and at the end, the answer of the executor for a verification that is not
  shared, and the steps of the other tasks while it waits for a shared one.
\<close>

record auth_env =
  ae_crypto :: crypto_env
  ae_lookup_free :: bool
  ae_find :: "string \<Rightarrow> stored_virtual_key option gateway_result"
  ae_refind :: "string \<Rightarrow> stored_virtual_key option gateway_result"
  ae_found_after :: int
  ae_refound_after :: int
  ae_used_after :: int
  ae_direct :: "crypto_failure option"
  ae_schedule :: "verifier_event list"

definition request_of :: "stored_virtual_key \<Rightarrow> virtual_key \<Rightarrow> auth_request" where
  "request_of s key = \<lparr>rq_id = sv_id s, rq_raw = vk_raw key, rq_hash = sv_key_hash s\<rparr>"

text \<open>
  \<open>verification_flight::verify\<close> to its end: a waiting request takes its answer, or its deadline passes.
\<close>

definition flight_verify :: "auth_env \<Rightarrow> verifier \<Rightarrow> auth_request \<Rightarrow> unit gateway_result \<times> verifier" where
  "flight_verify ae vs r =
     (case enter_verify (ae_crypto ae) vs r of
        (Inl answer, vs) \<Rightarrow>
          (if key_proof (ae_crypto ae) r = None
           then case ae_direct ae of None \<Rightarrow> answer | Some f \<Rightarrow> Err (crypto_error f)
           else answer, vs)
      | (Inr i, vs) \<Rightarrow>
          let vs = foldl (verifier_step (ae_crypto ae)) vs (ae_schedule ae)
          in (case poll vs i of Some answer \<Rightarrow> answer | None \<Rightarrow> Err AuthenticationOverloaded, leave vs i))"

text \<open>The result, the verifier afterwards and the call of \<open>mark_key_used\<close>, whose result is ignored.\<close>

type_synonym auth_outcome = "authenticated_key gateway_result \<times> verifier \<times> (string \<times> int) option"

definition authenticated :: "stored_virtual_key \<Rightarrow> authenticated_key" where
  "authenticated s = \<lparr>ak_key_id = sv_id s, ak_project_id = sv_project_id s, ak_key_prefix = sv_key_prefix s\<rparr>"

definition lookup_key :: "(string \<Rightarrow> stored_virtual_key option gateway_result) \<Rightarrow> virtual_key \<Rightarrow> int \<Rightarrow>
    stored_virtual_key gateway_result" where
  "lookup_key find_by_prefix key now =
     and_then (find_by_prefix (vk_prefix key)) (\<lambda>found.
     and_then (ok_or found InvalidVirtualKey) (\<lambda>s.
     and_then (validate_key_state s now) (\<lambda>_. Ok s)))"

definition authenticate_virtual_key :: "auth_env \<Rightarrow> verifier \<Rightarrow> virtual_key \<Rightarrow> int \<Rightarrow> auth_outcome" where
  "authenticate_virtual_key ae vs key now =
     (if \<not> ae_lookup_free ae then (Err AuthenticationOverloaded, vs, None)
      else case lookup_key (ae_find ae) key (now + ae_found_after ae) of
        Inl e \<Rightarrow> (Err e, vs, None)
      | Inr stored \<Rightarrow>
          let r = request_of stored key;
              vs = verifier_step (ae_crypto ae) vs (ComputeProof r)
          in if cached (ae_crypto ae) vs r
             then (Ok (authenticated stored), vs, Some (sv_id stored, now + ae_used_after ae))
             else (case flight_verify ae vs r of
                 (Inl e, vs) \<Rightarrow> (Err e, vs, None)
               | (Inr _, vs) \<Rightarrow>
                   (case lookup_key (ae_refind ae) key (now + ae_refound_after ae) of
                      Inl e \<Rightarrow> (Err e, vs, None)
                    | Inr refreshed \<Rightarrow>
                        if sv_id refreshed \<noteq> sv_id stored \<or> sv_key_hash refreshed \<noteq> sv_key_hash stored
                        then (Err InvalidVirtualKey, vs, None)
                        else (Ok (authenticated refreshed), vs, Some (sv_id refreshed, now + ae_used_after ae)))))"

definition authenticate_parsed ::
  "auth_env \<Rightarrow> verifier \<Rightarrow> virtual_key gateway_result \<Rightarrow> int \<Rightarrow> auth_outcome" where
  "authenticate_parsed ae vs key now =
     (case key of Inl e \<Rightarrow> (Err e, vs, None) | Inr k \<Rightarrow> authenticate_virtual_key ae vs k now)"

definition authenticate_authorization :: "auth_env \<Rightarrow> verifier \<Rightarrow> string option \<Rightarrow> int \<Rightarrow> auth_outcome" where
  "authenticate_authorization ae vs authorization now =
     authenticate_parsed ae vs
       (and_then (ok_or authorization MissingAuthorization) (\<lambda>a.
        if max_key_bytes + 16 < length a then Err MalformedAuthorization else from_authorization a)) now"

definition authenticate_raw_key :: "auth_env \<Rightarrow> verifier \<Rightarrow> string option \<Rightarrow> int \<Rightarrow> auth_outcome" where
  "authenticate_raw_key ae vs raw_key now =
     authenticate_parsed ae vs
       (and_then (ok_or raw_key MissingAuthorization) (\<lambda>raw.
        if max_key_bytes + 16 < length raw then Err MalformedAuthorization else virtual_key_parse (trim raw))) now"

section \<open>Proofs identify requests\<close>

lemma le_digits_inj:
  fixes n m :: nat
  assumes "n < 256 ^ k" and "m < 256 ^ k" and "\<forall>i < k. n div 256 ^ i mod 256 = m div 256 ^ i mod 256"
  shows "n = m"
  using assms
proof (induction k arbitrary: n m)
  case (Suc k)
  have "n div 256 = m div 256"
  proof (rule Suc.IH)
    show "n div 256 < 256 ^ k" "m div 256 < 256 ^ k"
      using Suc.prems(1,2) by (simp_all add: less_mult_imp_div_less mult.commute)
    show "\<forall>i < k. n div 256 div 256 ^ i mod 256 = m div 256 div 256 ^ i mod 256"
      using Suc.prems(3) by (metis Suc_less_eq div_mult2_eq power_Suc)
  qed
  moreover have "n mod 256 = m mod 256" using Suc.prems(3) [rule_format, of 0] by simp
  ultimately show ?case by (metis div_mult_mod_eq)
qed simp

lemma le_bytes_inj: "n < 2 ^ 64 \<Longrightarrow> m < 2 ^ 64 \<Longrightarrow> le_bytes n = le_bytes m \<Longrightarrow> n = m"
proof (rule le_digits_inj [of n 8 m])
  assume eq: "le_bytes n = le_bytes m"
  show "\<forall>i < 8. n div 256 ^ i mod 256 = m div 256 ^ i mod 256"
  proof (intro allI impI)
    fix i :: nat assume "i < 8"
    with eq have "char_of (n div 256 ^ i mod 256) = (char_of (m div 256 ^ i mod 256) :: char)"
      by (simp only: le_bytes_def map_eq_conv set_upt atLeastLessThan_iff) simp
    from arg_cong [where f = "of_char :: char \<Rightarrow> nat", OF this]
    show "n div 256 ^ i mod 256 = m div 256 ^ i mod 256" by simp
  qed
qed simp_all

lemma length_le_bytes [simp]: "length (le_bytes n) = 8"
  by (simp add: le_bytes_def)

definition request_wf :: "auth_request \<Rightarrow> bool" where
  "request_wf r \<longleftrightarrow> length (rq_id r) = 16 \<and> length (rq_hash r) < 2 ^ 64"

lemma proof_input_inj:
  assumes "request_wf r" and "request_wf r'" and "proof_input r = proof_input r'"
  shows "r = r'"
proof -
  have "rq_id r = rq_id r'" "le_bytes (length (rq_hash r)) = le_bytes (length (rq_hash r'))"
    and tl: "rq_hash r @ rq_raw r = rq_hash r' @ rq_raw r'"
    using assms by (auto simp: request_wf_def proof_input_def)
  with le_bytes_inj assms have "length (rq_hash r) = length (rq_hash r')" by (simp add: request_wf_def)
  with tl \<open>rq_id r = rq_id r'\<close> show ?thesis by simp
qed

text \<open>
  The keyed hash tells the requests of a history apart: no two of them with different contents have the
  same proof.
\<close>

definition collision_free :: "crypto_env \<Rightarrow> auth_request list \<Rightarrow> bool" where
  "collision_free env rs \<longleftrightarrow>
     (\<forall>r \<in> set rs. \<forall>r' \<in> set rs. key_proof env r = key_proof env r' \<longrightarrow> proof_input r = proof_input r')"

lemma verified_request:
  assumes "proof_verified env (set rs) p" and "key_proof env r = Some p" and "r \<in> set rs"
    and "collision_free env rs" and "list_all request_wf rs"
  shows "secret_ok env r"
  using assms proof_input_inj unfolding proof_verified_def collision_free_def list_all_iff by metis

section \<open>A positive answer means a verified secret\<close>

text \<open>A waiting request keeps its number and its contents.\<close>

lemma step_waiting:
  "map_of (vs_waiting (verifier_step env vs ev)) i = Some w \<Longrightarrow> i < vs_next vs \<Longrightarrow>
   map_of (vs_waiting vs) i = Some w \<and> i < vs_next (verifier_step env vs ev)"
proof (cases ev)
  case (Verify r)
  then show "map_of (vs_waiting (verifier_step env vs ev)) i = Some w \<Longrightarrow> i < vs_next vs \<Longrightarrow> ?thesis"
    by (auto simp: enter_verify_def Let_def split: option.splits sum.splits prod.splits if_splits)
next
  case (WorkCheck c)
  then show "map_of (vs_waiting (verifier_step env vs ev)) i = Some w \<Longrightarrow> i < vs_next vs \<Longrightarrow> ?thesis"
    by (auto simp: work_check_def publish_def set_stage_def split: option.splits sum.splits if_splits)
qed (auto simp: publish_def set_stage_def leave_def delete_conv split: option.splits if_splits)

lemma run_waiting:
  "map_of (vs_waiting (foldl (verifier_step env) vs evs)) i = Some w \<Longrightarrow> i < vs_next vs \<Longrightarrow>
   map_of (vs_waiting vs) i = Some w"
proof (induction evs arbitrary: vs)
  case (Cons ev evs)
  from Cons.prems(2) have "i < vs_next (verifier_step env vs ev)"
    by (cases ev) (auto simp: enter_verify_def work_check_def publish_def set_stage_def leave_def Let_def
        split: option.splits sum.splits prod.splits)
  with Cons step_waiting [of env vs ev i w] show ?case by simp
qed simp

lemma step_requests: "set (vs_requests vs) \<subseteq> set (vs_requests (verifier_step env vs ev))"
  by (cases ev) (auto simp: enter_verify_def work_check_def publish_def set_stage_def leave_def Let_def
      split: option.splits sum.splits prod.splits)

lemma run_requests: "set (vs_requests vs) \<subseteq> set (vs_requests (foldl (verifier_step env) vs evs))"
proof (induction evs arbitrary: vs)
  case (Cons ev evs)
  then show ?case using subset_trans [OF step_requests Cons.IH] by simp
qed simp

lemma cached_verified:
  assumes "verifier_ok env vs" and "cached env vs r"
  shows "\<exists>p. key_proof env r = Some p \<and> proof_verified env (set (vs_requests vs)) p"
proof -
  from assms(2) obtain p where p: "key_proof env r = Some p" "cache_contains (vs_cache vs) p (vs_clock vs)"
    by (auto simp: cached_def split: option.splits)
  have "\<forall>x \<in> cached_proofs (vs_cache vs). proof_verified env (set (vs_requests vs)) x"
    using assms(1) unfolding verifier_ok_def verifier_sound_def sound_def by (elim conjE)
  with p contains_cached [OF p(2)] show ?thesis by auto
qed

lemma poll_verified:
  assumes "verifier_ok env vs" and "map_of (vs_waiting vs) i = Some w" and "poll vs i = Some (Ok ())"
  shows "\<exists>p. key_proof env (wt_request w) = Some p \<and> proof_verified env (set (vs_requests vs)) p"
proof -
  note c = waiter_channel(1) [OF assms(1,2)]
  have "ch_value (fs_channels (vs_flights vs) ! wt_channel w) = Some (Ok ())"
    using assms(3) by (auto simp: poll_maps [OF assms(2) c] split: option.splits if_splits)
  moreover have "w \<in> snd ` set (vs_waiting vs)" using map_of_SomeD [OF assms(2)] by force
  ultimately show ?thesis
    using assms(1) c unfolding verifier_ok_def verifier_sound_def sound_def by auto
qed

lemma enter_waiting:
  assumes "enter_verify env vs r = (Inr i, vs')"
  shows "\<exists>w. map_of (vs_waiting vs') i = Some w \<and> wt_request w = r" and "i < vs_next vs'"
  using assms by (auto simp: enter_verify_def Let_def split: option.splits sum.splits prod.splits if_splits)

lemma flight_verify_ok:
  assumes ok: "verifier_ok (ae_crypto ae) vs" and v: "flight_verify ae vs r = (Ok (), vs')"
    and rs: "r \<in> set (vs_requests vs)" "collision_free (ae_crypto ae) (vs_requests vs')"
      "list_all request_wf (vs_requests vs')"
  shows "secret_ok (ae_crypto ae) r"
proof (cases "enter_verify (ae_crypto ae) vs r")
  case (Pair out vs1)
  let ?env = "ae_crypto ae"
  have vs1: "vs1 = verifier_step ?env vs (Verify r)" by (simp add: Pair)
  have ok1: "verifier_ok ?env vs1" unfolding vs1 by (rule flight.step_invar [OF ok])
  have r1: "r \<in> set (vs_requests vs1)" using step_requests rs(1) vs1 by blast
  show ?thesis
  proof (cases out)
    case (Inl answer)
    with v Pair have vs': "vs' = vs1" by (simp add: flight_verify_def)
    show ?thesis
    proof (cases "key_proof ?env r")
      case None
      with v Pair Inl show ?thesis
        by (auto simp: flight_verify_def enter_verify_def split: option.splits)
    next
      case (Some p)
      with v Pair Inl have "answer = Ok ()" by (simp add: flight_verify_def)
      with Some Pair Inl have "cache_contains (vs_cache vs) p (vs_clock vs)"
        by (auto simp: enter_verify_def Let_def split: if_splits sum.splits prod.splits)
      with Some have "cached ?env vs r" by (simp add: cached_def)
      from cached_verified [OF ok this] Some have "proof_verified ?env (set (vs_requests vs)) p" by auto
      then have "proof_verified ?env (set (vs_requests vs1)) p"
        using step_requests [of vs ?env "Verify r"] vs1 unfolding proof_verified_def by blast
      from verified_request [OF this Some r1] rs vs' show ?thesis by simp
    qed
  next
    case (Inr i)
    let ?vs2 = "foldl (verifier_step ?env) vs1 (ae_schedule ae)"
    from v Pair Inr have p: "poll ?vs2 i = Some (Ok ())" and vs': "vs' = leave ?vs2 i"
      by (auto simp: flight_verify_def Let_def split: option.splits)
    from p obtain w where w: "map_of (vs_waiting ?vs2) i = Some w" by (auto simp: poll_def split: option.splits)
    from enter_waiting Pair Inr run_waiting [OF w] have "wt_request w = r" by fastforce
    with poll_verified [OF flight.run_invar [OF ok1] w p] obtain q where
      q: "key_proof ?env r = Some q" "proof_verified ?env (set (vs_requests ?vs2)) q" by auto
    have "vs_requests vs' = vs_requests ?vs2" unfolding vs' by (simp add: leave_def split: option.split)
    with verified_request [OF q(2,1)] run_requests [of vs1 ?env "ae_schedule ae"] r1 rs show ?thesis by auto
  qed
qed

section \<open>Properties\<close>

text \<open>What an accepted lookup says of the stored key at that moment.\<close>

definition key_usable :: "stored_virtual_key \<Rightarrow> int \<Rightarrow> bool" where
  "key_usable s now \<longleftrightarrow> sv_revoked_at s = None \<and> \<not> sv_disabled s \<and>
     (case sv_expires_at s of Some expiry \<Rightarrow> now < expiry | None \<Rightarrow> True)"

lemma validate_key_state_Ok: "validate_key_state s now = Ok () \<longleftrightarrow> key_usable s now"
  by (auto simp: validate_key_state_def key_usable_def split: option.splits)

lemma lookup_key_Ok:
  "lookup_key find_by_prefix key now = Ok s \<longleftrightarrow> find_by_prefix (vk_prefix key) = Ok (Some s) \<and> key_usable s now"
  by (auto simp: lookup_key_def validate_key_state_Ok)

lemma virtual_key_parse_Ok:
  assumes "virtual_key_parse raw = Ok key"
  shows "vk_raw key = raw \<and> vk_prefix key = take 16 raw \<and> starts_with raw ''rk_live_'' \<and>
    16 < length raw \<and> length raw \<le> 1024"
  using assms by (auto simp: virtual_key_parse_def validate_key_text_def relayna_key_prefix_def
      lookup_prefix_len_def max_key_bytes_def split: if_splits)

lemma authenticate_virtual_key_Ok:
  assumes ok: "verifier_ok (ae_crypto ae) vs"
    and a: "authenticate_virtual_key ae vs key now = (Ok ak, vs', used)"
    and rs: "collision_free (ae_crypto ae) (vs_requests vs')" "list_all request_wf (vs_requests vs')"
  shows "\<exists>s. secret_ok (ae_crypto ae) (request_of s key) \<and> ak = authenticated s \<and>
    used = Some (sv_id s, now + ae_used_after ae) \<and>
    (if cached (ae_crypto ae) vs (request_of s key)
     then ae_find ae (vk_prefix key) = Ok (Some s) \<and> key_usable s (now + ae_found_after ae)
     else ae_refind ae (vk_prefix key) = Ok (Some s) \<and> key_usable s (now + ae_refound_after ae))"
proof -
  from a obtain s where s: "ae_find ae (vk_prefix key) = Ok (Some s)" "key_usable s (now + ae_found_after ae)"
    and l: "lookup_key (ae_find ae) key (now + ae_found_after ae) = Ok s"
    by (auto simp: authenticate_virtual_key_def lookup_key_Ok split: if_splits sum.splits)
  let ?env = "ae_crypto ae" and ?r = "request_of s key"
  define vs1 where "vs1 = verifier_step ?env vs (ComputeProof ?r)"
  have ok1: "verifier_ok ?env vs1" unfolding vs1_def by (rule flight.step_invar [OF ok])
  have r1: "?r \<in> set (vs_requests vs1)" by (simp add: vs1_def)
  have same: "cached ?env vs1 q = cached ?env vs q" for q
    by (cases "key_proof ?env q") (simp_all add: vs1_def cached_def)
  show ?thesis
  proof (cases "cached ?env vs1 ?r")
    case True
    with a l have "vs' = vs1" "ak = authenticated s" "used = Some (sv_id s, now + ae_used_after ae)"
      by (auto simp: authenticate_virtual_key_def vs1_def [symmetric] Let_def simp del: verifier_step.simps split: if_splits)
    moreover from cached_verified [OF ok1 True] obtain p where
      "key_proof ?env ?r = Some p" "proof_verified ?env (set (vs_requests vs1)) p" by auto
    ultimately show ?thesis using verified_request [of ?env "vs_requests vs1" p ?r] r1 rs s True by (auto simp: same)
  next
    case False
    with a l have "\<exists>s'. flight_verify ae vs1 ?r = (Ok (), vs') \<and>
        lookup_key (ae_refind ae) key (now + ae_refound_after ae) = Ok s' \<and> sv_id s' = sv_id s \<and>
        sv_key_hash s' = sv_key_hash s \<and> ak = authenticated s' \<and> used = Some (sv_id s', now + ae_used_after ae)"
      by (auto simp: authenticate_virtual_key_def vs1_def [symmetric] Let_def simp del: verifier_step.simps
          split: if_splits sum.splits prod.splits)
    then obtain s' where v: "flight_verify ae vs1 ?r = (Ok (), vs')"
      and s': "lookup_key (ae_refind ae) key (now + ae_refound_after ae) = Ok s'" "sv_id s' = sv_id s"
        "sv_key_hash s' = sv_key_hash s" "ak = authenticated s'" "used = Some (sv_id s', now + ae_used_after ae)" by auto
    from flight_verify_ok [OF ok1 v r1 rs] s'(3) have "secret_ok ?env (request_of s' key)"
      by (simp add: request_of_def)
    moreover have "\<not> cached ?env vs (request_of s' key)"
      using False s' by (simp add: same request_of_def)
    ultimately show ?thesis using s' by (intro exI [of _ s']) (simp add: lookup_key_Ok)
  qed
qed

text \<open>
  C32 (safety): a key is accepted only if it has the form of a Relayna key, the store held, at the last
  lookup the request made, an entry for its prefix that was neither revoked nor disabled nor expired,
  and its secret verifies against the hash of that entry, whether the verification was cached, shared
  with other requests or its own, and whatever the other tasks did meanwhile. The caller gets the
  identity of that entry. The keyed hash is assumed to tell the requests of the history apart.
\<close>

theorem authentication_sound:
  assumes "vs = foldl (verifier_step (ae_crypto ae)) (initial_verifier t) evs"
    and "authenticate_raw_key ae vs (Some raw) now = (Ok ak, vs', used)"
    and "collision_free (ae_crypto ae) (vs_requests vs')" and "list_all request_wf (vs_requests vs')"
  shows "starts_with (trim raw) ''rk_live_'' \<and> 16 < length (trim raw) \<and> length (trim raw) \<le> 1024 \<and>
    (\<exists>s. verify_secret (ae_crypto ae) (trim raw) (sv_key_hash s) = Ok () \<and>
       ak = authenticated s \<and> used = Some (sv_id s, now + ae_used_after ae) \<and>
       (if cached (ae_crypto ae) vs \<lparr>rq_id = sv_id s, rq_raw = trim raw, rq_hash = sv_key_hash s\<rparr>
        then ae_find ae (take 16 (trim raw)) = Ok (Some s) \<and> key_usable s (now + ae_found_after ae)
        else ae_refind ae (take 16 (trim raw)) = Ok (Some s) \<and> key_usable s (now + ae_refound_after ae)))"
proof -
  have ok: "verifier_ok (ae_crypto ae) vs" using reachable_ok assms(1) by simp
  from assms(2) obtain key where k: "virtual_key_parse (trim raw) = Ok key"
    and a: "authenticate_virtual_key ae vs key now = (Ok ak, vs', used)"
    by (auto simp: authenticate_raw_key_def authenticate_parsed_def split: if_splits sum.splits)
  from authenticate_virtual_key_Ok [OF ok a assms(3,4)] virtual_key_parse_Ok [OF k] show ?thesis
    by (simp only: request_of_def auth_request.simps)
qed

text \<open>A verification that nothing stands in the way of succeeds and leaves its proof in the cache.\<close>

lemma flight_verify_fresh:
  assumes ok: "verifier_ok (ae_crypto ae) vs" and p: "key_proof (ae_crypto ae) r = Some p"
    and new: "\<not> cached (ae_crypto ae) vs r" "map_of (fs_entries (vs_flights vs)) p = None"
    and few: "length (fs_entries (vs_flights vs)) < 10" and s: "secret_ok (ae_crypto ae) r"
    and c: "c = length (fs_channels (vs_flights vs))" "ae_schedule ae = [WorkCheck c, WorkInsert c]"
  shows "\<exists>vs'. flight_verify ae vs r = (Ok (), vs') \<and> vs_requests vs' = r # vs_requests vs \<and>
    cached (ae_crypto ae) vs' r"
proof -
  have nc: "\<not> cache_contains (vs_cache vs) p (vs_clock vs)" using new(1) p by (simp add: cached_def)
  have "consistent (vs_cache vs)" "dated_upto (vs_clock vs) (view (vs_cache vs))"
    using ok by (simp_all add: verifier_ok_def)
  note ins = contains_insert [OF this, of p]
  show ?thesis
    using p nc new(2) few s ins
    by (simp add: flight_verify_def enter_verify_def join_def max_flights_def c work_check_def leader_at_def
        set_stage_def publish_def send_replace_def with_channel_def poll_def wait_poll_def leave_def
        waiting_drop_def cached_def nth_append Let_def)
qed

lemma authenticate_fresh:
  assumes ok: "verifier_ok (ae_crypto ae) vs" and free: "ae_lookup_free ae"
    and parse: "virtual_key_parse (trim raw) = Ok key" and len: "length raw \<le> 1040"
    and found: "ae_find ae (vk_prefix key) = Ok (Some s)" "ae_refind ae (vk_prefix key) = Ok (Some s)"
    and usable: "key_usable s (now + ae_found_after ae)" "key_usable s (now + ae_refound_after ae)"
    and r: "r = request_of s key" and p: "key_proof (ae_crypto ae) r = Some p"
    and new: "\<not> cached (ae_crypto ae) vs r" "map_of (fs_entries (vs_flights vs)) p = None"
    and few: "length (fs_entries (vs_flights vs)) < 10" and sec: "secret_ok (ae_crypto ae) r"
    and c: "c = length (fs_channels (vs_flights vs))" "ae_schedule ae = [WorkCheck c, WorkInsert c]"
  shows "\<exists>vs'. authenticate_raw_key ae vs (Some raw) now =
      (Ok (authenticated s), vs', Some (sv_id s, now + ae_used_after ae)) \<and>
    vs_requests vs' = r # r # vs_requests vs \<and> cached (ae_crypto ae) vs' r"
proof -
  let ?vs1 = "verifier_step (ae_crypto ae) vs (ComputeProof r)"
  have ok1: "verifier_ok (ae_crypto ae) ?vs1" by (rule flight.step_invar [OF ok])
  have new1: "\<not> cached (ae_crypto ae) ?vs1 r" using new(1) p by (simp add: cached_def)
  from flight_verify_fresh [OF ok1 p new1] new(2) few sec c obtain vs' where
    v: "flight_verify ae ?vs1 r = (Ok (), vs')" "vs_requests vs' = r # r # vs_requests vs" "cached (ae_crypto ae) vs' r"
    by auto
  have "lookup_key (ae_find ae) key (now + ae_found_after ae) = Ok s"
    "lookup_key (ae_refind ae) key (now + ae_refound_after ae) = Ok s"
    using found usable by (simp_all add: lookup_key_Ok)
  then have "authenticate_virtual_key ae vs key now =
      (Ok (authenticated s), vs', Some (sv_id s, now + ae_used_after ae))"
    using free v(1) new1 by (simp add: authenticate_virtual_key_def r Let_def del: verifier_step.simps)
  with parse len v show ?thesis
    by (simp add: authenticate_raw_key_def authenticate_parsed_def max_key_bytes_def)
qed

text \<open>
  C33 (functional): a valid key is accepted. If a lookup permit is free, the key is well formed, the store
  holds the same usable entry at both lookups, the secret verifies, the verification is neither cached
  nor in flight and a flight is free, then the request becomes a leader, and once its job has run it
  gets the identity of the entry, its use is recorded, and the next request with this key finds the
  verification cached.
\<close>

theorem authentication_complete:
  assumes "vs = foldl (verifier_step (ae_crypto ae)) (initial_verifier t) evs" and "ae_lookup_free ae"
    and "virtual_key_parse (trim raw) = Ok key" and "length raw \<le> 1040"
    and "ae_find ae (vk_prefix key) = Ok (Some s)" "ae_refind ae (vk_prefix key) = Ok (Some s)"
    and "key_usable s (now + ae_found_after ae)" "key_usable s (now + ae_refound_after ae)"
    and "r = request_of s key" and "key_proof (ae_crypto ae) r = Some p"
    and "\<not> cached (ae_crypto ae) vs r" "map_of (fs_entries (vs_flights vs)) p = None"
    and "length (fs_entries (vs_flights vs)) < 10" and "verify_secret (ae_crypto ae) (rq_raw r) (rq_hash r) = Ok ()"
    and "c = length (fs_channels (vs_flights vs))" "ae_schedule ae = [WorkCheck c, WorkInsert c]"
  shows "\<exists>vs'. authenticate_raw_key ae vs (Some raw) now =
      (Ok (authenticated s), vs', Some (sv_id s, now + ae_used_after ae)) \<and> cached (ae_crypto ae) vs' r"
  using authenticate_fresh [of ae vs raw key s now r p c] reachable_ok [of "ae_crypto ae" t evs] assms by blast

definition sample_stored :: stored_virtual_key where
  "sample_stored = \<lparr>sv_id = replicate 16 CHR ''k'', sv_project_id = None, sv_key_prefix = ''rk_live_12345678'',
     sv_key_hash = ''rk_live_1234567890'', sv_disabled = False, sv_revoked_at = None, sv_expires_at = Some 100\<rparr>"

definition sample_auth :: "verifier_event list \<Rightarrow> auth_env" where
  "sample_auth es = \<lparr>ae_crypto = sample_crypto, ae_lookup_free = True, ae_find = (\<lambda>_. Ok (Some sample_stored)),
     ae_refind = (\<lambda>_. Ok (Some sample_stored)), ae_found_after = 1, ae_refound_after = 2, ae_used_after = 3,
     ae_direct = None, ae_schedule = es\<rparr>"

lemma sample_parse:
  "trim ''rk_live_1234567890'' = ''rk_live_1234567890''"
  "virtual_key_parse ''rk_live_1234567890'' = Ok \<lparr>vk_raw = ''rk_live_1234567890'', vk_prefix = ''rk_live_12345678''\<rparr>"
  by code_simp+

lemma sample_proof: "key_proof sample_crypto r = Some (proof_input r)"
  by (simp add: key_proof_def sample_crypto_def)

lemma sample_not_cached: "\<not> cached sample_crypto (initial_verifier 0) r"
  by (simp add: cached_def sample_proof cache_contains_def initial_verifier_def empty_entries_def)

definition sample_key :: virtual_key where
  "sample_key = \<lparr>vk_raw = ''rk_live_1234567890'', vk_prefix = ''rk_live_12345678''\<rparr>"

lemmas sample_auth_simps = sample_auth_def sample_stored_def sample_key_def key_usable_def
  initial_verifier_def default_flights_def request_of_def

theorem authentication_complete_witness:
  "\<exists>vs'. authenticate_raw_key (sample_auth [WorkCheck 0, WorkInsert 0]) (initial_verifier 0)
       (Some ''rk_live_1234567890'') 5 = (Ok (authenticated sample_stored), vs', Some (sv_id sample_stored, 8))"
proof -
  let ?ae = "sample_auth [WorkCheck 0, WorkInsert 0]" and ?r = "request_of sample_stored sample_key"
  have "\<exists>vs'. authenticate_raw_key ?ae (initial_verifier 0) (Some ''rk_live_1234567890'') 5 =
      (Ok (authenticated sample_stored), vs', Some (sv_id sample_stored, 5 + ae_used_after ?ae)) \<and>
      cached (ae_crypto ?ae) vs' ?r"
  proof (rule authentication_complete [where t = 0 and evs = "[]" and key = sample_key and p = "proof_input ?r" and c = 0])
    show "verify_secret (ae_crypto ?ae) (rq_raw ?r) (rq_hash ?r) = Ok ()"
      by (simp add: sample_auth_simps verify_secret_def sample_crypto_def)
    show "key_proof (ae_crypto ?ae) ?r = Some (proof_input ?r)"
      by (simp add: sample_auth_def sample_proof)
    show "\<not> cached (ae_crypto ?ae) (initial_verifier 0) ?r"
      by (simp add: sample_auth_def sample_not_cached)
    show "virtual_key_parse (trim ''rk_live_1234567890'') = Ok sample_key"
      by (simp only: sample_parse sample_key_def)
  qed (simp_all add: sample_auth_simps)
  then show ?thesis by (auto simp: sample_auth_def)
qed

theorem authentication_sound_witness:
  "\<exists>vs'. authenticate_raw_key (sample_auth [WorkCheck 0, WorkInsert 0]) (initial_verifier 0)
       (Some ''rk_live_1234567890'') 5 = (Ok (authenticated sample_stored), vs', Some (sv_id sample_stored, 8)) \<and>
     starts_with ''rk_live_1234567890'' ''rk_live_''"
proof -
  let ?ae = "sample_auth [WorkCheck 0, WorkInsert 0]" and ?r = "request_of sample_stored sample_key"
  have "\<exists>vs'. authenticate_raw_key ?ae (initial_verifier 0) (Some ''rk_live_1234567890'') 5 =
      (Ok (authenticated sample_stored), vs', Some (sv_id sample_stored, 5 + ae_used_after ?ae)) \<and>
      vs_requests vs' = ?r # ?r # vs_requests (initial_verifier 0) \<and> cached (ae_crypto ?ae) vs' ?r"
  proof (rule authenticate_fresh [where key = sample_key and p = "proof_input ?r" and c = 0])
    show "verify_secret (ae_crypto ?ae) (rq_raw ?r) (rq_hash ?r) = Ok ()"
      by (simp add: sample_auth_simps verify_secret_def sample_crypto_def)
    show "key_proof (ae_crypto ?ae) ?r = Some (proof_input ?r)"
      by (simp add: sample_auth_def sample_proof)
    show "\<not> cached (ae_crypto ?ae) (initial_verifier 0) ?r"
      by (simp add: sample_auth_def sample_not_cached)
    show "virtual_key_parse (trim ''rk_live_1234567890'') = Ok sample_key"
      by (simp only: sample_parse sample_key_def)
  qed (use verifier_ok_initial in \<open>simp_all add: sample_auth_simps\<close>)
  then obtain vs' where a: "authenticate_raw_key ?ae (initial_verifier 0) (Some ''rk_live_1234567890'') 5 =
      (Ok (authenticated sample_stored), vs', Some (sv_id sample_stored, 8))" and rs: "vs_requests vs' = [?r, ?r]"
    by (auto simp: sample_auth_def initial_verifier_def)
  have "initial_verifier 0 = foldl (verifier_step (ae_crypto ?ae)) (initial_verifier 0) []" by simp
  from authentication_sound [OF this a] rs a show ?thesis
    by (auto simp: collision_free_def request_wf_def sample_parse sample_auth_simps)
qed

end
