(* ===== verification/F64_Order.thy ===== *)
theory F64_Order
  imports F64
begin

text \<open>
  Monotonicity of rounding and of the arithmetic of non-negative \<open>f64\<close> values, which makes a
  comparison of computed amounts mean something.
\<close>

section \<open>Powers of two and exponents\<close>

lemma pow2_powi: "pow2 e = 2 powi e"
  by (simp add: pow2_def power_int_def field_simps)

lemma pow2_plus: "pow2 (a + b) = pow2 a * pow2 b"
  by (simp add: pow2_powi power_int_add)

lemma pow2_minus: "pow2 (a - b) = pow2 a / pow2 b"
  by (simp add: pow2_powi power_int_diff)

lemma pow2_less: "pow2 a < pow2 b \<longleftrightarrow> a < b"
proof
  assume "pow2 a < pow2 b"
  then show "a < b" using pow2_mono [of b a] by linarith
next
  assume "a < b"
  then have "2 * pow2 a \<le> pow2 b" using pow2_mono [of "a + 1" b] by (simp add: pow2_Suc)
  then show "pow2 a < pow2 b" using pow2_pos [of a] by linarith
qed

lemma exponent_bounds:
  assumes "0 < x"
  shows "pow2 (exponent x) \<le> x" and "x < pow2 (exponent x + 1)"
proof -
  obtain p q where pq: "quotient_of x = (p, q)" by fastforce
  have q: "0 < q" using pq by (rule quotient_of_denom_pos)
  have x: "x = of_int p / of_int q" using pq by (rule quotient_of_div)
  have p: "0 < p" using assms q x by (simp add: zero_less_divide_iff)
  have bit: "pow2 (bitlen n - 1) \<le> of_int n" "of_int n < pow2 (bitlen n)" if "0 < n" for n
  proof -
    have "1 \<le> bitlen n" using that bitlen_nonneg [of n] bitlen_eq_zero_iff [of n] by linarith
    with bitlen_bounds [OF that] show "pow2 (bitlen n - 1) \<le> of_int n" "of_int n < pow2 (bitlen n)"
      by (simp_all add: pow2_nat del: of_int_power)
  qed
  let ?e = "bitlen p - bitlen q"
  have up: "x < pow2 (?e + 1)"
  proof -
    have "x < pow2 (bitlen p) / of_int q" using bit(2) [OF p] q by (simp add: x divide_strict_right_mono)
    also have "\<dots> \<le> pow2 (bitlen p) / pow2 (bitlen q - 1)"
      using bit(1) [OF q] by (intro frac_le) (simp_all add: less_imp_le)
    also have "\<dots> = pow2 (?e + 1)" by (simp add: pow2_minus [symmetric] algebra_simps)
    finally show ?thesis .
  qed
  have low: "pow2 (?e - 1) \<le> x"
  proof -
    have "pow2 (?e - 1) = pow2 (bitlen p - 1) / pow2 (bitlen q)"
      by (simp add: pow2_minus [symmetric] algebra_simps)
    also have "\<dots> \<le> pow2 (bitlen p - 1) / of_int q"
      using bit(2) [OF q] q by (simp add: divide_left_mono less_imp_le)
    also have "\<dots> \<le> x" using bit(1) [OF p] q by (simp add: x divide_right_mono)
    finally show ?thesis .
  qed
  show "pow2 (exponent x) \<le> x" using low by (simp add: exponent_def pq Let_def)
  show "x < pow2 (exponent x + 1)" using up by (auto simp: exponent_def pq Let_def)
qed

lemma exponent_mono: "0 < x \<Longrightarrow> x \<le> y \<Longrightarrow> exponent x \<le> exponent y"
proof -
  assume "0 < x" and "x \<le> y"
  then have "pow2 (exponent x) < pow2 (exponent y + 1)"
    using exponent_bounds(1) [of x] exponent_bounds(2) [of y] by linarith
  then show ?thesis by (simp add: pow2_less)
qed

section \<open>Rounding\<close>

lemma round_half_even_mono:
  assumes "q \<le> r"
  shows "round_half_even q \<le> round_half_even r"
proof (cases "\<lfloor>q\<rfloor> = \<lfloor>r\<rfloor>")
  case True
  with assms show ?thesis by (auto simp: round_half_even_def Let_def)
next
  case False
  with floor_mono [OF assms] have "\<lfloor>q\<rfloor> + 1 \<le> \<lfloor>r\<rfloor>" by simp
  moreover have "round_half_even q \<le> \<lfloor>q\<rfloor> + 1" "\<lfloor>r\<rfloor> \<le> round_half_even r"
    by (auto simp: round_half_even_def Let_def)
  ultimately show ?thesis by simp
qed

definition rounded :: "rat \<Rightarrow> rat" where
  "rounded x = of_int (round_half_even (x / pow2 (unit_exponent x))) * pow2 (unit_exponent x)"

lemma rounded_bound:
  assumes "unit_exponent x \<le> k"
  shows "x \<le> pow2 k \<Longrightarrow> rounded x \<le> pow2 k" and "pow2 k \<le> x \<Longrightarrow> pow2 k \<le> rounded x"
proof -
  let ?u = "pow2 (unit_exponent x)"
  have k: "pow2 k = of_int (2 ^ nat (k - unit_exponent x)) * ?u"
    using assms pow2_plus [of "k - unit_exponent x" "unit_exponent x"] pow2_nat [of "k - unit_exponent x"] by simp
  have "round_half_even (x / ?u) \<le> 2 ^ nat (k - unit_exponent x)" if "x \<le> pow2 k"
  proof -
    have "x / ?u \<le> of_int (2 ^ nat (k - unit_exponent x))" using that by (simp add: k divide_le_eq)
    from round_half_even_mono [OF this] show ?thesis by (simp del: of_int_power)
  qed
  then show "x \<le> pow2 k \<Longrightarrow> rounded x \<le> pow2 k" unfolding rounded_def k
    by (intro mult_right_mono) (simp_all only: of_int_le_iff less_imp_le pow2_pos)
  have "2 ^ nat (k - unit_exponent x) \<le> round_half_even (x / ?u)" if "pow2 k \<le> x"
  proof -
    have "of_int (2 ^ nat (k - unit_exponent x)) \<le> x / ?u" using that by (simp add: k le_divide_eq)
    from round_half_even_mono [OF this] show ?thesis by (simp del: of_int_power)
  qed
  then show "pow2 k \<le> x \<Longrightarrow> pow2 k \<le> rounded x" unfolding rounded_def k
    by (intro mult_right_mono) (simp_all only: of_int_le_iff less_imp_le pow2_pos)
qed

lemma rounded_mono:
  assumes "0 < x" and "x \<le> y"
  shows "rounded x \<le> rounded y"
proof (cases "unit_exponent x = unit_exponent y")
  case True
  have "x / pow2 (unit_exponent x) \<le> y / pow2 (unit_exponent x)"
    using assms(2) by (simp add: divide_right_mono less_imp_le)
  from round_half_even_mono [OF this] show ?thesis
    unfolding rounded_def True [symmetric] by (simp add: mult_right_mono less_imp_le)
next
  case False
  have "exponent x \<le> exponent y" by (rule exponent_mono [OF assms])
  with False have lt: "unit_exponent x < unit_exponent y" "exponent x < exponent y"
    and y: "unit_exponent y = exponent y - 52" by (auto simp: unit_exponent_def)
  have "x \<le> pow2 (exponent y)"
    using exponent_bounds(2) [OF assms(1)] pow2_mono [of "exponent x + 1" "exponent y"] lt(2) by simp
  with lt y have "rounded x \<le> pow2 (exponent y)" by (intro rounded_bound(1)) simp_all
  also have "\<dots> \<le> rounded y"
    using exponent_bounds(1) [of y] assms y by (intro rounded_bound(2)) simp_all
  finally show ?thesis .
qed

lemma round_pos_rounded: "round_pos x = (if rounded x < pow2 1024 then Fin (rounded x) else PosInf)"
  by (simp add: round_pos_def rounded_def Let_def)

lemma round64_mono:
  assumes "0 \<le> x" and "x \<le> y"
  shows "f64_le (round64 x) (round64 y)"
proof (cases "x = 0")
  case True
  with assms round64_nonneg [of y] show ?thesis by (simp add: round64_def f64_nonneg_def)
next
  case False
  with assms rounded_mono [of x y] show ?thesis
    by (simp add: round64_def round_pos_rounded)
qed

section \<open>Arithmetic\<close>

lemma f64_add_mono:
  assumes "f64_nonneg a" and "f64_le a a'" and "f64_nonneg b" and "f64_le b b'"
  shows "f64_le (f64_add a b) (f64_add a' b')"
proof -
  have le: "f64_le (round64 (v + w)) (round64 (v' + w'))" if "0 \<le> v" "v \<le> v'" "0 \<le> w" "w \<le> w'" for v v' w w'
    using that by (intro round64_mono) simp_all
  have fin: "f64_le (round64 (v + w)) PosInf" if "0 \<le> v" "0 \<le> w" for v w
    using that le [of v v w w] by (cases "round64 (v + w)") auto
  show ?thesis
    using assms le fin by (cases a; cases b; cases a'; cases b') (auto simp: f64_nonneg_def)
qed

lemma f64_mul_mono:
  assumes "0 \<le> y" and "f64_nonneg a" and "f64_le a (Fin x')"
  shows "f64_le (f64_mul a (Fin y)) (f64_mul (Fin x') (Fin y))"
  using assms by (cases a) (auto simp: f64_nonneg_def f64_mul_def intro!: round64_mono mult_right_mono mult_nonneg_nonneg)

end
