(* ===== verification/Auth_Admission.thy ===== *)
theory Auth_Admission
  imports Key_Authentication F64_Order "HOL-Library.Word"
begin

unbundle bit_operations_syntax

text \<open>
  Admission before authentication (\<open>gateway-core/src/auth_admission.rs\<close>): a token bucket per source
  address, the bounded slots and waiters of the requests, and the cheap checks of the credential
  headers. The same slots and waiters bound the key cryptography (\<open>verify_in_background\<close> of
  \<open>gateway-core/src/auth.rs\<close>). Instants are nanoseconds, tokens are \<open>f64\<close> values as in the source.
\<close>

section \<open>Sources\<close>

datatype ip_addr = V4 "32 word" | V6 "128 word"

definition to_ipv4_mapped :: "128 word \<Rightarrow> 32 word option" where
  "to_ipv4_mapped a = (if drop_bit 32 a = 0xFFFF then Some (ucast a) else None)"

definition normalize_peer :: "ip_addr option \<Rightarrow> ip_addr option" where
  "normalize_peer = map_option (\<lambda>ip. case ip of V6 v6 \<Rightarrow> (case to_ipv4_mapped v6 of Some v4 \<Rightarrow> V4 v4 | None \<Rightarrow> ip) | V4 _ \<Rightarrow> ip)"

definition source_capacity :: nat where
  "source_capacity = 4096"

definition second :: nat where
  "second = 10 ^ 9"

definition source_ttl :: nat where
  "source_ttl = 60 * second"

record bucket =
  bk_tokens :: f64
  bk_updated :: instant

record sources =
  so_buckets :: "(ip_addr option \<times> bucket) list"
  so_last_prune :: instant

record source_limits =
  sl_rps :: nat
  sl_burst :: nat

definition admission_new :: "nat \<Rightarrow> nat \<Rightarrow> instant \<Rightarrow> (source_limits \<times> sources) gateway_result" where
  "admission_new rps burst now =
     (if \<not> (1 \<le> rps \<and> rps \<le> 1000000) \<or> \<not> (1 \<le> burst \<and> burst \<le> 1000000) then Err InvalidConfiguration
      else Ok (\<lparr>sl_rps = rps, sl_burst = burst\<rparr>, \<lparr>so_buckets = [], so_last_prune = now\<rparr>))"

text \<open>\<open>Duration::as_secs_f64\<close>\<close>

definition as_secs_f64 :: "nat \<Rightarrow> f64" where
  "as_secs_f64 d = f64_add (f64_of_nat (d div second)) (f64_div_pos (f64_of_nat (d mod second)) (of_nat second))"

definition accrued :: "source_limits \<Rightarrow> bucket \<Rightarrow> instant \<Rightarrow> f64" where
  "accrued sl b now = f64_add (bk_tokens b) (f64_mul (as_secs_f64 (now - bk_updated b)) (f64_of_nat (sl_rps sl)))"

definition keep_bucket :: "source_limits \<Rightarrow> instant \<Rightarrow> bucket \<Rightarrow> bool" where
  "keep_bucket sl now b \<longleftrightarrow>
     now - bk_updated b < source_ttl \<or> f64_lt (accrued sl b now) (f64_of_nat (sl_burst sl))"

definition prune :: "source_limits \<Rightarrow> sources \<Rightarrow> instant \<Rightarrow> sources" where
  "prune sl s now =
     (if second \<le> now - so_last_prune s
      then \<lparr>so_buckets = filter (\<lambda>(_, b). keep_bucket sl now b) (so_buckets s), so_last_prune = now\<rparr>
      else s)"

definition fresh_bucket :: "source_limits \<Rightarrow> instant \<Rightarrow> bucket" where
  "fresh_bucket sl now = \<lparr>bk_tokens = f64_of_nat (sl_burst sl), bk_updated = now\<rparr>"

text \<open>The bucket after the request, and whether it had a token.\<close>

definition take_token :: "source_limits \<Rightarrow> bucket \<Rightarrow> instant \<Rightarrow> bool \<times> bucket" where
  "take_token sl b now =
     (let tokens = f64_min (accrued sl b now) (f64_of_nat (sl_burst sl))
      in if f64_lt tokens (Fin 1) then (False, \<lparr>bk_tokens = tokens, bk_updated = now\<rparr>)
         else (True, \<lparr>bk_tokens = f64_sub tokens (Fin 1), bk_updated = now\<rparr>))"

definition check_source :: "source_limits \<Rightarrow> sources \<Rightarrow> ip_addr option \<Rightarrow> instant \<Rightarrow> unit gateway_result \<times> sources" where
  "check_source sl s peer now =
     (let peer = normalize_peer peer; s = prune sl s now
      in if map_of (so_buckets s) peer = None \<and> source_capacity \<le> length (so_buckets s)
         then (Err AuthenticationOverloaded, s)
         else let b = (case map_of (so_buckets s) peer of Some b \<Rightarrow> b | None \<Rightarrow> fresh_bucket sl now);
                  (admitted, b) = take_token sl b now
              in (if admitted then Ok () else Err SourceRateLimitExceeded,
                  s\<lparr>so_buckets := AList.update peer b (so_buckets s)\<rparr>))"

section \<open>Slots and waiters\<close>

text \<open>
  A semaphore of slots with a bounded number of waiting requests: \<open>RequestAdmission::acquire\<close> after the
  check of the source (64 slots, 128 waiters), and the executor of the key cryptography (2 and 8). The
  events: a request arrives, a waiting request gets a slot, its deadline passes or it is cancelled, and
  a request that holds a slot ends.
\<close>

record gate =
  ga_slots :: nat
  ga_waiters :: nat
  ga_running :: nat
  ga_queued :: nat

datatype gate_event = Arrive | Grant | GiveUp | Finish

definition new_gate :: "nat \<Rightarrow> nat \<Rightarrow> gate" where
  "new_gate slots waiters = \<lparr>ga_slots = slots, ga_waiters = waiters, ga_running = 0, ga_queued = 0\<rparr>"

definition request_gate :: gate where
  "request_gate = new_gate 64 128"

definition crypto_gate :: gate where
  "crypto_gate = new_gate 2 8"

definition arrive :: "gate \<Rightarrow> unit gateway_result \<times> gate" where
  "arrive g =
     (if 0 < ga_slots g then (Ok (), g\<lparr>ga_slots := ga_slots g - 1, ga_running := ga_running g + 1\<rparr>)
      else if ga_waiters g = 0 then (Err AuthenticationOverloaded, g)
      else (Ok (), g\<lparr>ga_waiters := ga_waiters g - 1, ga_queued := ga_queued g + 1\<rparr>))"

fun gate_step :: "gate \<Rightarrow> gate_event \<Rightarrow> gate" where
  "gate_step g Arrive = snd (arrive g)"
| "gate_step g Grant =
     (if 0 < ga_queued g \<and> 0 < ga_slots g
      then g\<lparr>ga_slots := ga_slots g - 1, ga_running := ga_running g + 1, ga_queued := ga_queued g - 1, ga_waiters := ga_waiters g + 1\<rparr>
      else g)"
| "gate_step g GiveUp =
     (if 0 < ga_queued g then g\<lparr>ga_queued := ga_queued g - 1, ga_waiters := ga_waiters g + 1\<rparr> else g)"
| "gate_step g Finish =
     (if 0 < ga_running g then g\<lparr>ga_running := ga_running g - 1, ga_slots := ga_slots g + 1\<rparr> else g)"

section \<open>Credential headers\<close>

type_synonym header_map = "(string \<times> string) list"

definition max_credential_header_bytes :: nat where
  "max_credential_header_bytes = 16 * 1024"

definition get_all :: "header_map \<Rightarrow> string \<Rightarrow> string list" where
  "get_all headers name = map snd (filter (\<lambda>(n, _). eq_ignore_ascii_case n name) headers)"

text \<open>\<open>HeaderValue::to_str\<close> accepts visible ASCII and tabs.\<close>

definition visible_ascii :: "string \<Rightarrow> bool" where
  "visible_ascii v = list_all (\<lambda>c. 32 \<le> byte c \<and> byte c < 127 \<or> byte c = 9) v"

definition check_credential :: "string \<Rightarrow> string \<Rightarrow> string \<Rightarrow> unit gateway_result" where
  "check_credential key_header name v =
     (if name = key_header
      then and_then (validate_key_text (trim v)) (\<lambda>_.
           if \<not> starts_with (trim v) ''rk_live_'' \<or> length (trim v) \<le> 16 then Err MalformedAuthorization else Ok ())
      else if name = ''authorization''
      then and_then (ok_or (strip_prefix ''Bearer '' v) MalformedAuthorization) (\<lambda>token.
           let token = trim token
           in if token = [] \<or> \<not> list_all is_ascii_graphic token then Err MalformedAuthorization
              else if starts_with token ''rk_live_'' then validate_key_text token
              else Ok ())
      else Ok ())"

definition credential_header_names :: "string \<Rightarrow> string list" where
  "credential_header_names key_header =
     [''authorization'', key_header, ''x-apigee-entra-identity'', ''x-apigee-entra-signature'',
      ''x-relayna-admission-context'', ''x-relayna-worker-token'']"

definition validate_credential_headers :: "header_map \<Rightarrow> string \<Rightarrow> unit gateway_result" where
  "validate_credential_headers headers key_header =
     try_each (\<lambda>name.
       case get_all headers name of
         [] \<Rightarrow> Ok ()
       | v # others \<Rightarrow>
           if others \<noteq> [] \<or> max_credential_header_bytes < length v then Err MalformedAuthorization
           else if \<not> visible_ascii v then Err MalformedAuthorization
           else check_credential key_header name v)
       (credential_header_names key_header)"

section \<open>Durations and refills\<close>

text \<open>
  Within \<open>2 ^ 52\<close> seconds the conversion of a duration is finite and monotone, and so is the number of
  tokens a bucket has accrued.
\<close>

definition lifetime :: nat where
  "lifetime = 2 ^ 52 * second"

lemma second_pos: "0 < second" "(0::rat) < of_nat second"
  by (simp_all add: second_def)

lemma nat_exact: "n \<le> 2 ^ 52 \<Longrightarrow> f64_of_nat n = Fin (of_nat n)"
  by (rule f64_of_nat_exact) simp

lemma round64_finite:
  assumes "0 \<le> x" and "x \<le> of_nat n" and "n \<le> 2 ^ 52"
  shows "\<exists>v. round64 x = Fin v \<and> 0 \<le> v \<and> v \<le> of_nat n"
proof -
  have "round64 (of_nat n) = Fin (of_nat n)" using nat_exact [OF assms(3)] by (simp add: f64_of_nat_def)
  with round64_mono [OF assms(1,2)] round64_nonneg [OF assms(1)] show ?thesis
    by (cases "round64 x") (auto simp: f64_nonneg_def)
qed

text \<open>The fraction of a second, and the whole duration between two whole numbers of seconds.\<close>

lemma fraction:
  "\<exists>v. f64_div_pos (f64_of_nat (d mod second)) (of_nat second) = Fin v \<and> 0 \<le> v \<and> v \<le> 1"
proof -
  have lt: "d mod second < second" by (simp add: second_pos)
  then have "f64_of_nat (d mod second) = Fin (of_nat (d mod second))"
    by (intro nat_exact) (simp add: second_def)
  moreover have "of_nat (d mod second) / of_nat second \<le> (of_nat 1 :: rat)"
    using lt second_pos(2) by (simp add: divide_le_eq)
  ultimately show ?thesis
    using round64_finite [of "of_nat (d mod second) / of_nat second" 1] by (simp add: f64_div_pos_def)
qed

lemma as_secs_cases:
  assumes "d < lifetime"
  obtains v w where "f64_div_pos (f64_of_nat (d mod second)) (of_nat second) = Fin w" "0 \<le> w" "w \<le> 1"
    and "as_secs_f64 d = Fin v" "0 \<le> v" "as_secs_f64 d = round64 (of_nat (d div second) + w)"
proof -
  have s: "d div second < 2 ^ 52"
    using assms by (simp add: lifetime_def less_mult_imp_div_less mult.commute)
  obtain w where w: "f64_div_pos (f64_of_nat (d mod second)) (of_nat second) = Fin w" "0 \<le> w" "w \<le> 1"
    using fraction by blast
  have eq: "as_secs_f64 d = round64 (of_nat (d div second) + w)"
    using s w(1) by (simp add: as_secs_f64_def nat_exact)
  moreover have "of_nat (d div second) + w \<le> (of_nat (d div second + 1) :: rat)" using w by simp
  ultimately obtain v where "as_secs_f64 d = Fin v" "0 \<le> v"
    using round64_finite [of "of_nat (d div second) + w" "d div second + 1"] s w by (auto simp del: of_nat_add)
  with w eq show ?thesis using that by blast
qed

lemma as_secs_mono:
  assumes "d \<le> e" and "e < lifetime"
  shows "f64_le (as_secs_f64 d) (as_secs_f64 e)"
proof -
  from as_secs_cases [of d] assms obtain w where
    w: "f64_div_pos (f64_of_nat (d mod second)) (of_nat second) = Fin w" "0 \<le> w" "w \<le> 1"
    and d: "as_secs_f64 d = round64 (of_nat (d div second) + w)" by (metis le_less_trans)
  from as_secs_cases [OF assms(2)] obtain w' where
    w': "f64_div_pos (f64_of_nat (e mod second)) (of_nat second) = Fin w'" "0 \<le> w'" "w' \<le> 1"
    and e: "as_secs_f64 e = round64 (of_nat (e div second) + w')" by metis
  have "of_nat (d div second) + w \<le> (of_nat (e div second) + w' :: rat)"
  proof (cases "d div second = e div second")
    case True
    then have "d mod second \<le> e mod second" using assms(1)
      by (metis add_le_cancel_left div_mult_mod_eq)
    moreover have "e mod second < second" by (simp add: second_pos)
    ultimately have "f64_of_nat (d mod second) = Fin (of_nat (d mod second))"
      "f64_of_nat (e mod second) = Fin (of_nat (e mod second))"
      by (simp_all add: nat_exact second_def)
    with w(1) w'(1) \<open>d mod second \<le> e mod second\<close> second_pos(2)
    have "f64_le (Fin w) (Fin w')"
      using round64_mono [of "of_nat (d mod second) / of_nat second" "of_nat (e mod second) / of_nat second"]
      by (simp add: f64_div_pos_def divide_right_mono)
    with True show ?thesis by simp
  next
    case False
    then have "d div second + 1 \<le> e div second" using div_le_mono [OF assms(1), of second] by simp
    then have "of_nat (d div second + 1) \<le> (of_nat (e div second) :: rat)" by (simp only: of_nat_le_iff)
    with w w' show ?thesis by simp
  qed
  with w show ?thesis by (simp add: d e round64_mono)
qed

definition limits_ok :: "source_limits \<Rightarrow> bool" where
  "limits_ok sl \<longleftrightarrow> 1 \<le> sl_rps sl \<and> sl_rps sl \<le> 1000000 \<and> 1 \<le> sl_burst sl \<and> sl_burst sl \<le> 1000000"

lemma limits_exact:
  assumes "limits_ok sl"
  shows "f64_of_nat (sl_rps sl) = Fin (of_nat (sl_rps sl))" "f64_of_nat (sl_burst sl) = Fin (of_nat (sl_burst sl))"
  using assms by (simp_all add: limits_ok_def nat_exact)

definition bucket_ok :: "source_limits \<Rightarrow> instant \<Rightarrow> bucket \<Rightarrow> bool" where
  "bucket_ok sl now b \<longleftrightarrow>
     f64_nonneg (bk_tokens b) \<and> f64_le (bk_tokens b) (f64_of_nat (sl_burst sl)) \<and> bk_updated b \<le> now"

lemma refill_mono:
  assumes "limits_ok sl" and "d \<le> e" and "e < lifetime"
  shows "f64_nonneg (f64_mul (as_secs_f64 d) (f64_of_nat (sl_rps sl)))"
    and "f64_le (f64_mul (as_secs_f64 d) (f64_of_nat (sl_rps sl))) (f64_mul (as_secs_f64 e) (f64_of_nat (sl_rps sl)))"
proof -
  from as_secs_cases assms obtain v where v: "as_secs_f64 d = Fin v" "0 \<le> v" by (metis le_less_trans)
  from as_secs_cases assms obtain v' where v': "as_secs_f64 e = Fin v'" by metis
  show "f64_nonneg (f64_mul (as_secs_f64 d) (f64_of_nat (sl_rps sl)))"
    using v by (simp add: limits_exact [OF assms(1)] f64_mul_nonneg)
  show "f64_le (f64_mul (as_secs_f64 d) (f64_of_nat (sl_rps sl))) (f64_mul (as_secs_f64 e) (f64_of_nat (sl_rps sl)))"
    using as_secs_mono [OF assms(2,3)] v v'
    by (simp only: limits_exact [OF assms(1)]) (intro f64_mul_mono, simp_all add: f64_nonneg_def)
qed

lemma accrued_mono:
  assumes "limits_ok sl" and "bucket_ok sl now b" and "now \<le> later" and "later < lifetime"
  shows "f64_nonneg (accrued sl b now)" and "f64_le (accrued sl b now) (accrued sl b later)"
proof -
  have le: "now - bk_updated b \<le> later - bk_updated b" "later - bk_updated b < lifetime" using assms(3,4) by auto
  have b: "f64_nonneg (bk_tokens b)" "f64_le (bk_tokens b) (bk_tokens b)"
    using assms(2) by (auto simp: bucket_ok_def f64_nonneg_iff)
  show "f64_nonneg (accrued sl b now)"
    unfolding accrued_def using f64_add_nonneg [OF b(1) refill_mono(1) [OF assms(1) le]] .
  show "f64_le (accrued sl b now) (accrued sl b later)"
    unfolding accrued_def by (intro f64_add_mono b refill_mono [OF assms(1) le])
qed

text \<open>A bucket that has accrued its burst answers as a fresh one does, now and later.\<close>

definition full :: "source_limits \<Rightarrow> instant \<Rightarrow> bucket \<Rightarrow> bool" where
  "full sl now b \<longleftrightarrow> f64_le (f64_of_nat (sl_burst sl)) (accrued sl b now)"

lemma f64_min_above: "f64_le c a \<Longrightarrow> f64_min a c = c"
  by (cases a; cases c) (auto simp: f64_min_def)

lemma take_token_full: "full sl now b \<Longrightarrow> full sl now b' \<Longrightarrow> take_token sl b now = take_token sl b' now"
  by (simp add: take_token_def full_def f64_min_above)

lemma full_later:
  assumes "limits_ok sl" and "bucket_ok sl now b" and "full sl now b" and "now \<le> later" and "later < lifetime"
  shows "full sl later b"
  using accrued_mono(2) [OF assms(1,2,4,5)] assms(3) f64_le_trans by (auto simp: full_def)

lemma fresh_bucket_ok: "limits_ok sl \<Longrightarrow> bucket_ok sl now (fresh_bucket sl now)"
  by (simp add: bucket_ok_def fresh_bucket_def limits_exact f64_nonneg_def)

lemma fresh_bucket_full:
  assumes "limits_ok sl"
  shows "full sl now (fresh_bucket sl now)"
proof -
  have z: "f64_of_nat 0 = Fin 0" by (simp add: f64_of_nat_def round64_def)
  then have "as_secs_f64 0 = Fin 0" by (simp add: as_secs_f64_def f64_div_pos_def round64_def)
  moreover have "round64 (of_nat (sl_burst sl)) = Fin (of_nat (sl_burst sl))"
    using limits_exact(2) [OF assms] by (simp add: f64_of_nat_def)
  ultimately show ?thesis
    using limits_exact [OF assms] z
    by (simp add: full_def accrued_def fresh_bucket_def f64_mul_def round64_def [of 0])
qed

lemma pruned_full:
  assumes "limits_ok sl" and "bucket_ok sl now b" and "now < lifetime" and "\<not> keep_bucket sl now b"
  shows "full sl now b"
proof -
  have "accrued sl b now \<noteq> NaN" using accrued_mono(1) [OF assms(1,2) _ assms(3)] by (auto simp: f64_nonneg_def)
  with assms(4) limits_exact(2) [OF assms(1)] show ?thesis by (auto simp: keep_bucket_def full_def f64_not_lt_le)
qed

lemma take_token_ok:
  assumes "limits_ok sl" and "bucket_ok sl now b" and "now < lifetime"
  shows "bucket_ok sl now (snd (take_token sl b now))"
proof -
  let ?c = "of_nat (sl_burst sl) :: rat"
  have c: "f64_of_nat (sl_burst sl) = Fin ?c" "sl_burst sl \<le> 2 ^ 52"
    using limits_exact(2) [OF assms(1)] assms(1) by (simp_all add: limits_ok_def)
  have fin: "f64_min (Fin x) (Fin ?c) = Fin (min x ?c)" for x by (simp add: f64_min_def min_def)
  obtain v where v: "f64_min (accrued sl b now) (f64_of_nat (sl_burst sl)) = Fin v" "0 \<le> v" "v \<le> ?c"
    using accrued_mono(1) [OF assms(1,2) _ assms(3)] unfolding c(1)
    by (cases "accrued sl b now") (auto simp: f64_nonneg_def fin, auto simp: f64_min_def)
  have "\<exists>w. round64 (v - 1) = Fin w \<and> 0 \<le> w \<and> w \<le> ?c" if "1 \<le> v"
    using that v c(2) by (intro round64_finite) simp_all
  with v show ?thesis
    by (cases "v < 1") (auto simp: take_token_def bucket_ok_def c(1) f64_nonneg_def f64_sub_def Let_def)
qed

section \<open>A reference without pruning\<close>

text \<open>
  The reference keeps one bucket for every source it ever saw, without bound. Both are run on a
  sequence of requests, each after a number of nanoseconds.
\<close>

definition reference_check ::
  "source_limits \<Rightarrow> (ip_addr option \<Rightarrow> bucket option) \<Rightarrow> ip_addr option \<Rightarrow> instant \<Rightarrow>
   unit gateway_result \<times> (ip_addr option \<Rightarrow> bucket option)" where
  "reference_check sl m peer now =
     (let peer = normalize_peer peer;
          (admitted, b) = take_token sl (case m peer of Some b \<Rightarrow> b | None \<Rightarrow> fresh_bucket sl now) now
      in (if admitted then Ok () else Err SourceRateLimitExceeded, m(peer := Some b)))"

fun source_run :: "source_limits \<Rightarrow> sources \<Rightarrow> instant \<Rightarrow> (ip_addr option \<times> nat) list \<Rightarrow> unit gateway_result list" where
  "source_run sl s t [] = []"
| "source_run sl s t ((peer, d) # es) =
     (case check_source sl s peer (t + d) of (r, s') \<Rightarrow> r # source_run sl s' (t + d) es)"

fun reference_run ::
  "source_limits \<Rightarrow> (ip_addr option \<Rightarrow> bucket option) \<Rightarrow> instant \<Rightarrow> (ip_addr option \<times> nat) list \<Rightarrow> unit gateway_result list" where
  "reference_run sl m t [] = []"
| "reference_run sl m t ((peer, d) # es) =
     (case reference_check sl m peer (t + d) of (r, m') \<Rightarrow> r # reference_run sl m' (t + d) es)"

text \<open>The buckets kept are those of the reference; the reference's others are full again.\<close>

definition bucket_rel :: "source_limits \<Rightarrow> instant \<Rightarrow> bucket option \<Rightarrow> bucket option \<Rightarrow> bool" where
  "bucket_rel sl now kept ref \<longleftrightarrow> kept = ref \<or> kept = None \<and> (\<exists>b. ref = Some b \<and> full sl now b)"

definition sources_rel ::
  "source_limits \<Rightarrow> instant \<Rightarrow> (ip_addr option \<times> bucket) list \<Rightarrow> (ip_addr option \<Rightarrow> bucket option) \<Rightarrow> bool" where
  "sources_rel sl now bs m \<longleftrightarrow> distinct (map fst bs) \<and>
     (\<forall>p b. m p = Some b \<longrightarrow> bucket_ok sl now b) \<and>
     (\<forall>p. bucket_rel sl now (map_of bs p) (m p))"

lemma sources_rel_later:
  assumes "limits_ok sl" and "sources_rel sl now bs m" and "now \<le> later" and "later < lifetime"
  shows "sources_rel sl later bs m"
proof -
  have "bucket_ok sl later b" if "bucket_ok sl now b" for b using that assms(3) by (simp add: bucket_ok_def)
  then show ?thesis
    using assms full_later [OF assms(1) _ _ assms(3,4)] by (auto simp: sources_rel_def bucket_rel_def)
qed

lemma map_of_filter_key:
  "distinct (map fst xs) \<Longrightarrow>
   map_of (filter (\<lambda>(_, b). P b) xs) k = (case map_of xs k of Some b \<Rightarrow> if P b then Some b else None | None \<Rightarrow> None)"
  by (induction xs) (auto simp: map_of_eq_None_iff image_iff split: option.splits)

lemma sources_rel_prune:
  assumes "limits_ok sl" and "sources_rel sl now (so_buckets s) m" and "now < lifetime"
  shows "sources_rel sl now (so_buckets (prune sl s now)) m"
proof (cases "second \<le> now - so_last_prune s")
  case True
  let ?bs = "filter (\<lambda>(_, b). keep_bucket sl now b) (so_buckets s)"
  have d: "distinct (map fst (so_buckets s))" using assms(2) by (simp add: sources_rel_def)
  have "bucket_rel sl now (map_of ?bs p) (m p)" for p
  proof -
    have r: "bucket_rel sl now (map_of (so_buckets s) p) (m p)" and ok: "\<And>b. m p = Some b \<Longrightarrow> bucket_ok sl now b"
      using assms(2) by (simp_all add: sources_rel_def)
    show ?thesis
    proof (cases "map_of (so_buckets s) p")
      case (Some b)
      then have m: "m p = Some b" using r by (simp add: bucket_rel_def)
      with Some pruned_full [OF assms(1) ok assms(3)] show ?thesis
        by (simp add: map_of_filter_key [OF d] bucket_rel_def)
    qed (use r in \<open>simp add: map_of_filter_key [OF d]\<close>)
  qed
  with True assms(2) show ?thesis by (simp add: prune_def sources_rel_def distinct_map_filter)
qed (use assms in \<open>simp add: prune_def\<close>)

lemma check_source_rel:
  assumes sl: "limits_ok sl" and rel: "sources_rel sl now (so_buckets s) m" and now: "now < lifetime"
    and room: "normalize_peer peer \<in> P" "fst ` set (so_buckets s) \<subseteq> P" "finite P" "card P \<le> source_capacity"
  shows "fst (check_source sl s peer now) = fst (reference_check sl m peer now) \<and>
    sources_rel sl now (so_buckets (snd (check_source sl s peer now))) (snd (reference_check sl m peer now)) \<and>
    fst ` set (so_buckets (snd (check_source sl s peer now))) \<subseteq> P"
proof -
  let ?p = "normalize_peer peer" and ?bs = "so_buckets (prune sl s now)"
  have rel: "sources_rel sl now ?bs m" by (rule sources_rel_prune [OF sl rel now])
  have sub: "fst ` set ?bs \<subseteq> P" using room(2) by (auto simp: prune_def)
  have d: "distinct (map fst ?bs)" using rel by (simp add: sources_rel_def)
  have some: "\<not> (map_of ?bs ?p = None \<and> source_capacity \<le> length ?bs)"
  proof
    assume a: "map_of ?bs ?p = None \<and> source_capacity \<le> length ?bs"
    then have "insert ?p (fst ` set ?bs) \<subseteq> P" "?p \<notin> fst ` set ?bs" using room(1) sub by (auto simp: map_of_eq_None_iff)
    then have "Suc (card (fst ` set ?bs)) \<le> card P" using card_mono [OF room(3)] by (metis List.finite_set card_insert_disjoint finite_imageI)
    moreover have "card (fst ` set ?bs) = length ?bs" using distinct_card [OF d] by simp
    ultimately show False using a room(4) by simp
  qed
  let ?b = "case map_of ?bs ?p of Some b \<Rightarrow> b | None \<Rightarrow> fresh_bucket sl now"
  let ?c = "case m ?p of Some b \<Rightarrow> b | None \<Rightarrow> fresh_bucket sl now"
  have same: "take_token sl ?b now = take_token sl ?c now"
  proof -
    have "bucket_rel sl now (map_of ?bs ?p) (m ?p)" using rel by (simp add: sources_rel_def)
    then show ?thesis
      using take_token_full [OF fresh_bucket_full [OF sl]] by (auto simp: bucket_rel_def)
  qed
  have "bucket_ok sl now ?c"
    using rel fresh_bucket_ok [OF sl] by (auto simp: sources_rel_def split: option.splits)
  note ok = take_token_ok [OF sl this now]
  obtain a b where t: "take_token sl ?c now = (a, b)" by fastforce
  have c: "check_source sl s peer now =
      (if a then Ok () else Err SourceRateLimitExceeded, (prune sl s now)\<lparr>so_buckets := AList.update ?p b ?bs\<rparr>)"
    using some same t by (simp add: check_source_def Let_def)
  have r: "reference_check sl m peer now = (if a then Ok () else Err SourceRateLimitExceeded, m(?p := Some b))"
    using t by (simp add: reference_check_def)
  have "sources_rel sl now (AList.update ?p b ?bs) (m(?p := Some b))"
    using rel ok t by (auto simp: sources_rel_def distinct_update update_conv bucket_rel_def)
  moreover have "fst ` set (AList.update ?p b ?bs) \<subseteq> P"
    using sub room(1) by (simp add: dom_update)
  ultimately show ?thesis by (simp add: c r)
qed

lemma source_run_rel:
  assumes sl: "limits_ok sl" and P: "finite P" "card P \<le> source_capacity"
  shows "sources_rel sl t (so_buckets s) m \<Longrightarrow> fst ` set (so_buckets s) \<subseteq> P \<Longrightarrow>
    (\<forall>(peer, d) \<in> set es. normalize_peer peer \<in> P) \<Longrightarrow> t + sum_list (map snd es) < lifetime \<Longrightarrow>
    source_run sl s t es = reference_run sl m t es"
proof (induction es arbitrary: s m t)
  case (Cons e es)
  obtain peer d where e: "e = (peer, d)" by fastforce
  have later: "t + d < lifetime" using Cons.prems(4) by (simp add: e)
  have rel: "sources_rel sl (t + d) (so_buckets s) m"
    by (rule sources_rel_later [OF sl Cons.prems(1) _ later]) simp
  have p: "normalize_peer peer \<in> P" using Cons.prems(3) by (auto simp: e)
  obtain r s' where c: "check_source sl s peer (t + d) = (r, s')" by fastforce
  obtain r' m' where f: "reference_check sl m peer (t + d) = (r', m')" by fastforce
  from check_source_rel [OF sl rel later p Cons.prems(2) P] c f
  have "r = r'" "sources_rel sl (t + d) (so_buckets s') m'" "fst ` set (so_buckets s') \<subseteq> P" by simp_all
  with Cons.IH [of "t + d" s' m'] Cons.prems(3,4) show ?case by (simp add: e c f add.assoc)
qed simp

section \<open>Properties\<close>

text \<open>Slots and waiters are conserved.\<close>

definition gate_ok :: "nat \<Rightarrow> nat \<Rightarrow> gate \<Rightarrow> bool" where
  "gate_ok slots waiters g \<longleftrightarrow> ga_slots g + ga_running g = slots \<and> ga_waiters g + ga_queued g = waiters"

interpretation gate: invariant_system gate_step "gate_ok slots waiters" for slots waiters
proof
  show "gate_ok slots waiters (gate_step g e)" if "gate_ok slots waiters g" for g e
    using that by (cases e) (auto simp: gate_ok_def arrive_def)
qed

lemma gate_ok_new: "gate_ok slots waiters (new_gate slots waiters)"
  by (simp add: gate_ok_def new_gate_def)

lemma gate_bounded:
  assumes "g = foldl gate_step (new_gate slots waiters) es"
  shows "ga_running g \<le> slots" and "ga_queued g \<le> waiters"
    and "fst (arrive g) = Err AuthenticationOverloaded \<longleftrightarrow> ga_running g = slots \<and> ga_queued g = waiters"
proof -
  have "gate_ok slots waiters g" using gate.run_invar [OF gate_ok_new] assms by simp
  then show "ga_running g \<le> slots" "ga_queued g \<le> waiters"
    "fst (arrive g) = Err AuthenticationOverloaded \<longleftrightarrow> ga_running g = slots \<and> ga_queued g = waiters"
    by (auto simp: gate_ok_def arrive_def)
qed

text \<open>
  C34 (equivalence): the bounded table of sources decides as an unbounded one would. For every sequence of
  requests from at most 4096 sources over the lifetime of a process, pruning the idle buckets changes
  no answer: exactly the same requests are admitted and refused as with one bucket per source that is
  never dropped, with tokens computed in floating point as in the code.
\<close>

theorem pruning_unobservable:
  assumes "admission_new rps burst t = Ok (sl, s)"
    and "card ((\<lambda>(peer, _). normalize_peer peer) ` set requests) \<le> 4096"
    and "t + sum_list (map snd requests) < 2 ^ 52 * 10 ^ 9"
  shows "source_run sl s t requests = reference_run sl Map.empty t requests"
proof -
  have sl: "limits_ok sl" and s: "so_buckets s = []"
    using assms(1) by (auto simp: admission_new_def limits_ok_def split: if_splits)
  show ?thesis
    by (rule source_run_rel [OF sl, of "(\<lambda>(peer, _). normalize_peer peer) ` set requests"])
      (use assms(2,3) in \<open>auto simp: source_capacity_def lifetime_def second_def s sources_rel_def bucket_rel_def\<close>)
qed

theorem pruning_unobservable_witness:
  "source_run \<lparr>sl_rps = 1, sl_burst = 1\<rparr> \<lparr>so_buckets = [], so_last_prune = 5\<rparr> 5
     [(Some (V4 7), 0), (Some (V4 7), 0), (Some (V4 7), 90000000000)] =
   reference_run \<lparr>sl_rps = 1, sl_burst = 1\<rparr> Map.empty 5
     [(Some (V4 7), 0), (Some (V4 7), 0), (Some (V4 7), 90000000000)]"
  by (rule pruning_unobservable [of 1 1]) (simp_all add: admission_new_def)

text \<open>
  The gates: a request is refused only when every slot is taken and the queue is full, and
  never more than 64 requests are being authenticated with 128 waiting, nor more than two key
  verifications running with eight waiting, whatever the order of arrivals, grants, deadlines and ends.
\<close>

lemma gates_bounded:
  "(let g = foldl gate_step request_gate es
    in ga_running g \<le> 64 \<and> ga_queued g \<le> 128 \<and>
       (fst (arrive g) = Err AuthenticationOverloaded \<longleftrightarrow> ga_running g = 64 \<and> ga_queued g = 128)) \<and>
   (let g = foldl gate_step crypto_gate es
    in ga_running g \<le> 2 \<and> ga_queued g \<le> 8 \<and>
       (fst (arrive g) = Err AuthenticationOverloaded \<longleftrightarrow> ga_running g = 2 \<and> ga_queued g = 8))"
  using gate_bounded [of _ 64 128] gate_bounded [of _ 2 8]
  by (simp add: request_gate_def crypto_gate_def Let_def)

text \<open>
  Headers that pass the cheap check carry at most one value per credential header, of at
  most 16 KiB; the key header, if present, holds a key the authenticator will parse, and a bearer token
  that starts like a Relayna key has the text of one.
\<close>

theorem credential_headers_sound:
  assumes "validate_credential_headers headers key_header = Ok ()"
    and "name \<in> set (credential_header_names key_header)" and "v \<in> set (get_all headers name)"
  shows "get_all headers name = [v] \<and> length v \<le> 16384 \<and>
    (name = key_header \<longrightarrow> is_ok (virtual_key_parse (trim v))) \<and>
    (name \<noteq> key_header \<longrightarrow> name = ''authorization'' \<longrightarrow>
       (\<exists>token. v = ''Bearer '' @ token \<and> trim token \<noteq> [] \<and>
          (starts_with (trim token) ''rk_live_'' \<longrightarrow> validate_key_text (trim token) = Ok ())))"
proof -
  from assms(1,2) have "(case get_all headers name of
         [] \<Rightarrow> Ok ()
       | v # others \<Rightarrow>
           if others \<noteq> [] \<or> max_credential_header_bytes < length v then Err MalformedAuthorization
           else if \<not> visible_ascii v then Err MalformedAuthorization
           else check_credential key_header name v) = Ok ()"
    by (simp only: validate_credential_headers_def try_each_Ok_iff)
  with assms(3) have v: "get_all headers name = [v]" "length v \<le> 16384" and c: "check_credential key_header name v = Ok ()"
    by (auto simp: max_credential_header_bytes_def split: list.splits if_splits)
  have "is_ok (virtual_key_parse (trim v))" if "name = key_header"
    using c that by (auto simp: check_credential_def virtual_key_parse_def relayna_key_prefix_def
        lookup_prefix_len_def split: if_splits)
  moreover have "\<exists>token. v = ''Bearer '' @ token \<and> trim token \<noteq> [] \<and>
      (starts_with (trim token) ''rk_live_'' \<longrightarrow> validate_key_text (trim token) = Ok ())"
    if "name \<noteq> key_header" "name = ''authorization''"
    using c that by (auto simp: check_credential_def Let_def strip_prefix_Some split: if_splits)
  ultimately show ?thesis using v by blast
qed

theorem credential_headers_sound_witness:
  "validate_credential_headers [(''X-Relayna-Key'', ''rk_live_1234567890'')] ''x-relayna-key'' = Ok () \<and>
   is_ok (virtual_key_parse (trim ''rk_live_1234567890''))"
proof -
  have ok: "validate_credential_headers [(''X-Relayna-Key'', ''rk_live_1234567890'')] ''x-relayna-key'' = Ok ()"
    by code_simp
  have "''rk_live_1234567890'' \<in> set (get_all [(''X-Relayna-Key'', ''rk_live_1234567890'')] ''x-relayna-key'')"
    by code_simp
  from credential_headers_sound [OF ok _ this] ok show ?thesis by (simp add: credential_header_names_def)
qed

end
