(* ===== verification/Body_Admission.thy ===== *)
theory Body_Admission
  imports Gateway_Errors "HOL-Library.AList"
begin

text \<open>
  Admission of buffered request bodies (\<open>gateway-proxy/src/body_admission.rs\<close>): a controller with counters
  of the active requests, of the buffered bytes and, under a size-aware policy, of the working set, and
  one lease per request that grows and shrinks its share. The counters are shared between tasks and
  changed under a lock or by compare-and-exchange, so every operation is one step; the steps of
  different leases interleave in any order. \<open>usize\<close> arithmetic is checked where the code checks it
  and wraps where it does not; durations are nanoseconds.
\<close>

section \<open>Controller and leases\<close>

definition small_body_max_bytes :: nat where
  "small_body_max_bytes = 256 * 1024"

definition request_working_overhead :: nat where
  "request_working_overhead = 64 * 1024"

record size_policy =
  sp_max_working_bytes :: nat
  sp_elastic_max_requests :: "nat option"
  sp_reserved_small_requests :: nat
  sp_workspace_multiplier :: nat
  sp_upload_timeout :: nat

definition small_reserve :: "size_policy \<Rightarrow> nat option" where
  "small_reserve p =
     Option.bind (checked_mul small_body_max_bytes (1 + sp_workspace_multiplier p)) (\<lambda>a.
     Option.bind (checked_add a request_working_overhead) (\<lambda>b. checked_mul b (sp_reserved_small_requests p)))"

definition size_policy_validate :: "size_policy \<Rightarrow> nat \<Rightarrow> unit gateway_result" where
  "size_policy_validate p max_requests =
     (if sp_max_working_bytes p = 0
        \<or> (case sp_elastic_max_requests p of Some limit \<Rightarrow> limit < max_requests | None \<Rightarrow> False)
        \<or> max_requests \<le> sp_reserved_small_requests p
        \<or> \<not> (1 \<le> sp_workspace_multiplier p \<and> sp_workspace_multiplier p \<le> 16)
        \<or> sp_upload_timeout p = 0 \<or> 600 * 10 ^ 9 < sp_upload_timeout p
        \<or> (case small_reserve p of None \<Rightarrow> True | Some bytes \<Rightarrow> sp_max_working_bytes p \<le> bytes)
      then Err InvalidConfiguration else Ok ())"

record working_set =
  ws_bytes :: nat
  ws_large_bytes :: nat
  ws_large_requests :: nat

record body_state =
  bs_configured_max_requests :: nat
  bs_max_requests :: nat
  bs_max_bytes :: nat
  bs_active_requests :: nat
  bs_active_bytes :: nat
  bs_size_policy :: "size_policy option"
  bs_working :: working_set

record lease =
  le_reserved_bytes :: nat
  le_expected_length :: "nat option"
  le_allocation_capacity :: nat
  le_rewrite_capacity :: nat
  le_working_bytes :: nat
  le_extent :: nat
  le_processing :: bool
  le_compact_workspace :: bool
  le_large :: bool

definition with_size_policy :: "nat \<Rightarrow> nat \<Rightarrow> size_policy option \<Rightarrow> body_state gateway_result" where
  "with_size_policy max_requests max_bytes policy =
     (if max_requests = 0 \<or> max_bytes = 0 then Err InvalidConfiguration
      else and_then (case policy of Some p \<Rightarrow> size_policy_validate p max_requests | None \<Rightarrow> Ok ()) (\<lambda>_.
      Ok \<lparr>bs_configured_max_requests = max_requests,
          bs_max_requests =
            (case Option.bind policy sp_elastic_max_requests of Some limit \<Rightarrow> limit | None \<Rightarrow> max_requests),
          bs_max_bytes = max_bytes, bs_active_requests = 0, bs_active_bytes = 0, bs_size_policy = policy,
          bs_working = \<lparr>ws_bytes = 0, ws_large_bytes = 0, ws_large_requests = 0\<rparr>\<rparr>))"

text \<open>The loop of compare-and-exchange ends with the value it read last: one atomic step.\<close>

definition increment_bounded :: "nat \<Rightarrow> nat \<Rightarrow> nat \<Rightarrow> nat option" where
  "increment_bounded counter amount maximum =
     Option.bind (checked_add counter amount) (\<lambda>n. if maximum < n then None else Some n)"

section \<open>Operations of a lease\<close>

type_synonym 'a body_op = "body_state \<Rightarrow> lease \<Rightarrow> 'a gateway_result \<times> body_state \<times> lease"

definition workspace_charge :: "size_policy \<Rightarrow> lease \<Rightarrow> nat \<Rightarrow> nat \<Rightarrow> bool \<Rightarrow> nat option" where
  "workspace_charge p l len capacity processing =
     Option.bind
       (if processing \<or> le_compact_workspace l
        then Option.bind (checked_mul (max len (le_rewrite_capacity l)) (sp_workspace_multiplier p)) (\<lambda>bytes.
             Some (if processing then bytes else min bytes (64 * 1024)))
        else Some 0) (\<lambda>workspace.
     Option.bind (checked_add workspace (max capacity len)) (\<lambda>a.
     Option.bind (checked_add a (le_rewrite_capacity l)) (\<lambda>b.
     checked_add b request_working_overhead)))"

abbreviation of_bool_usize :: "bool \<Rightarrow> nat" where
  "of_bool_usize b \<equiv> if b then 1 else 0"

text \<open>The counters of the working set after a change of one lease's charge, if they stay within the bounds.\<close>

definition next_working :: "size_policy \<Rightarrow> nat \<Rightarrow> working_set \<Rightarrow> lease \<Rightarrow> bool \<Rightarrow> nat \<Rightarrow> working_set option" where
  "next_working p max_requests w l large charge =
     Option.bind (Option.bind (checked_sub (ws_bytes w) (le_working_bytes l)) (\<lambda>v. checked_add v charge)) (\<lambda>bytes.
     Option.bind (Option.bind (checked_sub (ws_large_bytes w) (if le_large l then le_working_bytes l else 0))
         (\<lambda>v. checked_add v (if large then charge else 0))) (\<lambda>large_bytes.
     let large_requests = wrapping_sub (ws_large_requests w) (of_bool_usize (le_large l)) + of_bool_usize large;
         reserve = (case small_reserve p of Some r \<Rightarrow> r | None \<Rightarrow> 0)
     in if sp_max_working_bytes p < bytes
           \<or> wrapping_sub (sp_max_working_bytes p) reserve < large_bytes
           \<or> wrapping_sub max_requests (sp_reserved_small_requests p) < large_requests
        then None
        else Some \<lparr>ws_bytes = bytes, ws_large_bytes = large_bytes, ws_large_requests = large_requests\<rparr>))"

definition update_working :: "nat \<Rightarrow> nat \<Rightarrow> bool \<Rightarrow> bool \<Rightarrow> unit body_op" where
  "update_working len capacity large processing st l =
     (case bs_size_policy st of
        None \<Rightarrow> (Ok (), st, l)
      | Some p \<Rightarrow>
          let large = (large \<or> small_body_max_bytes < le_rewrite_capacity l)
          in case workspace_charge p l len capacity processing of
               None \<Rightarrow> (Err GatewayOverloaded, st, l)
             | Some charge \<Rightarrow>
                 if charge = le_working_bytes l \<and> large = le_large l then (Ok (), st, l)
                 else case next_working p (bs_max_requests st) (bs_working st) l large charge of
                        None \<Rightarrow> (Err GatewayOverloaded, st, l)
                      | Some w \<Rightarrow> (Ok (), st\<lparr>bs_working := w\<rparr>, l\<lparr>le_working_bytes := charge, le_large := large\<rparr>))"

text \<open>What a caller does after \<open>update_working\<close>: set a field on success, restore one on failure.\<close>

definition on_update :: "(lease \<Rightarrow> lease) \<Rightarrow> (lease \<Rightarrow> lease) \<Rightarrow> unit gateway_result \<times> body_state \<times> lease \<Rightarrow>
    unit gateway_result \<times> body_state \<times> lease" where
  "on_update good bad = (\<lambda>(r, st, l). (r, st, if is_ok r then good l else bad l))"

definition prepare_buffer :: "nat \<Rightarrow> nat \<Rightarrow> unit body_op" where
  "prepare_buffer len capacity st l =
     (let capacity = max (le_allocation_capacity l) capacity;
          extent = max len (case le_expected_length l of Some n \<Rightarrow> n | None \<Rightarrow> 0);
          large = (le_expected_length l = None \<or> small_body_max_bytes < extent)
      in on_update (\<lambda>l. l\<lparr>le_allocation_capacity := capacity, le_extent := extent\<rparr>) id
           (update_working extent capacity large (le_processing l) st l))"

definition begin_processing :: "unit body_op" where
  "begin_processing st l =
     on_update (\<lambda>l. l\<lparr>le_processing := True\<rparr>) id
       (update_working (le_extent l) (le_allocation_capacity l) (le_large l) True st l)"

definition prepare_rewrite :: "nat \<Rightarrow> unit body_op" where
  "prepare_rewrite capacity st l =
     (let previous = le_rewrite_capacity l;
          l = l\<lparr>le_rewrite_capacity := max previous capacity\<rparr>
      in on_update (\<lambda>l. l\<lparr>le_processing := True\<rparr>) (\<lambda>l. l\<lparr>le_rewrite_capacity := previous\<rparr>)
           (update_working (le_extent l) (le_allocation_capacity l) (le_large l) True st l))"

definition fixed_workspace :: "body_state \<Rightarrow> bool" where
  "fixed_workspace st = (case bs_size_policy st of None \<Rightarrow> True | Some p \<Rightarrow> sp_elastic_max_requests p = None)"

definition retain_compact_workspace :: "unit body_op" where
  "retain_compact_workspace st l =
     (if fixed_workspace st then (Ok (), st, l)
      else let previous = le_compact_workspace l;
               l = l\<lparr>le_compact_workspace := True\<rparr>
           in on_update (\<lambda>l. l\<lparr>le_processing := False\<rparr>) (\<lambda>l. l\<lparr>le_compact_workspace := previous\<rparr>)
                (update_working (le_extent l) (le_allocation_capacity l) (le_large l) False st l))"

definition try_reserve :: "nat \<Rightarrow> unit body_op" where
  "try_reserve additional st l =
     (if additional = 0 then (Ok (), st, l)
      else case increment_bounded (bs_active_bytes st) additional (bs_max_bytes st) of
             None \<Rightarrow> (Err GatewayOverloaded, st, l)
           | Some n \<Rightarrow> (Ok (), st\<lparr>bs_active_bytes := n\<rparr>,
                       l\<lparr>le_reserved_bytes := saturating_add (le_reserved_bytes l) additional\<rparr>))"

definition lease_drop :: "body_state \<Rightarrow> lease \<Rightarrow> body_state" where
  "lease_drop st l =
     (let w = bs_working st;
          w = (if 0 < le_working_bytes l
               then let w = w\<lparr>ws_bytes := wrapping_sub (ws_bytes w) (le_working_bytes l)\<rparr>
                    in if le_large l
                       then w\<lparr>ws_large_bytes := wrapping_sub (ws_large_bytes w) (le_working_bytes l),
                              ws_large_requests := wrapping_sub (ws_large_requests w) 1\<rparr>
                       else w
               else w)
      in st\<lparr>bs_working := w,
            bs_active_bytes :=
              if 0 < le_reserved_bytes l then wrapping_sub (bs_active_bytes st) (le_reserved_bytes l) else bs_active_bytes st,
            bs_active_requests := wrapping_sub (bs_active_requests st) 1\<rparr>)"

text \<open>
  \<open>into_bytes\<close> consumes the lease: on an error it is dropped, on success it lives with the bytes until
  their last reference is dropped. \<open>len\<close> is the length of the final body.
\<close>

definition into_bytes :: "nat \<Rightarrow> unit body_op" where
  "into_bytes len st l =
     (case try_reserve (len - le_reserved_bytes l) st l of
        (Inl e, st, l) \<Rightarrow> (Err e, st, l)
      | (Inr _, st, l) \<Rightarrow>
          let retained = (if 0 < le_rewrite_capacity l then le_rewrite_capacity l else le_allocation_capacity l);
              l = l\<lparr>le_compact_workspace := False, le_rewrite_capacity := 0\<rparr>
          in update_working len (max retained len) (small_body_max_bytes < len) False st l)"

definition new_lease :: "body_state \<Rightarrow> nat option \<Rightarrow> lease" where
  "new_lease st expected =
     \<lparr>le_reserved_bytes = 0, le_expected_length = expected, le_allocation_capacity = 0, le_rewrite_capacity = 0,
      le_working_bytes = 0, le_extent = 0, le_processing = fixed_workspace st, le_compact_workspace = False,
      le_large = False\<rparr>"

definition try_acquire_sized :: "nat option \<Rightarrow> body_state \<Rightarrow> lease gateway_result \<times> body_state" where
  "try_acquire_sized expected st =
     (case increment_bounded (bs_active_requests st) 1 (bs_max_requests st) of
        None \<Rightarrow> (Err GatewayOverloaded, st)
      | Some n \<Rightarrow>
          let st = st\<lparr>bs_active_requests := n\<rparr>
          in case prepare_buffer 0 0 st (new_lease st expected) of
               (Inl e, st, l) \<Rightarrow> (Err e, lease_drop st l)
             | (Inr _, st, l) \<Rightarrow> (Ok l, st))"

definition upload_remaining :: "body_state \<Rightarrow> nat \<Rightarrow> nat option" where
  "upload_remaining st elapsed = map_option (\<lambda>p. sp_upload_timeout p - elapsed) (bs_size_policy st)"

section \<open>The system\<close>

text \<open>The leases by number, and the events of their tasks. A lease whose task ends is dropped.\<close>

record body_system =
  sy_state :: body_state
  sy_leases :: "(nat \<times> lease) list"
  sy_next :: nat

datatype body_event =
    Acquire "nat option"
  | PrepareBuffer nat nat nat
  | BeginProcessing nat
  | PrepareRewrite nat nat
  | RetainCompact nat
  | Reserve nat nat
  | IntoBytes nat nat
  | DropLease nat

definition on_lease :: "body_system \<Rightarrow> nat \<Rightarrow> bool \<Rightarrow> unit body_op \<Rightarrow> body_system" where
  "on_lease s i consumes f =
     (case map_of (sy_leases s) i of
        None \<Rightarrow> s
      | Some l \<Rightarrow>
          (case f (sy_state s) l of
             (Inl e, st, l) \<Rightarrow>
               if consumes then s\<lparr>sy_state := lease_drop st l, sy_leases := AList.delete i (sy_leases s)\<rparr>
               else s\<lparr>sy_state := st, sy_leases := (i, l) # AList.delete i (sy_leases s)\<rparr>
           | (Inr _, st, l) \<Rightarrow> s\<lparr>sy_state := st, sy_leases := (i, l) # AList.delete i (sy_leases s)\<rparr>))"

fun body_step :: "body_system \<Rightarrow> body_event \<Rightarrow> body_system" where
  "body_step s (Acquire expected) =
     (case try_acquire_sized expected (sy_state s) of
        (Inl e, st) \<Rightarrow> s\<lparr>sy_state := st\<rparr>
      | (Inr l, st) \<Rightarrow> s\<lparr>sy_state := st, sy_leases := (sy_next s, l) # sy_leases s, sy_next := Suc (sy_next s)\<rparr>)"
| "body_step s (PrepareBuffer i len capacity) = on_lease s i False (prepare_buffer len capacity)"
| "body_step s (BeginProcessing i) = on_lease s i False begin_processing"
| "body_step s (PrepareRewrite i capacity) = on_lease s i False (prepare_rewrite capacity)"
| "body_step s (RetainCompact i) = on_lease s i False retain_compact_workspace"
| "body_step s (Reserve i n) = on_lease s i False (try_reserve n)"
| "body_step s (IntoBytes i len) = on_lease s i True (into_bytes len)"
| "body_step s (DropLease i) =
     (case map_of (sy_leases s) i of
        None \<Rightarrow> s
      | Some l \<Rightarrow> s\<lparr>sy_state := lease_drop (sy_state s) l, sy_leases := AList.delete i (sy_leases s)\<rparr>)"

section \<open>The invariant\<close>

text \<open>
  Every counter is the sum of what the leases hold, and within its bound; the subtractions of the code
  never wrap.
\<close>

definition held :: "(lease \<Rightarrow> nat) \<Rightarrow> (nat \<times> lease) list \<Rightarrow> nat" where
  "held f ls = sum_list (map (\<lambda>(_, l). f l) ls)"

definition large_share :: "lease \<Rightarrow> nat" where
  "large_share l = (if le_large l then le_working_bytes l else 0)"

definition policy_bounds :: "body_state \<Rightarrow> bool" where
  "policy_bounds st = (case bs_size_policy st of None \<Rightarrow> True | Some p \<Rightarrow>
     (\<exists>r. small_reserve p = Some r \<and> r < sp_max_working_bytes p \<and>
        sp_reserved_small_requests p < bs_max_requests st \<and>
        ws_bytes (bs_working st) \<le> sp_max_working_bytes p \<and>
        ws_large_bytes (bs_working st) \<le> sp_max_working_bytes p - r \<and>
        ws_large_requests (bs_working st) \<le> bs_max_requests st - sp_reserved_small_requests p))"

definition body_inv :: "body_state \<Rightarrow> (nat \<times> lease) list \<Rightarrow> bool" where
  "body_inv st ls \<longleftrightarrow>
     bs_active_requests st = length ls \<and> length ls \<le> bs_max_requests st \<and>
     bs_active_bytes st = held le_reserved_bytes ls \<and> bs_active_bytes st \<le> bs_max_bytes st \<and>
     (\<forall>(_, l) \<in> set ls. le_large l \<longrightarrow> 0 < le_working_bytes l) \<and>
     ws_bytes (bs_working st) = held le_working_bytes ls \<and>
     ws_large_bytes (bs_working st) = held large_share ls \<and>
     ws_large_requests (bs_working st) = held (\<lambda>l. of_bool_usize (le_large l)) ls \<and>
     policy_bounds st"

lemma held_Cons [simp]: "held f ((i, l) # ls) = f l + held f ls"
  by (simp add: held_def)

lemma held_Nil [simp]: "held f [] = 0"
  by (simp add: held_def)

lemma body_inv_cong:
  "le_reserved_bytes l' = le_reserved_bytes l \<Longrightarrow> le_working_bytes l' = le_working_bytes l \<Longrightarrow> le_large l' = le_large l \<Longrightarrow>
   body_inv st ((i, l') # R) = body_inv st ((i, l) # R)"
  by (simp add: body_inv_def large_share_def)

lemma charge_pos: "workspace_charge p l len capacity processing = Some c \<Longrightarrow> 0 < c"
  by (auto simp: workspace_charge_def request_working_overhead_def bind_eq_Some_conv)

lemma if_None_Some: "(if b then None else Some x) = Some y \<Longrightarrow> \<not> b \<and> y = x"
  by (cases b) simp_all

lemma next_working_Some:
  assumes "next_working p n w l large c = Some w'" and "small_reserve p = Some r" and "r < sp_max_working_bytes p"
    and "sp_reserved_small_requests p < n" and "of_bool_usize (le_large l) \<le> ws_large_requests w"
  shows "le_working_bytes l \<le> ws_bytes w \<and> ws_bytes w' = ws_bytes w - le_working_bytes l + c \<and>
    ws_bytes w' \<le> sp_max_working_bytes p \<and>
    large_share l \<le> ws_large_bytes w \<and> ws_large_bytes w' = ws_large_bytes w - large_share l + (if large then c else 0) \<and>
    ws_large_bytes w' \<le> sp_max_working_bytes p - r \<and>
    ws_large_requests w' = ws_large_requests w - of_bool_usize (le_large l) + of_bool_usize large \<and>
    ws_large_requests w' \<le> n - sp_reserved_small_requests p"
proof -
  note exact = wrapping_sub_exact [OF less_imp_le [OF assms(3)]] wrapping_sub_exact [OF less_imp_le [OF assms(4)]]
    wrapping_sub_exact [OF assms(5)]
  from assms(1) obtain v b v' lb where
    b: "checked_sub (ws_bytes w) (le_working_bytes l) = Some v" "checked_add v c = Some b" and
    lb: "checked_sub (ws_large_bytes w) (large_share l) = Some v'" "checked_add v' (if large then c else 0) = Some lb" and
    w': "(if sp_max_working_bytes p < b \<or> sp_max_working_bytes p - r < lb \<or>
         n - sp_reserved_small_requests p < ws_large_requests w - of_bool_usize (le_large l) + of_bool_usize large
       then None
       else Some \<lparr>ws_bytes = b, ws_large_bytes = lb,
              ws_large_requests = ws_large_requests w - of_bool_usize (le_large l) + of_bool_usize large\<rparr>) = Some w'"
    unfolding next_working_def Let_def assms(2) option.case exact large_share_def [symmetric]
    by (elim bind_SomeE) (rule that)
  from b lb have eqs: "le_working_bytes l \<le> ws_bytes w" "b = ws_bytes w - le_working_bytes l + c"
    "large_share l \<le> ws_large_bytes w" "lb = ws_large_bytes w - large_share l + (if large then c else 0)"
    by (simp_all only: checked_sub_Some checked_add_Some)
  from if_None_Some [OF w'] have w'_eq: "w' = \<lparr>ws_bytes = b, ws_large_bytes = lb,
      ws_large_requests = ws_large_requests w - of_bool_usize (le_large l) + of_bool_usize large\<rparr>"
    and le: "b \<le> sp_max_working_bytes p" "lb \<le> sp_max_working_bytes p - r"
    "ws_large_requests w - of_bool_usize (le_large l) + of_bool_usize large \<le> n - sp_reserved_small_requests p"
    by (simp_all only: de_Morgan_disj not_less)
  from eqs le show ?thesis unfolding w'_eq working_set.simps by (intro conjI) (assumption | rule refl)+
qed

lemma update_working_inv:
  assumes inv: "body_inv st ((i, l) # R)" and u: "update_working len capacity large processing st l = (r, st', l')"
  shows "body_inv st' ((i, l') # R) \<and> le_reserved_bytes l' = le_reserved_bytes l"
proof (cases "(st', l') = (st, l)")
  case True
  with inv show ?thesis by simp
next
  case False
  with u obtain p where p: "bs_size_policy st = Some p" by (auto simp: update_working_def split: option.splits)
  define lg where "lg = (large \<or> small_body_max_bytes < le_rewrite_capacity l)"
  have eq: "update_working len capacity large processing st l =
      (case workspace_charge p l len capacity processing of
         None \<Rightarrow> (Err GatewayOverloaded, st, l)
       | Some charge \<Rightarrow>
           if charge = le_working_bytes l \<and> lg = le_large l then (Ok (), st, l)
           else case next_working p (bs_max_requests st) (bs_working st) l lg charge of
                  None \<Rightarrow> (Err GatewayOverloaded, st, l)
                | Some w \<Rightarrow> (Ok (), st\<lparr>bs_working := w\<rparr>, l\<lparr>le_working_bytes := charge, le_large := lg\<rparr>))"
    by (simp only: update_working_def p option.case Let_def lg_def)
  obtain c where c: "workspace_charge p l len capacity processing = Some c"
    using u False by (cases "workspace_charge p l len capacity processing") (simp_all add: eq)
  have "\<not> (c = le_working_bytes l \<and> lg = le_large l)"
    using u False by (intro notI) (simp add: eq c)
  then obtain w where w: "next_working p (bs_max_requests st) (bs_working st) l lg c = Some w"
    and st': "st' = st\<lparr>bs_working := w\<rparr>" and l': "l' = l\<lparr>le_working_bytes := c, le_large := lg\<rparr>"
    using u False
    by (cases "next_working p (bs_max_requests st) (bs_working st) l lg c") (simp_all only: eq c option.case if_False prod.inject simp_thms)
  from inv p obtain res where res: "small_reserve p = Some res" "res < sp_max_working_bytes p"
    "sp_reserved_small_requests p < bs_max_requests st" by (auto simp: body_inv_def policy_bounds_def)
  have "of_bool_usize (le_large l) \<le> ws_large_requests (bs_working st)" using inv by (simp add: body_inv_def)
  note nw = next_working_Some [OF w res this]
  have "body_inv st' ((i, l') # R)"
    using inv p res nw charge_pos [OF c]
    by (simp add: st' l' body_inv_def policy_bounds_def large_share_def)
  then show ?thesis by (simp add: l')
qed

text \<open>An operation keeps the invariant of the lease it is applied to beside any others.\<close>

definition keeps_inv :: "unit body_op \<Rightarrow> bool" where
  "keeps_inv f \<longleftrightarrow> (\<forall>st i l R r st' l'. body_inv st ((i, l) # R) \<longrightarrow> f st l = (r, st', l') \<longrightarrow> body_inv st' ((i, l') # R))"

lemma keeps_invD: "keeps_inv f \<Longrightarrow> body_inv st ((i, l) # R) \<Longrightarrow> f st l = (r, st', l') \<Longrightarrow> body_inv st' ((i, l') # R)"
  unfolding keeps_inv_def by blast

lemma on_update_inv:
  assumes inv: "body_inv st ((i, l0) # R)"
    and o: "on_update good bad (update_working len capacity large processing st l0) = (r, st', l')"
    and same: "\<And>l. le_reserved_bytes (good l) = le_reserved_bytes l \<and> le_working_bytes (good l) = le_working_bytes l \<and> le_large (good l) = le_large l"
      "\<And>l. le_reserved_bytes (bad l) = le_reserved_bytes l \<and> le_working_bytes (bad l) = le_working_bytes l \<and> le_large (bad l) = le_large l"
  shows "body_inv st' ((i, l') # R)"
proof -
  obtain r1 st1 l1 where u: "update_working len capacity large processing st l0 = (r1, st1, l1)" by (rule prod_cases3)
  from o u have "st' = st1" "l' = (if is_ok r1 then good l1 else bad l1)" by (auto simp: on_update_def)
  with update_working_inv [OF inv u] body_inv_cong [of "good l1" l1 st1 i R] body_inv_cong [of "bad l1" l1 st1 i R] same
  show ?thesis by simp
qed

lemma prepare_buffer_inv: "keeps_inv (prepare_buffer len capacity)"
  unfolding keeps_inv_def prepare_buffer_def Let_def by (intro allI impI) (erule on_update_inv, assumption, simp_all)

lemma begin_processing_inv: "keeps_inv begin_processing"
  unfolding keeps_inv_def begin_processing_def by (intro allI impI) (erule on_update_inv, assumption, simp_all)

lemma prepare_rewrite_inv: "keeps_inv (prepare_rewrite capacity)"
  unfolding keeps_inv_def prepare_rewrite_def Let_def
proof (intro allI impI)
  fix st i R r st' and l l' :: lease
  let ?l = "l\<lparr>le_rewrite_capacity := max (le_rewrite_capacity l) capacity\<rparr>"
  assume "body_inv st ((i, l) # R)"
  then have "body_inv st ((i, ?l) # R)" using body_inv_cong [of ?l l st i R] by simp
  note u = on_update_inv [OF this]
  show "on_update (\<lambda>l. l\<lparr>le_processing := True\<rparr>) (\<lambda>la. la\<lparr>le_rewrite_capacity := le_rewrite_capacity l\<rparr>)
      (update_working (le_extent ?l) (le_allocation_capacity ?l) (le_large ?l) True st ?l) = (r, st', l') \<Longrightarrow>
      body_inv st' ((i, l') # R)"
    by (erule u) simp_all
qed

lemma retain_compact_inv: "keeps_inv retain_compact_workspace"
  unfolding keeps_inv_def retain_compact_workspace_def Let_def
proof (intro allI impI)
  fix st i R r st' and l l' :: lease
  let ?l = "l\<lparr>le_compact_workspace := True\<rparr>"
  assume inv: "body_inv st ((i, l) # R)"
  then have "body_inv st ((i, ?l) # R)" using body_inv_cong [of ?l l st i R] by simp
  note u = on_update_inv [OF this]
  show "(if fixed_workspace st then (Ok (), st, l)
      else on_update (\<lambda>l. l\<lparr>le_processing := False\<rparr>) (\<lambda>la. la\<lparr>le_compact_workspace := le_compact_workspace l\<rparr>)
        (update_working (le_extent ?l) (le_allocation_capacity ?l) (le_large ?l) False st ?l)) = (r, st', l') \<Longrightarrow>
      body_inv st' ((i, l') # R)"
    using inv by (cases "fixed_workspace st") (simp, simp only: if_False, erule u, simp_all)
qed

lemma increment_bounded_Some:
  "increment_bounded c a m = Some n \<Longrightarrow> n = c + a \<and> c + a \<le> m \<and> c + a < 2 ^ 64"
  unfolding increment_bounded_def by (erule bind_SomeE) (auto split: if_splits)

lemma policy_bounds_cong [simp]:
  "policy_bounds (st\<lparr>bs_active_bytes := n\<rparr>) = policy_bounds st"
  "policy_bounds (st\<lparr>bs_active_requests := n\<rparr>) = policy_bounds st"
  by (cases "bs_size_policy st"; simp add: policy_bounds_def)+

lemma try_reserve_inv: "keeps_inv (try_reserve additional)"
  unfolding keeps_inv_def
proof (intro allI impI)
  fix st i R r st' and l l' :: lease
  assume inv: "body_inv st ((i, l) # R)" and t: "try_reserve additional st l = (r, st', l')"
  show "body_inv st' ((i, l') # R)"
  proof (cases "(st', l') = (st, l)")
    case True
    with inv show ?thesis by simp
  next
    case False
    with t obtain n where n: "increment_bounded (bs_active_bytes st) additional (bs_max_bytes st) = Some n"
      and st': "st' = st\<lparr>bs_active_bytes := n\<rparr>"
      and l': "l' = l\<lparr>le_reserved_bytes := saturating_add (le_reserved_bytes l) additional\<rparr>"
      by (cases "increment_bounded (bs_active_bytes st) additional (bs_max_bytes st)")
        (simp_all add: try_reserve_def split: if_splits)
    from increment_bounded_Some [OF n]
    have n': "n = bs_active_bytes st + additional" "n \<le> bs_max_bytes st" "n < 2 ^ 64" by simp_all
    moreover have "le_reserved_bytes l \<le> bs_active_bytes st" using inv by (simp add: body_inv_def)
    ultimately have "le_reserved_bytes l + additional < 2 ^ 64" by linarith
    then have "saturating_add (le_reserved_bytes l) additional = le_reserved_bytes l + additional"
      by (simp add: saturating_add_def)
    with inv n' show ?thesis
      by (simp add: st' l' body_inv_def large_share_def)
  qed
qed

lemma into_bytes_inv: "keeps_inv (into_bytes len)"
  unfolding keeps_inv_def
proof (intro allI impI)
  fix st i R r st' and l l' :: lease
  assume inv: "body_inv st ((i, l) # R)" and t: "into_bytes len st l = (r, st', l')"
  obtain r1 st1 l1 where a: "try_reserve (len - le_reserved_bytes l) st l = (r1, st1, l1)" by (rule prod_cases3)
  have inv1: "body_inv st1 ((i, l1) # R)" by (rule keeps_invD [OF try_reserve_inv inv a])
  let ?l = "l1\<lparr>le_compact_workspace := False, le_rewrite_capacity := 0\<rparr>"
  have inv2: "body_inv st1 ((i, ?l) # R)" using inv1 body_inv_cong [of ?l l1 st1 i R] by simp
  show "body_inv st' ((i, l') # R)"
  proof (cases r1)
    case (Inl e)
    with t a inv1 show ?thesis by (simp add: into_bytes_def)
  next
    case (Inr u)
    with t a have "\<exists>c. update_working len c (small_body_max_bytes < len) False st1 ?l = (r, st', l')"
      by (simp add: into_bytes_def Let_def) blast
    with update_working_inv [OF inv2] show ?thesis by blast
  qed
qed

lemma lease_drop_inv:
  assumes inv: "body_inv st ((i, l) # R)"
  shows "body_inv (lease_drop st l) R"
proof -
  let ?w = "bs_working st"
  have eq: "bs_active_requests st = Suc (length R)" "bs_active_bytes st = le_reserved_bytes l + held le_reserved_bytes R"
    "ws_bytes ?w = le_working_bytes l + held le_working_bytes R" "ws_large_bytes ?w = large_share l + held large_share R"
    "ws_large_requests ?w = of_bool_usize (le_large l) + held (\<lambda>l. of_bool_usize (le_large l)) R"
    and large: "le_large l \<Longrightarrow> 0 < le_working_bytes l"
    using inv by (auto simp: body_inv_def)
  have w: "bs_working (lease_drop st l) =
      \<lparr>ws_bytes = held le_working_bytes R, ws_large_bytes = held large_share R,
       ws_large_requests = held (\<lambda>l. of_bool_usize (le_large l)) R\<rparr>"
    using eq large by (cases "le_large l") (auto simp: lease_drop_def Let_def large_share_def)
  have "bs_active_requests (lease_drop st l) = length R" "bs_active_bytes (lease_drop st l) = held le_reserved_bytes R"
    using eq by (simp_all add: lease_drop_def Let_def)
  moreover have "bs_max_requests (lease_drop st l) = bs_max_requests st" "bs_max_bytes (lease_drop st l) = bs_max_bytes st"
    "bs_size_policy (lease_drop st l) = bs_size_policy st"
    by (simp_all add: lease_drop_def Let_def)
  moreover have "policy_bounds (lease_drop st l)"
    using inv eq calculation by (auto simp: policy_bounds_def body_inv_def w split: option.splits)
  ultimately show ?thesis using inv by (simp add: body_inv_def w)
qed

lemma acquire_inv:
  assumes inv: "body_inv st ls" and t: "try_acquire_sized expected st = (r, st')"
  shows "case r of Inl _ \<Rightarrow> body_inv st' ls | Inr l \<Rightarrow> body_inv st' ((i, l) # ls)"
proof (cases "increment_bounded (bs_active_requests st) 1 (bs_max_requests st)")
  case None
  with t inv show ?thesis by (auto simp: try_acquire_sized_def)
next
  case (Some n)
  let ?st = "st\<lparr>bs_active_requests := n\<rparr>"
  have inv1: "body_inv ?st ((i, new_lease ?st expected) # ls)"
    using increment_bounded_Some [OF Some] inv by (simp add: body_inv_def new_lease_def large_share_def)
  obtain r1 st1 l1 where b: "prepare_buffer 0 0 ?st (new_lease ?st expected) = (r1, st1, l1)" by (rule prod_cases3)
  have inv2: "body_inv st1 ((i, l1) # ls)" by (rule keeps_invD [OF prepare_buffer_inv inv1 b])
  show ?thesis
    using t Some b inv2 lease_drop_inv [OF inv2] by (cases r1) (auto simp: try_acquire_sized_def Let_def)
qed

lemma held_delete:
  "distinct (map fst ls) \<Longrightarrow> map_of ls i = Some l \<Longrightarrow> held f ls = f l + held f (AList.delete i ls)"
proof (induction ls)
  case (Cons x ls)
  then show ?case by (cases x) (auto simp: held_def split: if_splits)
qed simp

lemma held_one: "held (\<lambda>_. 1) ls = length ls" "1 + length ls = Suc (length ls)"
  by (induction ls) (auto simp: held_def)

lemma body_inv_take:
  assumes "distinct (map fst ls)" and "map_of ls i = Some l"
  shows "body_inv st ls = body_inv st ((i, l) # AList.delete i ls)"
proof -
  have "set ls = insert (i, l) (set (AList.delete i ls))"
  proof -
    have "set (AList.delete i ls) = {x \<in> set ls. fst x \<noteq> i}"
      by (induction ls) auto
    moreover have "x = (i, l)" if "x \<in> set ls" "fst x = i" for x
      using that map_of_SomeD [OF assms(2)] eq_key_imp_eq_value [OF assms(1)] by (metis prod.collapse)
    ultimately show ?thesis using map_of_SomeD [OF assms(2)] by blast
  qed
  moreover have "length ls = Suc (length (AList.delete i ls))"
    using held_delete [OF assms, of "\<lambda>_. 1"] by (simp only: held_one)
  ultimately show ?thesis using held_delete [OF assms] by (simp add: body_inv_def del: delete_id)
qed

definition system_inv :: "body_system \<Rightarrow> bool" where
  "system_inv s \<longleftrightarrow> body_inv (sy_state s) (sy_leases s) \<and> distinct (map fst (sy_leases s)) \<and>
     (\<forall>i \<in> fst ` set (sy_leases s). i < sy_next s)"

lemma delete_keys_eq: "fst ` set (AList.delete i ls) = fst ` set ls - {i}"
  by (induction ls) auto

lemma on_lease_inv:
  assumes inv: "system_inv s" and f: "keeps_inv f"
  shows "system_inv (on_lease s i consumes f)"
proof (cases "map_of (sy_leases s) i")
  case (Some l)
  let ?R = "AList.delete i (sy_leases s)"
  from inv have d: "distinct (map fst (sy_leases s))" and n: "\<forall>j \<in> fst ` set (sy_leases s). j < sy_next s"
    by (simp_all add: system_inv_def)
  have "i < sy_next s" using n map_of_SomeD [OF Some] by force
  have i: "i \<notin> fst ` set ?R" "\<forall>j \<in> fst ` set ?R. j < sy_next s" "distinct (map fst ?R)"
    using n d by (simp_all only: delete_keys_eq distinct_delete) auto
  obtain r st l' where u: "f (sy_state s) l = (r, st, l')" by (rule prod_cases3)
  have inv': "body_inv st ((i, l') # ?R)"
    using inv body_inv_take [OF d Some] by (intro keeps_invD [OF f _ u]) (simp add: system_inv_def)
  show ?thesis
    using Some u inv' i \<open>i < sy_next s\<close> lease_drop_inv [OF inv']
    by (cases r) (auto simp: on_lease_def system_inv_def)
qed (simp add: on_lease_def inv)

lemma drop_step_inv:
  assumes inv: "system_inv s"
  shows "system_inv (body_step s (DropLease i))"
proof (cases "map_of (sy_leases s) i")
  case (Some l)
  let ?R = "AList.delete i (sy_leases s)"
  from inv have d: "distinct (map fst (sy_leases s))" and n: "\<forall>j \<in> fst ` set (sy_leases s). j < sy_next s"
    by (simp_all add: system_inv_def)
  have "\<forall>j \<in> fst ` set ?R. j < sy_next s" "distinct (map fst ?R)"
    using n d by (simp_all only: delete_keys_eq distinct_delete) auto
  moreover have "body_inv (lease_drop (sy_state s) l) ?R"
    using inv body_inv_take [OF d Some] by (intro lease_drop_inv [where i = i]) (simp add: system_inv_def)
  ultimately show ?thesis using Some by (simp add: system_inv_def)
qed (simp add: inv)

interpretation body: invariant_system body_step system_inv
proof
  fix s e
  assume inv: "system_inv s"
  note ops = prepare_buffer_inv begin_processing_inv prepare_rewrite_inv retain_compact_inv try_reserve_inv into_bytes_inv
  show "system_inv (body_step s e)"
  proof (cases e)
    case (Acquire expected)
    obtain r st where t: "try_acquire_sized expected (sy_state s) = (r, st)" by fastforce
    from inv acquire_inv [OF _ t, of "sy_leases s" "sy_next s"] show ?thesis
      by (cases r) (auto simp: Acquire t system_inv_def less_SucI)
  next
    case (DropLease i)
    then show ?thesis by (simp only: drop_step_inv [OF inv])
  qed (simp_all add: on_lease_inv [OF inv] ops)
qed

definition start_system :: "body_state \<Rightarrow> body_system" where
  "start_system st = \<lparr>sy_state = st, sy_leases = [], sy_next = 0\<rparr>"

lemma start_inv:
  assumes "with_size_policy max_requests max_bytes policy = Ok st"
  shows "system_inv (start_system st)"
proof (cases policy)
  case None
  with assms show ?thesis
    by (auto simp: with_size_policy_def start_system_def system_inv_def body_inv_def policy_bounds_def split: if_splits)
next
  case (Some p)
  from assms have v: "size_policy_validate p max_requests = Ok ()"
    and st: "st = \<lparr>bs_configured_max_requests = max_requests,
        bs_max_requests = (case sp_elastic_max_requests p of Some limit \<Rightarrow> limit | None \<Rightarrow> max_requests),
        bs_max_bytes = max_bytes, bs_active_requests = 0, bs_active_bytes = 0, bs_size_policy = Some p,
        bs_working = \<lparr>ws_bytes = 0, ws_large_bytes = 0, ws_large_requests = 0\<rparr>\<rparr>"
    by (auto simp: with_size_policy_def Some split: if_splits)
  from v obtain r where r: "small_reserve p = Some r" "r < sp_max_working_bytes p" "sp_reserved_small_requests p < max_requests"
    and e: "\<And>n. sp_elastic_max_requests p = Some n \<Longrightarrow> max_requests \<le> n"
    unfolding size_policy_validate_def by (elim if_ErrE) (auto split: option.splits)
  have "sp_reserved_small_requests p < (case sp_elastic_max_requests p of Some limit \<Rightarrow> limit | None \<Rightarrow> max_requests)"
    using r(3) e by (auto split: option.splits intro: less_le_trans)
  with r show ?thesis by (simp add: st start_system_def system_inv_def body_inv_def policy_bounds_def)
qed

text \<open>The configuration never changes.\<close>

abbreviation config :: "body_state \<Rightarrow> size_policy option \<times> nat" where
  "config st \<equiv> (bs_size_policy st, bs_max_requests st)"

lemma update_working_config: "config (fst (snd (update_working len capacity large processing st l))) = config st"
  by (cases "bs_size_policy st") (auto simp: update_working_def Let_def split: option.splits)

lemma on_update_config: "config (fst (snd (on_update good bad u))) = config (fst (snd u))"
  by (cases u) (simp add: on_update_def)

lemma try_reserve_config: "config (fst (snd (try_reserve n st l))) = config st"
  by (auto simp: try_reserve_def split: option.splits)

lemma drop_config: "config (lease_drop st l) = config st"
  by (simp add: lease_drop_def Let_def)

lemma into_bytes_config: "config (fst (snd (into_bytes len st l))) = config st"
proof -
  obtain r st1 l1 where a: "try_reserve (len - le_reserved_bytes l) st l = (r, st1, l1)" by (rule prod_cases3)
  with try_reserve_config [of "len - le_reserved_bytes l" st l] have "config st1 = config st" by simp
  then show ?thesis using update_working_config by (cases r) (simp_all add: into_bytes_def a Let_def)
qed

lemmas op_config = update_working_config try_reserve_config drop_config into_bytes_config on_update_config

lemma on_lease_config:
  assumes "\<And>l. config (fst (snd (f (sy_state s) l))) = config (sy_state s)"
  shows "config (sy_state (on_lease s i consumes f)) = config (sy_state s)"
proof (cases "map_of (sy_leases s) i")
  case (Some l)
  obtain r st1 l1 where a: "f (sy_state s) l = (r, st1, l1)" by (rule prod_cases3)
  with assms [of l] have "config st1 = config (sy_state s)" by simp
  then show ?thesis using drop_config [of st1 l1] by (cases r) (simp_all add: on_lease_def Some a)
qed (simp add: on_lease_def)

lemma acquire_config: "config (snd (try_acquire_sized e st)) = config st"
proof (cases "increment_bounded (bs_active_requests st) 1 (bs_max_requests st)")
  case (Some n)
  let ?st = "st\<lparr>bs_active_requests := n\<rparr>"
  obtain r st1 l1 where a: "prepare_buffer 0 0 ?st (new_lease ?st e) = (r, st1, l1)" by (rule prod_cases3)
  have "config (fst (snd (prepare_buffer 0 0 ?st (new_lease ?st e)))) = config ?st"
    unfolding prepare_buffer_def Let_def on_update_config by (rule update_working_config)
  with a have "config st1 = config st" by simp
  then show ?thesis using drop_config [of st1 l1] by (cases r) (simp_all add: try_acquire_sized_def Some [unfolded One_nat_def] a)
qed (simp add: try_acquire_sized_def)

lemma step_config: "config (sy_state (body_step s e)) = config (sy_state s)"
proof (cases e)
  case (Acquire expected)
  obtain r st1 where "try_acquire_sized expected (sy_state s) = (r, st1)" by fastforce
  with acquire_config [of expected "sy_state s"] show ?thesis by (cases r) (simp_all add: Acquire)
next
  case (DropLease i)
  then show ?thesis by (cases "map_of (sy_leases s) i") (simp_all add: drop_config [unfolded prod.inject])
next
  case (RetainCompact i)
  have "config (fst (snd (retain_compact_workspace (sy_state s) l))) = config (sy_state s)" for l
    using on_update_config update_working_config by (simp add: retain_compact_workspace_def Let_def)
  with RetainCompact show ?thesis by (simp only: body_step.simps on_lease_config)
qed (simp_all only: body_step.simps on_lease_config op_config prepare_buffer_def begin_processing_def prepare_rewrite_def Let_def)

lemma run_constants: "config (sy_state (foldl body_step (start_system st) evs)) = config st"
proof -
  have "config (sy_state (foldl body_step s evs)) = config (sy_state s)" for s
  proof (induction evs arbitrary: s)
    case (Cons e evs)
    from Cons.IH [of "body_step s e"] step_config [of s e] show ?case by simp
  qed simp
  then show ?thesis by (simp add: start_system_def)
qed

lemma large_count: "held (\<lambda>l. of_bool_usize (le_large l)) ls = length (filter (\<lambda>(_, l). le_large l) ls)"
  by (induction ls) (auto simp: held_def)

section \<open>Properties\<close>

text \<open>
  C36 (invariant): in every interleaving of the operations of any number of leases, the counters of the
  controller are exactly what the live leases hold and stay within the configured bounds: the number
  of requests, the buffered bytes, the working set, the part of it and the number of requests that are
  large. No counter wraps, and when the last lease is gone all are zero.
\<close>

theorem body_counters_exact:
  assumes "with_size_policy max_requests max_bytes policy = Ok st"
    and "s = foldl body_step (start_system st) evs"
  shows "bs_active_requests (sy_state s) = length (sy_leases s) \<and>
    length (sy_leases s) \<le> bs_max_requests (sy_state s) \<and>
    bs_active_bytes (sy_state s) = held le_reserved_bytes (sy_leases s) \<and>
    bs_active_bytes (sy_state s) \<le> bs_max_bytes (sy_state s) \<and>
    ws_bytes (bs_working (sy_state s)) = held le_working_bytes (sy_leases s) \<and>
    ws_large_bytes (bs_working (sy_state s)) = held large_share (sy_leases s) \<and>
    ws_large_requests (bs_working (sy_state s)) = length (filter (\<lambda>(_, l). le_large l) (sy_leases s)) \<and>
    (case bs_size_policy (sy_state s) of None \<Rightarrow> True | Some p \<Rightarrow>
       \<exists>r. small_reserve p = Some r \<and> held le_working_bytes (sy_leases s) \<le> sp_max_working_bytes p \<and>
         held large_share (sy_leases s) + r \<le> sp_max_working_bytes p \<and>
         length (filter (\<lambda>(_, l). le_large l) (sy_leases s)) + sp_reserved_small_requests p \<le> bs_max_requests (sy_state s))"
proof -
  have inv: "body_inv (sy_state s) (sy_leases s)"
    using body.run_invar [OF start_inv [OF assms(1)], of evs] assms(2) by (simp add: system_inv_def)
  have "case bs_size_policy (sy_state s) of None \<Rightarrow> True | Some p \<Rightarrow>
       \<exists>r. small_reserve p = Some r \<and> held le_working_bytes (sy_leases s) \<le> sp_max_working_bytes p \<and>
         held large_share (sy_leases s) + r \<le> sp_max_working_bytes p \<and>
         length (filter (\<lambda>(_, l). le_large l) (sy_leases s)) + sp_reserved_small_requests p \<le> bs_max_requests (sy_state s)"
    using inv by (auto simp: body_inv_def policy_bounds_def large_count split: option.splits)
  then show ?thesis using inv by (simp add: body_inv_def large_count)
qed

definition sample_policy :: size_policy where
  "sample_policy = \<lparr>sp_max_working_bytes = 8 * 1024 * 1024, sp_elastic_max_requests = None,
     sp_reserved_small_requests = 1, sp_workspace_multiplier = 2, sp_upload_timeout = 30 * 10 ^ 9\<rparr>"

definition sample_state :: body_state where
  "sample_state = \<lparr>bs_configured_max_requests = 4, bs_max_requests = 4, bs_max_bytes = 1000000, bs_active_requests = 0,
     bs_active_bytes = 0, bs_size_policy = Some sample_policy,
     bs_working = \<lparr>ws_bytes = 0, ws_large_bytes = 0, ws_large_requests = 0\<rparr>\<rparr>"

lemma sample_state_ok: "with_size_policy 4 1000000 (Some sample_policy) = Ok sample_state"
  by (simp add: with_size_policy_def size_policy_validate_def sample_policy_def sample_state_def small_reserve_def
      int_simps small_body_max_bytes_def request_working_overhead_def)

theorem body_counters_exact_witness:
  "bs_active_requests (sy_state (foldl body_step (start_system sample_state) [Acquire None, Acquire (Some 100), Reserve 0 5])) =
   length (sy_leases (foldl body_step (start_system sample_state) [Acquire None, Acquire (Some 100), Reserve 0 5]))"
  using body_counters_exact [OF sample_state_ok refl, of "[Acquire None, Acquire (Some 100), Reserve 0 5]"] by blast

text \<open>The charge of a request with a small declared length.\<close>

definition small_charge :: "size_policy \<Rightarrow> nat" where
  "small_charge p = small_body_max_bytes * (1 + sp_workspace_multiplier p) + request_working_overhead"

lemma small_reserve_eq: "small_reserve p = Some r \<Longrightarrow> r = small_charge p * sp_reserved_small_requests p"
  unfolding small_reserve_def by (elim bind_SomeE) (simp add: small_charge_def)

lemma new_small_charge:
  assumes "n \<le> small_body_max_bytes" and "sp_workspace_multiplier p \<le> 16"
  shows "\<exists>c. workspace_charge p (new_lease st (Some n)) n 0 processing = Some c \<and> c \<le> small_charge p"
proof -
  define k where "k = n * sp_workspace_multiplier p"
  have k: "k \<le> 262144 * sp_workspace_multiplier p" "n \<le> 262144"
    using assms(1) mult_le_mono1 [of n 262144 "sp_workspace_multiplier p"] by (simp_all add: k_def small_body_max_bytes_def)
  show ?thesis
  proof (cases processing)
    case True
    have "checked_mul n (sp_workspace_multiplier p) = Some k" "checked_add k n = Some (k + n)"
      "checked_add (k + n) 0 = Some (k + n)" "checked_add (k + n) request_working_overhead = Some (k + n + 65536)"
      using k assms(2) by (simp_all add: k_def [symmetric] request_working_overhead_def)
    then have "workspace_charge p (new_lease st (Some n)) n 0 processing = Some (k + n + 65536)"
      using True by (simp only: workspace_charge_def new_lease_def lease.simps simp_thms if_True if_False max_0R max_0L bind.simps)
    then show ?thesis using k by (simp add: small_charge_def small_body_max_bytes_def request_working_overhead_def)
  next
    case False
    then show ?thesis
      using k by (simp add: workspace_charge_def new_lease_def int_simps small_charge_def
          small_body_max_bytes_def request_working_overhead_def)
  qed
qed

lemma held_split:
  "held le_working_bytes ls = held large_share ls + held le_working_bytes (filter (\<lambda>(_, l). \<not> le_large l) ls)"
  by (induction ls) (auto simp: held_def large_share_def)

lemma length_split: "length ls = length (filter (\<lambda>(_, l). \<not> le_large l) ls) + length (filter (\<lambda>(_, l). le_large l) ls)"
  by (induction ls) auto

lemma held_bound: "(\<forall>(_, l) \<in> set ls. f l \<le> c) \<Longrightarrow> held f ls \<le> c * length ls"
  by (induction ls) (auto simp: held_def)

lemma next_working_fits:
  assumes "small_reserve p = Some r" and "r < sp_max_working_bytes p" and "sp_reserved_small_requests p < n"
    and "ws_bytes w + c \<le> sp_max_working_bytes p" and "sp_max_working_bytes p < 2 ^ 64"
    and "ws_large_bytes w \<le> sp_max_working_bytes p - r" and "ws_large_requests w \<le> n - sp_reserved_small_requests p"
  shows "next_working p n w (new_lease st e) False c \<noteq> None"
proof -
  have "wrapping_sub (sp_max_working_bytes p) r = sp_max_working_bytes p - r"
    "wrapping_sub n (sp_reserved_small_requests p) = n - sp_reserved_small_requests p" "wrapping_sub y 0 = y" for y
    using assms(2,3) by (simp_all add: wrapping_sub_exact)
  then show ?thesis
    using assms by (simp add: next_working_def new_lease_def checked_add_def checked_sub_def)
qed

lemma small_acquire:
  assumes "bs_size_policy st = Some p" and "n \<le> small_body_max_bytes"
    and "workspace_charge p (new_lease st (Some n)) n 0 (fixed_workspace st) = Some c"
    and "next_working p (bs_max_requests st) (bs_working st) (new_lease st (Some n)) False c \<noteq> None"
  shows "\<exists>st' l. prepare_buffer 0 0 st (new_lease st (Some n)) = (Ok (), st', l)"
proof -
  from assms(4) obtain w where w: "next_working p (bs_max_requests st) (bs_working st) (new_lease st (Some n)) False c = Some w"
    by blast
  have "le_working_bytes (new_lease st (Some n)) = 0" "0 < c" using charge_pos [OF assms(3)] by (simp_all add: new_lease_def)
  then have "\<exists>st' l. update_working n 0 False (fixed_workspace st) st (new_lease st (Some n)) = (Ok (), st', l)"
    using assms(1,3) w by (simp add: update_working_def Let_def) (simp add: new_lease_def)
  then show ?thesis using assms(2) by (auto simp: prepare_buffer_def new_lease_def on_update_def)
qed

text \<open>
  C37 (safety): large bodies cannot starve small ones. Under a size-aware policy, in every reachable state
  in which fewer small requests are active than are reserved for, each with at most the charge the
  reservation foresees, a request that declares at most 256 KiB is admitted, however many large
  requests compete for the working set and in whatever state they are.
\<close>

theorem small_requests_admitted:
  assumes "with_size_policy max_requests max_bytes (Some p) = Ok st"
    and "s = foldl body_step (start_system st) evs"
    and "sp_max_working_bytes p < 2 ^ 64" and "bs_max_requests st < 2 ^ 64" and "n \<le> 256 * 1024"
    and "length (filter (\<lambda>(_, l). \<not> le_large l) (sy_leases s)) < sp_reserved_small_requests p"
    and "\<forall>(_, l) \<in> set (filter (\<lambda>(_, l). \<not> le_large l) (sy_leases s)). le_working_bytes l \<le> small_charge p"
  shows "is_ok (fst (try_acquire_sized (Some n) (sy_state s)))"
proof -
  let ?small = "filter (\<lambda>(_, l). \<not> le_large l) (sy_leases s)" and ?st = "sy_state s"
  have const: "bs_size_policy ?st = Some p" "bs_max_requests ?st = bs_max_requests st"
    and mult: "sp_workspace_multiplier p \<le> 16"
    using run_constants [of st evs] assms(1,2) by (auto simp: with_size_policy_def size_policy_validate_def split: if_splits)
  have inv: "body_inv ?st (sy_leases s)"
    using body.run_invar [OF start_inv [OF assms(1)], of evs] assms(2) by (simp add: system_inv_def)
  from inv const obtain r where r: "small_reserve p = Some r" "r < sp_max_working_bytes p"
    "sp_reserved_small_requests p < bs_max_requests ?st"
    and w: "ws_large_bytes (bs_working ?st) \<le> sp_max_working_bytes p - r"
    "ws_large_requests (bs_working ?st) \<le> bs_max_requests ?st - sp_reserved_small_requests p"
    by (auto simp: body_inv_def policy_bounds_def)
  have large: "ws_large_requests (bs_working ?st) = length (filter (\<lambda>(_, l). le_large l) (sy_leases s))"
    using inv large_count by (simp add: body_inv_def)
  have "length (sy_leases s) = length ?small + length (filter (\<lambda>(_, l). le_large l) (sy_leases s))"
    by (rule length_split)
  with large w(2) assms(6) r(3) have room: "length (sy_leases s) + 1 \<le> bs_max_requests ?st" by linarith
  have "small_charge p * Suc (length ?small) \<le> small_charge p * sp_reserved_small_requests p"
    using assms(6) by (intro mult_le_mono2) simp
  with held_bound [OF assms(7)] small_reserve_eq [OF r(1)]
  have "held le_working_bytes ?small + small_charge p \<le> r" by simp
  with inv held_split [of "sy_leases s"] w(1) r(2)
  have bytes: "ws_bytes (bs_working ?st) + small_charge p \<le> sp_max_working_bytes p"
    by (simp add: body_inv_def)
  define st1 where "st1 = ?st\<lparr>bs_active_requests := Suc (length (sy_leases s))\<rparr>"
  have acq: "increment_bounded (bs_active_requests ?st) 1 (bs_max_requests ?st) = Some (Suc (length (sy_leases s)))"
    using inv room assms(4) const by (simp add: increment_bounded_def body_inv_def checked_add_def)
  obtain c where c: "workspace_charge p (new_lease st1 (Some n)) n 0 (fixed_workspace st1) = Some c" "c \<le> small_charge p"
    using new_small_charge [of n p st1] mult assms(5) by (auto simp: small_body_max_bytes_def)
  have "next_working p (bs_max_requests st1) (bs_working st1) (new_lease st1 (Some n)) False c \<noteq> None"
    using r w bytes c(2) assms(3) by (intro next_working_fits) (simp_all add: st1_def)
  then obtain st' l where "prepare_buffer 0 0 st1 (new_lease st1 (Some n)) = (Ok (), st', l)"
    using small_acquire [of st1 p n c] const assms(5) c(1) by (auto simp: st1_def small_body_max_bytes_def)
  then show ?thesis using acq by (simp add: try_acquire_sized_def st1_def)
qed

theorem small_requests_admitted_witness:
  "is_ok (fst (try_acquire_sized (Some 100) (sy_state (foldl body_step (start_system sample_state) [Acquire None]))))"
proof (rule small_requests_admitted [OF sample_state_ok refl])
  have ls: "\<exists>l. sy_leases (foldl body_step (start_system sample_state) [Acquire None]) = [(0, l)] \<and> le_large l"
    by (simp add: start_system_def sample_state_def sample_policy_def try_acquire_sized_def increment_bounded_def int_simps
        prepare_buffer_def new_lease_def fixed_workspace_def update_working_def workspace_charge_def next_working_def
        small_reserve_def small_body_max_bytes_def request_working_overhead_def on_update_def)
  then show "length (filter (\<lambda>(_, l). \<not> le_large l) (sy_leases (foldl body_step (start_system sample_state) [Acquire None]))) <
      sp_reserved_small_requests sample_policy"
    by (auto simp: sample_policy_def)
  from ls show "\<forall>(_, l) \<in> set (filter (\<lambda>(_, l). \<not> le_large l) (sy_leases (foldl body_step (start_system sample_state) [Acquire None]))).
      le_working_bytes l \<le> small_charge sample_policy"
    by auto
qed (simp_all add: sample_policy_def sample_state_def)

end
