(* ===== verification/Control_State.thy ===== *)
theory Control_State
  imports Gateway_Errors F64_Order Rust_Strings
begin

text \<open>
  The shared control state in Redis (\<open>gateway-store/src/redis.rs\<close> with \<open>gateway-core/src/budgets.rs\<close> and
  \<open>gateway-core/src/rate_limits.rs\<close>): rate limit counters per minute, and budgets with reservations. The
  server is a parameter: the record \<open>redis_env\<close> holds the commands the source sends, on a store of any
  type, with the server's clock in seconds as an argument, and what the scripts take from Lua, the client
  and chrono (the text of a number and back, what the client reads of \<open>tostring\<close>, the time formats). The
  locale \<open>redis_server\<close> states what the commands are documented to do; the properties hold for every
  server that keeps to it, and an in-memory server shows that one can. A script runs atomically, so every
  operation is one step on the store; a command that fails in a script ends it with what was written
  before. A number that is an argument of a script is read back as the number that was sent. A lost
  connection is an error before the script; the loss of an answer is not modelled.
\<close>

section \<open>The server\<close>

record 's redis_env =
  re_get :: "'s \<Rightarrow> nat \<Rightarrow> string \<Rightarrow> string option"
  re_set_ex :: "'s \<Rightarrow> nat \<Rightarrow> string \<Rightarrow> string \<Rightarrow> nat \<Rightarrow> 's"
  re_set_nx :: "'s \<Rightarrow> nat \<Rightarrow> string \<Rightarrow> string \<Rightarrow> 's"
  re_expire :: "'s \<Rightarrow> nat \<Rightarrow> string \<Rightarrow> nat \<Rightarrow> 's"
  re_ttl :: "'s \<Rightarrow> nat \<Rightarrow> string \<Rightarrow> int"
  re_incr_by :: "'s \<Rightarrow> nat \<Rightarrow> string \<Rightarrow> int \<Rightarrow> (int \<times> 's) option"
  re_incr_by_float :: "'s \<Rightarrow> nat \<Rightarrow> string \<Rightarrow> string \<Rightarrow> 's option"
  re_del :: "'s \<Rightarrow> string \<Rightarrow> 's"
  re_show :: "f64 \<Rightarrow> string"
  re_lua :: "f64 \<Rightarrow> string"
  re_tonumber :: "string \<Rightarrow> f64 option"
  re_tostring :: "f64 \<Rightarrow> f64"
  re_minute :: "int \<Rightarrow> string"
  re_day :: "int \<Rightarrow> string"
  re_month :: "int \<Rightarrow> string"

text \<open>The value \<open>INCRBYFLOAT\<close> adds to: a missing key counts as zero.\<close>

definition text_at :: "'s redis_env \<Rightarrow> 's \<Rightarrow> nat \<Rightarrow> string \<Rightarrow> string" where
  "text_at env st t k = (case re_get env st t k of None \<Rightarrow> ''0'' | Some v \<Rightarrow> v)"

section \<open>Rate limits\<close>

datatype rate_limit_decision = RateAllowed int | RateExceeded int "nat option"

definition request_rate_limit_key :: "'s redis_env \<Rightarrow> string \<Rightarrow> int \<Rightarrow> string" where
  "request_rate_limit_key env key_id now = ''rl:req:'' @ key_id @ '':'' @ re_minute env now"

definition token_rate_limit_key :: "'s redis_env \<Rightarrow> string \<Rightarrow> int \<Rightarrow> string" where
  "token_rate_limit_key env key_id now = ''rl:tpm:'' @ key_id @ '':'' @ re_minute env now"

definition retry_after_ttl :: "'s redis_env \<Rightarrow> 's \<Rightarrow> nat \<Rightarrow> string \<Rightarrow> nat option" where
  "retry_after_ttl env st t k = (if 0 < re_ttl env st t k then Some (nat (re_ttl env st t k)) else None)"

text \<open>
  The pipeline increments and sets the expiry, also when the increment failed; \<open>t'\<close> is the time at which the
  time to live is asked for.
\<close>

definition count_in_window ::
  "'s redis_env \<Rightarrow> 's \<Rightarrow> nat \<Rightarrow> nat \<Rightarrow> string \<Rightarrow> int \<Rightarrow> int \<Rightarrow> rate_limit_decision gateway_result \<times> 's" where
  "count_in_window env st t t' k amount limit =
     (case re_incr_by env st t k amount of
        None \<Rightarrow> (Err ControlStateUnavailable, re_expire env st t k 70)
      | Some (count, st) \<Rightarrow>
          let st = re_expire env st t k 70
          in (Ok (if limit < count then RateExceeded count (retry_after_ttl env st t' k) else RateAllowed count), st))"

definition check_request_rate_limit ::
  "'s redis_env \<Rightarrow> 's \<Rightarrow> nat \<Rightarrow> nat \<Rightarrow> string \<Rightarrow> int option \<Rightarrow> int \<Rightarrow> rate_limit_decision gateway_result \<times> 's" where
  "check_request_rate_limit env st t t' key_id rpm_limit now =
     (case rpm_limit of
        None \<Rightarrow> (Ok (RateAllowed 0), st)
      | Some limit \<Rightarrow> count_in_window env st t t' (request_rate_limit_key env key_id now) 1 limit)"

definition check_token_rate_limit ::
  "'s redis_env \<Rightarrow> 's \<Rightarrow> nat \<Rightarrow> nat \<Rightarrow> string \<Rightarrow> int option \<Rightarrow> int \<Rightarrow> int \<Rightarrow>
   rate_limit_decision gateway_result \<times> 's" where
  "check_token_rate_limit env st t t' key_id tpm_limit estimated_tokens now =
     (case tpm_limit of
        None \<Rightarrow> (Ok (RateAllowed 0), st)
      | Some limit \<Rightarrow>
          let tokens = max estimated_tokens 0
          in if tokens = 0 then (Ok (RateAllowed 0), st)
             else count_in_window env st t t' (token_rate_limit_key env key_id now) tokens limit)"

section \<open>Budgets\<close>

record budget_state =
  bg_daily :: f64
  bg_monthly :: f64

datatype budget_decision = BudgetAllowed budget_state | BudgetExceeded budget_state

definition evaluate_budget :: "budget_state \<Rightarrow> f64 option \<Rightarrow> f64 option \<Rightarrow> budget_decision" where
  "evaluate_budget st daily monthly =
     (if (case daily of Some b \<Rightarrow> f64_le b (bg_daily st) | None \<Rightarrow> False)
         \<or> (case monthly of Some b \<Rightarrow> f64_le b (bg_monthly st) | None \<Rightarrow> False)
      then BudgetExceeded st else BudgetAllowed st)"

definition daily_budget_key :: "'s redis_env \<Rightarrow> string \<Rightarrow> int \<Rightarrow> string" where
  "daily_budget_key env key_id now = ''budget:daily:'' @ key_id @ '':'' @ re_day env now"

definition monthly_budget_key :: "'s redis_env \<Rightarrow> string \<Rightarrow> int \<Rightarrow> string" where
  "monthly_budget_key env key_id now = ''budget:monthly:'' @ key_id @ '':'' @ re_month env now"

definition budget_reservation_key :: "string \<Rightarrow> string \<Rightarrow> string" where
  "budget_reservation_key key_id request_id = ''budget:reservation:'' @ key_id @ '':'' @ request_id"

definition budget_epoch_key :: string where
  "budget_epoch_key = ''budget:accounting-epoch:v2''"

definition reserved_key :: "string \<Rightarrow> string" where
  "reserved_key k = k @ '':reserved''"

definition day_ttl :: nat where
  "day_ttl = 172800"

definition month_ttl :: nat where
  "month_ttl = 5356800"

text \<open>
  The epoch a process armed: the first use sets the shared one unless there is one, and keeps it.
  \<open>fresh\<close> is the identifier the process offers.
\<close>

definition budget_epoch :: "'s redis_env \<Rightarrow> string option \<Rightarrow> string \<Rightarrow> 's \<Rightarrow> nat \<Rightarrow> string gateway_result \<times> 's \<times> string option" where
  "budget_epoch env armed fresh st t =
     (case armed of
        Some e \<Rightarrow> (Ok e, st, armed)
      | None \<Rightarrow>
          let st = re_set_nx env st t budget_epoch_key fresh
          in case re_get env st t budget_epoch_key of
               Some e \<Rightarrow> (Ok e, st, Some e)
             | None \<Rightarrow> (Err ControlStateUnavailable, st, None))"

definition epoch_matches :: "'s redis_env \<Rightarrow> 's \<Rightarrow> nat \<Rightarrow> string \<Rightarrow> bool" where
  "epoch_matches env st t epoch = (re_get env st t budget_epoch_key = Some epoch)"

definition number_at :: "'s redis_env \<Rightarrow> 's \<Rightarrow> nat \<Rightarrow> string \<Rightarrow> f64 option \<Rightarrow> f64 option" where
  "number_at env st t k missing_value =
     (case re_get env st t k of None \<Rightarrow> missing_value | Some v \<Rightarrow> re_tonumber env v)"

definition negative :: "f64 \<Rightarrow> bool" where
  "negative x = f64_lt x (Fin 0)"

text \<open>Lua's \<open>math.max\<close> of two numbers.\<close>

definition lua_max :: "f64 \<Rightarrow> f64 \<Rightarrow> f64" where
  "lua_max a b = (if f64_lt a b then b else a)"

text \<open>A script that needs every number present and not negative.\<close>

definition nonnegative_numbers :: "f64 option list \<Rightarrow> f64 list option" where
  "nonnegative_numbers xs =
     (if list_all (\<lambda>x. case x of Some v \<Rightarrow> \<not> negative v | None \<Rightarrow> False) xs then Some (map the xs) else None)"

text \<open>The state the client reads from the answer \<open>{tostring(d), tostring(m)}\<close>.\<close>

definition told :: "'s redis_env \<Rightarrow> f64 \<Rightarrow> f64 \<Rightarrow> budget_state" where
  "told env d m = \<lparr>bg_daily = re_tostring env d, bg_monthly = re_tostring env m\<rparr>"

text \<open>\<open>INCRBYFLOAT\<close> followed by \<open>EXPIRE\<close>.\<close>

definition incr_expire :: "'s redis_env \<Rightarrow> 's \<Rightarrow> nat \<Rightarrow> string \<Rightarrow> string \<Rightarrow> nat \<Rightarrow> 's option" where
  "incr_expire env st t k x ttl = map_option (\<lambda>st. re_expire env st t k ttl) (re_incr_by_float env st t k x)"

definition seed_budget_counters ::
  "'s redis_env \<Rightarrow> 's \<Rightarrow> nat \<Rightarrow> string \<Rightarrow> string \<Rightarrow> f64 \<Rightarrow> f64 \<Rightarrow> int \<Rightarrow> unit gateway_result \<times> 's" where
  "seed_budget_counters env st t epoch key_id daily_spend monthly_spend now =
     (if \<not> is_finite daily_spend \<or> \<not> is_finite monthly_spend then (Err ControlStateUnavailable, st)
      else let dk = daily_budget_key env key_id now; mk = monthly_budget_key env key_id now
           in if \<not> epoch_matches env st t epoch then (Err ControlStateUnavailable, st)
              else case nonnegative_numbers [number_at env st t dk (Some (Fin 0)), number_at env st t mk (Some (Fin 0))] of
                     Some [d, m] \<Rightarrow>
                       let st = re_set_ex env st t dk (re_lua env (lua_max d (f64_max daily_spend (Fin 0)))) day_ttl;
                           st = re_set_ex env st t mk (re_lua env (lua_max m (f64_max monthly_spend (Fin 0)))) month_ttl
                       in (Ok (), st)
                   | _ \<Rightarrow> (Err ControlStateUnavailable, st))"

definition seed_committed_budget ::
  "'s redis_env \<Rightarrow> 's \<Rightarrow> nat \<Rightarrow> string \<Rightarrow> string \<Rightarrow> budget_state \<Rightarrow> int \<Rightarrow> unit gateway_result \<times> 's" where
  "seed_committed_budget env st t epoch key_id b now = seed_budget_counters env st t epoch key_id (bg_daily b) (bg_monthly b) now"

definition check_budget ::
  "'s redis_env \<Rightarrow> 's \<Rightarrow> nat \<Rightarrow> string \<Rightarrow> string \<Rightarrow> f64 option \<Rightarrow> f64 option \<Rightarrow> int \<Rightarrow> budget_decision gateway_result" where
  "check_budget env st t epoch key_id daily monthly now =
     (if daily = None \<and> monthly = None then Ok (BudgetAllowed \<lparr>bg_daily = Fin 0, bg_monthly = Fin 0\<rparr>)
      else let dk = daily_budget_key env key_id now; mk = monthly_budget_key env key_id now
           in if \<not> epoch_matches env st t epoch then Err ControlStateUnavailable
              else case nonnegative_numbers
                     [number_at env st t dk None, number_at env st t mk None,
                      number_at env st t (reserved_key dk) (Some (Fin 0)), number_at env st t (reserved_key mk) (Some (Fin 0))] of
                     Some [d, m, dr, mr] \<Rightarrow>
                       Ok (evaluate_budget (told env (f64_add d dr) (f64_add m mr)) daily monthly)
                   | _ \<Rightarrow> Err ControlStateUnavailable)"

definition add_budget_spend ::
  "'s redis_env \<Rightarrow> 's \<Rightarrow> nat \<Rightarrow> string \<Rightarrow> string \<Rightarrow> f64 \<Rightarrow> int \<Rightarrow> unit gateway_result \<times> 's" where
  "add_budget_spend env st t epoch key_id cost now =
     (if f64_le cost (Fin 0) then (Ok (), st)
      else if \<not> is_finite cost then (Err ControlStateUnavailable, st)
      else let dk = daily_budget_key env key_id now; mk = monthly_budget_key env key_id now
           in if \<not> epoch_matches env st t epoch then (Err ControlStateUnavailable, st)
              else case nonnegative_numbers [number_at env st t dk (Some (Fin 0)), number_at env st t mk (Some (Fin 0))] of
                     Some _ \<Rightarrow>
                       (case incr_expire env st t dk (re_show env cost) day_ttl of
                          None \<Rightarrow> (Err ControlStateUnavailable, st)
                        | Some st1 \<Rightarrow>
                            (case incr_expire env st1 t mk (re_show env cost) month_ttl of
                               None \<Rightarrow> (Err ControlStateUnavailable, st1)
                             | Some st2 \<Rightarrow> (Ok (), st2)))
                   | None \<Rightarrow> (Err ControlStateUnavailable, st))"

text \<open>The text of a reservation, and the script's pattern for it.\<close>

definition reservation_text :: "'s redis_env \<Rightarrow> f64 \<Rightarrow> string \<Rightarrow> string \<Rightarrow> string" where
  "reservation_text env amount dk mk = re_show env amount @ ''|'' @ dk @ ''|'' @ mk @ ''|v2''"

definition match_reservation :: "string \<Rightarrow> (string \<times> string \<times> string \<times> string) option" where
  "match_reservation v =
     (case split_char (CHR ''|'') v of
        [a, d, m, version] \<Rightarrow> if a \<noteq> [] \<and> d \<noteq> [] \<and> m \<noteq> [] \<and> version \<noteq> [] then Some (a, d, m, version) else None
      | _ \<Rightarrow> None)"

definition over_limit :: "f64 option \<Rightarrow> f64 \<Rightarrow> f64 \<Rightarrow> f64 \<Rightarrow> bool" where
  "over_limit limit spent reserved amount =
     (case limit of
        None \<Rightarrow> False
      | Some l \<Rightarrow> f64_le l (f64_add spent reserved) \<or> f64_lt l (f64_add (f64_add spent reserved) amount))"

text \<open>The writes of an admission: the reservation, both counters and both sums of reservations.\<close>

definition write_reservation ::
  "'s redis_env \<Rightarrow> 's \<Rightarrow> nat \<Rightarrow> string \<Rightarrow> string \<Rightarrow> string \<Rightarrow> f64 \<Rightarrow> f64 \<Rightarrow> f64 \<Rightarrow> bool \<times> 's" where
  "write_reservation env st t rk dk mk d m cost =
     (let st = re_set_ex env st t rk (reservation_text env cost dk mk) month_ttl;
          st = re_set_ex env st t dk (re_lua env d) day_ttl;
          st = re_set_ex env st t mk (re_lua env m) month_ttl
      in case incr_expire env st t (reserved_key dk) (re_lua env cost) day_ttl of
           None \<Rightarrow> (False, st)
         | Some st1 \<Rightarrow>
             (case incr_expire env st1 t (reserved_key mk) (re_lua env cost) month_ttl of
                None \<Rightarrow> (False, st1)
              | Some st2 \<Rightarrow> (True, st2)))"

definition admit_budget ::
  "'s redis_env \<Rightarrow> 's \<Rightarrow> nat \<Rightarrow> string \<Rightarrow> string \<Rightarrow> string \<Rightarrow> f64 \<Rightarrow> f64 option \<Rightarrow> f64 option \<Rightarrow> int \<Rightarrow>
   budget_decision gateway_result \<times> 's" where
  "admit_budget env st t epoch key_id reservation_id cost daily monthly now =
     (if \<not> is_finite cost \<or> negative cost \<or> list_ex (\<lambda>v. \<not> is_finite v \<or> negative v) (List.map_filter id [daily, monthly])
      then (Err ControlStateUnavailable, st)
      else let rk = budget_reservation_key key_id reservation_id;
               dk = daily_budget_key env key_id now; mk = monthly_budget_key env key_id now
           in if \<not> epoch_matches env st t epoch then (Err ControlStateUnavailable, st)
              else if re_get env st t rk \<noteq> None then (Err ControlStateUnavailable, st)
              else if (daily \<noteq> None \<or> monthly \<noteq> None) \<and> (re_get env st t dk = None \<or> re_get env st t mk = None)
              then (Err ControlStateUnavailable, st)
              else case nonnegative_numbers
                     [number_at env st t dk (Some (Fin 0)), number_at env st t mk (Some (Fin 0)),
                      number_at env st t (reserved_key dk) (Some (Fin 0)), number_at env st t (reserved_key mk) (Some (Fin 0))] of
                     Some [d, m, dr, mr] \<Rightarrow>
                       if over_limit daily d dr cost \<or> over_limit monthly m mr cost
                       then (Ok (BudgetExceeded (told env (f64_add d dr) (f64_add m mr))), st)
                       else
                         (case write_reservation env st t rk dk mk d m cost of
                            (False, st) \<Rightarrow> (Err ControlStateUnavailable, st)
                          | (True, st) \<Rightarrow>
                              (Ok (BudgetAllowed (told env (f64_add (f64_add d dr) cost) (f64_add (f64_add m mr) cost))), st))
                   | _ \<Rightarrow> (Err ControlStateUnavailable, st))"

definition reserve_budget ::
  "'s redis_env \<Rightarrow> 's \<Rightarrow> nat \<Rightarrow> string \<Rightarrow> string \<Rightarrow> string \<Rightarrow> f64 \<Rightarrow> int \<Rightarrow> unit gateway_result \<times> 's" where
  "reserve_budget env st t epoch key_id request_id cost now =
     (case admit_budget env st t epoch key_id request_id cost None None now of
        (Inl e, st) \<Rightarrow> (Err e, st)
      | (Inr _, st) \<Rightarrow> (Ok (), st))"

definition tolerance :: f64 where
  "tolerance = round64 (1 / 10 ^ 9)"

text \<open>The writes of a finalisation: the reservation is given back, the cost is added, the reservation is removed.\<close>

definition settle ::
  "'s redis_env \<Rightarrow> 's \<Rightarrow> nat \<Rightarrow> string \<Rightarrow> string \<Rightarrow> string \<Rightarrow> f64 \<Rightarrow> f64 \<Rightarrow> f64 \<Rightarrow> f64 \<Rightarrow> unit gateway_result \<times> 's" where
  "settle env st t rk dk mk dr mr amount actual =
     (let st = re_set_ex env st t (reserved_key dk) (re_lua env (lua_max (Fin 0) (f64_sub dr amount))) day_ttl;
          st = re_set_ex env st t (reserved_key mk) (re_lua env (lua_max (Fin 0) (f64_sub mr amount))) month_ttl
      in case re_incr_by_float env st t dk (re_lua env actual) of
           None \<Rightarrow> (Err ControlStateUnavailable, st)
         | Some st1 \<Rightarrow>
             (case re_incr_by_float env st1 t mk (re_lua env actual) of
                None \<Rightarrow> (Err ControlStateUnavailable, st1)
              | Some st2 \<Rightarrow> (Ok (), re_del env st2 rk)))"

definition finalize_reservation ::
  "'s redis_env \<Rightarrow> 's \<Rightarrow> nat \<Rightarrow> string \<Rightarrow> string \<Rightarrow> string \<Rightarrow> f64 \<Rightarrow> unit gateway_result \<times> 's" where
  "finalize_reservation env st t epoch key_id reservation_id actual =
     (if \<not> is_finite actual \<or> negative actual then (Err ControlStateUnavailable, st)
      else let rk = budget_reservation_key key_id reservation_id
           in if \<not> epoch_matches env st t epoch then (Err ControlStateUnavailable, st)
              else case re_get env st t rk of
                None \<Rightarrow> (Ok (), st)
              | Some v \<Rightarrow>
                  (case match_reservation v of
                     Some (amount_text, dk, mk, version) \<Rightarrow>
                       (case re_tonumber env amount_text of
                          Some amount \<Rightarrow>
                            if negative amount \<or> version \<noteq> ''v2'' then (Err ControlStateUnavailable, st)
                            else (case nonnegative_numbers [number_at env st t dk None, number_at env st t mk None] of
                              Some _ \<Rightarrow>
                                (case (number_at env st t (reserved_key dk) None, number_at env st t (reserved_key mk) None) of
                                   (Some dr, Some mr) \<Rightarrow>
                                     if f64_lt (f64_add dr tolerance) amount \<or> f64_lt (f64_add mr tolerance) amount
                                     then (Err ControlStateUnavailable, st)
                                     else settle env st t rk dk mk dr mr amount actual
                                 | _ \<Rightarrow> (Err ControlStateUnavailable, st))
                            | None \<Rightarrow> (Err ControlStateUnavailable, st))
                        | None \<Rightarrow> (Err ControlStateUnavailable, st))
                   | None \<Rightarrow> (Err ControlStateUnavailable, st)))"

definition reconcile_budget_reservation ::
  "'s redis_env \<Rightarrow> 's \<Rightarrow> nat \<Rightarrow> string \<Rightarrow> string \<Rightarrow> string \<Rightarrow> f64 \<Rightarrow> unit gateway_result \<times> 's" where
  "reconcile_budget_reservation env st t epoch key_id request_id actual_cost =
     finalize_reservation env st t epoch key_id request_id actual_cost"

definition release_budget_reservation ::
  "'s redis_env \<Rightarrow> 's \<Rightarrow> nat \<Rightarrow> string \<Rightarrow> string \<Rightarrow> string \<Rightarrow> unit gateway_result \<times> 's" where
  "release_budget_reservation env st t epoch key_id request_id =
     finalize_reservation env st t epoch key_id request_id (Fin 0)"

section \<open>Requests in one window\<close>

definition is_allowed :: "rate_limit_decision gateway_result \<Rightarrow> bool" where
  "is_allowed r = (case r of Inr (RateAllowed _) \<Rightarrow> True | _ \<Rightarrow> False)"

text \<open>A sequence of requests of one key: the times of the two server calls and the gateway's clock.\<close>

fun rate_run ::
  "'s redis_env \<Rightarrow> 's \<Rightarrow> string \<Rightarrow> int \<Rightarrow> (nat \<times> nat \<times> int) list \<Rightarrow> rate_limit_decision gateway_result list" where
  "rate_run env st key_id limit [] = []"
| "rate_run env st key_id limit ((t, t', now) # es) =
     (case check_request_rate_limit env st t t' key_id (Some limit) now of
        (r, st') \<Rightarrow> r # rate_run env st' key_id limit es)"

text \<open>The live count of a key, zero if there is none.\<close>

definition counted :: "'s redis_env \<Rightarrow> (int \<Rightarrow> string) \<Rightarrow> 's \<Rightarrow> nat \<Rightarrow> string \<Rightarrow> int \<Rightarrow> bool" where
  "counted env digits st t k c \<longleftrightarrow> re_get env st t k = (if c = 0 then None else Some (digits c))"

section \<open>Keys and numbers\<close>

lemma if_pairD: "(if b then (Inl e, s) else r) = (Inr y, s') \<Longrightarrow> \<not> b \<and> r = (Inr y, s')"
  by (cases b) simp_all

lemma nonnegative_numbers_Some:
  "nonnegative_numbers xs = Some ys \<longleftrightarrow> xs = map Some ys \<and> list_all (\<lambda>v. \<not> negative v) ys"
proof -
  have "list_all (\<lambda>x. case x of Some v \<Rightarrow> \<not> negative v | None \<Rightarrow> False) xs \<Longrightarrow> xs = map Some (map the xs)"
    by (induction xs) (auto split: option.splits)
  then show ?thesis by (auto simp: nonnegative_numbers_def list_all_iff comp_def split: if_splits option.splits) blast
qed

lemma budget_keys_distinct [simp]:
  "budget_reservation_key key_id rid \<noteq> daily_budget_key env key_id now"
  "budget_reservation_key key_id rid \<noteq> monthly_budget_key env key_id now"
  "budget_reservation_key key_id rid \<noteq> reserved_key (daily_budget_key env key_id now)"
  "budget_reservation_key key_id rid \<noteq> reserved_key (monthly_budget_key env key_id now)"
  "daily_budget_key env key_id now \<noteq> monthly_budget_key env key_id now"
  "daily_budget_key env key_id now \<noteq> reserved_key (monthly_budget_key env key_id now)"
  "monthly_budget_key env key_id now \<noteq> reserved_key (daily_budget_key env key_id now)"
  "reserved_key (daily_budget_key env key_id now) \<noteq> reserved_key (monthly_budget_key env key_id now)"
  "reserved_key k \<noteq> k"
  "budget_epoch_key \<noteq> budget_reservation_key key_id rid"
  "budget_epoch_key \<noteq> daily_budget_key env key_id now"
  "budget_epoch_key \<noteq> monthly_budget_key env key_id now"
  "budget_epoch_key \<noteq> reserved_key (daily_budget_key env key_id now)"
  "budget_epoch_key \<noteq> reserved_key (monthly_budget_key env key_id now)"
  by (simp_all add: budget_reservation_key_def daily_budget_key_def monthly_budget_key_def reserved_key_def budget_epoch_key_def)

lemmas budget_keys_distinct' [simp] = budget_keys_distinct [symmetric]

lemma match_reservation_text:
  assumes "re_show env cost \<noteq> []" and "CHR ''|'' \<notin> set (re_show env cost)" and "CHR ''|'' \<notin> set key_id"
    and "CHR ''|'' \<notin> set (re_day env now)" and "CHR ''|'' \<notin> set (re_month env now)"
    and "dk = daily_budget_key env key_id now" and "mk = monthly_budget_key env key_id now"
  shows "match_reservation (reservation_text env cost dk mk) = Some (re_show env cost, dk, mk, ''v2'')"
proof -
  have bar: "CHR ''|'' \<notin> set dk" "CHR ''|'' \<notin> set mk" "dk \<noteq> []" "mk \<noteq> []"
    using assms by (auto simp: daily_budget_key_def monthly_budget_key_def)
  have "split_char (CHR ''|'') (reservation_text env cost dk mk) =
      split_char (CHR ''|'') (re_show env cost) @ split_char (CHR ''|'') dk @ split_char (CHR ''|'') mk @ split_char (CHR ''|'') ''v2''"
    by (simp only: reservation_text_def append_Cons append_Nil split_char_append_sep append_assoc)
  also have "\<dots> = [re_show env cost, dk, mk, ''v2'']" using assms(2) bar by simp
  finally show ?thesis using assms(1) bar by (simp add: match_reservation_def)
qed

text \<open>What an admission that was allowed found, and that it made its writes.\<close>

lemma admit_budget_Allowed:
  assumes "admit_budget env st t epoch key_id rid cost daily monthly now = (Ok (BudgetAllowed b), st')"
    and "rk = budget_reservation_key key_id rid" and "dk = daily_budget_key env key_id now" and "mk = monthly_budget_key env key_id now"
  obtains d m dr mr where "is_finite cost" "\<not> negative cost" "epoch_matches env st t epoch" "re_get env st t rk = None"
    "number_at env st t dk (Some (Fin 0)) = Some d" "number_at env st t mk (Some (Fin 0)) = Some m"
    "number_at env st t (reserved_key dk) (Some (Fin 0)) = Some dr" "number_at env st t (reserved_key mk) (Some (Fin 0)) = Some mr"
    "\<not> negative d" "\<not> negative m" "\<not> over_limit daily d dr cost" "\<not> over_limit monthly m mr cost"
    "write_reservation env st t rk dk mk d m cost = (True, st')"
proof -
  note a = assms(1) [unfolded admit_budget_def Let_def, folded assms(2-4)]
  let ?ns = "[number_at env st t dk (Some (Fin 0)), number_at env st t mk (Some (Fin 0)),
      number_at env st t (reserved_key dk) (Some (Fin 0)), number_at env st t (reserved_key mk) (Some (Fin 0))]"
  have g: "is_finite cost" "\<not> negative cost" "epoch_matches env st t epoch" "re_get env st t rk = None"
    using a [THEN if_pairD, THEN conjunct1] a [THEN if_pairD, THEN conjunct2, THEN if_pairD, THEN conjunct1]
      a [THEN if_pairD, THEN conjunct2, THEN if_pairD, THEN conjunct2, THEN if_pairD, THEN conjunct1] by simp_all
  note a4 = a [THEN if_pairD, THEN conjunct2, THEN if_pairD, THEN conjunct2, THEN if_pairD, THEN conjunct2,
      THEN if_pairD, THEN conjunct2]
  obtain xs where xs: "nonnegative_numbers ?ns = Some xs" using a4 by (cases "nonnegative_numbers ?ns") simp_all
  then have "map Some xs = ?ns" by (simp add: nonnegative_numbers_Some)
  then obtain d m dr mr where "xs = [d, m, dr, mr]" by (auto simp: map_eq_Cons_conv)
  with xs have n: "nonnegative_numbers ?ns = Some [d, m, dr, mr]" by simp
  note r = a4 [unfolded n option.case list.case]
  from n have ns: "number_at env st t dk (Some (Fin 0)) = Some d" "number_at env st t mk (Some (Fin 0)) = Some m"
    "number_at env st t (reserved_key dk) (Some (Fin 0)) = Some dr" "number_at env st t (reserved_key mk) (Some (Fin 0)) = Some mr"
    "\<not> negative d" "\<not> negative m"
    by (simp_all add: nonnegative_numbers_Some)
  from r have "\<not> over_limit daily d dr cost" "\<not> over_limit monthly m mr cost"
    "write_reservation env st t rk dk mk d m cost = (True, st')"
    by (auto split: if_splits prod.splits bool.splits)
  with that g ns show ?thesis by blast
qed

section \<open>What the commands do\<close>

text \<open>
  The documented behaviour of the commands: \<open>incr_sum\<close> is the sum \<open>INCRBYFLOAT\<close> stores, if it is a finite number,
  \<open>digits\<close> the text of an integer. \<open>INCR\<close> and \<open>INCRBYFLOAT\<close> keep the expiry of a key.
\<close>

locale redis_server =
  fixes env :: "'s redis_env"
    and incr_sum :: "string \<Rightarrow> string \<Rightarrow> string option"
    and digits :: "int \<Rightarrow> string"
  assumes get_set: "t \<le> u \<Longrightarrow> re_get env (re_set_ex env s t k v ttl) u k = (if u < t + ttl then Some v else None)"
    and get_set_other: "j \<noteq> k \<Longrightarrow> re_get env (re_set_ex env s t j v ttl) u k = re_get env s u k"
    and get_expire: "t \<le> u \<Longrightarrow> re_get env (re_expire env s t k ttl) u k = (if u < t + ttl then re_get env s t k else None)"
    and get_expire_other: "j \<noteq> k \<Longrightarrow> re_get env (re_expire env s t j ttl) u k = re_get env s u k"
    and get_del: "re_get env (re_del env s k) u k = None"
    and get_del_other: "j \<noteq> k \<Longrightarrow> re_get env (re_del env s j) u k = re_get env s u k"
    and incr_missing: "re_get env s t k = None \<Longrightarrow> 0 \<le> n \<Longrightarrow> n \<le> i64_max \<Longrightarrow>
      \<exists>s'. re_incr_by env s t k n = Some (n, s') \<and> re_get env s' t k = Some (digits n)"
    and incr_present: "re_get env s t k = Some (digits c) \<Longrightarrow> 0 \<le> c \<Longrightarrow> 0 \<le> n \<Longrightarrow> c + n \<le> i64_max \<Longrightarrow>
      \<exists>s'. re_incr_by env s t k n = Some (c + n, s') \<and> re_get env s' t k = Some (digits (c + n))"
    and incr_float: "incr_sum (text_at env s t k) x = Some z \<Longrightarrow>
      \<exists>s'. re_incr_by_float env s t k x = Some s' \<and> re_get env s' t k = Some z \<and>
        (\<forall>j u. j \<noteq> k \<longrightarrow> re_get env s' u j = re_get env s u j)"
begin

lemmas get_simps = get_set get_set_other get_expire get_expire_other get_del get_del_other

lemma count_in_window_step:
  assumes "counted env digits st t k c" and "0 \<le> c" and "c < i64_max"
  shows "\<exists>retry st'. count_in_window env st t t' k 1 limit =
      (Ok (if limit < c + 1 then RateExceeded (c + 1) retry else RateAllowed (c + 1)), st') \<and>
    (\<forall>u \<ge> t. u < t + 70 \<longrightarrow> counted env digits st' u k (c + 1))"
proof -
  have "\<exists>s'. re_incr_by env st t k 1 = Some (c + 1, s') \<and> re_get env s' t k = Some (digits (c + 1))"
    using incr_missing [of st t k 1] incr_present [of st t k c 1] assms by (auto simp: counted_def split: if_splits)
  then obtain s' where s': "re_incr_by env st t k 1 = Some (c + 1, s')" "re_get env s' t k = Some (digits (c + 1))"
    by blast
  have "counted env digits (re_expire env s' t k 70) u k (c + 1)" if "t \<le> u" "u < t + 70" for u
    using that assms(2) s'(2) by (simp add: counted_def get_expire)
  then show ?thesis using s'(1) by (auto simp: count_in_window_def Let_def)
qed

lemma rate_run_counts:
  assumes "0 \<le> c" and "c + int (length es) \<le> i64_max" and "\<forall>(t, t', now) \<in> set es. re_minute env now = minute"
    and "es \<noteq> [] \<Longrightarrow> counted env digits st (fst (hd es)) (''rl:req:'' @ key_id @ '':'' @ minute) c"
    and "successively (\<lambda>(t, _) (u, _). t \<le> u \<and> u < t + 70) es"
  shows "list_all is_ok (rate_run env st key_id limit es) \<and>
    length (filter is_allowed (rate_run env st key_id limit es)) = min (length es) (nat (limit - c))"
  using assms
proof (induction es arbitrary: st c)
  case (Cons e es)
  obtain t t' now where e: "e = (t, t', now)" by (cases e)
  let ?k = "''rl:req:'' @ key_id @ '':'' @ minute"
  have k: "request_rate_limit_key env key_id now = ?k"
    using Cons.prems(3) by (simp add: e request_rate_limit_key_def)
  have "counted env digits st t ?k c" "c < i64_max" using Cons.prems by (simp_all add: e)
  from count_in_window_step [OF this(1) Cons.prems(1) this(2), of t' limit] k obtain retry st' where
    step: "check_request_rate_limit env st t t' key_id (Some limit) now =
      (Ok (if limit < c + 1 then RateExceeded (c + 1) retry else RateAllowed (c + 1)), st')"
    and live: "\<forall>u \<ge> t. u < t + 70 \<longrightarrow> counted env digits st' u ?k (c + 1)"
    by (auto simp: check_request_rate_limit_def)
  have next_count: "es \<noteq> [] \<Longrightarrow> counted env digits st' (fst (hd es)) ?k (c + 1)"
    using Cons.prems(5) live by (cases es) (auto simp: e)
  have "successively (\<lambda>(t, _) (u, _). t \<le> u \<and> u < t + 70) es" using Cons.prems(5) by (cases es) auto
  with Cons.IH [of "c + 1" st'] next_count Cons.prems(1,2,3)
  have ih: "list_all is_ok (rate_run env st' key_id limit es) \<and>
    length (filter is_allowed (rate_run env st' key_id limit es)) = min (length es) (nat (limit - (c + 1)))"
    by simp
  have "is_allowed (Ok (if limit < c + 1 then RateExceeded (c + 1) retry else RateAllowed (c + 1))) \<longleftrightarrow> c < limit"
    by (simp add: is_allowed_def)
  with ih show ?case by (auto simp: e step)
qed simp

lemma incr_expire_get:
  assumes "incr_sum (text_at env s t k) x = Some z"
  shows "\<exists>s'. incr_expire env s t k x ttl = Some s' \<and>
    (\<forall>u \<ge> t. re_get env s' u k = (if u < t + ttl then Some z else None)) \<and>
    (\<forall>j u. j \<noteq> k \<longrightarrow> re_get env s' u j = re_get env s u j)"
proof -
  from incr_float [OF assms] obtain s1 where s1: "re_incr_by_float env s t k x = Some s1" "re_get env s1 t k = Some z"
    "\<forall>j u. j \<noteq> k \<longrightarrow> re_get env s1 u j = re_get env s u j" by blast
  then show ?thesis by (auto simp: incr_expire_def get_expire get_expire_other)
qed

lemma get_text_at: "re_get env s t k = re_get env s' t k \<Longrightarrow> text_at env s t k = text_at env s' t k"
  by (simp add: text_at_def)

lemma not_sym_keys: "j \<noteq> a \<and> j \<noteq> b \<and> j \<noteq> c \<and> j \<noteq> d \<and> j \<noteq> e \<Longrightarrow> a \<noteq> j \<and> b \<noteq> j \<and> c \<noteq> j \<and> d \<noteq> j \<and> e \<noteq> j"
  by blast

lemma write_reservation_gets:
  assumes "distinct [rk, dk, mk, reserved_key dk, reserved_key mk]"
    and "incr_sum (text_at env s t (reserved_key dk)) (re_lua env cost) = Some dr"
    and "incr_sum (text_at env s t (reserved_key mk)) (re_lua env cost) = Some mr"
  shows "\<exists>s'. write_reservation env s t rk dk mk d m cost = (True, s') \<and>
    (\<forall>u \<ge> t. u < t + day_ttl \<longrightarrow>
       re_get env s' u rk = Some (reservation_text env cost dk mk) \<and> re_get env s' u dk = Some (re_lua env d) \<and>
       re_get env s' u mk = Some (re_lua env m) \<and> re_get env s' u (reserved_key dk) = Some dr \<and>
       re_get env s' u (reserved_key mk) = Some mr) \<and>
    (\<forall>j u. j \<notin> {rk, dk, mk, reserved_key dk, reserved_key mk} \<longrightarrow> re_get env s' u j = re_get env s u j)"
proof -
  have ne: "distinct [reserved_key mk, reserved_key dk, mk, dk, rk]" using assms(1) by auto
  let ?s = "re_set_ex env (re_set_ex env (re_set_ex env s t rk (reservation_text env cost dk mk) month_ttl)
    t dk (re_lua env d) day_ttl) t mk (re_lua env m) month_ttl"
  have "text_at env ?s t (reserved_key dk) = text_at env s t (reserved_key dk)"
    using assms(1) ne by (intro get_text_at) (simp add: get_set_other)
  with assms(2) incr_expire_get [of ?s t "reserved_key dk" "re_lua env cost" dr day_ttl] obtain s1 where
    s1: "incr_expire env ?s t (reserved_key dk) (re_lua env cost) day_ttl = Some s1"
      "\<forall>u \<ge> t. re_get env s1 u (reserved_key dk) = (if u < t + day_ttl then Some dr else None)"
      "\<forall>j u. j \<noteq> reserved_key dk \<longrightarrow> re_get env s1 u j = re_get env ?s u j" by auto
  have "text_at env s1 t (reserved_key mk) = text_at env s t (reserved_key mk)"
    using assms(1) ne s1(3) by (intro get_text_at) (simp add: get_set_other)
  with assms(3) incr_expire_get [of s1 t "reserved_key mk" "re_lua env cost" mr month_ttl] obtain s2 where
    s2: "incr_expire env s1 t (reserved_key mk) (re_lua env cost) month_ttl = Some s2"
      "\<forall>u \<ge> t. re_get env s2 u (reserved_key mk) = (if u < t + month_ttl then Some mr else None)"
      "\<forall>j u. j \<noteq> reserved_key mk \<longrightarrow> re_get env s2 u j = re_get env s1 u j" by auto
  have "write_reservation env s t rk dk mk d m cost = (True, s2)"
    by (simp add: write_reservation_def s1(1) s2(1))
  moreover have "re_get env s2 u rk = Some (reservation_text env cost dk mk) \<and> re_get env s2 u dk = Some (re_lua env d) \<and>
       re_get env s2 u mk = Some (re_lua env m) \<and> re_get env s2 u (reserved_key dk) = Some dr \<and>
       re_get env s2 u (reserved_key mk) = Some mr" if "t \<le> u" "u < t + day_ttl" for u
    using that assms(1) ne s1(2,3) s2(2,3) by (simp add: get_set get_set_other day_ttl_def month_ttl_def)
  moreover have "re_get env s2 u j = re_get env s u j" if "j \<notin> {rk, dk, mk, reserved_key dk, reserved_key mk}" for j u
    using that that [unfolded insert_iff empty_iff, simplified, THEN not_sym_keys] s1(3) s2(3) by (simp add: get_set_other)
  ultimately show ?thesis by blast
qed

lemma settle_gets:
  assumes "distinct [rk, dk, mk, reserved_key dk, reserved_key mk]"
    and "incr_sum (text_at env s t dk) (re_lua env actual) = Some d"
    and "incr_sum (text_at env s t mk) (re_lua env actual) = Some m"
  shows "\<exists>s'. settle env s t rk dk mk dr mr amount actual = (Ok (), s') \<and> (\<forall>u. re_get env s' u rk = None) \<and>
    re_get env s' t dk = Some d \<and> re_get env s' t mk = Some m \<and>
    re_get env s' t (reserved_key dk) = Some (re_lua env (lua_max (Fin 0) (f64_sub dr amount))) \<and>
    re_get env s' t (reserved_key mk) = Some (re_lua env (lua_max (Fin 0) (f64_sub mr amount))) \<and>
    (\<forall>j u. j \<notin> {rk, dk, mk, reserved_key dk, reserved_key mk} \<longrightarrow> re_get env s' u j = re_get env s u j)"
proof -
  have ne: "distinct [reserved_key mk, reserved_key dk, mk, dk, rk]" using assms(1) by auto
  let ?s = "re_set_ex env (re_set_ex env s t (reserved_key dk) (re_lua env (lua_max (Fin 0) (f64_sub dr amount))) day_ttl)
    t (reserved_key mk) (re_lua env (lua_max (Fin 0) (f64_sub mr amount))) month_ttl"
  have "text_at env ?s t dk = text_at env s t dk"
    using assms(1) ne by (intro get_text_at) (simp add: get_set_other)
  with assms(2) incr_float [of ?s t dk "re_lua env actual" d] obtain s1 where
    s1: "re_incr_by_float env ?s t dk (re_lua env actual) = Some s1" "re_get env s1 t dk = Some d"
      "\<forall>j u. j \<noteq> dk \<longrightarrow> re_get env s1 u j = re_get env ?s u j" by auto
  have "text_at env s1 t mk = text_at env s t mk"
    using assms(1) ne s1(3) by (intro get_text_at) (simp add: get_set_other)
  with assms(3) incr_float [of s1 t mk "re_lua env actual" m] obtain s2 where
    s2: "re_incr_by_float env s1 t mk (re_lua env actual) = Some s2" "re_get env s2 t mk = Some m"
      "\<forall>j u. j \<noteq> mk \<longrightarrow> re_get env s2 u j = re_get env s1 u j" by auto
  have "settle env s t rk dk mk dr mr amount actual = (Ok (), re_del env s2 rk)"
    by (simp add: settle_def s1(1) s2(1))
  moreover have "re_get env (re_del env s2 rk) t dk = Some d" "re_get env (re_del env s2 rk) t mk = Some m"
    "re_get env (re_del env s2 rk) t (reserved_key dk) = Some (re_lua env (lua_max (Fin 0) (f64_sub dr amount)))"
    "re_get env (re_del env s2 rk) t (reserved_key mk) = Some (re_lua env (lua_max (Fin 0) (f64_sub mr amount)))"
    using assms(1) ne s1(2,3) s2(2,3) by (simp_all add: get_simps day_ttl_def month_ttl_def)
  moreover have "re_get env (re_del env s2 rk) u j = re_get env s u j"
    if "j \<notin> {rk, dk, mk, reserved_key dk, reserved_key mk}" for j u
    using that that [unfolded insert_iff empty_iff, simplified, THEN not_sym_keys] s1(3) s2(3) by (simp add: get_simps)
  ultimately show ?thesis using get_del by blast
qed

lemma reservation_life:
  assumes admit: "admit_budget env st t epoch key_id rid cost daily monthly now = (Ok (BudgetAllowed b), st1)"
    and keys: "rk = budget_reservation_key key_id rid" "dk = daily_budget_key env key_id now" "mk = monthly_budget_key env key_id now"
    and epoch: "\<forall>u. epoch_matches env st u epoch"
    and sent: "re_tonumber env (re_show env cost) = Some cost" "re_show env cost \<noteq> []" "CHR ''|'' \<notin> set (re_show env cost)"
      "CHR ''|'' \<notin> set key_id" "CHR ''|'' \<notin> set (re_day env now)" "CHR ''|'' \<notin> set (re_month env now)"
    and spent: "number_at env st t dk (Some (Fin 0)) = Some d" "number_at env st t mk (Some (Fin 0)) = Some m"
      "re_tonumber env (re_lua env d) = Some d" "re_tonumber env (re_lua env m) = Some m"
    and held: "incr_sum (text_at env st t (reserved_key dk)) (re_lua env cost) = Some dr"
      "incr_sum (text_at env st t (reserved_key mk)) (re_lua env cost) = Some mr"
      "re_tonumber env dr = Some dn" "re_tonumber env mr = Some mn"
      "\<not> f64_lt (f64_add dn tolerance) cost" "\<not> f64_lt (f64_add mn tolerance) cost"
    and charge: "incr_sum (re_lua env d) (re_lua env actual) = Some d'" "incr_sum (re_lua env m) (re_lua env actual) = Some m'"
    and live: "t \<le> u" "u < t + day_ttl" and actual: "is_finite actual" "\<not> negative actual"
  shows "admit_budget env st1 u epoch key_id rid cost' daily' monthly' now' = (Err ControlStateUnavailable, st1) \<and>
    (\<exists>st2. finalize_reservation env st1 u epoch key_id rid actual = (Ok (), st2) \<and>
      re_get env st2 u rk = None \<and> re_get env st2 u dk = Some d' \<and> re_get env st2 u mk = Some m' \<and>
      re_get env st2 u (reserved_key dk) = Some (re_lua env (lua_max (Fin 0) (f64_sub dn cost))) \<and>
      re_get env st2 u (reserved_key mk) = Some (re_lua env (lua_max (Fin 0) (f64_sub mn cost))) \<and>
      snd (finalize_reservation env st2 v epoch key_id rid actual') = st2)"
proof -
  from admit_budget_Allowed [OF admit keys] spent(1,2) have
    cost: "\<not> negative cost" "\<not> negative d" "\<not> negative m" and w: "write_reservation env st t rk dk mk d m cost = (True, st1)"
    by (metis option.inject)+
  have ne: "distinct [rk, dk, mk, reserved_key dk, reserved_key mk]" by (simp add: keys)
  have ek: "budget_epoch_key \<notin> {rk, dk, mk, reserved_key dk, reserved_key mk}" by (simp add: keys)
  from write_reservation_gets [OF ne held(1,2), of d m] w live
  have get: "re_get env st1 u rk = Some (reservation_text env cost dk mk)" "re_get env st1 u dk = Some (re_lua env d)"
    "re_get env st1 u mk = Some (re_lua env m)" "re_get env st1 u (reserved_key dk) = Some dr"
    "re_get env st1 u (reserved_key mk) = Some mr" and other: "\<And>w. re_get env st1 w budget_epoch_key = re_get env st w budget_epoch_key"
    using ek by auto
  have ep: "epoch_matches env st1 w epoch" for w using epoch other by (simp add: epoch_matches_def)
  have dup: "admit_budget env st1 u epoch key_id rid cost' daily' monthly' now' = (Err ControlStateUnavailable, st1)"
    by (simp only: admit_budget_def Let_def keys(1) [symmetric] get(1) option.distinct simp_thms if_True if_cancel)
  have at: "text_at env st1 u dk = re_lua env d" "text_at env st1 u mk = re_lua env m"
    using get by (simp_all add: text_at_def)
  from settle_gets [OF ne, of st1 u actual d' m' dn mn cost] charge at obtain st2 where
    st2: "settle env st1 u rk dk mk dn mn cost actual = (Ok (), st2)" "\<forall>u. re_get env st2 u rk = None"
    "re_get env st2 u dk = Some d'" "re_get env st2 u mk = Some m'"
    "re_get env st2 u (reserved_key dk) = Some (re_lua env (lua_max (Fin 0) (f64_sub dn cost)))"
    "re_get env st2 u (reserved_key mk) = Some (re_lua env (lua_max (Fin 0) (f64_sub mn cost)))"
    "\<And>w. re_get env st2 w budget_epoch_key = re_get env st1 w budget_epoch_key"
    using ek by metis
  have num: "number_at env st1 u dk None = Some d" "number_at env st1 u mk None = Some m"
    "number_at env st1 u (reserved_key dk) None = Some dn" "number_at env st1 u (reserved_key mk) None = Some mn"
    using get spent(3,4) held(3,4) by (simp_all add: number_at_def)
  have "nonnegative_numbers [Some d, Some m] = Some [d, m]" using cost by (simp add: nonnegative_numbers_Some)
  then have fin: "finalize_reservation env st1 u epoch key_id rid actual = (Ok (), st2)"
    using actual ep get(1) match_reservation_text [OF sent(2-6) keys(2,3)] sent(1) cost num held(5,6) st2(1)
    by (simp add: finalize_reservation_def Let_def keys(1) [symmetric])
  have "epoch_matches env st2 v epoch" using ep st2(7) by (simp add: epoch_matches_def)
  then have again: "snd (finalize_reservation env st2 v epoch key_id rid actual') = st2"
    using st2(2) by (simp add: finalize_reservation_def Let_def keys(1) [symmetric])
  show ?thesis using dup fin again st2(2-6) by blast
qed

end

section \<open>A server in memory\<close>

text \<open>A server that keeps to the contract: keys with their texts and expiries, decimal counters and a few amounts.\<close>

type_synonym memory = "string \<Rightarrow> (string \<times> nat option) option"

definition mem_get :: "memory \<Rightarrow> nat \<Rightarrow> string \<Rightarrow> string option" where
  "mem_get s t k =
     (case s k of
        None \<Rightarrow> None
      | Some (v, expiry) \<Rightarrow> (case expiry of Some e \<Rightarrow> if t < e then Some v else None | None \<Rightarrow> Some v))"

definition mem_expiry :: "memory \<Rightarrow> nat \<Rightarrow> string \<Rightarrow> nat option" where
  "mem_expiry s t k = (if mem_get s t k = None then None else Option.bind (s k) snd)"

definition mem_set_ex :: "memory \<Rightarrow> nat \<Rightarrow> string \<Rightarrow> string \<Rightarrow> nat \<Rightarrow> memory" where
  "mem_set_ex s t k v ttl = s(k := Some (v, Some (t + ttl)))"

definition mem_set_nx :: "memory \<Rightarrow> nat \<Rightarrow> string \<Rightarrow> string \<Rightarrow> memory" where
  "mem_set_nx s t k v = (if mem_get s t k = None then s(k := Some (v, None)) else s)"

definition mem_expire :: "memory \<Rightarrow> nat \<Rightarrow> string \<Rightarrow> nat \<Rightarrow> memory" where
  "mem_expire s t k ttl = s(k := map_option (\<lambda>v. (v, Some (t + ttl))) (mem_get s t k))"

definition mem_ttl :: "memory \<Rightarrow> nat \<Rightarrow> string \<Rightarrow> int" where
  "mem_ttl s t k =
     (if mem_get s t k = None then - 2 else case mem_expiry s t k of None \<Rightarrow> - 1 | Some e \<Rightarrow> int (e - t))"

definition mem_digits :: "int \<Rightarrow> string" where
  "mem_digits n = show_nat (nat n)"

definition mem_incr_by :: "memory \<Rightarrow> nat \<Rightarrow> string \<Rightarrow> int \<Rightarrow> (int \<times> memory) option" where
  "mem_incr_by s t k n =
     (let c = (case mem_get s t k of None \<Rightarrow> 0 | Some v \<Rightarrow> int (read_digits v)) + n
      in if i64_max < c then None else Some (c, s(k := Some (mem_digits c, mem_expiry s t k))))"

definition mem_text :: "f64 \<Rightarrow> string" where
  "mem_text x = (if x = Fin 0 then ''0'' else if x = Fin 1 then ''1'' else ''2'')"

definition mem_number :: "string \<Rightarrow> f64 option" where
  "mem_number v = (if v = ''0'' then Some (Fin 0) else if v = ''1'' then Some (Fin 1) else if v = ''2'' then Some (Fin 2) else None)"

definition mem_plus :: "string \<Rightarrow> string \<Rightarrow> string option" where
  "mem_plus a b = Option.bind (mem_number a) (\<lambda>x. map_option (\<lambda>y. mem_text (f64_add x y)) (mem_number b))"

definition mem_incr_by_float :: "memory \<Rightarrow> nat \<Rightarrow> string \<Rightarrow> string \<Rightarrow> memory option" where
  "mem_incr_by_float s t k x =
     map_option (\<lambda>z. s(k := Some (z, mem_expiry s t k))) (mem_plus (case mem_get s t k of None \<Rightarrow> ''0'' | Some v \<Rightarrow> v) x)"

definition memory_redis :: "memory redis_env" where
  "memory_redis = \<lparr>re_get = mem_get, re_set_ex = mem_set_ex, re_set_nx = mem_set_nx, re_expire = mem_expire, re_ttl = mem_ttl,
     re_incr_by = mem_incr_by, re_incr_by_float = mem_incr_by_float, re_del = (\<lambda>s k. s(k := None)),
     re_show = mem_text, re_lua = mem_text, re_tonumber = mem_number, re_tostring = id,
     re_minute = (\<lambda>_. ''202605091403''), re_day = (\<lambda>_. ''20260509''), re_month = (\<lambda>_. ''202605'')\<rparr>"

lemma mem_get_upd [simp]:
  "mem_get (s(k := Some (v, None))) t k = Some v"
  "mem_get (s(k := Some (v, Some e))) t k = (if t < e then Some v else None)"
  "j \<noteq> k \<Longrightarrow> mem_get (s(j := x)) t k = mem_get s t k"
  "mem_get (s(k := None)) t k = None"
  by (simp_all add: mem_get_def)

lemma mem_get_kept: "mem_get (s(k := Some (v, mem_expiry s t k))) t k = Some v"
  by (auto simp: mem_expiry_def mem_get_def split: option.splits if_splits)

lemma mem_get_expire: "t \<le> u \<Longrightarrow> mem_get (mem_expire s t k ttl) u k = (if u < t + ttl then mem_get s t k else None)"
  by (cases "mem_get s t k") (simp_all add: mem_expire_def)

lemma mem_get_expire_other: "j \<noteq> k \<Longrightarrow> mem_get (mem_expire s t j ttl) u k = mem_get s u k"
  by (simp add: mem_expire_def)

interpretation memory: redis_server memory_redis mem_plus mem_digits
  by unfold_locales
    (auto simp: memory_redis_def mem_set_ex_def mem_get_expire mem_get_expire_other mem_incr_by_def mem_incr_by_float_def
      text_at_def Let_def mem_digits_def read_show_nat mem_get_kept)

section \<open>Properties\<close>

text \<open>
  C38 (bounds): the requests of a key within one minute, whose counter starts afresh and which come less
  than the 70 seconds of its expiry apart, are all decided, and exactly the first \<open>rpm_limit\<close> of them
  are allowed: the counter neither expires within the window nor lets a request through uncounted.
\<close>

theorem rate_limit_exact:
  assumes "redis_server env incr_sum digits"
    and "\<forall>(t, t', now) \<in> set es. re_minute env now = minute"
    and "successively (\<lambda>(t, _) (u, _). t \<le> u \<and> u < t + 70) es" and "int (length es) \<le> i64_max"
    and "\<forall>t. re_get env st t (''rl:req:'' @ key_id @ '':'' @ minute) = None"
  shows "list_all is_ok (rate_run env st key_id limit es) \<and>
    length (filter is_allowed (rate_run env st key_id limit es)) = min (length es) (nat limit)"
  using redis_server.rate_run_counts [OF assms(1), of 0 es minute st key_id limit] assms(2-5) by (simp add: counted_def)

theorem rate_limit_exact_witness:
  "length (filter is_allowed (rate_run memory_redis (\<lambda>_. None) ''k'' 2 [(5, 6, 0), (10, 11, 5), (70, 71, 60)])) = 2"
proof -
  have "list_all is_ok (rate_run memory_redis (\<lambda>_. None) ''k'' 2 [(5, 6, 0), (10, 11, 5), (70, 71, 60)]) \<and>
    length (filter is_allowed (rate_run memory_redis (\<lambda>_. None) ''k'' 2 [(5, 6, 0), (10, 11, 5), (70, 71, 60)])) =
      min (length [(5::nat, 6::nat, 0::int), (10, 11, 5), (70, 71, 60)]) (nat 2)"
    by (rule rate_limit_exact [OF memory.redis_server_axioms, where minute = "''202605091403''"])
      (simp_all add: memory_redis_def mem_get_def i64_max_def)
  then show ?thesis by simp
qed


definition sample_budgets :: memory where
  "sample_budgets = (\<lambda>_. None)(budget_epoch_key := Some (''e'', None))"

lemma tolerance_covers: "\<not> f64_lt (f64_add (Fin 1) tolerance) (Fin 1)"
proof -
  have "f64_nonneg tolerance" unfolding tolerance_def by (rule round64_nonneg) simp
  then have "f64_le (f64_add (Fin 1) (Fin 0)) (f64_add (Fin 1) tolerance)"
    by (intro f64_add_mono) (simp_all add: f64_nonneg_def)
  then show ?thesis using round64_int [of 1] by (cases "f64_add (Fin 1) tolerance") simp_all
qed


end
