(* ===== verification/Usage.thy ===== *)
theory Usage
  imports Services Key_Authentication
begin

text \<open>
  Request diagnostics (the records of \<open>gateway-core/src/traffic.rs\<close>) and usage events with the facts read
  from request and response bodies (\<open>gateway-core/src/usage.rs\<close>). \<open>serde_json::from_slice::<Value>\<close> is
  the parameter \<open>parse\<close> of the operations that read a body. Sums of token counts are written with the
  wrap-around of a release build.
\<close>

section \<open>Diagnostics\<close>

record authentication_profile_diagnostics =
  ad_id :: "string option"
  ad_name :: "string option"
  ad_revision :: nat
  ad_authentication_type :: "string option"
  ad_binding_source :: string
  ad_outcome :: string

record websocket_diagnostics =
  wd_state :: string
  wd_app :: "string option"
  wd_channel :: string
  wd_opened_at :: "int option"
  wd_observed_at :: "int option"
  wd_closed_at :: "int option"
  wd_duration_ms :: nat
  wd_client_bytes :: nat
  wd_upstream_bytes :: nat
  wd_client_frames :: nat
  wd_upstream_frames :: nat
  wd_client_close_frame :: bool
  wd_upstream_close_frame :: bool
  wd_last_client_activity_at :: "int option"
  wd_last_upstream_activity_at :: "int option"
  wd_idle_timeout_ms :: nat
  wd_session_expires_at :: "int option"
  wd_max_frame_bytes :: nat
  wd_close_cause :: "string option"

record entra_diagnostics =
  ed_policy_source :: string
  ed_verification :: string
  ed_expected_audience :: "string option"
  ed_required_scopes :: "string list"
  ed_required_roles :: "string list"
  ed_allowed_groups :: "string list"
  ed_allow_apigee :: bool
  ed_source :: "string option"
  ed_tenant_id :: "string option"
  ed_object_id :: "string option"
  ed_app_id :: "string option"
  ed_authorized_party :: "string option"
  ed_token_version :: "string option"
  ed_expires_at :: "int option"
  ed_audiences :: "string list"
  ed_scopes :: "string list"
  ed_roles :: "string list"
  ed_groups :: "string list"
  ed_truncated :: bool

record request_diagnostics =
  dg_authentication_profile :: "authentication_profile_diagnostics option"
  dg_protocol :: "string option"
  dg_websocket :: "websocket_diagnostics option"
  dg_entra :: "entra_diagnostics option"
  dg_routing_mode :: "string option"
  dg_traffic_id :: "string option"
  dg_failure_stage :: "string option"
  dg_failure_code :: "string option"
  dg_failure_source :: "string option"
  dg_outcome :: "string option"
  dg_upstream_status :: "nat option"
  dg_instance_id :: "string option"

definition default_diagnostics :: request_diagnostics where
  "default_diagnostics =
     \<lparr>dg_authentication_profile = None, dg_protocol = None, dg_websocket = None, dg_entra = None, dg_routing_mode = None,
      dg_traffic_id = None, dg_failure_stage = None, dg_failure_code = None, dg_failure_source = None, dg_outcome = None,
      dg_upstream_status = None, dg_instance_id = None\<rparr>"

definition default_entra :: entra_diagnostics where
  "default_entra =
     \<lparr>ed_policy_source = '''', ed_verification = '''', ed_expected_audience = None, ed_required_scopes = [], ed_required_roles = [],
      ed_allowed_groups = [], ed_allow_apigee = False, ed_source = None, ed_tenant_id = None, ed_object_id = None, ed_app_id = None,
      ed_authorized_party = None, ed_token_version = None, ed_expires_at = None, ed_audiences = [], ed_scopes = [], ed_roles = [],
      ed_groups = [], ed_truncated = False\<rparr>"

text \<open>The characters of a UTF-8 string begin at its bytes that are not continuation bytes.\<close>

definition char_start :: "char \<Rightarrow> bool" where
  "char_start c = (byte c < 0x80 \<or> 0xC0 \<le> byte c)"

definition char_count :: "string \<Rightarrow> nat" where
  "char_count s = length (filter char_start s)"

fun take_chars :: "nat \<Rightarrow> string \<Rightarrow> string" where
  "take_chars n [] = []"
| "take_chars n (c # s) =
     (if \<not> char_start c then c # take_chars n s
      else if n = 0 then [] else c # take_chars (n - 1) s)"

definition bounded :: "string \<Rightarrow> bool \<Rightarrow> string \<times> bool" where
  "bounded v truncated = (take_chars 256 v, truncated \<or> 256 < char_count v)"

definition bounded_option :: "string option \<Rightarrow> bool \<Rightarrow> string option \<times> bool" where
  "bounded_option v truncated =
     (case v of None \<Rightarrow> (None, truncated) | Some s \<Rightarrow> (let (s, t) = bounded s truncated in (Some s, t)))"

definition bounded_claims :: "string list \<Rightarrow> bool \<Rightarrow> string list \<times> bool" where
  "bounded_claims vs truncated =
     foldl (\<lambda>(acc, t) v. let (s, t) = bounded v t in (acc @ [s], t)) ([], truncated \<or> 32 < length vs) (take 32 vs)"

definition entra_endpoint :: "endpoint_entra_policy \<Rightarrow> entra_diagnostics" where
  "entra_endpoint p =
     (let (audience, t) = bounded (ee_audience p) False;
          (scopes, t) = bounded_claims (ee_required_scopes p) t;
          (roles, t) = bounded_claims (ee_required_roles p) t;
          (groups, t) = bounded_claims (ee_allowed_groups p) t
      in default_entra\<lparr>ed_policy_source := ''endpoint'', ed_verification := ''pending'', ed_allow_apigee := ee_allow_apigee p,
           ed_expected_audience := Some audience, ed_required_scopes := scopes, ed_required_roles := roles,
           ed_allowed_groups := groups, ed_truncated := t\<rparr>)"

definition entra_verified :: "entra_diagnostics \<Rightarrow> entra_identity_source \<Rightarrow> entra_identity \<Rightarrow> entra_diagnostics" where
  "entra_verified d source i =
     (let t = ed_truncated d;
          (tenant, t) = bounded (ei_tenant_id i) t;
          (object_id, t) = bounded_option (ei_object_id i) t;
          (app_id, t) = bounded_option (ei_app_id i) t;
          (party, t) = bounded_option (ei_authorized_party i) t;
          (version, t) = bounded (ei_token_version i) t;
          (audiences, t) = bounded_claims (ei_audiences i) t;
          (scopes, t) = bounded_claims (ei_scopes i) t;
          (roles, t) = bounded_claims (ei_roles i) t;
          (groups, t) = bounded_claims (ei_groups i) t
      in d\<lparr>ed_verification := ''verified'',
           ed_source := Some (case source of Jwt \<Rightarrow> ''jwt'' | ApigeeTrustedHeader \<Rightarrow> ''signed_apigee''),
           ed_tenant_id := Some tenant, ed_object_id := object_id, ed_app_id := app_id, ed_authorized_party := party,
           ed_token_version := Some version, ed_expires_at := ei_expires_at i, ed_audiences := audiences, ed_scopes := scopes,
           ed_roles := roles, ed_groups := groups, ed_truncated := t\<rparr>)"

section \<open>Usage events\<close>

datatype usage_status = UsageSuccess | UsageFailure

record usage_event =
  ue_diagnostics :: request_diagnostics
  ue_request_id :: string
  ue_key_id :: string
  ue_project_id :: "string option"
  ue_route :: route
  ue_model :: "string option"
  ue_provider :: provider
  ue_status :: usage_status
  ue_status_code :: nat
  ue_latency_ms :: int
  ue_input_tokens :: "int option"
  ue_output_tokens :: "int option"
  ue_total_tokens :: "int option"
  ue_estimated_cost_usd :: "f64 option"
  ue_cost_source :: "string option"
  ue_cost_mode :: "service_cost_mode option"
  ue_pricing_rule_name :: "string option"
  ue_pricing_rule_fingerprint :: "string option"
  ue_service_name :: "string option"
  ue_service_version :: "string option"
  ue_http_method :: "string option"
  ue_endpoint_path :: "string option"
  ue_endpoint_template :: "string option"
  ue_task_id :: "string option"
  ue_run_id :: "string option"
  ue_trace_id :: "string option"
  ue_fallback_count :: int
  ue_created_at :: int

definition wrap_i64 :: "int \<Rightarrow> int" where
  "wrap_i64 x = (x + 2 ^ 63) mod 2 ^ 64 - 2 ^ 63"

definition usage_event_new ::
  "string \<Rightarrow> authenticated_key \<Rightarrow> route \<Rightarrow> string option \<Rightarrow> nat \<Rightarrow> int \<Rightarrow> int \<Rightarrow> usage_event" where
  "usage_event_new request_id key r model code latency_ms created_at =
     \<lparr>ue_diagnostics = default_diagnostics, ue_request_id = request_id, ue_key_id = ak_key_id key, ue_project_id = ak_project_id key,
      ue_route = r, ue_model = model, ue_provider = LiteLlm,
      ue_status = (if code < 400 then UsageSuccess else UsageFailure), ue_status_code = code,
      ue_latency_ms = latency_ms, ue_input_tokens = None, ue_output_tokens = None, ue_total_tokens = None,
      ue_estimated_cost_usd = None, ue_cost_source = None, ue_cost_mode = None, ue_pricing_rule_name = None,
      ue_pricing_rule_fingerprint = None, ue_service_name = None, ue_service_version = None, ue_http_method = None,
      ue_endpoint_path = None, ue_endpoint_template = None, ue_task_id = None, ue_run_id = None, ue_trace_id = None,
      ue_fallback_count = 0, ue_created_at = created_at\<rparr>"

definition with_diagnostics :: "usage_event \<Rightarrow> request_diagnostics \<Rightarrow> usage_event" where
  "with_diagnostics e d =
     (let e = (if dg_failure_code d \<noteq> None then e\<lparr>ue_status := UsageFailure\<rparr> else e)
      in e\<lparr>ue_diagnostics := d\<rparr>)"

definition token_total :: "int option \<Rightarrow> int option \<Rightarrow> int option" where
  "token_total input output =
     (case (input, output) of (Some i, Some u) \<Rightarrow> Some (wrap_i64 (i + u)) | _ \<Rightarrow> None)"

definition or_total :: "int option \<Rightarrow> int option \<Rightarrow> int option \<Rightarrow> int option" where
  "or_total given input output = (case given of Some t \<Rightarrow> Some t | None \<Rightarrow> token_total input output)"

definition with_usage_tokens :: "usage_event \<Rightarrow> int option \<Rightarrow> int option \<Rightarrow> int option \<Rightarrow> usage_event" where
  "with_usage_tokens e input output given =
     e\<lparr>ue_input_tokens := input, ue_output_tokens := output, ue_total_tokens := or_total given input output\<rparr>"

definition with_cost_metadata ::
  "usage_event \<Rightarrow> string option \<Rightarrow> service_cost_mode option \<Rightarrow> string option \<Rightarrow> usage_event" where
  "with_cost_metadata e source mode rule =
     e\<lparr>ue_cost_source := source, ue_cost_mode := mode, ue_pricing_rule_name := rule\<rparr>"

definition with_estimated_cost_usd :: "usage_event \<Rightarrow> f64 option \<Rightarrow> usage_event" where
  "with_estimated_cost_usd e cost = e\<lparr>ue_estimated_cost_usd := cost\<rparr>"

definition with_pricing_rule_fingerprint :: "usage_event \<Rightarrow> string option \<Rightarrow> usage_event" where
  "with_pricing_rule_fingerprint e fingerprint = e\<lparr>ue_pricing_rule_fingerprint := fingerprint\<rparr>"

definition with_provider :: "usage_event \<Rightarrow> provider \<Rightarrow> usage_event" where
  "with_provider e p = e\<lparr>ue_provider := p\<rparr>"

definition with_service_name :: "usage_event \<Rightarrow> string option \<Rightarrow> usage_event" where
  "with_service_name e name = e\<lparr>ue_service_name := name\<rparr>"

definition with_service_version :: "usage_event \<Rightarrow> string option \<Rightarrow> usage_event" where
  "with_service_version e version = e\<lparr>ue_service_version := version\<rparr>"

definition with_endpoint_context :: "usage_event \<Rightarrow> string option \<Rightarrow> string option \<Rightarrow> string option \<Rightarrow> usage_event" where
  "with_endpoint_context e meth path template =
     e\<lparr>ue_http_method := meth, ue_endpoint_path := path, ue_endpoint_template := template\<rparr>"

definition with_task_context :: "usage_event \<Rightarrow> string option \<Rightarrow> string option \<Rightarrow> usage_event" where
  "with_task_context e task_id run_id = e\<lparr>ue_task_id := task_id, ue_run_id := run_id\<rparr>"

definition with_trace_id :: "usage_event \<Rightarrow> string option \<Rightarrow> usage_event" where
  "with_trace_id e trace_id = e\<lparr>ue_trace_id := trace_id\<rparr>"

definition with_fallback_count :: "usage_event \<Rightarrow> int \<Rightarrow> usage_event" where
  "with_fallback_count e n = e\<lparr>ue_fallback_count := max n 0\<rparr>"

section \<open>Reading bodies\<close>

fun as_f64 :: "json \<Rightarrow> f64 option" where
  "as_f64 (JNumber (PosInt n)) = Some (f64_of_nat n)"
| "as_f64 (JNumber (NegInt i)) = Some (round64 (of_int i))"
| "as_f64 (JNumber (Float x)) = Some x"
| "as_f64 _ = None"

fun as_i64 :: "json \<Rightarrow> int option" where
  "as_i64 (JNumber (PosInt n)) = (if int n \<le> i64_max then Some (int n) else None)"
| "as_i64 (JNumber (NegInt i)) = Some i"
| "as_i64 _ = None"

text \<open>
  \<open>Value::pointer\<close> for the pointers of the source, whose segments are names: an array has no element of
  such a name.
\<close>

fun json_pointer :: "json \<Rightarrow> string list \<Rightarrow> json option" where
  "json_pointer v [] = Some v"
| "json_pointer v (k # ks) = Option.bind (json_get v k) (\<lambda>v. json_pointer v ks)"

definition usable_cost :: "f64 \<Rightarrow> bool" where
  "usable_cost c = (is_finite c \<and> f64_lt (Fin 0) c)"

definition cost_locations :: "string list list" where
  "cost_locations = [[''estimated_cost''], [''response_cost''], [''usage'', ''estimated_cost''], [''usage'', ''total_cost''],
     [''usage'', ''cost''], [''_hidden_params'', ''response_cost'']]"

definition extract_estimated_cost_usd :: "(string \<Rightarrow> json option) \<Rightarrow> string \<Rightarrow> f64 option" where
  "extract_estimated_cost_usd parse body =
     Option.bind (parse body) (\<lambda>v.
       find usable_cost (List.map_filter as_f64 (List.map_filter (json_pointer v) cost_locations)))"

definition extract_model :: "(string \<Rightarrow> json option) \<Rightarrow> string \<Rightarrow> string option" where
  "extract_model parse body =
     Option.bind (parse body) (\<lambda>v. Option.bind (json_get v ''model'') (\<lambda>m. Option.bind (as_str m) (\<lambda>s.
       let s = trim s in if s = [] then None else Some s)))"

definition first_tokens :: "json \<Rightarrow> string list \<Rightarrow> int option" where
  "first_tokens v names =
     find (\<lambda>n. 0 \<le> n) (List.map_filter as_i64 (List.map_filter (\<lambda>name. json_pointer v [''usage'', name]) names))"

definition extract_usage_tokens :: "(string \<Rightarrow> json option) \<Rightarrow> string \<Rightarrow> int option \<times> int option \<times> int option" where
  "extract_usage_tokens parse body =
     (case parse body of
        None \<Rightarrow> (None, None, None)
      | Some v \<Rightarrow>
          let input = first_tokens v [''prompt_tokens'', ''input_tokens''];
              output = first_tokens v [''completion_tokens'', ''output_tokens''];
              given = Option.bind (Option.bind (json_pointer v [''usage'', ''total_tokens'']) as_i64)
                        (\<lambda>n. if 0 \<le> n then Some n else None)
          in (input, output, or_total given input output))"

definition estimate_text_tokens :: "nat \<Rightarrow> int" where
  "estimate_text_tokens byte_len = max (min (int ((byte_len + 3) div 4)) i64_max) 1"

definition reserved_names :: "string set" where
  "reserved_names = {''max_tokens'', ''max_completion_tokens'', ''max_output_tokens''}"

fun wrapping_sum :: "int list \<Rightarrow> int" where
  "wrapping_sum [] = 0"
| "wrapping_sum (x # xs) = wrap_i64 (x + wrapping_sum xs)"

fun estimate_value_tokens :: "json \<Rightarrow> int" where
  "estimate_value_tokens (JString s) = estimate_text_tokens (length s)"
| "estimate_value_tokens (JArray vs) = wrapping_sum (map estimate_value_tokens vs)"
| "estimate_value_tokens (JObject m) =
     wrapping_sum (map (\<lambda>(k, v). if k \<in> reserved_names then 0 else estimate_value_tokens v) m)"
| "estimate_value_tokens (JNumber n) = 1"
| "estimate_value_tokens (JBool b) = 1"
| "estimate_value_tokens JNull = 0"

definition or_else :: "'a option \<Rightarrow> 'a option \<Rightarrow> 'a option" where
  "or_else a b = (case a of None \<Rightarrow> b | Some x \<Rightarrow> Some x)"

definition reserved_output_tokens :: "json \<Rightarrow> int" where
  "reserved_output_tokens v =
     (case Option.bind (or_else (or_else (json_get v ''max_completion_tokens'') (json_get v ''max_tokens''))
         (json_get v ''max_output_tokens'')) as_i64 of
        Some n \<Rightarrow> if 0 < n then n else 0
      | None \<Rightarrow> 0)"

definition estimate_generation_tokens :: "(string \<Rightarrow> json option) \<Rightarrow> string \<Rightarrow> int" where
  "estimate_generation_tokens parse body =
     (case parse body of
        None \<Rightarrow> estimate_text_tokens (length body)
      | Some v \<Rightarrow> max (wrap_i64 (estimate_value_tokens v + reserved_output_tokens v)) 1)"

section \<open>Estimates\<close>

text \<open>The sum of a value's tokens, unbounded.\<close>

fun value_tokens :: "json \<Rightarrow> int" where
  "value_tokens (JString s) = estimate_text_tokens (length s)"
| "value_tokens (JArray vs) = sum_list (map value_tokens vs)"
| "value_tokens (JObject m) = sum_list (map (\<lambda>(k, v). if k \<in> reserved_names then 0 else value_tokens v) m)"
| "value_tokens (JNumber n) = 1"
| "value_tokens (JBool b) = 1"
| "value_tokens JNull = 0"

lemma value_tokens_nonneg: "0 \<le> value_tokens v"
  by (induction v rule: value_tokens.induct)
    (auto simp: estimate_text_tokens_def intro!: sum_list_nonneg)

lemma wrap_i64_id: "0 \<le> x \<Longrightarrow> x \<le> i64_max \<Longrightarrow> wrap_i64 x = x"
  by (simp add: wrap_i64_def i64_max_def)

lemma wrapping_sum_exact: "list_all (\<lambda>x. 0 \<le> x) xs \<Longrightarrow> sum_list xs \<le> i64_max \<Longrightarrow> wrapping_sum xs = sum_list xs"
proof (induction xs)
  case (Cons x xs)
  then have "0 \<le> sum_list xs" by (auto simp: list_all_iff intro!: sum_list_nonneg)
  with Cons show ?case by (simp add: wrap_i64_id)
qed simp

lemma member_le_sum: "list_all (\<lambda>x. 0 \<le> x) xs \<Longrightarrow> x \<in> set xs \<Longrightarrow> x \<le> sum_list (xs :: int list)"
proof (induction xs)
  case (Cons y ys)
  then have "0 \<le> sum_list ys" by (auto simp: list_all_iff intro!: sum_list_nonneg)
  with Cons show ?case by auto
qed simp

lemma estimate_value_exact: "value_tokens v \<le> i64_max \<Longrightarrow> estimate_value_tokens v = value_tokens v"
proof (induction v rule: value_tokens.induct)
  case (2 vs)
  have nn: "list_all (\<lambda>x. 0 \<le> x) (map value_tokens vs)" by (simp add: list_all_iff value_tokens_nonneg)
  have "map estimate_value_tokens vs = map value_tokens vs"
  proof (rule map_cong [OF refl])
    fix v assume v: "v \<in> set vs"
    then have "value_tokens v \<le> sum_list (map value_tokens vs)" using nn by (intro member_le_sum) auto
    with 2 v show "estimate_value_tokens v = value_tokens v" by auto
  qed
  with wrapping_sum_exact [OF nn] "2.prems" show ?case by (simp del: map_eq_conv)
next
  case (3 m)
  let ?f = "\<lambda>(k, v). if k \<in> reserved_names then 0 else value_tokens v"
  have nn: "list_all (\<lambda>x. 0 \<le> x) (map ?f m)" by (auto simp: list_all_iff value_tokens_nonneg)
  have "map (\<lambda>(k, v). if k \<in> reserved_names then 0 else estimate_value_tokens v) m = map ?f m"
  proof (rule map_cong [OF refl])
    fix kv assume kv: "kv \<in> set m"
    obtain k v where e: "kv = (k, v)" by (cases kv)
    have "?f kv \<le> sum_list (map ?f m)" using nn kv by (intro member_le_sum) auto
    with 3 kv e show "(case kv of (k, v) \<Rightarrow> if k \<in> reserved_names then 0 else estimate_value_tokens v) = ?f kv" by auto
  qed
  with wrapping_sum_exact [OF nn] "3.prems" show ?case by (simp del: map_eq_conv)
qed simp_all

lemma reserved_output_nonneg: "0 \<le> reserved_output_tokens v"
  by (auto simp: reserved_output_tokens_def split: option.split)

section \<open>Properties\<close>


definition prompt :: "nat \<Rightarrow> json" where
  "prompt n = JObject [(''input'', JString ''abcd''), (''max_tokens'', JNumber (PosInt n))]"

lemma prompt_tokens: "value_tokens (prompt n) = 1"
  by (simp add: prompt_def reserved_names_def estimate_text_tokens_def i64_max_def)

lemma prompt_reserved: "0 < n \<Longrightarrow> int n \<le> i64_max \<Longrightarrow> reserved_output_tokens (prompt n) = int n"
  by (simp add: prompt_def reserved_output_tokens_def or_else_def json_get_def bt_get_def)


text \<open>Beyond that the sum wraps around: a request that reserves the largest output counts as one token.\<close>

lemma generation_estimate_wraps: "estimate_generation_tokens (\<lambda>_. Some (prompt (2 ^ 63 - 1))) body = 1"
proof -
  have "estimate_value_tokens (prompt (2 ^ 63 - 1)) = 1"
    using estimate_value_exact [of "prompt (2 ^ 63 - 1)"] by (simp add: prompt_tokens i64_max_def)
  moreover have "reserved_output_tokens (prompt (2 ^ 63 - 1)) = 2 ^ 63 - 1"
    using prompt_reserved [of "2 ^ 63 - 1"] by (simp add: i64_max_def)
  ultimately show ?thesis by (simp add: estimate_generation_tokens_def wrap_i64_def)
qed

end
