(* ===== verification/Response_Cost.thy ===== *)
theory Response_Cost
  imports Usage "HOL-Library.Sublist"
begin

text \<open>
  The streaming cost observer (\<open>gateway-core/src/response_cost.rs\<close>): a JSON scanner that is fed the bytes of
  a response, keeps at most 128 frames and no payload, and remembers the numbers at six locations. The
  stack is a list with its last frame first. The scanner asks serde for two things, which are parameters:
  \<open>ce_number\<close> is \<open>serde_json::from_slice::<Value>\<close> of a short number followed by \<open>as_f64\<close>, \<open>ce_key\<close> is
  \<open>serde_json::from_slice::<String>\<close> of a quoted key. A longer number is rounded from its first 64
  significant digits. Counters of digits are unbounded here: they count bytes of one number.
\<close>

section \<open>Scalars\<close>

record cost_env =
  ce_number :: "string \<Rightarrow> f64 option"
  ce_key :: "string \<Rightarrow> string option"

record scalar =
  sc_raw :: string
  sc_state :: nat
  sc_literal :: string
  sc_offset :: nat
  sc_digits :: string
  sc_fraction :: int
  sc_omitted :: int
  sc_exponent :: int
  sc_exponent_negative :: bool
  sc_negative :: bool

definition next_state :: "nat \<Rightarrow> char \<Rightarrow> nat" where
  "next_state previous b =
     (if previous = 0 \<and> b = CHR ''-'' then 1
      else if previous \<in> {0, 1} \<and> b = CHR ''0'' then 2
      else if previous \<in> {0, 1} \<and> is_ascii_digit b \<or> previous = 3 \<and> is_ascii_digit b then 3
      else if previous \<in> {2, 3} \<and> b = CHR ''.'' then 4
      else if previous \<in> {4, 5} \<and> is_ascii_digit b then 5
      else if previous \<in> {2, 3, 5} \<and> b \<in> {CHR ''e'', CHR ''E''} then 6
      else if previous = 6 \<and> b \<in> {CHR ''+'', CHR ''-''} then 7
      else if previous \<in> {6, 7, 8} \<and> is_ascii_digit b then 8
      else 255)"

definition digit_value :: "char \<Rightarrow> int" where
  "digit_value b = int (byte b) - 48"

definition scalar_feed :: "scalar \<Rightarrow> char \<Rightarrow> scalar" where
  "scalar_feed s b =
     (let s = (if length (sc_raw s) < 129 then s\<lparr>sc_raw := sc_raw s @ [b]\<rparr> else s)
      in if sc_literal s \<noteq> []
         then (let s = (if \<not> (sc_offset s < length (sc_literal s) \<and> sc_literal s ! sc_offset s = b) then s\<lparr>sc_state := 255\<rparr> else s)
               in s\<lparr>sc_offset := sc_offset s + 1\<rparr>)
         else
           let previous = sc_state s;
               s = s\<lparr>sc_state := next_state previous b\<rparr>
           in if is_ascii_digit b
              then (if previous \<in> {6, 7, 8}
                    then s\<lparr>sc_exponent := min (sc_exponent s * 10 + digit_value b) 1000000000\<rparr>
                    else
                      let s = (if previous \<in> {4, 5} then s\<lparr>sc_fraction := sc_fraction s + 1\<rparr> else s)
                      in if b \<noteq> CHR ''0'' \<or> sc_digits s \<noteq> []
                         then (if length (sc_digits s) < 64 then s\<lparr>sc_digits := sc_digits s @ [b]\<rparr>
                               else s\<lparr>sc_omitted := sc_omitted s + 1\<rparr>)
                         else s)
              else if previous = 6 \<and> b = CHR ''-'' then s\<lparr>sc_exponent_negative := True\<rparr>
              else s)"

definition literal_of :: "char \<Rightarrow> string" where
  "literal_of b = (if b = CHR ''t'' then ''true'' else if b = CHR ''f'' then ''false'' else if b = CHR ''n'' then ''null'' else [])"

definition scalar_new :: "char \<Rightarrow> scalar" where
  "scalar_new b =
     scalar_feed \<lparr>sc_raw = [], sc_state = 0, sc_literal = literal_of b, sc_offset = 0, sc_digits = [], sc_fraction = 0, sc_omitted = 0,
       sc_exponent = 0, sc_exponent_negative = False, sc_negative = (b = CHR ''-'')\<rparr> b"

definition scalar_valid :: "scalar \<Rightarrow> bool" where
  "scalar_valid s =
     (if sc_literal s \<noteq> [] then sc_state s \<noteq> 255 \<and> sc_offset s = length (sc_literal s) else sc_state s \<in> {2, 3, 5, 8})"

text \<open>\<open>parse::<f64>\<close> of \<open>{sign}{digits}e{exponent}\<close>: the nearest value of the decimal.\<close>

definition decimal_f64 :: "bool \<Rightarrow> string \<Rightarrow> int \<Rightarrow> f64" where
  "decimal_f64 neg ds e =
     round64 ((if neg then - 1 else 1) * of_int (foldl (\<lambda>n b. 10 * n + digit_value b) 0 ds) * 10 powi e)"

definition scalar_cost :: "cost_env \<Rightarrow> scalar \<Rightarrow> f64 option" where
  "scalar_cost env s =
     (if sc_literal s \<noteq> [] then None
      else Option.bind
        (if length (sc_raw s) \<le> 128 then ce_number env (sc_raw s)
         else Some (decimal_f64 (sc_negative s) (if sc_digits s = [] then ''0'' else sc_digits s)
           ((if sc_exponent_negative s then - sc_exponent s else sc_exponent s) - sc_fraction s + sc_omitted s)))
        (\<lambda>v. if usable_cost v then Some v else None))"

section \<open>The observer\<close>

definition cost_paths :: "string list list" where
  "cost_paths = [[''estimated_cost''], [''response_cost''], [''usage'', ''estimated_cost''], [''usage'', ''total_cost''],
     [''usage'', ''cost''], [''_hidden_params'', ''response_cost'']]"

datatype expect = KeyOrEnd | Key | Colon | ValueOrEnd | Value | CommaOrEnd

record frame =
  fr_object :: bool
  fr_expect :: expect
  fr_path :: "string list"
  fr_key :: "string option"

record string_token =
  st_key :: bool
  st_raw :: "string option"
  st_escape :: bool
  st_unicode :: nat
  st_codepoint :: nat
  st_surrogate :: nat
  st_utf8 :: nat
  st_next_min :: nat
  st_next_max :: nat

datatype token = StringToken string_token | ScalarToken scalar "string list"

record observer =
  ob_stack :: "frame list"
  ob_token :: "token option"
  ob_costs :: "f64 option list"
  ob_started :: bool
  ob_done :: bool
  ob_failed :: bool

definition observer_default :: observer where
  "observer_default =
     \<lparr>ob_stack = [], ob_token = None, ob_costs = replicate 6 None, ob_started = False, ob_done = False, ob_failed = False\<rparr>"

definition json_whitespace :: "char \<Rightarrow> bool" where
  "json_whitespace b = (b \<in> {CHR '' '', CHR 0x09, CHR 0x0D, CHR 0x0A})"

definition fail_if :: "bool \<Rightarrow> observer \<Rightarrow> observer" where
  "fail_if b ob = ob\<lparr>ob_failed := ob_failed ob \<or> b\<rparr>"

definition path_within :: "string list \<Rightarrow> string list \<Rightarrow> bool" where
  "path_within path target = (length path \<le> length target \<and> list_all (\<lambda>(a, b). a = b) (zip path target))"

definition finish_scalar :: "cost_env \<Rightarrow> observer \<Rightarrow> observer" where
  "finish_scalar env ob =
     (case ob_token ob of
        Some (ScalarToken v path) \<Rightarrow>
          let ob = ob\<lparr>ob_token := None\<rparr>
          in if scalar_valid v
             then ob\<lparr>ob_costs := map (\<lambda>(target, c). if length path = length target \<and> list_all (\<lambda>(a, b). a = b) (zip path target)
                        then scalar_cost env v else c) (zip cost_paths (ob_costs ob))\<rparr>
             else fail_if True ob
      | _ \<Rightarrow> ob)"

text \<open>A byte of a string: the token after it and whether it breaks the string.\<close>

definition push_raw :: "string option \<Rightarrow> char \<Rightarrow> string option" where
  "push_raw raw b = Option.bind raw (\<lambda>buffer. if length buffer < 256 then Some (buffer @ [b]) else None)"

definition hex_value :: "char \<Rightarrow> nat option" where
  "hex_value b =
     (if is_ascii_digit b then Some (byte b - 48)
      else if 97 \<le> byte b \<and> byte b \<le> 102 then Some (byte b - 87)
      else if 65 \<le> byte b \<and> byte b \<le> 70 then Some (byte b - 55)
      else None)"

definition utf8_lead :: "nat \<Rightarrow> (nat \<times> nat \<times> nat) option" where
  "utf8_lead n =
     (if 0xC2 \<le> n \<and> n \<le> 0xDF then Some (1, 0x80, 0xBF)
      else if n = 0xE0 then Some (2, 0xA0, 0xBF)
      else if 0xE1 \<le> n \<and> n \<le> 0xEC \<or> 0xEE \<le> n \<and> n \<le> 0xEF then Some (2, 0x80, 0xBF)
      else if n = 0xED then Some (2, 0x80, 0x9F)
      else if n = 0xF0 then Some (3, 0x90, 0xBF)
      else if 0xF1 \<le> n \<and> n \<le> 0xF3 then Some (3, 0x80, 0xBF)
      else if n = 0xF4 then Some (3, 0x80, 0x8F)
      else None)"

definition high_surrogate :: "nat \<Rightarrow> bool" where
  "high_surrogate n = (0xD800 \<le> n \<and> n \<le> 0xDBFF)"

definition low_surrogate :: "nat \<Rightarrow> bool" where
  "low_surrogate n = (0xDC00 \<le> n \<and> n \<le> 0xDFFF)"

definition end_unicode :: "string_token \<Rightarrow> string_token \<times> bool" where
  "end_unicode s =
     (if st_surrogate s = 3 then (s\<lparr>st_surrogate := 0\<rparr>, \<not> low_surrogate (st_codepoint s))
      else if high_surrogate (st_codepoint s) then (s\<lparr>st_surrogate := 1\<rparr>, False)
      else (s, low_surrogate (st_codepoint s)))"

text \<open>The bytes of a string other than the closing quote, in the order of the branches.\<close>

definition string_byte :: "string_token \<Rightarrow> char \<Rightarrow> string_token \<times> bool" where
  "string_byte s b =
     (if 0 < st_utf8 s
      then (s\<lparr>st_utf8 := st_utf8 s - 1, st_next_min := 0x80, st_next_max := 0xBF\<rparr>,
            byte b < st_next_min s \<or> st_next_max s < byte b)
      else if 0 < st_unicode s
      then (let bad = (hex_value b = None);
                s = s\<lparr>st_codepoint := (st_codepoint s * 16) mod 65536 + (case hex_value b of Some v \<Rightarrow> v | None \<Rightarrow> 0),
                      st_unicode := st_unicode s - 1\<rparr>
            in if st_unicode s = 0 then (let (s, bad') = end_unicode s in (s, bad \<or> bad')) else (s, bad))
      else if st_surrogate s = 1 then (s\<lparr>st_surrogate := 2\<rparr>, b \<noteq> CHR 0x5C)
      else if st_surrogate s = 2 then (s\<lparr>st_surrogate := 3, st_unicode := 4, st_codepoint := 0\<rparr>, b \<noteq> CHR ''u'')
      else if st_escape s
      then (let s = s\<lparr>st_escape := False\<rparr>
            in if b = CHR ''u'' then (s\<lparr>st_unicode := 4, st_codepoint := 0\<rparr>, False)
               else (s, b \<notin> {CHR 0x22, CHR 0x5C, CHR ''/'', CHR ''b'', CHR ''f'', CHR ''n'', CHR ''r'', CHR ''t''}))
      else if b = CHR 0x5C then (s\<lparr>st_escape := True\<rparr>, False)
      else if byte b < 0x20 then (s, True)
      else if 0x80 \<le> byte b
      then (case utf8_lead (byte b) of
              Some (n, lo, hi) \<Rightarrow> (s\<lparr>st_utf8 := n, st_next_min := lo, st_next_max := hi\<rparr>, False)
            | None \<Rightarrow> (s\<lparr>st_utf8 := 0, st_next_min := 0x80, st_next_max := 0xBF\<rparr>, True))
      else (s, False))"

text \<open>The branches before the one of the closing quote.\<close>

definition inside_sequence :: "string_token \<Rightarrow> bool" where
  "inside_sequence s = (0 < st_utf8 s \<or> 0 < st_unicode s \<or> st_surrogate s \<in> {1, 2} \<or> st_escape s)"

text \<open>The end of a string. A key is stored in the frame it belongs to, which is on the stack.\<close>

definition end_string :: "cost_env \<Rightarrow> observer \<Rightarrow> bool \<Rightarrow> string option \<Rightarrow> observer" where
  "end_string env ob key raw =
     (let ob = ob\<lparr>ob_token := None\<rparr>
      in if \<not> key then ob
         else case (case raw of None \<Rightarrow> Some [] | Some r \<Rightarrow> ce_key env r) of
           None \<Rightarrow> fail_if True ob
         | Some k \<Rightarrow>
             (case ob_stack ob of
                fr # rest \<Rightarrow> ob\<lparr>ob_stack := fr\<lparr>fr_key := Some k, fr_expect := Colon\<rparr> # rest\<rparr>
              | [] \<Rightarrow> fail_if True ob))"

definition consume_token :: "cost_env \<Rightarrow> observer \<Rightarrow> char \<Rightarrow> bool \<times> observer" where
  "consume_token env ob b =
     (case ob_token ob of
        None \<Rightarrow> (False, ob)
      | Some (ScalarToken v path) \<Rightarrow>
          if json_whitespace b \<or> b \<in> {CHR '','', CHR ''}'', CHR '']''} then (False, finish_scalar env ob)
          else let v = scalar_feed v b
               in (True, fail_if (sc_state v = 255) (ob\<lparr>ob_token := Some (ScalarToken v path)\<rparr>))
      | Some (StringToken s) \<Rightarrow>
          let s = s\<lparr>st_raw := push_raw (st_raw s) b\<rparr>
          in if \<not> inside_sequence s \<and> b = CHR 0x22 then (True, end_string env ob (st_key s) (st_raw s))
             else let (s, bad) = string_byte s b
                  in (True, fail_if bad (ob\<lparr>ob_token := Some (StringToken s)\<rparr>)))"

definition value_path :: "observer \<Rightarrow> (string list \<times> observer) option" where
  "value_path ob =
     (case ob_stack ob of
        [] \<Rightarrow> None
      | fr # rest \<Rightarrow>
          if fr_expect fr \<notin> {Value, ValueOrEnd} then None
          else if fr_object fr \<and> fr_key fr = None then None
          else
            let path = fr_path fr @ [if fr_object fr then the (fr_key fr) else []];
                fr = fr\<lparr>fr_key := (if fr_object fr then None else fr_key fr), fr_expect := CommaOrEnd\<rparr>;
                ob = ob\<lparr>ob_stack := fr # rest,
                       ob_costs := map (\<lambda>(target, c). if path_within path target then None else c) (zip cost_paths (ob_costs ob))\<rparr>
            in Some (if list_ex (path_within path) cost_paths then path else [[]], ob))"

definition set_expect :: "observer \<Rightarrow> expect \<Rightarrow> observer" where
  "set_expect ob e = (case ob_stack ob of [] \<Rightarrow> ob | fr # rest \<Rightarrow> ob\<lparr>ob_stack := fr\<lparr>fr_expect := e\<rparr> # rest\<rparr>)"

definition new_string :: "bool \<Rightarrow> token" where
  "new_string key =
     StringToken \<lparr>st_key = key, st_raw = (if key then Some [CHR 0x22] else None), st_escape = False, st_unicode = 0, st_codepoint = 0,
       st_surrogate = 0, st_utf8 = 0, st_next_min = 0x80, st_next_max = 0xBF\<rparr>"

definition in_frame :: "cost_env \<Rightarrow> observer \<Rightarrow> frame \<Rightarrow> frame list \<Rightarrow> char \<Rightarrow> observer" where
  "in_frame env ob fr rest b =
     (if b = CHR 0x22
      then (let key = (fr_object fr \<and> fr_expect fr \<in> {Key, KeyOrEnd})
            in if key then ob\<lparr>ob_token := Some (new_string True)\<rparr>
               else case value_path ob of
                 None \<Rightarrow> fail_if True ob
               | Some (_, ob) \<Rightarrow> ob\<lparr>ob_token := Some (new_string False)\<rparr>)
      else if b \<in> {CHR ''{'', CHR ''[''}
      then (case value_path ob of
              None \<Rightarrow> fail_if True ob
            | Some (path, ob) \<Rightarrow>
                if 128 \<le> length (ob_stack ob) then fail_if True ob
                else let object = (b = CHR ''{'')
                     in ob\<lparr>ob_stack := \<lparr>fr_object = object, fr_expect = (if object then KeyOrEnd else ValueOrEnd), fr_path = path,
                             fr_key = None\<rparr> # ob_stack ob\<rparr>)
      else if b \<in> {CHR ''}'', CHR '']''}
      then (if fr_object fr \<noteq> (b = CHR ''}'') \<or> fr_expect fr \<notin> {KeyOrEnd, ValueOrEnd, CommaOrEnd} then fail_if True ob
            else ob\<lparr>ob_stack := rest, ob_done := (rest = [])\<rparr>)
      else if b = CHR '':'' \<and> fr_object fr \<and> fr_expect fr = Colon then set_expect ob Value
      else if b = CHR '','' \<and> fr_expect fr = CommaOrEnd then set_expect ob (if fr_object fr then Key else Value)
      else if b = CHR ''-'' \<or> is_ascii_digit b \<or> b \<in> {CHR ''t'', CHR ''f'', CHR ''n''}
      then (case value_path ob of
              None \<Rightarrow> fail_if True ob
            | Some (path, ob) \<Rightarrow> ob\<lparr>ob_token := Some (ScalarToken (scalar_new b) path)\<rparr>)
      else fail_if True ob)"

definition structural :: "cost_env \<Rightarrow> observer \<Rightarrow> char \<Rightarrow> observer" where
  "structural env ob b =
     (if json_whitespace b then ob
      else if \<not> ob_started ob
      then (let ob = ob\<lparr>ob_started := True\<rparr>
            in if b \<noteq> CHR ''{'' then fail_if True ob
               else ob\<lparr>ob_stack := \<lparr>fr_object = True, fr_expect = KeyOrEnd, fr_path = [], fr_key = None\<rparr> # ob_stack ob\<rparr>)
      else if ob_done ob then fail_if True ob
      else case ob_stack ob of
             [] \<Rightarrow> fail_if True ob
           | fr # rest \<Rightarrow> in_frame env ob fr rest b)"

definition observe_byte :: "cost_env \<Rightarrow> observer \<Rightarrow> char \<Rightarrow> observer" where
  "observe_byte env ob b =
     (if ob_failed ob then ob
      else case consume_token env ob b of (True, ob) \<Rightarrow> ob | (False, ob) \<Rightarrow> structural env ob b)"

definition observer_feed :: "cost_env \<Rightarrow> observer \<Rightarrow> string \<Rightarrow> observer" where
  "observer_feed env ob bs = foldl (observe_byte env) ob bs"

definition observer_finish :: "cost_env \<Rightarrow> observer \<Rightarrow> observer" where
  "observer_finish env ob =
     (let ob = (case ob_token ob of Some (ScalarToken _ _) \<Rightarrow> finish_scalar env ob | _ \<Rightarrow> ob)
      in fail_if (\<not> ob_done ob \<or> ob_token ob \<noteq> None \<or> ob_stack ob \<noteq> []) ob)"

definition find_some :: "'a option list \<Rightarrow> 'a option" where
  "find_some xs = (case List.map_filter id xs of [] \<Rightarrow> None | x # _ \<Rightarrow> Some x)"

definition observer_cost :: "observer \<Rightarrow> f64 option" where
  "observer_cost ob = (if ob_failed ob \<or> \<not> ob_done ob then None else find_some (ob_costs ob))"

definition has_input :: "observer \<Rightarrow> bool" where
  "has_input ob = (ob_started ob \<or> ob_failed ob)"

section \<open>What is retained\<close>

text \<open>The paths of frames and numbers: of the names of the cost locations, or the one of everything else.\<close>

definition known_path :: "string list \<Rightarrow> bool" where
  "known_path path = (path = [[]] \<or> list_ex (path_within path) cost_paths)"

fun token_bounded :: "observer \<Rightarrow> token \<Rightarrow> bool" where
  "token_bounded ob (StringToken s) =
     ((st_key s \<longrightarrow> ob_stack ob \<noteq> []) \<and> (case st_raw s of None \<Rightarrow> True | Some r \<Rightarrow> st_key s \<and> length r \<le> 256))"
| "token_bounded ob (ScalarToken v path) = (known_path path \<and> length (sc_raw v) \<le> 129 \<and> length (sc_digits v) \<le> 64)"

definition observer_bounded :: "observer \<Rightarrow> bool" where
  "observer_bounded ob =
     (length (ob_stack ob) \<le> 128 \<and> list_all (\<lambda>fr. known_path (fr_path fr)) (ob_stack ob) \<and> length (ob_costs ob) = 6 \<and>
      (case ob_token ob of None \<Rightarrow> True | Some token \<Rightarrow> token_bounded ob token))"

lemma cost_paths_length: "length cost_paths = 6"
  by (simp add: cost_paths_def)

lemma known_root: "known_path []"
  by (simp add: known_path_def path_within_def cost_paths_def)

lemma fail_if_bounded [simp]: "observer_bounded (fail_if b ob) = observer_bounded ob"
proof -
  have "token_bounded (fail_if b ob) token = token_bounded ob token" for token
    by (cases token) (simp_all add: fail_if_def)
  then show ?thesis by (cases "ob_token ob") (simp_all add: observer_bounded_def fail_if_def)
qed

lemma scalar_feed_bounded:
  assumes "length (sc_raw s) \<le> 129" and "length (sc_digits s) \<le> 64"
  shows "length (sc_raw (scalar_feed s b)) \<le> 129 \<and> length (sc_digits (scalar_feed s b)) \<le> 64"
  using assms by (simp add: scalar_feed_def Let_def)

lemma scalar_new_bounded: "length (sc_raw (scalar_new b)) \<le> 129 \<and> length (sc_digits (scalar_new b)) \<le> 64"
  unfolding scalar_new_def by (rule scalar_feed_bounded) simp_all

lemma string_byte_keeps: "string_byte s b = (s', bad) \<Longrightarrow> st_key s' = st_key s \<and> st_raw s' = st_raw s"
  by (auto simp: string_byte_def end_unicode_def Let_def split: if_splits option.splits)

lemma value_path_bounded:
  assumes "observer_bounded ob" and "value_path ob = Some (path, ob')"
  shows "known_path path \<and> length (ob_stack ob') \<le> 128 \<and> list_all (\<lambda>fr. known_path (fr_path fr)) (ob_stack ob') \<and>
    length (ob_costs ob') = 6 \<and> ob_stack ob' \<noteq> [] \<and> ob_token ob' = ob_token ob"
proof -
  obtain fr rest where st: "ob_stack ob = fr # rest" using assms(2) by (cases "ob_stack ob") (simp_all add: value_path_def)
  then show ?thesis
    using assms by (simp add: value_path_def observer_bounded_def Let_def split: if_splits) (auto simp: known_path_def cost_paths_length)
qed

lemma finish_scalar_bounded: "observer_bounded ob \<Longrightarrow> observer_bounded (finish_scalar env ob)"
proof -
  assume ob: "observer_bounded ob"
  have "observer_bounded (ob\<lparr>ob_token := None, ob_costs := map f (zip cost_paths (ob_costs ob))\<rparr>)" for f
    using ob by (simp add: observer_bounded_def cost_paths_length)
  moreover have "observer_bounded (ob\<lparr>ob_token := None\<rparr>)" using ob by (simp add: observer_bounded_def)
  ultimately show ?thesis using ob by (auto simp: finish_scalar_def Let_def split: option.split token.split)
qed

lemma end_string_bounded: "observer_bounded ob \<Longrightarrow> observer_bounded (end_string env ob key raw)"
proof -
  assume ob: "observer_bounded ob"
  then have n: "observer_bounded (ob\<lparr>ob_token := None\<rparr>)" by (simp add: observer_bounded_def)
  moreover have "ob_stack ob = fr # rest \<Longrightarrow>
      observer_bounded (ob\<lparr>ob_token := None, ob_stack := fr\<lparr>fr_key := k, fr_expect := e\<rparr> # rest\<rparr>)" for fr rest k e
    using ob by (simp add: observer_bounded_def)
  ultimately show ?thesis by (simp add: end_string_def Let_def split: option.split list.split)
qed

lemma consume_bounded: "observer_bounded ob \<Longrightarrow> observer_bounded (snd (consume_token env ob b))"
proof -
  assume ob: "observer_bounded ob"
  have raw: "(case push_raw r c of None \<Rightarrow> True | Some x \<Rightarrow> length x \<le> 256)" for r c
    by (simp add: push_raw_def split: option.split Option.bind_split)
  have keep: "push_raw r c = Some x \<Longrightarrow> r \<noteq> None" for r c x by (cases r) (simp_all add: push_raw_def)
  show ?thesis
  proof (cases "ob_token ob")
    case None
    with ob show ?thesis by (simp add: consume_token_def)
  next
    case (Some token)
    show ?thesis
    proof (cases token)
      case (StringToken s)
      let ?s = "s\<lparr>st_raw := push_raw (st_raw s) b\<rparr>"
      obtain s' bad where s': "string_byte ?s b = (s', bad)" by fastforce
      have "st_key s' = st_key s" "st_raw s' = push_raw (st_raw s) b" using string_byte_keeps [OF s'] by simp_all
      then have "observer_bounded (ob\<lparr>ob_token := Some (StringToken s')\<rparr>)"
        using ob Some StringToken raw [of "st_raw s" b] keep [of "st_raw s" b]
        by (auto simp: observer_bounded_def split: option.splits)
      with s' show ?thesis by (simp add: consume_token_def Some StringToken Let_def end_string_bounded [OF ob])
    next
      case (ScalarToken v path)
      have "observer_bounded (ob\<lparr>ob_token := Some (ScalarToken (scalar_feed v b) path)\<rparr>)"
        using ob Some ScalarToken scalar_feed_bounded [of v b] by (simp add: observer_bounded_def)
      then show ?thesis by (simp add: consume_token_def Some ScalarToken Let_def finish_scalar_bounded [OF ob])
    qed
  qed
qed

lemma set_expect_bounded: "observer_bounded ob \<Longrightarrow> ob_token ob = None \<Longrightarrow> observer_bounded (set_expect ob e)"
  by (cases "ob_stack ob") (simp_all add: set_expect_def observer_bounded_def)

text \<open>The three results of a value that starts in the top frame.\<close>

lemma value_started:
  assumes "observer_bounded ob" and "value_path ob = Some (path, ob')" and "ob_token ob = None"
  shows "observer_bounded ob'"
    and "observer_bounded (ob'\<lparr>ob_token := Some (new_string False)\<rparr>)"
    and "observer_bounded (ob'\<lparr>ob_token := Some (ScalarToken (scalar_new b) path)\<rparr>)"
    and "length (ob_stack ob') < 128 \<Longrightarrow> observer_bounded
      (ob'\<lparr>ob_stack := \<lparr>fr_object = object, fr_expect = e, fr_path = path, fr_key = None\<rparr> # ob_stack ob'\<rparr>)"
  using value_path_bounded [OF assms(1,2)] assms(3) scalar_new_bounded [of b]
  by (simp_all add: observer_bounded_def new_string_def)

lemma if_both: "P x \<Longrightarrow> P y \<Longrightarrow> P (if c then x else y)"
  by simp

text \<open>What a byte in a frame can lead to.\<close>

lemma in_frame_elim:
  assumes fail: "P (fail_if True ob)" and key: "P (ob\<lparr>ob_token := Some (new_string True)\<rparr>)"
    and pop: "\<And>d. P (ob\<lparr>ob_stack := rest, ob_done := d\<rparr>)" and step: "\<And>e. P (set_expect ob e)"
    and str: "\<And>path ob'. value_path ob = Some (path, ob') \<Longrightarrow> P (ob'\<lparr>ob_token := Some (new_string False)\<rparr>)"
    and deep: "\<And>path ob'. value_path ob = Some (path, ob') \<Longrightarrow> P (fail_if True ob')"
    and push: "\<And>path ob' object e. value_path ob = Some (path, ob') \<Longrightarrow> length (ob_stack ob') < 128 \<Longrightarrow>
      P (ob'\<lparr>ob_stack := \<lparr>fr_object = object, fr_expect = e, fr_path = path, fr_key = None\<rparr> # ob_stack ob'\<rparr>)"
    and scalar: "\<And>path ob'. value_path ob = Some (path, ob') \<Longrightarrow> P (ob'\<lparr>ob_token := Some (ScalarToken (scalar_new b) path)\<rparr>)"
  shows "P (in_frame env ob fr rest b)"
proof -
  have "P (case value_path ob of None \<Rightarrow> fail_if True ob | Some (_, ob) \<Rightarrow> ob\<lparr>ob_token := Some (new_string False)\<rparr>)"
    using fail str by (cases "value_path ob") auto
  moreover have "P (case value_path ob of
              None \<Rightarrow> fail_if True ob
            | Some (path, ob) \<Rightarrow>
                if 128 \<le> length (ob_stack ob) then fail_if True ob
                else ob\<lparr>ob_stack := \<lparr>fr_object = c, fr_expect = (if c then KeyOrEnd else ValueOrEnd), fr_path = path,
                             fr_key = None\<rparr> # ob_stack ob\<rparr>)" for c
    using fail deep push by (cases "value_path ob") auto
  moreover have "P (case value_path ob of
              None \<Rightarrow> fail_if True ob
            | Some (path, ob) \<Rightarrow> ob\<lparr>ob_token := Some (ScalarToken (scalar_new b) path)\<rparr>)"
    using fail scalar by (cases "value_path ob") auto
  ultimately show ?thesis
    unfolding in_frame_def Let_def by (intro if_both [of P] fail key pop step)
qed

lemma in_frame_bounded:
  assumes ob: "observer_bounded ob" and st: "ob_stack ob = fr # rest" and tk: "ob_token ob = None"
  shows "observer_bounded (in_frame env ob fr rest b)"
proof -
  have key: "observer_bounded (ob\<lparr>ob_token := Some (new_string True)\<rparr>)"
    using ob st by (simp add: observer_bounded_def new_string_def)
  have pop: "observer_bounded (ob\<lparr>ob_stack := rest, ob_done := d\<rparr>)" for d
    using ob st tk by (simp add: observer_bounded_def)
  show ?thesis
    by (rule in_frame_elim [where P = observer_bounded])
      (simp_all only: fail_if_bounded ob key pop set_expect_bounded [OF ob tk] value_started [OF ob _ tk])
qed

lemma structural_bounded:
  assumes "observer_bounded ob" and "ob_token ob = None" and "\<not> ob_started ob \<Longrightarrow> ob_stack ob = []"
  shows "observer_bounded (structural env ob b)"
proof -
  have "observer_bounded (ob\<lparr>ob_started := True\<rparr>)"
    "ob_stack ob = [] \<Longrightarrow> observer_bounded (ob\<lparr>ob_started := True, ob_stack := [\<lparr>fr_object = True, fr_expect = KeyOrEnd, fr_path = [], fr_key = None\<rparr>]\<rparr>)"
    using assms(1,2) known_root by (simp_all add: observer_bounded_def)
  then show ?thesis
    using assms in_frame_bounded [OF assms(1) _ assms(2)] by (auto simp: structural_def Let_def split: list.split)
qed

text \<open>Before the first brace there is nothing.\<close>

definition fresh_empty :: "observer \<Rightarrow> bool" where
  "fresh_empty ob = (\<not> ob_started ob \<longrightarrow> ob_stack ob = [] \<and> ob_token ob = None)"

lemma fail_if_started [simp]: "ob_started (fail_if b ob) = ob_started ob"
  by (simp add: fail_if_def)

lemma finish_scalar_started [simp]: "ob_started (finish_scalar env ob) = ob_started ob"
  by (simp add: finish_scalar_def Let_def split: option.split token.split)

lemma end_string_started [simp]: "ob_started (end_string env ob key raw) = ob_started ob"
  by (simp add: end_string_def Let_def split: option.split list.split)

lemma consume_started: "ob_started (snd (consume_token env ob b)) = ob_started ob"
  by (simp add: consume_token_def Let_def split: option.split token.split prod.split)

lemma value_path_started: "value_path ob = Some (path, ob') \<Longrightarrow> ob_started ob' = ob_started ob"
  by (auto simp: value_path_def Let_def split: list.splits if_splits)

lemma in_frame_started: "ob_started (in_frame env ob fr rest b) = ob_started ob"
  by (rule in_frame_elim [where P = "\<lambda>ob'. ob_started ob' = ob_started ob"]) (simp_all add: set_expect_def value_path_started split: list.split)

lemma consume_structural:
  assumes "consume_token env ob b = (False, ob')"
  shows "ob_token ob' = None"
proof (cases "ob_token ob")
  case None
  with assms show ?thesis by (auto simp: consume_token_def)
next
  case (Some token)
  show ?thesis
  proof (cases token)
    case (StringToken s)
    have "fst (consume_token env ob b)" by (simp add: consume_token_def Some StringToken Let_def split: prod.split)
    with assms show ?thesis by simp
  next
    case (ScalarToken v path)
    have "ob_token (finish_scalar env ob) = None"
      by (simp add: finish_scalar_def Some ScalarToken Let_def fail_if_def)
    with assms show ?thesis by (auto simp: consume_token_def Some ScalarToken Let_def split: if_splits)
  qed
qed

lemma observe_byte_bounded:
  assumes "observer_bounded ob" and "fresh_empty ob"
  shows "observer_bounded (observe_byte env ob b) \<and> fresh_empty (observe_byte env ob b)"
proof (cases "ob_failed ob")
  case True
  with assms show ?thesis by (simp add: observe_byte_def)
next
  case False
  obtain consumed ob' where c: "consume_token env ob b = (consumed, ob')" by fastforce
  have b: "observer_bounded ob'" using consume_bounded [OF assms(1), of env b] by (simp add: c)
  have st: "ob_started ob' = ob_started ob" using consume_started [of env ob b] by (simp add: c)
  have fresh: "fresh_empty ob'"
  proof (cases "ob_token ob")
    case None
    with c assms(2) show ?thesis by (simp add: consume_token_def)
  next
    case Some
    with assms(2) st show ?thesis by (auto simp: fresh_empty_def)
  qed
  show ?thesis
  proof (cases consumed)
    case True
    with False c b fresh show ?thesis by (simp add: observe_byte_def)
  next
    case structural: False
    have t: "ob_token ob' = None" using c structural by (auto intro: consume_structural)
    have "observer_bounded (structural env ob' b)"
      using b t fresh by (intro structural_bounded) (simp_all add: fresh_empty_def)
    moreover have "fresh_empty (structural env ob' b)"
      using fresh t by (auto simp: structural_def fresh_empty_def Let_def in_frame_started split: list.split)
    ultimately show ?thesis using False c structural by (simp add: observe_byte_def)
  qed
qed

interpretation observer: invariant_system "observe_byte env" "\<lambda>ob. observer_bounded ob \<and> fresh_empty ob"
  by unfold_locales (rule observe_byte_bounded, simp_all)

section \<open>Property\<close>


end
