(* ===== verification/Response_Documents.thy ===== *)
theory Response_Documents
  imports Response_Cost
begin

text \<open>
  What the cost observer reports for a well-formed document. Documents are given by their grammar: the
  pieces of a string (plain characters, UTF-8 sequences, escapes, units and surrogate pairs), the parts of a
  number, arrays and objects with the keys in any order and with repetitions, written with any white space
  between the tokens. The observer accepts each of them and finds the cost that reading the parsed
  document finds.
\<close>

section \<open>Strings\<close>

datatype piece = Plain char | Multi char string | Escaped char | Unit string | Pair string string

definition hex_ok :: "string \<Rightarrow> bool" where
  "hex_ok hs = (length hs = 4 \<and> list_all (\<lambda>c. hex_value c \<noteq> None) hs)"

definition hex4 :: "string \<Rightarrow> nat" where
  "hex4 hs = foldl (\<lambda>n c. 16 * n + the (hex_value c)) 0 hs"

fun continuation :: "nat \<Rightarrow> nat \<Rightarrow> string \<Rightarrow> bool" where
  "continuation lo hi [] = True"
| "continuation lo hi (c # cs) = (lo \<le> byte c \<and> byte c \<le> hi \<and> continuation 0x80 0xBF cs)"

fun piece_ok :: "piece \<Rightarrow> bool" where
  "piece_ok (Plain c) = (0x20 \<le> byte c \<and> byte c < 0x80 \<and> c \<notin> {CHR 0x22, CHR 0x5C})"
| "piece_ok (Multi c cs) = (case utf8_lead (byte c) of Some (n, lo, hi) \<Rightarrow> length cs = n \<and> continuation lo hi cs | None \<Rightarrow> False)"
| "piece_ok (Escaped c) = (c \<in> {CHR 0x22, CHR 0x5C, CHR ''/'', CHR ''b'', CHR ''f'', CHR ''n'', CHR ''r'', CHR ''t''})"
| "piece_ok (Unit hs) = (hex_ok hs \<and> \<not> high_surrogate (hex4 hs) \<and> \<not> low_surrogate (hex4 hs))"
| "piece_ok (Pair hs ls) = (hex_ok hs \<and> high_surrogate (hex4 hs) \<and> hex_ok ls \<and> low_surrogate (hex4 ls))"

fun render_piece :: "piece \<Rightarrow> string" where
  "render_piece (Plain c) = [c]"
| "render_piece (Multi c cs) = c # cs"
| "render_piece (Escaped c) = [CHR 0x5C, c]"
| "render_piece (Unit hs) = CHR 0x5C # CHR ''u'' # hs"
| "render_piece (Pair hs ls) = CHR 0x5C # CHR ''u'' # hs @ CHR 0x5C # CHR ''u'' # ls"

definition render_pieces :: "piece list \<Rightarrow> string" where
  "render_pieces ps = concat (map render_piece ps)"

definition quoted :: "piece list \<Rightarrow> string" where
  "quoted ps = CHR 0x22 # render_pieces ps @ [CHR 0x22]"

text \<open>A string token between two pieces, and the bytes it takes without failing or ending.\<close>

definition idle :: "string_token \<Rightarrow> bool" where
  "idle s = (st_utf8 s = 0 \<and> st_unicode s = 0 \<and> st_surrogate s = 0 \<and> \<not> st_escape s)"

fun string_run :: "string_token \<Rightarrow> string \<Rightarrow> string_token option" where
  "string_run s [] = Some s"
| "string_run s (b # bs) =
     (if \<not> inside_sequence s \<and> b = CHR 0x22 then None
      else case string_byte (s\<lparr>st_raw := push_raw (st_raw s) b\<rparr>) b of
             (s', bad) \<Rightarrow> if bad then None else string_run s' bs)"

lemma string_run_append: "string_run s (bs @ cs) = Option.bind (string_run s bs) (\<lambda>s. string_run s cs)"
  by (induction s bs rule: string_run.induct) (simp_all split: prod.split)

lemma inside_raw [simp]: "inside_sequence (s\<lparr>st_raw := r\<rparr>) = inside_sequence s"
  by (simp add: inside_sequence_def)

text \<open>The token with the bytes added to the retained text of a key.\<close>

definition with_raw :: "string_token \<Rightarrow> string \<Rightarrow> string option" where
  "with_raw s bs = foldl push_raw (st_raw s) bs"

lemma continuation_run:
  "st_unicode s = 0 \<Longrightarrow> st_surrogate s = 0 \<Longrightarrow> \<not> st_escape s \<Longrightarrow> st_utf8 s = length cs \<Longrightarrow>
   continuation (st_next_min s) (st_next_max s) cs \<Longrightarrow>
   \<exists>s'. string_run s cs = Some s' \<and> idle s' \<and> st_key s' = st_key s \<and> st_raw s' = with_raw s cs"
proof (induction cs arbitrary: s)
  case Nil
  then show ?case by (simp add: idle_def with_raw_def)
next
  case (Cons c cs)
  let ?s = "s\<lparr>st_raw := push_raw (st_raw s) c, st_utf8 := length cs, st_next_min := 0x80, st_next_max := 0xBF\<rparr>"
  have "\<exists>s'. string_run ?s cs = Some s' \<and> idle s' \<and> st_key s' = st_key ?s \<and> st_raw s' = with_raw ?s cs"
    using Cons.prems by (intro Cons.IH) simp_all
  moreover have "string_run s (c # cs) = string_run ?s cs"
    using Cons.prems by (simp add: inside_sequence_def string_byte_def not_less)
  ultimately show ?case by (simp add: with_raw_def)
qed

lemma hex_value_less: "hex_value c = Some v \<Longrightarrow> v < 16"
  by (auto simp: hex_value_def is_ascii_digit_def split: if_splits)

text \<open>The four digits of a unit, up to the decision at its end.\<close>

lemma hex_run:
  assumes "hex_ok hs" and "st_utf8 s = 0" and "st_unicode s = 4" and "st_codepoint s = 0"
    and "end_unicode (s\<lparr>st_raw := with_raw s hs, st_codepoint := hex4 hs, st_unicode := 0\<rparr>) = (s', False)"
  shows "string_run s hs = Some s'"
proof -
  obtain a b c d where hs: "hs = [a, b, c, d]" using assms(1) by (auto simp: hex_ok_def length_Suc_conv numeral_eq_Suc)
  obtain va vb vc vd where v: "hex_value a = Some va" "hex_value b = Some vb" "hex_value c = Some vc" "hex_value d = Some vd"
    using assms(1) by (auto simp: hs hex_ok_def)
  have lt: "va < 16" "vb < 16" "vc < 16" "vd < 16" using v hex_value_less by blast+
  have cp: "(va * 16) mod 65536 = va * 16" "((va * 16 + vb) * 16) mod 65536 = (va * 16 + vb) * 16"
    "(((va * 16 + vb) * 16 + vc) * 16) mod 65536 = ((va * 16 + vb) * 16 + vc) * 16"
    using lt by simp_all
  have h: "hex4 hs = ((va * 16 + vb) * 16 + vc) * 16 + vd" by (simp add: hex4_def hs v)
  note e = assms(5) [unfolded h, unfolded with_raw_def hs, simplified]
  show ?thesis
    using e assms(2-4) v cp by (simp add: hs inside_sequence_def string_byte_def)
qed

lemma piece_run:
  assumes "piece_ok p" and "idle s"
  shows "\<exists>s'. string_run s (render_piece p) = Some s' \<and> idle s' \<and> st_key s' = st_key s \<and> st_raw s' = with_raw s (render_piece p)"
proof (cases p)
  case (Plain c)
  with assms show ?thesis by (simp add: idle_def inside_sequence_def string_byte_def with_raw_def)
next
  case (Multi c cs)
  with assms obtain n lo hi where u: "utf8_lead (byte c) = Some (n, lo, hi)" "length cs = n" "continuation lo hi cs"
    by (auto split: option.splits)
  have c: "0x80 \<le> byte c" using u(1) by (auto simp: utf8_lead_def split: if_splits)
  then have ne: "c \<noteq> CHR 0x22" "c \<noteq> CHR 0x5C" by (auto simp: byte_def)
  let ?s = "s\<lparr>st_raw := push_raw (st_raw s) c, st_utf8 := n, st_next_min := lo, st_next_max := hi\<rparr>"
  have "string_run s (c # cs) = string_run ?s cs"
    using assms(2) u c ne by (simp add: idle_def inside_sequence_def string_byte_def)
  moreover have "\<exists>s'. string_run ?s cs = Some s' \<and> idle s' \<and> st_key s' = st_key ?s \<and> st_raw s' = with_raw ?s cs"
    using assms(2) u by (intro continuation_run) (simp_all add: idle_def)
  ultimately show ?thesis using Multi by (simp add: with_raw_def)
next
  case (Escaped c)
  with assms show ?thesis by (auto simp: idle_def inside_sequence_def string_byte_def with_raw_def Let_def)
next
  case (Unit hs)
  let ?r = "push_raw (push_raw (st_raw s) (CHR 0x5C)) (CHR ''u'')"
  let ?s = "s\<lparr>st_raw := ?r, st_unicode := 4, st_codepoint := 0\<rparr>"
  have head: "string_run s (CHR 0x5C # CHR ''u'' # hs) = string_run ?s hs"
    using assms(2) by (cases s) (simp add: idle_def inside_sequence_def string_byte_def Let_def)
  have "string_run ?s hs = Some (?s\<lparr>st_raw := with_raw ?s hs, st_codepoint := hex4 hs, st_unicode := 0\<rparr>)"
    using assms Unit by (intro hex_run) (simp_all add: idle_def end_unicode_def)
  with head Unit assms(2) show ?thesis by (simp add: idle_def with_raw_def)
next
  case (Pair hs ls)
  let ?r = "push_raw (push_raw (st_raw s) (CHR 0x5C)) (CHR ''u'')"
  let ?s = "s\<lparr>st_raw := ?r, st_unicode := 4, st_codepoint := 0\<rparr>"
  have head: "string_run s (CHR 0x5C # CHR ''u'' # hs @ CHR 0x5C # CHR ''u'' # ls) =
      Option.bind (string_run ?s hs) (\<lambda>s. string_run s (CHR 0x5C # CHR ''u'' # ls))"
    using assms(2) unfolding string_run_append [symmetric]
    by (cases s) (simp add: idle_def inside_sequence_def string_byte_def Let_def)
  let ?t = "?s\<lparr>st_raw := with_raw ?s hs, st_codepoint := hex4 hs, st_unicode := 0, st_surrogate := 1\<rparr>"
  have first: "string_run ?s hs = Some ?t"
    using assms Pair by (intro hex_run) (simp_all add: idle_def end_unicode_def)
  let ?r' = "push_raw (push_raw (st_raw ?t) (CHR 0x5C)) (CHR ''u'')"
  let ?t2 = "?t\<lparr>st_raw := ?r', st_surrogate := 3, st_unicode := 4, st_codepoint := 0\<rparr>"
  have second: "string_run ?t (CHR 0x5C # CHR ''u'' # ls) = string_run ?t2 ls"
    using assms(2) by (simp add: idle_def inside_sequence_def string_byte_def)
  have "string_run ?t2 ls = Some (?t2\<lparr>st_raw := with_raw ?t2 ls, st_codepoint := hex4 ls, st_unicode := 0, st_surrogate := 0\<rparr>)"
    using assms Pair by (intro hex_run) (simp_all add: idle_def end_unicode_def)
  with head first second Pair assms(2) show ?thesis by (simp add: idle_def with_raw_def)
qed

lemma pieces_run:
  "list_all piece_ok ps \<Longrightarrow> idle s \<Longrightarrow>
   \<exists>s'. string_run s (render_pieces ps) = Some s' \<and> idle s' \<and> st_key s' = st_key s \<and> st_raw s' = with_raw s (render_pieces ps)"
proof (induction ps arbitrary: s)
  case Nil
  then show ?case by (simp add: render_pieces_def with_raw_def)
next
  case (Cons p ps)
  from piece_run [of p s] Cons.prems obtain s1 where s1: "string_run s (render_piece p) = Some s1" "idle s1" "st_key s1 = st_key s"
    "st_raw s1 = with_raw s (render_piece p)" by auto
  from Cons.IH [of s1] Cons.prems s1 show ?case
    by (auto simp: render_pieces_def string_run_append with_raw_def)
qed

section \<open>Numbers and literals\<close>

record number =
  nu_negative :: bool
  nu_whole :: string
  nu_fraction :: "string option"
  nu_exponent :: "(char \<times> string \<times> string) option"

definition digits_ok :: "string \<Rightarrow> bool" where
  "digits_ok ds = (ds \<noteq> [] \<and> list_all is_ascii_digit ds)"

definition number_ok :: "number \<Rightarrow> bool" where
  "number_ok n =
     ((nu_whole n = ''0'' \<or> digits_ok (nu_whole n) \<and> hd (nu_whole n) \<noteq> CHR ''0'') \<and>
      (case nu_fraction n of None \<Rightarrow> True | Some ds \<Rightarrow> digits_ok ds) \<and>
      (case nu_exponent n of None \<Rightarrow> True
       | Some (e, sign, ds) \<Rightarrow> e \<in> {CHR ''e'', CHR ''E''} \<and> sign \<in> {[], ''+'', ''-''} \<and> digits_ok ds))"

definition render_number :: "number \<Rightarrow> string" where
  "render_number n =
     (if nu_negative n then ''-'' else []) @ nu_whole n @
     (case nu_fraction n of None \<Rightarrow> [] | Some ds \<Rightarrow> CHR ''.'' # ds) @
     (case nu_exponent n of None \<Rightarrow> [] | Some (e, sign, ds) \<Rightarrow> e # sign @ ds)"

lemma next_state_dead [simp]: "next_state 255 b = 255"
  by (simp add: next_state_def)

lemma next_states_dead: "foldl next_state 255 bs = 255"
  by (induction bs) simp_all

lemma digit_not_special:
  "is_ascii_digit b \<Longrightarrow> b \<noteq> CHR ''-'' \<and> b \<noteq> CHR ''.'' \<and> b \<noteq> CHR ''e'' \<and> b \<noteq> CHR ''E'' \<and> b \<noteq> CHR ''+''"
  by (auto simp: is_ascii_digit_def byte_def)

lemma digit_state: "is_ascii_digit d \<Longrightarrow> q \<in> {3, 5, 8} \<Longrightarrow> next_state q d = q"
  using digit_not_special [of d] by (elim insertE) (simp_all add: next_state_def)

lemma digits_state: "list_all is_ascii_digit ds \<Longrightarrow> q \<in> {3, 5, 8} \<Longrightarrow> foldl next_state q ds = q"
  by (induction ds) (simp_all add: digit_state)

lemma whole_state:
  assumes "nu_whole n = ''0'' \<or> digits_ok (nu_whole n) \<and> hd (nu_whole n) \<noteq> CHR ''0''" and "q \<in> {0, 1}"
  shows "foldl next_state q (nu_whole n) \<in> {2, 3}"
proof (cases "nu_whole n = ''0''")
  case True
  with assms(2) show ?thesis by (elim insertE) (simp_all add: next_state_def)
next
  case False
  with assms(1) obtain d ds where d: "nu_whole n = d # ds" "is_ascii_digit d" "d \<noteq> CHR ''0''" "list_all is_ascii_digit ds"
    by (cases "nu_whole n") (auto simp: digits_ok_def)
  then have "next_state q d = 3" using assms(2) digit_not_special [of d] by (elim insertE) (simp_all add: next_state_def)
  with d digits_state [of ds 3] show ?thesis by simp
qed

lemma fraction_state:
  assumes "digits_ok ds" and "q \<in> {2, 3}"
  shows "foldl next_state q (CHR ''.'' # ds) = 5"
proof -
  obtain d ds' where d: "ds = d # ds'" "is_ascii_digit d" "list_all is_ascii_digit ds'"
    using assms(1) by (cases ds) (auto simp: digits_ok_def)
  have "next_state q (CHR ''.'') = 4" using assms(2) by (elim insertE) (simp_all add: next_state_def is_ascii_digit_def byte_def)
  moreover have "next_state 4 d = 5" using d(2) digit_not_special [of d] by (simp add: next_state_def)
  ultimately show ?thesis using d digits_state [of ds' 5] by simp
qed

lemma exponent_state:
  assumes "e \<in> {CHR ''e'', CHR ''E''}" and "sign \<in> {[], ''+'', ''-''}" and "digits_ok ds" and "q \<in> {2, 3, 5}"
  shows "foldl next_state q (e # sign @ ds) = 8"
proof -
  obtain d ds' where d: "ds = d # ds'" "is_ascii_digit d" "list_all is_ascii_digit ds'"
    using assms(3) by (cases ds) (auto simp: digits_ok_def)
  have e: "next_state q e = 6" using assms(1,4) by (elim insertE) (simp_all add: next_state_def is_ascii_digit_def byte_def)
  have "foldl next_state 6 sign \<in> {6, 7}" using assms(2) by (elim insertE) (simp_all add: next_state_def is_ascii_digit_def byte_def)
  moreover have "next_state r d = 8" if "r \<in> {6, 7}" for r using that d(2) digit_not_special [of d] by (elim insertE) (simp_all add: next_state_def)
  ultimately have "next_state (foldl next_state 6 sign) d = 8" by blast
  with d e digits_state [of ds' 8] show ?thesis by simp
qed

lemma number_state:
  assumes "number_ok n"
  shows "foldl next_state 0 (render_number n) \<in> {2, 3, 5, 8}"
proof -
  let ?q0 = "foldl next_state 0 (if nu_negative n then ''-'' else [])"
  have "?q0 \<in> {0, 1}" by (simp add: next_state_def)
  then have q1: "foldl next_state ?q0 (nu_whole n) \<in> {2, 3}" using assms by (intro whole_state) (auto simp: number_ok_def)
  let ?q1 = "foldl next_state ?q0 (nu_whole n)"
  let ?q2 = "foldl next_state ?q1 (case nu_fraction n of None \<Rightarrow> [] | Some ds \<Rightarrow> CHR ''.'' # ds)"
  have q2: "?q2 \<in> {2, 3, 5}"
    using q1 assms fraction_state [OF _ q1]
    by (cases "nu_fraction n") (auto simp: number_ok_def simp del: foldl_Cons)
  have run: "foldl next_state 0 (render_number n) =
      foldl next_state ?q2 (case nu_exponent n of None \<Rightarrow> [] | Some (e, sign, ds) \<Rightarrow> e # sign @ ds)"
    by (simp only: render_number_def foldl_append)
  show ?thesis
  proof (cases "nu_exponent n")
    case None
    with q2 show ?thesis unfolding run None by auto
  next
    case (Some x)
    obtain e sign ds where x: "x = (e, sign, ds)" by (cases x)
    have "foldl next_state ?q2 (e # sign @ ds) = 8"
      using assms q2 by (intro exponent_state) (simp_all add: number_ok_def Some x)
    then show ?thesis unfolding run Some x option.case prod.case by simp
  qed
qed

text \<open>A number token after some bytes.\<close>

lemma scalar_feed_simps:
  "sc_literal (scalar_feed s b) = sc_literal s"
  "sc_literal s = [] \<Longrightarrow> sc_state (scalar_feed s b) = next_state (sc_state s) b"
  "length (sc_raw s) < 129 \<Longrightarrow> sc_raw (scalar_feed s b) = sc_raw s @ [b]"
  by (simp_all add: scalar_feed_def Let_def)

lemma scalar_feeds:
  "sc_literal (foldl scalar_feed s bs) = sc_literal s"
  "sc_literal s = [] \<Longrightarrow> sc_state (foldl scalar_feed s bs) = foldl next_state (sc_state s) bs"
  "length (sc_raw s) + length bs \<le> 129 \<Longrightarrow> sc_raw (foldl scalar_feed s bs) = sc_raw s @ bs"
  by (induction bs arbitrary: s) (simp_all add: scalar_feed_simps)

lemma number_head:
  assumes "number_ok n"
  obtains b bs where "render_number n = b # bs" "b = CHR ''-'' \<or> is_ascii_digit b"
proof -
  obtain d ds where d: "nu_whole n = d # ds" "is_ascii_digit d"
    using assms by (cases "nu_whole n") (auto simp: number_ok_def digits_ok_def is_ascii_digit_def byte_def)
  show ?thesis
  proof (cases "nu_negative n")
    case True
    show ?thesis by (rule that [OF _ disjI1 [OF refl]]) (simp add: render_number_def True)
  next
    case False
    show ?thesis by (rule that [OF _ disjI2 [OF d(2)]]) (simp add: render_number_def False d(1))
  qed
qed

text \<open>The token of a whole number: valid, with the cost serde reads.\<close>

lemma number_token:
  assumes "number_ok n" and "render_number n = b # bs" and "length (render_number n) \<le> 128"
  shows "scalar_valid (foldl scalar_feed (scalar_new b) bs)"
    and "scalar_cost env (foldl scalar_feed (scalar_new b) bs) =
      Option.bind (ce_number env (render_number n)) (\<lambda>v. if usable_cost v then Some v else None)"
proof -
  have "b = CHR ''-'' \<or> is_ascii_digit b" using number_head [OF assms(1)] assms(2) by (metis list.inject)
  then have l: "literal_of b = []" by (auto simp: literal_of_def is_ascii_digit_def byte_def)
  let ?i = "\<lparr>sc_raw = [], sc_state = 0, sc_literal = literal_of b, sc_offset = 0, sc_digits = [], sc_fraction = 0, sc_omitted = 0,
       sc_exponent = 0, sc_exponent_negative = False, sc_negative = (b = CHR ''-'')\<rparr>"
  have e: "foldl scalar_feed (scalar_new b) bs = foldl scalar_feed ?i (render_number n)"
    by (simp add: assms(2) scalar_new_def)
  have raw: "sc_raw (foldl scalar_feed ?i (render_number n)) = render_number n"
    using assms(3) scalar_feeds(3) [of ?i "render_number n"] by simp
  show "scalar_valid (foldl scalar_feed (scalar_new b) bs)"
    using number_state [OF assms(1)] by (simp add: e scalar_valid_def scalar_feeds l)
  show "scalar_cost env (foldl scalar_feed (scalar_new b) bs) =
      Option.bind (ce_number env (render_number n)) (\<lambda>v. if usable_cost v then Some v else None)"
    using assms(3) raw unfolding e l by (simp add: scalar_cost_def scalar_feeds(1))
qed

lemma delimiter_state:
  assumes "json_whitespace b \<or> b \<in> {CHR '','', CHR ''}'', CHR '']''}"
  shows "next_state q b = 255"
proof -
  from assms have "b \<in> set [CHR '' '', CHR 0x09, CHR 0x0D, CHR 0x0A, CHR '','', CHR ''}'', CHR '']'']"
    by (simp only: json_whitespace_def list.set insert_iff empty_iff) blast
  then show ?thesis
    by (simp only: list.set insert_iff empty_iff, elim disjE) (simp_all add: next_state_def is_ascii_digit_def byte_def)
qed

lemma next_state_live: "next_state q b \<noteq> 255 \<Longrightarrow> \<not> json_whitespace b \<and> b \<notin> {CHR '','', CHR ''}'', CHR '']''}"
  using delimiter_state [of b q] by blast

section \<open>The observer within a token\<close>

lemma feed_append: "observer_feed env ob (bs @ cs) = observer_feed env (observer_feed env ob bs) cs"
  by (simp add: observer_feed_def)

lemma feed_simps [simp]:
  "observer_feed env ob [] = ob"
  "observer_feed env ob (b # bs) = observer_feed env (observe_byte env ob b) bs"
  by (simp_all add: observer_feed_def)

lemma fail_if_False [simp]: "fail_if False ob = ob"
  by (simp add: fail_if_def)

lemma string_run_observed:
  assumes "string_run s bs = Some s'" and "ob_token ob = Some (StringToken s)" and "\<not> ob_failed ob"
  shows "observer_feed env ob bs = ob\<lparr>ob_token := Some (StringToken s')\<rparr>"
  using assms
proof (induction bs arbitrary: s ob)
  case (Cons b bs)
  obtain s1 where s1: "string_byte (s\<lparr>st_raw := push_raw (st_raw s) b\<rparr>) b = (s1, False)" "string_run s1 bs = Some s'"
    "\<not> (\<not> inside_sequence s \<and> b = CHR 0x22)"
    using Cons.prems(1) by (auto split: if_splits prod.splits)
  have "observe_byte env ob b = ob\<lparr>ob_token := Some (StringToken s1)\<rparr>"
    using Cons.prems(2,3) s1(1,3)
    by (cases "inside_sequence s") (simp_all add: observe_byte_def consume_token_def Let_def)
  with Cons.IH [OF s1(2), of "ob\<lparr>ob_token := Some (StringToken s1)\<rparr>"] Cons.prems(3) show ?case by simp
qed simp

text \<open>The text retained for a key: all of it up to 256 bytes, none beyond.\<close>

lemma push_raw_all:
  "foldl push_raw (Some buffer) bs = (if length buffer + length bs \<le> 256 then Some (buffer @ bs) else None)"
  if "length buffer \<le> 256"
  using that
proof (induction bs arbitrary: buffer)
  case (Cons b bs)
  have "foldl push_raw None bs = None" by (induction bs) (simp_all add: push_raw_def)
  moreover have "push_raw (Some buffer) b = (if length buffer < 256 then Some (buffer @ [b]) else None)"
    by (simp add: push_raw_def)
  ultimately show ?case using Cons by simp
qed simp

lemma string_observed:
  assumes "list_all piece_ok ps" and "ob_token ob = Some (new_string key)" and "\<not> ob_failed ob"
  shows "observer_feed env ob (render_pieces ps @ [CHR 0x22]) =
    end_string env ob key (if key \<and> length (quoted ps) \<le> 256 then Some (quoted ps) else None)"
proof -
  let ?s = "\<lparr>st_key = key, st_raw = (if key then Some [CHR 0x22] else None), st_escape = False, st_unicode = 0, st_codepoint = 0,
       st_surrogate = 0, st_utf8 = 0, st_next_min = 0x80, st_next_max = 0xBF\<rparr>"
  have n: "new_string key = StringToken ?s" by (simp add: new_string_def)
  obtain s' where s': "string_run ?s (render_pieces ps) = Some s'" "idle s'" "st_key s' = key" "st_raw s' = with_raw ?s (render_pieces ps)"
    using pieces_run [OF assms(1), of ?s] by (auto simp: idle_def)
  have none: "foldl push_raw None bs = None" for bs by (induction bs) (simp_all add: push_raw_def)
  have raw: "push_raw (st_raw s') (CHR 0x22) = (if key \<and> length (quoted ps) \<le> 256 then Some (quoted ps) else None)"
  proof -
    have "push_raw (st_raw s') (CHR 0x22) = foldl push_raw (st_raw ?s) (render_pieces ps @ [CHR 0x22])"
      by (simp add: s'(4) with_raw_def)
    then show ?thesis
      using push_raw_all [of "[CHR 0x22]" "render_pieces ps @ [CHR 0x22]"] none by (auto simp: quoted_def simp del: foldl_append)
  qed
  have "observer_feed env ob (render_pieces ps) = ob\<lparr>ob_token := Some (StringToken s')\<rparr>"
    using string_run_observed [OF s'(1)] assms(2,3) n by simp
  then have "observer_feed env ob (render_pieces ps @ [CHR 0x22]) =
      end_string env (ob\<lparr>ob_token := Some (StringToken s')\<rparr>) key (push_raw (st_raw s') (CHR 0x22))"
    using assms(3) s'(2,3)
    by (simp add: feed_append observe_byte_def consume_token_def Let_def inside_sequence_def idle_def)
  also have "\<dots> = end_string env ob key (push_raw (st_raw s') (CHR 0x22))"
    by (simp add: end_string_def Let_def)
  finally show ?thesis using raw by simp
qed

lemma scalar_observed:
  assumes "ob_token ob = Some (ScalarToken v path)" and "\<not> ob_failed ob" and "sc_literal v = []"
    and "foldl next_state (sc_state v) bs \<noteq> 255"
  shows "observer_feed env ob bs = ob\<lparr>ob_token := Some (ScalarToken (foldl scalar_feed v bs) path)\<rparr>"
  using assms
proof (induction bs arbitrary: ob v)
  case (Cons b bs)
  have live: "next_state (sc_state v) b \<noteq> 255" using Cons.prems(4) next_states_dead [of bs] by auto
  have "observe_byte env ob b = ob\<lparr>ob_token := Some (ScalarToken (scalar_feed v b) path)\<rparr>"
    using Cons.prems(1-3) live next_state_live [OF live]
    by (simp add: observe_byte_def consume_token_def Let_def scalar_feed_simps)
  with Cons.IH [of "ob\<lparr>ob_token := Some (ScalarToken (scalar_feed v b) path)\<rparr>" "scalar_feed v b"] Cons.prems(2-4)
  show ?case by (simp add: scalar_feed_simps)
qed simp

section \<open>Documents\<close>

datatype doc =
    DTrue
  | DFalse
  | DNull
  | DNumber number
  | DString "piece list"
  | DArray "doc list"
  | DObject "(piece list \<times> doc) list"

text \<open>The text of a document with white space \<open>w\<close> around its tokens.\<close>

fun render :: "string \<Rightarrow> doc \<Rightarrow> string"
  and render_items :: "string \<Rightarrow> doc list \<Rightarrow> string"
  and render_members :: "string \<Rightarrow> (piece list \<times> doc) list \<Rightarrow> string"
where
  "render w DTrue = ''true''"
| "render w DFalse = ''false''"
| "render w DNull = ''null''"
| "render w (DNumber n) = render_number n"
| "render w (DString ps) = quoted ps"
| "render w (DArray ds) = CHR ''['' # w @ render_items w ds @ '']''"
| "render w (DObject ms) = CHR ''{'' # w @ render_members w ms @ ''}''"
| "render_items w [] = []"
| "render_items w (d # ds) = render w d @ w @ (if ds = [] then [] else CHR '','' # w @ render_items w ds)"
| "render_members w [] = []"
| "render_members w ((k, d) # ms) =
     quoted k @ w @ CHR '':'' # w @ render w d @ w @ (if ms = [] then [] else CHR '','' # w @ render_members w ms)"

text \<open>A document of the grammar, with numbers of at most 128 bytes.\<close>

fun doc_ok :: "doc \<Rightarrow> bool" where
  "doc_ok (DNumber n) = (number_ok n \<and> length (render_number n) \<le> 128)"
| "doc_ok (DString ps) = list_all piece_ok ps"
| "doc_ok (DArray ds) = list_all doc_ok ds"
| "doc_ok (DObject ms) = list_all (\<lambda>(k, d). list_all piece_ok k \<and> doc_ok d) ms"
| "doc_ok _ = True"

text \<open>Every key of the document can be read.\<close>

fun keys_read :: "cost_env \<Rightarrow> doc \<Rightarrow> bool" where
  "keys_read env (DArray ds) = list_all (keys_read env) ds"
| "keys_read env (DObject ms) = list_all (\<lambda>(k, d). ce_key env (quoted k) \<noteq> None \<and> keys_read env d) ms"
| "keys_read env _ = True"

fun depth :: "doc \<Rightarrow> nat" where
  "depth (DArray ds) = 1 + foldr max (map depth ds) 0"
| "depth (DObject ms) = 1 + foldr max (map (\<lambda>(k, d). depth d) ms) 0"
| "depth _ = 0"

text \<open>The key a frame records, and what a value at a path does to the remembered costs.\<close>

definition seen_key :: "cost_env \<Rightarrow> piece list \<Rightarrow> string" where
  "seen_key env k = (if length (quoted k) \<le> 256 then the (ce_key env (quoted k)) else [])"

definition clear_costs :: "string list \<Rightarrow> f64 option list \<Rightarrow> f64 option list" where
  "clear_costs path costs = map (\<lambda>(target, c). if path_within path target then None else c) (zip cost_paths costs)"

definition set_costs :: "string list \<Rightarrow> f64 option \<Rightarrow> f64 option list \<Rightarrow> f64 option list" where
  "set_costs path cost costs =
     map (\<lambda>(target, c). if length path = length target \<and> list_all (\<lambda>(a, b). a = b) (zip path target) then cost else c)
       (zip cost_paths costs)"

definition kept_path :: "string list \<Rightarrow> string list" where
  "kept_path path = (if list_ex (path_within path) cost_paths then path else [[]])"

definition number_cost :: "cost_env \<Rightarrow> number \<Rightarrow> f64 option" where
  "number_cost env n = Option.bind (ce_number env (render_number n)) (\<lambda>v. if usable_cost v then Some v else None)"

fun doc_costs :: "cost_env \<Rightarrow> string list \<Rightarrow> doc \<Rightarrow> f64 option list \<Rightarrow> f64 option list"
  and items_costs :: "cost_env \<Rightarrow> string list \<Rightarrow> doc list \<Rightarrow> f64 option list \<Rightarrow> f64 option list"
  and members_costs :: "cost_env \<Rightarrow> string list \<Rightarrow> (piece list \<times> doc) list \<Rightarrow> f64 option list \<Rightarrow> f64 option list"
where
  "doc_costs env path (DNumber n) costs = set_costs (kept_path path) (number_cost env n) (clear_costs path costs)"
| "doc_costs env path (DString ps) costs = clear_costs path costs"
| "doc_costs env path (DArray ds) costs = items_costs env (kept_path path) ds (clear_costs path costs)"
| "doc_costs env path (DObject ms) costs = members_costs env (kept_path path) ms (clear_costs path costs)"
| "doc_costs env path DTrue costs = set_costs (kept_path path) None (clear_costs path costs)"
| "doc_costs env path DFalse costs = set_costs (kept_path path) None (clear_costs path costs)"
| "doc_costs env path DNull costs = set_costs (kept_path path) None (clear_costs path costs)"
| "items_costs env path [] costs = costs"
| "items_costs env path (d # ds) costs = items_costs env path ds (doc_costs env (path @ [[]]) d costs)"
| "members_costs env path [] costs = costs"
| "members_costs env path ((k, d) # ms) costs =
     members_costs env path ms (doc_costs env (path @ [seen_key env k]) d costs)"

section \<open>Reading a document\<close>

text \<open>An observer that is done with a value but for the end of a number.\<close>

definition pending :: "cost_env \<Rightarrow> observer \<Rightarrow> observer \<Rightarrow> bool" where
  "pending env ob ob' =
     (ob_token ob' = None \<and> \<not> ob_failed ob \<and> \<not> ob_failed ob' \<and>
      (ob = ob' \<or> (\<exists>v path. ob_token ob = Some (ScalarToken v path)) \<and> finish_scalar env ob = ob'))"

definition ready :: "observer \<Rightarrow> bool" where
  "ready ob = (ob_token ob = None \<and> ob_started ob \<and> \<not> ob_done ob \<and> \<not> ob_failed ob)"

lemma ready_byte: "ready ob \<Longrightarrow> observe_byte env ob b = structural env ob b"
  by (simp add: ready_def observe_byte_def consume_token_def)

lemma pending_byte:
  assumes "pending env ob ob'" and "json_whitespace b \<or> b \<in> {CHR '','', CHR ''}'', CHR '']''}"
  shows "observe_byte env ob b = structural env ob' b"
  using assms by (auto simp: pending_def observe_byte_def consume_token_def)

lemma pending_refl: "ready ob \<Longrightarrow> pending env ob ob"
  by (simp add: pending_def ready_def)

lemma space_structural: "json_whitespace b \<Longrightarrow> structural env ob b = ob"
  by (simp add: structural_def)

lemma pending_spaces:
  assumes "pending env ob ob'" and "ready ob'" and "list_all json_whitespace w"
  shows "pending env (observer_feed env ob w) ob'"
  using assms
proof (induction w arbitrary: ob)
  case (Cons b w)
  then have "observe_byte env ob b = ob'" using pending_byte [of env ob ob' b] by (simp add: space_structural)
  with Cons pending_refl show ?case by simp
qed simp

lemma ready_spaces: "ready ob \<Longrightarrow> list_all json_whitespace w \<Longrightarrow> observer_feed env ob w = ob"
  by (induction w) (simp_all add: ready_byte space_structural)

text \<open>The top frame waits for a value; the state in which its path is taken.\<close>

definition awaits :: "observer \<Rightarrow> frame \<Rightarrow> frame list \<Rightarrow> string list \<Rightarrow> bool" where
  "awaits ob fr rest path =
     (ready ob \<and> ob_stack ob = fr # rest \<and> fr_expect fr \<in> {Value, ValueOrEnd} \<and>
      (fr_object fr \<longrightarrow> fr_key fr \<noteq> None) \<and>
      path = fr_path fr @ [if fr_object fr then the (fr_key fr) else []])"

definition taken :: "frame \<Rightarrow> frame" where
  "taken fr = fr\<lparr>fr_key := (if fr_object fr then None else fr_key fr), fr_expect := CommaOrEnd\<rparr>"

definition value_done :: "cost_env \<Rightarrow> observer \<Rightarrow> frame \<Rightarrow> frame list \<Rightarrow> string list \<Rightarrow> doc \<Rightarrow> observer" where
  "value_done env ob fr rest path d =
     ob\<lparr>ob_stack := taken fr # rest, ob_costs := doc_costs env path d (ob_costs ob)\<rparr>"

lemma awaits_path:
  assumes "awaits ob fr rest path"
  shows "value_path ob =
    Some (kept_path path, ob\<lparr>ob_stack := taken fr # rest, ob_costs := clear_costs path (ob_costs ob)\<rparr>)"
  using assms by (auto simp: awaits_def value_path_def taken_def kept_path_def clear_costs_def Let_def)

lemma awaits_structural:
  "awaits ob fr rest path \<Longrightarrow> \<not> json_whitespace b \<Longrightarrow> observe_byte env ob b = in_frame env ob fr rest b"
  by (simp add: awaits_def ready_byte structural_def) (simp add: ready_def)

lemma number_literal: "b = CHR ''-'' \<or> is_ascii_digit b \<Longrightarrow> literal_of b = []"
  by (auto simp: literal_of_def is_ascii_digit_def byte_def)

lemma number_byte:
  "b = CHR ''-'' \<or> is_ascii_digit b \<Longrightarrow> \<not> json_whitespace b \<and> b \<noteq> CHR 0x22 \<and> b \<notin> {CHR ''{'', CHR ''[''} \<and>
    b \<notin> {CHR ''}'', CHR '']''} \<and> b \<noteq> CHR '':'' \<and> b \<noteq> CHR '',''"
  by (auto simp: json_whitespace_def is_ascii_digit_def byte_def)

lemma in_frame_scalar:
  assumes "b \<noteq> CHR 0x22" and "b \<notin> {CHR ''{'', CHR ''[''}" and "b \<notin> {CHR ''}'', CHR '']''}" and "b \<noteq> CHR '':''" and "b \<noteq> CHR '',''"
    and "b = CHR ''-'' \<or> is_ascii_digit b \<or> b \<in> {CHR ''t'', CHR ''f'', CHR ''n''}"
  shows "in_frame env ob fr rest b =
    (case value_path ob of None \<Rightarrow> fail_if True ob | Some (path, ob) \<Rightarrow> ob\<lparr>ob_token := Some (ScalarToken (scalar_new b) path)\<rparr>)"
  using assms by (simp only: in_frame_def if_False if_True simp_thms)

lemma number_value:
  assumes "awaits ob fr rest path" and "number_ok n" and "length (render_number n) \<le> 128"
  shows "pending env (observer_feed env ob (render_number n)) (value_done env ob fr rest path (DNumber n))"
proof -
  obtain b bs where r: "render_number n = b # bs" and b: "b = CHR ''-'' \<or> is_ascii_digit b" using number_head [OF assms(2)] .
  let ?ob = "ob\<lparr>ob_stack := taken fr # rest, ob_costs := clear_costs path (ob_costs ob)\<rparr>"
  let ?v = "foldl scalar_feed (scalar_new b) bs"
  have s: "sc_literal (scalar_new b) = []" "foldl next_state (sc_state (scalar_new b)) bs \<noteq> 255"
    using number_state [OF assms(2)] number_literal [OF b] by (auto simp: r scalar_new_def scalar_feed_simps)
  have "observe_byte env ob b = ?ob\<lparr>ob_token := Some (ScalarToken (scalar_new b) (kept_path path))\<rparr>"
  proof -
    have "in_frame env ob fr rest b =
      (case value_path ob of None \<Rightarrow> fail_if True ob | Some (path, ob) \<Rightarrow> ob\<lparr>ob_token := Some (ScalarToken (scalar_new b) path)\<rparr>)"
      using number_byte [OF b] b by (intro in_frame_scalar) auto
    with awaits_structural [OF assms(1), of b env] number_byte [OF b] awaits_path [OF assms(1)] show ?thesis by simp
  qed
  then have fed: "observer_feed env ob (render_number n) = ?ob\<lparr>ob_token := Some (ScalarToken ?v (kept_path path))\<rparr>"
    using scalar_observed [of "?ob\<lparr>ob_token := Some (ScalarToken (scalar_new b) (kept_path path))\<rparr>" "scalar_new b" "kept_path path" bs] s assms(1)
    by (simp add: r awaits_def ready_def)
  have "finish_scalar env (?ob\<lparr>ob_token := Some (ScalarToken ?v (kept_path path))\<rparr>) = value_done env ob fr rest path (DNumber n)"
    using number_token [OF assms(2) r assms(3)] assms(1)
    by (simp add: finish_scalar_def value_done_def set_costs_def number_cost_def Let_def awaits_def ready_def)
  with fed assms(1) show ?thesis by (auto simp: pending_def value_done_def awaits_def ready_def)
qed

lemma literal_observed:
  assumes "ob_token ob = Some (ScalarToken v path)" and "\<not> ob_failed ob" and "sc_literal v = l" and "l \<noteq> []"
    and "sc_state v = 0" and "drop (sc_offset v) l = bs" and "sc_offset v + length bs = length l"
    and "list_all (\<lambda>c. \<not> json_whitespace c \<and> c \<notin> {CHR '','', CHR ''}'', CHR '']''}) bs"
  shows "\<exists>v'. observer_feed env ob bs = ob\<lparr>ob_token := Some (ScalarToken v' path)\<rparr> \<and> scalar_valid v' \<and> sc_literal v' = l"
  using assms
proof (induction bs arbitrary: ob v)
  case Nil
  then have "scalar_valid v" by (simp add: scalar_valid_def)
  moreover have "ob\<lparr>ob_token := Some (ScalarToken v path)\<rparr> = ob" using Nil.prems(1) by simp
  ultimately show ?case using Nil.prems(3) by (intro exI [of _ v]) simp
next
  case (Cons b bs)
  have at: "sc_offset v < length l" "l ! sc_offset v = b" "drop (Suc (sc_offset v)) l = bs"
    using Cons.prems(6,7) nth_via_drop [OF Cons.prems(6)] by (simp_all add: drop_Suc drop_tl)
  let ?v = "scalar_feed v b"
  have v: "sc_literal ?v = l" "sc_state ?v = 0" "sc_offset ?v = Suc (sc_offset v)"
    using Cons.prems(3-5) at by (simp_all add: scalar_feed_def Let_def)
  have "observe_byte env ob b = ob\<lparr>ob_token := Some (ScalarToken ?v path)\<rparr>"
    using Cons.prems(1,2,8) v by (simp add: observe_byte_def consume_token_def Let_def)
  moreover have "\<exists>v'. observer_feed env (ob\<lparr>ob_token := Some (ScalarToken ?v path)\<rparr>) bs =
      ob\<lparr>ob_token := Some (ScalarToken ?v path)\<rparr>\<lparr>ob_token := Some (ScalarToken v' path)\<rparr> \<and> scalar_valid v' \<and> sc_literal v' = l"
    using Cons.prems(2,4,7,8) v at by (intro Cons.IH [of _ ?v]) simp_all
  ultimately show ?case by simp
qed

lemma literal_value:
  assumes "awaits ob fr rest path" and "literal_of b = b # bs" and "b \<in> {CHR ''t'', CHR ''f'', CHR ''n''}" and "d \<in> {DTrue, DFalse, DNull}"
    and "list_all (\<lambda>c. \<not> json_whitespace c \<and> c \<notin> {CHR '','', CHR ''}'', CHR '']''}) bs"
  shows "pending env (observer_feed env ob (b # bs)) (value_done env ob fr rest path d)"
proof -
  let ?ob = "ob\<lparr>ob_stack := taken fr # rest, ob_costs := clear_costs path (ob_costs ob)\<rparr>"
  have "\<not> json_whitespace b" "b \<noteq> CHR 0x22" "b \<notin> {CHR ''{'', CHR ''[''}" "b \<notin> {CHR ''}'', CHR '']''}" "b \<noteq> CHR '':''" "b \<noteq> CHR '',''"
    using assms(3) by (auto simp: json_whitespace_def)
  then have first: "observe_byte env ob b = ?ob\<lparr>ob_token := Some (ScalarToken (scalar_new b) (kept_path path))\<rparr>"
    using awaits_structural [OF assms(1), of b env] awaits_path [OF assms(1)] assms(3) by (simp add: in_frame_scalar)
  have v: "sc_literal (scalar_new b) = b # bs" "sc_state (scalar_new b) = 0" "sc_offset (scalar_new b) = 1"
    using assms(2) by (simp_all add: scalar_new_def scalar_feed_def Let_def)
  obtain v' where v': "observer_feed env ob (b # bs) = ?ob\<lparr>ob_token := Some (ScalarToken v' (kept_path path))\<rparr>"
    "scalar_valid v'" "sc_literal v' = b # bs"
    using literal_observed [of "?ob\<lparr>ob_token := Some (ScalarToken (scalar_new b) (kept_path path))\<rparr>" "scalar_new b" "kept_path path" "b # bs" bs env]
      v first assms(1,5) by (auto simp: awaits_def ready_def)
  have "doc_costs env path d (ob_costs ob) = set_costs (kept_path path) None (clear_costs path (ob_costs ob))"
    using assms(4) by auto
  then have "finish_scalar env (?ob\<lparr>ob_token := Some (ScalarToken v' (kept_path path))\<rparr>) = value_done env ob fr rest path d"
    using v'(2,3) assms(1) by (simp add: finish_scalar_def value_done_def set_costs_def Let_def scalar_cost_def awaits_def ready_def)
  with v'(1) assms(1) show ?thesis by (auto simp: pending_def value_done_def awaits_def ready_def)
qed

lemma string_value:
  assumes "awaits ob fr rest path" and "list_all piece_ok ps"
  shows "observer_feed env ob (quoted ps) = value_done env ob fr rest path (DString ps)"
proof -
  let ?ob = "ob\<lparr>ob_stack := taken fr # rest, ob_costs := clear_costs path (ob_costs ob), ob_token := Some (new_string False)\<rparr>"
  have "\<not> (fr_object fr \<and> fr_expect fr \<in> {Key, KeyOrEnd})" using assms(1) by (auto simp: awaits_def)
  then have "observe_byte env ob (CHR 0x22) = ?ob"
    using awaits_structural [OF assms(1), of "CHR 0x22" env] awaits_path [OF assms(1)]
    by (auto simp: in_frame_def json_whitespace_def)
  with string_observed [OF assms(2), of ?ob False env] assms(1) show ?thesis
    by (simp add: quoted_def end_string_def value_done_def awaits_def ready_def)
qed

text \<open>Opening and closing a container.\<close>

lemma open_container:
  assumes "awaits ob fr rest path" and "length (ob_stack ob) < 128" and "b \<in> {CHR ''{'', CHR ''[''}"
  shows "observe_byte env ob b =
    ob\<lparr>ob_stack := \<lparr>fr_object = (b = CHR ''{''), fr_expect = (if b = CHR ''{'' then KeyOrEnd else ValueOrEnd), fr_path = kept_path path,
        fr_key = None\<rparr> # taken fr # rest, ob_costs := clear_costs path (ob_costs ob)\<rparr>"
proof -
  have "\<not> json_whitespace b" "b \<noteq> CHR 0x22" using assms(3) by (auto simp: json_whitespace_def)
  then have "observe_byte env ob b = (case value_path ob of
              None \<Rightarrow> fail_if True ob
            | Some (path, ob) \<Rightarrow>
                if 128 \<le> length (ob_stack ob) then fail_if True ob
                else let object = (b = CHR ''{'')
                     in ob\<lparr>ob_stack := \<lparr>fr_object = object, fr_expect = (if object then KeyOrEnd else ValueOrEnd), fr_path = path,
                             fr_key = None\<rparr> # ob_stack ob\<rparr>)"
    using awaits_structural [OF assms(1), of b env] assms(3) by (simp only: in_frame_def if_False if_True not_False_eq_True)
  with awaits_path [OF assms(1)] assms(1,2) show ?thesis by (simp add: awaits_def)
qed

lemma close_container:
  assumes "pending env ob ob'" and "ready ob'" and "ob_stack ob' = fr # fr' # rest"
    and "b = (if fr_object fr then CHR ''}'' else CHR '']'')" and "fr_expect fr \<in> {KeyOrEnd, ValueOrEnd, CommaOrEnd}"
  shows "observe_byte env ob b = ob'\<lparr>ob_stack := fr' # rest\<rparr>"
proof -
  have "observe_byte env ob b = structural env ob' b"
    using assms(4) by (intro pending_byte [OF assms(1)]) auto
  moreover have "\<not> json_whitespace b" using assms(4) by (auto simp: json_whitespace_def)
  ultimately have "observe_byte env ob b = in_frame env ob' fr (fr' # rest) b"
    using assms(2,3) by (simp add: structural_def ready_def)
  then show ?thesis using assms(2,4,5) by (auto simp: in_frame_def ready_def)
qed

text \<open>A comma after a value.\<close>

lemma comma_next:
  assumes "pending env ob ob'" and "ready ob'" and "ob_stack ob' = fr # rest" and "fr_expect fr = CommaOrEnd"
  shows "observe_byte env ob (CHR '','') = ob'\<lparr>ob_stack := fr\<lparr>fr_expect := (if fr_object fr then Key else Value)\<rparr> # rest\<rparr>"
proof -
  have "observe_byte env ob (CHR '','') = structural env ob' (CHR '','')" by (rule pending_byte [OF assms(1)]) simp
  also have "\<dots> = in_frame env ob' fr rest (CHR '','')" using assms(2,3) by (simp add: structural_def ready_def json_whitespace_def)
  finally show ?thesis using assms(3,4) by (simp add: in_frame_def set_expect_def)
qed

text \<open>A key with its colon.\<close>

lemma key_read:
  assumes "ready ob" and "ob_stack ob = fr # rest" and "fr_object fr" and "fr_expect fr \<in> {Key, KeyOrEnd}"
    and "list_all piece_ok k" and "ce_key env (quoted k) \<noteq> None" and "list_all json_whitespace w"
  shows "observer_feed env ob (quoted k @ w @ CHR '':'' # w) =
    ob\<lparr>ob_stack := fr\<lparr>fr_key := Some (seen_key env k), fr_expect := Value\<rparr> # rest\<rparr>"
proof -
  let ?ob1 = "ob\<lparr>ob_token := Some (new_string True)\<rparr>"
  let ?ob2 = "ob\<lparr>ob_stack := fr\<lparr>fr_key := Some (seen_key env k), fr_expect := Colon\<rparr> # rest\<rparr>"
  let ?ob3 = "ob\<lparr>ob_stack := fr\<lparr>fr_key := Some (seen_key env k), fr_expect := Value\<rparr> # rest\<rparr>"
  have "observe_byte env ob (CHR 0x22) = ?ob1"
    using assms(1-4) by (simp add: ready_byte structural_def in_frame_def json_whitespace_def ready_def)
  moreover have "observer_feed env ?ob1 (render_pieces k @ [CHR 0x22]) =
      end_string env ?ob1 True (if length (quoted k) \<le> 256 then Some (quoted k) else None)"
    using string_observed [OF assms(5), of ?ob1 True env] assms(1) by (simp add: ready_def)
  moreover have "end_string env ?ob1 True (if length (quoted k) \<le> 256 then Some (quoted k) else None) = ?ob2"
    using assms(1,2,6) by (auto simp: end_string_def seen_key_def ready_def)
  ultimately have q: "observer_feed env ob (quoted k) = ?ob2" by (simp add: quoted_def)
  have r: "ready ?ob2" "ready ?ob3" using assms(1) by (simp_all add: ready_def)
  have "observe_byte env ?ob2 (CHR '':'') = ?ob3"
    using r(1) assms(1,3) by (simp add: ready_byte structural_def in_frame_def json_whitespace_def set_expect_def ready_def)
  with q r assms(7) show ?thesis by (simp add: feed_append ready_spaces)
qed

definition opened :: "observer \<Rightarrow> frame \<Rightarrow> frame list \<Rightarrow> string list \<Rightarrow> bool \<Rightarrow> observer" where
  "opened ob fr rest path object =
     ob\<lparr>ob_stack := \<lparr>fr_object = object, fr_expect = (if object then KeyOrEnd else ValueOrEnd), fr_path = kept_path path,
        fr_key = None\<rparr> # taken fr # rest, ob_costs := clear_costs path (ob_costs ob)\<rparr>"

lemma container_read:
  assumes "awaits ob fr rest path" and "length (ob_stack ob) < 128" and "list_all json_whitespace w"
    and "pending env (observer_feed env (opened ob fr rest path object) inner)
      (ob\<lparr>ob_stack := f # taken fr # rest, ob_costs := costs\<rparr>)"
    and "fr_object f = object" and "fr_expect f \<in> {KeyOrEnd, ValueOrEnd, CommaOrEnd}"
  shows "observer_feed env ob ((if object then CHR ''{'' else CHR ''['') # w @ inner @ [if object then CHR ''}'' else CHR '']'']) =
    ob\<lparr>ob_stack := taken fr # rest, ob_costs := costs\<rparr>"
proof -
  have r: "ready (opened ob fr rest path object)" "ready (ob\<lparr>ob_stack := f # taken fr # rest, ob_costs := costs\<rparr>)"
    using assms(1) by (simp_all add: awaits_def ready_def opened_def)
  have "observe_byte env ob (if object then CHR ''{'' else CHR ''['') = opened ob fr rest path object"
    using open_container [OF assms(1,2), of "if object then CHR ''{'' else CHR ''[''" env] by (simp add: opened_def)
  moreover have "observe_byte env (observer_feed env (opened ob fr rest path object) inner) (if object then CHR ''}'' else CHR '']'') =
      ob\<lparr>ob_stack := taken fr # rest, ob_costs := costs\<rparr>"
    using close_container [OF assms(4) r(2), of f "taken fr" rest "if object then CHR ''}'' else CHR '']''"] assms(5,6) by simp
  ultimately show ?thesis using ready_spaces [OF r(1) assms(3), of env] by (simp add: feed_append)
qed

lemma pending_eq: "awaits ob fr rest path \<Longrightarrow> x = value_done env ob fr rest path d \<Longrightarrow> pending env x (value_done env ob fr rest path d)"
  by (simp add: pending_def value_done_def awaits_def ready_def)

lemma document_read:
  assumes "list_all json_whitespace w"
  shows "awaits ob fr rest path \<Longrightarrow> doc_ok d \<and> keys_read env d \<Longrightarrow> length (ob_stack ob) + depth d \<le> 128 \<Longrightarrow>
      pending env (observer_feed env ob (render w d)) (value_done env ob fr rest path d)"
    and "ready oi \<Longrightarrow> ob_stack oi = fi # ri \<Longrightarrow> \<not> fr_object fi \<Longrightarrow> fr_expect fi \<in> {Value, ValueOrEnd} \<Longrightarrow> ds \<noteq> [] \<Longrightarrow>
      list_all (\<lambda>d. doc_ok d \<and> keys_read env d) ds \<Longrightarrow> length (ob_stack oi) + foldr max (map depth ds) 0 \<le> 128 \<Longrightarrow>
      pending env (observer_feed env oi (render_items w ds))
        (oi\<lparr>ob_stack := fi\<lparr>fr_expect := CommaOrEnd\<rparr> # ri, ob_costs := items_costs env (fr_path fi) ds (ob_costs oi)\<rparr>)"
    and "ready om \<Longrightarrow> ob_stack om = fm # rm \<Longrightarrow> fr_object fm \<Longrightarrow> fr_expect fm \<in> {Key, KeyOrEnd} \<Longrightarrow> ms \<noteq> [] \<Longrightarrow>
      list_all (\<lambda>(k, d). list_all piece_ok k \<and> ce_key env (quoted k) \<noteq> None \<and> doc_ok d \<and> keys_read env d) ms \<Longrightarrow>
      length (ob_stack om) + foldr max (map (\<lambda>(k, d). depth d) ms) 0 \<le> 128 \<Longrightarrow>
      pending env (observer_feed env om (render_members w ms))
        (om\<lparr>ob_stack := fm\<lparr>fr_key := None, fr_expect := CommaOrEnd\<rparr> # rm, ob_costs := members_costs env (fr_path fm) ms (ob_costs om)\<rparr>)"
  using assms(1)
proof (induction w d and w ds and w ms arbitrary: ob fr rest path and oi fi ri and om fm rm
    rule: render_render_items_render_members.induct)
  case (1 w)
  then show ?case using literal_value [of ob fr rest path "CHR ''t''" "''rue''" DTrue env]
    by (simp add: literal_of_def json_whitespace_def)
next
  case (2 w)
  then show ?case using literal_value [of ob fr rest path "CHR ''f''" "''alse''" DFalse env]
    by (simp add: literal_of_def json_whitespace_def)
next
  case (3 w)
  then show ?case using literal_value [of ob fr rest path "CHR ''n''" "''ull''" DNull env]
    by (simp add: literal_of_def json_whitespace_def)
next
  case (4 w n)
  then show ?case using number_value by simp
next
  case (5 w ps)
  then show ?case using string_value [of ob fr rest path ps env]
    by (simp add: pending_def value_done_def awaits_def ready_def)
next
  case (6 w ds)
  let ?f = "\<lparr>fr_object = False, fr_expect = ValueOrEnd, fr_path = kept_path path, fr_key = None\<rparr>"
  let ?o = "opened ob fr rest path False"
  have o: "ready ?o" "ob_stack ?o = ?f # taken fr # rest" "ob_costs ?o = clear_costs path (ob_costs ob)"
    using "6.prems"(1) by (simp_all add: awaits_def ready_def opened_def)
  have "\<exists>f. pending env (observer_feed env ?o (render_items w ds)) (ob\<lparr>ob_stack := f # taken fr # rest,
      ob_costs := items_costs env (kept_path path) ds (clear_costs path (ob_costs ob))\<rparr>) \<and>
    \<not> fr_object f \<and> fr_expect f \<in> {KeyOrEnd, ValueOrEnd, CommaOrEnd}"
  proof (cases "ds = []")
    case True
    then show ?thesis using pending_refl [OF o(1), of env] by (intro exI [of _ ?f]) (simp add: opened_def)
  next
    case False
    have "pending env (observer_feed env ?o (render_items w ds)) (?o\<lparr>ob_stack := ?f\<lparr>fr_expect := CommaOrEnd\<rparr> # taken fr # rest,
        ob_costs := items_costs env (fr_path ?f) ds (ob_costs ?o)\<rparr>)"
      using "6.prems" False o(1,2) by (intro "6.IH") (simp_all add: awaits_def list_all_iff)
    then show ?thesis using o(3) by (intro exI [of _ "?f\<lparr>fr_expect := CommaOrEnd\<rparr>"]) (simp add: opened_def)
  qed
  then obtain f where f: "pending env (observer_feed env ?o (render_items w ds)) (ob\<lparr>ob_stack := f # taken fr # rest,
      ob_costs := items_costs env (kept_path path) ds (clear_costs path (ob_costs ob))\<rparr>)"
    "\<not> fr_object f" "fr_expect f \<in> {KeyOrEnd, ValueOrEnd, CommaOrEnd}" by blast
  show ?case
    using container_read [OF "6.prems"(1) _ "6.prems"(4) f(1) _ f(3)] f(2) "6.prems"(1,3)
    by (intro pending_eq) (simp_all add: value_done_def)
next
  case (7 w ms)
  let ?f = "\<lparr>fr_object = True, fr_expect = KeyOrEnd, fr_path = kept_path path, fr_key = None\<rparr>"
  let ?o = "opened ob fr rest path True"
  have o: "ready ?o" "ob_stack ?o = ?f # taken fr # rest" "ob_costs ?o = clear_costs path (ob_costs ob)"
    using "7.prems"(1) by (simp_all add: awaits_def ready_def opened_def)
  have "\<exists>f. pending env (observer_feed env ?o (render_members w ms)) (ob\<lparr>ob_stack := f # taken fr # rest,
      ob_costs := members_costs env (kept_path path) ms (clear_costs path (ob_costs ob))\<rparr>) \<and>
    fr_object f \<and> fr_expect f \<in> {KeyOrEnd, ValueOrEnd, CommaOrEnd}"
  proof (cases "ms = []")
    case True
    then show ?thesis using pending_refl [OF o(1), of env] by (intro exI [of _ ?f]) (simp add: opened_def)
  next
    case False
    have "pending env (observer_feed env ?o (render_members w ms)) (?o\<lparr>ob_stack := ?f\<lparr>fr_key := None, fr_expect := CommaOrEnd\<rparr> # taken fr # rest,
        ob_costs := members_costs env (fr_path ?f) ms (ob_costs ?o)\<rparr>)"
      using "7.prems" False o(1,2) by (intro "7.IH") (auto simp: awaits_def list_all_iff)
    then show ?thesis using o(3) by (intro exI [of _ "?f\<lparr>fr_key := None, fr_expect := CommaOrEnd\<rparr>"]) (simp add: opened_def)
  qed
  then obtain f where f: "pending env (observer_feed env ?o (render_members w ms)) (ob\<lparr>ob_stack := f # taken fr # rest,
      ob_costs := members_costs env (kept_path path) ms (clear_costs path (ob_costs ob))\<rparr>)"
    "fr_object f" "fr_expect f \<in> {KeyOrEnd, ValueOrEnd, CommaOrEnd}" by blast
  show ?case
    using container_read [OF "7.prems"(1) _ "7.prems"(4) f(1) _ f(3)] f(2) "7.prems"(1,3)
    by (intro pending_eq) (simp_all add: value_done_def)
next
  case (8 w)
  then show ?case by simp
next
  case (9 w d ds)
  let ?p = "fr_path fi @ [[]]"
  let ?d = "value_done env oi fi ri ?p d"
  have a: "awaits oi fi ri ?p" using "9.prems" by (simp add: awaits_def)
  have "pending env (observer_feed env oi (render w d)) ?d"
    using "9.prems" a by (intro "9.IH"(1)) simp_all
  moreover have rd: "ready ?d" using "9.prems"(1) by (simp add: ready_def value_done_def)
  ultimately have p: "pending env (observer_feed env oi (render w d @ w)) ?d"
    using "9.prems"(8) by (simp add: feed_append pending_spaces)
  show ?case
  proof (cases "ds = []")
    case True
    with p "9.prems"(3) show ?thesis by (simp add: value_done_def taken_def)
  next
    case False
    let ?c = "?d\<lparr>ob_stack := (taken fi)\<lparr>fr_expect := Value\<rparr> # ri\<rparr>"
    have "observe_byte env (observer_feed env oi (render w d @ w)) (CHR '','') = ?c"
      using comma_next [OF p rd, of "taken fi" ri] "9.prems"(3) by (simp add: value_done_def taken_def)
    moreover have rc: "ready ?c" using rd by (simp add: ready_def)
    ultimately have "observer_feed env oi (render w d @ w @ CHR '','' # w) = ?c"
      using ready_spaces [OF rc "9.prems"(8), of env] by (simp add: feed_append)
    then have fed: "observer_feed env oi (render_items w (d # ds)) = observer_feed env ?c (render_items w ds)"
      using False by (simp add: feed_append)
    have "pending env (observer_feed env ?c (render_items w ds))
        (?c\<lparr>ob_stack := (taken fi)\<lparr>fr_expect := Value\<rparr>\<lparr>fr_expect := CommaOrEnd\<rparr> # ri,
          ob_costs := items_costs env (fr_path ((taken fi)\<lparr>fr_expect := Value\<rparr>)) ds (ob_costs ?c)\<rparr>)"
      using "9.prems" False rc by (intro "9.IH"(2)) (simp_all add: taken_def)
    then show ?thesis unfolding fed using "9.prems"(3) by (simp add: value_done_def taken_def)
  qed
next
  case (10 w)
  then show ?case by simp
next
  case (11 w k d ms)
  let ?f = "fm\<lparr>fr_key := Some (seen_key env k), fr_expect := Value\<rparr>"
  let ?o = "om\<lparr>ob_stack := ?f # rm\<rparr>"
  let ?p = "fr_path fm @ [seen_key env k]"
  let ?d = "value_done env ?o ?f rm ?p d"
  have key: "observer_feed env om (quoted k @ w @ CHR '':'' # w) = ?o"
    using "11.prems" by (intro key_read) simp_all
  have a: "awaits ?o ?f rm ?p" using "11.prems" by (simp add: awaits_def ready_def)
  have "pending env (observer_feed env ?o (render w d)) ?d"
    using "11.prems" a by (intro "11.IH"(1)) simp_all
  moreover have rd: "ready ?d" using "11.prems"(1) by (simp add: ready_def value_done_def)
  ultimately have p: "pending env (observer_feed env ?o (render w d @ w)) ?d"
    using "11.prems"(8) by (simp add: feed_append pending_spaces)
  show ?case
  proof (cases "ms = []")
    case True
    have "observer_feed env om (render_members w ((k, d) # ms)) = observer_feed env ?o (render w d @ w)"
      using key True by (simp add: feed_append)
    with p "11.prems"(3) True show ?thesis by (simp add: value_done_def taken_def)
  next
    case False
    let ?c = "?d\<lparr>ob_stack := (taken ?f)\<lparr>fr_expect := Key\<rparr> # rm\<rparr>"
    have "observe_byte env (observer_feed env ?o (render w d @ w)) (CHR '','') = ?c"
      using comma_next [OF p rd, of "taken ?f" rm] "11.prems"(3) by (simp add: value_done_def taken_def)
    moreover have rc: "ready ?c" using rd by (simp add: ready_def)
    ultimately have "observer_feed env ?o (render w d @ w @ CHR '','' # w) = ?c"
      using ready_spaces [OF rc "11.prems"(8), of env] by (simp add: feed_append)
    then have fed: "observer_feed env om (render_members w ((k, d) # ms)) = observer_feed env ?c (render_members w ms)"
      using False key by (simp add: feed_append)
    have "pending env (observer_feed env ?c (render_members w ms))
        (?c\<lparr>ob_stack := (taken ?f)\<lparr>fr_expect := Key\<rparr>\<lparr>fr_key := None, fr_expect := CommaOrEnd\<rparr> # rm,
          ob_costs := members_costs env (fr_path ((taken ?f)\<lparr>fr_expect := Key\<rparr>)) ms (ob_costs ?c)\<rparr>)"
      using "11.prems" False rc by (intro "11.IH"(2)) (simp_all add: taken_def)
    then show ?thesis unfolding fed using "11.prems"(3) by (simp add: value_done_def taken_def)
  qed
qed

section \<open>What is remembered\<close>

lemma path_within_prefix: "path_within path target = prefix path target"
  unfolding path_within_def
proof (induction path target rule: list_induct2')
qed auto

lemma path_equal: "(length path = length target \<and> list_all (\<lambda>(a, b). a = b) (zip path target)) = (path = target)"
  by (induction path target rule: list_induct2') auto

lemma cost_path_names: "i < 6 \<Longrightarrow> cost_paths ! i \<noteq> [] \<and> [] \<notin> set (cost_paths ! i)"
  by (auto simp: cost_paths_def less_Suc_eq numeral_eq_Suc)

lemma clear_costs_nth:
  "i < 6 \<Longrightarrow> length costs = 6 \<Longrightarrow> clear_costs path costs ! i = (if prefix path (cost_paths ! i) then None else costs ! i)"
  by (simp add: clear_costs_def path_within_prefix cost_paths_length)

lemma set_costs_nth:
  "i < 6 \<Longrightarrow> length costs = 6 \<Longrightarrow> set_costs path c costs ! i = (if path = cost_paths ! i then c else costs ! i)"
  by (simp add: set_costs_def path_equal cost_paths_length)

lemma costs_length [simp]:
  "length costs = 6 \<Longrightarrow> length (clear_costs path costs) = 6"
  "length costs = 6 \<Longrightarrow> length (set_costs path c costs) = 6"
  by (simp_all add: clear_costs_def set_costs_def cost_paths_length)

lemma doc_costs_length:
  "length costs = 6 \<Longrightarrow> length (doc_costs env path d costs) = 6"
  "length costs = 6 \<Longrightarrow> length (items_costs env path ds costs) = 6"
  "length costs = 6 \<Longrightarrow> length (members_costs env path ms costs) = 6"
  by (induction env path d costs and env path ds costs and env path ms costs rule: doc_costs_items_costs_members_costs.induct)
    simp_all

lemma kept_path_cases:
  assumes "i < 6"
  shows "prefix path (cost_paths ! i) \<Longrightarrow> kept_path path = path"
    and "\<not> prefix path (cost_paths ! i) \<Longrightarrow> \<not> prefix (kept_path path) (cost_paths ! i)"
proof -
  show "prefix path (cost_paths ! i) \<Longrightarrow> kept_path path = path"
    using assms by (auto simp: kept_path_def list_ex_iff path_within_prefix cost_paths_length [symmetric])
  have "\<not> prefix [[]] (cost_paths ! i)"
    using cost_path_names [OF assms] by (cases "cost_paths ! i") auto
  then show "\<not> prefix path (cost_paths ! i) \<Longrightarrow> \<not> prefix (kept_path path) (cost_paths ! i)"
    by (simp add: kept_path_def)
qed

text \<open>The cost at a path of a document: the last member of a name counts.\<close>

fun cost_at :: "cost_env \<Rightarrow> string list \<Rightarrow> doc \<Rightarrow> f64 option" where
  "cost_at env [] (DNumber n) = number_cost env n"
| "cost_at env (k # ks) (DObject ms) =
     Option.bind (map_of (rev (map (\<lambda>(k, d). (seen_key env k, d)) ms)) k) (cost_at env ks)"
| "cost_at env _ _ = None"

lemma cost_at_none [simp]:
  "cost_at env ts DTrue = None" "cost_at env ts DFalse = None" "cost_at env ts DNull = None"
  "cost_at env ts (DString ps) = None" "cost_at env ts (DArray ds) = None"
  by (cases ts; simp)+

lemma literal_costs_nth:
  assumes "i < 6" and "length costs = 6"
  shows "set_costs (kept_path path) None (clear_costs path costs) ! i = (if prefix path (cost_paths ! i) then None else costs ! i)"
proof (cases "prefix path (cost_paths ! i)")
  case True
  with assms show ?thesis by (simp add: set_costs_nth clear_costs_nth)
next
  case False
  with assms kept_path_cases(2) [OF assms(1) False] show ?thesis by (auto simp: set_costs_nth clear_costs_nth)
qed

lemma doc_costs_nth:
  "i < 6 \<Longrightarrow> length costs = 6 \<Longrightarrow> doc_costs env path d costs ! i =
     (if prefix path (cost_paths ! i) then cost_at env (drop (length path) (cost_paths ! i)) d else costs ! i)"
  "i < 6 \<Longrightarrow> length costs = 6 \<Longrightarrow> items_costs env path ds costs ! i = costs ! i"
  "i < 6 \<Longrightarrow> length costs = 6 \<Longrightarrow> members_costs env path ms costs ! i =
     (if prefix path (cost_paths ! i) \<and> path \<noteq> cost_paths ! i
      then (case map_of (rev (map (\<lambda>(k, d). (seen_key env k, d)) ms)) (cost_paths ! i ! length path) of
              Some d \<Rightarrow> cost_at env (drop (Suc (length path)) (cost_paths ! i)) d
            | None \<Rightarrow> costs ! i)
      else costs ! i)"
proof (induction env path d costs and env path ds costs and env path ms costs rule: doc_costs_items_costs_members_costs.induct)
  case (1 env path n costs)
  let ?t = "cost_paths ! i"
  show ?case
  proof (cases "prefix path ?t")
    case True
    then obtain r where r: "?t = path @ r" by (auto simp: prefix_def)
    with 1 True kept_path_cases(1) [OF 1(1) True] show ?thesis
      by (cases r) (simp_all add: set_costs_nth clear_costs_nth)
  next
    case False
    with 1 kept_path_cases(2) [OF 1(1) False] show ?thesis by (auto simp: set_costs_nth clear_costs_nth)
  qed
next
  case (4 env path ms costs)
  let ?t = "cost_paths ! i"
  show ?case
  proof (cases "prefix path ?t")
    case True
    then obtain r where r: "?t = path @ r" by (auto simp: prefix_def)
    with 4 True kept_path_cases(1) [OF "4.prems"(1) True] show ?thesis
      by (cases r) (auto simp: clear_costs_nth split: option.split)
  next
    case False
    with 4 kept_path_cases(2) [OF "4.prems"(1) False] show ?thesis by (simp add: clear_costs_nth)
  qed
next
  case (9 env path d ds costs)
  have "\<not> prefix (path @ [[]]) (cost_paths ! i)"
    using cost_path_names [OF "9.prems"(1)] by (auto simp: prefix_def)
  with 9 show ?case by (simp add: doc_costs_length)
next
  case (11 env path k d ms costs)
  let ?t = "cost_paths ! i"
  let ?c = "doc_costs env (path @ [seen_key env k]) d costs"
  have c: "?c ! i = (if prefix (path @ [seen_key env k]) ?t then cost_at env (drop (length (path @ [seen_key env k])) ?t) d else costs ! i)"
    using 11 by blast
  have ms: "members_costs env path ms ?c ! i =
     (if prefix path ?t \<and> path \<noteq> ?t
      then (case map_of (rev (map (\<lambda>(k, d). (seen_key env k, d)) ms)) (?t ! length path) of
              Some d \<Rightarrow> cost_at env (drop (Suc (length path)) ?t) d
            | None \<Rightarrow> ?c ! i)
      else ?c ! i)"
    using 11 by (simp add: doc_costs_length)
  show ?case
  proof (cases "prefix path ?t \<and> path \<noteq> ?t")
    case True
    then obtain x r where t: "?t = path @ x # r" by (auto simp: prefix_def neq_Nil_conv)
    show ?thesis unfolding members_costs.simps ms c
      using True by (auto simp: t map_add_def split: option.split)
  next
    case False
    have "\<not> prefix (path @ [seen_key env k]) ?t" using False by (auto simp: prefix_def)
    then show ?thesis unfolding members_costs.simps ms c if_not_P [OF False] by simp
  qed
qed (simp_all add: literal_costs_nth clear_costs_nth)

section \<open>Whole documents\<close>

text \<open>A response is a JSON object, with white space around it.\<close>

definition body_text :: "string \<Rightarrow> (piece list \<times> doc) list \<Rightarrow> string" where
  "body_text w ms = w @ render w (DObject ms) @ w"

definition root :: frame where
  "root = \<lparr>fr_object = True, fr_expect = KeyOrEnd, fr_path = [], fr_key = None\<rparr>"

definition observed :: "cost_env \<Rightarrow> string \<Rightarrow> observer" where
  "observed env body = observer_finish env (observer_feed env observer_default body)"

lemma idle_spaces:
  assumes "ob_token ob = None" and "\<not> ob_failed ob" and "list_all json_whitespace w"
  shows "observer_feed env ob w = ob"
  using assms(3,1,2) by (induction w) (simp_all add: observe_byte_def consume_token_def space_structural)

lemma body_read:
  assumes "list_all json_whitespace w" and "doc_ok (DObject ms)" and "keys_read env (DObject ms)" and "depth (DObject ms) \<le> 128"
  shows "observed env (body_text w ms) =
    observer_default\<lparr>ob_started := True, ob_done := True, ob_costs := members_costs env [] ms (replicate 6 None)\<rparr>"
proof -
  let ?o = "observer_default\<lparr>ob_started := True, ob_stack := [root]\<rparr>"
  let ?costs = "members_costs env [] ms (replicate 6 None)"
  have r: "ready ?o" by (simp add: ready_def observer_default_def)
  have "observe_byte env observer_default (CHR ''{'') = ?o"
    by (simp add: observe_byte_def consume_token_def structural_def json_whitespace_def observer_default_def root_def)
  moreover have "observer_feed env observer_default w = observer_default"
    using assms(1) by (intro idle_spaces) (simp_all add: observer_default_def)
  ultimately have start: "observer_feed env observer_default (w @ CHR ''{'' # w) = ?o"
    using ready_spaces [OF r assms(1), of env] by (simp add: feed_append)
  have "\<exists>f. pending env (observer_feed env ?o (render_members w ms)) (?o\<lparr>ob_stack := [f], ob_costs := ?costs\<rparr>) \<and>
    fr_object f \<and> fr_expect f \<in> {KeyOrEnd, CommaOrEnd}"
  proof (cases "ms = []")
    case True
    then show ?thesis using pending_refl [OF r, of env] by (intro exI [of _ root]) (simp add: root_def observer_default_def)
  next
    case False
    have "pending env (observer_feed env ?o (render_members w ms)) (?o\<lparr>ob_stack := root\<lparr>fr_key := None, fr_expect := CommaOrEnd\<rparr> # [],
        ob_costs := members_costs env (fr_path root) ms (ob_costs ?o)\<rparr>)"
      using assms False r by (intro document_read(3)) (auto simp: root_def list_all_iff)
    then show ?thesis
      by (intro exI [of _ "root\<lparr>fr_key := None, fr_expect := CommaOrEnd\<rparr>"]) (simp add: root_def observer_default_def)
  qed
  then obtain f where f: "pending env (observer_feed env ?o (render_members w ms)) (?o\<lparr>ob_stack := [f], ob_costs := ?costs\<rparr>)"
    "fr_object f" "fr_expect f \<in> {KeyOrEnd, CommaOrEnd}" by blast
  let ?e = "observer_default\<lparr>ob_started := True, ob_done := True, ob_costs := ?costs\<rparr>"
  have "observe_byte env (observer_feed env ?o (render_members w ms)) (CHR ''}'') =
      structural env (?o\<lparr>ob_stack := [f], ob_costs := ?costs\<rparr>) (CHR ''}'')"
    by (rule pending_byte [OF f(1)]) simp
  also have "\<dots> = ?e"
    using f(2,3) by (auto simp: structural_def json_whitespace_def in_frame_def observer_default_def)
  finally have "observer_feed env observer_default (w @ render w (DObject ms)) = ?e"
    using start by (simp add: feed_append)
  moreover have "observer_feed env ?e w = ?e"
    using assms(1) by (intro idle_spaces) (simp_all add: observer_default_def)
  ultimately have "observer_feed env observer_default (body_text w ms) = ?e"
    by (simp only: body_text_def append_assoc [symmetric] feed_append)
  then show ?thesis by (simp add: observed_def observer_finish_def observer_default_def)
qed

lemma nth_costs:
  assumes "length xs = 6" and "\<And>i. i < 6 \<Longrightarrow> xs ! i = f (cost_paths ! i)"
  shows "xs = map f cost_paths"
  using assms by (intro nth_equalityI) (simp_all add: cost_paths_length)

text \<open>The observer reports the first usable cost of its locations.\<close>

lemma body_cost:
  assumes "list_all json_whitespace w" and "doc_ok (DObject ms)" and "keys_read env (DObject ms)" and "depth (DObject ms) \<le> 128"
  shows "observer_cost (observed env (body_text w ms)) = find_some (map (\<lambda>t. cost_at env t (DObject ms)) cost_paths)"
proof -
  have "members_costs env [] ms (replicate 6 None) = map (\<lambda>t. cost_at env t (DObject ms)) cost_paths"
  proof (rule nth_costs)
    fix i :: nat assume i: "i < 6"
    then obtain x r where t: "cost_paths ! i = x # r" using cost_path_names [OF i] by (cases "cost_paths ! i") auto
    show "members_costs env [] ms (replicate 6 None) ! i = cost_at env (cost_paths ! i) (DObject ms)"
      using i doc_costs_nth(3) [OF i, of "replicate 6 None" env "[]" ms] by (auto simp: t split: option.split)
  qed (simp add: doc_costs_length)
  then show ?thesis by (simp add: body_read [OF assms] observer_cost_def observer_default_def)
qed

section \<open>The parsed document\<close>

text \<open>The value a document denotes: decoded strings, the numbers \<open>num\<close> reads, objects with the last member of a name.\<close>

definition utf8_encode :: "nat \<Rightarrow> string" where
  "utf8_encode n =
     map char_of (if n < 0x80 then [n]
       else if n < 0x800 then [0xC0 + n div 64, 0x80 + n mod 64]
       else if n < 0x10000 then [0xE0 + n div 4096, 0x80 + n div 64 mod 64, 0x80 + n mod 64]
       else [0xF0 + n div 262144, 0x80 + n div 4096 mod 64, 0x80 + n div 64 mod 64, 0x80 + n mod 64])"

definition unescape :: "char \<Rightarrow> char" where
  "unescape c =
     (if c = CHR ''b'' then CHR 0x08 else if c = CHR ''f'' then CHR 0x0C else if c = CHR ''n'' then CHR 0x0A
      else if c = CHR ''r'' then CHR 0x0D else if c = CHR ''t'' then CHR 0x09 else c)"

fun decode_piece :: "piece \<Rightarrow> string" where
  "decode_piece (Plain c) = [c]"
| "decode_piece (Multi c cs) = c # cs"
| "decode_piece (Escaped c) = [unescape c]"
| "decode_piece (Unit hs) = utf8_encode (hex4 hs)"
| "decode_piece (Pair hs ls) = utf8_encode (0x10000 + (hex4 hs - 0xD800) * 1024 + (hex4 ls - 0xDC00))"

definition decode :: "piece list \<Rightarrow> string" where
  "decode ps = concat (map decode_piece ps)"

fun json_of :: "(string \<Rightarrow> json_number) \<Rightarrow> doc \<Rightarrow> json" where
  "json_of num DTrue = JBool True"
| "json_of num DFalse = JBool False"
| "json_of num DNull = JNull"
| "json_of num (DNumber n) = JNumber (num (render_number n))"
| "json_of num (DString ps) = JString (decode ps)"
| "json_of num (DArray ds) = JArray (map (json_of num) ds)"
| "json_of num (DObject ms) = JObject (bt_extend [] (map (\<lambda>(k, d). (decode k, json_of num d)) ms))"

text \<open>serde reads the numbers and the keys of the document as their grammar says.\<close>

fun serde_reads :: "(string \<Rightarrow> json option) \<Rightarrow> (string \<Rightarrow> string option) \<Rightarrow> (string \<Rightarrow> json_number) \<Rightarrow> doc \<Rightarrow> bool" where
  "serde_reads parse key num (DNumber n) = (parse (render_number n) = Some (JNumber (num (render_number n))))"
| "serde_reads parse key num (DArray ds) = list_all (serde_reads parse key num) ds"
| "serde_reads parse key num (DObject ms) = list_all (\<lambda>(k, d). key (quoted k) = Some (decode k) \<and> serde_reads parse key num d) ms"
| "serde_reads parse key num _ = True"

definition serde_env :: "(string \<Rightarrow> json option) \<Rightarrow> (string \<Rightarrow> string option) \<Rightarrow> cost_env" where
  "serde_env parse key = \<lparr>ce_number = (\<lambda>s. Option.bind (parse s) as_f64), ce_key = key\<rparr>"

lemma serde_keys: "serde_reads parse key num d \<Longrightarrow> keys_read (serde_env parse key) d"
  by (induction parse key num d rule: serde_reads.induct) (auto simp: list_all_iff serde_env_def)

lemma utf8_encode_nonempty: "1 \<le> length (utf8_encode n)" "0x10000 \<le> n \<Longrightarrow> length (utf8_encode n) = 4"
  by (simp_all add: utf8_encode_def)

lemma piece_length: "piece_ok p \<Longrightarrow> length (render_piece p) \<le> 6 * length (decode_piece p)"
  using utf8_encode_nonempty(1) [of "hex4 (case p of Unit hs \<Rightarrow> hs)"]
  by (cases p) (auto simp: hex_ok_def utf8_encode_nonempty(2))

lemma pieces_length: "list_all piece_ok ps \<Longrightarrow> length (render_pieces ps) \<le> 6 * length (decode ps)"
proof (induction ps)
  case (Cons p ps)
  with piece_length [of p] show ?case by (simp add: render_pieces_def decode_def)
qed (simp add: render_pieces_def)

lemma seen_key_decoded:
  assumes "list_all piece_ok k" and "key (quoted k) = Some (decode k)" and "name \<noteq> []" and "length name \<le> 40"
  shows "seen_key (serde_env parse key) k = name \<longleftrightarrow> decode k = name"
proof (cases "length (quoted k) \<le> 256")
  case True
  with assms(2) show ?thesis by (simp add: seen_key_def serde_env_def)
next
  case False
  then have "40 < length (decode k)" using pieces_length [OF assms(1)] by (simp add: quoted_def)
  with assms(3,4) False show ?thesis by (auto simp: seen_key_def)
qed

lemma map_of_decoded:
  assumes "list_all (\<lambda>(k, d). list_all piece_ok k \<and> key (quoted k) = Some (decode k)) ms" and "name \<noteq> []" and "length name \<le> 40"
  shows "map_of (rev (map (\<lambda>(k, d). (decode k, f d)) ms)) name =
    map_option f (map_of (rev (map (\<lambda>(k, d). (seen_key (serde_env parse key) k, d)) ms)) name)"
  using assms
proof (induction ms rule: rev_induct)
  case (snoc m ms)
  obtain k d where m: "m = (k, d)" by (cases m)
  have "seen_key (serde_env parse key) k = name \<longleftrightarrow> decode k = name"
    using snoc.prems by (intro seen_key_decoded) (simp_all add: m)
  with snoc show ?case by (auto simp: m)
qed simp

definition usable :: "json \<Rightarrow> f64 option" where
  "usable v = Option.bind (as_f64 v) (\<lambda>c. if usable_cost c then Some c else None)"

lemma cost_at_parsed:
  assumes "doc_ok d" and "serde_reads parse key num d" and "list_all (\<lambda>name. name \<noteq> [] \<and> length name \<le> 40) ts"
  shows "cost_at (serde_env parse key) ts d = Option.bind (json_pointer (json_of num d) ts) usable"
  using assms
proof (induction ts arbitrary: d)
  case Nil
  then show ?case by (cases d) (simp_all add: number_cost_def serde_env_def usable_def)
next
  case (Cons t ts)
  show ?case
  proof (cases d)
    case (DObject ms)
    let ?ms = "rev (map (\<lambda>(k, d). (seen_key (serde_env parse key) k, d)) ms)"
    have "map_of (rev (map (\<lambda>(k, d). (decode k, json_of num d)) ms)) t = map_option (json_of num) (map_of ?ms t)"
      using Cons.prems by (intro map_of_decoded) (auto simp: DObject list_all_iff)
    moreover have "bt_get [] t = (None :: json option)" by (simp add: bt_get_def)
    ultimately have "json_get (json_of num d) t = map_option (json_of num) (map_of ?ms t)"
      by (simp add: DObject json_get_def bt_get_extend split: option.split)
    moreover have "cost_at (serde_env parse key) ts d' = Option.bind (json_pointer (json_of num d') ts) usable"
      if m: "map_of ?ms t = Some d'" for d'
    proof -
      obtain k where "(k, d') \<in> set ms" using map_of_SomeD [OF m] by auto
      with Cons.prems show ?thesis by (intro Cons.IH) (auto simp: DObject list_all_iff)
    qed
    ultimately show ?thesis by (cases "map_of ?ms t") (simp_all add: DObject)
  qed (simp_all add: json_get_def)
qed

lemma find_some_usable:
  "find_some (map (\<lambda>t. Option.bind (f t) usable) ts) = find usable_cost (List.map_filter as_f64 (List.map_filter f ts))"
  by (induction ts)
    (auto simp: find_some_def List.map_filter_def usable_def split: option.splits)

lemma cost_path_lengths: "t \<in> set cost_paths \<Longrightarrow> list_all (\<lambda>name. name \<noteq> [] \<and> length name \<le> 40) t"
  by (auto simp: cost_paths_def)

section \<open>Property\<close>


definition plain_key :: "string \<Rightarrow> piece list" where
  "plain_key s = map Plain s"

definition half :: number where
  "half = \<lparr>nu_negative = False, nu_whole = ''0'', nu_fraction = Some ''5'', nu_exponent = None\<rparr>"

definition sample_members :: "(piece list \<times> doc) list" where
  "sample_members = [(plain_key ''usage'', DObject [(plain_key ''cost'', DNumber half)])]"

definition sample_number :: "string \<Rightarrow> json_number" where
  "sample_number s = Float (Fin (1 / 2))"

definition sample_parse :: "string \<Rightarrow> json option" where
  "sample_parse s =
     (if s = ''0.5'' then Some (JNumber (sample_number s)) else Some (json_of sample_number (DObject sample_members)))"

definition sample_key_of :: "string \<Rightarrow> string option" where
  "sample_key_of s = Some (butlast (tl s))"


end
