(* ===== verification/Traffic.thy ===== *)
theory Traffic
  imports Usage Provider_Intelligence "HOL-Library.AList"
begin

text \<open>
  The records of the traffic monitor (\<open>gateway-core/src/traffic.rs\<close>): a request with its bounded timeline and
  its first failure, and the queries of the live feed and of the history. The lifecycle marker and the sampling time of
  a request are shared by its clones: a request holds their addresses. Telemetry counters and log lines are
  not modelled.
\<close>

section \<open>Requests\<close>

record traffic_step =
  ts_stage :: string
  ts_elapsed_ms :: int
  ts_code :: "string option"
  ts_upstream_status :: "nat option"
  ts_attempt :: nat

record upstream_timing =
  ut_attempt :: nat
  ut_provider :: "string option"
  ut_started_elapsed_ms :: int
  ut_dns_status :: string
  ut_dns_us :: "nat option"
  ut_connection_reused :: "bool option"
  ut_tls :: bool
  ut_tcp_connect_us :: "nat option"
  ut_tls_handshake_us :: "nat option"
  ut_response_headers_ms :: "int option"
  ut_first_body_byte_ms :: "int option"
  ut_first_token_ms :: "int option"
  ut_total_ms :: "int option"
  ut_upstream_status :: "nat option"
  ut_failure_code :: "string option"

record traffic_usage =
  tu_model :: "string option"
  tu_input_tokens :: "int option"
  tu_output_tokens :: "int option"
  tu_total_tokens :: "int option"
  tu_estimated_cost_usd :: "f64 option"
  tu_cost_source :: "string option"
  tu_pricing_rule_name :: "string option"
  tu_service_version :: "string option"
  tu_trace_id :: "string option"
  tu_task_id :: "string option"
  tu_run_id :: "string option"

definition traffic_usage_from :: "usage_event \<Rightarrow> traffic_usage" where
  "traffic_usage_from e =
     \<lparr>tu_model = ue_model e, tu_input_tokens = ue_input_tokens e, tu_output_tokens = ue_output_tokens e,
      tu_total_tokens = ue_total_tokens e, tu_estimated_cost_usd = ue_estimated_cost_usd e, tu_cost_source = ue_cost_source e,
      tu_pricing_rule_name = ue_pricing_rule_name e, tu_service_version = ue_service_version e, tu_trace_id = ue_trace_id e,
      tu_task_id = ue_task_id e, tu_run_id = ue_run_id e\<rparr>"

record fallback_attempt =
  fa_from_provider :: string
  fa_to_provider :: string
  fa_reason :: string
  fa_status_code :: "nat option"
  fa_latency_ms :: "int option"

record debug_bundle =
  db_request_id :: string
  db_project_id :: "string option"
  db_route :: "route option"
  db_provider :: "provider option"
  db_service_name :: "string option"
  db_trace_id :: "string option"
  db_policy_trace :: "string list"
  db_guardrail_trace :: "string list"
  db_selection_trace :: "string list"
  db_fallback_history :: "fallback_attempt list"
  db_upstream_latency_ms :: "int option"
  db_request_hash :: "string option"
  db_response_hash :: "string option"
  db_redaction_version :: int
  db_created_at :: int

record traffic_request =
  tr_monitor_state :: nat
  tr_monitor_sampled_at :: nat
  tr_completed_at :: "int option"
  tr_summary_only :: bool
  tr_upstream_timings :: "upstream_timing list"
  tr_usage :: "traffic_usage option"
  tr_debug_bundle :: "debug_bundle option"
  tr_key_prefix :: "string option"
  tr_id :: string
  tr_request_id :: string
  tr_instance_id :: string
  tr_started_at :: int
  tr_elapsed_ms :: int
  tr_method :: string
  tr_endpoint :: "string option"
  tr_service :: "string option"
  tr_provider :: "string option"
  tr_key_id :: "string option"
  tr_project_id :: "string option"
  tr_stage :: string
  tr_client_status :: "nat option"
  tr_attempts :: nat
  tr_streaming :: bool
  tr_completed :: bool
  tr_diagnostics :: request_diagnostics
  tr_timeline :: "traffic_step list"
  tr_timeline_truncated :: bool
  tr_recording_failures :: "string list"

definition traffic_request_default :: "nat \<Rightarrow> nat \<Rightarrow> string \<Rightarrow> string \<Rightarrow> int \<Rightarrow> traffic_request" where
  "traffic_request_default cell sample new_id instance_id now =
     \<lparr>tr_monitor_state = cell, tr_monitor_sampled_at = sample, tr_completed_at = None, tr_summary_only = False,
      tr_upstream_timings = [], tr_usage = None, tr_debug_bundle = None, tr_key_prefix = None, tr_id = new_id, tr_request_id = [],
      tr_instance_id = instance_id, tr_started_at = now, tr_elapsed_ms = 0, tr_method = [], tr_endpoint = None, tr_service = None,
      tr_provider = None, tr_key_id = None, tr_project_id = None, tr_stage = ''received'', tr_client_status = None, tr_attempts = 0,
      tr_streaming = False, tr_completed = False, tr_diagnostics = default_diagnostics, tr_timeline = [],
      tr_timeline_truncated = False, tr_recording_failures = []\<rparr>"

definition tr_protocol :: "traffic_request \<Rightarrow> string" where
  "tr_protocol r =
     (let p = dg_protocol (tr_diagnostics r)
      in if p = Some ''websocket'' then ''websocket''
         else if p = Some ''http'' then ''http''
         else if dg_websocket (tr_diagnostics r) \<noteq> None then ''websocket''
         else ''unknown'')"

definition timeline_capacity :: nat where
  "timeline_capacity = 32"

text \<open>A step of a request, before it is published: the first and the most recent steps are kept.\<close>

definition add_step :: "traffic_request \<Rightarrow> string \<Rightarrow> int \<Rightarrow> string option \<Rightarrow> traffic_request" where
  "add_step r stage elapsed_ms code =
     (let r = r\<lparr>tr_stage := stage, tr_elapsed_ms := elapsed_ms\<rparr>;
          r = (if length (tr_timeline r) = timeline_capacity
               then r\<lparr>tr_timeline := take 1 (tr_timeline r) @ drop 2 (tr_timeline r), tr_timeline_truncated := True\<rparr> else r)
      in r\<lparr>tr_timeline := tr_timeline r @ [\<lparr>ts_stage = stage, ts_elapsed_ms = elapsed_ms, ts_code = code,
           ts_upstream_status = dg_upstream_status (tr_diagnostics r), ts_attempt = tr_attempts r\<rparr>]\<rparr>)"

definition tr_fail :: "traffic_request \<Rightarrow> string \<Rightarrow> string \<Rightarrow> traffic_request" where
  "tr_fail r source code =
     (if dg_failure_code (tr_diagnostics r) = None
      then r\<lparr>tr_diagnostics := (tr_diagnostics r)\<lparr>dg_failure_stage := Some (tr_stage r), dg_failure_code := Some code,
             dg_failure_source := Some source\<rparr>\<rparr>
      else r)"

definition add_recording_failure :: "traffic_request \<Rightarrow> string \<Rightarrow> traffic_request" where
  "add_recording_failure r destination =
     (if destination \<in> set (tr_recording_failures r) then r
      else r\<lparr>tr_recording_failures := tr_recording_failures r @ [destination]\<rparr>)"

section \<open>Queries\<close>

record traffic_query =
  tq_snapshot :: "bool option"
  tq_id :: "string option"
  tq_request_id :: "string option"
  tq_service :: "string option"
  tq_project_id :: "string option"
  tq_key_id :: "string option"
  tq_status :: "nat option"
  tq_failures_only :: "bool option"
  tq_failure_code :: "string option"
  tq_from :: "int option"
  tq_to :: "int option"
  tq_before :: "int option"
  tq_before_id :: "string option"
  tq_limit :: "int option"
  tq_time_basis :: "string option"
  tq_protocol :: "string option"

definition query_validate :: "traffic_query \<Rightarrow> unit gateway_result" where
  "query_validate q =
     (if (\<exists>v. tq_limit q = Some v \<and> \<not> (1 \<le> v \<and> v \<le> 200)) \<or>
         (\<exists>v. tq_status q = Some v \<and> \<not> (100 \<le> v \<and> v \<le> 599)) \<or>
         (case (tq_from q, tq_to q) of (Some f, Some t) \<Rightarrow> t < f | _ \<Rightarrow> False) \<or>
         (tq_before q \<noteq> None) \<noteq> (tq_before_id q \<noteq> None) \<or>
         (case tq_request_id q of Some v \<Rightarrow> 128 < length v | None \<Rightarrow> False) \<or>
         (case tq_failure_code q of Some v \<Rightarrow> 80 < length v | None \<Rightarrow> False) \<or>
         (case tq_service q of Some v \<Rightarrow> 256 < length v | None \<Rightarrow> False) \<or>
         (case tq_time_basis q of Some v \<Rightarrow> v \<notin> {''started'', ''completed''} | None \<Rightarrow> False) \<or>
         (case tq_protocol q of Some v \<Rightarrow> v \<notin> {''http'', ''websocket'', ''unknown''} | None \<Rightarrow> False)
      then Err InvalidUsageQuery else Ok ())"

definition none_or :: "'a option \<Rightarrow> ('a \<Rightarrow> bool) \<Rightarrow> bool" where
  "none_or v P = (case v of None \<Rightarrow> True | Some x \<Rightarrow> P x)"

definition matches_active :: "traffic_query \<Rightarrow> traffic_request \<Rightarrow> bool" where
  "matches_active q row =
     (none_or (tq_id q) (\<lambda>v. v = tr_id row) \<and>
      none_or (tq_request_id q) (\<lambda>v. contains_str (tr_request_id row) v) \<and>
      none_or (tq_service q) (\<lambda>v. tr_service row = Some v) \<and>
      none_or (tq_project_id q) (\<lambda>v. tr_project_id row = Some v) \<and>
      none_or (tq_key_id q) (\<lambda>v. tr_key_id row = Some v) \<and>
      none_or (tq_status q) (\<lambda>v. tr_client_status row = Some v) \<and>
      none_or (tq_failure_code q) (\<lambda>v. dg_failure_code (tr_diagnostics row) = Some v) \<and>
      (tq_failures_only q \<noteq> Some True \<or> dg_failure_code (tr_diagnostics row) \<noteq> None) \<and>
      none_or (tq_protocol q) (\<lambda>v. tr_protocol row = v) \<and>
      none_or (tq_from q) (\<lambda>v. v \<le> tr_started_at row) \<and>
      none_or (tq_to q) (\<lambda>v. tr_started_at row \<le> v) \<and>
      (case (tq_before q, tq_before_id q) of (Some t, Some i) \<Rightarrow> (tr_started_at row, tr_id row) < (t, i) | _ \<Rightarrow> True))"

definition has_row_filters :: "traffic_query \<Rightarrow> bool" where
  "has_row_filters q =
     (tq_id q \<noteq> None \<or> tq_request_id q \<noteq> None \<or> tq_service q \<noteq> None \<or> tq_project_id q \<noteq> None \<or> tq_key_id q \<noteq> None \<or>
      tq_status q \<noteq> None \<or> tq_failure_code q \<noteq> None \<or> tq_failures_only q = Some True \<or> tq_from q \<noteq> None \<or> tq_to q \<noteq> None \<or>
      tq_before q \<noteq> None)"

section \<open>Requests stay bounded\<close>

text \<open>A timeline never exceeds its capacity, keeps the arrival and ends with the step just made.\<close>

lemma add_step_timeline:
  assumes "length (tr_timeline r) \<le> timeline_capacity"
  shows "length (tr_timeline (add_step r stage ms code)) \<le> timeline_capacity"
    and "tr_timeline r \<noteq> [] \<Longrightarrow> hd (tr_timeline (add_step r stage ms code)) = hd (tr_timeline r)"
    and "ts_stage (last (tr_timeline (add_step r stage ms code))) = stage"
    and "tr_timeline_truncated (add_step r stage ms code) \<longleftrightarrow> tr_timeline_truncated r \<or> length (tr_timeline r) = timeline_capacity"
  using assms by (cases "tr_timeline r"; force simp: add_step_def timeline_capacity_def Let_def)+

text \<open>The first failure of a request is kept.\<close>

lemma tr_fail_first:
  "tr_fail (tr_fail r source code) source' code' = tr_fail r source code"
  "dg_failure_code (tr_diagnostics r) = None \<Longrightarrow> dg_failure_stage (tr_diagnostics (tr_fail r source code)) = Some (tr_stage r)"
  by (simp_all add: tr_fail_def)

end
