(* ===== verification/Traffic_Monitor.thy ===== *)
theory Traffic_Monitor
  imports Traffic
begin

text \<open>
  The traffic monitor (\<open>gateway-core/src/traffic.rs\<close>): the registry of active requests per protocol with
  its record and byte budgets, the sampled WebSocket progress, the journal that readers follow with a
  cursor, and the snapshots. The markers and sampling times of the requests are part of the monitor's state, which is
  only changed under its lock. Instants are nanoseconds of the monotonic clock. The size of a
  serialised row is the parameter \<open>row_size\<close>, and the order in which a hash map is drained the parameter
  \<open>drain\<close>. Sequence numbers are unbounded here; they are \<open>u64\<close> in the source.
\<close>

section \<open>Active requests\<close>

definition active_record_limit :: nat where
  "active_record_limit = 2048"

definition active_byte_limit :: nat where
  "active_byte_limit = 2 * 1024 * 1024"

definition socket_progress_reserve :: nat where
  "socket_progress_reserve = 512"

definition shortened :: "string \<Rightarrow> string" where
  "shortened s = take_chars 256 s"

definition shortened_socket :: "websocket_diagnostics \<Rightarrow> websocket_diagnostics" where
  "shortened_socket w =
     w\<lparr>wd_state := shortened (wd_state w), wd_app := map_option shortened (wd_app w), wd_channel := shortened (wd_channel w),
       wd_close_cause := map_option shortened (wd_close_cause w)\<rparr>"

definition active_projection :: "traffic_request \<Rightarrow> traffic_request" where
  "active_projection r =
     (let d = tr_diagnostics r; opt = map_option shortened
      in \<lparr>tr_monitor_state = tr_monitor_state r, tr_monitor_sampled_at = tr_monitor_sampled_at r,
          tr_completed_at = tr_completed_at r, tr_summary_only = True, tr_upstream_timings = [], tr_usage = None,
          tr_debug_bundle = None, tr_key_prefix = opt (tr_key_prefix r), tr_id = tr_id r,
          tr_request_id = shortened (tr_request_id r), tr_instance_id = shortened (tr_instance_id r),
          tr_started_at = tr_started_at r, tr_elapsed_ms = tr_elapsed_ms r, tr_method = shortened (tr_method r),
          tr_endpoint = opt (tr_endpoint r), tr_service = opt (tr_service r), tr_provider = opt (tr_provider r),
          tr_key_id = tr_key_id r, tr_project_id = tr_project_id r, tr_stage = shortened (tr_stage r),
          tr_client_status = tr_client_status r, tr_attempts = tr_attempts r, tr_streaming = tr_streaming r,
          tr_completed = tr_completed r,
          tr_diagnostics = default_diagnostics\<lparr>dg_protocol := opt (dg_protocol d), dg_websocket := map_option shortened_socket (dg_websocket d),
            dg_routing_mode := opt (dg_routing_mode d), dg_traffic_id := dg_traffic_id d, dg_failure_stage := opt (dg_failure_stage d),
            dg_failure_code := opt (dg_failure_code d), dg_failure_source := opt (dg_failure_source d), dg_outcome := opt (dg_outcome d),
            dg_upstream_status := dg_upstream_status d, dg_instance_id := Some (shortened (tr_instance_id r))\<rparr>,
          tr_timeline = [], tr_timeline_truncated = tr_timeline_truncated r,
          tr_recording_failures = map shortened (take 3 (tr_recording_failures r))\<rparr>)"

record active_partition =
  pt_rows :: "(string \<times> traffic_request \<times> nat) list"
  pt_bytes :: nat
  pt_total :: nat
  pt_record_limit :: nat
  pt_byte_limit :: nat

definition partition_new :: "nat \<Rightarrow> nat \<Rightarrow> active_partition" where
  "partition_new records bytes = \<lparr>pt_rows = [], pt_bytes = 0, pt_total = 0, pt_record_limit = records, pt_byte_limit = bytes\<rparr>"

definition partition_remove :: "active_partition \<Rightarrow> string \<Rightarrow> active_partition" where
  "partition_remove p i =
     (case map_of (pt_rows p) i of
        Some (_, n) \<Rightarrow> p\<lparr>pt_rows := AList.delete i (pt_rows p), pt_bytes := pt_bytes p - n\<rparr>
      | None \<Rightarrow> p)"

type_synonym row_size = "traffic_request \<Rightarrow> nat option"

definition charged_size :: "row_size \<Rightarrow> traffic_request \<Rightarrow> nat" where
  "charged_size row_size row =
     saturating_add (case row_size row of Some n \<Rightarrow> n | None \<Rightarrow> usize_max)
       (if dg_websocket (tr_diagnostics row) \<noteq> None then socket_progress_reserve else 0)"

definition partition_update :: "row_size \<Rightarrow> active_partition \<Rightarrow> traffic_request \<Rightarrow> active_partition" where
  "partition_update row_size p r =
     (let row = active_projection r;
          sz = charged_size row_size row;
          previous = (case map_of (pt_rows p) (tr_id row) of Some (_, n) \<Rightarrow> n | None \<Rightarrow> 0)
      in if (map_of (pt_rows p) (tr_id row) \<noteq> None \<or> length (pt_rows p) < pt_record_limit p) \<and>
            saturating_add (pt_bytes p - previous) sz \<le> pt_byte_limit p
         then p\<lparr>pt_bytes := saturating_add (pt_bytes p - previous) sz,
                pt_rows := AList.update (tr_id row) (row, sz) (pt_rows p)\<rparr>
         else partition_remove p (tr_id r))"

record coverage =
  cv_total :: nat
  cv_retained :: nat
  cv_retained_bytes :: nat
  cv_record_limit :: nat
  cv_byte_limit :: nat
  cv_saturated :: bool
  cv_matching :: "nat option"

definition partition_coverage :: "active_partition \<Rightarrow> coverage" where
  "partition_coverage p =
     \<lparr>cv_total = pt_total p, cv_retained = length (pt_rows p), cv_retained_bytes = pt_bytes p,
      cv_record_limit = pt_record_limit p, cv_byte_limit = pt_byte_limit p, cv_saturated = length (pt_rows p) < pt_total p,
      cv_matching = Some (pt_total p)\<rparr>"

definition coalesce_socket_progress :: "traffic_request \<Rightarrow> traffic_request \<Rightarrow> traffic_request" where
  "coalesce_socket_progress target source =
     (let target = target\<lparr>tr_elapsed_ms := tr_elapsed_ms source\<rparr>
      in case (dg_websocket (tr_diagnostics target), dg_websocket (tr_diagnostics source)) of
           (Some t, Some s) \<Rightarrow>
             target\<lparr>tr_diagnostics := (tr_diagnostics target)\<lparr>dg_websocket :=
               Some (t\<lparr>wd_observed_at := wd_observed_at s, wd_duration_ms := wd_duration_ms s, wd_client_bytes := wd_client_bytes s,
                 wd_upstream_bytes := wd_upstream_bytes s, wd_client_frames := wd_client_frames s,
                 wd_upstream_frames := wd_upstream_frames s, wd_client_close_frame := wd_client_close_frame s,
                 wd_upstream_close_frame := wd_upstream_close_frame s, wd_last_client_activity_at := wd_last_client_activity_at s,
                 wd_last_upstream_activity_at := wd_last_upstream_activity_at s\<rparr>)\<rparr>\<rparr>
         | _ \<Rightarrow> target)"

section \<open>The monitor\<close>

record monitor =
  mo_instance_id :: string
  mo_capacity :: nat
  mo_sequence :: nat
  mo_journal :: "(nat \<times> traffic_request) list"
  mo_socket_updates :: "(string \<times> nat \<times> traffic_request) list"
  mo_http :: active_partition
  mo_websocket :: active_partition
  mo_markers :: "nat \<Rightarrow> nat"
  mo_samples :: "nat \<Rightarrow> nat option"

definition with_active_limits :: "string \<Rightarrow> nat \<Rightarrow> nat \<Rightarrow> nat \<Rightarrow> monitor" where
  "with_active_limits instance_id capacity records bytes =
     \<lparr>mo_instance_id = instance_id, mo_capacity = max capacity 1, mo_sequence = 0, mo_journal = [], mo_socket_updates = [],
      mo_http = partition_new records bytes, mo_websocket = partition_new records bytes,
      mo_markers = (\<lambda>_. 0), mo_samples = (\<lambda>_. None)\<rparr>"

definition monitor_new :: "string \<Rightarrow> nat \<Rightarrow> monitor" where
  "monitor_new instance_id capacity = with_active_limits instance_id capacity active_record_limit active_byte_limit"

definition journal_capacity :: nat where
  "journal_capacity = 512"

definition gateway_monitor :: "string \<Rightarrow> monitor" where
  "gateway_monitor instance_id = monitor_new instance_id journal_capacity"

definition retotal :: "(nat \<Rightarrow> nat) \<Rightarrow> active_partition \<Rightarrow> active_partition" where
  "retotal f p = p\<lparr>pt_total := f (pt_total p)\<rparr>"

definition active_lease_drop :: "monitor \<Rightarrow> string \<Rightarrow> nat \<Rightarrow> monitor" where
  "active_lease_drop mo i cell =
     (let previous = mo_markers mo cell;
          mo = mo\<lparr>mo_markers := (mo_markers mo)(cell := 3)\<rparr>
      in if previous \<notin> {1, 2} then mo
         else
           let mo = (if previous = 1 then mo\<lparr>mo_http := retotal (\<lambda>n. n - 1) (mo_http mo)\<rparr>
                     else mo\<lparr>mo_websocket := retotal (\<lambda>n. n - 1) (mo_websocket mo)\<rparr>)
           in mo\<lparr>mo_http := partition_remove (mo_http mo) i, mo_websocket := partition_remove (mo_websocket mo) i,
                 mo_socket_updates := AList.delete i (mo_socket_updates mo)\<rparr>)"

definition up_one :: "nat \<Rightarrow> nat" where
  "up_one n = saturating_add n 1"

definition move_marker :: "monitor \<Rightarrow> nat \<Rightarrow> nat \<Rightarrow> nat \<Rightarrow> monitor" where
  "move_marker mo cell previous next_marker =
     (if previous = next_marker then mo
      else
        let http = mo_http mo; ws = mo_websocket mo;
            http = (if previous = 1 then retotal (\<lambda>n. n - 1) http else http);
            ws = (if previous = 2 then retotal (\<lambda>n. n - 1) ws else ws);
            http = (if next_marker = 1 then retotal up_one http else http);
            ws = (if next_marker = 2 then retotal up_one ws else ws)
        in mo\<lparr>mo_http := http, mo_websocket := ws, mo_markers := (mo_markers mo)(cell := next_marker)\<rparr>)"

definition observe :: "row_size \<Rightarrow> monitor \<Rightarrow> traffic_request \<Rightarrow> bool \<times> monitor" where
  "observe row_size mo r =
     (let previous = mo_markers mo (tr_monitor_state r)
      in if previous = 3 then (False, mo)
         else
           let protocol = (if tr_protocol r = ''websocket'' then 2 else 1);
               mo = move_marker mo (tr_monitor_state r) previous (if tr_completed r then 3 else protocol);
               mo = (if tr_completed r \<or> protocol \<noteq> 1 then mo\<lparr>mo_http := partition_remove (mo_http mo) (tr_id r)\<rparr> else mo);
               mo = (if tr_completed r \<or> protocol \<noteq> 2 then mo\<lparr>mo_websocket := partition_remove (mo_websocket mo) (tr_id r)\<rparr> else mo);
               mo = (if tr_completed r then mo
                     else if protocol = 2 then mo\<lparr>mo_websocket := partition_update row_size (mo_websocket mo) r\<rparr>
                     else mo\<lparr>mo_http := partition_update row_size (mo_http mo) r\<rparr>)
           in (True, mo))"

definition append_journal :: "monitor \<Rightarrow> traffic_request \<Rightarrow> monitor" where
  "append_journal mo r =
     (let mo = mo\<lparr>mo_sequence := mo_sequence mo + 1\<rparr>;
          journal = mo_journal mo @ [(mo_sequence mo, r)]
      in mo\<lparr>mo_journal := drop (length journal - mo_capacity mo) journal\<rparr>)"

definition publish_request :: "row_size \<Rightarrow> monitor \<Rightarrow> traffic_request \<Rightarrow> monitor" where
  "publish_request row_size mo r =
     (let mo = mo\<lparr>mo_socket_updates := AList.delete (tr_id r) (mo_socket_updates mo)\<rparr>;
          (observed, mo) = observe row_size mo r
      in if \<not> observed \<and> \<not> tr_completed r then mo else append_journal mo r)"

definition step_request :: "row_size \<Rightarrow> monitor \<Rightarrow> traffic_request \<Rightarrow> string \<Rightarrow> int \<Rightarrow> string option \<Rightarrow> traffic_request \<times> monitor" where
  "step_request row_size mo r stage elapsed_ms code =
     (let r = add_step r stage elapsed_ms code in (r, publish_request row_size mo r))"

definition recording_failed :: "row_size \<Rightarrow> monitor \<Rightarrow> traffic_request \<Rightarrow> string \<Rightarrow> traffic_request \<times> monitor" where
  "recording_failed row_size mo r destination =
     (let r = add_recording_failure r destination in (r, publish_request row_size mo r))"

definition socket_sample_interval :: nat where
  "socket_sample_interval = 500 * 10 ^ 6"

definition coalesce_row :: "traffic_request \<Rightarrow> active_partition \<Rightarrow> active_partition" where
  "coalesce_row r p =
     p\<lparr>pt_rows := map (\<lambda>(i, row, sz). (i, if i = tr_id r then coalesce_socket_progress row r else row, sz)) (pt_rows p)\<rparr>"

definition publish_socket_progress :: "row_size \<Rightarrow> monitor \<Rightarrow> traffic_request \<Rightarrow> nat \<Rightarrow> monitor" where
  "publish_socket_progress row_size mo r now =
     (if tr_completed r \<or> mo_markers mo (tr_monitor_state r) = 3 then mo
      else
        let mo = mo\<lparr>mo_websocket := coalesce_row r (mo_websocket mo),
                    mo_socket_updates := map (\<lambda>(i, seen_at, row). (i, seen_at, if i = tr_id r then coalesce_socket_progress row r else row))
                      (mo_socket_updates mo)\<rparr>
        in if (case mo_samples mo (tr_monitor_sampled_at r) of Some seen_at \<Rightarrow> now - seen_at < socket_sample_interval | None \<Rightarrow> False) then mo
           else
             let mo = mo\<lparr>mo_samples := (mo_samples mo)(tr_monitor_sampled_at r := Some now)\<rparr>;
                 (observed, mo) = observe row_size mo r
             in if \<not> observed then mo
                else if length (mo_socket_updates mo) < mo_capacity mo \<or> map_of (mo_socket_updates mo) (tr_id r) \<noteq> None
                then mo\<lparr>mo_socket_updates := AList.update (tr_id r) (now, r) (mo_socket_updates mo)\<rparr>
                else mo)"

section \<open>Snapshots and batches\<close>

record active_counts =
  ac_http :: nat
  ac_websocket :: nat

record summary_snapshot =
  ss_instance_id :: string
  ss_sampled_at :: int
  ss_counts :: active_counts
  ss_http :: coverage
  ss_websocket :: coverage

record active_snapshot =
  as_summary :: summary_snapshot
  as_rows :: "traffic_request list"
  as_has_more :: bool
  as_truncated :: bool

definition active_counts_of :: "monitor \<Rightarrow> active_counts" where
  "active_counts_of mo = \<lparr>ac_http = pt_total (mo_http mo), ac_websocket = pt_total (mo_websocket mo)\<rparr>"

definition summary_snapshot_of :: "monitor \<Rightarrow> int \<Rightarrow> summary_snapshot" where
  "summary_snapshot_of mo now =
     \<lparr>ss_instance_id = mo_instance_id mo, ss_sampled_at = now, ss_counts = active_counts_of mo,
      ss_http = partition_coverage (mo_http mo), ss_websocket = partition_coverage (mo_websocket mo)\<rparr>"

text \<open>Newest first, by start and id.\<close>

definition newest_first :: "traffic_request list \<Rightarrow> traffic_request list" where
  "newest_first rows = rev (sort_key (\<lambda>r. (tr_started_at r, tr_id r)) rows)"

definition partition_matches :: "traffic_query \<Rightarrow> active_partition \<Rightarrow> traffic_request list" where
  "partition_matches q p = newest_first (filter (matches_active q) (map (\<lambda>(_, row, _). row) (pt_rows p)))"

definition matching_coverage :: "traffic_query \<Rightarrow> string \<Rightarrow> active_partition \<Rightarrow> coverage" where
  "matching_coverage q protocol p =
     (let c = partition_coverage p
      in c\<lparr>cv_matching :=
           if \<not> has_row_filters q then Some (if none_or (tq_protocol q) (\<lambda>v. v = protocol) then pt_total p else 0)
           else if cv_saturated c then None
           else Some (length (partition_matches q p))\<rparr>)"

definition active_snapshot_with_limit :: "monitor \<Rightarrow> int \<Rightarrow> traffic_query \<Rightarrow> nat \<Rightarrow> active_snapshot" where
  "active_snapshot_with_limit mo now q limit =
     (let hm = partition_matches q (mo_http mo); wm = partition_matches q (mo_websocket mo);
          http = matching_coverage q ''http'' (mo_http mo); ws = matching_coverage q ''websocket'' (mo_websocket mo)
      in \<lparr>as_summary = \<lparr>ss_instance_id = mo_instance_id mo, ss_sampled_at = now, ss_counts = active_counts_of mo,
            ss_http = http, ss_websocket = ws\<rparr>,
          as_rows = take limit hm @ take limit wm, as_has_more = (limit < length hm \<or> limit < length wm),
          as_truncated = (cv_saturated http \<or> cv_saturated ws)\<rparr>)"

definition active_snapshot_of :: "monitor \<Rightarrow> int \<Rightarrow> traffic_query \<Rightarrow> active_snapshot" where
  "active_snapshot_of mo now q =
     active_snapshot_with_limit mo now q (nat (min (max (case tq_limit q of Some l \<Rightarrow> l | None \<Rightarrow> 100) 1) 200))"

definition default_query :: traffic_query where
  "default_query =
     \<lparr>tq_snapshot = None, tq_id = None, tq_request_id = None, tq_service = None, tq_project_id = None, tq_key_id = None,
      tq_status = None, tq_failures_only = None, tq_failure_code = None, tq_from = None, tq_to = None, tq_before = None,
      tq_before_id = None, tq_limit = None, tq_time_basis = None, tq_protocol = None\<rparr>"

definition publication_snapshot :: "monitor \<Rightarrow> int \<Rightarrow> active_snapshot" where
  "publication_snapshot mo now = active_snapshot_with_limit mo now default_query active_record_limit"

text \<open>\<open>rsplit_once(':')\<close> and \<open>parse::<u64>\<close>.\<close>

definition rsplit_colon :: "string \<Rightarrow> (string \<times> string) option" where
  "rsplit_colon s = map_option (\<lambda>(a, b). (rev b, rev a)) (split_once (CHR '':'') (rev s))"

record traffic_batch =
  tb_instance_id :: string
  tb_cursor :: string
  tb_gap :: bool
  tb_evicted_updates :: nat
  tb_rows :: "traffic_request list"
  tb_active :: "active_snapshot option"

text \<open>The entries in order, each request's first one only.\<close>

fun first_of_each :: "string list \<Rightarrow> traffic_request list \<Rightarrow> traffic_request list" where
  "first_of_each seen [] = []"
| "first_of_each seen (r # rs) =
     (if tr_id r \<in> set seen then first_of_each seen rs else r # first_of_each (tr_id r # seen) rs)"

definition drain_updates ::
  "((string \<times> nat \<times> traffic_request) list \<Rightarrow> (string \<times> nat \<times> traffic_request) list) \<Rightarrow> monitor \<Rightarrow> monitor" where
  "drain_updates drain mo =
     foldl append_journal (mo\<lparr>mo_socket_updates := []\<rparr>) (map (\<lambda>(_, _, r). r) (drain (mo_socket_updates mo)))"

definition cursor_sequence :: "monitor \<Rightarrow> string option \<Rightarrow> nat option" where
  "cursor_sequence mo cursor =
     Option.bind (Option.bind cursor rsplit_colon) (\<lambda>(inst, sq). if inst = mo_instance_id mo then parse_u64 sq else None)"

definition oldest_sequence :: "monitor \<Rightarrow> nat" where
  "oldest_sequence mo = (case mo_journal mo of (n, _) # _ \<Rightarrow> n | [] \<Rightarrow> mo_sequence mo + 1)"

definition batch ::
  "((string \<times> nat \<times> traffic_request) list \<Rightarrow> (string \<times> nat \<times> traffic_request) list) \<Rightarrow> monitor \<Rightarrow> string option \<Rightarrow>
   traffic_batch \<times> monitor" where
  "batch drain mo cursor =
     (let mo = drain_updates drain mo;
          sq = cursor_sequence mo cursor;
          oldest = oldest_sequence mo;
          gap = (cursor \<noteq> None \<and> (case sq of None \<Rightarrow> True | Some n \<Rightarrow> saturating_add n 1 < oldest \<or> mo_sequence mo < n));
          after = (if gap then 0 else case sq of Some n \<Rightarrow> n | None \<Rightarrow> 0)
      in (\<lparr>tb_instance_id = mo_instance_id mo, tb_cursor = mo_instance_id mo @ '':'' @ show_nat (mo_sequence mo), tb_gap = gap, tb_evicted_updates = oldest - 1,
           tb_rows = first_of_each [] (map snd (filter (\<lambda>(n, _). after < n) (rev (mo_journal mo)))),
           tb_active = None\<rparr>, mo))"

definition correlation_id :: "string option \<Rightarrow> string \<Rightarrow> string" where
  "correlation_id v fresh =
     (case v of
        Some s \<Rightarrow> if s \<noteq> [] \<and> length s \<le> 128 \<and> list_all (\<lambda>b. is_ascii_alphanumeric b \<or> b \<in> set ''-_.:'') s then s else fresh
      | None \<Rightarrow> fresh)"

end
