(* ===== verification/Traffic_Counts.thy ===== *)
theory Traffic_Counts
  imports Traffic_Monitor "HOL-Library.Countable"
begin

text \<open>
  The counts and the rows of the traffic monitor against an abstract registry: every request is unseen,
  live as an HTTP request or a WebSocket, or closed. Whatever the order of publications, progress
  samples, dropped leases and batches, the totals are the numbers of live requests, the rows are rows of
  live requests within the budgets, and a partition that is not saturated has a row of every live one.
\<close>

section \<open>Events\<close>

type_synonym update_order = "(string \<times> nat \<times> traffic_request) list \<Rightarrow> (string \<times> nat \<times> traffic_request) list"

datatype traffic_event =
    Publish traffic_request
  | Progress traffic_request nat
  | Drop_Lease string nat
  | Read_Batch "string option"

fun monitor_step :: "row_size \<Rightarrow> update_order \<Rightarrow> monitor \<Rightarrow> traffic_event \<Rightarrow> monitor" where
  "monitor_step row_size drain mo (Publish r) = publish_request row_size mo r"
| "monitor_step row_size drain mo (Progress r now) = publish_socket_progress row_size mo r now"
| "monitor_step row_size drain mo (Drop_Lease i cell) = active_lease_drop mo i cell"
| "monitor_step row_size drain mo (Read_Batch cursor) = snd (batch drain mo cursor)"

section \<open>The abstract registry\<close>

datatype phase = Unseen | Live_Http | Live_Socket | Closed

record registry =
  rg_phase :: "string \<Rightarrow> phase"
  rg_sampled :: "string \<Rightarrow> nat option"

definition phase_of :: "traffic_request \<Rightarrow> phase" where
  "phase_of r = (if tr_completed r then Closed else if tr_protocol r = ''websocket'' then Live_Socket else Live_Http)"

fun registry_step :: "registry \<Rightarrow> traffic_event \<Rightarrow> registry" where
  "registry_step g (Publish r) =
     (if rg_phase g (tr_id r) = Closed then g else g\<lparr>rg_phase := (rg_phase g)(tr_id r := phase_of r)\<rparr>)"
| "registry_step g (Progress r now) =
     (if tr_completed r \<or> rg_phase g (tr_id r) = Closed \<or>
         (case rg_sampled g (tr_id r) of None \<Rightarrow> False | Some seen_at \<Rightarrow> now - seen_at < socket_sample_interval)
      then g
      else g\<lparr>rg_phase := (rg_phase g)(tr_id r := phase_of r), rg_sampled := (rg_sampled g)(tr_id r := Some now)\<rparr>)"
| "registry_step g (Drop_Lease i _) = g\<lparr>rg_phase := (rg_phase g)(i := Closed)\<rparr>"
| "registry_step g (Read_Batch _) = g"

definition registry_new :: registry where
  "registry_new = \<lparr>rg_phase = (\<lambda>_. Unseen), rg_sampled = (\<lambda>_. None)\<rparr>"

definition in_phase :: "registry \<Rightarrow> phase \<Rightarrow> string set" where
  "in_phase g ph = {i. rg_phase g i = ph}"

text \<open>A request is created with a fresh id, a fresh marker and a fresh sampling time, which its clones keep.\<close>

fun event_ok :: "(string \<Rightarrow> nat) \<Rightarrow> (string \<Rightarrow> nat) \<Rightarrow> traffic_event \<Rightarrow> bool" where
  "event_ok cell sample (Publish r) = (tr_monitor_state r = cell (tr_id r) \<and> tr_monitor_sampled_at r = sample (tr_id r))"
| "event_ok cell sample (Progress r _) = (tr_monitor_state r = cell (tr_id r) \<and> tr_monitor_sampled_at r = sample (tr_id r))"
| "event_ok cell sample (Drop_Lease i c) = (c = cell i)"
| "event_ok cell sample (Read_Batch _) = True"

fun marker_of :: "phase \<Rightarrow> nat" where
  "marker_of Unseen = 0"
| "marker_of Live_Http = 1"
| "marker_of Live_Socket = 2"
| "marker_of Closed = 3"

section \<open>Partitions\<close>

definition row_ids :: "active_partition \<Rightarrow> string set" where
  "row_ids p = fst ` set (pt_rows p)"

definition row_sizes :: "(string \<times> traffic_request \<times> nat) list \<Rightarrow> nat" where
  "row_sizes rows = sum_list (map (snd \<circ> snd) rows)"

text \<open>The rows of a partition, within its budgets, are rows of the requests in \<open>ids\<close>.\<close>

definition partition_ok :: "string set \<Rightarrow> active_partition \<Rightarrow> bool" where
  "partition_ok ids p \<longleftrightarrow>
     distinct (map fst (pt_rows p)) \<and> row_ids p \<subseteq> ids \<and> (\<forall>(i, row, n) \<in> set (pt_rows p). tr_id row = i) \<and>
     pt_bytes p = row_sizes (pt_rows p) \<and> pt_bytes p \<le> active_byte_limit \<and> length (pt_rows p) \<le> active_record_limit \<and>
     pt_byte_limit p = active_byte_limit \<and> pt_record_limit p = active_record_limit"

lemma active_projection_id [simp]: "tr_id (active_projection r) = tr_id r"
  by (simp add: active_projection_def Let_def)

lemma coalesce_id [simp]: "tr_id (coalesce_socket_progress a b) = tr_id a"
  by (simp add: coalesce_socket_progress_def Let_def split: option.splits)

lemma row_sizes_Cons [simp]: "row_sizes (x # rows) = snd (snd x) + row_sizes rows" "row_sizes [] = 0"
  by (simp_all add: row_sizes_def)

lemma row_sizes_delete:
  "distinct (map fst rows) \<Longrightarrow> map_of rows i = Some (row, n) \<Longrightarrow> row_sizes rows = n + row_sizes (AList.delete i rows)"
proof (induction rows)
  case (Cons x rows)
  show ?case
  proof (cases "fst x = i")
    case True
    with Cons.prems have "AList.delete i rows = rows" by (intro AList.delete_id) auto
    with True Cons.prems show ?thesis by (cases x) auto
  next
    case False
    with Cons show ?thesis by (cases x) auto
  qed
qed simp

lemma row_sizes_member: "map_of rows i = Some (row, n) \<Longrightarrow> n \<le> row_sizes rows"
  by (induction rows) (auto split: if_splits)

lemma row_sizes_update:
  "row_sizes (AList.update i (row, n) rows) =
    row_sizes rows - (case map_of rows i of Some (_, m) \<Rightarrow> m | None \<Rightarrow> 0) + n"
proof (induction rows)
  case (Cons x rows)
  then show ?case
    using row_sizes_member [of rows i] by (cases x; cases "map_of rows i") auto
qed simp

lemma partition_ok_new: "partition_ok {} (partition_new active_record_limit active_byte_limit)"
  by (simp add: partition_ok_def partition_new_def row_ids_def)

lemma partition_ok_retotal [simp]: "partition_ok ids (retotal f p) = partition_ok ids p"
  by (simp add: partition_ok_def retotal_def row_ids_def)

lemma partition_ok_mono: "partition_ok ids p \<Longrightarrow> ids \<subseteq> ids' \<Longrightarrow> partition_ok ids' p"
  by (auto simp: partition_ok_def)

lemma partition_remove_total [simp]: "pt_total (partition_remove p i) = pt_total p"
  by (simp add: partition_remove_def split: option.splits)

lemma partition_remove_retotal [simp]: "partition_remove (retotal f p) i = retotal f (partition_remove p i)"
  by (simp add: partition_remove_def retotal_def split: option.splits)

lemma partition_remove_rows: "pt_rows (partition_remove p i) = AList.delete i (pt_rows p)"
  by (auto simp: partition_remove_def map_of_eq_None_iff split: option.splits)

lemma partition_remove_bytes:
  assumes "distinct (map fst (pt_rows p))" and "pt_bytes p = row_sizes (pt_rows p)"
  shows "pt_bytes (partition_remove p i) = row_sizes (AList.delete i (pt_rows p))"
proof (cases "map_of (pt_rows p) i")
  case None
  then have "i \<notin> fst ` set (pt_rows p)" by (simp add: map_of_eq_None_iff)
  with None assms(2) show ?thesis by (simp add: partition_remove_def)
next
  case (Some x)
  then show ?thesis
    using assms row_sizes_delete [of "pt_rows p" i] by (cases x) (simp add: partition_remove_def)
qed

lemma delete_rows_subset: "set (AList.delete i rows) = {x \<in> set rows. fst x \<noteq> i}"
  by (auto simp: AList.delete_eq)

lemma partition_ok_remove:
  assumes "partition_ok ids p"
  shows "partition_ok (ids - {i}) (partition_remove p i)"
proof -
  have L: "pt_byte_limit (partition_remove p i) = pt_byte_limit p" "pt_record_limit (partition_remove p i) = pt_record_limit p"
    by (simp_all add: partition_remove_def split: option.splits)
  have "pt_bytes (partition_remove p i) \<le> pt_bytes p"
    by (simp add: partition_remove_def split: option.splits)
  moreover have "length (AList.delete i (pt_rows p)) \<le> length (pt_rows p)"
    by (rule AList.length_delete_le)
  ultimately show ?thesis
    using assms AList.distinct_delete [of "pt_rows p" i] partition_remove_bytes [of p i]
    by (auto simp: partition_ok_def row_ids_def partition_remove_rows delete_rows_subset L)
qed

lemma update_rows:
  "x \<in> set (AList.update i v rows) \<Longrightarrow> x = (i, v) \<or> x \<in> set rows"
  by (induction rows) (auto split: if_splits)

lemma update_length: "length (AList.update i v rows) = (if i \<in> fst ` set rows then length rows else Suc (length rows))"
  by (induction rows) auto

lemma partition_ok_update:
  assumes "partition_ok ids p"
  shows "partition_ok (insert (tr_id r) ids) (partition_update row_size p r) \<and>
    pt_total (partition_update row_size p r) = pt_total p"
proof (cases "(map_of (pt_rows p) (tr_id r) \<noteq> None \<or> length (pt_rows p) < pt_record_limit p) \<and>
    saturating_add (pt_bytes p - (case map_of (pt_rows p) (tr_id r) of Some (_, n) \<Rightarrow> n | None \<Rightarrow> 0))
      (charged_size row_size (active_projection r)) \<le> pt_byte_limit p")
  case False
  then have "partition_update row_size p r = partition_remove p (tr_id r)"
    by (simp only: partition_update_def Let_def active_projection_id if_False)
  with partition_ok_mono [OF partition_ok_remove [OF assms, of "tr_id r"]] show ?thesis by auto
next
  case True
  let ?b = "pt_bytes p - (case map_of (pt_rows p) (tr_id r) of Some (_, n) \<Rightarrow> n | None \<Rightarrow> 0)"
  let ?n = "charged_size row_size (active_projection r)"
  let ?rows = "AList.update (tr_id r) (active_projection r, ?n) (pt_rows p)"
  from True have U: "partition_update row_size p r = p\<lparr>pt_bytes := saturating_add ?b ?n, pt_rows := ?rows\<rparr>"
    by (simp only: partition_update_def Let_def active_projection_id if_True simp_thms)
  from True assms have S: "saturating_add ?b ?n = ?b + ?n" "?b + ?n \<le> active_byte_limit"
    by (auto simp: saturating_add_def partition_ok_def active_byte_limit_def min_def split: if_splits)
  have "pt_bytes p = row_sizes (pt_rows p)" using assms by (simp add: partition_ok_def)
  then have B: "?b + ?n = row_sizes ?rows" by (simp add: row_sizes_update)
  have "length ?rows \<le> active_record_limit"
    using True assms by (auto simp: update_length partition_ok_def map_of_eq_None_iff)
  moreover have "distinct (map fst ?rows)" using assms by (simp add: partition_ok_def AList.distinct_update)
  moreover have "\<forall>(i, row, n) \<in> set ?rows. tr_id row = i" using assms by (auto dest!: update_rows simp: partition_ok_def)
  moreover have "fst ` set ?rows \<subseteq> insert (tr_id r) ids"
    using assms by (auto dest!: update_rows simp: partition_ok_def row_ids_def)
  ultimately show ?thesis
    using assms S B by (simp add: U partition_ok_def row_ids_def)
qed

lemma partition_ok_coalesce:
  assumes "partition_ok ids p"
  shows "partition_ok ids (coalesce_row r p)"
proof -
  let ?f = "\<lambda>(i, row, sz). (i, if i = tr_id r then coalesce_socket_progress row r else row, sz)"
  have M: "map fst (map ?f rows) = map fst rows" "map (snd \<circ> snd) (map ?f rows) = map (snd \<circ> snd) rows" for rows
    by auto
  have "fst ` set (map ?f (pt_rows p)) = fst ` set (pt_rows p)" by force
  with assms show ?thesis
    by (auto simp: partition_ok_def coalesce_row_def row_ids_def row_sizes_def M simp del: map_map)
qed

lemma coalesce_row_total [simp]: "pt_total (coalesce_row r p) = pt_total p"
  by (simp add: coalesce_row_def)

section \<open>The registry is followed\<close>

definition follows :: "(string \<Rightarrow> nat) \<Rightarrow> (string \<Rightarrow> nat) \<Rightarrow> registry \<Rightarrow> nat \<Rightarrow> monitor \<Rightarrow> bool" where
  "follows cell sample g n mo \<longleftrightarrow>
     (\<forall>i. mo_markers mo (cell i) = marker_of (rg_phase g i)) \<and> (\<forall>i. mo_samples mo (sample i) = rg_sampled g i) \<and>
     finite (in_phase g Live_Http) \<and> finite (in_phase g Live_Socket) \<and>
     card (in_phase g Live_Http) \<le> n \<and> card (in_phase g Live_Socket) \<le> n \<and>
     pt_total (mo_http mo) = card (in_phase g Live_Http) \<and> pt_total (mo_websocket mo) = card (in_phase g Live_Socket) \<and>
     partition_ok (in_phase g Live_Http) (mo_http mo) \<and> partition_ok (in_phase g Live_Socket) (mo_websocket mo)"

lemma followsD:
  assumes "follows cell sample g n mo"
  shows "mo_markers mo (cell i) = marker_of (rg_phase g i)" "mo_samples mo (sample i) = rg_sampled g i"
    "finite (in_phase g Live_Http)" "finite (in_phase g Live_Socket)" "card (in_phase g Live_Http) \<le> n" "card (in_phase g Live_Socket) \<le> n"
    "pt_total (mo_http mo) = card (in_phase g Live_Http)" "pt_total (mo_websocket mo) = card (in_phase g Live_Socket)"
    "partition_ok (in_phase g Live_Http) (mo_http mo)" "partition_ok (in_phase g Live_Socket) (mo_websocket mo)"
  using assms by (simp_all add: follows_def)

lemma in_phase_update:
  "in_phase (g\<lparr>rg_phase := (rg_phase g)(i := ph)\<rparr>) q = (if q = ph then insert i (in_phase g q) else in_phase g q - {i})"
  by (auto simp: in_phase_def)

lemma marker_of_eq [simp]:
  "marker_of ph = 3 \<longleftrightarrow> ph = Closed" "marker_of ph = 1 \<longleftrightarrow> ph = Live_Http" "marker_of ph = Suc 0 \<longleftrightarrow> ph = Live_Http"
  "marker_of ph = 2 \<longleftrightarrow> ph = Live_Socket" "marker_of ph = marker_of q \<longleftrightarrow> ph = q"
  by (cases ph; cases q; simp)+

text \<open>Moving one request to a phase changes the number of requests in a phase by at most one.\<close>

lemma card_in_phase_update:
  assumes "finite (in_phase g q)" and "i \<in> in_phase g q \<longleftrightarrow> rg_phase g i = q"
  shows "card (in_phase (g\<lparr>rg_phase := (rg_phase g)(i := ph)\<rparr>) q) =
    (if rg_phase g i = q then (if ph = q then card (in_phase g q) else card (in_phase g q) - 1)
     else if ph = q then card (in_phase g q) + 1 else card (in_phase g q))"
  using assms by (auto simp: in_phase_update insert_absorb)

lemma in_phase_mem [simp]: "i \<in> in_phase g q \<longleftrightarrow> rg_phase g i = q"
  by (simp add: in_phase_def)

lemma retotal_total [simp]: "pt_total (retotal f p) = f (pt_total p)"
  by (simp add: retotal_def)

lemma move_marker_totals:
  assumes "pt_total (mo_http mo) < 2 ^ 64 - 1" and "pt_total (mo_websocket mo) < 2 ^ 64 - 1"
  shows "pt_total (mo_http (move_marker mo c (marker_of a) (marker_of b))) =
      (if a = Live_Http then (if b = Live_Http then pt_total (mo_http mo) else pt_total (mo_http mo) - 1)
       else if b = Live_Http then pt_total (mo_http mo) + 1 else pt_total (mo_http mo))"
    and "pt_total (mo_websocket (move_marker mo c (marker_of a) (marker_of b))) =
      (if a = Live_Socket then (if b = Live_Socket then pt_total (mo_websocket mo) else pt_total (mo_websocket mo) - 1)
       else if b = Live_Socket then pt_total (mo_websocket mo) + 1 else pt_total (mo_websocket mo))"
  using assms by (auto simp: move_marker_def Let_def up_one_def saturating_add_def)

lemma move_marker_partitions [simp]:
  "partition_ok ids (mo_http (move_marker mo c a b)) = partition_ok ids (mo_http mo)"
  "partition_ok ids (mo_websocket (move_marker mo c a b)) = partition_ok ids (mo_websocket mo)"
  "mo_samples (move_marker mo c a b) = mo_samples mo" "mo_socket_updates (move_marker mo c a b) = mo_socket_updates mo"
  "mo_journal (move_marker mo c a b) = mo_journal mo" "mo_sequence (move_marker mo c a b) = mo_sequence mo"
  "mo_capacity (move_marker mo c a b) = mo_capacity mo" "mo_instance_id (move_marker mo c a b) = mo_instance_id mo"
  by (simp_all add: move_marker_def Let_def)

lemma move_marker_markers:
  "mo_markers (move_marker mo c (mo_markers mo c) b) = (mo_markers mo)(c := b)"
  by (auto simp: move_marker_def Let_def)

lemma observe_closed: "mo_markers mo (tr_monitor_state r) = 3 \<Longrightarrow> observe row_size mo r = (False, mo)"
  by (simp add: observe_def)

lemma observe_open:
  assumes "mo_markers mo (tr_monitor_state r) = marker_of a" and "a \<noteq> Closed"
  shows "observe row_size mo r =
    (let m = move_marker mo (tr_monitor_state r) (marker_of a) (marker_of (phase_of r)); i = tr_id r
     in (True, m\<lparr>mo_http := if phase_of r = Live_Http then partition_update row_size (mo_http m) r else partition_remove (mo_http m) i,
             mo_websocket := if phase_of r = Live_Socket then partition_update row_size (mo_websocket m) r
               else partition_remove (mo_websocket m) i\<rparr>))"
  using assms by (simp add: observe_def phase_of_def Let_def)

lemma observe_follows:
  assumes "follows cell sample g n mo" and "rg_phase g (tr_id r) \<noteq> Closed" and "inj cell"
    and "tr_monitor_state r = cell (tr_id r)" and "n < 2 ^ 64 - 1"
  obtains mo' where "observe row_size mo r = (True, mo')"
    and "follows cell sample (g\<lparr>rg_phase := (rg_phase g)(tr_id r := phase_of r)\<rparr>) (Suc n) mo'"
    and "mo_samples mo' = mo_samples mo" "mo_socket_updates mo' = mo_socket_updates mo" "mo_journal mo' = mo_journal mo"
      "mo_sequence mo' = mo_sequence mo" "mo_capacity mo' = mo_capacity mo" "mo_instance_id mo' = mo_instance_id mo"
proof -
  let ?i = "tr_id r" let ?a = "rg_phase g (tr_id r)" let ?b = "phase_of r"
  let ?g = "g\<lparr>rg_phase := (rg_phase g)(?i := ?b)\<rparr>"
  let ?m = "move_marker mo (cell ?i) (marker_of ?a) (marker_of ?b)"
  let ?mo = "?m\<lparr>mo_http := if ?b = Live_Http then partition_update row_size (mo_http ?m) r else partition_remove (mo_http ?m) ?i,
    mo_websocket := if ?b = Live_Socket then partition_update row_size (mo_websocket ?m) r else partition_remove (mo_websocket ?m) ?i\<rparr>"
  note F = followsD [OF assms(1)]
  have E: "observe row_size mo r = (True, ?mo)"
    using observe_open [of mo r ?a row_size] assms(2,4) F(1) by (simp add: Let_def)
  have M: "mo_markers ?m = (mo_markers mo)(cell ?i := marker_of ?b)"
    using move_marker_markers [of mo "cell ?i"] F(1) [of ?i] by simp
  have "pt_total (mo_http mo) < 2 ^ 64 - 1" "pt_total (mo_websocket mo) < 2 ^ 64 - 1"
    using F(5-8) assms(5) by simp_all
  note T = move_marker_totals [OF this, of "cell ?i" ?a ?b]
  have C: "card (in_phase ?g Live_Http) = pt_total (mo_http ?m)" "card (in_phase ?g Live_Socket) = pt_total (mo_websocket ?m)"
    by (simp_all only: T F(7,8) card_in_phase_update [OF F(3) in_phase_mem] card_in_phase_update [OF F(4) in_phase_mem])
  have N: "card (in_phase ?g q) \<le> Suc n" if "finite (in_phase g q)" "card (in_phase g q) \<le> n" for q
    using that(2) by (simp add: card_in_phase_update [OF that(1) in_phase_mem]) linarith
  have "follows cell sample ?g (Suc n) ?mo"
    unfolding follows_def
  proof (intro conjI)
    show "\<forall>i. mo_markers ?mo (cell i) = marker_of (rg_phase ?g i)"
      using M F(1) assms(3) by (auto dest: injD)
    show "\<forall>i. mo_samples ?mo (sample i) = rg_sampled ?g i" using F(2) by simp
    show "finite (in_phase ?g Live_Http)" "finite (in_phase ?g Live_Socket)" using F(3,4) by (simp_all add: in_phase_update)
    show "card (in_phase ?g Live_Http) \<le> Suc n" "card (in_phase ?g Live_Socket) \<le> Suc n" using N F(3-6) by simp_all
    show "pt_total (mo_http ?mo) = card (in_phase ?g Live_Http)" "pt_total (mo_websocket ?mo) = card (in_phase ?g Live_Socket)"
      using C partition_ok_update [of _ "mo_http ?m" r row_size] partition_ok_update [of _ "mo_websocket ?m" r row_size] F(9,10)
      by auto
    show "partition_ok (in_phase ?g Live_Http) (mo_http ?mo)" "partition_ok (in_phase ?g Live_Socket) (mo_websocket ?mo)"
      using partition_ok_update [of _ "mo_http ?m" r row_size] partition_ok_update [of _ "mo_websocket ?m" r row_size] F(9,10)
        partition_ok_remove [of _ "mo_http ?m" ?i] partition_ok_remove [of _ "mo_websocket ?m" ?i]
      by (auto simp: in_phase_update)
  qed
  with E show thesis by (intro that [of ?mo]) simp_all
qed

lemma follows_mono: "follows cell sample g n mo \<Longrightarrow> n \<le> m \<Longrightarrow> follows cell sample g m mo"
  by (auto simp: follows_def)

lemma follows_cong:
  "mo_markers mo' = mo_markers mo \<Longrightarrow> mo_samples mo' = mo_samples mo \<Longrightarrow> mo_http mo' = mo_http mo \<Longrightarrow>
   mo_websocket mo' = mo_websocket mo \<Longrightarrow> follows cell sample g n mo' = follows cell sample g n mo"
  by (simp add: follows_def)

lemma append_journal_follows [simp]: "follows cell sample g n (append_journal mo r) = follows cell sample g n mo"
  by (rule follows_cong) (simp_all add: append_journal_def Let_def)

lemma updates_follows [simp]: "follows cell sample g n (mo\<lparr>mo_socket_updates := u\<rparr>) = follows cell sample g n mo"
  by (rule follows_cong) simp_all

lemma batch_follows: "follows cell sample g n (snd (batch drain mo cursor)) = follows cell sample g n mo"
proof -
  have "follows cell sample g n (foldl append_journal m rs) = follows cell sample g n m" for m rs
    by (induction rs arbitrary: m) simp_all
  then show ?thesis by (simp add: batch_def Let_def drain_updates_def)
qed

lemma publish_follows:
  assumes "follows cell sample g n mo" and "inj cell" and "event_ok cell sample (Publish r)" and "n < 2 ^ 64 - 1"
  shows "follows cell sample (registry_step g (Publish r)) (Suc n) (publish_request row_size mo r)"
proof (cases "rg_phase g (tr_id r) = Closed")
  case True
  then have "mo_markers mo (tr_monitor_state r) = 3" using followsD(1) [OF assms(1), of "tr_id r"] assms(3) by simp
  with True follows_mono [OF assms(1)] show ?thesis by (simp add: publish_request_def Let_def observe_closed)
next
  case False
  let ?m = "mo\<lparr>mo_socket_updates := AList.delete (tr_id r) (mo_socket_updates mo)\<rparr>"
  have "follows cell sample g n ?m" using assms(1) by simp
  then obtain mo' where "observe row_size ?m r = (True, mo')"
    and "follows cell sample (g\<lparr>rg_phase := (rg_phase g)(tr_id r := phase_of r)\<rparr>) (Suc n) mo'"
    using observe_follows [OF _ False assms(2), of sample n ?m row_size] assms(3,4) by auto
  with False show ?thesis by (simp add: publish_request_def)
qed

lemma progress_follows:
  assumes "follows cell sample g n mo" and "inj cell" and "inj sample" and "event_ok cell sample (Progress r now)" and "n < 2 ^ 64 - 1"
  shows "follows cell sample (registry_step g (Progress r now)) (Suc n) (publish_socket_progress row_size mo r now)"
proof (cases "tr_completed r \<or> rg_phase g (tr_id r) = Closed")
  case True
  then have "tr_completed r \<or> mo_markers mo (tr_monitor_state r) = 3"
    using followsD(1) [OF assms(1), of "tr_id r"] assms(4) by auto
  with True follows_mono [OF assms(1)] show ?thesis by (auto simp: publish_socket_progress_def)
next
  case opened: False
  let ?w = "mo\<lparr>mo_websocket := coalesce_row r (mo_websocket mo), mo_socket_updates :=
    map (\<lambda>(i, seen_at, row). (i, seen_at, if i = tr_id r then coalesce_socket_progress row r else row)) (mo_socket_updates mo)\<rparr>"
  let ?sampled = "case rg_sampled g (tr_id r) of None \<Rightarrow> False | Some seen_at \<Rightarrow> now - seen_at < socket_sample_interval"
  have W: "follows cell sample g n ?w" using assms(1) partition_ok_coalesce by (simp add: follows_def)
  have S: "mo_samples mo (tr_monitor_sampled_at r) = rg_sampled g (tr_id r)" "mo_markers mo (tr_monitor_state r) \<noteq> 3"
    using followsD(1,2) [OF assms(1), of "tr_id r"] assms(4) opened by auto
  show ?thesis
  proof (cases ?sampled)
    case True
    then have "publish_socket_progress row_size mo r now = ?w"
      using opened S by (auto simp: publish_socket_progress_def Let_def split: option.splits)
    with True opened W show ?thesis using follows_mono by (auto split: option.splits)
  next
    case False
    let ?m = "?w\<lparr>mo_samples := (mo_samples mo)(sample (tr_id r) := Some now)\<rparr>"
    let ?g = "g\<lparr>rg_sampled := (rg_sampled g)(tr_id r := Some now)\<rparr>"
    have "follows cell sample ?g n ?m"
      using W assms(3) by (auto simp: follows_def in_phase_def dest: injD)
    then obtain mo' where O: "observe row_size ?m r = (True, mo')"
      and F: "follows cell sample (?g\<lparr>rg_phase := (rg_phase ?g)(tr_id r := phase_of r)\<rparr>) (Suc n) mo'"
      using observe_follows [OF _ _ assms(2), of sample ?g n ?m r row_size] assms(4,5) opened by auto
    have R: "registry_step g (Progress r now) = ?g\<lparr>rg_phase := (rg_phase ?g)(tr_id r := phase_of r)\<rparr>"
      using opened False by simp
    have "\<exists>u. publish_socket_progress row_size mo r now = mo'\<lparr>mo_socket_updates := u\<rparr>"
      using opened S False O assms(4)
      by (auto simp: publish_socket_progress_def Let_def intro: exI [of _ "mo_socket_updates mo'"] split: option.splits)
    with F R show ?thesis by auto
  qed
qed

lemma drop_follows:
  assumes "follows cell sample g n mo" and "inj cell"
  shows "follows cell sample (registry_step g (Drop_Lease i c)) (Suc n) (active_lease_drop mo i (cell i))"
proof -
  note F = followsD [OF assms(1)]
  let ?g = "g\<lparr>rg_phase := (rg_phase g)(i := Closed)\<rparr>"
  have L: "in_phase ?g Live_Http = in_phase g Live_Http - {i}" "in_phase ?g Live_Socket = in_phase g Live_Socket - {i}"
    by (simp_all add: in_phase_update)
  have "card (in_phase g q - {i}) \<le> Suc n" if "finite (in_phase g q)" "card (in_phase g q) \<le> n" for q
    using card_mono [OF that(1), of "in_phase g q - {i}"] that(2) by simp
  then have N: "card (in_phase g Live_Http - {i}) \<le> Suc n" "card (in_phase g Live_Socket - {i}) \<le> Suc n" using F(3-6) by blast+
  have "\<forall>j. ((mo_markers mo)(cell i := 3)) (cell j) = marker_of (rg_phase ?g j)"
    using F(1) assms(2) by (auto dest: injD)
  then show ?thesis
    using F N L partition_ok_remove [OF F(9), of i] partition_ok_remove [OF F(10), of i]
    by (cases "rg_phase g i") (simp_all add: follows_def active_lease_drop_def Let_def del: fun_upd_apply)
qed

lemma step_follows:
  assumes "follows cell sample g n mo" and "inj cell" and "inj sample" and "event_ok cell sample e" and "n < 2 ^ 64 - 1"
  shows "follows cell sample (registry_step g e) (Suc n) (monitor_step row_size drain mo e)"
proof (cases e)
  case (Read_Batch c)
  with assms(1) show ?thesis using batch_follows follows_mono by fastforce
qed (use assms publish_follows progress_follows drop_follows in auto)

lemma run_follows:
  assumes "follows cell sample g n mo" and "inj cell" and "inj sample" and "list_all (event_ok cell sample) es" and "n + length es < 2 ^ 64"
  shows "follows cell sample (foldl registry_step g es) (n + length es) (foldl (monitor_step row_size drain) mo es)"
  using assms
proof (induction es arbitrary: g n mo)
  case (Cons e es)
  have "follows cell sample (registry_step g e) (Suc n) (monitor_step row_size drain mo e)"
    using Cons.prems by (intro step_follows) auto
  from Cons.IH [OF this] Cons.prems show ?case by simp
qed simp

lemma new_follows: "follows cell sample registry_new 0 (monitor_new instance_id capacity)"
  by (simp add: follows_def registry_new_def monitor_new_def with_active_limits_def in_phase_def partition_ok_new)
    (simp add: partition_new_def)

lemma saturated_iff:
  assumes "partition_ok ids p" and "pt_total p = card ids" and "finite ids"
  shows "cv_saturated (partition_coverage p) \<longleftrightarrow> row_ids p \<noteq> ids"
proof -
  have "length (pt_rows p) = card (row_ids p)"
    using assms(1) distinct_card [of "map fst (pt_rows p)"] by (simp add: partition_ok_def row_ids_def)
  moreover have "row_ids p \<subseteq> ids" using assms(1) by (simp add: partition_ok_def)
  ultimately show ?thesis
    using assms(2,3) psubset_card_mono [of ids "row_ids p"] by (auto simp: partition_coverage_def)
qed

text \<open>C5 (refinement): whatever the order of publications, progress samples, dropped leases and read batches, the active
  counts the monitor reports are the numbers of requests that are live as HTTP requests and as
  WebSockets; each protocol keeps at most 2048 rows of at most 2 MiB, all of live requests; and it reports saturation exactly
  when some live request has no row. A request has its own id, marker and sampling time, and fewer than 2^64 events
  happen.\<close>

theorem active_counts_exact:
  assumes "inj cell" and "inj sample" and "list_all (event_ok cell sample) es" and "length es < 2 ^ 64"
  shows "let mo = foldl (monitor_step row_size drain) (monitor_new instance_id capacity) es; g = foldl registry_step registry_new es;
             counts = active_counts_of mo; http = partition_coverage (mo_http mo); ws = partition_coverage (mo_websocket mo)
         in ac_http counts = card (in_phase g Live_Http) \<and> ac_websocket counts = card (in_phase g Live_Socket) \<and>
            cv_retained http \<le> 2048 \<and> cv_retained ws \<le> 2048 \<and>
            row_sizes (pt_rows (mo_http mo)) \<le> 2097152 \<and> row_sizes (pt_rows (mo_websocket mo)) \<le> 2097152 \<and>
            row_ids (mo_http mo) \<subseteq> in_phase g Live_Http \<and> row_ids (mo_websocket mo) \<subseteq> in_phase g Live_Socket \<and>
            (cv_saturated http \<longleftrightarrow> row_ids (mo_http mo) \<noteq> in_phase g Live_Http) \<and>
            (cv_saturated ws \<longleftrightarrow> row_ids (mo_websocket mo) \<noteq> in_phase g Live_Socket)"
proof -
  let ?mo = "foldl (monitor_step row_size drain) (monitor_new instance_id capacity) es"
  let ?g = "foldl registry_step registry_new es"
  have "follows cell sample ?g (0 + length es) ?mo" using assms by (intro run_follows new_follows) simp_all
  note F = followsD [OF this]
  have S: "cv_saturated (partition_coverage (mo_http ?mo)) \<longleftrightarrow> row_ids (mo_http ?mo) \<noteq> in_phase ?g Live_Http"
    "cv_saturated (partition_coverage (mo_websocket ?mo)) \<longleftrightarrow> row_ids (mo_websocket ?mo) \<noteq> in_phase ?g Live_Socket"
    using F saturated_iff by blast+
  have P: "cv_retained (partition_coverage p) \<le> 2048 \<and> row_sizes (pt_rows p) \<le> 2097152 \<and> row_ids p \<subseteq> ids" if "partition_ok ids p" for p ids
    using that by (simp add: partition_ok_def partition_coverage_def active_record_limit_def active_byte_limit_def)
  show ?thesis
    using F(7,8) S P [OF F(9)] P [OF F(10)] by (simp only: Let_def active_counts_of_def active_counts.simps simp_thms)
qed

theorem active_counts_exact_witness:
  "ac_http (active_counts_of (foldl (monitor_step (\<lambda>_. Some 400) id) (monitor_new ''i'' 512)
     [Publish (traffic_request_default (to_nat ''a'') (to_nat ''a'') ''a'' ''i'' 0),
      Publish (traffic_request_default (to_nat ''b'') (to_nat ''b'') ''b'' ''i'' 0),
      Drop_Lease ''b'' (to_nat ''b'')])) = 1"
proof -
  let ?es = "[Publish (traffic_request_default (to_nat ''a'') (to_nat ''a'') ''a'' ''i'' 0),
      Publish (traffic_request_default (to_nat ''b'') (to_nat ''b'') ''b'' ''i'' 0), Drop_Lease ''b'' (to_nat ''b'')]"
  have "in_phase (foldl registry_step registry_new ?es) Live_Http = {''a''}"
    by (auto simp: in_phase_def registry_new_def phase_of_def traffic_request_default_def tr_protocol_def default_diagnostics_def)
  then show ?thesis
    using active_counts_exact [of to_nat to_nat ?es "\<lambda>_. Some 400" id "''i''" 512]
    by (simp only: Let_def) (simp add: traffic_request_default_def)
qed

end
