(* ===== verification/Traffic_Journal.thy ===== *)
theory Traffic_Journal
  imports Traffic_Counts
begin

text \<open>
  The journal of the traffic monitor against the log of everything that was ever appended to it: the journal
  is the end of the log, numbered consecutively, and a reader who presents the cursor of its last batch
  either receives the newest version of every request appended since, or is told of the gap, exactly when an
  entry it had not seen was evicted.
\<close>

section \<open>The log\<close>

text \<open>The entries an event appends.\<close>

fun appended :: "update_order \<Rightarrow> monitor \<Rightarrow> traffic_event \<Rightarrow> traffic_request list" where
  "appended drain mo (Publish r) = (if mo_markers mo (tr_monitor_state r) \<noteq> 3 \<or> tr_completed r then [r] else [])"
| "appended drain mo (Progress r now) = []"
| "appended drain mo (Drop_Lease i cell) = []"
| "appended drain mo (Read_Batch cursor) = map (\<lambda>(_, _, r). r) (drain (mo_socket_updates mo))"

fun run_log :: "row_size \<Rightarrow> update_order \<Rightarrow> monitor \<Rightarrow> traffic_event list \<Rightarrow> traffic_request list" where
  "run_log row_size drain mo [] = []"
| "run_log row_size drain mo (e # es) = appended drain mo e @ run_log row_size drain (monitor_step row_size drain mo e) es"

definition journal_ok :: "traffic_request list \<Rightarrow> monitor \<Rightarrow> bool" where
  "journal_ok rlog mo \<longleftrightarrow>
     1 \<le> mo_capacity mo \<and> mo_sequence mo = length rlog \<and>
     mo_journal mo = drop (length rlog - mo_capacity mo) (enumerate 1 rlog)"

definition newest_in :: "traffic_request list \<Rightarrow> string \<Rightarrow> traffic_request option" where
  "newest_in rlog i = find (\<lambda>r. tr_id r = i) (rev rlog)"

section \<open>Every operation appends\<close>

lemma append_journal_ok:
  assumes "journal_ok rlog mo"
  shows "journal_ok (rlog @ [r]) (append_journal mo r)"
proof -
  let ?c = "mo_capacity mo" let ?L = "length rlog"
  let ?j = "drop (?L - ?c) (enumerate 1 rlog) @ [(Suc ?L, r)]"
  have "length ?j = Suc (min ?L ?c)" by (simp add: min_def)
  moreover have "drop (Suc (min ?L ?c) - ?c) ?j = drop (Suc ?L - ?c) (enumerate 1 (rlog @ [r]))"
    using assms by (auto simp: journal_ok_def enumerate_append_eq min_def Suc_diff_le)
  ultimately show ?thesis using assms by (simp add: journal_ok_def append_journal_def Let_def)
qed

lemma foldl_append_ok: "journal_ok rlog mo \<Longrightarrow> journal_ok (rlog @ rs) (foldl append_journal mo rs)"
proof (induction rs arbitrary: rlog mo)
  case (Cons r rs)
  from Cons.IH [OF append_journal_ok [OF Cons.prems, of r]] show ?case by simp
qed simp

lemma journal_ok_cong:
  "mo_capacity mo' = mo_capacity mo \<Longrightarrow> mo_sequence mo' = mo_sequence mo \<Longrightarrow> mo_journal mo' = mo_journal mo \<Longrightarrow>
   journal_ok rlog mo' = journal_ok rlog mo"
  by (simp add: journal_ok_def)

lemma observe_keeps:
  "observe row_size mo r = (b, mo') \<Longrightarrow> mo_capacity mo' = mo_capacity mo \<and> mo_sequence mo' = mo_sequence mo \<and>
     mo_journal mo' = mo_journal mo \<and> mo_instance_id mo' = mo_instance_id mo \<and> (b \<longleftrightarrow> mo_markers mo (tr_monitor_state r) \<noteq> 3)"
  by (auto simp: observe_def Let_def split: if_splits)

lemma foldl_append_fields:
  "mo_instance_id (foldl append_journal mo rs) = mo_instance_id mo" "mo_capacity (foldl append_journal mo rs) = mo_capacity mo"
  by (induction rs arbitrary: mo) (simp_all add: append_journal_def Let_def)

lemma publish_ok:
  "journal_ok rlog mo \<Longrightarrow> journal_ok (rlog @ appended drain mo (Publish r)) (publish_request row_size mo r) \<and>
     mo_instance_id (publish_request row_size mo r) = mo_instance_id mo \<and> mo_capacity (publish_request row_size mo r) = mo_capacity mo"
proof -
  assume J: "journal_ok rlog mo"
  obtain b mo' where O: "observe row_size (mo\<lparr>mo_socket_updates := AList.delete (tr_id r) (mo_socket_updates mo)\<rparr>) r = (b, mo')"
    by (cases "observe row_size (mo\<lparr>mo_socket_updates := AList.delete (tr_id r) (mo_socket_updates mo)\<rparr>) r")
  note K = observe_keeps [OF O]
  then have "journal_ok rlog mo'" using J by (simp add: journal_ok_def)
  then show ?thesis
    using K O append_journal_ok [of rlog mo' r] by (auto simp: publish_request_def append_journal_def Let_def)
qed

lemma publish_elsewhere:
  "mo_socket_updates (publish_request row_size mo r) = AList.delete (tr_id r) (mo_socket_updates mo)"
  "c \<noteq> tr_monitor_state r \<Longrightarrow> mo_markers (publish_request row_size mo r) c = mo_markers mo c"
proof -
  let ?m = "mo\<lparr>mo_socket_updates := AList.delete (tr_id r) (mo_socket_updates mo)\<rparr>"
  obtain b mo' where O: "observe row_size ?m r = (b, mo')" by (cases "observe row_size ?m r")
  then have K: "mo_socket_updates mo' = mo_socket_updates ?m" "c \<noteq> tr_monitor_state r \<Longrightarrow> mo_markers mo' c = mo_markers mo c"
    by (auto simp: observe_def Let_def move_marker_def split: if_splits)
  show "mo_socket_updates (publish_request row_size mo r) = AList.delete (tr_id r) (mo_socket_updates mo)"
    using O K(1) by (simp add: publish_request_def append_journal_def Let_def)
  show "mo_markers (publish_request row_size mo r) c = mo_markers mo c" if "c \<noteq> tr_monitor_state r"
    using O K(2) that by (simp add: publish_request_def append_journal_def Let_def)
qed

lemma progress_keeps:
  "mo_capacity (publish_socket_progress row_size mo r now) = mo_capacity mo \<and>
   mo_sequence (publish_socket_progress row_size mo r now) = mo_sequence mo \<and>
   mo_journal (publish_socket_progress row_size mo r now) = mo_journal mo \<and>
   mo_instance_id (publish_socket_progress row_size mo r now) = mo_instance_id mo"
  by (auto simp: publish_socket_progress_def Let_def split: prod.splits dest!: observe_keeps)

lemma drop_keeps:
  "mo_capacity (active_lease_drop mo i c) = mo_capacity mo \<and> mo_sequence (active_lease_drop mo i c) = mo_sequence mo \<and>
   mo_journal (active_lease_drop mo i c) = mo_journal mo \<and> mo_instance_id (active_lease_drop mo i c) = mo_instance_id mo"
  by (simp add: active_lease_drop_def Let_def)

lemma drain_ok:
  assumes "journal_ok rlog mo"
  shows "journal_ok (rlog @ appended drain mo (Read_Batch c)) (drain_updates drain mo)"
proof -
  have "journal_ok rlog (mo\<lparr>mo_socket_updates := []\<rparr>)" using assms by (simp add: journal_ok_def)
  from foldl_append_ok [OF this] show ?thesis by (simp add: drain_updates_def)
qed

lemma drain_fields:
  "mo_instance_id (drain_updates drain mo) = mo_instance_id mo" "mo_capacity (drain_updates drain mo) = mo_capacity mo"
  by (simp_all add: drain_updates_def foldl_append_fields)

lemma batch_state: "snd (batch drain mo cursor) = drain_updates drain mo"
  by (simp add: batch_def Let_def)

lemma step_journal:
  assumes "journal_ok rlog mo"
  shows "journal_ok (rlog @ appended drain mo e) (monitor_step row_size drain mo e) \<and>
    mo_instance_id (monitor_step row_size drain mo e) = mo_instance_id mo \<and> mo_capacity (monitor_step row_size drain mo e) = mo_capacity mo"
proof (cases e)
  case (Publish r)
  with publish_ok [OF assms] show ?thesis by simp
next
  case (Progress r now)
  with assms progress_keeps [of row_size mo r now] show ?thesis by (simp add: journal_ok_def)
next
  case (Drop_Lease i c)
  with assms drop_keeps [of mo i c] show ?thesis by (simp add: journal_ok_def)
next
  case (Read_Batch c)
  with drain_ok [OF assms] show ?thesis by (simp add: batch_state drain_fields)
qed

lemma run_journal:
  assumes "journal_ok rlog mo"
  shows "journal_ok (rlog @ run_log row_size drain mo es) (foldl (monitor_step row_size drain) mo es) \<and>
    mo_instance_id (foldl (monitor_step row_size drain) mo es) = mo_instance_id mo \<and>
    mo_capacity (foldl (monitor_step row_size drain) mo es) = mo_capacity mo"
  using assms
proof (induction es arbitrary: rlog mo)
  case (Cons e es)
  from step_journal [OF Cons.prems, of drain e row_size] Cons.IH [of "rlog @ appended drain mo e" "monitor_step row_size drain mo e"]
  show ?case by simp
qed simp

lemma default_request [simp]:
  "tr_monitor_state (traffic_request_default cell sample i inst now) = cell" "tr_id (traffic_request_default cell sample i inst now) = i"
  "\<not> tr_completed (traffic_request_default cell sample i inst now)"
  by (simp_all add: traffic_request_default_def)

lemma run_log_append:
  "run_log row_size drain mo (xs @ ys) =
     run_log row_size drain mo xs @ run_log row_size drain (foldl (monitor_step row_size drain) mo xs) ys"
  by (induction xs arbitrary: mo) simp_all

lemma new_journal: "journal_ok [] (monitor_new instance_id capacity)"
  by (simp add: journal_ok_def monitor_new_def with_active_limits_def)

section \<open>Cursors\<close>

lemma rsplit_colon_append: "CHR '':'' \<notin> set b \<Longrightarrow> rsplit_colon (a @ '':'' @ b) = Some (a, b)"
proof -
  assume "CHR '':'' \<notin> set b"
  then have "split_once (CHR '':'') (rev b @ CHR '':'' # rev a) = Some (rev b, rev a)"
    by (simp only: split_once_Some) simp
  then show ?thesis by (simp add: rsplit_colon_def)
qed

lemma parse_show: "n < 2 ^ 64 \<Longrightarrow> parse_u64 (show_nat n) = Some n"
proof -
  assume n: "n < 2 ^ 64"
  obtain d ds where D: "show_nat n = d # ds" by (metis list.exhaust show_nat.simps snoc_eq_iff_butlast list.distinct(1))
  have "is_ascii_digit d" using show_nat_digits [of n] by (simp add: D)
  then have "d \<noteq> CHR ''+''" by (auto simp: is_ascii_digit_def byte_def)
  then show ?thesis using n show_nat_digits [of n] read_show_nat [of n] by (simp add: parse_u64_def Let_def D)
qed

lemma cursor_roundtrip:
  "n < 2 ^ 64 \<Longrightarrow> cursor_sequence mo (Some (mo_instance_id mo @ '':'' @ show_nat n)) = Some n"
  using rsplit_colon_append [of "show_nat n" "mo_instance_id mo"] show_nat_notin [of "CHR '':''" n]
  by (simp add: cursor_sequence_def parse_show is_ascii_digit_def byte_def)

section \<open>What a reader receives\<close>

lemma newest_first_of_each:
  "find (\<lambda>r. tr_id r = i) (first_of_each seen rs) = (if i \<in> set seen then None else find (\<lambda>r. tr_id r = i) rs)"
  by (induction rs arbitrary: seen) auto

lemma first_of_each_distinct:
  "distinct (map tr_id (first_of_each seen rs)) \<and> set (map tr_id (first_of_each seen rs)) \<inter> set seen = {}"
proof (induction rs arbitrary: seen)
  case (Cons r rs)
  then show ?case using Cons.IH [of seen] Cons.IH [of "tr_id r # seen"] by auto
qed simp

lemma take_enumerate: "x \<in> set (take k (enumerate 1 xs)) \<Longrightarrow> fst x \<le> k"
  by (auto simp: in_set_conv_nth nth_enumerate_eq)

lemma filter_enumerate:
  "k \<le> length xs \<Longrightarrow> m \<le> k \<Longrightarrow> map snd (filter (\<lambda>(n, _). k < n) (drop m (enumerate 1 xs))) = drop k xs"
proof -
  assume k: "k \<le> length xs" and m: "m \<le> k"
  let ?e = "enumerate 1 xs"
  have lo: "filter (\<lambda>(n, _). k < n) (drop m (take k ?e)) = []"
    using take_enumerate [of _ k xs] by (force simp: filter_empty_conv dest: in_set_dropD)
  have hi: "filter (\<lambda>(n, _). k < n) (drop k ?e) = drop k ?e"
    by (auto simp: filter_id_conv in_set_conv_nth nth_enumerate_eq)
  have "drop m ?e = drop m (take k ?e) @ drop k ?e"
    using k m by (metis append_take_drop_id drop_append length_take length_enumerate min.absorb2 diff_is_0_eq drop0)
  with lo hi show ?thesis by (simp add: drop_map [symmetric])
qed

lemma oldest_sequence_eq:
  assumes "journal_ok rlog mo"
  shows "oldest_sequence mo = Suc (length rlog - mo_capacity mo)"
proof (cases "mo_journal mo")
  case Nil
  with assms have "rlog = []" by (cases rlog) (auto simp: journal_ok_def)
  with Nil assms show ?thesis by (simp add: oldest_sequence_def journal_ok_def)
next
  case (Cons x j)
  then have D: "drop (length rlog - mo_capacity mo) (enumerate 1 rlog) = x # j" using assms by (simp add: journal_ok_def)
  then have "length rlog - mo_capacity mo < length rlog"
    by (metis drop_all length_enumerate list.distinct(1) not_le)
  moreover have "x = enumerate 1 rlog ! (length rlog - mo_capacity mo)"
    using D calculation by (metis hd_drop_conv_nth length_enumerate list.sel(1))
  ultimately show ?thesis using Cons by (cases x) (simp add: oldest_sequence_def nth_enumerate_eq)
qed

lemma batch_rows:
  assumes "journal_ok rlog (drain_updates drain mo)" and "cursor_sequence (drain_updates drain mo) (Some c) = Some n"
    and "n \<le> length rlog" and "length rlog < 2 ^ 64 - 1"
  shows "tb_gap (fst (batch drain mo (Some c))) \<longleftrightarrow> mo_capacity mo < length rlog - n"
    and "tb_rows (fst (batch drain mo (Some c))) =
      first_of_each [] (rev (drop (if mo_capacity mo < length rlog - n then length rlog - mo_capacity mo else n) rlog))"
proof -
  let ?m = "drain_updates drain mo"
  have J: "mo_sequence ?m = length rlog" "mo_journal ?m = drop (length rlog - mo_capacity mo) (enumerate 1 rlog)"
    using assms(1) by (simp_all add: journal_ok_def drain_fields)
  have O: "oldest_sequence ?m = Suc (length rlog - mo_capacity mo)"
    using oldest_sequence_eq [OF assms(1)] by (simp add: drain_fields)
  have A: "saturating_add n 1 = n + 1" using assms(3,4) by (simp add: saturating_add_def)
  show G: "tb_gap (fst (batch drain mo (Some c))) \<longleftrightarrow> mo_capacity mo < length rlog - n"
    using assms(2,3) J(1) O A by (auto simp: batch_def Let_def)
  have all: "map snd (filter (\<lambda>(n, _). 0 < n) (drop m (enumerate 1 rlog))) = drop m rlog" for m
    by (subst filter_True) (auto simp: in_set_conv_nth nth_enumerate_eq drop_map [symmetric] dest!: in_set_dropD)
  have "tb_rows (fst (batch drain mo (Some c))) = first_of_each [] (map snd (filter (\<lambda>(k, _).
      (if mo_capacity mo < length rlog - n then 0 else n) < k) (rev (mo_journal ?m))))"
    using assms(2) G by (simp add: batch_def Let_def)
  also have "\<dots> = first_of_each [] (rev (drop (if mo_capacity mo < length rlog - n then length rlog - mo_capacity mo else n) rlog))"
    using all filter_enumerate [of n rlog "length rlog - mo_capacity mo"] assms(3)
    by (auto simp: J(2) rev_filter [symmetric] rev_map [symmetric])
  finally show "tb_rows (fst (batch drain mo (Some c))) = \<dots>" .
qed

text \<open>C2 (functional): a reader of the live feed reads a batch, then any events happen, then it presents the cursor of that
  batch again. The second batch reports a gap exactly when more entries were appended since than the journal
  holds, that is when an entry the reader has not seen was evicted. Without a gap its rows are, one
  per request, the newest version of every request appended since the first batch; with a gap, of every request among the
  last entries the journal holds.\<close>

theorem batch_cursor_complete:
  assumes "length (run_log row_size drain (monitor_new instance_id capacity) (before @ Read_Batch c # between @ [Read_Batch None]))
    < 2 ^ 64 - 1"
  shows "let mo0 = foldl (monitor_step row_size drain) (monitor_new instance_id capacity) before;
             b1 = fst (batch drain mo0 c); mo1 = snd (batch drain mo0 c);
             mo2 = foldl (monitor_step row_size drain) mo1 between;
             b2 = fst (batch drain mo2 (Some (tb_cursor b1)));
             news = run_log row_size drain mo1 (between @ [Read_Batch (Some (tb_cursor b1))]);
             every = run_log row_size drain (monitor_new instance_id capacity) (before @ [Read_Batch c]) @ news;
             n = max capacity 1
         in (tb_gap b2 \<longleftrightarrow> n < length news) \<and> distinct (map tr_id (tb_rows b2)) \<and>
            (\<forall>i. find (\<lambda>r. tr_id r = i) (tb_rows b2) =
               newest_in (if tb_gap b2 then drop (length every - n) every else news) i)"
proof -
  let ?new = "monitor_new instance_id capacity" let ?step = "monitor_step row_size drain"
  define mo0 where "mo0 = foldl ?step ?new before"
  define b1 where "b1 = fst (batch drain mo0 c)"
  define mo1 where "mo1 = snd (batch drain mo0 c)"
  define mo2 where "mo2 = foldl ?step mo1 between"
  define b2 where "b2 = fst (batch drain mo2 (Some (tb_cursor b1)))"
  define old where "old = run_log row_size drain ?new (before @ [Read_Batch c])"
  define news where "news = run_log row_size drain mo1 (between @ [Read_Batch (Some (tb_cursor b1))])"
  have new: "mo_instance_id ?new = instance_id" "mo_capacity ?new = max capacity 1"
    by (simp_all add: monitor_new_def with_active_limits_def)
  have J1: "journal_ok old mo1" "mo_instance_id mo1 = instance_id" "mo_capacity mo1 = max capacity 1"
    using run_journal [OF new_journal, of row_size drain instance_id capacity "before @ [Read_Batch c]"] new
    by (simp_all add: old_def mo1_def mo0_def)
  have J2: "mo_instance_id mo2 = instance_id" "mo_capacity mo2 = max capacity 1"
    using run_journal [OF J1(1), of row_size drain between] J1(2,3) by (simp_all add: mo2_def)
  have J3: "journal_ok (old @ news) (drain_updates drain mo2)"
    using run_journal [OF J1(1), of row_size drain "between @ [Read_Batch (Some (tb_cursor b1))]"]
    by (simp add: news_def mo2_def batch_state)
  have "length (old @ news) < 2 ^ 64 - 1"
    using assms by (simp add: old_def news_def run_log_append mo1_def mo0_def)
  moreover have "tb_cursor b1 = instance_id @ '':'' @ show_nat (length old)"
    using J1 by (simp add: b1_def mo1_def batch_def Let_def journal_ok_def)
  then have "cursor_sequence (drain_updates drain mo2) (Some (tb_cursor b1)) = Some (length old)"
    using cursor_roundtrip [of "length old" "drain_updates drain mo2"] calculation J2(1) by (simp add: drain_fields)
  ultimately have B: "tb_gap b2 \<longleftrightarrow> max capacity 1 < length news"
    "tb_rows b2 = first_of_each [] (rev (if tb_gap b2 then drop (length (old @ news) - max capacity 1) (old @ news) else news))"
    using batch_rows [OF J3, of "tb_cursor b1" "length old"] J2(2) by (simp_all add: b2_def)
  have "distinct (map tr_id (tb_rows b2))" using first_of_each_distinct [of "[]"] B(2) by metis
  moreover have "find (\<lambda>r. tr_id r = i) (tb_rows b2) =
      newest_in (if tb_gap b2 then drop (length (old @ news) - max capacity 1) (old @ news) else news) i" for i
    by (subst B(2)) (simp add: newest_first_of_each newest_in_def)
  ultimately show ?thesis
    using B(1) unfolding Let_def by (fold mo0_def, fold b1_def mo1_def, fold mo2_def, fold b2_def news_def old_def) blast
qed

theorem batch_cursor_complete_witness:
  "let r = traffic_request_default 0 0 ''a'' ''i'' 0; s = traffic_request_default 1 1 ''b'' ''i'' 0; e = (\<lambda>_. Some 400);
       mo1 = snd (batch id (publish_request e (monitor_new ''i'' 512) r) None);
       b1 = fst (batch id (publish_request e (monitor_new ''i'' 512) r) None)
   in \<not> tb_gap (fst (batch id (publish_request e mo1 s) (Some (tb_cursor b1)))) \<and>
      find (\<lambda>q. tr_id q = ''b'') (tb_rows (fst (batch id (publish_request e mo1 s) (Some (tb_cursor b1))))) = Some s"
proof -
  let ?r = "traffic_request_default 0 0 ''a'' ''i'' 0" let ?s = "traffic_request_default 1 1 ''b'' ''i'' 0"
  let ?e = "\<lambda>_. Some 400"
  let ?new = "monitor_new ''i'' 512"
  let ?p = "publish_request ?e ?new ?r" let ?mo1 = "snd (batch id ?p None)"
  have U: "mo_socket_updates ?p = []" "mo_markers ?p 1 = 0"
    by (simp_all add: publish_elsewhere monitor_new_def with_active_limits_def)
  have M: "mo_socket_updates ?mo1 = []" "mo_markers ?mo1 1 = 0"
    using U by (simp_all add: batch_state drain_updates_def)
  have P: "mo_socket_updates (publish_request ?e ?mo1 ?s) = []"
    by (simp add: publish_elsewhere M)
  have N: "run_log ?e id ?mo1 ([Publish ?s] @ [Read_Batch x]) = [?s]" for x
    using M(2) P by simp
  have L: "length (run_log ?e id ?new ([Publish ?r] @ Read_Batch None # [Publish ?s] @ [Read_Batch None])) < 2 ^ 64 - 1"
    using N [of None] by (simp add: U)
  have "newest_in [?s] ''b'' = Some ?s" by (simp add: newest_in_def)
  then show ?thesis
    using batch_cursor_complete [OF L] M P U by (simp add: Let_def)
qed

end
