(* ===== verification/Proxy_Context.thy ===== *)
theory Proxy_Context
  imports Auth_Admission Key_Authentication Route_Settings Foundry Service_Pricing Policies Pii_Redaction Usage Body_Admission
begin

unbundle bit_operations_syntax

text \<open>
  The proxy's view of one request (\<open>gateway-proxy/src/pingora_plane.rs\<close>): the upstreams it may be sent
  to, the fields of \<open>PingoraContext\<close> the modelled callbacks read and write, and the small decisions on
  credentials, paths and headers. Header names compare without regard to case. The URL and URI parsers are
  parameters.
\<close>

section \<open>Upstreams\<close>

datatype credential_header_mode = AuthorizationBearer | CustomHeader

datatype credential_value_format = RawCredential | BearerCredential

record upstream_config =
  up_host :: string
  up_port :: nat
  up_tls :: bool
  up_sni :: string
  up_service_key :: string
  up_credential_header_mode :: credential_header_mode
  up_credential_header_name :: "string option"
  up_credential_value_format :: credential_value_format

text \<open>\<open>Url::parse\<close>, and \<open>port_or_known_default\<close> of the parsed URL.\<close>

record url_env =
  ue_parse :: "string \<Rightarrow> url_parts option"
  ue_port :: "string \<Rightarrow> nat option"

definition upstream_from_base_url :: "url_env \<Rightarrow> string \<Rightarrow> string \<Rightarrow> upstream_config gateway_result" where
  "upstream_from_base_url env base_url service_key =
     and_then (ok_or (ue_parse env base_url) InvalidConfiguration) (\<lambda>url.
     and_then (ok_or (url_host_str url) InvalidConfiguration) (\<lambda>host.
     and_then (ok_or (ue_port env base_url) InvalidConfiguration) (\<lambda>port.
     Ok \<lparr>up_host = host, up_port = port, up_tls = (url_scheme url = ''https''), up_sni = host, up_service_key = service_key,
         up_credential_header_mode = AuthorizationBearer, up_credential_header_name = None,
         up_credential_value_format = RawCredential\<rparr>)))"

definition with_litellm_credential_header ::
  "upstream_config \<Rightarrow> credential_header_mode \<Rightarrow> string option \<Rightarrow> credential_value_format \<Rightarrow> upstream_config gateway_result" where
  "with_litellm_credential_header u mode name value_format =
     (if mode = CustomHeader \<and> name = None then Err InvalidConfiguration
      else Ok (u\<lparr>up_credential_header_mode := mode, up_credential_header_name := map_option trim name,
                up_credential_value_format := value_format\<rparr>))"

definition host_header_value :: "upstream_config \<Rightarrow> string" where
  "host_header_value u =
     (let host = (if CHR '':'' \<in> set (up_host u) \<and> \<not> starts_with (up_host u) ''['' then ''['' @ up_host u @ '']'' else up_host u)
      in if up_tls u \<and> up_port u = 443 \<or> \<not> up_tls u \<and> up_port u = 80 then host
         else host @ '':'' @ show_nat (up_port u))"

definition custom_header_credential_value :: "upstream_config \<Rightarrow> string" where
  "custom_header_credential_value u =
     (case up_credential_value_format u of
        RawCredential \<Rightarrow> up_service_key u
      | BearerCredential \<Rightarrow> ''Bearer '' @ up_service_key u)"

definition service_upstream_from_registration ::
  "url_env \<Rightarrow> service_env \<Rightarrow> service_registration \<Rightarrow> upstream_config gateway_result" where
  "service_upstream_from_registration env senv registration =
     and_then (ensure_routable senv registration) (\<lambda>_.
       upstream_from_base_url env (case sr_upstream_base_url registration of Some u \<Rightarrow> u | None \<Rightarrow> [])
         (case sr_credential_secret registration of Some c \<Rightarrow> c | None \<Rightarrow> []))"

record proxy_config =
  px_litellm :: upstream_config
  px_direct_openai :: "upstream_config option"
  px_worker_token :: "string option"
  px_relayna_key_header :: string

section \<open>The request context\<close>

record foundry_runtime_config =
  fc_id :: string
  fc_base_url :: string
  fc_identity :: foundry_identity
  fc_secret :: "string option"
  fc_revision :: int

record execution_event =
  ev_request_id :: string
  ev_key_id :: "string option"
  ev_project_id :: "string option"
  ev_route :: "route option"
  ev_model :: "string option"
  ev_provider :: "provider option"
  ev_guardrail_name :: string
  ev_mode :: guardrail_mode
  ev_action :: guardrail_action
  ev_failure_policy :: failure_policy
  ev_latency_ms :: nat
  ev_reason :: "string option"
  ev_metadata :: json
  ev_created_at :: int

definition execution_events_from_records :: "guardrail_context \<Rightarrow> execution_record list \<Rightarrow> int \<Rightarrow> execution_event list" where
  "execution_events_from_records context records created_at =
     map (\<lambda>r.
       \<lparr>ev_request_id = gc_request_id context, ev_key_id = gc_key_id context, ev_project_id = gc_project_id context,
        ev_route = gc_route context, ev_model = gc_model context, ev_provider = gc_provider context,
        ev_guardrail_name = er_guardrail_name r, ev_mode = er_mode r, ev_action = er_action r,
        ev_failure_policy = er_failure_policy r, ev_latency_ms = min (er_latency_ms r) (2 ^ 63 - 1), ev_reason = er_reason r,
        ev_metadata = er_metadata r, ev_created_at = created_at\<rparr>) records"

record pingora_context =
  pc_access :: endpoint_access
  pc_socket :: bool
  pc_admission_token :: "string option"
  pc_request_id :: string
  pc_route :: "route option"
  pc_route_match :: "route_match option"
  pc_key :: "authenticated_key option"
  pc_entra_identity :: "entra_identity option"
  pc_relayna_key_header :: string
  pc_request_content_type :: "string option"
  pc_response_body_prefix :: string
  pc_policy :: "key_policy option"
  pc_request_body_lease :: "lease option"
  pc_is_streaming :: bool
  pc_first_chunk_recorded :: bool
  pc_budget_reserved :: bool
  pc_request_rate_count :: "int option"
  pc_budget_reserved_at :: "int option"
  pc_reservation_id :: string
  pc_task_id :: "string option"
  pc_run_id :: "string option"
  pc_traceparent :: "string option"
  pc_public_origin :: "string option"
  pc_fallback_count :: int
  pc_foundry :: "(foundry_binding \<times> foundry_runtime_config) option"
  pc_service_upstream :: "upstream_config option"
  pc_service_route_pattern :: "string option"
  pc_service_version :: "string option"
  pc_http_method :: "string option"
  pc_endpoint_path :: "string option"
  pc_endpoint_template :: "string option"
  pc_service_cost_mode :: "service_cost_mode option"
  pc_service_estimated_cost_usd :: "f64 option"
  pc_service_pricing_rules :: "service_pricing_rule list"
  pc_resolved_endpoint_cost :: "resolved_service_cost option"
  pc_resolved_service_cost :: "resolved_service_cost option"
  pc_litellm_upstream :: "upstream_config option"
  pc_litellm_passthrough :: bool
  pc_direct_litellm_passthrough :: bool
  pc_guardrail_definitions :: "guardrail_definition list"
  pc_guardrail_policy :: guardrail_policy
  pc_pre_guardrail_plan :: "guardrail_definition list option"
  pc_post_guardrail_plan :: "guardrail_definition list option"
  pc_during_guardrail_plan :: "guardrail_definition list option"
  pc_guardrail_context :: "guardrail_context option"
  pc_guardrail_events :: "execution_event list"
  pc_guardrail_error :: "gateway_error option"
  pc_rewritten_request_len :: "nat option"
  pc_guardrail_stream_holdback :: string

text \<open>The identifiers are fresh.\<close>

definition new_ctx :: "proxy_config \<Rightarrow> string \<Rightarrow> string \<Rightarrow> pingora_context" where
  "new_ctx px request_id reservation_id =
     \<lparr>pc_access = default_endpoint_access, pc_socket = False, pc_admission_token = None, pc_request_id = request_id,
      pc_route = None, pc_route_match = None, pc_key = None, pc_entra_identity = None,
      pc_relayna_key_header = px_relayna_key_header px, pc_request_content_type = None, pc_response_body_prefix = [],
      pc_policy = None, pc_request_body_lease = None, pc_is_streaming = False, pc_first_chunk_recorded = False,
      pc_budget_reserved = False, pc_request_rate_count = None, pc_budget_reserved_at = None,
      pc_reservation_id = reservation_id, pc_task_id = None, pc_run_id = None, pc_traceparent = None,
      pc_public_origin = None, pc_fallback_count = 0, pc_foundry = None, pc_service_upstream = None,
      pc_service_route_pattern = None, pc_service_version = None, pc_http_method = None, pc_endpoint_path = None,
      pc_endpoint_template = None, pc_service_cost_mode = None, pc_service_estimated_cost_usd = None,
      pc_service_pricing_rules = [], pc_resolved_endpoint_cost = None, pc_resolved_service_cost = None,
      pc_litellm_upstream = None, pc_litellm_passthrough = False, pc_direct_litellm_passthrough = False,
      pc_guardrail_definitions = [], pc_guardrail_policy = default_guardrail_policy, pc_pre_guardrail_plan = None,
      pc_post_guardrail_plan = None, pc_during_guardrail_plan = None, pc_guardrail_context = None,
      pc_guardrail_events = [], pc_guardrail_error = None, pc_rewritten_request_len = None,
      pc_guardrail_stream_holdback = []\<rparr>"

definition provider_for_usage :: "pingora_context \<Rightarrow> provider" where
  "provider_for_usage ctx =
     (if 0 < pc_fallback_count ctx then LiteLlm
      else case pc_route_match ctx of Some m \<Rightarrow> rm_provider m | None \<Rightarrow> LiteLlm)"

definition upstream_for :: "proxy_config \<Rightarrow> pingora_context \<Rightarrow> upstream_config option" where
  "upstream_for px ctx =
     (if pc_route_match ctx = None then Some (px_litellm px)
      else case provider_for_usage ctx of
             LiteLlm \<Rightarrow> (case pc_litellm_upstream ctx of Some u \<Rightarrow> Some u | None \<Rightarrow> Some (px_litellm px))
           | OpenAiCompatible \<Rightarrow> px_direct_openai px
           | InternalService \<Rightarrow> pc_service_upstream ctx)"

definition activate_provider_fallback :: "proxy_config \<Rightarrow> pingora_context \<Rightarrow> bool \<times> pingora_context" where
  "activate_provider_fallback px ctx =
     (if pc_socket ctx \<or> ea_accessa (pc_access ctx) \<noteq> None then (False, ctx)
      else case pc_route_match ctx of
             None \<Rightarrow> (False, ctx)
           | Some matched \<Rightarrow>
               if rm_provider matched \<noteq> OpenAiCompatible \<or> 0 < pc_fallback_count ctx then (False, ctx)
               else if px_direct_openai px = None then (False, ctx)
               else (True, ctx\<lparr>pc_fallback_count := 1\<rparr>))"

section \<open>Credentials\<close>

definition header_value :: "header_map \<Rightarrow> string \<Rightarrow> string option" where
  "header_value headers name =
     (case get_all headers name of v # _ \<Rightarrow> if visible_ascii v then Some v else None | [] \<Rightarrow> None)"

text \<open>The loop over every index of the longer string, with a missing byte as zero.\<close>

definition byte_at :: "string \<Rightarrow> nat \<Rightarrow> nat" where
  "byte_at s i = (if i < length s then byte (s ! i) else 0)"

definition constant_time_eq :: "string \<Rightarrow> string \<Rightarrow> bool" where
  "constant_time_eq actual expected =
     (foldl (\<lambda>diff i. diff OR (byte_at actual i XOR byte_at expected i)) (length actual XOR length expected)
        [0..<max (length actual) (length expected)] = 0)"

definition trusted_worker :: "proxy_config \<Rightarrow> header_map \<Rightarrow> bool" where
  "trusted_worker px headers =
     (case px_worker_token px of
        None \<Rightarrow> False
      | Some expected \<Rightarrow>
          (case header_value headers ''x-relayna-worker-token'' of
             Some actual \<Rightarrow> constant_time_eq actual expected
           | None \<Rightarrow> False))"

definition is_ascii :: "string \<Rightarrow> bool" where
  "is_ascii s = list_all (\<lambda>c. byte c < 128) s"

definition litellm_bearer_credential :: "string option \<Rightarrow> string gateway_result" where
  "litellm_bearer_credential authorization =
     and_then (ok_or authorization MissingAuthorization) (\<lambda>v.
     and_then (ok_or (strip_prefix ''Bearer '' v) MalformedAuthorization) (\<lambda>token.
     let token = trim token
     in if token = [] \<or> contains_white_space token \<or> \<not> is_ascii token then Err MalformedAuthorization else Ok token))"

definition authorization_has_relayna_key :: "string option \<Rightarrow> bool" where
  "authorization_has_relayna_key authorization =
     (case Option.bind authorization (strip_prefix ''Bearer '') of
        Some token \<Rightarrow> starts_with (trim token) ''rk_live_''
      | None \<Rightarrow> False)"

definition require_unverified_bearer :: "string option \<Rightarrow> unit gateway_result" where
  "require_unverified_bearer authorization =
     and_then (ok_or authorization MissingEntraAuthorization) (\<lambda>v.
     and_then (ok_or (strip_prefix ''Bearer '' v) MalformedEntraAuthorization) (\<lambda>token.
     if trim token = [] then Err MalformedEntraAuthorization else Ok ()))"

definition request_public_origin :: "header_map \<Rightarrow> string option" where
  "request_public_origin headers =
     Option.bind (case header_value headers ''x-forwarded-host'' of Some h \<Rightarrow> Some h | None \<Rightarrow> header_value headers ''host'') (\<lambda>host.
     let host = trim host
     in if host = [] \<or> contains_white_space host then None
        else let proto = trim (case header_value headers ''x-forwarded-proto'' of Some p \<Rightarrow> p | None \<Rightarrow> ''http'')
             in if proto = ''http'' \<or> proto = ''https'' then Some (proto @ ''://'' @ host) else None)"

definition is_ascii_hexdigit :: "char \<Rightarrow> bool" where
  "is_ascii_hexdigit c = (is_ascii_digit c \<or> 97 \<le> byte c \<and> byte c \<le> 102 \<or> 65 \<le> byte c \<and> byte c \<le> 70)"

definition is_valid_traceparent :: "string \<Rightarrow> bool" where
  "is_valid_traceparent v =
     (case split_char (CHR ''-'') v of
        [a, b, c, d] \<Rightarrow>
          length a = 2 \<and> length b = 32 \<and> length c = 16 \<and> length d = 2 \<and> list_all (list_all is_ascii_hexdigit) [a, b, c, d]
      | _ \<Rightarrow> False)"

definition trace_id_from_traceparent :: "string \<Rightarrow> string option" where
  "trace_id_from_traceparent v =
     (case split_char (CHR ''-'') v of
        _ # trace_id # _ \<Rightarrow>
          if length trace_id = 32 \<and> list_all is_ascii_hexdigit trace_id then Some (to_ascii_lowercase trace_id) else None
      | _ \<Rightarrow> None)"

section \<open>Routes and paths\<close>

definition bypass_gateway_governance_for_passthrough :: "route \<Rightarrow> bool \<Rightarrow> bool" where
  "bypass_gateway_governance_for_passthrough r litellm_passthrough = (litellm_passthrough \<and> r = LiteLlmPassthrough)"

definition governed_batch_lifecycle_denied :: "string \<Rightarrow> string \<Rightarrow> bool" where
  "governed_batch_lifecycle_denied meth path =
     (path = ''/v1/messages/batches'' \<and> meth \<noteq> ''POST'' \<or> starts_with path ''/v1/messages/batches/'')"

definition sensitive_litellm_passthrough_authorized :: "exposure option \<Rightarrow> entra_identity option \<Rightarrow> bool" where
  "sensitive_litellm_passthrough_authorized exposed identity =
     (case exposed of
        Some Disabled \<Rightarrow> False
      | Some OperatorOnly \<Rightarrow> identity \<noteq> None
      | _ \<Rightarrow> True)"

definition should_check_service_routes :: "string \<Rightarrow> bool" where
  "should_check_service_routes path = (\<not> starts_with path ''/v1/'' \<and> \<not> starts_with path ''/providers/openai/'')"

definition direct_openai_path_and_query :: "string \<Rightarrow> string" where
  "direct_openai_path_and_query path_and_query =
     (case strip_prefix ''/providers/openai'' path_and_query of
        None \<Rightarrow> path_and_query
      | Some rest \<Rightarrow>
          if rest = [] then ''/''
          else if starts_with rest ''/'' \<or> starts_with rest ''?'' then rest
          else ''/'' @ rest)"

definition under_ui :: "string \<Rightarrow> bool" where
  "under_ui p = (p = ''/ui'' \<or> starts_with p ''/ui/'' \<or> starts_with p ''/ui?'')"

text \<open>\<open>path_of\<close> is the path and query of a parsed URI.\<close>

definition trusted_ingress_location :: "(string \<Rightarrow> string option) \<Rightarrow> string \<Rightarrow> string \<Rightarrow> string option" where
  "trusted_ingress_location path_of location public_origin =
     (if under_ui location then Some (public_origin @ location)
      else Option.bind (path_of location) (\<lambda>p. if under_ui p then Some (public_origin @ p) else None))"

definition apply_litellm_limits_to_match :: "route_match \<Rightarrow> route_limits \<Rightarrow> route_match gateway_result" where
  "apply_litellm_limits_to_match m limits =
     (if rl_timeout_ms limits < 0 then Err InvalidConfiguration
      else if rl_max_request_body_bytes limits < 0 then Err InvalidConfiguration
      else if rl_max_response_body_bytes limits < 0 then Err InvalidConfiguration
      else Ok (m\<lparr>rm_timeout_ms := nat (rl_timeout_ms limits), rm_max_body_bytes := nat (rl_max_request_body_bytes limits),
                rm_max_response_body_bytes := nat (rl_max_response_body_bytes limits)\<rparr>))"

definition service_route_match_for_persisted_registration :: "string \<Rightarrow> string \<Rightarrow> string \<Rightarrow> route_match" where
  "service_route_match_for_persisted_registration meth path service_name =
     (if meth = ''POST'' \<and> path = ''/embeddings'' then service_match Embeddings service_name
      else case resolve_match meth path of
             Inr m \<Rightarrow> if rm_provider m = InternalService then service_match (rm_route m) service_name
                      else service_match ServiceWildcard service_name
           | Inl _ \<Rightarrow> service_match ServiceWildcard service_name)"

definition is_json_content_type :: "string \<Rightarrow> bool" where
  "is_json_content_type content_type =
     (case split_char (CHR '';'') content_type of
        media_type # _ \<Rightarrow>
          let m = to_ascii_lowercase (trim media_type) in m = ''application/json'' \<or> ends_with m ''+json''
      | [] \<Rightarrow> False)"

definition version_byte :: "char \<Rightarrow> bool" where
  "version_byte c = (is_ascii_alphanumeric c \<or> c \<in> set ''._+-'')"

definition validated_service_version :: "string \<Rightarrow> string option" where
  "validated_service_version v =
     (case v of
        [] \<Rightarrow> None
      | c # rest \<Rightarrow>
          if 64 < length v \<or> \<not> is_ascii_alphanumeric c \<or> list_ex (\<lambda>b. \<not> version_byte b) rest then None else Some v)"

definition capture_service_version :: "header_map \<Rightarrow> pingora_context \<Rightarrow> pingora_context" where
  "capture_service_version headers ctx =
     (if Option.bind (pc_route_match ctx) rm_service_name = None then ctx
      else ctx\<lparr>pc_service_version :=
             Option.bind (header_value headers ''x-relayna-service-version'') validated_service_version\<rparr>)"

definition guardrail_plan_names_match :: "guardrail_definition list \<Rightarrow> guardrail_definition list \<Rightarrow> bool" where
  "guardrail_plan_names_match l r = (map gd_name l = map gd_name r)"

definition plan_entries :: "guardrail_definition list option \<Rightarrow> guardrail_definition list" where
  "plan_entries p = (case p of Some es \<Rightarrow> es | None \<Rightarrow> [])"

definition applied_guardrails_header :: "pingora_context \<Rightarrow> string" where
  "applied_guardrails_header ctx =
     join_with '','' (foldl (\<lambda>names name. if name \<in> set names then names else names @ [name]) []
       (map gd_name (plan_entries (pc_pre_guardrail_plan ctx) @ plan_entries (pc_post_guardrail_plan ctx) @
                     plan_entries (pc_during_guardrail_plan ctx))))"

section \<open>What the decisions mean\<close>

lemma foldl_or_eq_0:
  fixes d :: nat
  shows "foldl (\<lambda>diff i. diff OR f i) d is = 0 \<longleftrightarrow> d = 0 \<and> (\<forall>i \<in> set is. f i = 0)"
  by (induction "is" arbitrary: d) (auto simp: or_eq_0_iff)

lemma xor_nat_eq_0: "(a :: nat) XOR b = 0 \<longleftrightarrow> a = b"
  by (auto simp: bit_eq_iff bit_xor_iff)

text \<open>The comparison of the worker token looks at every byte and is equality.\<close>

theorem constant_time_eq_equal: "constant_time_eq a b \<longleftrightarrow> a = b"
proof -
  have "constant_time_eq a b \<longleftrightarrow> length a = length b \<and> (\<forall>i < length a. byte (a ! i) = byte (b ! i))"
    by (auto simp: constant_time_eq_def foldl_or_eq_0 byte_at_def xor_nat_eq_0)
  also have "\<dots> \<longleftrightarrow> a = b"
    by (auto simp: list_eq_iff_nth_eq byte_def)
  finally show ?thesis .
qed

definition sample_proxy :: proxy_config where
  "sample_proxy =
     \<lparr>px_litellm = \<lparr>up_host = ''llm'', up_port = 443, up_tls = True, up_sni = ''llm'', up_service_key = ''sk'',
        up_credential_header_mode = AuthorizationBearer, up_credential_header_name = None,
        up_credential_value_format = RawCredential\<rparr>,
      px_direct_openai = None, px_worker_token = None, px_relayna_key_header = ''x-relayna-key''\<rparr>"

end
