(* ===== verification/Upstream_Request.thy ===== *)
theory Upstream_Request
  imports Proxy_Context
begin

text \<open>
  What the proxy sends upstream (\<open>upstream_request_filter\<close> and its helpers in
  \<open>gateway-proxy/src/pingora_plane.rs\<close>, \<open>forwarded_user_token\<close> in \<open>gateway-proxy/src/accessa_runtime.rs\<close> and
  \<open>prepare_rewritten_request_headers\<close> in \<open>gateway-proxy/src/body_rewrite.rs\<close>). The filter is a list of edits of
  the headers and a rewriting of the path; an edit whose name or value the \<open>http\<close> crate refuses
  ends the request. Which names, values and paths are valid, the URL parser and the header name check of the configuration
  are the parameter \<open>http_env\<close>. The step recorded in the traffic monitor is not part of the result.
\<close>

section \<open>Header edits\<close>

record http_env =
  ht_url :: "string \<Rightarrow> url_parts option"
  ht_name_ok :: "string \<Rightarrow> bool"
  ht_value_ok :: "string \<Rightarrow> bool"
  ht_uri_ok :: "string \<Rightarrow> bool"

datatype header_edit = Remove string | Insert string string

definition remove_header :: "string \<Rightarrow> header_map \<Rightarrow> header_map" where
  "remove_header name headers = filter (\<lambda>(n, _). \<not> eq_ignore_ascii_case n name) headers"

fun apply_edit :: "http_env \<Rightarrow> header_edit \<Rightarrow> header_map \<Rightarrow> header_map option" where
  "apply_edit env (Remove name) headers = Some (remove_header name headers)"
| "apply_edit env (Insert name v) headers =
     (if ht_name_ok env name \<and> ht_value_ok env v then Some (remove_header name headers @ [(name, v)]) else None)"

fun apply_edits :: "http_env \<Rightarrow> header_edit list \<Rightarrow> header_map \<Rightarrow> header_map option" where
  "apply_edits env [] headers = Some headers"
| "apply_edits env (e # es) headers = Option.bind (apply_edit env e headers) (apply_edits env es)"

section \<open>Credentials\<close>

definition admission_context_header :: string where
  "admission_context_header = ''x-relayna-admission-context''"

definition credential_edits :: "upstream_config \<Rightarrow> string option \<Rightarrow> header_edit list option" where
  "credential_edits u relayna_key_header =
     map_option (\<lambda>credential.
       [Remove admission_context_header, Remove ''authorization'', Remove ''host'', Remove ''x-apigee-entra-identity'',
        Remove ''x-apigee-entra-signature'', Remove ''proxy-authorization'', Remove ''cookie''] @
       (case relayna_key_header of Some n \<Rightarrow> [Remove n] | None \<Rightarrow> []) @
       [Remove ''x-relayna-key'', Remove ''x-aih-api-key'', Remove ''x-api-key'', Remove ''x-litellm-api-key'',
        Remove ''x-litellm-key'', Remove ''x-relayna-worker-token''] @
       (case up_credential_header_name u of Some n \<Rightarrow> [Remove n] | None \<Rightarrow> []) @
       [Insert ''host'' (host_header_value u), credential])
     (case up_credential_header_mode u of
        AuthorizationBearer \<Rightarrow> Some (Insert ''authorization'' (''Bearer '' @ up_service_key u))
      | CustomHeader \<Rightarrow>
          map_option (\<lambda>n. Insert n (custom_header_credential_value u)) (up_credential_header_name u))"

definition prepare_upstream_authority_and_credentials ::
  "http_env \<Rightarrow> upstream_config \<Rightarrow> string option \<Rightarrow> header_map \<Rightarrow> header_map option" where
  "prepare_upstream_authority_and_credentials env u relayna_key_header headers =
     Option.bind (credential_edits u relayna_key_header) (\<lambda>es. apply_edits env es headers)"

definition forwarded_user_token ::
  "http_env \<Rightarrow> header_map \<Rightarrow> endpoint_access \<Rightarrow> entra_identity option \<Rightarrow> string \<Rightarrow> string option gateway_result" where
  "forwarded_user_token env req access identity relayna_key_header =
     (case ea_user_token_forwarding access of
        None \<Rightarrow> Ok None
      | Some cfg \<Rightarrow>
          and_then (forwarding_validate (ht_name_ok env) cfg) (\<lambda>_.
          if ea_accessa access = None \<or> eq_ignore_ascii_case (uf_header cfg) relayna_key_header then Err InvalidConfiguration
          else if \<not> uf_enabled cfg then Ok None
          else if (case identity of None \<Rightarrow> True | Some i \<Rightarrow> ei_source i \<noteq> Jwt) \<or> length (get_all req ''authorization'') \<noteq> 1
          then Err InvalidEntraToken
          else case Option.bind (header_value req ''authorization'') (strip_prefix ''Bearer '') of
                 Some token \<Rightarrow> if trim token = [] then Err MissingEntraAuthorization else Ok (Some (trim token))
               | None \<Rightarrow> Err MissingEntraAuthorization))"

section \<open>The filter\<close>

definition forwarding_edits :: "http_env \<Rightarrow> header_map \<Rightarrow> pingora_context \<Rightarrow> header_edit list option" where
  "forwarding_edits env session ctx =
     (case ea_user_token_forwarding (pc_access ctx) of
        None \<Rightarrow> Some []
      | Some cfg \<Rightarrow>
          (case forwarded_user_token env session (pc_access ctx) (pc_entra_identity ctx) (pc_relayna_key_header ctx) of
             Inl _ \<Rightarrow> None
           | Inr None \<Rightarrow> Some [Remove (uf_header cfg)]
           | Inr (Some token) \<Rightarrow> Some [Remove (uf_header cfg), Insert (uf_header cfg) token]))"

definition insert_some :: "string \<Rightarrow> string option \<Rightarrow> header_edit list" where
  "insert_some name v = (case v of Some x \<Rightarrow> [Insert name x] | None \<Rightarrow> [])"

text \<open>A request bound to Accessa has an identity; the code panics otherwise.\<close>

definition caller_edits :: "pingora_context \<Rightarrow> accessa_binding \<Rightarrow> entra_identity \<Rightarrow> header_edit list" where
  "caller_edits ctx binding identity =
     map Remove [''x-caller-oid'', ''x-caller-upn'', ''x-caller-groups'', ''x-caller-tenant'', ''x-route-app'', ''x-route-channel'',
       admission_context_header] @
     (if (case ea_user_token_forwarding (pc_access ctx) of
            Some c \<Rightarrow> \<not> uf_enabled c \<or> \<not> eq_ignore_ascii_case (uf_header c) ''x-access-token'' | None \<Rightarrow> True)
      then [Remove ''x-access-token''] else []) @
     [Insert ''x-caller-oid'' (case ei_object_id identity of Some v \<Rightarrow> v | None \<Rightarrow> []),
      Insert ''x-caller-tenant'' (ei_tenant_id identity)] @
     insert_some ''x-caller-upn'' (ei_email identity) @
     [Insert ''x-caller-groups'' (join_with '','' (ei_groups identity)), Insert ''x-route-channel'' (ab_channel binding)] @
     insert_some ''x-route-app'' (ab_app binding) @ [Insert ''x-request-id'' (pc_request_id ctx)] @
     insert_some admission_context_header (pc_admission_token ctx)"

definition accessa_edits :: "http_env \<Rightarrow> header_map \<Rightarrow> pingora_context \<Rightarrow> header_edit list option" where
  "accessa_edits env session ctx =
     (case ea_accessa (pc_access ctx) of
        None \<Rightarrow> Some []
      | Some binding \<Rightarrow>
          Option.bind (forwarding_edits env session ctx) (\<lambda>es.
            map_option (\<lambda>identity. es @ caller_edits ctx binding identity) (pc_entra_identity ctx)))"

definition cost_edits :: "pingora_context \<Rightarrow> header_edit list" where
  "cost_edits ctx =
     (if (case pc_resolved_service_cost ctx of Some c \<Rightarrow> rc_cost_mode c = PassthroughCost | None \<Rightarrow> False) \<or>
         list_ex (\<lambda>rule. pr_cost_mode rule = PassthroughCost) (pc_service_pricing_rules ctx)
      then [Insert ''accept-encoding'' ''identity''] else [])"

definition foundry_edits :: "pingora_context \<Rightarrow> header_edit list" where
  "foundry_edits ctx =
     (if pc_foundry ctx = None then []
      else map Remove [''api-key'', ''cookie'', ''openai-organization'', ''openai-project'', ''foundry-features'',
        ''x-ms-client-principal'', ''x-ms-authorization-auxiliary''])"

definition key_edits :: "pingora_context \<Rightarrow> header_edit list" where
  "key_edits ctx =
     (case pc_key ctx of
        None \<Rightarrow> []
      | Some key \<Rightarrow> Insert ''x-relayna-key-id'' (ak_key_id key) # insert_some ''x-relayna-project-id'' (ak_project_id key))"

text \<open>The length of a rewritten body; an insertion that fails is ignored here.\<close>

definition rewritten_edits :: "http_env \<Rightarrow> pingora_context \<Rightarrow> header_edit list" where
  "rewritten_edits env ctx =
     (if pc_foundry ctx \<noteq> None \<or> plan_entries (pc_pre_guardrail_plan ctx) \<noteq> []
      then case pc_rewritten_request_len ctx of
             Some n \<Rightarrow> [Remove ''Content-Length'', Remove ''Transfer-Encoding''] @
               (if ht_name_ok env ''Content-Length'' \<and> ht_value_ok env (show_nat n) then [Insert ''Content-Length'' (show_nat n)] else [])
           | None \<Rightarrow> []
      else [])"

definition framing_edits :: "pingora_context \<Rightarrow> header_edit list" where
  "framing_edits ctx =
     (if pc_foundry ctx = None then []
      else [Remove ''content-length'', Insert ''transfer-encoding'' ''chunked'', Insert ''content-type'' ''application/json''])"

definition metadata_edits :: "pingora_context \<Rightarrow> header_edit list" where
  "metadata_edits ctx =
     [Insert ''x-relayna-request-id'' (pc_request_id ctx)] @ insert_some ''traceparent'' (pc_traceparent ctx) @ key_edits ctx @
     insert_some ''x-relayna-task-id'' (pc_task_id ctx) @ insert_some ''x-relayna-run-id'' (pc_run_id ctx) @
     insert_some ''x-relayna-service'' (Option.bind (pc_route_match ctx) rm_service_name)"

definition socket_direct :: "pingora_context \<Rightarrow> bool" where
  "socket_direct ctx = (pc_socket ctx \<and> pc_direct_litellm_passthrough ctx)"

definition selected_upstream :: "proxy_config \<Rightarrow> pingora_context \<Rightarrow> upstream_config" where
  "selected_upstream px ctx = (case upstream_for px ctx of Some u \<Rightarrow> u | None \<Rightarrow> px_litellm px)"

definition upstream_edits :: "http_env \<Rightarrow> proxy_config \<Rightarrow> header_map \<Rightarrow> pingora_context \<Rightarrow> header_edit list option" where
  "upstream_edits env px session ctx =
     (let u = selected_upstream px ctx
      in Option.bind (credential_edits u (Some (pc_relayna_key_header ctx))) (\<lambda>credentials.
         map_option (\<lambda>accessa.
           (if socket_direct ctx then [Remove ''api-key''] else []) @ credentials @
           (if socket_direct ctx then [Insert ''authorization'' (''Bearer '' @ up_service_key u)] else []) @
           (if pc_socket ctx then [Remove ''sec-websocket-extensions''] else []) @
           cost_edits ctx @ accessa @ foundry_edits ctx @ metadata_edits ctx @ rewritten_edits env ctx @ framing_edits ctx)
         (accessa_edits env session ctx)))"

text \<open>The rewriting of the path and query.\<close>

definition set_uri :: "http_env \<Rightarrow> string \<Rightarrow> string option option" where
  "set_uri env p = (if ht_uri_ok env p then Some (Some p) else None)"

definition rewrite_direct_openai_uri :: "http_env \<Rightarrow> string option \<Rightarrow> string option option" where
  "rewrite_direct_openai_uri env uri =
     (case uri of None \<Rightarrow> Some None | Some p \<Rightarrow> set_uri env (direct_openai_path_and_query p))"

definition rewrite_service_wildcard_uri :: "http_env \<Rightarrow> string \<Rightarrow> string option \<Rightarrow> string option \<Rightarrow> string option option" where
  "rewrite_service_wildcard_uri env service_name route_pattern uri =
     (case uri of
        None \<Rightarrow> Some None
      | Some p \<Rightarrow>
          (case or_else (Option.bind route_pattern (route_pattern_wildcard_suffix p)) (service_wildcard_suffix p service_name) of
             None \<Rightarrow> Some uri
           | Some rewritten \<Rightarrow> set_uri env rewritten))"

definition upstream_uri :: "http_env \<Rightarrow> pingora_context \<Rightarrow> string option \<Rightarrow> string option option" where
  "upstream_uri env ctx uri =
     Option.bind
       (if (case pc_route_match ctx of Some m \<Rightarrow> rm_provider m = OpenAiCompatible | None \<Rightarrow> False)
        then rewrite_direct_openai_uri env uri else Some uri) (\<lambda>uri.
     Option.bind
       (case pc_route_match ctx of
          Some m \<Rightarrow>
            if rm_route m = ServiceWildcard \<and> ea_accessa (pc_access ctx) = None \<and> pc_foundry ctx = None
            then (case rm_service_name m of
                    Some service_name \<Rightarrow> rewrite_service_wildcard_uri env service_name (pc_service_route_pattern ctx) uri
                  | None \<Rightarrow> Some uri)
            else Some uri
        | None \<Rightarrow> Some uri) (\<lambda>uri.
     case pc_foundry ctx of
       None \<Rightarrow> Some uri
     | Some (_, cfg) \<Rightarrow>
         (case project_url (ht_url env) (fc_base_url cfg) of
            Inl _ \<Rightarrow> None
          | Inr url \<Rightarrow> set_uri env (trim_end_matches (\<lambda>c. c = CHR ''/'') (url_path url) @ ''/openai/v1/responses''))))"

record upstream_request =
  ur_headers :: header_map
  ur_uri :: "string option"

definition upstream_request_filter ::
  "http_env \<Rightarrow> proxy_config \<Rightarrow> header_map \<Rightarrow> pingora_context \<Rightarrow> upstream_request \<Rightarrow> upstream_request option" where
  "upstream_request_filter env px session ctx request =
     Option.bind (upstream_edits env px session ctx) (\<lambda>es.
     Option.bind (apply_edits env es (ur_headers request)) (\<lambda>headers.
     map_option (\<lambda>uri. \<lparr>ur_headers = headers, ur_uri = uri\<rparr>) (upstream_uri env ctx (ur_uri request))))"

section \<open>What the edits determine\<close>

fun edit_name :: "header_edit \<Rightarrow> string" where
  "edit_name (Remove n) = n"
| "edit_name (Insert n v) = n"

fun edit_values :: "header_edit \<Rightarrow> string list" where
  "edit_values (Remove n) = []"
| "edit_values (Insert n v) = [v]"

text \<open>An edit of a header of this name.\<close>

definition touches :: "string \<Rightarrow> header_edit \<Rightarrow> bool" where
  "touches n e = eq_ignore_ascii_case (edit_name e) n"

text \<open>The headers under which a request carries credentials and its authority.\<close>

definition protected_headers :: "string \<Rightarrow> string list" where
  "protected_headers key_header =
     [''authorization'', ''host'', ''proxy-authorization'', ''cookie'', ''x-apigee-entra-identity'', ''x-apigee-entra-signature'',
      key_header, ''x-relayna-key'', ''x-aih-api-key'', ''x-api-key'', ''x-litellm-api-key'', ''x-litellm-key'',
      ''x-relayna-worker-token'', admission_context_header]"

lemma get_all_remove: "get_all (remove_header m h) n = (if eq_ignore_ascii_case m n then [] else get_all h n)"
  by (induction h) (auto simp: get_all_def remove_header_def eq_ignore_ascii_case_def)

lemma get_all_append: "get_all (h @ k) n = get_all h n @ get_all k n"
  by (simp add: get_all_def)

lemma get_all_edit:
  "apply_edit env e h = Some h' \<Longrightarrow> get_all h' n = (if touches n e then edit_values e else get_all h n)"
  by (cases e) (auto simp: touches_def get_all_remove get_all_append split: if_splits, auto simp: get_all_def)

text \<open>The value of a header after the edits is the one of the last edit that touches it.\<close>

lemma get_all_edits:
  "apply_edits env es h = Some h' \<Longrightarrow>
   get_all h' n = foldl (\<lambda>vs e. edit_values e) (get_all h n) (filter (touches n) es)"
proof (induction es arbitrary: h)
  case (Cons e es)
  then obtain k where k: "apply_edit env e h = Some k" "apply_edits env es k = Some h'" by (auto simp: bind_eq_Some_conv)
  from Cons.IH [OF k(2)] show ?case by (simp add: get_all_edit [OF k(1)])
qed simp

lemma apply_edits_defined: "apply_edits env es h = Some h' \<Longrightarrow> \<exists>k'. apply_edits env es k = Some k'"
proof (induction es arbitrary: h k)
  case (Cons e es)
  then obtain h1 where h1: "apply_edit env e h = Some h1" "apply_edits env es h1 = Some h'" by (auto simp: bind_eq_Some_conv)
  then obtain k1 where "apply_edit env e k = Some k1" by (cases e) (auto split: if_splits)
  with Cons.IH [OF h1(2), of k1] show ?case by simp
qed simp

lemma last_edit: "es \<noteq> [] \<Longrightarrow> foldl (\<lambda>vs e. edit_values e) vs es = edit_values (last es)"
  by (induction es rule: rev_induct) simp_all

lemma edits_agree:
  assumes "apply_edits env es h = Some h'" and "apply_edits env es k = Some k'" and "\<exists>e \<in> set es. touches n e"
  shows "get_all h' n = get_all k' n"
proof -
  have "filter (touches n) es \<noteq> []" using assms(3) by (auto simp: filter_empty_conv)
  then show ?thesis using get_all_edits [OF assms(1)] get_all_edits [OF assms(2)] by (simp add: last_edit)
qed

lemma credential_edits_touch:
  assumes "credential_edits u (Some key_header) = Some es" and "n \<in> set (protected_headers key_header)"
  shows "\<exists>e \<in> set es. touches n e"
proof -
  have "Remove n \<in> set es"
    using assms by (auto simp: credential_edits_def protected_headers_def)
  then show ?thesis by (intro bexI [of _ "Remove n"]) (simp_all add: touches_def)
qed

text \<open>Names of another length are other names.\<close>

lemma touches_length: "touches n e \<Longrightarrow> length (edit_name e) = length n"
  unfolding touches_def eq_ignore_ascii_case_def to_ascii_lowercase_def by (metis length_map)

lemma untouched:
  "list_all (\<lambda>e. length (edit_name e) \<noteq> length n) es \<Longrightarrow> filter (touches n) es = []"
  using touches_length by (auto simp: filter_empty_conv list_all_iff)

lemmas edit_groups = caller_edits_def cost_edits_def foundry_edits_def metadata_edits_def key_edits_def rewritten_edits_def
  framing_edits_def insert_some_def admission_context_header_def

lemma other_edits_no_authorization:
  "filter (touches ''authorization'') (cost_edits ctx) = []"
  "filter (touches ''authorization'') (foundry_edits ctx) = []"
  "filter (touches ''authorization'') (metadata_edits ctx) = []"
  "filter (touches ''authorization'') (rewritten_edits env ctx) = []"
  "filter (touches ''authorization'') (framing_edits ctx) = []"
  "filter (touches ''authorization'') (caller_edits ctx binding identity) = []"
  by (rule untouched, simp add: edit_groups split: option.split)+

lemma accessa_no_authorization:
  assumes "accessa_edits env session ctx = Some es"
  shows "filter (touches ''authorization'') es = []"
proof -
  have "filter (touches ''authorization'') fs = []" if "forwarding_edits env session ctx = Some fs" for fs
  proof (cases "ea_user_token_forwarding (pc_access ctx)")
    case (Some cfg)
    have "to_ascii_lowercase ''authorization'' = ''authorization''" by code_simp
    moreover have "to_ascii_lowercase (uf_header cfg) \<noteq> ''authorization''"
      using that Some by (auto simp: forwarding_edits_def forwarded_user_token_def forwarding_validate_def Let_def
        reserved_headers_def split: sum.splits if_splits)
    ultimately have "\<not> eq_ignore_ascii_case (uf_header cfg) ''authorization''" by (simp add: eq_ignore_ascii_case_def)
    with that Some show ?thesis
      by (auto simp: forwarding_edits_def touches_def split: sum.splits option.splits)
  qed (use that in \<open>simp add: forwarding_edits_def\<close>)
  then show ?thesis
    using assms other_edits_no_authorization(6) by (auto simp: accessa_edits_def bind_eq_Some_conv split: option.splits)
qed

lemma credential_authorization:
  assumes "credential_edits u (Some key_header) = Some es"
    and "\<And>n. up_credential_header_name u = Some n \<Longrightarrow> \<not> eq_ignore_ascii_case n ''authorization''"
  shows "foldl (\<lambda>vs e. edit_values e) vs (filter (touches ''authorization'') es) =
    (if up_credential_header_mode u = AuthorizationBearer then [''Bearer '' @ up_service_key u] else [])"
proof -
  have T: "filter (touches ''authorization'') es \<noteq> []"
    using credential_edits_touch [OF assms(1), of "''authorization''"] by (auto simp: filter_empty_conv protected_headers_def)
  show ?thesis
  proof (cases "up_credential_header_mode u")
    case AuthorizationBearer
    then obtain xs where "es = xs @ [Insert ''authorization'' (''Bearer '' @ up_service_key u)]"
      using assms(1) by (auto simp: credential_edits_def)
    then show ?thesis using AuthorizationBearer by (simp add: touches_def)
  next
    case CustomHeader
    have "edit_values e = []" if "e \<in> set es" "touches ''authorization'' e" for e
      using that assms CustomHeader touches_length [of "''authorization''" e]
      by (auto simp: credential_edits_def touches_def split: option.splits)
    then have "edit_values (last (filter (touches ''authorization'') es)) = []"
      using last_in_set [OF T] by simp
    then show ?thesis using T CustomHeader by (simp add: last_edit)
  qed
qed


definition plain_http :: http_env where
  "plain_http = \<lparr>ht_url = (\<lambda>_. None), ht_name_ok = (\<lambda>_. True), ht_value_ok = visible_ascii, ht_uri_ok = (\<lambda>_. True)\<rparr>"


end
