(* ===== verification/Request_Admission.thy ===== *)
theory Request_Admission
  imports Proxy_Context Control_State
begin

text \<open>
  Admission of a complete request body (\<open>admit_complete_body\<close> and its helpers in
  \<open>gateway-proxy/src/pingora_plane.rs\<close>): the effective policy of the request, the checks of the body
  against it, the token rate limit and the budget reservation, with the body lease that grows on the way. The policy
  store, the ledger of committed spend and the two stores behind the traits \<open>RateLimitStore\<close> and
  \<open>BudgetStore\<close> are the parameter \<open>admission_env\<close>; \<open>redis_admission\<close> is the one the gateway runs with. The times at which the
  gateway and the server look at their clocks are arguments. Telemetry and the answer written to a rejected client
  are not modelled.
\<close>

section \<open>The body and its features\<close>

record complete_body =
  cb_bytes :: string
  cb_generation :: "request_analysis option"

definition complete_body_new :: "serde \<Rightarrow> string \<Rightarrow> complete_body" where
  "complete_body_new sd bytes = \<lparr>cb_bytes = bytes, cb_generation = analyze_generation_request sd bytes\<rparr>"

definition body_features :: "complete_body \<Rightarrow> generation_features" where
  "body_features b = (case cb_generation b of Some a \<Rightarrow> ra_features a | None \<Rightarrow> default_features)"

text \<open>The estimate is kept in a \<open>OnceLock\<close>; it is a function of the bytes.\<close>

definition estimated_tokens :: "serde \<Rightarrow> complete_body \<Rightarrow> int" where
  "estimated_tokens sd b = estimate_generation_tokens (from_value sd) (cb_bytes b)"

text \<open>The capacity of a parsed string is at least its length; \<open>capacity\<close> is the allocator's choice.\<close>

definition has_compact_metadata :: "(string \<Rightarrow> nat) \<Rightarrow> complete_body \<Rightarrow> bool" where
  "has_compact_metadata capacity b =
     (case cb_generation b of
        None \<Rightarrow> False
      | Some a \<Rightarrow>
          ra_client_guardrails a = None \<and>
          saturating_add (case gf_model (ra_features a) of Some m \<Rightarrow> capacity m | None \<Rightarrow> 0)
            (case gf_service_name (ra_features a) of Some s \<Rightarrow> capacity s | None \<Rightarrow> 0) \<le> 4096)"

section \<open>The environment\<close>

record 's admission_env =
  ae_serde :: serde
  ae_to_vec :: "json \<Rightarrow> string option"
  ae_capacity :: "string \<Rightarrow> nat"
  ae_policy :: "string \<Rightarrow> string option \<Rightarrow> route \<Rightarrow> string option \<Rightarrow> effective_policy gateway_result"
  ae_committed :: "string \<Rightarrow> int \<Rightarrow> budget_state gateway_result"
  ae_check_tokens :: "'s \<Rightarrow> nat \<times> nat \<Rightarrow> string \<Rightarrow> int option \<Rightarrow> int \<Rightarrow> int \<Rightarrow> rate_limit_decision gateway_result \<times> 's"
  ae_admit :: "'s \<Rightarrow> nat \<Rightarrow> string \<Rightarrow> string \<Rightarrow> f64 \<Rightarrow> f64 option \<Rightarrow> f64 option \<Rightarrow> int \<Rightarrow> budget_decision gateway_result \<times> 's"
  ae_seed :: "'s \<Rightarrow> nat \<Rightarrow> string \<Rightarrow> budget_state \<Rightarrow> int \<Rightarrow> unit gateway_result \<times> 's"

definition redis_admission ::
  "'s redis_env \<Rightarrow> string \<Rightarrow> serde \<Rightarrow> (json \<Rightarrow> string option) \<Rightarrow> (string \<Rightarrow> nat) \<Rightarrow>
   (string \<Rightarrow> string option \<Rightarrow> route \<Rightarrow> string option \<Rightarrow> effective_policy gateway_result) \<Rightarrow>
   (string \<Rightarrow> int \<Rightarrow> budget_state gateway_result) \<Rightarrow> 's admission_env" where
  "redis_admission env epoch sd to_vec capacity policy committed =
     \<lparr>ae_serde = sd, ae_to_vec = to_vec, ae_capacity = capacity, ae_policy = policy, ae_committed = committed,
      ae_check_tokens = (\<lambda>st (t, t') key_id limit tokens now. check_token_rate_limit env st t t' key_id limit tokens now),
      ae_admit = (\<lambda>st t key_id rid cost daily monthly now. admit_budget env st t epoch key_id rid cost daily monthly now),
      ae_seed = (\<lambda>st t key_id b now. seed_committed_budget env st t epoch key_id b now)\<rparr>"

text \<open>The times of the calls of one admission: of the gateway's clock, and of the server.\<close>

record admission_times =
  at_policy :: int
  at_tokens :: int
  at_reserve :: int
  at_tokens_server :: "nat \<times> nat"
  at_admit :: nat
  at_seed :: nat
  at_readmit :: nat

section \<open>The policy\<close>

definition batch_feature :: "'s admission_env \<Rightarrow> json \<Rightarrow> generation_features gateway_result" where
  "batch_feature env entry =
     and_then (ok_or (json_get entry ''params'') PolicyDenied) (\<lambda>params.
     and_then (ok_or (ae_to_vec env params) PolicyDenied) (\<lambda>bytes.
     and_then (ok_or (analyze_generation_request (ae_serde env) bytes) PolicyDenied) (\<lambda>analysis.
     if gf_model (ra_features analysis) = None then Err PolicyDenied else Ok (ra_features analysis))))"

definition batch_request_features :: "'s admission_env \<Rightarrow> string \<Rightarrow> generation_features list gateway_result" where
  "batch_request_features env body =
     and_then (ok_or (from_value (ae_serde env) body) PolicyDenied) (\<lambda>v.
     case Option.bind (json_get v ''requests'') as_array of
       None \<Rightarrow> Err PolicyDenied
     | Some entries \<Rightarrow> if entries = [] then Err PolicyDenied else try_map (batch_feature env) entries)"

text \<open>The policies by model, a \<open>BTreeMap\<close> with the missing model first.\<close>

definition model_key :: "string option \<Rightarrow> string" where
  "model_key m = (case m of None \<Rightarrow> [] | Some v \<Rightarrow> CHR ''m'' # v)"

definition load_model ::
  "'s admission_env \<Rightarrow> authenticated_key \<Rightarrow> route_match \<Rightarrow> (string option \<times> effective_policy) btree_map \<Rightarrow> generation_features \<Rightarrow>
   (string option \<times> effective_policy) btree_map gateway_result" where
  "load_model env key matched models feature =
     (case bt_get models (model_key (gf_model feature)) of
        Some (_, effective) \<Rightarrow>
          and_then (evaluate_policy (ep_policy effective) (rm_route matched) (rm_provider matched) feature) (\<lambda>_. Ok models)
      | None \<Rightarrow>
          and_then (ae_policy env (ak_key_id key) (ak_project_id key) (rm_route matched) (gf_model feature)) (\<lambda>effective.
          and_then (evaluate_policy (ep_policy effective) (rm_route matched) (rm_provider matched) feature) (\<lambda>_.
            Ok (bt_insert (model_key (gf_model feature)) (gf_model feature, effective) models))))"

definition model_layer :: "string option \<times> effective_policy \<Rightarrow> policy_layer" where
  "model_layer = (\<lambda>(model, effective).
     let policy = (ep_policy effective)\<lparr>kp_allowed_models := []\<rparr>
     in \<lparr>pl_kind = ModelLayer, pl_scope_id = model, pl_policy = policy, pl_guardrail_policy = ep_guardrail_policy effective,
         pl_policy_version = kp_policy_version policy\<rparr>)"

definition effective_complete_policy ::
  "'s admission_env \<Rightarrow> authenticated_key \<Rightarrow> route_match \<Rightarrow> complete_body \<Rightarrow> effective_policy gateway_result" where
  "effective_complete_policy env key matched body =
     and_then (ae_policy env (ak_key_id key) (ak_project_id key) (rm_route matched)
         (Option.bind (cb_generation body) (\<lambda>a. gf_model (ra_features a)))) (\<lambda>base.
     if rm_route matched \<noteq> AnthropicMessageBatches \<or> cb_bytes body = [] then Ok base
     else and_then (batch_request_features env (cb_bytes body)) (\<lambda>features.
          and_then (try_fold (load_model env key matched) [] features) (\<lambda>models.
            resolve_effective_policy
              (\<lparr>pl_kind = KeyLayer, pl_scope_id = Some (ak_key_id key), pl_policy = ep_policy base,
                pl_guardrail_policy = ep_guardrail_policy base, pl_policy_version = kp_policy_version (ep_policy base)\<rparr> #
               map model_layer (bt_values models)))))"

text \<open>\<open>i32::try_from(tokens).ok()\<close>, only asked for when there is a limit.\<close>

definition input_tokens_checked :: "serde \<Rightarrow> key_policy \<Rightarrow> complete_body \<Rightarrow> int option" where
  "input_tokens_checked sd policy b =
     (case kp_max_input_tokens_per_request policy of
        None \<Rightarrow> None
      | Some _ \<Rightarrow> if - (2 ^ 31) \<le> estimated_tokens sd b \<and> estimated_tokens sd b < 2 ^ 31 then Some (estimated_tokens sd b) else None)"

definition generation_route :: "route \<Rightarrow> bool" where
  "generation_route r = (r \<in> {ChatCompletions, Responses, AnthropicMessages, LiteLlmEmbeddings, LiteLlmRerank})"

definition check_entry :: "key_policy \<Rightarrow> route_match \<Rightarrow> generation_features \<Rightarrow> unit gateway_result" where
  "check_entry policy matched feature =
     (if kp_allowed_models policy \<noteq> [] \<and> gf_model feature = None then Err PolicyDenied
      else evaluate_policy policy (rm_route matched) (rm_provider matched) feature)"

definition check_complete_request_policy ::
  "'s admission_env \<Rightarrow> int \<Rightarrow> key_policy \<Rightarrow> route_match \<Rightarrow> complete_body \<Rightarrow> generation_features \<Rightarrow> unit gateway_result" where
  "check_complete_request_policy env now policy matched analyzed features =
     (let body = cb_bytes analyzed; generation = generation_route (rm_route matched); sd = ae_serde env;
          malformed_metadata = (cb_generation analyzed = None \<and>
            (case from_value sd body of Some v \<Rightarrow> is_object v | None \<Rightarrow> False))
      in if rm_max_body_bytes matched < length body then Err RequestBodyTooLarge
         else if malformed_metadata \<or> generation \<and> cb_generation analyzed = None \<or>
                 (generation \<or> body \<noteq> [] \<and> rm_route matched \<noteq> AnthropicMessageBatches) \<and>
                   kp_allowed_models policy \<noteq> [] \<and> gf_model features = None
         then Err PolicyDenied
         else
           and_then
             (if rm_route matched = AnthropicMessageBatches \<and> body \<noteq> []
              then and_then (batch_request_features env body) (try_each (check_entry policy matched))
              else evaluate_policy policy (rm_route matched) (rm_provider matched) features) (\<lambda>_.
           and_then
             (evaluate_policy_limits policy now (Some (int (length body))) None (input_tokens_checked sd policy analyzed) None
                (rm_estimated_cost_usd matched)) (\<lambda>_.
           enforce_output_token_limit sd policy (rm_route matched) body)))"

section \<open>Admission\<close>

definition admit_request_budget ::
  "'s admission_env \<Rightarrow> admission_times \<Rightarrow> 's \<Rightarrow> string \<Rightarrow> string \<Rightarrow> f64 \<Rightarrow> key_policy \<Rightarrow> budget_decision gateway_result \<times> 's" where
  "admit_request_budget env ts st key_id rid amount policy =
     (let admit = (\<lambda>st t. ae_admit env st t key_id rid amount (kp_daily_budget_usd policy) (kp_monthly_budget_usd policy) (at_reserve ts))
      in case admit st (at_admit ts) of
           (Inl ControlStateUnavailable, st) \<Rightarrow>
             (case ae_committed env key_id (at_reserve ts) of
                Inl e \<Rightarrow> (Err e, st)
              | Inr committed \<Rightarrow>
                  (case ae_seed env st (at_seed ts) key_id committed (at_reserve ts) of
                     (Inl e, st) \<Rightarrow> (Err e, st)
                   | (Inr _, st) \<Rightarrow> admit st (at_readmit ts)))
         | decision \<Rightarrow> decision)"

text \<open>The lease of the request, if it has one, does one of its operations.\<close>

definition with_lease :: "unit body_op \<Rightarrow> body_state \<Rightarrow> lease option \<Rightarrow> unit gateway_result \<times> body_state \<times> lease option" where
  "with_lease f bs lease_opt =
     (case lease_opt of
        None \<Rightarrow> (Ok (), bs, None)
      | Some l \<Rightarrow> (case f bs l of (r, bs, l) \<Rightarrow> (r, bs, Some l)))"

definition retain_request_metadata_workspace ::
  "'s admission_env \<Rightarrow> pingora_context \<Rightarrow> complete_body \<Rightarrow> body_state \<Rightarrow> lease option \<Rightarrow> unit gateway_result \<times> body_state \<times> lease option" where
  "retain_request_metadata_workspace env ctx body bs l =
     (if pc_foundry ctx = None \<and> pc_service_pricing_rules ctx = [] \<and> pc_route ctx \<noteq> Some AnthropicMessageBatches \<and>
         pc_pre_guardrail_plan ctx = None \<and> pc_guardrail_context ctx = None \<and> has_compact_metadata (ae_capacity env) body
      then with_lease retain_compact_workspace bs l else (Ok (), bs, l))"

definition fallback_match :: "pingora_context \<Rightarrow> route_match \<Rightarrow> route_match" where
  "fallback_match ctx m = (if 0 < pc_fallback_count ctx then m\<lparr>rm_provider := LiteLlm\<rparr> else m)"

definition request_features :: "route_match \<Rightarrow> complete_body \<Rightarrow> generation_features" where
  "request_features matched b =
     (let f = body_features b in f\<lparr>gf_service_name := or_else (gf_service_name f) (rm_service_name matched)\<rparr>)"

text \<open>The end of an admission: rates and budget, for a request that has no reservation yet.\<close>

definition admit_rates_and_budget ::
  "'s admission_env \<Rightarrow> admission_times \<Rightarrow> pingora_context \<Rightarrow> authenticated_key \<Rightarrow> route_match \<Rightarrow> key_policy \<Rightarrow> complete_body \<Rightarrow>
   body_state \<Rightarrow> lease option \<Rightarrow> 's \<Rightarrow> unit gateway_result \<times> body_state \<times> lease option \<times> 's" where
  "admit_rates_and_budget env ts ctx key matched policy analyzed bs l st =
     (if (case kp_rpm_limit policy of
            Some limit \<Rightarrow> limit \<le> 0 \<or> limit < (case pc_request_rate_count ctx of Some n \<Rightarrow> n | None \<Rightarrow> 0) | None \<Rightarrow> False)
      then (Err (RateLimitExceeded None), bs, l, st)
      else
        let tokens = (case kp_tpm_limit policy of None \<Rightarrow> 0 | Some _ \<Rightarrow> estimated_tokens (ae_serde env) analyzed)
        in case retain_request_metadata_workspace env ctx analyzed bs l of
             (Inl e, bs, l) \<Rightarrow> (Err e, bs, l, st)
           | (Inr _, bs, l) \<Rightarrow>
               (case ae_check_tokens env st (at_tokens_server ts) (ak_key_id key) (kp_tpm_limit policy) tokens (at_tokens ts) of
                  (Inl e, st) \<Rightarrow> (Err e, bs, l, st)
                | (Inr (RateExceeded _ retry), st) \<Rightarrow> (Err (TokenRateLimitExceeded retry), bs, l, st)
                | (Inr (RateAllowed _), st) \<Rightarrow>
                    (case admit_request_budget env ts st (ak_key_id key) (pc_reservation_id ctx)
                        (case rm_estimated_cost_usd matched of Some c \<Rightarrow> c | None \<Rightarrow> Fin 0) policy of
                       (Inl e, st) \<Rightarrow> (Err e, bs, l, st)
                     | (Inr (budget_decision.BudgetExceeded _), st) \<Rightarrow> (Err gateway_error.BudgetExceeded, bs, l, st)
                     | (Inr (BudgetAllowed _), st) \<Rightarrow> (Ok (), bs, l, st))))"

text \<open>The checks of an admission, with the context and the stores they leave.\<close>

definition admit_checks ::
  "'s admission_env \<Rightarrow> admission_times \<Rightarrow> pingora_context \<Rightarrow> complete_body \<Rightarrow> body_state \<Rightarrow> 's \<Rightarrow>
   unit gateway_result \<times> pingora_context \<times> body_state \<times> 's" where
  "admit_checks env ts ctx analyzed bs st =
     (case with_lease (\<lambda>bs l. try_reserve (length (cb_bytes analyzed) - le_reserved_bytes l) bs l) bs (pc_request_body_lease ctx) of
        (Inl e, bs, l) \<Rightarrow> (Err e, ctx\<lparr>pc_request_body_lease := l\<rparr>, bs, st)
      | (Inr _, bs, l) \<Rightarrow>
          let ctx = ctx\<lparr>pc_request_body_lease := l\<rparr>
          in case pc_key ctx of
               None \<Rightarrow> (Err MissingAuthorization, ctx, bs, st)
             | Some key \<Rightarrow>
                 (case pc_route_match ctx of
                    None \<Rightarrow> (Err UnsupportedRoute, ctx, bs, st)
                  | Some m \<Rightarrow>
                      let matched = fallback_match ctx m; features = request_features matched analyzed
                      in case effective_complete_policy env key matched analyzed of
                           Inl e \<Rightarrow> (Err e, ctx, bs, st)
                         | Inr effective \<Rightarrow>
                             (case with_lease begin_processing bs l of
                                (Inl e, bs, l) \<Rightarrow> (Err e, ctx\<lparr>pc_request_body_lease := l\<rparr>, bs, st)
                              | (Inr _, bs, l) \<Rightarrow>
                                  let ctx = ctx\<lparr>pc_request_body_lease := l\<rparr>
                                  in case check_complete_request_policy env (at_policy ts) (ep_policy effective) matched analyzed features of
                                       Inl e \<Rightarrow> (Err e, ctx, bs, st)
                                     | Inr _ \<Rightarrow>
                                         if pc_budget_reserved ctx then (Ok (), ctx\<lparr>pc_policy := Some (ep_policy effective)\<rparr>, bs, st)
                                         else
                                           (case admit_rates_and_budget env ts ctx key matched (ep_policy effective) analyzed bs l st of
                                              (Inl e, bs, l, st) \<Rightarrow> (Err e, ctx\<lparr>pc_request_body_lease := l\<rparr>, bs, st)
                                            | (Inr _, bs, l, st) \<Rightarrow>
                                                (Ok (), ctx\<lparr>pc_request_body_lease := l, pc_budget_reserved := True,
                                                   pc_budget_reserved_at := Some (at_reserve ts), pc_is_streaming := gf_stream features,
                                                   pc_policy := Some (ep_policy effective)\<rparr>, bs, st)))))"

text \<open>A rejected request forwards nothing.\<close>

definition admit_complete_body ::
  "'s admission_env \<Rightarrow> admission_times \<Rightarrow> pingora_context \<Rightarrow> complete_body \<Rightarrow> body_state \<Rightarrow> 's \<Rightarrow>
   unit gateway_result \<times> string \<times> pingora_context \<times> body_state \<times> 's" where
  "admit_complete_body env ts ctx analyzed bs st =
     (case admit_checks env ts ctx analyzed bs st of
        (Inl e, ctx, bs, st) \<Rightarrow> (Err e, [], ctx\<lparr>pc_guardrail_error := Some e\<rparr>, bs, st)
      | (Inr _, ctx, bs, st) \<Rightarrow> (Ok (), cb_bytes analyzed, ctx, bs, st))"

text \<open>The result has the lease that now belongs to the forwarded bytes.\<close>

definition bind_request_body_admission ::
  "string option \<Rightarrow> pingora_context \<Rightarrow> body_state \<Rightarrow> bool \<times> string option \<times> pingora_context \<times> body_state \<times> lease option" where
  "bind_request_body_admission body ctx bs =
     (case pc_request_body_lease ctx of
        None \<Rightarrow> (True, body, ctx, bs, None)
      | Some l \<Rightarrow>
          let ctx = ctx\<lparr>pc_request_body_lease := None\<rparr>
          in case body of
               None \<Rightarrow> (True, None, ctx, lease_drop bs l, None)
             | Some buffer \<Rightarrow>
                 (case into_bytes (length buffer) bs l of
                    (Inr _, bs, l) \<Rightarrow> (True, Some buffer, ctx, bs, Some l)
                  | (Inl e, bs, l) \<Rightarrow> (False, Some [], ctx\<lparr>pc_guardrail_error := Some e\<rparr>, lease_drop bs l, None)))"

definition managed_service_request_can_stream :: "pingora_context \<Rightarrow> bool" where
  "managed_service_request_can_stream ctx =
     (case pc_policy ctx of
        None \<Rightarrow> False
      | Some policy \<Rightarrow>
          kp_allowed_models policy = [] \<and> kp_allow_streaming policy \<and> kp_allow_tools policy \<and> kp_tpm_limit policy = None \<and>
          kp_max_input_tokens_per_request policy = None \<and> kp_max_output_tokens_per_request policy = None \<and>
          pc_foundry ctx = None \<and> Option.bind (pc_route_match ctx) rm_service_name \<noteq> None \<and>
          (case pc_request_content_type ctx of Some c \<Rightarrow> \<not> is_json_content_type c | None \<Rightarrow> False) \<and>
          pc_service_pricing_rules ctx = [] \<and>
          resolve_guardrail_plan
            \<lparr>pr_mode = PreCall, pr_definitions = pc_guardrail_definitions ctx,
             pr_policies = \<lparr>key_policy = pc_guardrail_policy ctx, team_policy = None, route_policy = None, model_policy = None\<rparr>, pr_client_requested = []\<rparr> = Ok [])"

section \<open>The budget store\<close>

text \<open>
  What the admission relies on of its budget store: an id that holds a reservation is refused, and hydrating the counters
  of a key keeps the reservations. Then the retry after a hydration cannot reserve a second time.
\<close>

locale budget_store =
  fixes env :: "'s admission_env"
    and reserved :: "'s \<Rightarrow> nat \<Rightarrow> string \<Rightarrow> string \<Rightarrow> bool"
  assumes reserved_refused:
      "reserved st t key_id rid \<Longrightarrow> ae_admit env st t key_id rid cost daily monthly now = (Err ControlStateUnavailable, st)"
    and seed_keeps: "reserved st u key_id rid \<Longrightarrow> reserved (snd (ae_seed env st t key_id' b now)) u key_id rid"
begin

lemma never_reserved_twice:
  assumes "reserved st (at_admit ts) key_id rid" and "reserved st (at_readmit ts) key_id rid"
  shows "\<exists>e. fst (admit_request_budget env ts st key_id rid amount policy) = Err e"
proof -
  obtain r st' where s: "ae_seed env st (at_seed ts) key_id b (at_reserve ts) = (r b, st' b)" for b by (meson surj_pair)
  have "reserved (st' b) (at_readmit ts) key_id rid" for b
    using seed_keeps [OF assms(2), of "at_seed ts" key_id b "at_reserve ts"] s by simp
  then show ?thesis
    using reserved_refused [OF assms(1)] reserved_refused s
    by (auto simp: admit_request_budget_def Let_def split: sum.split)
qed

end

context redis_server
begin

lemma redis_reserved_refused:
  "re_get env st t (budget_reservation_key key_id rid) \<noteq> None \<Longrightarrow>
   admit_budget env st t epoch key_id rid cost daily monthly now = (Err ControlStateUnavailable, st)"
  by (auto simp: admit_budget_def Let_def)

lemma redis_seed_keeps:
  "re_get env st u (budget_reservation_key key_id rid) \<noteq> None \<Longrightarrow>
   re_get env (snd (seed_committed_budget env st t epoch key_id' b now)) u (budget_reservation_key key_id rid) \<noteq> None"
proof -
  have "daily_budget_key env key_id' now \<noteq> budget_reservation_key key_id rid" "monthly_budget_key env key_id' now \<noteq> budget_reservation_key key_id rid"
    by (simp_all add: daily_budget_key_def monthly_budget_key_def budget_reservation_key_def)
  then show "re_get env st u (budget_reservation_key key_id rid) \<noteq> None \<Longrightarrow> ?thesis"
    by (auto simp: seed_committed_budget_def seed_budget_counters_def Let_def get_set_other split: option.split list.split)
qed

end

sublocale redis_server \<subseteq> store: budget_store "redis_admission env epoch sd to_vec capacity policy committed"
  "\<lambda>st t key_id rid. re_get env st t (budget_reservation_key key_id rid) \<noteq> None"
  for epoch sd to_vec capacity policy committed
  by unfold_locales (simp_all add: redis_admission_def redis_reserved_refused redis_seed_keeps del: not_None_eq)

section \<open>The policies of a batch\<close>

lemma model_key_inj: "model_key a = model_key b \<Longrightarrow> a = b"
  by (auto simp: model_key_def split: option.splits)

definition models_loaded :: "'s admission_env \<Rightarrow> authenticated_key \<Rightarrow> route_match \<Rightarrow> (string option \<times> effective_policy) btree_map \<Rightarrow> bool" where
  "models_loaded env key matched models \<longleftrightarrow>
     (\<forall>(k, m, p) \<in> set models. k = model_key m \<and> ae_policy env (ak_key_id key) (ak_project_id key) (rm_route matched) m = Ok p)"

lemma load_model_loaded:
  "load_model env key matched models f = Ok models' \<Longrightarrow> models_loaded env key matched models \<Longrightarrow> models_loaded env key matched models'"
  using bt_insert_subset [of "model_key (gf_model f)" _ models]
  by (auto simp: load_model_def models_loaded_def split: option.splits prod.splits)

lemma models_loaded_fold:
  assumes "try_fold (load_model env key matched) [] features = Ok models"
  shows "models_loaded env key matched models"
proof (rule try_fold_invar [OF assms])
  show "models_loaded env key matched []" by (simp add: models_loaded_def)
qed (rule load_model_loaded)

definition entry_checked :: "route_match \<Rightarrow> generation_features \<Rightarrow> (string option \<times> effective_policy) btree_map \<Rightarrow> bool" where
  "entry_checked matched f models \<longleftrightarrow>
     (\<exists>m p. bt_get models (model_key (gf_model f)) = Some (m, p) \<and>
       evaluate_policy (ep_policy p) (rm_route matched) (rm_provider matched) f = Ok ())"

lemma load_model_checks: "load_model env key matched models f = Ok models' \<Longrightarrow> entry_checked matched f models'"
  by (auto simp: load_model_def entry_checked_def bt_get_insert split: option.splits prod.splits)

lemma load_model_keeps:
  "entry_checked matched f models \<Longrightarrow> load_model env key matched models g = Ok models' \<Longrightarrow> entry_checked matched f models'"
  by (auto simp: load_model_def entry_checked_def bt_get_insert split: option.splits prod.splits)

lemma models_of_entries:
  assumes "try_fold (load_model env key matched) [] features = Ok models" and "f \<in> set features"
  obtains p where "(gf_model f, p) \<in> set (bt_values models)"
    "ae_policy env (ak_key_id key) (ak_project_id key) (rm_route matched) (gf_model f) = Ok p"
    "evaluate_policy (ep_policy p) (rm_route matched) (rm_provider matched) f = Ok ()"
proof -
  have "entry_checked matched f models"
    using try_fold_establish [OF assms, of "entry_checked matched f"] load_model_checks load_model_keeps by blast
  then obtain m p where g: "bt_get models (model_key (gf_model f)) = Some (m, p)"
    and e: "evaluate_policy (ep_policy p) (rm_route matched) (rm_provider matched) f = Ok ()"
    by (auto simp: entry_checked_def)
  from models_loaded_fold [OF assms(1)] bt_get_set [OF g] have l: "model_key (gf_model f) = model_key m"
    "ae_policy env (ak_key_id key) (ak_project_id key) (rm_route matched) m = Ok p"
    by (auto simp: models_loaded_def)
  from model_key_inj [OF l(1)] l(2) e bt_get_set [OF g] show thesis
    by (intro that [of p]) (force simp: bt_values_def)+
qed

lemma models_wf:
  assumes "try_fold (load_model env key matched) [] features = Ok models"
    and "\<And>m p. ae_policy env (ak_key_id key) (ak_project_id key) (rm_route matched) m = Ok p \<Longrightarrow> layer_hours_wf (ep_policy p)"
  shows "list_all layer_hours_wf (map pl_policy (map model_layer (bt_values models)))"
  using models_loaded_fold [OF assms(1)] assms(2)
  by (auto simp: list_all_iff models_loaded_def bt_values_def model_layer_def Let_def layer_hours_wf_def)

text \<open>The checks a layer made are kept by the layer itself, whose input limit is no looser than the merged one.\<close>

lemma input_tokens_layer:
  assumes "\<not> exceeds (input_tokens_checked sd merged b) (kp_max_input_tokens_per_request layer)"
    and "kp_max_input_tokens_per_request merged = None \<Longrightarrow> kp_max_input_tokens_per_request layer = None"
  shows "\<not> exceeds (input_tokens_checked sd layer b) (kp_max_input_tokens_per_request layer)"
  using assms by (cases "kp_max_input_tokens_per_request layer"; cases "kp_max_input_tokens_per_request merged")
    (simp_all add: input_tokens_checked_def)

lemma merged_input_None:
  "kp_max_input_tokens_per_request (foldl merge_policy p ps) = None \<Longrightarrow>
   kp_max_input_tokens_per_request p = None \<and> (\<forall>q \<in> set ps. kp_max_input_tokens_per_request q = None)"
proof (induction ps arbitrary: p)
  case (Cons q ps)
  have "kp_max_input_tokens_per_request (foldl merge_policy (merge_policy p q) ps) = None" using Cons.prems by (simp only: foldl.simps)
  note I = Cons.IH [OF this, THEN conjunct1] Cons.IH [OF this, THEN conjunct2]
  from I(1) have "kp_max_input_tokens_per_request p = None \<and> kp_max_input_tokens_per_request q = None"
    by (cases "kp_max_input_tokens_per_request p"; cases "kp_max_input_tokens_per_request q")
      (simp_all add: merge_policy_fields(11))
  with I(2) show ?case by simp
qed simp

text \<open>What an admitted request went through.\<close>

lemma fallback_match_lease [simp]: "fallback_match (ctx\<lparr>pc_request_body_lease := l\<rparr>) m = fallback_match ctx m"
  by (simp add: fallback_match_def)

lemma admit_checks_Ok:
  assumes "admit_complete_body env ts ctx analyzed bs st = (Ok (), fwd, ctx', bs', st')"
    and "pc_key ctx = Some key" and "pc_route_match ctx = Some m"
  obtains effective where "effective_complete_policy env key (fallback_match ctx m) analyzed = Ok effective"
    "check_complete_request_policy env (at_policy ts) (ep_policy effective) (fallback_match ctx m) analyzed
       (request_features (fallback_match ctx m) analyzed) = Ok ()"
    "pc_policy ctx' = Some (ep_policy effective)" "pc_budget_reserved ctx'" "fwd = cb_bytes analyzed"
proof -
  obtain u where A: "admit_checks env ts ctx analyzed bs st = (Inr u, ctx', bs', st')" and F: "fwd = cb_bytes analyzed"
    using assms(1) by (auto simp: admit_complete_body_def split: prod.splits sum.splits)
  note A = A [unfolded admit_checks_def Let_def]
  obtain r1 bs1 l1 where L1: "with_lease (\<lambda>bs l. try_reserve (length (cb_bytes analyzed) - le_reserved_bytes l) bs l) bs
      (pc_request_body_lease ctx) = (r1, bs1, l1)" by (rule prod_cases3)
  obtain r2 bs2 l2 where L2: "with_lease begin_processing bs1 l1 = (r2, bs2, l2)" by (rule prod_cases3)
  obtain r3 bs3 l3 st3 where L3: "\<And>e. effective_complete_policy env key (fallback_match ctx m) analyzed = Ok e \<Longrightarrow>
      admit_rates_and_budget env ts (ctx\<lparr>pc_request_body_lease := l2\<rparr>) key (fallback_match ctx m) (ep_policy e) analyzed bs2 l2 st =
        (r3, bs3, l3, st3)"
    by (cases "effective_complete_policy env key (fallback_match ctx m) analyzed") (auto elim: prod_cases4)
  show thesis
    using A assms(2,3) L1 L2 F
    by (cases "effective_complete_policy env key (fallback_match ctx m) analyzed"; cases r1; cases r2; cases r3;
        cases "check_complete_request_policy env (at_policy ts) (ep_policy (projr (effective_complete_policy env key (fallback_match ctx m) analyzed)))
          (fallback_match ctx m) analyzed (request_features (fallback_match ctx m) analyzed)")
      (auto simp: L3 split: if_splits intro: that)
qed

lemma check_entry_Ok:
  "check_entry policy matched f = Ok () \<Longrightarrow> evaluate_policy policy (rm_route matched) (rm_provider matched) f = Ok ()"
  by (simp add: check_entry_def split: if_splits)

lemma check_batch_Ok:
  assumes "check_complete_request_policy env now policy matched analyzed features = Ok ()"
    and "rm_route matched = AnthropicMessageBatches" and "cb_bytes analyzed \<noteq> []"
  obtains entries where "batch_request_features env (cb_bytes analyzed) = Ok entries"
    "length (cb_bytes analyzed) \<le> rm_max_body_bytes matched"
    "\<And>f. f \<in> set entries \<Longrightarrow> evaluate_policy policy AnthropicMessageBatches (rm_provider matched) f = Ok ()"
    "evaluate_policy_limits policy now (Some (int (length (cb_bytes analyzed)))) None (input_tokens_checked (ae_serde env) policy analyzed)
       None (rm_estimated_cost_usd matched) = Ok ()"
proof -
  obtain entries where "batch_request_features env (cb_bytes analyzed) = Ok entries" "\<forall>f \<in> set entries. check_entry policy matched f = Ok ()"
    "length (cb_bytes analyzed) \<le> rm_max_body_bytes matched"
    "evaluate_policy_limits policy now (Some (int (length (cb_bytes analyzed)))) None (input_tokens_checked (ae_serde env) policy analyzed)
       None (rm_estimated_cost_usd matched) = Ok ()"
    using assms by (auto simp: check_complete_request_policy_def Let_def split: if_splits)
  then show thesis using check_entry_Ok assms(2) by (intro that [of entries]) fastforce+
qed

lemma batch_entries:
  assumes "batch_request_features env body = Ok entries"
  shows "entries \<noteq> []" and "f \<in> set entries \<Longrightarrow> gf_model f \<noteq> None"
proof -
  obtain es where es: "es \<noteq> []" "try_map (batch_feature env) es = Ok entries"
    using assms by (auto simp: batch_request_features_def split: option.splits if_splits)
  then show "entries \<noteq> []" by (cases es) auto
  show "gf_model f \<noteq> None" if "f \<in> set entries"
    using try_map_Ok_set [OF es(2) that] by (auto simp: batch_feature_def split: if_splits)
qed

definition batch_query :: "'s admission_env \<Rightarrow> int \<Rightarrow> key_policy \<Rightarrow> route_match \<Rightarrow> complete_body \<Rightarrow> generation_features \<Rightarrow> policy_query" where
  "batch_query env now policy matched analyzed f =
     \<lparr>pq_route = AnthropicMessageBatches, pq_provider = rm_provider matched, pq_features = f, pq_now = now,
      pq_request_body_bytes = Some (int (length (cb_bytes analyzed))), pq_response_body_bytes = None,
      pq_input_tokens = input_tokens_checked (ae_serde env) policy analyzed, pq_output_tokens = None,
      pq_cost = rm_estimated_cost_usd matched\<rparr>"

text \<open>A policy that is a layer of the merged one, or a layer of a model without its allowlist, admits the limits.\<close>

lemma layer_limits:
  assumes "policy_admits layer (batch_query env now merged matched analyzed f)"
    and "kp_max_input_tokens_per_request merged = None \<Longrightarrow> kp_max_input_tokens_per_request layer = None"
  shows "evaluate_policy_limits layer now (Some (int (length (cb_bytes analyzed)))) None (input_tokens_checked (ae_serde env) layer analyzed)
       None (rm_estimated_cost_usd matched) = Ok ()"
  using assms input_tokens_layer [of "ae_serde env" merged analyzed layer]
  by (simp add: policy_admits_def evaluate_policy_limits_Ok batch_query_def)

lemma limits_without_models:
  "evaluate_policy_limits (p\<lparr>kp_allowed_models := []\<rparr>) now rb rs it ot c = evaluate_policy_limits p now rb rs it ot c"
  "input_tokens_checked sd (p\<lparr>kp_allowed_models := []\<rparr>) b = input_tokens_checked sd p b"
  by (simp_all add: evaluate_policy_limits_def input_tokens_checked_def)


section \<open>A batch of two models\<close>

text \<open>A serde that reads the body of the sample and its two entries.\<close>

definition entry_params :: "string \<Rightarrow> json" where
  "entry_params model = JObject [(''model'', JString model)]"

definition sample_batch :: json where
  "sample_batch = JObject [(''requests'', JArray [JObject [(''params'', entry_params ''a'')], JObject [(''params'', entry_params ''b'')]])]"

definition sample_probe :: "string option \<Rightarrow> generation_request_probe" where
  "sample_probe model =
     \<lparr>grp_model = model, grp_stream = False, grp_tools = None, grp_functions = None, grp_function_call = None, grp_tool_choice = None,
      grp_service = None, grp_service_name = None, grp_guardrails = None\<rparr>"

definition batch_serde :: serde where
  "batch_serde =
     \<lparr>from_value = (\<lambda>s. if s = ''batch'' then Some sample_batch else None), from_batch = (\<lambda>_. Some [''a'', ''b'']), from_extra_body = (\<lambda>_. Some None),
      from_output_maximum = (\<lambda>_. None),
      from_generation_probe = (\<lambda>s. Some (sample_probe (if s = ''batch'' then None else Some s)))\<rparr>"

definition model_name :: "json \<Rightarrow> string option" where
  "model_name v = Option.bind (json_get v ''model'') as_str"

definition policy_of_model :: "string option \<Rightarrow> effective_policy" where
  "policy_of_model model =
     \<lparr>ep_policy = (neutral_layer 1)\<lparr>kp_allowed_models := (case model of Some m \<Rightarrow> [m] | None \<Rightarrow> [])\<rparr>,
      ep_guardrail_policy = default_guardrail_policy, ep_applied_layers = []\<rparr>"

definition sample_admission :: "memory admission_env" where
  "sample_admission =
     redis_admission memory_redis ''e'' batch_serde model_name length (\<lambda>_ _ _ model. Ok (policy_of_model model))
       (\<lambda>_ _. Ok \<lparr>bg_daily = Fin 0, bg_monthly = Fin 0\<rparr>)"

interpretation memory_store: budget_store sample_admission
  "\<lambda>st t key_id rid. re_get memory_redis st t (budget_reservation_key key_id rid) \<noteq> None"
  by unfold_locales
    (simp_all add: sample_admission_def redis_admission_def memory.redis_reserved_refused memory.redis_seed_keeps del: not_None_eq)

definition sample_times :: admission_times where
  "sample_times = \<lparr>at_policy = 0, at_tokens = 0, at_reserve = 0, at_tokens_server = (0, 0), at_admit = 0, at_seed = 0, at_readmit = 0\<rparr>"

lemma sample_entries:
  "batch_request_features sample_admission ''batch'' =
     Ok [default_features\<lparr>gf_model := Some ''a''\<rparr>, default_features\<lparr>gf_model := Some ''b''\<rparr>]"
  by (simp add: batch_request_features_def batch_feature_def sample_admission_def redis_admission_def batch_serde_def sample_batch_def
    entry_params_def json_get_def bt_get_def model_name_def analyze_generation_request_def sample_probe_def nonempty_str_def default_features_def)

definition sample_context :: pingora_context where
  "sample_context = (new_ctx sample_proxy ''r'' ''s'')
     \<lparr>pc_key := Some \<lparr>ak_key_id = ''k'', ak_project_id = None, ak_key_prefix = ''p''\<rparr>,
      pc_route_match := Some ((litellm_match AnthropicMessageBatches)\<lparr>rm_estimated_cost_usd := None\<rparr>)\<rparr>"

definition sample_body :: complete_body where
  "sample_body = complete_body_new batch_serde ''batch''"

lemma merge_neutral: "merge_policy (neutral_layer 1) (neutral_layer 1) = neutral_layer 1"
  by (simp add: merge_policy_def merge_allowlist_alt merge_allowed_hours_alt merged_list_def clash_def neutral_layer_def valid_hours_def)

lemma merge_default_guardrails:
  "merge_guardrail_policy default_guardrail_policy default_guardrail_policy = Ok default_guardrail_policy"
  by (simp add: merge_guardrail_policy_def default_guardrail_policy_def append_unique_def guardrail_policy_validate_def)

lemma sample_policy_loaded:
  assumes "rm_route m = AnthropicMessageBatches"
  obtains eff where "effective_complete_policy sample_admission key m sample_body = Ok eff" "ep_policy eff = neutral_layer 1"
    "ep_guardrail_policy eff = default_guardrail_policy"
proof -
  have pol: "ae_policy sample_admission k pr r x = Ok (policy_of_model x)" for k pr r x
    by (simp add: sample_admission_def redis_admission_def)
  have ev: "evaluate_policy (ep_policy (policy_of_model (Some x))) r pv (default_features\<lparr>gf_model := Some x\<rparr>) = Ok ()" for r pv x
    by (simp add: evaluate_policy_def policy_of_model_def neutral_layer_def listed_def default_features_def)
  have mk: "model_key (Some ''b'') \<noteq> model_key (Some ''a'')" "\<not> model_key (Some ''b'') < model_key (Some ''a'')"
    by (simp_all add: model_key_def)
  have models: "try_fold (load_model sample_admission key m) []
      [default_features\<lparr>gf_model := Some ''a''\<rparr>, default_features\<lparr>gf_model := Some ''b''\<rparr>] =
    Ok [(model_key (Some ''a''), Some ''a'', policy_of_model (Some ''a'')), (model_key (Some ''b''), Some ''b'', policy_of_model (Some ''b''))]"
    using mk by (simp add: load_model_def pol ev bt_get_def)
  have layer: "pl_policy (model_layer (Some x, policy_of_model (Some x))) = neutral_layer 1"
    "pl_guardrail_policy (model_layer (Some x, policy_of_model (Some x))) = default_guardrail_policy" for x
    by (simp_all add: model_layer_def policy_of_model_def neutral_layer_def)
  have none: "ep_policy (policy_of_model None) = neutral_layer 1" "ep_guardrail_policy (policy_of_model x) = default_guardrail_policy" for x
    by (simp_all add: policy_of_model_def neutral_layer_def)
  have body: "cb_bytes sample_body = ''batch''" "Option.bind (cb_generation sample_body) (\<lambda>a. gf_model (ra_features a)) = None"
    by (simp_all add: sample_body_def complete_body_new_def analyze_generation_request_def batch_serde_def sample_probe_def nonempty_str_def)
  have "\<exists>eff. effective_complete_policy sample_admission key m sample_body = Ok eff \<and> ep_policy eff = neutral_layer 1 \<and>
      ep_guardrail_policy eff = default_guardrail_policy"
    by (simp add: effective_complete_policy_def pol assms body sample_entries models del: try_fold.simps)
      (simp add: bt_values_def merge_layer_def layer none merge_neutral merge_default_guardrails)
  then show thesis using that by blast
qed

definition sample_subject :: "pingora_context \<Rightarrow> bool" where
  "sample_subject ctx \<longleftrightarrow>
     pc_key ctx = Some \<lparr>ak_key_id = ''k'', ak_project_id = None, ak_key_prefix = ''p''\<rparr> \<and>
     pc_route_match ctx = Some ((litellm_match AnthropicMessageBatches)\<lparr>rm_estimated_cost_usd := None\<rparr>) \<and>
     pc_request_body_lease ctx = None \<and> \<not> pc_budget_reserved ctx \<and> pc_fallback_count ctx = 0 \<and> pc_reservation_id ctx = ''s''"

lemma sample_admitted:
  assumes "sample_subject sample"
  shows "\<exists>fwd ctx' st'. admit_complete_body sample_admission sample_times sample sample_body sample_state sample_budgets =
     (Ok (), fwd, ctx', sample_state, st') \<and> fwd = cb_bytes sample_body \<and> pc_request_body_lease ctx' = None"
proof -
  let ?m = "(litellm_match AnthropicMessageBatches)\<lparr>rm_estimated_cost_usd := None\<rparr>"
  let ?key = "\<lparr>ak_key_id = ''k'', ak_project_id = None, ak_key_prefix = ''p''\<rparr>"
  have ctx: "pc_key sample = Some ?key" "pc_route_match sample = Some ?m" "pc_request_body_lease sample = None"
    "pc_budget_reserved sample = False" "pc_fallback_count sample = 0" "pc_reservation_id sample = ''s''"
    using assms by (simp_all add: sample_subject_def)
  have same: "sample\<lparr>pc_request_body_lease := None\<rparr> = sample" using ctx(3) by (cases sample) simp
  have policy_time: "at_policy sample_times = 0" by (simp add: sample_times_def)
  have m: "fallback_match sample ?m = ?m" "rm_route ?m = AnthropicMessageBatches" "rm_max_body_bytes ?m = 1048576"
    by (simp_all add: fallback_match_def ctx litellm_match_def)
  obtain eff where eff: "effective_complete_policy sample_admission ?key ?m sample_body = Ok eff" "ep_policy eff = neutral_layer 1"
    using sample_policy_loaded [OF m(2)] by blast
  have body: "cb_bytes sample_body = ''batch''" "cb_generation sample_body \<noteq> None"
    by (simp_all add: sample_body_def complete_body_new_def analyze_generation_request_def batch_serde_def)
  have over: "reject_provider_parameter_overrides batch_serde (neutral_layer 1) AnthropicMessages b = Ok ()" for b
    by (subst reject_provider_parameter_overrides.simps) (simp add: batch_serde_def)
  have "reject_provider_parameter_overrides batch_serde (neutral_layer 1) AnthropicMessageBatches ''batch'' = Ok ()"
    by (subst reject_provider_parameter_overrides.simps) (simp add: over, simp add: batch_serde_def over)
  then have "enforce_output_token_limit batch_serde (neutral_layer 1) AnthropicMessageBatches ''batch'' = Ok ()"
    by (simp add: enforce_output_token_limit_def neutral_layer_def)
  moreover have sd: "ae_serde sample_admission = batch_serde" by (simp add: sample_admission_def redis_admission_def)
  ultimately have check: "check_complete_request_policy sample_admission 0 (neutral_layer 1) ?m sample_body f = Ok ()" for f
    using body m by (auto simp: check_complete_request_policy_def Let_def sample_entries check_entry_def generation_route_def
      evaluate_policy_def evaluate_policy_limits_def neutral_layer_def listed_def default_features_def)
  have get: "re_get memory_redis sample_budgets t k = (if k = budget_epoch_key then Some ''e'' else None)" for t k
    by (simp add: sample_budgets_def memory_redis_def mem_get_def)
  have texts: "re_show memory_redis = mem_text" "re_lua memory_redis = mem_text" by (simp_all add: memory_redis_def)
  have zero: "mem_plus ''0'' ''0'' = Some ''0''"
    using round64_int [of 0] by (simp add: mem_plus_def mem_number_def mem_text_def)
  let ?dk = "daily_budget_key memory_redis ''k'' 0" and ?mk = "monthly_budget_key memory_redis ''k'' 0"
  have "distinct [budget_reservation_key ''k'' ''s'', ?dk, ?mk, reserved_key ?dk, reserved_key ?mk]" by simp
  from memory.write_reservation_gets [OF this, of sample_budgets 0 "Fin 0" "''0''" "''0''" "Fin 0" "Fin 0"] obtain st1 where
    "write_reservation memory_redis sample_budgets 0 (budget_reservation_key ''k'' ''s'') ?dk ?mk (Fin 0) (Fin 0) (Fin 0) = (True, st1)"
    by (auto simp: text_at_def get texts mem_text_def zero)
  then have "\<exists>b. admit_budget memory_redis sample_budgets 0 ''e'' ''k'' ''s'' (Fin 0) None None 0 = (Ok (BudgetAllowed b), st1)"
    by (simp add: admit_budget_def Let_def number_at_def nonnegative_numbers_def get epoch_matches_def over_limit_def negative_def
      List.map_filter_def)
  then obtain b where admit: "admit_budget memory_redis sample_budgets 0 ''e'' ''k'' ''s'' (Fin 0) None None 0 = (Ok (BudgetAllowed b), st1)"
    by blast
  have "admit_rates_and_budget sample_admission sample_times sample ?key ?m (neutral_layer 1) sample_body sample_state None sample_budgets =
      (Ok (), sample_state, None, st1)"
    using admit
    by (simp add: admit_rates_and_budget_def neutral_layer_def retain_request_metadata_workspace_def with_lease_def sample_admission_def
      redis_admission_def sample_times_def check_token_rate_limit_def admit_request_budget_def Let_def ctx)
  then have "\<exists>ctx' st'. admit_checks sample_admission sample_times sample sample_body sample_state sample_budgets =
      (Ok (), ctx', sample_state, st') \<and> pc_request_body_lease ctx' = None"
    using check eff by (simp add: admit_checks_def with_lease_def ctx m Let_def same policy_time)
  then show ?thesis by (auto simp: admit_complete_body_def)
qed


text \<open>An estimate beyond \<open>i32\<close> is dropped before it is compared, so no limit on input tokens rejects such a request.\<close>

lemma huge_estimate_unchecked:
  assumes "2 ^ 31 \<le> estimated_tokens sd b"
  shows "\<not> exceeds (input_tokens_checked sd policy b) (kp_max_input_tokens_per_request policy)"
  using assms by (simp add: input_tokens_checked_def split: option.split)

end
