(* ===== verification/Stream_Guardrails.thy ===== *)
theory Stream_Guardrails
  imports Proxy_Context
begin

text \<open>
  Guardrails on a streamed response (\<open>apply_streaming_guardrails\<close> in
  \<open>gateway-proxy/src/pingora_plane.rs\<close>): the chunks are joined with the text held back, all but the last 65 characters are
  redacted and pass the during-call guardrails, and the rest is held back. Strings are byte strings; \<open>send\<close> is the
  HTTP exchange of an HTTP guardrail and \<open>latency\<close> what its clock measured.
\<close>

section \<open>The filter\<close>

text \<open>\<open>char_indices().rev().nth(64)\<close>\<close>

definition hold_split :: "bool \<Rightarrow> string \<Rightarrow> nat" where
  "hold_split end_of_stream combined =
     (if end_of_stream then length combined
      else if length combined \<le> 64 then 0
      else let starts = filter (\<lambda>i. char_start (combined ! i)) [0..<length combined]
           in if 64 < length starts then starts ! (length starts - 65) else 0)"

definition during_call ::
  "http_send \<Rightarrow> nat \<Rightarrow> int \<Rightarrow> pingora_context \<Rightarrow> string \<Rightarrow> string \<times> pingora_context" where
  "during_call send latency now ctx redacted =
     (case (pc_during_guardrail_plan ctx, pc_guardrail_context ctx) of
        (Some plan, Some context) \<Rightarrow>
          (case execute (guardrail_executor_for_definitions send latency (pc_guardrail_definitions ctx)) plan DuringCall context None
              (Some (JString redacted)) of
             Inr execution \<Rightarrow>
               ((case Option.bind (ge_response execution) as_str of Some s \<Rightarrow> s | None \<Rightarrow> []),
                ctx\<lparr>pc_guardrail_context := Some (ge_context execution),
                    pc_guardrail_events := pc_guardrail_events ctx @
                      execution_events_from_records (ge_context execution) (ge_records execution) now\<rparr>)
           | Inl e \<Rightarrow> ([], ctx\<lparr>pc_guardrail_error := Some e\<rparr>))
      | _ \<Rightarrow> (redacted, ctx))"

definition apply_streaming_guardrails ::
  "http_send \<Rightarrow> nat \<Rightarrow> int \<Rightarrow> string option \<Rightarrow> bool \<Rightarrow> pingora_context \<Rightarrow> string option \<times> pingora_context" where
  "apply_streaming_guardrails send latency now body end_of_stream ctx =
     (case body of
        None \<Rightarrow>
          if end_of_stream \<and> pc_guardrail_stream_holdback ctx \<noteq> []
          then (Some (fst (redact_pii_text (pc_guardrail_stream_holdback ctx))), ctx\<lparr>pc_guardrail_stream_holdback := []\<rparr>)
          else (None, ctx)
      | Some chunk \<Rightarrow>
          if \<not> valid_utf8 chunk then (Some [], ctx\<lparr>pc_guardrail_error := Some GuardrailUnavailable\<rparr>)
          else
            let combined = pc_guardrail_stream_holdback ctx @ chunk;
                split_at = hold_split end_of_stream combined;
                ctx = ctx\<lparr>pc_guardrail_stream_holdback := drop split_at combined\<rparr>;
                redacted = fst (redact_pii_text (take split_at combined));
                (output, ctx) = during_call send latency now ctx redacted
            in (Some output, ctx))"

section \<open>A whole stream\<close>

text \<open>What a response sends: its chunks, and an empty end of the stream.\<close>

fun stream_chunks ::
  "http_send \<Rightarrow> nat \<Rightarrow> int \<Rightarrow> string list \<Rightarrow> pingora_context \<Rightarrow> string list \<times> pingora_context" where
  "stream_chunks send latency now [] ctx =
     (case apply_streaming_guardrails send latency now None True ctx of
        (Some out, ctx) \<Rightarrow> ([out], ctx)
      | (None, ctx) \<Rightarrow> ([], ctx))"
| "stream_chunks send latency now (c # cs) ctx =
     (case apply_streaming_guardrails send latency now (Some c) False ctx of
        (out, ctx) \<Rightarrow>
          (case stream_chunks send latency now cs ctx of
             (outs, ctx) \<Rightarrow> ((case out of Some o1 \<Rightarrow> o1 | None \<Rightarrow> []) # outs, ctx)))"

lemma hold_split_le: "hold_split e s \<le> length s"
proof -
  let ?starts = "filter (\<lambda>i. char_start (s ! i)) [0..<length s]"
  have "?starts ! k < length s" if "k < length ?starts" for k
    using nth_mem [OF that] by simp
  then show ?thesis by (auto simp: hold_split_def Let_def less_imp_le)
qed

lemma filter_starts_eq: "length (filter (\<lambda>i. p (s ! i)) [0..<length s]) = length (filter p s)"
proof -
  have "filter p s = map ((!) s) (filter (\<lambda>i. p (s ! i)) [0..<length s])"
    by (subst map_nth [symmetric]) (simp only: filter_map o_def)
  then show ?thesis by simp
qed

text \<open>What a split holds back: at most 65 characters.\<close>

lemma sorted_filter_nth:
  assumes "sorted_wrt (<) (xs :: nat list)" "k < length xs"
  shows "filter (\<lambda>i. xs ! k \<le> i) xs = drop k xs"
proof -
  have "\<forall>x\<in>set (take k xs). x < xs ! k"
    using assms by (auto simp: in_set_conv_nth sorted_wrt_iff_nth_less)
  moreover have "\<forall>x\<in>set (drop k xs). xs ! k \<le> x"
  proof
    fix x assume "x \<in> set (drop k xs)"
    then obtain j where "j < length xs - k" "x = xs ! (k + j)" by (auto simp: in_set_conv_nth)
    then show "xs ! k \<le> x"
      using assms by (cases "j = 0") (auto simp: sorted_wrt_iff_nth_less less_imp_le)
  qed
  ultimately have "filter (\<lambda>i. xs ! k \<le> i) (take k xs @ drop k xs) = drop k xs"
    by (subst filter_append) (force simp: filter_empty_conv)
  then show ?thesis by simp
qed

lemma char_count_drop:
  "char_count (drop n s) = length (filter (\<lambda>i. n \<le> i) (filter (\<lambda>i. char_start (s ! i)) [0..<length s]))"
proof -
  have "[0..<length s] = [0..<min n (length s)] @ [min n (length s)..<length s]"
    by (metis min.cobounded2 upt_add_eq_append zero_le le_add_diff_inverse)
  moreover have "filter (\<lambda>i. n \<le> i \<and> char_start (s ! i)) [0..<min n (length s)] = []"
    by (simp add: filter_empty_conv)
  moreover have "filter (\<lambda>i. n \<le> i \<and> char_start (s ! i)) [min n (length s)..<length s]
      = filter (\<lambda>i. char_start (s ! i)) [min n (length s)..<length s]"
    by (rule filter_cong) auto
  moreover have "length (filter (\<lambda>i. char_start (s ! i)) [min n (length s)..<length s]) = length (filter char_start (drop n s))"
  proof -
    have "drop n s = map ((!) s) [min n (length s)..<length s]"
      by (rule nth_equalityI) auto
    then show ?thesis by (simp add: filter_map o_def)
  qed
  ultimately show ?thesis
    by (simp add: char_count_def conj_commute)
qed

lemma holdback_bounded: "char_count (drop (hold_split False s) s) \<le> 65"
proof -
  let ?starts = "filter (\<lambda>i. char_start (s ! i)) [0..<length s]"
  show ?thesis
  proof (cases "64 < length s \<and> 64 < length ?starts")
    case True
    then have "hold_split False s = ?starts ! (length ?starts - 65)"
      by (simp add: hold_split_def Let_def)
    moreover have "filter (\<lambda>i. ?starts ! (length ?starts - 65) \<le> i) ?starts = drop (length ?starts - 65) ?starts"
      using True by (intro sorted_filter_nth sorted_wrt_filter) (auto simp: sorted_wrt_upt)
    ultimately have "char_count (drop (hold_split False s) s) = length (drop (length ?starts - 65) ?starts)"
      by (simp only: char_count_drop)
    then show ?thesis by simp
  next
    case False
    then have "hold_split False s = 0" by (auto simp: hold_split_def Let_def)
    moreover have "char_count s \<le> 64"
      using False le_trans [OF length_filter_le [of char_start s]] by (auto simp: char_count_def filter_starts_eq)
    ultimately show ?thesis by simp
  qed
qed

section \<open>What a stream sends\<close>

lemma chunk_without_plan:
  assumes "pc_during_guardrail_plan ctx = None" "valid_utf8 chunk"
  shows "apply_streaming_guardrails send latency now (Some chunk) e ctx =
    (let s = pc_guardrail_stream_holdback ctx @ chunk
     in (Some (fst (redact_pii_text (take (hold_split e s) s))), ctx\<lparr>pc_guardrail_stream_holdback := drop (hold_split e s) s\<rparr>))"
  using assms by (simp add: apply_streaming_guardrails_def during_call_def Let_def)

lemma stream_pieces:
  assumes "pc_during_guardrail_plan ctx = None" "list_all valid_utf8 chunks"
  shows "\<exists>pieces. fst (stream_chunks send latency now chunks ctx) = map (\<lambda>p. fst (redact_pii_text p)) pieces
    \<and> concat pieces = pc_guardrail_stream_holdback ctx @ concat chunks
    \<and> pc_guardrail_stream_holdback (snd (stream_chunks send latency now chunks ctx)) = []"
  using assms
proof (induction chunks arbitrary: ctx)
  case Nil
  show ?case
  proof (cases "pc_guardrail_stream_holdback ctx = []")
    case True
    then show ?thesis by (intro exI [of _ "[]"]) (simp add: apply_streaming_guardrails_def)
  next
    case False
    then show ?thesis
      by (intro exI [of _ "[pc_guardrail_stream_holdback ctx]"]) (simp add: apply_streaming_guardrails_def)
  qed
next
  case (Cons c cs)
  define s where "s = pc_guardrail_stream_holdback ctx @ c"
  define n where "n = hold_split False s"
  define ctx' where "ctx' = ctx\<lparr>pc_guardrail_stream_holdback := drop n s\<rparr>"
  have step: "apply_streaming_guardrails send latency now (Some c) False ctx = (Some (fst (redact_pii_text (take n s))), ctx')"
    using Cons.prems by (simp add: chunk_without_plan Let_def s_def n_def ctx'_def)
  have "pc_during_guardrail_plan ctx' = None" "list_all valid_utf8 cs" "pc_guardrail_stream_holdback ctx' = drop n s"
    using Cons.prems by (simp_all add: ctx'_def)
  with Cons.IH [of ctx'] obtain pieces where sent:
    "fst (stream_chunks send latency now cs ctx') = map (\<lambda>p. fst (redact_pii_text p)) pieces"
    "pc_guardrail_stream_holdback (snd (stream_chunks send latency now cs ctx')) = []"
    and "concat pieces = drop n s @ concat cs" by metis
  moreover have "take n s @ drop n s @ concat cs = pc_guardrail_stream_holdback ctx @ c @ concat cs"
    by (simp only: append_assoc [symmetric] append_take_drop_id) (simp only: s_def)
  ultimately have "concat (take n s # pieces) = pc_guardrail_stream_holdback ctx @ concat (c # cs)"
    by (simp only: concat.simps)
  with sent show ?case
    by (intro exI [of _ "take n s # pieces"]) (auto simp: step split: prod.splits)
qed



text \<open>
  A redaction sees one piece at a time: an address the split falls into is sent in two parts, neither of which
  is redacted, although the whole text is.
\<close>

lemma split_address_unredacted:
  "let sent = ''alice@example.com'' @ replicate 57 (CHR '' '')
   in concat (fst (stream_chunks (\<lambda>_ _. Inl GuardrailUnavailable) 0 0 [sent] (new_ctx sample_proxy ''r'' ''s''))) = sent
      \<and> fst (redact_pii_text sent) \<noteq> sent"
  by code_simp

end
