(* ===== verification/Foundry_Tokens.thy ===== *)
theory Foundry_Tokens
  imports Proxy_Context
begin

text \<open>
  Azure tokens for Foundry (\<open>gateway-proxy/src/foundry.rs\<close>): the request for a token and the checks of the
  answer, the cache of tokens with one acquisition per provider at a time, and the connection check of the admin console.
  The environment variables, the token file, the URL and JSON parsers and the HTTP exchange are parameters: an
  exchange either fails, and then says whether it timed out, or gives a status and the chunks of the body, where a missing
  chunk is a read that failed.
\<close>

section \<open>Requests for a token\<close>

record identity_env =
  ie_url :: "string \<Rightarrow> url_parts option"
  ie_mock_endpoint :: "string option"
  ie_token_file :: "string option"
  ie_file :: "string \<Rightarrow> string option"
  ie_client_builds :: bool
  ie_from_slice :: "string \<Rightarrow> json option"

datatype identity_failure =
    Configuration
  | WorkloadMissing
  | WorkloadUnreadable
  | WorkloadInvalid
  | IdentityRejected nat
  | IdentityNetwork
  | IdentityTimeout
  | TokenResponse

datatype http_reply = SendFailed bool | Reply nat "string option list"

text \<open>A request: the metadata service is asked with a query, Entra with a posted form.\<close>

datatype token_request =
    MetadataQuery string "(string \<times> string) list"
  | PostedForm string "(string \<times> string) list"

fun request_endpoint :: "token_request \<Rightarrow> string" where
  "request_endpoint (MetadataQuery e q) = e"
| "request_endpoint (PostedForm e f) = e"

fun request_fields :: "token_request \<Rightarrow> (string \<times> string) list" where
  "request_fields (MetadataQuery e q) = q"
| "request_fields (PostedForm e f) = f"

definition uuid_nil :: string where
  "uuid_nil = ''00000000-0000-0000-0000-000000000000''"

definition loopback_prefix :: string where
  "loopback_prefix = ''http://127.0.0.1:''"

definition default_endpoint :: "foundry_runtime_config \<Rightarrow> string \<Rightarrow> string" where
  "default_endpoint cfg tenant =
     (if fi_method (fc_identity cfg) = ManagedIdentity then ''http://169.254.169.254/metadata/identity/oauth2/token''
      else ''https://login.microsoftonline.com/'' @ tenant @ ''/oauth2/v2.0/token'')"

definition token_endpoint :: "identity_env \<Rightarrow> foundry_runtime_config \<Rightarrow> string \<Rightarrow> string gateway_result" where
  "token_endpoint env cfg tenant =
     (case (if starts_with (fc_base_url cfg) loopback_prefix then ie_mock_endpoint env else None) of
        Some endpoint \<Rightarrow>
          and_then (ok_or (ie_url env endpoint) InvalidFoundryConfiguration) (\<lambda>url.
          if url_scheme url \<noteq> ''http'' \<or> url_host_str url \<noteq> Some ''127.0.0.1'' \<or> url_username url \<noteq> [] \<or> url_password url \<noteq> None
          then Err InvalidFoundryConfiguration else Ok endpoint)
      | None \<Rightarrow> Ok (default_endpoint cfg tenant))"

definition endpoint_or :: "identity_failure \<Rightarrow> 'a gateway_result \<Rightarrow> identity_failure + 'a" where
  "endpoint_or failure r = (case r of Inl _ \<Rightarrow> Inl failure | Inr v \<Rightarrow> Inr v)"

text \<open>The projected token: at most 65537 bytes are read, and they are text.\<close>

definition workload_assertion :: "identity_env \<Rightarrow> identity_failure + string" where
  "workload_assertion env =
     and_then (ok_or (ie_token_file env) WorkloadMissing) (\<lambda>path.
     and_then (ok_or (ie_file env path) WorkloadUnreadable) (\<lambda>content.
     let assertion = take 65537 content
     in if \<not> valid_utf8 assertion then Err WorkloadUnreadable
        else if trim assertion = [] \<or> 65536 < length assertion then Err WorkloadInvalid
        else Ok (trim assertion)))"

definition credential_fields :: "identity_env \<Rightarrow> foundry_runtime_config \<Rightarrow> identity_failure + (string \<times> string) list" where
  "credential_fields env cfg =
     (if fi_method (fc_identity cfg) = ClientSecret
      then and_then (ok_or (fc_secret cfg) TokenResponse) (\<lambda>secret. Ok [(''client_secret'', secret)])
      else and_then (workload_assertion env) (\<lambda>assertion.
             Ok [(''client_assertion_type'', ''urn:ietf:params:oauth:client-assertion-type:jwt-bearer''),
                 (''client_assertion'', assertion)]))"

definition token_request_for :: "identity_env \<Rightarrow> foundry_runtime_config \<Rightarrow> identity_failure + token_request" where
  "token_request_for env cfg =
     and_then (endpoint_or Configuration
         (foundry_identity_validate (ie_url env) (fc_identity cfg) (fc_base_url cfg) (fc_secret cfg \<noteq> None))) (\<lambda>_.
     if \<not> ie_client_builds env then Err TokenResponse
     else if fi_method (fc_identity cfg) = ManagedIdentity
     then and_then (endpoint_or Configuration (token_endpoint env cfg uuid_nil)) (\<lambda>endpoint.
            Ok (MetadataQuery endpoint
              ([(''api-version'', ''2018-02-01''), (''resource'', ''https://ai.azure.com'')] @
               (case fi_client_id (fc_identity cfg) of Some c \<Rightarrow> [(''client_id'', c)] | None \<Rightarrow> []))))
     else
       and_then (ok_or (fi_tenant_id (fc_identity cfg)) TokenResponse) (\<lambda>tenant.
       and_then (endpoint_or Configuration (token_endpoint env cfg tenant)) (\<lambda>endpoint.
       and_then (ok_or (fi_client_id (fc_identity cfg)) TokenResponse) (\<lambda>client_id.
       and_then (credential_fields env cfg) (\<lambda>fields.
         Ok (PostedForm endpoint
           ([(''grant_type'', ''client_credentials''), (''client_id'', client_id), (''scope'', ''https://ai.azure.com/.default'')] @
            fields)))))))"

section \<open>The answer\<close>

text \<open>A body of at most 65536 bytes, read by chunks.\<close>

fun read_bounded :: "string \<Rightarrow> string option list \<Rightarrow> string option" where
  "read_bounded bytes [] = Some bytes"
| "read_bounded bytes (None # chunks) = None"
| "read_bounded bytes (Some c # chunks) =
     (if 65536 < length bytes + length c then None else read_bounded (bytes @ c) chunks)"

text \<open>\<open>is_ascii_whitespace\<close> or \<open>is_ascii_control\<close>\<close>

definition blank_or_control :: "char \<Rightarrow> bool" where
  "blank_or_control c = (byte c \<le> 32 \<or> byte c = 127)"

definition token_lifetime :: "json \<Rightarrow> nat option" where
  "token_lifetime v =
     Option.bind (json_get v ''expires_in'') (\<lambda>e. case as_u64 e of Some n \<Rightarrow> Some n | None \<Rightarrow> Option.bind (as_str e) parse_u64)"

definition token_from_value :: "json \<Rightarrow> identity_failure + string \<times> nat" where
  "token_from_value v =
     and_then (ok_or (Option.bind (json_get v ''access_token'') as_str) TokenResponse) (\<lambda>token.
     if token = [] \<or> list_ex blank_or_control token then Err TokenResponse
     else if (case Option.bind (json_get v ''token_type'') as_str of
                Some t \<Rightarrow> \<not> eq_ignore_ascii_case t ''Bearer'' | None \<Rightarrow> True) then Err TokenResponse
     else and_then (ok_or (token_lifetime v) TokenResponse) (\<lambda>secs.
          if secs = 0 \<or> 86400 < secs then Err TokenResponse else Ok (token, secs)))"

definition token_from_reply :: "identity_env \<Rightarrow> http_reply \<Rightarrow> identity_failure + string \<times> nat" where
  "token_from_reply env reply =
     (case reply of
        SendFailed timeout \<Rightarrow> Err (if timeout then IdentityTimeout else IdentityNetwork)
      | Reply status chunks \<Rightarrow>
          if \<not> (200 \<le> status \<and> status < 300) then Err (IdentityRejected status)
          else and_then (ok_or (Option.bind (read_bounded [] chunks) (ie_from_slice env)) TokenResponse) token_from_value)"

definition acquire_token_checked ::
  "identity_env \<Rightarrow> (token_request \<Rightarrow> http_reply) \<Rightarrow> foundry_runtime_config \<Rightarrow> identity_failure + string \<times> nat" where
  "acquire_token_checked env send cfg =
     and_then (token_request_for env cfg) (\<lambda>request. token_from_reply env (send request))"

definition acquire_token ::
  "identity_env \<Rightarrow> (token_request \<Rightarrow> http_reply) \<Rightarrow> foundry_runtime_config \<Rightarrow> (string \<times> nat) gateway_result" where
  "acquire_token env send cfg =
     (case acquire_token_checked env send cfg of Inl _ \<Rightarrow> Err FoundryCredentialUnavailable | Inr t \<Rightarrow> Ok t)"

section \<open>The cache\<close>

text \<open>
  Instants are in nanoseconds. One look at the clock stands for those of a locked section.
\<close>

record cached_token =
  ct_revision :: int
  ct_token :: string
  ct_refresh_at :: nat

type_synonym token_entries = "(string \<times> cached_token) list"

definition cached_for :: "token_entries \<Rightarrow> nat \<Rightarrow> foundry_runtime_config \<Rightarrow> string option" where
  "cached_for entries now cfg =
     (case map_of entries (fc_id cfg) of
        Some c \<Rightarrow> if ct_revision c = fc_revision cfg \<and> now < ct_refresh_at c then Some (ct_token c) else None
      | None \<Rightarrow> None)"

text \<open>\<open>secs.saturating_sub((secs / 10).clamp(1, 60))\<close>\<close>

definition refresh_after :: "nat \<Rightarrow> nat" where
  "refresh_after secs = secs - max 1 (min 60 (secs div 10))"

definition remember :: "foundry_runtime_config \<Rightarrow> string \<Rightarrow> nat \<Rightarrow> nat \<Rightarrow> token_entries \<Rightarrow> token_entries" where
  "remember cfg token secs now entries =
     (let live = filter (\<lambda>(_, c). now < ct_refresh_at c) entries;
          kept = (if 256 \<le> length live then [] else live)
      in (fc_id cfg, \<lparr>ct_revision = fc_revision cfg, ct_token = token,
            ct_refresh_at = now + 1000000000 * refresh_after secs\<rparr>) # filter (\<lambda>(i, _). i \<noteq> fc_id cfg) kept)"

definition store_token :: "foundry_runtime_config \<Rightarrow> string \<Rightarrow> nat \<Rightarrow> nat \<Rightarrow> token_entries \<Rightarrow> string \<times> token_entries" where
  "store_token cfg token secs now entries =
     (case map_of entries (fc_id cfg) of
        Some c \<Rightarrow>
          if fc_revision cfg < ct_revision c then (token, entries)
          else if ct_revision c = fc_revision cfg \<and> now < ct_refresh_at c then (ct_token c, entries)
          else (token, remember cfg token secs now entries)
      | None \<Rightarrow> (token, remember cfg token secs now entries))"

text \<open>
  A call of \<open>token\<close> runs from one await to the next: it looks into the cache, takes the provider's refresh lock
  from the table of weak references, waits for it, looks again, acquires a token and stores it. A lock is a number; it
  lives as long as a call holds a reference to it. A call whose request is dropped gives up all it holds.
\<close>

datatype token_stage =
    Looking
  | Missed
  | Waiting nat
  | Holding nat
  | Acquiring nat
  | Returned "string gateway_result"
  | Dropped

record token_call =
  tc_config :: foundry_runtime_config
  tc_stage :: token_stage

record token_system =
  ts_entries :: token_entries
  ts_refreshes :: "(string \<times> nat) list"
  ts_next_lock :: nat
  ts_calls :: "token_call list"
  ts_now :: nat

fun lock_of :: "token_stage \<Rightarrow> nat option" where
  "lock_of (Waiting l) = Some l"
| "lock_of (Holding l) = Some l"
| "lock_of (Acquiring l) = Some l"
| "lock_of _ = None"

fun owns :: "token_stage \<Rightarrow> nat option" where
  "owns (Holding l) = Some l"
| "owns (Acquiring l) = Some l"
| "owns _ = None"

definition default_tokens :: token_system where
  "default_tokens = \<lparr>ts_entries = [], ts_refreshes = [], ts_next_lock = 0, ts_calls = [], ts_now = 0\<rparr>"

definition live_lock :: "token_system \<Rightarrow> nat \<Rightarrow> bool" where
  "live_lock s l = list_ex (\<lambda>c. lock_of (tc_stage c) = Some l) (ts_calls s)"

definition set_call :: "nat \<Rightarrow> token_stage \<Rightarrow> token_system \<Rightarrow> token_system" where
  "set_call i st s = s\<lparr>ts_calls := (ts_calls s)[i := (ts_calls s ! i)\<lparr>tc_stage := st\<rparr>]\<rparr>"

definition join_refresh :: "nat \<Rightarrow> token_system \<Rightarrow> token_system" where
  "join_refresh i s =
     (let provider = fc_id (tc_config (ts_calls s ! i));
          kept = filter (\<lambda>(_, l). live_lock s l) (ts_refreshes s)
      in case map_of kept provider of
           Some l \<Rightarrow> set_call i (Waiting l) (s\<lparr>ts_refreshes := kept\<rparr>)
         | None \<Rightarrow> set_call i (Waiting (ts_next_lock s))
             (s\<lparr>ts_refreshes := (provider, ts_next_lock s) # kept, ts_next_lock := Suc (ts_next_lock s)\<rparr>))"

definition at_stage :: "token_system \<Rightarrow> nat \<Rightarrow> token_stage \<Rightarrow> bool" where
  "at_stage s i st = (i < length (ts_calls s) \<and> tc_stage (ts_calls s ! i) = st)"

definition config_of :: "token_system \<Rightarrow> nat \<Rightarrow> foundry_runtime_config" where
  "config_of s i = tc_config (ts_calls s ! i)"

text \<open>A step, with the acquisition it completed: the provider, the revision, the token, its secs and the time.\<close>

type_synonym acquisition = "string \<times> int \<times> string \<times> nat \<times> nat"

inductive token_step :: "token_system \<Rightarrow> acquisition list \<Rightarrow> token_system \<Rightarrow> bool" where
  tick: "token_step s [] (s\<lparr>ts_now := ts_now s + d\<rparr>)"
| call_refused:
    "foundry_identity_validate parse (fc_identity cfg) (fc_base_url cfg) (fc_secret cfg \<noteq> None) = Err e \<Longrightarrow>
     token_step s [] (s\<lparr>ts_calls := ts_calls s @ [\<lparr>tc_config = cfg, tc_stage = Returned (Err e)\<rparr>]\<rparr>)"
| call:
    "foundry_identity_validate parse (fc_identity cfg) (fc_base_url cfg) (fc_secret cfg \<noteq> None) = Ok () \<Longrightarrow>
     token_step s [] (s\<lparr>ts_calls := ts_calls s @ [\<lparr>tc_config = cfg, tc_stage = Looking\<rparr>]\<rparr>)"
| look_hit:
    "at_stage s i Looking \<Longrightarrow> cached_for (ts_entries s) (ts_now s) (config_of s i) = Some token \<Longrightarrow>
     token_step s [] (set_call i (Returned (Ok token)) s)"
| look_miss:
    "at_stage s i Looking \<Longrightarrow> cached_for (ts_entries s) (ts_now s) (config_of s i) = None \<Longrightarrow>
     token_step s [] (set_call i Missed s)"
| join: "at_stage s i Missed \<Longrightarrow> token_step s [] (join_refresh i s)"
| lock:
    "at_stage s i (Waiting l) \<Longrightarrow> \<not> list_ex (\<lambda>c. owns (tc_stage c) = Some l) (ts_calls s) \<Longrightarrow>
     token_step s [] (set_call i (Holding l) s)"
| recheck_hit:
    "at_stage s i (Holding l) \<Longrightarrow> cached_for (ts_entries s) (ts_now s) (config_of s i) = Some token \<Longrightarrow>
     token_step s [] (set_call i (Returned (Ok token)) s)"
| recheck_miss:
    "at_stage s i (Holding l) \<Longrightarrow> cached_for (ts_entries s) (ts_now s) (config_of s i) = None \<Longrightarrow>
     token_step s [] (set_call i (Acquiring l) s)"
| acquire_failed:
    "at_stage s i (Acquiring l) \<Longrightarrow> acquire_token env send (config_of s i) = Err e \<Longrightarrow>
     token_step s [] (set_call i (Returned (Err e)) s)"
| acquired:
    "at_stage s i (Acquiring l) \<Longrightarrow> acquire_token env send (config_of s i) = Ok (token, secs) \<Longrightarrow>
     store_token (config_of s i) token secs (ts_now s) (ts_entries s) = (answer, entries) \<Longrightarrow>
     token_step s [(fc_id (config_of s i), fc_revision (config_of s i), token, secs, ts_now s)]
       (set_call i (Returned (Ok answer)) (s\<lparr>ts_entries := entries\<rparr>))"
| dropped: "i < length (ts_calls s) \<Longrightarrow> token_step s [] (set_call i Dropped s)"

inductive token_reachable :: "acquisition list \<Rightarrow> token_system \<Rightarrow> bool" where
  start: "token_reachable [] default_tokens"
| step: "token_reachable acquisitions s \<Longrightarrow> token_step s new s' \<Longrightarrow> token_reachable (new @ acquisitions) s'"

section \<open>What the cache keeps\<close>

text \<open>An answer is a token that was acquired for the same provider and revision.\<close>

definition acquired_for :: "acquisition list \<Rightarrow> string \<Rightarrow> int \<Rightarrow> string \<Rightarrow> bool" where
  "acquired_for acquisitions provider revision token = (\<exists>secs t. (provider, revision, token, secs, t) \<in> set acquisitions)"

definition entry_from :: "acquisition list \<Rightarrow> string \<Rightarrow> cached_token \<Rightarrow> bool" where
  "entry_from acquisitions provider c =
     (\<exists>secs t. (provider, ct_revision c, ct_token c, secs, t) \<in> set acquisitions \<and> 0 < secs \<and>
        ct_refresh_at c = t + 1000000000 * refresh_after secs)"

definition entries_ok :: "acquisition list \<Rightarrow> token_entries \<Rightarrow> bool" where
  "entries_ok acquisitions entries =
     (length entries \<le> 256 \<and> distinct (map fst entries) \<and> (\<forall>(p, c) \<in> set entries. entry_from acquisitions p c))"

definition locks_ok :: "token_system \<Rightarrow> bool" where
  "locks_ok s =
     ((\<forall>c \<in> set (ts_calls s). \<forall>l. lock_of (tc_stage c) = Some l \<longrightarrow> map_of (ts_refreshes s) (fc_id (tc_config c)) = Some l) \<and>
      (\<forall>(p, l) \<in> set (ts_refreshes s). l < ts_next_lock s) \<and>
      distinct (map fst (ts_refreshes s)) \<and> distinct (map snd (ts_refreshes s)))"

definition owners_ok :: "token_system \<Rightarrow> bool" where
  "owners_ok s =
     (\<forall>i < length (ts_calls s). \<forall>j < length (ts_calls s). \<forall>l.
        owns (tc_stage (ts_calls s ! i)) = Some l \<and> owns (tc_stage (ts_calls s ! j)) = Some l \<longrightarrow> i = j)"

definition answers_ok :: "acquisition list \<Rightarrow> token_system \<Rightarrow> bool" where
  "answers_ok acquisitions s =
     (\<forall>c \<in> set (ts_calls s). \<forall>token. tc_stage c = Returned (Ok token) \<longrightarrow>
        acquired_for acquisitions (fc_id (tc_config c)) (fc_revision (tc_config c)) token)"

lemma token_from_value_Ok:
  assumes "token_from_value v = Ok (token, secs)"
  shows "json_get v ''access_token'' = Some (JString token) \<and> token \<noteq> [] \<and> \<not> list_ex blank_or_control token \<and>
    token_lifetime v = Some secs \<and> 0 < secs \<and> secs \<le> 86400"
proof -
  have str: "as_str j = Some t \<Longrightarrow> j = JString t" for j t by (cases j) auto
  from assms show ?thesis
    by (auto simp: token_from_value_def ok_or_def bind_eq_Some_conv dest!: str split: option.splits if_splits)
qed

lemma acquire_token_Ok:
  assumes "acquire_token env send cfg = Ok (token, secs)"
  obtains request status chunks bytes v where "token_request_for env cfg = Ok request" "send request = Reply status chunks"
    "200 \<le> status" "status < 300" "read_bounded [] chunks = Some bytes" "ie_from_slice env bytes = Some v"
    "token_from_value v = Ok (token, secs)"
proof -
  from assms obtain request where r: "token_request_for env cfg = Ok request"
    and t: "token_from_reply env (send request) = Ok (token, secs)"
    by (auto simp: acquire_token_def acquire_token_checked_def split: sum.splits)
  from t obtain status chunks where sent: "send request = Reply status chunks" "200 \<le> status" "status < 300"
    by (cases "send request") (auto simp: token_from_reply_def split: if_splits)
  with t obtain bytes v where "read_bounded [] chunks = Some bytes" "ie_from_slice env bytes = Some v"
    "token_from_value v = Ok (token, secs)"
    by (auto simp: token_from_reply_def ok_or_def bind_eq_Some_conv split: option.splits)
  with r sent show thesis by (rule that)
qed

lemma acquired_positive: "acquire_token env send cfg = Ok (token, secs) \<Longrightarrow> 0 < secs"
  using token_from_value_Ok by (elim acquire_token_Ok) blast

lemma refresh_before_expiry: "0 < secs \<Longrightarrow> refresh_after secs < secs"
  by (simp add: refresh_after_def)

lemma entries_ok_mono: "entries_ok a entries \<Longrightarrow> entries_ok (new @ a) entries"
  by (fastforce simp: entries_ok_def entry_from_def)

lemma remember_ok:
  assumes "entries_ok a entries" "0 < secs"
  shows "entries_ok ((fc_id cfg, fc_revision cfg, token, secs, now) # a) (remember cfg token secs now entries)"
proof -
  let ?a = "(fc_id cfg, fc_revision cfg, token, secs, now) # a"
  let ?live = "filter (\<lambda>(_, c). now < ct_refresh_at c) entries"
  let ?kept = "if 256 \<le> length ?live then [] else ?live"
  let ?others = "filter (\<lambda>(i, _). i \<noteq> fc_id cfg) ?kept"
  have "entries_ok ?a entries" using entries_ok_mono [OF assms(1), of "[_]"] by simp
  moreover have "length ?others < 256"
    using le_less_trans [OF length_filter_le [of _ ?kept], of 256] by (auto split: if_splits)
  moreover have "distinct (map fst ?others)"
    using assms(1) by (simp add: entries_ok_def distinct_map_filter)
  moreover have "set ?others \<subseteq> set entries" "fc_id cfg \<notin> fst ` set ?others" by auto
  ultimately show ?thesis
    using assms(2) by (fastforce simp: remember_def Let_def entries_ok_def entry_from_def)
qed

lemma store_ok:
  assumes "store_token cfg token secs now entries = (answer, entries')" "entries_ok a entries" "0 < secs"
  shows "entries_ok ((fc_id cfg, fc_revision cfg, token, secs, now) # a) entries'"
    "acquired_for ((fc_id cfg, fc_revision cfg, token, secs, now) # a) (fc_id cfg) (fc_revision cfg) answer"
proof -
  have kept: "entries_ok ((fc_id cfg, fc_revision cfg, token, secs, now) # a) entries"
    using entries_ok_mono [OF assms(2), of "[_]"] by simp
  then show "entries_ok ((fc_id cfg, fc_revision cfg, token, secs, now) # a) entries'"
    using assms(1) remember_ok [OF assms(2,3), of cfg token now]
    by (auto simp: store_token_def split: option.splits if_splits)
  have "acquired_for a' (fc_id cfg) (ct_revision c) (ct_token c)" if "map_of entries (fc_id cfg) = Some c" "entries_ok a' entries" for c a'
    using map_of_SomeD [OF that(1)] that(2) by (fastforce simp: acquired_for_def entries_ok_def entry_from_def)
  from this [OF _ kept] show "acquired_for ((fc_id cfg, fc_revision cfg, token, secs, now) # a) (fc_id cfg) (fc_revision cfg) answer"
    using assms(1) by (auto simp: store_token_def split: option.splits if_splits) (auto simp: acquired_for_def)
qed

lemma cached_acquired:
  assumes "cached_for entries now cfg = Some token" "entries_ok a entries"
  shows "\<exists>secs t. (fc_id cfg, fc_revision cfg, token, secs, t) \<in> set a \<and>
    now < t + 1000000000 * refresh_after secs \<and> refresh_after secs < secs"
  using assms
  by (fastforce simp: cached_for_def entries_ok_def entry_from_def refresh_before_expiry
    dest!: map_of_SomeD split: option.splits if_splits)

text \<open>The locks: a change of one call.\<close>

lemma set_call_simps [simp]:
  "ts_entries (set_call i st s) = ts_entries s" "ts_now (set_call i st s) = ts_now s"
  "ts_refreshes (set_call i st s) = ts_refreshes s" "ts_next_lock (set_call i st s) = ts_next_lock s"
  "ts_calls (set_call i st s) = (ts_calls s)[i := (ts_calls s ! i)\<lparr>tc_stage := st\<rparr>]"
  by (simp_all add: set_call_def)

lemma locks_set_call:
  assumes "locks_ok s" "i < length (ts_calls s)"
    and "\<And>l. lock_of st = Some l \<Longrightarrow> map_of (ts_refreshes s) (fc_id (config_of s i)) = Some l"
  shows "locks_ok (set_call i st s)"
  using assms by (auto simp: locks_ok_def config_of_def dest!: set_update_subset_insert [THEN subsetD])

lemma owners_set_call:
  assumes "owners_ok s" "i < length (ts_calls s)"
    and "\<And>l j. owns st = Some l \<Longrightarrow> j < length (ts_calls s) \<Longrightarrow> owns (tc_stage (ts_calls s ! j)) = Some l \<Longrightarrow> j = i"
  shows "owners_ok (set_call i st s)"
  using assms by (auto simp: owners_ok_def nth_list_update split: if_splits) 

lemma answers_set_call:
  assumes "answers_ok a s" "i < length (ts_calls s)"
    and "\<And>token. st = Returned (Ok token) \<Longrightarrow> acquired_for a (fc_id (config_of s i)) (fc_revision (config_of s i)) token"
  shows "answers_ok a (set_call i st s)"
  using assms by (auto simp: answers_ok_def config_of_def dest!: set_update_subset_insert [THEN subsetD])

lemma map_of_kept:
  assumes "distinct (map fst xs)" "map_of xs p = Some l" "q l"
  shows "map_of (filter (\<lambda>(_, l). q l) xs) p = Some l"
  using assms by (induction xs) (auto simp: rev_image_eqI)

lemma join_locks:
  assumes ok: "locks_ok s" and i: "at_stage s i Missed"
  shows "locks_ok (join_refresh i s)"
proof -
  define kept where "kept = filter (\<lambda>(_, l). live_lock s l) (ts_refreshes s)"
  define p where "p = fc_id (tc_config (ts_calls s ! i))"
  let ?s = "s\<lparr>ts_refreshes := kept\<rparr>" and ?n = "ts_next_lock s"
  have held: "map_of kept (fc_id (tc_config c)) = Some l" if "c \<in> set (ts_calls s)" "lock_of (tc_stage c) = Some l" for c l
    using ok that map_of_kept [of "ts_refreshes s" "fc_id (tc_config c)" l "live_lock s"]
    by (auto simp: locks_ok_def kept_def live_lock_def list_ex_iff)
  have sub: "set kept \<subseteq> set (ts_refreshes s)" "distinct (map fst kept)" "distinct (map snd kept)"
    using ok by (auto simp: kept_def locks_ok_def distinct_map_filter)
  have i': "i < length (ts_calls s)" using i by (simp add: at_stage_def)
  show ?thesis
  proof (cases "map_of kept p")
    case (Some l)
    then have "join_refresh i s = set_call i (Waiting l) ?s" by (simp add: join_refresh_def kept_def p_def Let_def)
    moreover have "locks_ok ?s" using ok held sub by (auto simp: locks_ok_def)
    ultimately show ?thesis using i' Some by (auto intro!: locks_set_call simp: config_of_def p_def)
  next
    case None
    let ?s' = "s\<lparr>ts_refreshes := (p, ?n) # kept, ts_next_lock := Suc ?n\<rparr>"
    have fresh: "p \<notin> fst ` set kept" "?n \<notin> snd ` set kept" "\<forall>(_, l) \<in> set kept. l < Suc ?n"
      using None sub(1) ok by (auto simp: map_of_eq_None_iff locks_ok_def less_Suc_eq)
    have "fc_id (tc_config c) \<noteq> p" if "c \<in> set (ts_calls s)" "lock_of (tc_stage c) = Some l" for c l
      using held [OF that] None by auto
    then have "locks_ok ?s'" using fresh sub held by (auto simp: locks_ok_def)
    moreover have "join_refresh i s = set_call i (Waiting ?n) ?s'"
      using None by (simp add: join_refresh_def kept_def p_def Let_def)
    ultimately show ?thesis using i' by (auto intro!: locks_set_call simp: config_of_def p_def)
  qed
qed

lemma join_refreshE:
  obtains l s' where "join_refresh i s = set_call i (Waiting l) s'" "ts_calls s' = ts_calls s" "ts_entries s' = ts_entries s"
  by (cases "map_of (filter (\<lambda>(_, l). live_lock s l) (ts_refreshes s)) (fc_id (tc_config (ts_calls s ! i)))")
    (auto simp: join_refresh_def Let_def)

text \<open>The invariants depend on parts of the state only.\<close>

lemma owners_ok_calls: "ts_calls s' = ts_calls s \<Longrightarrow> owners_ok s \<Longrightarrow> owners_ok s'"
  by (simp add: owners_ok_def)

lemma answers_ok_calls: "ts_calls s' = ts_calls s \<Longrightarrow> answers_ok a s \<Longrightarrow> answers_ok a s'"
  by (simp add: answers_ok_def)

lemma answers_ok_mono: "answers_ok a s \<Longrightarrow> answers_ok (new @ a) s"
  by (fastforce simp: answers_ok_def acquired_for_def)

lemma answers_append:
  "answers_ok a s \<Longrightarrow> (\<And>token. st \<noteq> Returned (Ok token)) \<Longrightarrow>
   answers_ok a (s\<lparr>ts_calls := ts_calls s @ [\<lparr>tc_config = cfg, tc_stage = st\<rparr>]\<rparr>)"
  by (auto simp: answers_ok_def)

lemma owners_append:
  "owners_ok s \<Longrightarrow> owns st = None \<Longrightarrow> owners_ok (s\<lparr>ts_calls := ts_calls s @ [\<lparr>tc_config = cfg, tc_stage = st\<rparr>]\<rparr>)"
  by (auto simp: owners_ok_def nth_append less_Suc_eq)

lemma lock_invariants_frame [simp]:
  "locks_ok (s\<lparr>ts_now := t\<rparr>) = locks_ok s" "owners_ok (s\<lparr>ts_now := t\<rparr>) = owners_ok s"
  "locks_ok (s\<lparr>ts_entries := es\<rparr>) = locks_ok s" "owners_ok (s\<lparr>ts_entries := es\<rparr>) = owners_ok s"
  by (simp_all add: locks_ok_def owners_ok_def)

lemma locks_append:
  "locks_ok s \<Longrightarrow> lock_of st = None \<Longrightarrow> locks_ok (s\<lparr>ts_calls := ts_calls s @ [\<lparr>tc_config = cfg, tc_stage = st\<rparr>]\<rparr>)"
  by (auto simp: locks_ok_def)

lemma cached_acquired_for:
  "cached_for entries now cfg = Some token \<Longrightarrow> entries_ok a entries \<Longrightarrow> acquired_for a (fc_id cfg) (fc_revision cfg) token"
  using cached_acquired unfolding acquired_for_def by blast

lemma token_step_answers:
  assumes "token_step s new s'" "entries_ok a (ts_entries s)" "answers_ok a s"
  shows "answers_ok (new @ a) s' \<and> entries_ok (new @ a) (ts_entries s')"
  using assms
proof cases
  case (join i)
  obtain l t where "join_refresh i s = set_call i (Waiting l) t" "ts_calls t = ts_calls s" "ts_entries t = ts_entries s"
    by (rule join_refreshE)
  with join assms answers_set_call [of a t i "Waiting l"] answers_ok_calls [of t s a] show ?thesis
    by (simp add: at_stage_def)
next
  case (acquired i l env send token secs answer entries)
  note stored = store_ok [OF acquired(5) assms(2) acquired_positive [OF acquired(4)]]
  have "answers_ok (new @ a) (s\<lparr>ts_entries := entries\<rparr>)"
    using answers_ok_calls [OF _ answers_ok_mono [OF assms(3)]] by simp
  then show ?thesis
    using acquired stored by (auto intro!: answers_set_call simp: at_stage_def config_of_def)
qed (auto intro!: answers_set_call answers_append cached_acquired_for simp: at_stage_def intro: answers_ok_calls [of _ s])

text \<open>A call that refers to a lock finds it in the table.\<close>

lemma call_lock:
  "locks_ok s \<Longrightarrow> at_stage s i st \<Longrightarrow> lock_of st = Some l \<Longrightarrow> map_of (ts_refreshes s) (fc_id (config_of s i)) = Some l"
  by (auto simp: locks_ok_def at_stage_def config_of_def)

lemma token_step_locks:
  assumes "token_step s new s'" "locks_ok s" "owners_ok s"
  shows "locks_ok s' \<and> owners_ok s'"
  using assms
proof cases
  case (join i)
  obtain l t where t: "join_refresh i s = set_call i (Waiting l) t" "ts_calls t = ts_calls s" by (rule join_refreshE)
  then have "owners_ok (set_call i (Waiting l) t)"
    using join assms owners_ok_calls [of t s] by (intro owners_set_call) (auto simp: at_stage_def)
  with join(2) t join_locks [OF assms(2) join(3)] show ?thesis by simp
next
  case (lock i l)
  then show ?thesis
    using assms call_lock [OF assms(2) lock(3)] nth_mem [of _ "ts_calls s"]
    by (auto intro!: locks_set_call owners_set_call simp: at_stage_def list_ex_iff)
next
  case (recheck_miss i l)
  then show ?thesis
    using assms call_lock [OF assms(2) recheck_miss(3)]
    by (auto intro!: locks_set_call owners_set_call simp: at_stage_def) (auto simp: owners_ok_def)
qed (auto intro!: locks_set_call owners_set_call locks_append owners_append simp: at_stage_def)

lemma token_reachable_inv:
  "token_reachable acquisitions s \<Longrightarrow>
   locks_ok s \<and> owners_ok s \<and> entries_ok acquisitions (ts_entries s) \<and> answers_ok acquisitions s"
proof (induction rule: token_reachable.induct)
  case start
  show ?case by (simp add: default_tokens_def locks_ok_def owners_ok_def entries_ok_def answers_ok_def)
next
  case (step acquisitions s new s')
  then show ?case using token_step_locks [OF step.hyps(2)] token_step_answers [OF step.hyps(2)] by blast
qed

lemma store_revisions:
  assumes "store_token cfg token secs now entries = (answer, entries')" "distinct (map fst entries)"
    and "map_of entries p = Some c" "map_of entries' p = Some c'"
  shows "ct_revision c \<le> ct_revision c'"
proof (cases "entries' = entries")
  case True
  then show ?thesis using assms by simp
next
  case False
  then have e: "entries' = remember cfg token secs now entries" "p = fc_id cfg \<Longrightarrow> ct_revision c \<le> fc_revision cfg"
    using assms by (auto simp: store_token_def split: option.splits if_splits)
  show ?thesis
  proof (cases "p = fc_id cfg")
    case True
    then show ?thesis using e assms(4) by (auto simp: remember_def Let_def)
  next
    case False
    then have "(p, c') \<in> set entries"
      using e(1) assms(4) by (auto simp: remember_def Let_def dest!: map_of_SomeD split: if_splits)
    then have "c' = c" using assms(2,3) by (simp add: map_of_is_SomeI)
    then show ?thesis by simp
  qed
qed

lemma token_step_revisions:
  assumes "token_step s new s'" "distinct (map fst (ts_entries s))"
    and "map_of (ts_entries s) p = Some c" "map_of (ts_entries s') p = Some c'"
  shows "ct_revision c \<le> ct_revision c'"
  using assms
proof cases
  case (join i)
  then show ?thesis using assms join_refreshE [of i s] by (metis option.inject order_refl set_call_simps(1))
next
  case (acquired i l env send token secs answer entries)
  then show ?thesis using assms store_revisions [OF acquired(5)] by simp
qed simp_all

text \<open>
  C26 (invariant): at every moment, whatever the interleaving of the calls and their cancellations, at most one token is
  being acquired per provider and a call waits only for one of its own provider; the cache has at most 256 entries;
  every token a call returns was acquired for the provider and the revision of that call; a cached token is served only
  while it is younger than its lifetime less the safety margin; and no step replaces a cached token by one of an older
  revision.
\<close>

theorem foundry_token_cache:
  assumes "token_reachable acquisitions s"
  shows "(\<forall>i < length (ts_calls s). \<forall>j < length (ts_calls s). \<forall>l l'.
      at_stage s i (Acquiring l) \<and> at_stage s j (Acquiring l') \<and> fc_id (config_of s i) = fc_id (config_of s j) \<longrightarrow> i = j)
    \<and> (\<forall>i j l. at_stage s i (Waiting l) \<and> (at_stage s j (Holding l) \<or> at_stage s j (Acquiring l)) \<longrightarrow>
         fc_id (config_of s i) = fc_id (config_of s j))
    \<and> length (ts_entries s) \<le> 256
    \<and> (\<forall>i token. at_stage s i (Returned (Ok token)) \<longrightarrow>
         acquired_for acquisitions (fc_id (config_of s i)) (fc_revision (config_of s i)) token)
    \<and> (\<forall>cfg token. cached_for (ts_entries s) (ts_now s) cfg = Some token \<longrightarrow>
         (\<exists>secs t. (fc_id cfg, fc_revision cfg, token, secs, t) \<in> set acquisitions \<and>
            ts_now s < t + 1000000000 * refresh_after secs \<and> refresh_after secs < secs))
    \<and> (\<forall>new s' p c c'. token_step s new s' \<and> map_of (ts_entries s) p = Some c \<and> map_of (ts_entries s') p = Some c' \<longrightarrow>
         ct_revision c \<le> ct_revision c')"
proof (intro conjI allI impI; (elim conjE)?)
  note inv = token_reachable_inv [OF assms]
  note lock = call_lock [OF conjunct1 [OF inv]]
  fix i j l l'
  assume "at_stage s i (Acquiring l)" "at_stage s j (Acquiring l')" "fc_id (config_of s i) = fc_id (config_of s j)"
  moreover from this have "l = l'" using lock [of i "Acquiring l" l] lock [of j "Acquiring l'" l'] by simp
  ultimately show "i = j" using inv by (auto simp: owners_ok_def at_stage_def)
next
  fix i j l
  assume w: "at_stage s i (Waiting l)" and o: "at_stage s j (Holding l) \<or> at_stage s j (Acquiring l)"
  note inv = token_reachable_inv [OF assms]
  have "map_of (ts_refreshes s) (fc_id (config_of s i)) = Some l" "map_of (ts_refreshes s) (fc_id (config_of s j)) = Some l"
    using call_lock [OF conjunct1 [OF inv]] w o by auto
  then have "(fc_id (config_of s i), l) \<in> set (ts_refreshes s)" "(fc_id (config_of s j), l) \<in> set (ts_refreshes s)"
    by (simp_all add: map_of_SomeD)
  moreover have "distinct (map snd (ts_refreshes s))" using inv by (simp add: locks_ok_def)
  ultimately show "fc_id (config_of s i) = fc_id (config_of s j)" by (fastforce simp: distinct_map inj_on_def)
qed (use token_reachable_inv [OF assms] cached_acquired token_step_revisions in
  \<open>(fastforce simp: entries_ok_def answers_ok_def at_stage_def config_of_def)+\<close>)

definition sample_identity_env :: identity_env where
  "sample_identity_env =
     \<lparr>ie_url = (\<lambda>_. Some \<lparr>url_scheme = ''https'', url_host_str = Some ''x.services.ai.azure.com'', url_path = ''/api/projects/p'',
        url_username = [], url_password = None, url_query = None, url_fragment = None\<rparr>),
      ie_mock_endpoint = None, ie_token_file = None, ie_file = (\<lambda>_. None), ie_client_builds = True,
      ie_from_slice = (\<lambda>_. Some (JObject [(''access_token'', JString ''tok''), (''expires_in'', JNumber (PosInt 3600)),
        (''token_type'', JString ''Bearer'')]))\<rparr>"

definition sample_foundry :: foundry_runtime_config where
  "sample_foundry = \<lparr>fc_id = ''provider'', fc_base_url = ''https://x.services.ai.azure.com/api/projects/p'',
     fc_identity = \<lparr>fi_method = ClientSecret, fi_tenant_id = Some ''t'', fi_client_id = Some ''c''\<rparr>, fc_secret = Some ''s'', fc_revision = 1\<rparr>"

definition sample_send :: "token_request \<Rightarrow> http_reply" where
  "sample_send request = Reply 200 [Some ''{}'']"

definition sample_call :: "token_stage \<Rightarrow> (string \<times> nat) list \<Rightarrow> nat \<Rightarrow> token_system" where
  "sample_call st refreshes locks =
     \<lparr>ts_entries = [], ts_refreshes = refreshes, ts_next_lock = locks, ts_calls = [\<lparr>tc_config = sample_foundry, tc_stage = st\<rparr>], ts_now = 0\<rparr>"

lemma sample_valid:
  "foundry_identity_validate (ie_url sample_identity_env) (fc_identity sample_foundry) (fc_base_url sample_foundry)
     (fc_secret sample_foundry \<noteq> None) = Ok ()"
  by code_simp

lemma sample_value:
  "token_from_value (JObject [(''access_token'', JString ''tok''), (''expires_in'', JNumber (PosInt 3600)),
     (''token_type'', JString ''Bearer'')]) = Ok (''tok'', 3600)"
proof -
  have "\<not> list_ex blank_or_control ''tok''" by code_simp
  then show ?thesis by (simp add: token_from_value_def token_lifetime_def json_get_def bt_get_def)
qed

lemma sample_acquired: "acquire_token sample_identity_env sample_send sample_foundry = Ok (''tok'', 3600)"
proof -
  have "\<exists>request. token_request_for sample_identity_env sample_foundry = Ok request"
    using sample_valid
    by (simp add: token_request_for_def endpoint_or_def token_endpoint_def sample_identity_env_def sample_foundry_def
      credential_fields_def)
  then show ?thesis
    using sample_value
    by (auto simp: acquire_token_def acquire_token_checked_def token_from_reply_def sample_send_def sample_identity_env_def)
qed

lemma sample_reachable:
  "token_reachable [(''provider'', 1, ''tok'', 3600, 0)]
     ((sample_call (Returned (Ok ''tok'')) [(''provider'', 0)] 1)\<lparr>ts_entries :=
        [(''provider'', \<lparr>ct_revision = 1, ct_token = ''tok'', ct_refresh_at = 3540000000000\<rparr>)]\<rparr>)"
proof -
  let ?rs = "[(''provider'', 0)] :: (string \<times> nat) list"
  have "token_reachable [] (sample_call Looking [] 0)"
    using token_reachable.step [OF token_reachable.start token_step.call [OF sample_valid, of default_tokens]]
    by (simp add: default_tokens_def sample_call_def)
  moreover have "token_step (sample_call Looking [] 0) [] (sample_call Missed [] 0)"
    using token_step.look_miss [of "sample_call Looking [] 0" 0]
    by (simp add: sample_call_def at_stage_def set_call_def cached_for_def)
  moreover have "token_step (sample_call Missed [] 0) [] (sample_call (Waiting 0) ?rs 1)"
    using token_step.join [of "sample_call Missed [] 0" 0]
    by (simp add: sample_call_def at_stage_def join_refresh_def set_call_def sample_foundry_def)
  moreover have "token_step (sample_call (Waiting 0) ?rs 1) [] (sample_call (Holding 0) ?rs 1)"
    using token_step.lock [of "sample_call (Waiting 0) ?rs 1" 0 0] by (simp add: sample_call_def at_stage_def set_call_def)
  moreover have "token_step (sample_call (Holding 0) ?rs 1) [] (sample_call (Acquiring 0) ?rs 1)"
    using token_step.recheck_miss [of "sample_call (Holding 0) ?rs 1" 0 0]
    by (simp add: sample_call_def at_stage_def set_call_def cached_for_def)
  moreover have "token_step (sample_call (Acquiring 0) ?rs 1) [(''provider'', 1, ''tok'', 3600, 0)]
     ((sample_call (Returned (Ok ''tok'')) ?rs 1)\<lparr>ts_entries :=
        [(''provider'', \<lparr>ct_revision = 1, ct_token = ''tok'', ct_refresh_at = 3540000000000\<rparr>)]\<rparr>)"
    using token_step.acquired [of "sample_call (Acquiring 0) ?rs 1" 0 0 sample_identity_env sample_send "''tok''" 3600] sample_acquired
    by (simp add: sample_call_def at_stage_def set_call_def config_of_def store_token_def remember_def refresh_after_def
      sample_foundry_def)
  ultimately have "token_reachable ([(''provider'', 1, ''tok'', 3600, 0)] @ [] @ [] @ [] @ [] @ [])
     ((sample_call (Returned (Ok ''tok'')) ?rs 1)\<lparr>ts_entries :=
        [(''provider'', \<lparr>ct_revision = 1, ct_token = ''tok'', ct_refresh_at = 3540000000000\<rparr>)]\<rparr>)"
    by (intro token_reachable.step) 
  then show ?thesis by simp
qed

theorem foundry_token_cache_witness:
  "\<exists>secs t. (''provider'', 1, ''tok'', secs, t) \<in> set [(''provider'', 1 :: int, ''tok'', 3600 :: nat, 0 :: nat)] \<and>
     0 < t + 1000000000 * refresh_after secs \<and> refresh_after secs < secs"
proof -
  let ?s = "(sample_call (Returned (Ok ''tok'')) [(''provider'', 0)] 1)\<lparr>ts_entries :=
        [(''provider'', \<lparr>ct_revision = 1, ct_token = ''tok'', ct_refresh_at = 3540000000000\<rparr>)]\<rparr>"
  have "cached_for (ts_entries ?s) (ts_now ?s) sample_foundry = Some ''tok''"
    by (simp add: cached_for_def sample_call_def sample_foundry_def)
  with foundry_token_cache [OF sample_reachable, THEN conjunct2, THEN conjunct2, THEN conjunct2, THEN conjunct2, THEN conjunct1]
  have "\<exists>secs t. (fc_id sample_foundry, fc_revision sample_foundry, ''tok'', secs, t) \<in> set [(''provider'', 1, ''tok'', 3600, 0)] \<and>
     ts_now ?s < t + 1000000000 * refresh_after secs \<and> refresh_after secs < secs"
    by blast
  then show ?thesis by (simp add: sample_foundry_def sample_call_def)
qed

end
