(* ===== verification/Foundry_Checks.thy ===== *)
theory Foundry_Checks
  imports Foundry_Tokens
begin

text \<open>
  The connection check of the admin console and the usage observed on a streamed Foundry response
  (\<open>gateway-proxy/src/foundry.rs\<close>), and where a token request may send its credentials. The exchange with the project
  is the parameter \<open>ask\<close>, given the address, the query and the token.
\<close>

section \<open>The connection check\<close>

record check_step =
  cs_status :: string
  cs_code :: string
  cs_message :: string
  cs_http_status :: "nat option"

record connection_check =
  cc_identity :: check_step
  cc_project :: check_step

definition check_step_new :: "string \<Rightarrow> string \<Rightarrow> string \<Rightarrow> nat option \<Rightarrow> check_step" where
  "check_step_new status code message http_status =
     \<lparr>cs_status = status, cs_code = code, cs_message = message, cs_http_status = http_status\<rparr>"

fun rejected_message :: "foundry_identity_method \<Rightarrow> string" where
  "rejected_message WorkloadIdentity =
     ''Azure rejected the workload token exchange. Check the tenant and client IDs and the federated credential's issuer, service-account subject and api://AzureADTokenExchange audience. If Azure is throttling or unavailable, retry later.''"
| "rejected_message ManagedIdentity =
     ''Azure's VM identity endpoint rejected the request. Enable managed identity on the VM and confirm the configured client ID is assigned to it. For AKS, select Workload identity instead. Retry later if Azure is unavailable.''"
| "rejected_message ClientSecret =
     ''Azure rejected the client credentials. Check the tenant, client ID and secret value/expiry, save any correction and retry. Retry later if Azure is throttling or unavailable.''"

definition network_message :: "foundry_identity_method \<Rightarrow> string" where
  "network_message m =
     (if m = ManagedIdentity
      then ''The gateway cannot reach Azure VM IMDS. Run on an Azure VM with managed identity and allow access to 169.254.169.254. For AKS, select Workload identity instead.''
      else ''The gateway cannot connect securely to Microsoft Entra. Check DNS, TLS trust, proxy and outbound HTTPS access to login.microsoftonline.com, then retry.'')"

fun failure_step :: "identity_failure \<Rightarrow> foundry_identity_method \<Rightarrow> check_step" where
  "failure_step Configuration m = check_step_new ''failed'' ''identity_configuration''
     ''The saved Azure identity configuration is incomplete or invalid. Check the project endpoint, tenant ID, client ID and identity method, then save and retry.'' None"
| "failure_step WorkloadMissing m = check_step_new ''failed'' ''workload_token_missing''
     ''AZURE_FEDERATED_TOKEN_FILE is not set on this gateway instance. Enable AKS workload identity, label the pod azure.workload.identity/use=true and configure its service account, then recreate the pod and retry.'' None"
| "failure_step WorkloadUnreadable m = check_step_new ''failed'' ''workload_token_unreadable''
     ''The gateway cannot read the projected workload token. Check the pod's token volume mount and file permissions, then retry.'' None"
| "failure_step WorkloadInvalid m = check_step_new ''failed'' ''workload_token_invalid''
     ''The projected workload token is empty, invalid or too large. Check the service-account token projection and restart the affected pod before retrying.'' None"
| "failure_step (IdentityRejected status) m = check_step_new ''failed'' ''identity_rejected'' (rejected_message m) (Some status)"
| "failure_step IdentityNetwork m = check_step_new ''failed'' ''identity_network'' (network_message m) None"
| "failure_step IdentityTimeout m = check_step_new ''failed'' ''identity_timeout''
     ''Azure token acquisition timed out. Check this instance's identity endpoint connectivity and retry.'' None"
| "failure_step TokenResponse m = check_step_new ''failed'' ''identity_response_invalid''
     ''Azure did not return a usable bearer token. Check the identity endpoint/network proxy and retry; inspect Azure identity diagnostics if this persists.'' None"

text \<open>The answer of the project to a listing of its agents.\<close>

definition agents_listed :: "identity_env \<Rightarrow> string option list \<Rightarrow> bool" where
  "agents_listed env chunks =
     (case Option.bind (read_bounded [] chunks) (ie_from_slice env) of
        Some v \<Rightarrow> (case json_get v ''data'' of Some d \<Rightarrow> as_array d \<noteq> None | None \<Rightarrow> False)
      | None \<Rightarrow> False)"

definition project_status :: "nat \<Rightarrow> check_step" where
  "project_status status =
     (if status = 401 then check_step_new ''failed'' ''project_unauthorized''
            ''Foundry rejected the fresh Azure token. Confirm this project belongs to the configured tenant and the identity is intended for this Foundry resource.'' (Some status)
      else if status = 403 then check_step_new ''inconclusive'' ''project_read_forbidden''
            ''Azure identity works, but Foundry denied the read-only agents check. Check project RBAC scope and network restrictions. An invocation-only role may legitimately lack read permission; do not broaden its role just to pass this check. Agent invocation remains unverified.'' (Some status)
      else if status = 404 then check_step_new ''failed'' ''project_not_found''
            ''Foundry could not find this project/API path. Copy the project endpoint from Foundry and confirm it supports the v1 agents API, then save and retry.'' (Some status)
      else if status = 429 then check_step_new ''inconclusive'' ''project_throttled''
            ''Foundry throttled the read-only check. Wait and retry; identity token acquisition succeeded.'' (Some status)
      else if 500 \<le> status \<and> status \<le> 599 then check_step_new ''inconclusive'' ''project_unavailable''
            ''Foundry is temporarily unavailable. Retry later; identity token acquisition succeeded.'' (Some status)
      else if 300 \<le> status \<and> status \<le> 399 then check_step_new ''failed'' ''project_redirect''
            ''Foundry redirected the check. Redirects are not followed to protect credentials. Save the correct project endpoint and retry.'' (Some status)
      else check_step_new ''failed'' ''project_rejected''
            ''Foundry rejected the read-only agents check. Confirm the project endpoint and support for the v1 agents API, then retry.'' (Some status))"

definition check_project ::
  "identity_env \<Rightarrow> (string \<Rightarrow> (string \<times> string) list \<Rightarrow> string \<Rightarrow> http_reply) \<Rightarrow> foundry_runtime_config \<Rightarrow> string \<Rightarrow> check_step" where
  "check_project env ask cfg token =
     (case ask (trim_end_matches (\<lambda>c. c = CHR ''/'') (fc_base_url cfg) @ ''/agents'') [(''api-version'', ''v1''), (''limit'', ''1'')] token of
        SendFailed timeout \<Rightarrow>
          if timeout then check_step_new ''failed'' ''project_timeout''
            ''Foundry did not respond in time. Check this instance's network access and retry.'' None
          else check_step_new ''failed'' ''project_network''
            ''Cannot connect securely to Foundry. Check the project endpoint, DNS, TLS trust, proxy, firewall and private-endpoint routing from this instance.'' None
      | Reply status chunks \<Rightarrow>
          if status = 200 then
            if agents_listed env chunks then check_step_new ''passed'' ''project_read_verified''
            ''Foundry accepted the token and allowed the read-only agents check. Agent execution, tools and model access have not been tested.'' (Some status)
            else check_step_new ''failed'' ''project_response_invalid''
            ''Foundry returned an unexpected or oversized response. Confirm the project endpoint and any proxy configuration, then retry.'' (Some status)
          else project_status status)"

definition verify_foundry_connection ::
  "identity_env \<Rightarrow> (token_request \<Rightarrow> http_reply) \<Rightarrow> (string \<Rightarrow> (string \<times> string) list \<Rightarrow> string \<Rightarrow> http_reply) \<Rightarrow>
   foundry_runtime_config \<Rightarrow> connection_check" where
  "verify_foundry_connection env send ask cfg =
     (case acquire_token_checked env send cfg of
        Inl failure \<Rightarrow>
          \<lparr>cc_identity = failure_step failure (fi_method (fc_identity cfg)),
           cc_project = check_step_new ''skipped'' ''identity_required''
            ''Fix the Azure identity check, then retry to check Foundry project access.'' None\<rparr>
      | Inr (token, _) \<Rightarrow>
          \<lparr>cc_identity = check_step_new ''passed'' ''token_acquired''
            ''Azure issued a fresh token for Foundry using the saved identity configuration.'' None,
           cc_project = check_project env ask cfg token\<rparr>)"

section \<open>Usage of a streamed response\<close>

record foundry_usage =
  fu_line :: string
  fu_overflow :: bool
  fu_tokens :: "int option \<times> int option \<times> int option"

definition default_foundry_usage :: foundry_usage where
  "default_foundry_usage = \<lparr>fu_line = [], fu_overflow = False, fu_tokens = (None, None, None)\<rparr>"

definition usage_count :: "json \<Rightarrow> string \<Rightarrow> int option" where
  "usage_count usage name =
     (case Option.bind (json_get usage name) as_i64 of Some n \<Rightarrow> if 0 \<le> n then Some n else None | None \<Rightarrow> None)"

text \<open>The usage of one line, if it carries one.\<close>

definition line_usage :: "(string \<Rightarrow> json option) \<Rightarrow> string \<Rightarrow> (int option \<times> int option \<times> int option) option" where
  "line_usage from_slice line =
     Option.bind (strip_prefix ''data:'' line) (\<lambda>data.
     Option.bind (from_slice data) (\<lambda>v.
     map_option (\<lambda>usage. (usage_count usage ''input_tokens'', usage_count usage ''output_tokens'', usage_count usage ''total_tokens''))
       (json_pointer v [''response'', ''usage''])))"

definition usage_byte :: "(string \<Rightarrow> json option) \<Rightarrow> foundry_usage \<Rightarrow> char \<Rightarrow> foundry_usage" where
  "usage_byte from_slice u b =
     (if b = CHR 0x0A then
        u\<lparr>fu_line := [], fu_overflow := False,
          fu_tokens := (if fu_overflow u then fu_tokens u
                        else case line_usage from_slice (fu_line u) of Some t \<Rightarrow> t | None \<Rightarrow> fu_tokens u)\<rparr>
      else if length (fu_line u) < 65536 then u\<lparr>fu_line := fu_line u @ [b]\<rparr>
      else u\<lparr>fu_overflow := True\<rparr>)"

definition usage_feed :: "(string \<Rightarrow> json option) \<Rightarrow> foundry_usage \<Rightarrow> string \<Rightarrow> foundry_usage" where
  "usage_feed from_slice u bytes = foldl (usage_byte from_slice) u bytes"

text \<open>The last usage on a complete line of at most 65536 bytes.\<close>

definition lines_usage ::
  "(string \<Rightarrow> json option) \<Rightarrow> int option \<times> int option \<times> int option \<Rightarrow> string list \<Rightarrow> int option \<times> int option \<times> int option" where
  "lines_usage from_slice =
     foldl (\<lambda>t line. case (if length line \<le> 65536 then line_usage from_slice line else None) of Some t' \<Rightarrow> t' | None \<Rightarrow> t)"

text \<open>The state after a prefix \<open>line\<close> of the current line.\<close>

definition usage_at :: "string \<Rightarrow> int option \<times> int option \<times> int option \<Rightarrow> foundry_usage" where
  "usage_at line t = \<lparr>fu_line = take 65536 line, fu_overflow = (65536 < length line), fu_tokens = t\<rparr>"

lemma usage_byte_at:
  "usage_byte from_slice (usage_at line t) b =
     (if b = CHR 0x0A then usage_at [] (lines_usage from_slice t [line]) else usage_at (line @ [b]) t)"
  by (auto simp: usage_byte_def usage_at_def lines_usage_def not_less split: option.split)

lemma usage_feed_at:
  assumes "CHR 0x0A \<notin> set line"
  shows "usage_feed from_slice (usage_at line t) bytes =
    (let ls = split_char (CHR 0x0A) (line @ bytes) in usage_at (last ls) (lines_usage from_slice t (butlast ls)))"
  using assms
proof (induction bytes arbitrary: line t)
  case Nil
  then show ?case by (simp add: usage_feed_def split_char_none lines_usage_def)
next
  case (Cons b bytes)
  show ?case
  proof (cases "b = CHR 0x0A")
    case True
    have "usage_feed from_slice (usage_at line t) (b # bytes) =
        usage_feed from_slice (usage_at [] (lines_usage from_slice t [line])) bytes"
      by (simp add: usage_feed_def usage_byte_at True)
    also have "\<dots> = (let ls = split_char (CHR 0x0A) bytes in usage_at (last ls) (lines_usage from_slice t (line # butlast ls)))"
      using Cons.IH [of "[]" "lines_usage from_slice t [line]"] by (simp add: lines_usage_def Let_def)
    finally show ?thesis
      using Cons.prems True by (simp add: split_char_append_sep split_char_nonempty Let_def)
  next
    case False
    then show ?thesis using Cons.IH [of "line @ [b]" t] Cons.prems by (simp add: usage_feed_def usage_byte_at)
  qed
qed

text \<open>
  The usage of a streamed response is the one of its last complete line with a usage and at most 65536 bytes, however the
  response was cut into chunks, and no more than 65536 bytes of it are kept.
\<close>

theorem usage_feed_lines:
  "fu_tokens (foldl (usage_feed from_slice) default_foundry_usage chunks) =
     lines_usage from_slice (None, None, None) (butlast (split_char (CHR 0x0A) (concat chunks))) \<and>
   length (fu_line (foldl (usage_feed from_slice) default_foundry_usage chunks)) \<le> 65536"
proof -
  have "foldl (usage_feed from_slice) u chunks = usage_feed from_slice u (concat chunks)" for u
    by (induction chunks arbitrary: u) (simp_all add: usage_feed_def)
  moreover have "default_foundry_usage = usage_at [] (None, None, None)" by (simp add: default_foundry_usage_def usage_at_def)
  moreover have "length (fu_line (usage_at line t)) \<le> 65536" "fu_tokens (usage_at line t) = t" for line t
    by (simp_all add: usage_at_def)
  ultimately show ?thesis using usage_feed_at [of "[]" from_slice "(None, None, None)" "concat chunks"] by (simp add: Let_def)
qed

section \<open>Where credentials go\<close>

lemma endpoint_or_Ok [simp]: "endpoint_or failure r = Inr v \<longleftrightarrow> r = Inr v"
  by (auto simp: endpoint_or_def split: sum.splits)

lemma token_request_endpoint:
  "token_request_for env cfg = Ok request \<Longrightarrow> \<exists>tenant. token_endpoint env cfg tenant = Ok (request_endpoint request)"
  by (auto simp: token_request_for_def split: if_splits)

text \<open>
  A token request goes to Entra or to the metadata service, unless the connection is itself a loopback mock and the
  configured mock endpoint is a loopback address too.
\<close>

theorem token_requests_stay_with_azure:
  assumes "token_request_for env cfg = Ok request"
  shows "(\<exists>tenant. request_endpoint request = default_endpoint cfg tenant) \<or>
    starts_with (fc_base_url cfg) loopback_prefix \<and>
    (\<exists>url. ie_url env (request_endpoint request) = Some url \<and> url_scheme url = ''http'' \<and> url_host_str url = Some ''127.0.0.1'')"
proof -
  from token_request_endpoint [OF assms] obtain tenant where t: "token_endpoint env cfg tenant = Ok (request_endpoint request)" ..
  show ?thesis
  proof (cases "if starts_with (fc_base_url cfg) loopback_prefix then ie_mock_endpoint env else None")
    case None
    with t have "request_endpoint request = default_endpoint cfg tenant" by (simp add: token_endpoint_def)
    then show ?thesis by blast
  next
    case (Some endpoint)
    with t show ?thesis by (auto simp: token_endpoint_def split: if_splits)
  qed
qed

end
