(* ===== verification/Socket_Frames.thy ===== *)
theory Socket_Frames
  imports Gateway_Errors "HOL-Library.Word"
begin

unbundle bit_operations_syntax

text \<open>
  Transport limits of a WebSocket (\<open>gateway-proxy/src/accessa_transport.rs\<close>): the connection counts with their leases,
  and the scanner that reads only the headers of the frames that pass and bounds frames and fragmented
  messages. A byte is an \<open>8 word\<close>; a length is assembled as the \<open>64 word\<close> of the code and then kept as the number it is.
\<close>

section \<open>Connections\<close>

definition instance_connection_limit :: nat where
  "instance_connection_limit = 4096"

type_synonym connection_entry = "string \<times> string"
type_synonym connection_counts = "(connection_entry \<times> nat) list"

definition total_count :: "connection_counts \<Rightarrow> nat" where
  "total_count counts = sum_list (map snd counts)"

definition route_count :: "string \<Rightarrow> connection_counts \<Rightarrow> nat" where
  "route_count service counts = sum_list (map snd (filter (\<lambda>((name, _), _). name = service) counts))"

definition entry_count :: "connection_entry \<Rightarrow> connection_counts \<Rightarrow> nat" where
  "entry_count e counts = (case map_of counts e of Some n \<Rightarrow> n | None \<Rightarrow> 0)"

fun set_count :: "connection_entry \<Rightarrow> nat \<Rightarrow> connection_counts \<Rightarrow> connection_counts" where
  "set_count e n [] = [(e, n)]"
| "set_count e n ((e', m) # counts) = (if e' = e then (e, n) # counts else (e', m) # set_count e n counts)"

definition connection_acquire ::
  "connection_counts \<Rightarrow> string \<Rightarrow> string \<Rightarrow> nat \<Rightarrow> nat \<Rightarrow> connection_entry gateway_result \<times> connection_counts" where
  "connection_acquire counts service key route_max key_max =
     (let entry = (service, key)
      in if instance_connection_limit \<le> total_count counts \<or> route_max \<le> route_count service counts \<or>
            key_max \<le> entry_count entry counts
         then (Err (RateLimitExceeded (Some 1)), counts)
         else (Ok entry, set_count entry (entry_count entry counts + 1) counts))"

definition connection_drop :: "connection_counts \<Rightarrow> connection_entry \<Rightarrow> connection_counts" where
  "connection_drop counts entry =
     (case map_of counts entry of
        None \<Rightarrow> counts
      | Some n \<Rightarrow>
          if n - 1 = 0 then filter (\<lambda>(e, _). e \<noteq> entry) counts else set_count entry (n - 1) counts)"

section \<open>Frames\<close>

type_synonym octet = "8 word"

record frame_limit =
  fr_frames :: nat
  fr_close_seen :: bool
  fr_header :: "octet list"
  fr_remaining :: nat
  fr_message_bytes :: nat
  fr_fragmented :: bool
  fr_max :: nat
  fr_masked :: bool

definition frame_limit_new :: "nat \<Rightarrow> bool \<Rightarrow> frame_limit" where
  "frame_limit_new max_bytes masked =
     \<lparr>fr_frames = 0, fr_close_seen = False, fr_header = [], fr_remaining = 0, fr_message_bytes = 0, fr_fragmented = False,
      fr_max = max_bytes, fr_masked = masked\<rparr>"

definition extended_len :: "octet \<Rightarrow> nat" where
  "extended_len marker = (if marker = 126 then 2 else if marker = 127 then 8 else 0)"

definition header_len :: "bool \<Rightarrow> octet \<Rightarrow> nat" where
  "header_len masked marker = 2 + extended_len marker + (if masked then 4 else 0)"

definition frame_size :: "octet \<Rightarrow> octet list \<Rightarrow> nat" where
  "frame_size marker header =
     unat (foldl (\<lambda>size b. push_bit 8 size OR ucast b) (if extended_len marker = 0 then ucast marker else 0 :: 64 word)
       (take (extended_len marker) (drop 2 header)))"

definition header_invalid :: "frame_limit \<Rightarrow> octet \<Rightarrow> nat \<Rightarrow> bool" where
  "header_invalid fl marker frame_bytes =
     ((fr_header fl ! 0) AND 112 \<noteq> 0 \<or> ((fr_header fl ! 1) AND 128 \<noteq> 0) \<noteq> fr_masked fl \<or> fr_max fl < frame_bytes \<or>
      2 ^ 63 - 1 < frame_bytes \<or> marker = 126 \<and> frame_bytes < 126 \<or> marker = 127 \<and> frame_bytes \<le> 65535)"

text \<open>What the opcode of a complete header does to the message in progress.\<close>

definition frame_message :: "frame_limit \<Rightarrow> octet \<Rightarrow> bool \<Rightarrow> nat \<Rightarrow> frame_limit gateway_result" where
  "frame_message fl opcode fin frame_bytes =
     (if opcode = 0 \<and> fr_fragmented fl
      then Ok (fl\<lparr>fr_message_bytes := saturating_add (fr_message_bytes fl) frame_bytes\<rparr>)
      else if (opcode = 1 \<or> opcode = 2) \<and> \<not> fr_fragmented fl then Ok (fl\<lparr>fr_message_bytes := frame_bytes\<rparr>)
      else if (opcode = 8 \<or> opcode = 9 \<or> opcode = 10) \<and> fin \<and> frame_bytes \<le> 125 then Ok fl
      else Err InvalidServicePayload)"

definition end_frame :: "frame_limit \<Rightarrow> octet \<Rightarrow> nat \<Rightarrow> frame_limit" where
  "end_frame fl opcode frame_bytes =
     fl\<lparr>fr_frames := saturating_add (fr_frames fl) 1, fr_close_seen := (fr_close_seen fl \<or> opcode = 8),
        fr_remaining := frame_bytes, fr_header := []\<rparr>"

definition frame_header :: "frame_limit \<Rightarrow> unit gateway_result \<times> frame_limit" where
  "frame_header fl =
     (let marker = (fr_header fl ! 1) AND 127;
          frame_bytes = frame_size marker (fr_header fl);
          opcode = (fr_header fl ! 0) AND 15;
          fin = ((fr_header fl ! 0) AND 128 \<noteq> 0)
      in if header_invalid fl marker frame_bytes then (Err RequestBodyTooLarge, fl)
         else case frame_message fl opcode fin frame_bytes of
                Inl e \<Rightarrow> (Err e, fl)
              | Inr fl \<Rightarrow>
                  if opcode < 8 then
                    if fr_max fl < fr_message_bytes fl then (Err RequestBodyTooLarge, fl)
                    else (Ok (), end_frame
                      (fl\<lparr>fr_fragmented := \<not> fin, fr_message_bytes := (if fin then 0 else fr_message_bytes fl)\<rparr>) opcode frame_bytes)
                  else (Ok (), end_frame fl opcode frame_bytes))"

definition header_byte :: "frame_limit \<Rightarrow> octet \<Rightarrow> unit gateway_result \<times> frame_limit" where
  "header_byte fl b =
     (let fl = fl\<lparr>fr_header := fr_header fl @ [b]\<rparr>
      in if length (fr_header fl) < 2 \<or> length (fr_header fl) < header_len (fr_masked fl) ((fr_header fl ! 1) AND 127)
         then (Ok (), fl) else frame_header fl)"

function feed :: "frame_limit \<Rightarrow> octet list \<Rightarrow> unit gateway_result \<times> frame_limit" where
  "feed fl [] = (Ok (), fl)"
| "feed fl (b # bs) =
     (if fr_remaining fl \<noteq> 0
      then let skip = min (fr_remaining fl) (length (b # bs))
           in feed (fl\<lparr>fr_remaining := fr_remaining fl - skip\<rparr>) (drop skip (b # bs))
      else case header_byte fl b of
             (Inl e, fl) \<Rightarrow> (Err e, fl)
           | (Inr _, fl) \<Rightarrow> feed fl bs)"
  by pat_completeness auto
termination
  by (relation "measure (length \<circ> snd)") auto

declare feed.simps [simp del]

section \<open>Frames as RFC 6455 writes them\<close>

record socket_frame =
  sf_fin :: bool
  sf_opcode :: octet
  sf_mask :: "octet list"
  sf_payload :: "octet list"

text \<open>A number in big-endian order, in its shortest form as the length of a frame.\<close>

fun big_endian :: "nat \<Rightarrow> nat \<Rightarrow> octet list" where
  "big_endian 0 n = []"
| "big_endian (Suc k) n = big_endian k (n div 256) @ [word_of_nat n]"

definition octets_value :: "octet list \<Rightarrow> nat" where
  "octets_value bs = foldl (\<lambda>n b. n * 256 + unat b) 0 bs"

definition length_octets :: "bool \<Rightarrow> nat \<Rightarrow> octet list" where
  "length_octets masked n =
     (let flag = (if masked then 128 else 0)
      in if n < 126 then [flag OR word_of_nat n]
         else if n < 65536 then (flag OR 126) # big_endian 2 n
         else (flag OR 127) # big_endian 8 n)"

definition frame_head :: "bool \<Rightarrow> socket_frame \<Rightarrow> octet list" where
  "frame_head masked f =
     ((if sf_fin f then 128 else 0) OR sf_opcode f) # length_octets masked (length (sf_payload f)) @ sf_mask f"

definition frame_octets :: "bool \<Rightarrow> socket_frame \<Rightarrow> octet list" where
  "frame_octets masked f = frame_head masked f @ sf_payload f"

definition frame_wf :: "bool \<Rightarrow> socket_frame \<Rightarrow> bool" where
  "frame_wf masked f =
     (sf_opcode f < 16 \<and> length (sf_mask f) = (if masked then 4 else 0) \<and> length (sf_payload f) < 2 ^ 63)"

text \<open>The frames a message may consist of: whether one is in progress and how much of it was sent.\<close>

definition message_step :: "nat \<Rightarrow> bool \<times> nat \<Rightarrow> socket_frame \<Rightarrow> (bool \<times> nat) option" where
  "message_step max_bytes = (\<lambda>(fragmented, sent) f.
     let n = length (sf_payload f); fin = sf_fin f
     in if max_bytes < n then None
        else if sf_opcode f = 0 then
          if fragmented \<and> sent + n \<le> max_bytes then Some (\<not> fin, if fin then 0 else sent + n) else None
        else if sf_opcode f = 1 \<or> sf_opcode f = 2 then
          if fragmented then None else Some (\<not> fin, if fin then 0 else n)
        else if sf_opcode f \<in> {8, 9, 10} \<and> fin \<and> n \<le> 125 then Some (fragmented, sent)
        else None)"

fun messages_ok :: "nat \<Rightarrow> bool \<times> nat \<Rightarrow> socket_frame list \<Rightarrow> bool" where
  "messages_ok max_bytes st [] = True"
| "messages_ok max_bytes st (f # fs) =
     (case message_step max_bytes st f of Some st \<Rightarrow> messages_ok max_bytes st fs | None \<Rightarrow> False)"

section \<open>Octets\<close>

lemma octet_less: "unat (b :: octet) < 256"
  using unsigned_less [of b, where 'a = nat] by simp

lemma octets_value_snoc [simp]: "octets_value (bs @ [b]) = octets_value bs * 256 + unat b" "octets_value [] = 0"
  by (simp_all add: octets_value_def)

lemma octets_value_less: "octets_value bs < 256 ^ length bs"
proof (induction bs rule: rev_induct)
  case (snoc b bs)
  have "octets_value bs * 256 + unat b < (octets_value bs + 1) * 256" using octet_less [of b] by simp
  also have "\<dots> \<le> 256 ^ length bs * 256" using snoc by (simp del: mult_Suc)
  finally show ?case by simp
qed simp

lemma length_big_endian [simp]: "length (big_endian k n) = k"
  by (induction k arbitrary: n) simp_all

lemma big_endian_value: "big_endian (length bs) (octets_value bs) = bs"
proof (induction bs rule: rev_induct)
  case (snoc b bs)
  have "(octets_value bs * 256 + unat b) div 256 = octets_value bs" using octet_less [of b] by simp
  moreover have "word_of_nat (octets_value bs * 256 + unat b) = b"
    using octet_less [of b] by (intro word_unat_eq_iff [THEN iffD2]) (simp add: unat_of_nat del: of_nat_add of_nat_mult)
  ultimately show ?case using snoc by simp
qed simp

lemma value_big_endian: "n < 256 ^ k \<Longrightarrow> octets_value (big_endian k n) = n"
proof (induction k arbitrary: n)
  case (Suc k)
  then have "n div 256 < 256 ^ k" by (simp add: less_mult_imp_div_less mult.commute)
  with Suc.IH show ?case by (simp add: unat_of_nat)
qed simp

lemma shift_or:
  assumes "unat (w :: 64 word) < 2 ^ 56"
  shows "unat (push_bit 8 w OR ucast (b :: octet)) = unat w * 256 + unat b"
proof -
  have "push_bit 8 w AND ucast b = (0 :: 64 word)"
    by (rule bit_word_eqI) (auto simp: bit_simps dest: bit_imp_le_length)
  then have "push_bit 8 w OR ucast b = push_bit 8 w + ucast b" by (simp add: disjunctive_add_eq_or)
  then have e: "push_bit 8 w OR ucast b = w * 256 + ucast b" by (simp add: push_bit_eq_mult)
  have "unat w * 256 + unat b < 2 ^ 64" using assms octet_less [of b] by simp
  then show ?thesis unfolding e using octet_less [of b] by (simp add: unat_word_ariths unsigned_ucast_eq take_bit_eq_mod)
qed

lemma fold_octets: "length bs \<le> 8 \<Longrightarrow> unat (foldl (\<lambda>w b. push_bit 8 w OR ucast b) (0 :: 64 word) bs) = octets_value bs"
proof (induction bs rule: rev_induct)
  case (snoc b bs)
  have "octets_value bs < 2 ^ 56"
    using octets_value_less [of bs] snoc.prems power_increasing [of "length bs" 7 "256 :: nat"] by simp
  with snoc shift_or show ?case by simp
qed simp

text \<open>The fields of an octet, bit by bit.\<close>

lemma octet_eqI: "(\<And>n. n \<in> {0, 1, 2, 3, 4, 5, 6, 7} \<Longrightarrow> bit a n = bit b n) \<Longrightarrow> a = b" for a b :: octet
  by (rule bit_word_eqI) (auto simp: numeral_eq_Suc less_Suc_eq)

lemma high_bit: "b AND 128 = 0 \<longleftrightarrow> \<not> bit b 7" for b :: octet
proof
  assume "b AND 128 = 0"
  then have "\<not> bit (b AND 128) 7" by simp
  then show "\<not> bit b 7" by (simp add: bit_simps)
next
  assume "\<not> bit b 7"
  then show "b AND 128 = 0" by (intro octet_eqI) (auto simp: bit_simps)
qed

lemma reserved_bits: "b AND 112 = 0 \<Longrightarrow> \<not> bit b 4 \<and> \<not> bit b 5 \<and> \<not> bit b 6" for b :: octet
proof -
  assume "b AND 112 = 0"
  then have "\<not> bit (b AND 112) n" for n by simp
  from this [of 4] this [of 5] this [of 6] show ?thesis by (simp add: bit_simps)
qed

lemma take_bit_octet: "take_bit m x = x \<longleftrightarrow> unat x < 2 ^ m" for x :: octet
  by (simp add: word_unat_eq_iff unsigned_take_bit_eq take_bit_nat_eq_self_iff)

lemma small_bits:
  fixes x :: octet
  shows "x < 16 \<Longrightarrow> \<not> bit x 4 \<and> \<not> bit x 5 \<and> \<not> bit x 6 \<and> \<not> bit x 7" "x < 128 \<Longrightarrow> \<not> bit x 7"
proof -
  have t: "take_bit m x = x \<Longrightarrow> bit x n \<Longrightarrow> n < m" for m n by (metis bit_take_bit_iff)
  show "x < 16 \<Longrightarrow> \<not> bit x 4 \<and> \<not> bit x 5 \<and> \<not> bit x 6 \<and> \<not> bit x 7"
    using t [of 4] by (fastforce simp: take_bit_octet word_less_nat_alt)
  show "x < 128 \<Longrightarrow> \<not> bit x 7"
    using t [of 7] by (fastforce simp: take_bit_octet word_less_nat_alt)
qed

lemma field_less: "b AND 127 < 128" "b AND 15 < 16" for b :: octet
proof -
  have "take_bit 7 (b AND 127) = b AND 127" "take_bit 4 (b AND 15) = b AND 15"
    by (rule octet_eqI, auto simp: bit_simps)+
  then have "unat (b AND 127) < 2 ^ 7" "unat (b AND 15) < 2 ^ 4" by (simp_all only: take_bit_octet)
  then show "b AND 127 < 128" "b AND 15 < 16" by (simp_all add: word_less_nat_alt)
qed

lemma first_octet: "b AND 112 = 0 \<Longrightarrow> (if b AND 128 \<noteq> 0 then 128 else 0) OR (b AND 15) = b" for b :: octet
  by (rule octet_eqI) (auto simp: high_bit bit_simps dest: reserved_bits)

lemma second_octet: "(if b AND 128 \<noteq> 0 then 128 else 0) OR (b AND 127) = b" for b :: octet
  by (rule octet_eqI) (auto simp: high_bit bit_simps)

lemma opcode_octet:
  assumes "x < 16"
  shows "((if fin then 128 else 0) OR x) AND 112 = (0 :: octet)" "((if fin then 128 else 0) OR x) AND 15 = x"
    "((if fin then 128 else 0) OR x) AND 128 = 0 \<longleftrightarrow> \<not> fin"
  using small_bits(1) [OF assms] by (auto intro!: octet_eqI simp: high_bit bit_simps)

lemma marker_octet:
  assumes "x < 128"
  shows "((if masked then 128 else 0) OR x) AND 127 = (x :: octet)" "((if masked then 128 else 0) OR x) AND 128 = 0 \<longleftrightarrow> \<not> masked"
  using small_bits(2) [OF assms] by (auto intro!: octet_eqI simp: high_bit bit_simps)

section \<open>The scanner frame by frame\<close>

text \<open>A complete header, fed in one go, is the header the code sees.\<close>

lemma feed_header_from:
  assumes "length hdr = header_len (fr_masked fl) ((hdr ! 1) AND 127)" "fr_remaining fl = 0" "k < length hdr"
  shows "feed (fl\<lparr>fr_header := take k hdr\<rparr>) (drop k hdr @ rest) =
    (case frame_header (fl\<lparr>fr_header := hdr\<rparr>) of (Inl e, fl) \<Rightarrow> (Err e, fl) | (Inr _, fl) \<Rightarrow> feed fl rest)"
  using assms(3)
proof (induction "length hdr - k" arbitrary: k)
  case (Suc n)
  have two: "2 \<le> length hdr" using assms(1) by (simp add: header_len_def)
  have d: "drop k hdr = hdr ! k # drop (Suc k) hdr" using Suc.prems by (simp add: Cons_nth_drop_Suc)
  have t: "take k hdr @ [hdr ! k] = take (Suc k) hdr" using Suc.prems by (simp add: take_Suc_conv_app_nth)
  let ?fl = "fl\<lparr>fr_header := take (Suc k) hdr\<rparr>"
  have byte: "header_byte (fl\<lparr>fr_header := take k hdr\<rparr>) (hdr ! k) = (if Suc k < length hdr then (Ok (), ?fl) else frame_header ?fl)"
  proof (cases "Suc k < 2")
    case True
    then show ?thesis using two t by (simp add: header_byte_def Let_def)
  next
    case False
    then have "take (Suc k) hdr ! 1 = hdr ! 1" by simp
    then show ?thesis using False Suc.prems t assms(1) by (simp add: header_byte_def Let_def min_def)
  qed
  show ?case
  proof (cases "Suc k < length hdr")
    case True
    then have "feed ?fl (drop (Suc k) hdr @ rest) =
        (case frame_header (fl\<lparr>fr_header := hdr\<rparr>) of (Inl e, fl) \<Rightarrow> (Err e, fl) | (Inr _, fl) \<Rightarrow> feed fl rest)"
      using Suc by simp
    then show ?thesis using True assms(2) by (simp add: d feed.simps byte)
  next
    case False
    then have "Suc k = length hdr" using Suc.prems by simp
    then show ?thesis using assms(2) by (simp add: d feed.simps byte)
  qed
qed simp

lemma feed_header:
  assumes "length hdr = header_len (fr_masked fl) ((hdr ! 1) AND 127)" "fr_remaining fl = 0" "fr_header fl = []"
  shows "feed fl (hdr @ rest) =
    (case frame_header (fl\<lparr>fr_header := hdr\<rparr>) of (Inl e, fl) \<Rightarrow> (Err e, fl) | (Inr _, fl) \<Rightarrow> feed fl rest)"
proof -
  have "fl\<lparr>fr_header := []\<rparr> = fl" "0 < length hdr" using assms by (simp_all add: header_len_def)
  then show ?thesis using feed_header_from [OF assms(1,2), of 0 rest] by simp
qed

text \<open>Part of a header is kept.\<close>

lemma feed_partial:
  assumes "fr_remaining fl = 0" "length (fr_header fl @ bs) < 2 \<or>
    length (fr_header fl @ bs) < header_len (fr_masked fl) (((fr_header fl @ bs) ! 1) AND 127)"
  shows "feed fl bs = (Ok (), fl\<lparr>fr_header := fr_header fl @ bs\<rparr>)"
  using assms
proof (induction bs arbitrary: fl)
  case (Cons b bs)
  let ?fl = "fl\<lparr>fr_header := fr_header fl @ [b]\<rparr>"
  have "length (fr_header ?fl) < 2 \<or> length (fr_header ?fl) < header_len (fr_masked ?fl) ((fr_header ?fl ! 1) AND 127)"
  proof (cases "fr_header fl")
    case (Cons a as)
    then have "(fr_header fl @ b # bs) ! 1 = (fr_header fl @ [b]) ! 1" by (cases as) simp_all
    then show ?thesis using Cons.prems(2) by auto
  qed simp
  then have "header_byte fl b = (Ok (), ?fl)" by (auto simp: header_byte_def Let_def)
  with Cons.IH [of ?fl] Cons.prems show ?case by (simp add: feed.simps)
qed (simp add: feed.simps)

lemma feed_payload:
  assumes "fr_remaining fl = length p"
  shows "feed fl (p @ rest) = feed (fl\<lparr>fr_remaining := 0\<rparr>) rest"
proof (cases p)
  case Nil
  then have "fl\<lparr>fr_remaining := 0\<rparr> = fl" using assms by simp
  then show ?thesis using Nil by simp
next
  case (Cons b bs)
  then show ?thesis using assms by (simp add: feed.simps)
qed

lemma feed_short_payload:
  assumes "length p < fr_remaining fl"
  shows "feed fl p = (Ok (), fl\<lparr>fr_remaining := fr_remaining fl - length p\<rparr>)"
  using assms by (cases p) (simp_all add: feed.simps)

text \<open>The length field that a frame is written with.\<close>

definition length_marker :: "nat \<Rightarrow> octet" where
  "length_marker n = (if n < 126 then word_of_nat n else if n < 65536 then 126 else 127)"

definition length_extension :: "nat \<Rightarrow> octet list" where
  "length_extension n = (if n < 126 then [] else if n < 65536 then big_endian 2 n else big_endian 8 n)"

lemma length_octets_alt:
  "length_octets masked n = ((if masked then 128 else 0) OR length_marker n) # length_extension n"
  by (simp add: length_octets_def length_marker_def length_extension_def Let_def)

lemma length_marker_facts:
  "length_marker n < 128" "length (length_extension n) = extended_len (length_marker n)"
  "length_marker n = 126 \<longleftrightarrow> 126 \<le> n \<and> n < 65536" "length_marker n = 127 \<longleftrightarrow> 65536 \<le> n"
proof -
  have u: "unat (word_of_nat n :: octet) = n" if "n < 126" using that by (simp add: unat_of_nat)
  have e: "(word_of_nat n :: octet) = 126 \<longleftrightarrow> False" "(word_of_nat n :: octet) = 127 \<longleftrightarrow> False" if "n < 126"
    using u [OF that] that by (auto simp: word_unat_eq_iff)
  show "length_marker n < 128" using u by (auto simp: length_marker_def word_less_nat_alt)
  show "length_marker n = 126 \<longleftrightarrow> 126 \<le> n \<and> n < 65536" "length_marker n = 127 \<longleftrightarrow> 65536 \<le> n"
    using e by (auto simp: length_marker_def)
  show "length (length_extension n) = extended_len (length_marker n)"
    using e by (auto simp: length_marker_def length_extension_def extended_len_def)
qed

lemma frame_size_value:
  "frame_size marker hdr =
     (if extended_len marker = 0 then unat marker else octets_value (take (extended_len marker) (drop 2 hdr)))"
proof -
  have "extended_len marker \<le> 8" by (simp add: extended_len_def)
  then have "length (take (extended_len marker) (drop 2 hdr)) \<le> 8" by simp
  from fold_octets [OF this] show ?thesis
    using octet_less [of marker] by (simp add: frame_size_def unsigned_ucast_eq take_bit_eq_mod)
qed

lemma extension_value: "n < 2 ^ 63 \<Longrightarrow> 126 \<le> n \<Longrightarrow> octets_value (length_extension n) = n"
  by (auto simp: length_extension_def intro!: value_big_endian)

lemma frame_size_extension:
  assumes "n < 2 ^ 63"
  shows "frame_size (length_marker n) (b0 # b1 # length_extension n @ key) = n"
proof (cases "n < 126")
  case True
  then have "extended_len (length_marker n) = 0"
    using length_marker_facts(3,4) [of n] by (simp add: extended_len_def)
  with True show ?thesis by (simp add: frame_size_value length_marker_def unat_of_nat)
next
  case False
  then have "extended_len (length_marker n) \<noteq> 0" using length_marker_facts(3,4) [of n] by (auto simp: extended_len_def)
  with False assms show ?thesis
    using length_marker_facts(2) [of n] extension_value [OF assms] by (simp add: frame_size_value)
qed

text \<open>Conversely a valid header determines the length field.\<close>

lemma length_field_unique:
  assumes "marker < 128" "length ext = extended_len marker" "n = (if extended_len marker = 0 then unat marker else octets_value ext)"
    and "marker = 126 \<Longrightarrow> 126 \<le> n" "marker = 127 \<Longrightarrow> 65535 < n"
  shows "length_marker n = marker \<and> length_extension n = ext"
proof -
  consider "marker = 126" | "marker = 127" | "marker \<noteq> 126" "marker \<noteq> 127" by blast
  then show ?thesis
  proof cases
    case 1
    then have l: "length ext = 2" and n: "n = octets_value ext" "126 \<le> n" using assms by (auto simp: extended_len_def)
    moreover have "n < 65536" using octets_value_less [of ext] l n by simp
    ultimately show ?thesis using 1 big_endian_value [of ext] by (simp add: length_marker_def length_extension_def)
  next
    case 2
    then have l: "length ext = 8" and n: "n = octets_value ext" "65535 < n" using assms by (auto simp: extended_len_def)
    then show ?thesis using 2 big_endian_value [of ext] by (simp add: length_marker_def length_extension_def)
  next
    case 3
    then have n: "n = unat marker" "ext = []" using assms by (auto simp: extended_len_def)
    have "unat marker \<noteq> 126" "unat marker \<noteq> 127" "unat marker < 128"
      using 3 assms(1) by (auto simp: word_unat_eq_iff word_less_nat_alt)
    then show ?thesis using n by (simp add: length_marker_def length_extension_def)
  qed
qed

text \<open>Between two frames.\<close>

definition boundary :: "nat \<Rightarrow> bool \<Rightarrow> frame_limit \<Rightarrow> bool" where
  "boundary max_bytes masked fl =
     (fr_header fl = [] \<and> fr_remaining fl = 0 \<and> fr_max fl = max_bytes \<and> fr_masked fl = masked \<and> fr_message_bytes fl \<le> max_bytes)"

definition after_frame :: "frame_limit \<Rightarrow> socket_frame \<Rightarrow> bool \<times> nat \<Rightarrow> frame_limit" where
  "after_frame fl f st =
     fl\<lparr>fr_frames := saturating_add (fr_frames fl) 1, fr_close_seen := (fr_close_seen fl \<or> sf_opcode f = 8), fr_header := [],
        fr_remaining := 0, fr_message_bytes := snd st, fr_fragmented := fst st\<rparr>"

lemma frame_head_fields:
  assumes "frame_wf masked f"
  defines "hdr \<equiv> frame_head masked f" and "n \<equiv> length (sf_payload f)"
  shows "hdr ! 0 AND 15 = sf_opcode f" "hdr ! 0 AND 128 = 0 \<longleftrightarrow> \<not> sf_fin f" "hdr ! 0 AND 112 = 0"
    "hdr ! 1 AND 127 = length_marker n" "hdr ! 1 AND 128 = 0 \<longleftrightarrow> \<not> masked" "frame_size (length_marker n) hdr = n"
    "length hdr = header_len masked (hdr ! 1 AND 127)"
proof -
  have op: "sf_opcode f < 16" and n: "n < 2 ^ 63" and m: "length (sf_mask f) = (if masked then 4 else 0)"
    using assms(1) by (simp_all add: frame_wf_def n_def)
  have h: "hdr = ((if sf_fin f then 128 else 0) OR sf_opcode f) # ((if masked then 128 else 0) OR length_marker n) #
      length_extension n @ sf_mask f"
    by (simp add: hdr_def frame_head_def length_octets_alt n_def)
  show "hdr ! 0 AND 15 = sf_opcode f" "hdr ! 0 AND 128 = 0 \<longleftrightarrow> \<not> sf_fin f" "hdr ! 0 AND 112 = 0"
    using opcode_octet [OF op] by (simp_all only: h nth_Cons_0)
  show "hdr ! 1 AND 127 = length_marker n" "hdr ! 1 AND 128 = 0 \<longleftrightarrow> \<not> masked"
    using marker_octet [OF length_marker_facts(1)] by (simp_all only: h nth_Cons_0 nth_Cons_Suc One_nat_def)
  then show "length hdr = header_len masked (hdr ! 1 AND 127)"
    using length_marker_facts(2) [of n] m by (simp add: h header_len_def)
  show "frame_size (length_marker n) hdr = n" using frame_size_extension [OF n] by (simp only: h)
qed

lemma frame_header_step:
  assumes wf: "frame_wf masked f" and b: "boundary max_bytes masked fl" and small: "max_bytes < 2 ^ 63"
  shows "case message_step max_bytes (fr_fragmented fl, fr_message_bytes fl) f of
      Some st \<Rightarrow> frame_header (fl\<lparr>fr_header := frame_head masked f\<rparr>) =
        (Ok (), (after_frame fl f st)\<lparr>fr_remaining := length (sf_payload f)\<rparr>)
    | None \<Rightarrow> \<exists>e fl'. frame_header (fl\<lparr>fr_header := frame_head masked f\<rparr>) = (Err e, fl')"
proof -
  let ?n = "length (sf_payload f)"
  note fields = frame_head_fields [OF wf]
  have n: "?n < 2 ^ 63" using wf by (simp add: frame_wf_def)
  have inv: "header_invalid (fl\<lparr>fr_header := frame_head masked f\<rparr>) (length_marker ?n) ?n \<longleftrightarrow> max_bytes < ?n"
    using fields b n length_marker_facts(3,4) [of ?n] by (auto simp: header_invalid_def boundary_def)
  have sat: "saturating_add (fr_message_bytes fl) ?n = fr_message_bytes fl + ?n" if "\<not> max_bytes < ?n"
    using b small that by (simp add: saturating_add_def usize_max_def boundary_def)
  have h: "frame_header (fl\<lparr>fr_header := frame_head masked f\<rparr>) =
      (if max_bytes < ?n then (Err RequestBodyTooLarge, fl\<lparr>fr_header := frame_head masked f\<rparr>)
       else case frame_message (fl\<lparr>fr_header := frame_head masked f\<rparr>) (sf_opcode f) (sf_fin f) ?n of
              Inl e \<Rightarrow> (Err e, fl\<lparr>fr_header := frame_head masked f\<rparr>)
            | Inr fl \<Rightarrow>
                if sf_opcode f < 8 then
                  if fr_max fl < fr_message_bytes fl then (Err RequestBodyTooLarge, fl)
                  else (Ok (), end_frame (fl\<lparr>fr_fragmented := \<not> sf_fin f, fr_message_bytes := (if sf_fin f then 0 else fr_message_bytes fl)\<rparr>) (sf_opcode f) ?n)
                else (Ok (), end_frame fl (sf_opcode f) ?n))"
    using fields inv by (simp add: frame_header_def Let_def split: sum.split)
  have fl: "fr_max fl = max_bytes" "fr_message_bytes fl \<le> max_bytes" using b by (simp_all add: boundary_def)
  note defs = message_step_def frame_message_def end_frame_def after_frame_def Let_def
  show ?thesis
  proof (cases "max_bytes < ?n")
    case True
    then show ?thesis by (simp add: h message_step_def)
  next
    case False
    note steps = defs h False sat [OF False] fl
    consider "sf_opcode f = 0" | "sf_opcode f = 1 \<or> sf_opcode f = 2" | "sf_opcode f \<in> {8, 9, 10}"
      | "sf_opcode f \<notin> {0, 1, 2, 8, 9, 10}" by blast
    then show ?thesis
    proof cases
      case 1
      then show ?thesis by (cases "fr_fragmented fl") (simp_all add: steps not_less)
    next
      case 2
      then show ?thesis using False by (elim disjE; cases "fr_fragmented fl") (simp_all add: steps)
    next
      case 3
      then have "\<not> sf_opcode f < 8" by auto
      with 3 show ?thesis by (cases "sf_fin f \<and> ?n \<le> 125") (auto simp: steps)
    next
      case 4
      then show ?thesis by (simp add: steps)
    qed
  qed
qed

lemma feed_frame:
  assumes wf: "frame_wf masked f" and b: "boundary max_bytes masked fl" and small: "max_bytes < 2 ^ 63"
  shows "case message_step max_bytes (fr_fragmented fl, fr_message_bytes fl) f of
      Some st \<Rightarrow> feed fl (frame_octets masked f @ rest) = feed (after_frame fl f st) rest
    | None \<Rightarrow> \<exists>e fl'. feed fl (frame_octets masked f @ rest) = (Err e, fl')"
proof -
  have "feed fl (frame_octets masked f @ rest) =
      (case frame_header (fl\<lparr>fr_header := frame_head masked f\<rparr>) of
         (Inl e, fl) \<Rightarrow> (Err e, fl) | (Inr _, fl) \<Rightarrow> feed fl (sf_payload f @ rest))"
    using feed_header [of "frame_head masked f" fl "sf_payload f @ rest"] frame_head_fields(7) [OF wf] b
    by (simp add: frame_octets_def boundary_def)
  moreover have "(after_frame fl f st)\<lparr>fr_remaining := 0\<rparr> = after_frame fl f st" for st by (simp add: after_frame_def)
  ultimately show ?thesis
    using frame_header_step [OF wf b small] by (auto simp: feed_payload split: option.splits)
qed

lemma message_step_bound: "message_step max_bytes st f = Some st' \<Longrightarrow> snd st \<le> max_bytes \<Longrightarrow> snd st' \<le> max_bytes"
  by (cases st) (auto simp: message_step_def Let_def split: if_splits)

lemma after_frame_boundary:
  assumes "boundary max_bytes masked fl" "message_step max_bytes (fr_fragmented fl, fr_message_bytes fl) f = Some st"
  shows "boundary max_bytes masked (after_frame fl f st)"
  using assms message_step_bound [OF assms(2)] by (simp add: boundary_def after_frame_def)

lemma saturating_Suc: "saturating_add (saturating_add k (Suc 0)) n = saturating_add k (Suc n)"
  by (simp add: saturating_add_def min_def)

lemma feed_frames:
  assumes "list_all (frame_wf masked) fs" "boundary max_bytes masked fl" "max_bytes < 2 ^ 63"
    and "messages_ok max_bytes (fr_fragmented fl, fr_message_bytes fl) fs" "fr_frames fl \<le> usize_max"
  shows "\<exists>fl'. feed fl (concat (map (frame_octets masked) fs)) = (Ok (), fl') \<and> boundary max_bytes masked fl' \<and>
    fr_frames fl' = saturating_add (fr_frames fl) (length fs) \<and>
    fr_close_seen fl' = (fr_close_seen fl \<or> list_ex (\<lambda>f. sf_opcode f = 8) fs)"
  using assms
proof (induction fs arbitrary: fl)
  case Nil
  then show ?case by (simp add: feed.simps saturating_add_def usize_max_def)
next
  case (Cons f fs)
  from Cons.prems(4) obtain st where st: "message_step max_bytes (fr_fragmented fl, fr_message_bytes fl) f = Some st"
    and ok: "messages_ok max_bytes st fs" by (auto split: option.splits)
  let ?fl = "after_frame fl f st"
  have "feed fl (concat (map (frame_octets masked) (f # fs))) = feed ?fl (concat (map (frame_octets masked) fs))"
    using feed_frame [of masked f max_bytes fl "concat (map (frame_octets masked) fs)"] Cons.prems st by simp
  moreover have "\<exists>fl'. feed ?fl (concat (map (frame_octets masked) fs)) = (Ok (), fl') \<and> boundary max_bytes masked fl' \<and>
    fr_frames fl' = saturating_add (fr_frames ?fl) (length fs) \<and>
    fr_close_seen fl' = (fr_close_seen ?fl \<or> list_ex (\<lambda>f. sf_opcode f = 8) fs)"
  proof (rule Cons.IH)
    show "boundary max_bytes masked ?fl" by (rule after_frame_boundary [OF Cons.prems(2) st])
    show "messages_ok max_bytes (fr_fragmented ?fl, fr_message_bytes ?fl) fs" using ok by (simp add: after_frame_def)
    show "fr_frames ?fl \<le> usize_max" by (simp add: after_frame_def saturating_add_def usize_max_def)
  qed (use Cons.prems in simp_all)
  ultimately show ?case by (auto simp: after_frame_def saturating_Suc)
qed

text \<open>An accepted header is that of a frame.\<close>

lemma header_of_frame:
  assumes hdr: "length hdr = header_len masked (hdr ! 1 AND 127)" and b: "boundary max_bytes masked fl"
    and ok: "frame_header (fl\<lparr>fr_header := hdr\<rparr>) = (Ok (), fl')" and p: "length p = fr_remaining fl'"
  obtains f where "frame_wf masked f" "hdr = frame_head masked f" "sf_payload f = p"
proof -
  define m where "m = hdr ! 1 AND 127"
  define ext where "ext = take (extended_len m) (drop 2 hdr)"
  define key where "key = drop (2 + extended_len m) hdr"
  have l: "length hdr = 2 + extended_len m + (if masked then 4 else 0)" using hdr by (simp add: header_len_def m_def)
  have split: "hdr = hdr ! 0 # hdr ! 1 # ext @ key"
  proof -
    have "2 \<le> length hdr" using l by simp
    then obtain b0 b1 t where "hdr = b0 # b1 # t" by (cases hdr; cases "tl hdr") auto
    then show ?thesis by (simp add: ext_def key_def)
  qed
  have inv: "\<not> header_invalid (fl\<lparr>fr_header := hdr\<rparr>) m (frame_size m hdr)" and r: "fr_remaining fl' = frame_size m hdr"
    using ok by (auto simp: frame_header_def m_def Let_def end_frame_def split: if_splits sum.splits)
  have ext: "length ext = extended_len m" and key: "length key = (if masked then 4 else 0)"
    using l by (simp_all add: ext_def key_def)
  have n: "frame_size m hdr = (if extended_len m = 0 then unat m else octets_value ext)"
    by (simp add: frame_size_value ext_def)
  have field: "length_marker (frame_size m hdr) = m \<and> length_extension (frame_size m hdr) = ext"
    using inv by (intro length_field_unique [OF _ ext n]) (auto simp: m_def field_less header_invalid_def)
  have flag: "masked \<longleftrightarrow> hdr ! 1 AND 128 \<noteq> 0" and rsv: "hdr ! 0 AND 112 = 0" and small: "frame_size m hdr < 2 ^ 63"
    using inv b by (auto simp: header_invalid_def boundary_def)
  let ?f = "\<lparr>sf_fin = (hdr ! 0 AND 128 \<noteq> 0), sf_opcode = hdr ! 0 AND 15, sf_mask = key, sf_payload = p\<rparr>"
  have "frame_head masked ?f = hdr"
    using field p r first_octet [OF rsv] second_octet [of "hdr ! 1"] split
    by (simp add: frame_head_def length_octets_alt m_def flag)
  moreover have "frame_wf masked ?f" using field_less(2) key small p r by (simp add: frame_wf_def)
  ultimately show thesis by (intro that [of ?f]) simp_all
qed

lemma frame_octets_nonempty: "frame_octets masked f \<noteq> []"
  by (simp add: frame_octets_def frame_head_def)

lemma accepted_frames:
  assumes "boundary max_bytes masked fl" "max_bytes < 2 ^ 63" "feed fl bytes = (Ok (), fl')" "fr_header fl' = []" "fr_remaining fl' = 0"
  shows "\<exists>fs. bytes = concat (map (frame_octets masked) fs) \<and> list_all (frame_wf masked) fs \<and>
    messages_ok max_bytes (fr_fragmented fl, fr_message_bytes fl) fs"
  using assms
proof (induction "length bytes" arbitrary: bytes fl rule: less_induct)
  case less
  show ?case
  proof (cases "bytes = []")
    case True
    then show ?thesis by (intro exI [of _ "[]"]) simp
  next
    case False
    define k where "k = header_len masked (bytes ! 1 AND 127)"
    have fl: "fr_header fl = []" "fr_remaining fl = 0" "fr_masked fl = masked" using less.prems(1) by (simp_all add: boundary_def)
    have long: "2 \<le> length bytes \<and> k \<le> length bytes"
    proof (rule ccontr)
      assume "\<not> (2 \<le> length bytes \<and> k \<le> length bytes)"
      then have "feed fl bytes = (Ok (), fl\<lparr>fr_header := bytes\<rparr>)"
        using feed_partial [of fl bytes] fl by (auto simp: k_def)
      then show False using less.prems(3,4) False by auto
    qed
    define hdr where "hdr = take k bytes"
    have k: "2 \<le> k" by (simp add: k_def header_len_def)
    have hdr: "length hdr = header_len masked (hdr ! 1 AND 127)" using long k by (simp add: hdr_def k_def)
    have split: "bytes = hdr @ drop k bytes" by (simp add: hdr_def)
    have "feed fl bytes = (case frame_header (fl\<lparr>fr_header := hdr\<rparr>) of
        (Inl e, fl) \<Rightarrow> (Err e, fl) | (Inr _, fl) \<Rightarrow> feed fl (drop k bytes))"
      using feed_header [of hdr fl "drop k bytes"] hdr fl split by simp
    then obtain fl1 where h: "frame_header (fl\<lparr>fr_header := hdr\<rparr>) = (Ok (), fl1)" and r: "feed fl1 (drop k bytes) = (Ok (), fl')"
      using less.prems(3) by (auto split: prod.splits sum.splits)
    have enough: "fr_remaining fl1 \<le> length (drop k bytes)"
    proof (rule ccontr)
      assume "\<not> fr_remaining fl1 \<le> length (drop k bytes)"
      then show False using feed_short_payload [of "drop k bytes" fl1] r less.prems(5) by auto
    qed
    define p where "p = take (fr_remaining fl1) (drop k bytes)"
    have "length p = fr_remaining fl1" using enough by (simp add: p_def)
    then obtain f where f: "frame_wf masked f" "hdr = frame_head masked f" "sf_payload f = p"
      using header_of_frame [OF hdr less.prems(1) h] by blast
    define rest where "rest = drop (k + fr_remaining fl1) bytes"
    have bytes: "bytes = frame_octets masked f @ rest"
      using split f by (simp add: frame_octets_def p_def rest_def) (metis append_take_drop_id drop_drop add.commute)
    from feed_frame [OF f(1) less.prems(1,2), of rest] less.prems(3)
    obtain st where st: "message_step max_bytes (fr_fragmented fl, fr_message_bytes fl) f = Some st"
      and next_step: "feed (after_frame fl f st) rest = (Ok (), fl')"
      by (auto simp: bytes split: option.splits)
    have "length rest < length bytes" using bytes frame_octets_nonempty [of masked f] by simp
    from less.hyps [OF this after_frame_boundary [OF less.prems(1) st] less.prems(2) next_step less.prems(4,5)]
    obtain fs where "rest = concat (map (frame_octets masked) fs)" "list_all (frame_wf masked) fs" "messages_ok max_bytes st fs"
      by (auto simp: after_frame_def)
    then show ?thesis using bytes f(1) st by (intro exI [of _ "f # fs"]) simp
  qed
qed

text \<open>
  C8 (equivalence): the scanner accepts a stream of bytes up to a frame boundary exactly when it is a sequence of frames in
  their canonical encoding, masked as required, in which no frame and no fragmented message is longer than the limit,
  continuations continue a message, a new message starts only after the previous one ended and control frames are short and
  whole. It has then counted the frames and noticed a close frame. Payloads are never inspected.
\<close>

theorem frame_limit_exact:
  assumes "max_bytes < 2 ^ 63"
  shows "(\<exists>fl. feed (frame_limit_new max_bytes masked) bytes = (Ok (), fl) \<and> fr_header fl = [] \<and> fr_remaining fl = 0 \<and>
       fr_frames fl = n \<and> fr_close_seen fl = close_seen)
    \<longleftrightarrow> (\<exists>fs. bytes = concat (map (frame_octets masked) fs) \<and> list_all (frame_wf masked) fs \<and>
       messages_ok max_bytes (False, 0) fs \<and> n = saturating_add 0 (length fs) \<and> close_seen = list_ex (\<lambda>f. sf_opcode f = 8) fs)"
  (is "?accepted \<longleftrightarrow> ?frames")
proof -
  have start: "boundary max_bytes masked (frame_limit_new max_bytes masked)" by (simp add: boundary_def frame_limit_new_def)
  note forward = feed_frames [OF _ start assms]
  show ?thesis
  proof
    assume ?accepted
    then obtain fl where fed: "feed (frame_limit_new max_bytes masked) bytes = (Ok (), fl)" "fr_header fl = []" "fr_remaining fl = 0"
      "fr_frames fl = n" "fr_close_seen fl = close_seen" by blast
    from accepted_frames [OF start assms fed(1-3)] obtain fs where
      fs: "bytes = concat (map (frame_octets masked) fs)" "list_all (frame_wf masked) fs" "messages_ok max_bytes (False, 0) fs"
      by (auto simp: frame_limit_new_def)
    with forward [of fs] fed show ?frames by (auto simp: frame_limit_new_def)
  next
    assume ?frames
    then show ?accepted using forward by (fastforce simp: frame_limit_new_def boundary_def)
  qed
qed

theorem frame_limit_exact_witness:
  "\<exists>fl. feed (frame_limit_new 1024 False) [129, 1, 97, 136, 0] = (Ok (), fl) \<and> fr_header fl = [] \<and> fr_remaining fl = 0 \<and>
     fr_frames fl = 2 \<and> fr_close_seen fl = True"
proof -
  let ?fs = "[\<lparr>sf_fin = True, sf_opcode = 1, sf_mask = [], sf_payload = [97]\<rparr>,
    \<lparr>sf_fin = True, sf_opcode = 8, sf_mask = [], sf_payload = []\<rparr>]"
  have "\<exists>fs. [129, 1, 97, 136, 0] = concat (map (frame_octets False) fs) \<and> list_all (frame_wf False) fs \<and>
    messages_ok 1024 (False, 0) fs \<and> 2 = saturating_add 0 (length fs) \<and> True = list_ex (\<lambda>f. sf_opcode f = 8) fs"
    by (intro exI [of _ ?fs])
      (simp add: frame_octets_def frame_head_def length_octets_def frame_wf_def message_step_def saturating_add_def)
  then show ?thesis using frame_limit_exact [of 1024 False "[129, 1, 97, 136, 0]" 2 True] by simp
qed

section \<open>The connection counts\<close>

text \<open>The counts against the leases that are out: connections come and go in any order.\<close>

datatype connection_event = Connect string string nat nat | Disconnect nat

definition connection_step ::
  "connection_counts \<times> connection_entry list \<Rightarrow> connection_event \<Rightarrow> connection_counts \<times> connection_entry list" where
  "connection_step = (\<lambda>(counts, leases) ev.
     case ev of
       Connect service key route_max key_max \<Rightarrow>
         (case connection_acquire counts service key route_max key_max of
            (Inl _, counts) \<Rightarrow> (counts, leases)
          | (Inr e, counts) \<Rightarrow> (counts, e # leases))
     | Disconnect i \<Rightarrow>
         if i < length leases then (connection_drop counts (leases ! i), take i leases @ drop (Suc i) leases)
         else (counts, leases))"

definition lease_counts :: "connection_entry list \<Rightarrow> connection_entry \<Rightarrow> nat option" where
  "lease_counts leases = (\<lambda>e. if e \<in> set leases then Some (count_list leases e) else None)"

definition counts_ok :: "connection_counts \<times> connection_entry list \<Rightarrow> bool" where
  "counts_ok = (\<lambda>(counts, leases).
     distinct (map fst counts) \<and> map_of counts = lease_counts leases \<and> length leases \<le> instance_connection_limit)"

lemma keys_set_count: "fst ` set (set_count e n counts) = insert e (fst ` set counts)"
  by (induction e n counts rule: set_count.induct) (simp_all add: insert_commute)

lemma map_of_set_count: "map_of (set_count e n counts) = (map_of counts)(e \<mapsto> n)"
  by (induction e n counts rule: set_count.induct) (auto simp: fun_eq_iff)

lemma distinct_set_count: "distinct (map fst counts) \<Longrightarrow> distinct (map fst (set_count e n counts))"
  by (induction e n counts rule: set_count.induct) (auto simp: keys_set_count)

lemma map_of_without: "map_of (filter (\<lambda>(e', _). e' \<noteq> e) counts) = (map_of counts)(e := None)"
  by (induction counts) (auto simp: fun_eq_iff)

lemma lease_counts_Cons: "lease_counts (e # leases) = (lease_counts leases)(e \<mapsto> count_list leases e + 1)"
  by (auto simp: lease_counts_def fun_eq_iff count_notin)

lemma sum_counts:
  assumes "distinct (map fst counts)" and "map_of counts = lease_counts leases"
  shows "sum_list (map snd (filter (\<lambda>(e, _). P e) counts)) = length (filter P leases)"
proof -
  let ?cs = "filter (\<lambda>(e, _). P e) counts" and ?count = "count_list (filter P leases)"
  have d: "distinct (map fst ?cs)" using assms(1) by (simp add: distinct_map_filter)
  have mem: "(e, n) \<in> set counts \<longleftrightarrow> e \<in> set leases \<and> n = count_list leases e" for e n
    using map_of_eq_Some_iff [OF assms(1), of e n] by (auto simp: assms(2) lease_counts_def split: if_splits)
  have "n = ?count e" if "(e, n) \<in> set ?cs" for e n
    using that by (auto simp: mem count_list_eq_length_filter intro!: arg_cong [where f = length] filter_cong)
  then have "map snd ?cs = map ?count (map fst ?cs)" by (auto simp del: map_eq_conv intro!: map_cong)
  then have "sum_list (map snd ?cs) = sum ?count (set (map fst ?cs))"
    by (simp only: sum.distinct_set_conv_list [OF d])
  also have "set (map fst ?cs) = set (filter P leases)" using mem by force
  also have "sum ?count (set (filter P leases)) = length (filter P leases)"
    by (rule sum_count_set) simp_all
  finally show ?thesis .
qed

lemma counts_of_leases:
  assumes "counts_ok (counts, leases)"
  shows "total_count counts = length leases" "route_count service counts = length (filter (\<lambda>e. fst e = service) leases)"
    "entry_count e counts = count_list leases e"
proof -
  have ok: "distinct (map fst counts)" "map_of counts = lease_counts leases" using assms by (simp_all add: counts_ok_def)
  show "total_count counts = length leases" using sum_counts [OF ok, of "\<lambda>_. True"] by (simp add: total_count_def)
  show "route_count service counts = length (filter (\<lambda>e. fst e = service) leases)"
    using sum_counts [OF ok, of "\<lambda>e. fst e = service"] by (simp add: route_count_def case_prod_unfold)
  show "entry_count e counts = count_list leases e"
    by (simp add: entry_count_def ok(2) lease_counts_def count_notin)
qed

lemma lease_counts_without:
  assumes "i < length leases"
  shows "lease_counts (take i leases @ drop (Suc i) leases) =
    (if count_list leases (leases ! i) - 1 = 0 then (lease_counts leases)(leases ! i := None)
     else (lease_counts leases)(leases ! i \<mapsto> count_list leases (leases ! i) - 1))"
proof -
  let ?rest = "take i leases @ drop (Suc i) leases"
  have c: "count_list leases e = count_list ?rest e + (if e = leases ! i then 1 else 0)" for e
    using arg_cong [OF id_take_nth_drop [OF assms], of "\<lambda>xs. count_list xs e"] by simp
  have "set leases = insert (leases ! i) (set ?rest)"
    using arg_cong [OF id_take_nth_drop [OF assms], of set] by auto
  then show ?thesis using c [of "leases ! i"] c by (auto simp: lease_counts_def fun_eq_iff count_list_0_iff)
qed

lemma connection_step_ok:
  assumes ok: "counts_ok (counts, leases)"
  shows "counts_ok (connection_step (counts, leases) ev)"
proof (cases ev)
  case (Connect service key route_max key_max)
  then show ?thesis
    using ok counts_of_leases [OF ok]
    by (auto simp: connection_step_def connection_acquire_def Let_def counts_ok_def distinct_set_count map_of_set_count
      lease_counts_Cons)
next
  case (Disconnect i)
  show ?thesis
  proof (cases "i < length leases")
    case True
    have "lease_counts leases (leases ! i) = Some (count_list leases (leases ! i))" using True by (simp add: lease_counts_def)
    then have "distinct (map fst (connection_drop counts (leases ! i)))"
      "map_of (connection_drop counts (leases ! i)) = lease_counts (take i leases @ drop (Suc i) leases)"
      using ok lease_counts_without [OF True]
      by (simp_all add: connection_drop_def counts_ok_def distinct_set_count distinct_map_filter map_of_set_count map_of_without)
    then show ?thesis using ok True Disconnect by (auto simp: connection_step_def counts_ok_def)
  qed (use Disconnect ok in \<open>simp add: connection_step_def\<close>)
qed

text \<open>
  Whatever connections come and go, the counts are those of the leases that are out, there are at most 4096 of them, and the next
  connection is admitted exactly when the instance, the route and the key are below their limits.
\<close>

theorem connections_bounded:
  defines "run \<equiv> \<lambda>events. foldl connection_step ([], []) events"
  shows "counts_ok (run events) \<and>
    ((\<exists>e. fst (connection_acquire (fst (run events)) service key route_max key_max) = Ok e) \<longleftrightarrow>
     length (snd (run events)) < instance_connection_limit \<and>
     length (filter (\<lambda>e. fst e = service) (snd (run events))) < route_max \<and>
     count_list (snd (run events)) (service, key) < key_max)"
proof -
  have "counts_ok (run events)"
  proof (induction events rule: rev_induct)
    case Nil
    show ?case by (simp add: run_def counts_ok_def lease_counts_def fun_eq_iff)
  next
    case (snoc ev events)
    then show ?case using connection_step_ok [of "fst (run events)" "snd (run events)" ev] by (simp add: run_def)
  qed
  moreover from this have "counts_ok (fst (run events), snd (run events))" by simp
  note counts_of_leases [OF this]
  ultimately show ?thesis by (auto simp: connection_acquire_def Let_def)
qed

end
