(* ===== verification/Upstream_Attempts.thy ===== *)
theory Upstream_Attempts
  imports Proxy_Context
begin

text \<open>
  The attempts of a request at its upstream (\<open>upstream_peer\<close>, \<open>fail_to_connect\<close>, \<open>error_while_proxy\<close>, \<open>upstream_response_filter\<close> and \<open>fail_to_proxy\<close> in
  \<open>gateway-proxy/src/pingora_plane.rs\<close>): the admission of the request to an upstream slot, the fallback to LiteLLM,
  the retry decision the gateway hands to Pingora and the answer a client gets when the proxy gives up. Pingora itself is a
  parameter: the calls the gateway makes on an error are recorded, and \<open>retries\<close> says whether Pingora makes another attempt
  after them. Timings and traffic diagnostics are not part of the result.
\<close>

section \<open>Proxy errors\<close>

datatype error_source = FromUpstream | FromDownstream | FromInternal | SourceUnset

text \<open>The types of errors the gateway distinguishes.\<close>

datatype error_type =
    ConnectTimedout | ConnectRefused | ConnectNoRoute
  | TLSHandshakeTimedout | TLSHandshakeFailure | TLSWantX509Lookup | HandshakeError | InvalidCert
  | ReadTimedout | WriteTimedout | ReadError | WriteError | ConnectionClosed
  | InvalidHTTPHeader | H1Error | H2Error | InvalidH2
  | HTTPStatus nat | OtherErrorType

record proxy_error =
  pe_source :: error_source
  pe_type :: error_type

definition is_retry_safe_proxy_error :: "proxy_error \<Rightarrow> bool" where
  "is_retry_safe_proxy_error e = (pe_source e = FromUpstream \<and> pe_type e \<in> {ReadTimedout, WriteTimedout})"

definition is_upstream_timeout_error :: "proxy_error \<Rightarrow> bool" where
  "is_upstream_timeout_error e =
     (pe_source e = FromUpstream \<and> pe_type e \<in> {ConnectTimedout, TLSHandshakeTimedout, ReadTimedout, WriteTimedout})"

definition default_proxy_failure_status :: "proxy_error \<Rightarrow> nat" where
  "default_proxy_failure_status e =
     (case pe_type e of
        HTTPStatus code \<Rightarrow> code
      | _ \<Rightarrow>
          (case pe_source e of
             FromUpstream \<Rightarrow> 502
           | FromDownstream \<Rightarrow> if pe_type e \<in> {WriteError, ReadError, ConnectionClosed} then 0 else 400
           | _ \<Rightarrow> 500))"

fun upstream_error_code :: "error_type \<Rightarrow> string" where
  "upstream_error_code ConnectRefused = ''upstream_connection_refused''"
| "upstream_error_code ConnectNoRoute = ''upstream_no_route''"
| "upstream_error_code TLSHandshakeFailure = ''upstream_tls_handshake_failed''"
| "upstream_error_code TLSWantX509Lookup = ''upstream_tls_handshake_failed''"
| "upstream_error_code HandshakeError = ''upstream_tls_handshake_failed''"
| "upstream_error_code InvalidCert = ''upstream_certificate_invalid''"
| "upstream_error_code ReadError = ''upstream_connection_closed''"
| "upstream_error_code ConnectionClosed = ''upstream_connection_closed''"
| "upstream_error_code WriteError = ''upstream_write_failed''"
| "upstream_error_code InvalidHTTPHeader = ''upstream_protocol_error''"
| "upstream_error_code H1Error = ''upstream_protocol_error''"
| "upstream_error_code H2Error = ''upstream_protocol_error''"
| "upstream_error_code InvalidH2 = ''upstream_protocol_error''"
| "upstream_error_code _ = ''upstream_transport_error''"

definition traffic_transport_error :: "proxy_error \<Rightarrow> string \<times> string" where
  "traffic_transport_error e =
     (case pe_source e of
        FromDownstream \<Rightarrow> (''client'', ''client_disconnected'')
      | FromUpstream \<Rightarrow>
          (''upstream'', if is_upstream_timeout_error e then ''upstream_timeout'' else upstream_error_code (pe_type e))
      | _ \<Rightarrow> (''gateway'', ''proxy_internal_error''))"

section \<open>Slots\<close>

text \<open>
  The slot of a request: taken before the first attempt and kept for the others. \<open>slots\<close> is the number of free slots, absent
  when upstream requests are not limited.
\<close>

definition upstream_slot :: "nat option \<Rightarrow> bool \<Rightarrow> pingora_context \<Rightarrow> bool \<times> nat option \<times> bool \<times> pingora_context" where
  "upstream_slot slots leased ctx =
     (if leased then (True, slots, leased, ctx)
      else case slots of
             None \<Rightarrow> (True, None, False, ctx)
           | Some 0 \<Rightarrow> (False, Some 0, False, ctx\<lparr>pc_guardrail_error := Some GatewayOverloaded\<rparr>)
           | Some (Suc n) \<Rightarrow> (True, Some n, True, ctx))"

section \<open>Retry decisions\<close>

datatype retry_call = SetRetry bool | DecideReuse bool

text \<open>A failed resolution or connection.\<close>

definition fail_to_connect :: "proxy_config \<Rightarrow> pingora_context \<Rightarrow> retry_call list \<times> pingora_context" where
  "fail_to_connect px ctx =
     (case activate_provider_fallback px ctx of (retry, ctx) \<Rightarrow> ([SetRetry retry], ctx))"

definition error_while_proxy ::
  "proxy_config \<Rightarrow> proxy_error \<Rightarrow> bool \<Rightarrow> bool \<Rightarrow> pingora_context \<Rightarrow> retry_call list \<times> pingora_context" where
  "error_while_proxy px e client_reused truncated ctx =
     (if pc_socket ctx then ([SetRetry False], ctx)
      else
        let reuse = DecideReuse (client_reused \<and> \<not> truncated)
        in if is_retry_safe_proxy_error e
           then case activate_provider_fallback px ctx of
                  (True, ctx) \<Rightarrow> ([reuse, SetRetry True], ctx)
                | (False, ctx) \<Rightarrow> ([reuse], ctx)
           else ([reuse], ctx))"

text \<open>The status of an answer: an error that another provider may not have ends the attempt.\<close>

definition answer_status :: "proxy_config \<Rightarrow> nat \<Rightarrow> pingora_context \<Rightarrow> retry_call list \<times> pingora_context" where
  "answer_status px status ctx =
     (if \<not> pc_socket ctx \<and> is_retry_safe_status status
      then case activate_provider_fallback px ctx of
             (True, ctx) \<Rightarrow> ([SetRetry True], ctx)
           | (False, ctx) \<Rightarrow> ([], ctx)
      else ([], ctx))"

section \<open>Giving up\<close>

text \<open>The response of an error, with its headers; \<open>to_vec\<close> is the serialisation of its body.\<close>

record error_response =
  er_status :: nat
  er_headers :: header_map
  er_body :: string

definition gateway_error_response :: "(error_body \<Rightarrow> string option) \<Rightarrow> gateway_error \<Rightarrow> string \<Rightarrow> error_response" where
  "gateway_error_response to_vec e request_id =
     (let body = (case to_vec (gateway_error_body e request_id) of Some b \<Rightarrow> b | None \<Rightarrow> ''{}'')
      in \<lparr>er_status = status_code e,
          er_headers =
            [(''content-type'', ''application/json''), (''content-length'', show_nat (length body)),
             (''cache-control'', ''private, no-store''), (''x-request-id'', request_id), (''x-relayna-request-id'', request_id)] @
            (case retry_after e of Some seconds \<Rightarrow> [(''retry-after'', show_nat seconds)] | None \<Rightarrow> []),
          er_body = body\<rparr>)"

definition closes_connection :: "gateway_error \<Rightarrow> pingora_context \<Rightarrow> bool" where
  "closes_connection e ctx =
     (pc_guardrail_error ctx \<noteq> None \<or>
      e \<in> {UpstreamTimeout, UpstreamConnection, AuthenticationOverloaded, SourceRateLimitExceeded, MalformedAuthorization})"

text \<open>What the client is sent, if a response was not already begun, and the status that is recorded.\<close>

definition fail_to_proxy ::
  "(error_body \<Rightarrow> string option) \<Rightarrow> proxy_error \<Rightarrow> bool \<Rightarrow> pingora_context \<Rightarrow> error_response option \<times> nat" where
  "fail_to_proxy to_vec e response_written ctx =
     (let respond = (\<lambda>r. if response_written then None else Some r)
      in case pc_guardrail_error ctx of
           Some gateway_error \<Rightarrow>
             (respond (gateway_error_response to_vec gateway_error (pc_request_id ctx)), status_code gateway_error)
         | None \<Rightarrow>
             if is_upstream_timeout_error e
             then (respond (gateway_error_response to_vec UpstreamTimeout (pc_request_id ctx)), status_code UpstreamTimeout)
             else
               let code = default_proxy_failure_status e;
                   public_error = (if pe_source e = FromUpstream then UpstreamConnection else InvalidConfiguration)
               in (if 0 < code
                   then respond ((gateway_error_response to_vec public_error (pc_request_id ctx))\<lparr>er_status := code\<rparr>) else None,
                   code))"

lemma answered_status:
  "fail_to_proxy to_vec e written ctx = (Some r, code) \<Longrightarrow> er_status r = code"
  by (auto simp: fail_to_proxy_def Let_def gateway_error_response_def split: option.splits if_splits)

section \<open>How many attempts there are\<close>

text \<open>What an attempt came to.\<close>

datatype attempt = ConnectFailed | ProxyFailed proxy_error bool bool | Answered nat

fun after_attempt :: "proxy_config \<Rightarrow> attempt \<Rightarrow> pingora_context \<Rightarrow> retry_call list \<times> pingora_context" where
  "after_attempt px ConnectFailed ctx = fail_to_connect px ctx"
| "after_attempt px (ProxyFailed e client_reused truncated) ctx = error_while_proxy px e client_reused truncated ctx"
| "after_attempt px (Answered status) ctx = answer_status px status ctx"

fun attempts :: "(retry_call list \<Rightarrow> bool) \<Rightarrow> proxy_config \<Rightarrow> attempt list \<Rightarrow> pingora_context \<Rightarrow> nat" where
  "attempts retries px [] ctx = 0"
| "attempts retries px (a # as) ctx =
     (case after_attempt px a ctx of
        (calls, ctx) \<Rightarrow> 1 + (if calls \<noteq> [] \<and> retries calls then attempts retries px as ctx else 0))"

fun on_reused_connection :: "attempt \<Rightarrow> bool" where
  "on_reused_connection (ProxyFailed e client_reused truncated) = (client_reused \<and> \<not> truncated)"
| "on_reused_connection _ = False"

text \<open>The fallback is available once.\<close>

definition fallbacks_left :: "pingora_context \<Rightarrow> nat" where
  "fallbacks_left ctx = (if 0 < pc_fallback_count ctx then 0 else 1)"

lemma fallback_once:
  "activate_provider_fallback px ctx = (used, ctx') \<Longrightarrow>
   (used \<longrightarrow> fallbacks_left ctx = 1 \<and> fallbacks_left ctx' = 0) \<and> (\<not> used \<longrightarrow> ctx' = ctx)"
  by (auto simp: activate_provider_fallback_def fallbacks_left_def split: option.splits if_splits)

lemma error_while_proxy_calls:
  assumes "error_while_proxy px e client_reused truncated ctx = (calls, ctx')"
  obtains "calls = [SetRetry False]"
    | "calls = [DecideReuse (client_reused \<and> \<not> truncated)]" "ctx' = ctx"
    | "calls = [DecideReuse (client_reused \<and> \<not> truncated), SetRetry True]" "fallbacks_left ctx = 1" "fallbacks_left ctx' = 0"
proof -
  obtain used c where act: "activate_provider_fallback px ctx = (used, c)" by (cases "activate_provider_fallback px ctx")
  show thesis
    using assms that fallback_once [OF act]
    by (cases "pc_socket ctx"; cases "is_retry_safe_proxy_error e"; cases used) (auto simp: error_while_proxy_def act)
qed

lemma attempts_bounded:
  assumes set_last: "\<And>cs b. retries (cs @ [SetRetry b]) = b" and reuse: "\<not> retries [DecideReuse False]"
  shows "attempts retries px as ctx \<le> 1 + fallbacks_left ctx + length (filter on_reused_connection as)"
proof (induction as arbitrary: ctx)
  case (Cons a as)
  obtain calls ctx' where step: "after_attempt px a ctx = (calls, ctx')" by (cases "after_attempt px a ctx")
  have set_only: "retries [SetRetry b] = b" for b using set_last [of "[]" b] by simp
  have "fallbacks_left ctx' + 1 \<le> fallbacks_left ctx + (if on_reused_connection a then 1 else 0)"
    if "calls \<noteq> []" "retries calls"
  proof (cases a)
    case ConnectFailed
    obtain used c where act: "activate_provider_fallback px ctx = (used, c)" by (cases "activate_provider_fallback px ctx")
    then have "calls = [SetRetry used]" "ctx' = c" using step ConnectFailed by (simp_all add: fail_to_connect_def)
    then show ?thesis using that(2) set_only fallback_once [OF act] by simp
  next
    case (ProxyFailed e client_reused truncated)
    then have "error_while_proxy px e client_reused truncated ctx = (calls, ctx')" using step by simp
    then show ?thesis
    proof (cases rule: error_while_proxy_calls)
      case 2
      then have "client_reused \<and> \<not> truncated" using that(2) reuse by (cases "client_reused \<and> \<not> truncated") auto
      with 2 ProxyFailed show ?thesis by simp
    qed (use that(2) set_only in auto)
  next
    case (Answered status)
    obtain used c where act: "activate_provider_fallback px ctx = (used, c)" by (cases "activate_provider_fallback px ctx")
    then have used "ctx' = c"
      using that(1) step Answered by (cases used; auto simp: answer_status_def split: if_splits)+
    then show ?thesis using fallback_once [OF act] by simp
  qed
  then show ?case using Cons.IH [of ctx'] step by (auto split: if_splits)
qed simp

text \<open>
  C12 (termination): the attempts at an upstream come to an end: if Pingora retries after a call of \<open>set_retry\<close> as
  told and not after \<open>decide_reuse(false)\<close>, a request makes at most two attempts, one of them the fallback, plus one for every
  failure on a reused connection whose request can be replayed, however long the upstream keeps failing. A WebSocket and
  a request bound to Accessa are never sent to a second provider.
\<close>

theorem attempts_terminate:
  assumes "\<And>cs b. retries (cs @ [SetRetry b]) = b" and "\<not> retries [DecideReuse False]"
  shows "attempts retries px outcomes ctx \<le> 2 + length (filter on_reused_connection outcomes)
    \<and> ((pc_socket ctx \<or> ea_accessa (pc_access ctx) \<noteq> None) \<longrightarrow>
        (\<forall>a. pc_fallback_count (snd (after_attempt px a ctx)) = pc_fallback_count ctx))"
proof (intro conjI impI allI)
  have "fallbacks_left ctx \<le> 1" by (simp add: fallbacks_left_def)
  then show "attempts retries px outcomes ctx \<le> 2 + length (filter on_reused_connection outcomes)"
    using attempts_bounded [of retries px outcomes ctx] assms by simp
next
  fix a assume "pc_socket ctx \<or> ea_accessa (pc_access ctx) \<noteq> None"
  then have none: "activate_provider_fallback px ctx = (False, ctx)" by (simp add: activate_provider_fallback_def)
  show "pc_fallback_count (snd (after_attempt px a ctx)) = pc_fallback_count ctx"
    by (cases a) (simp_all add: fail_to_connect_def error_while_proxy_def answer_status_def Let_def none)
qed

theorem attempts_terminate_witness:
  "attempts (\<lambda>calls. last calls = SetRetry True) sample_proxy (replicate 5 ConnectFailed) (new_ctx sample_proxy ''r'' ''s'') \<le> 2"
  using attempts_terminate [of "\<lambda>calls. last calls = SetRetry True" sample_proxy "replicate 5 ConnectFailed"
    "new_ctx sample_proxy ''r'' ''s''", THEN conjunct1]
  by simp

end
