(* ===== verification/Service_Cost_Context.thy ===== *)
theory Service_Cost_Context
  imports Proxy_Context Response_Cost
begin

text \<open>
  The cost of a request to an internal service (\<open>gateway-proxy/src/pingora_plane.rs\<close>): the pricing a registration gives to the
  context, the estimate that is reserved before the body is read, the cost resolved from the body or from the fields of a form,
  and the cost that is recorded. The multipart reader is the parameter \<open>form_reader\<close>: the fields of the body with
  their chunks, where a missing chunk is a read that failed, and whether the fields end with an error.
\<close>

section \<open>The selector\<close>

record form_field =
  ff_name :: "string option"
  ff_has_file_name :: bool
  ff_chunks :: "string option list"

record form_reader =
  fm_boundary :: "string \<Rightarrow> string option"
  fm_fields :: "string \<Rightarrow> string \<Rightarrow> nat \<Rightarrow> form_field list \<times> bool"
  fm_from_slice :: "string \<Rightarrow> json option"

definition max_multipart_pricing_fields :: nat where
  "max_multipart_pricing_fields = 128"

definition max_multipart_pricing_field_name_bytes :: nat where
  "max_multipart_pricing_field_name_bytes = 256"

definition max_multipart_pricing_field_value_bytes :: nat where
  "max_multipart_pricing_field_value_bytes = 16 * 1024"

definition max_multipart_pricing_metadata_bytes :: nat where
  "max_multipart_pricing_metadata_bytes = 64 * 1024"

text \<open>The value of a field: absent when a chunk cannot be read, with the mark of an oversized one.\<close>

fun field_value :: "bool \<Rightarrow> nat \<Rightarrow> string \<Rightarrow> bool \<Rightarrow> string option list \<Rightarrow> (string \<times> bool) option" where
  "field_value retain retained v oversized [] = Some (v, oversized)"
| "field_value retain retained v oversized (None # cs) = None"
| "field_value retain retained v oversized (Some c # cs) =
     (if \<not> retain \<or> oversized then field_value retain retained v oversized cs
      else
        let field_len = saturating_add (length v) (length c); total_len = saturating_add retained field_len
        in if max_multipart_pricing_field_value_bytes < field_len \<or> max_multipart_pricing_metadata_bytes < total_len
           then field_value retain retained [] True cs
           else field_value retain retained (v @ c) False cs)"

record form_selector =
  fs_selector :: "json btree_map"
  fs_retained_bytes :: nat
  fs_retained_fields :: nat

definition selector_name :: "form_field \<Rightarrow> string option" where
  "selector_name f =
     (case ff_name f of
        Some n \<Rightarrow> if length n \<le> max_multipart_pricing_field_name_bytes then Some n else None
      | None \<Rightarrow> None)"

definition retained_field :: "form_selector \<Rightarrow> form_field \<Rightarrow> bool" where
  "retained_field s f =
     (\<not> ff_has_file_name f \<and> selector_name f \<noteq> None \<and> fs_retained_fields s < max_multipart_pricing_fields)"

definition select_field :: "form_selector \<Rightarrow> form_field \<Rightarrow> form_selector option" where
  "select_field s f =
     (case field_value (retained_field s f) (fs_retained_bytes s) [] False (ff_chunks f) of
        None \<Rightarrow> None
      | Some (v, oversized) \<Rightarrow>
          if \<not> retained_field s f \<or> oversized then Some s
          else
            let s = s\<lparr>fs_retained_fields := saturating_add (fs_retained_fields s) 1\<rparr>
            in if \<not> valid_utf8 v then Some s
               else
                 let s = s\<lparr>fs_retained_bytes := saturating_add (fs_retained_bytes s) (length v)\<rparr>
                 in case selector_name f of
                      None \<Rightarrow> Some s
                    | Some n \<Rightarrow> Some (s\<lparr>fs_selector := bt_insert n (JString v) (fs_selector s)\<rparr>))"

fun select_fields :: "form_selector \<Rightarrow> form_field list \<Rightarrow> form_selector option" where
  "select_fields s [] = Some s"
| "select_fields s (f # fs) = Option.bind (select_field s f) (\<lambda>s. select_fields s fs)"

definition service_pricing_selector :: "form_reader \<Rightarrow> string \<Rightarrow> string option \<Rightarrow> nat \<Rightarrow> json option" where
  "service_pricing_selector fm body content_type max_body_bytes =
     (case Option.bind content_type (fm_boundary fm) of
        None \<Rightarrow> fm_from_slice fm body
      | Some boundary \<Rightarrow>
          (case fm_fields fm body boundary (min max_body_bytes (2 ^ 64 - 1)) of
             (form, failed) \<Rightarrow>
               Option.bind (select_fields \<lparr>fs_selector = [], fs_retained_bytes = 0, fs_retained_fields = 0\<rparr> form) (\<lambda>s.
                 if failed then None else Some (JObject (fs_selector s)))))"

section \<open>Costs\<close>

definition base_service_cost :: "pingora_context \<Rightarrow> resolved_service_cost" where
  "base_service_cost ctx =
     (case pc_resolved_endpoint_cost ctx of
        Some c \<Rightarrow> c
      | None \<Rightarrow>
          default_service_cost (case pc_service_cost_mode ctx of Some m \<Rightarrow> m | None \<Rightarrow> NoCost) (pc_service_estimated_cost_usd ctx))"

definition with_service_cost :: "pingora_context \<Rightarrow> route_match \<Rightarrow> f64 option \<Rightarrow> resolved_service_cost \<Rightarrow> pingora_context" where
  "with_service_cost ctx matched estimate resolved =
     ctx\<lparr>pc_route_match := Some (matched\<lparr>rm_estimated_cost_usd := estimate\<rparr>), pc_resolved_service_cost := Some resolved\<rparr>"

definition free_endpoint :: "pingora_context \<Rightarrow> bool" where
  "free_endpoint ctx = (pc_resolved_endpoint_cost ctx \<noteq> None \<and> rc_cost_mode (base_service_cost ctx) = NoCost)"

definition prepare_service_cost_for_ctx :: "pingora_context \<Rightarrow> pingora_context" where
  "prepare_service_cost_for_ctx ctx =
     (case pc_route_match ctx of
        None \<Rightarrow> ctx
      | Some matched \<Rightarrow>
          if rm_provider matched \<noteq> InternalService then ctx
          else let base = base_service_cost ctx
               in if free_endpoint ctx then with_service_cost ctx matched None base
                  else with_service_cost ctx matched
                    (service_preflight_estimated_cost (rc_cost_mode base) (rc_estimated_cost_usd base) (pc_service_pricing_rules ctx)) base)"

definition selected_cost :: "service_env \<Rightarrow> pingora_context \<Rightarrow> json option \<Rightarrow> resolved_service_cost" where
  "selected_cost env ctx selector =
     (let base = base_service_cost ctx
      in case selector of
           None \<Rightarrow> base
         | Some v \<Rightarrow>
             let resolved = resolve_service_cost_from_value env v (rc_cost_mode base) (rc_estimated_cost_usd base) (pc_service_pricing_rules ctx)
             in if matching_service_pricing_rule env v (pc_service_pricing_rules ctx) \<noteq> None then resolved
                else resolved\<lparr>rc_pricing_rule_name := rc_pricing_rule_name base,
                  rc_pricing_rule_fingerprint := rc_pricing_rule_fingerprint base\<rparr>)"

definition resolve_service_cost_for_ctx :: "service_env \<Rightarrow> pingora_context \<Rightarrow> json option \<Rightarrow> pingora_context" where
  "resolve_service_cost_for_ctx env ctx selector =
     (case pc_route_match ctx of
        None \<Rightarrow> ctx
      | Some matched \<Rightarrow>
          if rm_provider matched \<noteq> InternalService then ctx
          else if free_endpoint ctx then with_service_cost ctx matched None (base_service_cost ctx)
          else let resolved = selected_cost env ctx selector
               in with_service_cost ctx matched
                    (if rc_cost_mode resolved = FixedCost then rc_estimated_cost_usd resolved else None) resolved)"

definition configure_service_pricing_context ::
  "service_env \<Rightarrow> pingora_context \<Rightarrow> service_registration \<Rightarrow> string \<Rightarrow> string \<Rightarrow> pingora_context" where
  "configure_service_pricing_context env ctx registration meth public_path =
     (let endpoint_path = (case route_pattern_wildcard_suffix public_path (sr_route_pattern registration) of
            Some p \<Rightarrow> p | None \<Rightarrow> public_path)
      in ctx\<lparr>pc_service_cost_mode := Some (sr_cost_mode registration),
             pc_service_estimated_cost_usd := sr_estimated_cost_usd registration,
             pc_service_pricing_rules := sr_pricing_rules registration,
             pc_http_method := Some (to_ascii_uppercase meth), pc_endpoint_path := Some endpoint_path,
             pc_endpoint_template :=
               map_option oe_path_template (matching_openapi_endpoint meth endpoint_path (sr_openapi_endpoints registration)),
             pc_resolved_endpoint_cost :=
               resolve_endpoint_pricing_rule env meth endpoint_path (sr_endpoint_pricing_rules registration)\<rparr>)"

record resolved_usage_cost =
  ru_estimated_cost_usd :: "f64 option"
  ru_cost_source :: "string option"
  ru_cost_mode :: "service_cost_mode option"
  ru_pricing_rule_name :: "string option"

definition passthrough_cost :: "(string \<Rightarrow> json option) \<Rightarrow> observer \<Rightarrow> pingora_context \<Rightarrow> f64 option" where
  "passthrough_cost parse ob ctx =
     (if has_input ob then observer_cost ob else extract_estimated_cost_usd parse (pc_response_body_prefix ctx))"

definition service_usage_cost :: "(string \<Rightarrow> json option) \<Rightarrow> observer \<Rightarrow> pingora_context \<Rightarrow> resolved_service_cost \<Rightarrow> resolved_usage_cost" where
  "service_usage_cost parse ob ctx c =
     (let name = rc_pricing_rule_name c; from_rule = (name \<noteq> None)
      in case rc_cost_mode c of
           NoCost \<Rightarrow> \<lparr>ru_estimated_cost_usd = None, ru_cost_source = Some ''none'', ru_cost_mode = Some NoCost, ru_pricing_rule_name = name\<rparr>
         | FixedCost \<Rightarrow>
             \<lparr>ru_estimated_cost_usd = rc_estimated_cost_usd c,
              ru_cost_source = Some (if from_rule then ''service_pricing_rule_fixed'' else ''service_default_fixed''),
              ru_cost_mode = Some FixedCost, ru_pricing_rule_name = name\<rparr>
         | PassthroughCost \<Rightarrow>
             let upstream_cost = passthrough_cost parse ob ctx
             in \<lparr>ru_estimated_cost_usd = upstream_cost,
                 ru_cost_source = Some (if upstream_cost \<noteq> None
                   then if from_rule then ''service_pricing_rule_passthrough'' else ''service_default_passthrough''
                   else ''missing_upstream_cost''),
                 ru_cost_mode = Some PassthroughCost, ru_pricing_rule_name = name\<rparr>)"

definition resolved_usage_cost_for :: "(string \<Rightarrow> json option) \<Rightarrow> observer \<Rightarrow> pingora_context \<Rightarrow> resolved_usage_cost" where
  "resolved_usage_cost_for parse ob ctx =
     (if pc_socket ctx \<or> pc_litellm_passthrough ctx \<or> ea_accessa (pc_access ctx) \<noteq> None
      then \<lparr>ru_estimated_cost_usd = None, ru_cost_source = Some ''none'', ru_cost_mode = Some NoCost, ru_pricing_rule_name = None\<rparr>
      else case pc_resolved_service_cost ctx of
             Some c \<Rightarrow> service_usage_cost parse ob ctx c
           | None \<Rightarrow>
               (case extract_estimated_cost_usd parse (pc_response_body_prefix ctx) of
                  Some cost \<Rightarrow> \<lparr>ru_estimated_cost_usd = Some cost, ru_cost_source = Some ''upstream_passthrough'',
                    ru_cost_mode = None, ru_pricing_rule_name = None\<rparr>
                | None \<Rightarrow>
                    let route_cost = Option.bind (pc_route_match ctx) rm_estimated_cost_usd
                    in \<lparr>ru_estimated_cost_usd = route_cost, ru_cost_source = map_option (\<lambda>_. ''route_default'') route_cost,
                        ru_cost_mode = None, ru_pricing_rule_name = None\<rparr>))"

section \<open>What a form leaves behind\<close>

definition selector_bytes :: "json btree_map \<Rightarrow> nat" where
  "selector_bytes m = sum_list (map (\<lambda>(_, v). case v of JString x \<Rightarrow> length x | _ \<Rightarrow> 0) m)"

definition selector_ok :: "form_selector \<Rightarrow> bool" where
  "selector_ok s =
     (selector_bytes (fs_selector s) \<le> fs_retained_bytes s \<and> fs_retained_bytes s \<le> max_multipart_pricing_metadata_bytes \<and>
      length (fs_selector s) \<le> fs_retained_fields s \<and> fs_retained_fields s \<le> max_multipart_pricing_fields \<and>
      (\<forall>(n, v) \<in> set (fs_selector s). length n \<le> max_multipart_pricing_field_name_bytes))"

lemmas multipart_limits = max_multipart_pricing_fields_def max_multipart_pricing_field_name_bytes_def
  max_multipart_pricing_field_value_bytes_def max_multipart_pricing_metadata_bytes_def

lemma oversized_stays: "field_value True retained v True cs = Some (w, oversized) \<Longrightarrow> oversized"
proof (induction cs)
  case (Cons c cs)
  then show ?case by (cases c) simp_all
qed simp

lemma saturating_bound: "saturating_add a b \<le> n \<Longrightarrow> n < 2 ^ 64 - 1 \<Longrightarrow> a + b \<le> n"
  by (simp add: saturating_add_def min_def split: if_splits)

lemma field_value_bounded:
  assumes "field_value True retained v False cs = Some (w, False)" "retained + length v \<le> max_multipart_pricing_metadata_bytes"
  shows "retained + length w \<le> max_multipart_pricing_metadata_bytes"
  using assms
proof (induction cs arbitrary: v)
  case (Cons c cs)
  then obtain x where c: "c = Some x" by (cases c) simp_all
  let ?len = "saturating_add (length v) (length x)"
  let ?over = "max_multipart_pricing_field_value_bytes < ?len \<or> max_multipart_pricing_metadata_bytes < saturating_add retained ?len"
  have step: "field_value True retained v False (c # cs) =
      (if ?over then field_value True retained [] True cs else field_value True retained (v @ x) False cs)"
    by (simp add: c Let_def)
  have fits: "\<not> ?over" using oversized_stays [of retained "[]" cs w False] Cons.prems(1) step by (auto split: if_splits)
  then have len: "length v + length x \<le> max_multipart_pricing_field_value_bytes"
    by (intro saturating_bound) (simp_all add: multipart_limits)
  then have "?len = length v + length x" by (simp add: saturating_add_def multipart_limits)
  then have "retained + length (v @ x) \<le> max_multipart_pricing_metadata_bytes"
    using fits saturating_bound [of retained ?len max_multipart_pricing_metadata_bytes] by (simp add: multipart_limits)
  moreover have "field_value True retained (v @ x) False cs = Some (w, False)"
    using Cons.prems(1) step fits by simp
  ultimately show ?case by (intro Cons.IH)
qed simp

lemma insert_bytes: "selector_bytes (bt_insert n (JString v) m) \<le> selector_bytes m + length v"
  by (induction n "JString v" m rule: bt_insert.induct) (simp_all add: selector_bytes_def)

lemma insert_length: "length (bt_insert n x m) \<le> Suc (length m)"
  by (induction n x m rule: bt_insert.induct) simp_all

lemma select_field_ok:
  assumes "selector_ok s" "select_field s f = Some s'"
  shows "selector_ok s'"
proof -
  obtain v oversized where v: "field_value (retained_field s f) (fs_retained_bytes s) [] False (ff_chunks f) = Some (v, oversized)"
    using assms(2) by (auto simp: select_field_def split: option.splits)
  show ?thesis
  proof (cases "\<not> retained_field s f \<or> oversized")
    case True
    then have "s' = s" using assms(2) v by (simp add: select_field_def)
    then show ?thesis using assms(1) by simp
  next
    case False
    then have r: "retained_field s f" "\<not> oversized" by simp_all
    have total: "fs_retained_bytes s + length v \<le> max_multipart_pricing_metadata_bytes"
      using field_value_bounded v r assms(1) by (simp add: selector_ok_def)
    then have sat: "saturating_add (fs_retained_bytes s) (length v) = fs_retained_bytes s + length v"
      "saturating_add (fs_retained_fields s) (Suc 0) = fs_retained_fields s + 1"
      using r(1) by (simp_all add: saturating_add_def multipart_limits retained_field_def)
    obtain n where n: "selector_name f = Some n" "length n \<le> max_multipart_pricing_field_name_bytes"
      using r(1) by (auto simp: retained_field_def selector_name_def split: option.splits if_splits)
    have "s' = s\<lparr>fs_retained_fields := fs_retained_fields s + 1\<rparr> \<or>
        s' = s\<lparr>fs_retained_fields := fs_retained_fields s + 1, fs_retained_bytes := fs_retained_bytes s + length v,
          fs_selector := bt_insert n (JString v) (fs_selector s)\<rparr>"
      using assms(2) v r n sat by (simp add: select_field_def Let_def split: if_splits)
    moreover have "selector_bytes (bt_insert n (JString v) (fs_selector s)) \<le> fs_retained_bytes s + length v"
      "length (bt_insert n (JString v) (fs_selector s)) \<le> fs_retained_fields s + 1"
      using assms(1) insert_bytes [of n v "fs_selector s"] insert_length [of n "JString v" "fs_selector s"]
      by (simp_all add: selector_ok_def)
    moreover have "\<forall>(k, x) \<in> set (bt_insert n (JString v) (fs_selector s)). length k \<le> max_multipart_pricing_field_name_bytes"
    proof -
      have "\<forall>(k, x) \<in> insert (n, JString v) (set (fs_selector s)). length k \<le> max_multipart_pricing_field_name_bytes"
        using assms(1) n(2) by (simp add: selector_ok_def)
      then show ?thesis using bt_insert_subset [of n "JString v" "fs_selector s"] by blast
    qed
    moreover have "fs_retained_fields s + 1 \<le> max_multipart_pricing_fields" using r(1) by (simp add: retained_field_def)
    ultimately show ?thesis using assms(1) total by (elim disjE) (simp_all add: selector_ok_def)
  qed
qed

lemma select_fields_ok: "selector_ok s \<Longrightarrow> select_fields s fs = Some s' \<Longrightarrow> selector_ok s'"
  by (induction fs arbitrary: s) (auto simp: bind_eq_Some_conv dest: select_field_ok)

text \<open>Of a form of any size the selector keeps at most 128 fields with short names and 64 KiB of values.\<close>

theorem selector_bounded:
  assumes "service_pricing_selector fm body content_type max_body_bytes = Some (JObject m)"
    and "Option.bind content_type (fm_boundary fm) = Some boundary"
  shows "selector_bytes m \<le> 64 * 1024 \<and> length m \<le> 128 \<and> (\<forall>(n, v) \<in> set m. length n \<le> 256)"
proof -
  from assms obtain s form where s: "select_fields \<lparr>fs_selector = [], fs_retained_bytes = 0, fs_retained_fields = 0\<rparr> form = Some s"
    and m: "m = fs_selector s"
    by (auto simp: service_pricing_selector_def bind_eq_Some_conv split: prod.splits if_splits)
  have "selector_ok s" by (rule select_fields_ok [OF _ s]) (simp add: selector_ok_def selector_bytes_def)
  then show ?thesis by (auto simp: selector_ok_def multipart_limits m)
qed

section \<open>What is reserved covers what is recorded\<close>

lemma with_service_cost_simps [simp]:
  "pc_route_match (with_service_cost ctx matched estimate resolved) = Some (matched\<lparr>rm_estimated_cost_usd := estimate\<rparr>)"
  "pc_resolved_service_cost (with_service_cost ctx matched estimate resolved) = Some resolved"
  "pc_service_pricing_rules (with_service_cost ctx matched estimate resolved) = pc_service_pricing_rules ctx"
  by (simp_all add: with_service_cost_def)

lemma base_unchanged [simp]: "base_service_cost (with_service_cost ctx matched estimate resolved) = base_service_cost ctx"
  "free_endpoint (with_service_cost ctx matched estimate resolved) = free_endpoint ctx"
  by (simp_all add: base_service_cost_def with_service_cost_def free_endpoint_def split: option.split)

lemma selected_cost_unchanged [simp]:
  "selected_cost env (with_service_cost ctx matched estimate resolved) selector = selected_cost env ctx selector"
  by (cases selector) (simp_all add: selected_cost_def)

lemma selected_fixed_cost:
  assumes "rc_cost_mode (selected_cost env ctx selector) = FixedCost" "rc_estimated_cost_usd (selected_cost env ctx selector) = Some cost"
  shows "cost \<in> set (fixed_costs (pc_service_pricing_rules ctx)) \<or>
    rc_cost_mode (base_service_cost ctx) = FixedCost \<and> rc_estimated_cost_usd (base_service_cost ctx) = Some cost"
proof (cases selector)
  case None
  then show ?thesis using assms by (simp add: selected_cost_def)
next
  case (Some v)
  then show ?thesis
    using assms resolved_fixed_cost [of env v "rc_cost_mode (base_service_cost ctx)" "rc_estimated_cost_usd (base_service_cost ctx)"]
    by (auto simp: selected_cost_def Let_def split: if_splits)
qed


definition sample_priced :: pingora_context where
  "sample_priced = (new_ctx sample_proxy ''r'' ''s'')\<lparr>
     pc_route_match := Some (service_match ServiceWildcard ''svc''),
     pc_service_cost_mode := Some FixedCost, pc_service_estimated_cost_usd := Some (Fin 2)\<rparr>"

lemma sample_priced_simps:
  "pc_route_match sample_priced = Some (service_match ServiceWildcard ''svc'')" "pc_service_pricing_rules sample_priced = []"
  "base_service_cost sample_priced = default_service_cost FixedCost (Some (Fin 2))" "\<not> free_endpoint sample_priced"
  "rm_provider (service_match ServiceWildcard ''svc'') = InternalService"
  "\<not> pc_socket sample_priced" "\<not> pc_litellm_passthrough sample_priced" "ea_accessa (pc_access sample_priced) = None"
  by (simp_all add: sample_priced_def new_ctx_def base_service_cost_def free_endpoint_def service_match_def default_endpoint_access_def)


end
