(* ===== verification/Entra_Verifier.thy ===== *)
theory Entra_Verifier
  imports Endpoint_Access Json_Values
begin

text \<open>
  Entra tokens (\<open>gateway-core/src/entra.rs\<close>): the verifier of a bearer token with its cache of signing keys, the refresh
  of the keys with its cooldown, the checks of the claims, and the authorization debug events every rejection leaves
  (\<open>gateway-telemetry/src/lib.rs\<close>). The JWT library, base64, JSON, the calendar and the network are parameters. Points in
  time of the calendar are nanoseconds since the epoch, instants of the monotonic clock nanoseconds since its start;
  an arithmetic operation of either that overflows panics, which is the outcome None.
\<close>

section \<open>Parameters\<close>

datatype jwt_algorithm = RS256 | RS384 | RS512 | OtherAlgorithm string

record jwt_header =
  jh_kid :: "string option"
  jh_alg :: jwt_algorithm

datatype jwt_error_kind =
    InvalidSignature
  | InvalidAlgorithm
  | MissingRequiredClaim
  | JwtJson
  | JwtBase64
  | JwtUtf8
  | OtherJwtError

record json_web_key =
  jw_kid :: "string option"
  jw_kty :: string
  jw_alg :: "string option"
  jw_n :: string
  jw_e :: string

record entra_claims =
  cl_iss :: string
  cl_aud :: json
  cl_exp :: int
  cl_nbf :: "int option"
  cl_iat :: "int option"
  cl_tid :: string
  cl_ver :: string
  cl_sub :: "string option"
  cl_oid :: "string option"
  cl_appid :: "string option"
  cl_azp :: "string option"
  cl_preferred_username :: "string option"
  cl_email :: "string option"
  cl_name :: "string option"
  cl_nonce :: "string option"
  cl_scp :: "string option"
  cl_roles :: "string list option"
  cl_groups :: "string list option"
  cl_hasgroups :: "bool option"
  cl_claim_names :: "json option"

record jwt_env =
  jv_decode_header :: "string \<Rightarrow> jwt_header option"
  jv_rsa_components :: "string \<Rightarrow> string \<Rightarrow> bool"
  jv_decode :: "string \<Rightarrow> string \<Rightarrow> string \<Rightarrow> jwt_algorithm \<Rightarrow> jwt_error_kind + entra_claims"
  jv_base64_url :: "string \<Rightarrow> string option"
  jv_from_slice :: "string \<Rightarrow> json option"
  jv_to_vec :: "json \<Rightarrow> string option"
  jv_rfc3339 :: "int \<Rightarrow> string"
  jv_from_timestamp :: "int \<Rightarrow> int option"
  jv_seconds :: "int \<Rightarrow> int option"
  jv_time_add :: "int \<Rightarrow> int \<Rightarrow> int option"
  jv_time_sub :: "int \<Rightarrow> int \<Rightarrow> int option"
  jv_instant_add :: "nat \<Rightarrow> nat \<Rightarrow> nat option"
  jv_header_name :: "string \<Rightarrow> bool"
  jv_client_builds :: bool
  jv_debug_enabled :: bool

text \<open>The calendar and the clock compute what their documentation says where they do not overflow.\<close>

definition nanos :: int where
  "nanos = 1000000000"

definition clock_exact :: "jwt_env \<Rightarrow> bool" where
  "clock_exact env \<longleftrightarrow>
     (\<forall>s t. jv_from_timestamp env s = Some t \<longrightarrow> t = s * nanos) \<and>
     (\<forall>s d. jv_seconds env s = Some d \<longrightarrow> d = s * nanos) \<and>
     (\<forall>t d u. jv_time_add env t d = Some u \<longrightarrow> u = t + d) \<and>
     (\<forall>t d u. jv_time_sub env t d = Some u \<longrightarrow> u = t - d) \<and>
     (\<forall>t d u. jv_instant_add env t d = Some u \<longrightarrow> u = t + d)"

text \<open>The network answers a GET with a failure or with a status and a body, None when reading it fails.\<close>

record request_failure =
  rf_is_timeout :: bool
  rf_is_connect :: bool
  rf_is_decode :: bool

record oidc_metadata =
  om_issuer :: string
  om_jwks_uri :: string

record oidc_network =
  on_get :: "string \<Rightarrow> request_failure + nat \<times> string option"
  on_metadata :: "string \<Rightarrow> oidc_metadata option"
  on_jwks :: "string \<Rightarrow> json_web_key list option"

section \<open>Configuration and state\<close>

record entra_auth_config =
  ec_tenant_id :: string
  ec_audience :: string
  ec_issuer :: string
  ec_oidc_discovery_url :: string
  ec_required_scope :: "string option"
  ec_required_role :: "string option"
  ec_allowed_groups :: "string list"
  ec_accepted_algorithms :: "string list"
  ec_relayna_key_header :: string
  ec_jwks_cache_ttl_seconds :: nat
  ec_clock_skew_seconds :: int

record cached_jwks =
  cj_keys :: "json_web_key list"
  cj_expires_at :: nat

record entra_verifier =
  ev_config :: entra_auth_config
  ev_cache :: "cached_jwks option"
  ev_cache_poisoned :: bool
  ev_refresh_attempt :: "nat option"

definition header_algorithm_name :: "jwt_algorithm \<Rightarrow> string" where
  "header_algorithm_name a =
     (case a of RS256 \<Rightarrow> ''RS256'' | RS384 \<Rightarrow> ''RS384'' | RS512 \<Rightarrow> ''RS512'' | OtherAlgorithm _ \<Rightarrow> ''unsupported'')"

definition algorithm_to_jsonwebtoken :: "string \<Rightarrow> jwt_algorithm option" where
  "algorithm_to_jsonwebtoken a =
     (if a = ''RS256'' then Some RS256 else if a = ''RS384'' then Some RS384
      else if a = ''RS512'' then Some RS512 else None)"

definition validate_relayna_key_header_name :: "(string \<Rightarrow> bool) \<Rightarrow> string \<Rightarrow> unit gateway_result" where
  "validate_relayna_key_header_name header_name_ok h =
     (if trim h = [] \<or> \<not> header_name_ok (trim h) then Err InvalidConfiguration else Ok ())"

definition entra_config_validate :: "(string \<Rightarrow> bool) \<Rightarrow> entra_auth_config \<Rightarrow> unit gateway_result" where
  "entra_config_validate header_name_ok c =
     (if trim (ec_tenant_id c) = [] \<or> trim (ec_audience c) = [] \<or> trim (ec_issuer c) = [] \<or>
         trim (ec_oidc_discovery_url c) = [] then Err InvalidConfiguration
      else if ec_accepted_algorithms c = [] \<or>
              list_ex (\<lambda>a. algorithm_to_jsonwebtoken a = None) (ec_accepted_algorithms c) then Err InvalidConfiguration
      else validate_relayna_key_header_name header_name_ok (ec_relayna_key_header c))"

definition entra_verifier_new :: "jwt_env \<Rightarrow> entra_auth_config \<Rightarrow> entra_verifier gateway_result" where
  "entra_verifier_new env c =
     and_then (entra_config_validate (jv_header_name env) c) (\<lambda>_.
     if jv_client_builds env
     then Ok \<lparr>ev_config = c, ev_cache = None, ev_cache_poisoned = False, ev_refresh_attempt = None\<rparr>
     else Err InvalidConfiguration)"

section \<open>Debug events\<close>

record entra_debug_context =
  dx_surface :: string
  dx_request_id :: "string option"

record debug_event =
  de_surface :: string
  de_phase :: string
  de_outcome :: string
  de_reason :: string
  de_request_id :: string
  de_details :: json

definition default_entra_debug_context :: entra_debug_context where
  "default_entra_debug_context = \<lparr>dx_surface = ''entra'', dx_request_id = None\<rparr>"

definition json_object :: "(string \<times> json) list \<Rightarrow> json" where
  "json_object kvs = JObject (bt_extend [] kvs)"

definition json_opt_string :: "string option \<Rightarrow> json" where
  "json_opt_string s = (case s of None \<Rightarrow> JNull | Some t \<Rightarrow> JString t)"

definition json_strings :: "string list \<Rightarrow> json" where
  "json_strings ss = JArray (map JString ss)"

definition json_i64 :: "int \<Rightarrow> json" where
  "json_i64 i = JNumber (if 0 \<le> i then PosInt (nat i) else NegInt i)"

definition source_label :: "entra_identity_source \<Rightarrow> string" where
  "source_label s = (case s of Jwt \<Rightarrow> ''jwt'' | ApigeeTrustedHeader \<Rightarrow> ''apigee_trusted_header'')"

definition authorization_debug_identity :: "entra_identity \<Rightarrow> json" where
  "authorization_debug_identity i = json_object
     [(''tenant_id'', JString (ei_tenant_id i)),
      (''subject'', json_opt_string (ei_subject i)),
      (''object_id'', json_opt_string (ei_object_id i)),
      (''app_id'', json_opt_string (ei_app_id i)),
      (''authorized_party'', json_opt_string (ei_authorized_party i)),
      (''email'', json_opt_string (ei_email i)),
      (''display_name'', json_opt_string (ei_display_name i)),
      (''nonce_present'', JBool (ei_nonce i \<noteq> None)),
      (''nonce_logged'', JBool False),
      (''scopes'', json_strings (ei_scopes i)),
      (''roles'', json_strings (ei_roles i)),
      (''groups'', json_strings (ei_groups i)),
      (''token_version'', JString (ei_token_version i)),
      (''source'', JString (source_label (ei_source i)))]"

definition bounded_authorization_debug_details :: "(json \<Rightarrow> string option) \<Rightarrow> json \<Rightarrow> json" where
  "bounded_authorization_debug_details to_vec details =
     (case to_vec details of
        Some serialized \<Rightarrow>
          if length serialized \<le> 65536 then details
          else json_object [(''truncated'', JBool True), (''serialized_bytes'', JNumber (PosInt (length serialized))),
                            (''maximum_bytes'', JNumber (PosInt 65536))]
      | None \<Rightarrow> json_object [(''serialization_failed'', JBool True)])"

definition authorization_debug ::
    "jwt_env \<Rightarrow> string \<Rightarrow> string \<Rightarrow> string \<Rightarrow> string \<Rightarrow> string option \<Rightarrow> json \<Rightarrow> debug_event list" where
  "authorization_debug env surface phase outcome reason request_id details =
     (if \<not> jv_debug_enabled env then []
      else [\<lparr>de_surface = surface, de_phase = phase, de_outcome = outcome, de_reason = reason,
             de_request_id = (case request_id of None \<Rightarrow> ''unknown'' | Some r \<Rightarrow> r),
             de_details = bounded_authorization_debug_details (jv_to_vec env) details\<rparr>])"

definition decode_jwt_segment :: "jwt_env \<Rightarrow> string \<Rightarrow> string + json" where
  "decode_jwt_segment env segment =
     and_then (ok_or (jv_base64_url env segment) ''base64url_invalid'') (\<lambda>decoded.
     ok_or (jv_from_slice env decoded) ''json_invalid'')"

definition transaction_claims :: "string list" where
  "transaction_claims = [''nonce'', ''at_hash'', ''c_hash'', ''s_hash'']"

definition redact_claim :: "json btree_map \<Rightarrow> string \<Rightarrow> json btree_map" where
  "redact_claim values k = (if bt_contains_key values k then bt_insert k (JString ''[redacted]'') values else values)"

definition redact_transaction_claims :: "json \<Rightarrow> json" where
  "redact_transaction_claims claims =
     (case claims of JObject values \<Rightarrow> JObject (foldl redact_claim values transaction_claims) | _ \<Rightarrow> claims)"

definition decode_error :: "string \<Rightarrow> json" where
  "decode_error reason = json_object [(''decode_error'', JString reason)]"

definition decoded_jwt_debug :: "jwt_env \<Rightarrow> string \<Rightarrow> json" where
  "decoded_jwt_debug env token =
     (case split_char (CHR ''.'') token of
        [] \<Rightarrow> decode_error ''header_segment_missing''
      | [_] \<Rightarrow> decode_error ''claims_segment_missing''
      | [h, claims, _] \<Rightarrow>
          json_object
            [(''header'', case decode_jwt_segment env h of Inl reason \<Rightarrow> decode_error reason | Inr v \<Rightarrow> v),
             (''claims'', case decode_jwt_segment env claims of
                            Inl reason \<Rightarrow> decode_error reason | Inr v \<Rightarrow> redact_transaction_claims v)]
      | _ \<Rightarrow> decode_error ''compact_segment_count_invalid'')"

definition expected_details :: "entra_auth_config \<Rightarrow> json" where
  "expected_details c = json_object
     [(''tenant_id'', JString (ec_tenant_id c)),
      (''audience'', JString (ec_audience c)),
      (''issuer'', JString (ec_issuer c)),
      (''required_scope'', json_opt_string (ec_required_scope c)),
      (''required_role'', json_opt_string (ec_required_role c)),
      (''allowed_groups'', json_strings (ec_allowed_groups c)),
      (''accepted_algorithms'', json_strings (ec_accepted_algorithms c)),
      (''clock_skew_seconds'', json_i64 (ec_clock_skew_seconds c))]"

definition emit_details ::
    "jwt_env \<Rightarrow> entra_auth_config \<Rightarrow> gateway_error option \<Rightarrow> string option \<Rightarrow> string \<Rightarrow> json \<Rightarrow> json" where
  "emit_details env c error token token_trust extra =
     (let d = bt_insert ''expected'' (expected_details c) [];
          d = (case error of None \<Rightarrow> d | Some e \<Rightarrow> bt_insert ''public_error_code'' (JString (error_code e)) d);
          d = (case token of None \<Rightarrow> d
               | Some t \<Rightarrow> bt_insert ''token'' (decoded_jwt_debug env t) (bt_insert ''token_trust'' (JString token_trust) d))
      in JObject (case extra of JObject e \<Rightarrow> bt_extend d e | _ \<Rightarrow> d))"

definition emit ::
    "jwt_env \<Rightarrow> entra_auth_config \<Rightarrow> entra_debug_context \<Rightarrow> string \<Rightarrow> string \<Rightarrow> string \<Rightarrow> gateway_error option \<Rightarrow>
     string option \<Rightarrow> string \<Rightarrow> json \<Rightarrow> debug_event list" where
  "emit env c ctx phase outcome reason error token token_trust extra =
     (if \<not> jv_debug_enabled env then []
      else authorization_debug env (dx_surface ctx) phase outcome reason (dx_request_id ctx)
             (emit_details env c error token token_trust extra))"

text \<open>What a call leaves: the events, and its result unless it panicked.\<close>

type_synonym 'a verdict = "debug_event list \<times> 'a gateway_result option"

definition accept :: "'a \<Rightarrow> 'a verdict" where
  "accept x = ([], Some (Ok x))"

definition reject ::
    "jwt_env \<Rightarrow> entra_auth_config \<Rightarrow> entra_debug_context \<Rightarrow> string \<Rightarrow> string \<Rightarrow> gateway_error \<Rightarrow>
     string option \<Rightarrow> string \<Rightarrow> json \<Rightarrow> 'a verdict" where
  "reject env c ctx phase reason error token token_trust extra =
     (emit env c ctx phase ''rejected'' reason (Some error) token token_trust extra, Some (Err error))"

definition verdict_then :: "'a verdict \<Rightarrow> ('a \<Rightarrow> 'b verdict) \<Rightarrow> 'b verdict" where
  "verdict_then m k =
     (case snd m of
        None \<Rightarrow> (fst m, None)
      | Some (Inl e) \<Rightarrow> (fst m, Some (Err e))
      | Some (Inr x) \<Rightarrow> (fst m @ fst (k x), snd (k x)))"

section \<open>Claims\<close>

type_synonym claim_failure = "gateway_error \<times> string"

definition validate_entra_authorization_detailed ::
    "string option \<Rightarrow> string option \<Rightarrow> string list \<Rightarrow> string list \<Rightarrow> string list \<Rightarrow> string list \<Rightarrow> string + unit" where
  "validate_entra_authorization_detailed required_scope required_role allowed_groups scopes roles groups =
     (if (case required_scope of None \<Rightarrow> False | Some s \<Rightarrow> s \<notin> set scopes) then Err ''required_scope_missing''
      else if (case required_role of None \<Rightarrow> False | Some r \<Rightarrow> r \<notin> set roles) then Err ''required_role_missing''
      else if allowed_groups \<noteq> [] \<and> \<not> list_ex (\<lambda>a. a \<in> set groups) allowed_groups then Err ''allowed_group_missing''
      else Ok ())"

definition has_group_overage :: "entra_claims \<Rightarrow> bool" where
  "has_group_overage c =
     (cl_hasgroups c = Some True \<or>
      (case cl_claim_names c of None \<Rightarrow> False | Some v \<Rightarrow> json_get v ''groups'' \<noteq> None))"

definition audience_contains :: "json \<Rightarrow> string \<Rightarrow> bool" where
  "audience_contains audience expected =
     (case audience of
        JString v \<Rightarrow> v = expected
      | JArray vs \<Rightarrow> list_ex (\<lambda>v. as_str v = Some expected) vs
      | _ \<Rightarrow> False)"

definition claim_audiences :: "json \<Rightarrow> string list" where
  "claim_audiences audience =
     (case audience of JString v \<Rightarrow> [v] | JArray vs \<Rightarrow> List.map_filter as_str vs | _ \<Rightarrow> [])"

text \<open>\<open>str::split_whitespace\<close>: the maximal pieces between characters of white space, none of them empty.\<close>

function split_words :: "string \<Rightarrow> string \<Rightarrow> string list" where
  "split_words word s =
     (case s of
        [] \<Rightarrow> if word = [] then [] else [word]
      | c # rest \<Rightarrow>
          (case strip_any_prefix white_space s of
             Some t \<Rightarrow>
               if length t < length s then (if word = [] then [] else [word]) @ split_words [] t else []
           | None \<Rightarrow> split_words (word @ [c]) rest))"
  by pat_completeness auto
termination
  by (relation "measure (\<lambda>(word, s). length s)") auto

definition split_whitespace :: "string \<Rightarrow> string list" where
  "split_whitespace s = split_words [] s"

definition split_scopes :: "string option \<Rightarrow> string list" where
  "split_scopes scopes = filter (\<lambda>s. s \<noteq> []) (split_whitespace (case scopes of None \<Rightarrow> [] | Some s \<Rightarrow> s))"

definition i64_saturating_sub :: "int \<Rightarrow> int \<Rightarrow> int" where
  "i64_saturating_sub a b = max (- i64_max - 1) (min i64_max (a - b))"

definition token_expired :: "jwt_env \<Rightarrow> int \<Rightarrow> int \<Rightarrow> int \<Rightarrow> bool option" where
  "token_expired env skew expiry now =
     (case jv_from_timestamp env expiry of
        None \<Rightarrow> Some True
      | Some t \<Rightarrow> map_option (\<lambda>u. u \<le> now) (jv_time_add env t skew))"

definition in_future :: "jwt_env \<Rightarrow> int \<Rightarrow> int option \<Rightarrow> int \<Rightarrow> bool option" where
  "in_future env skew stamp now =
     (case Option.bind stamp (jv_from_timestamp env) of
        None \<Rightarrow> Some False
      | Some t \<Rightarrow> map_option (\<lambda>u. now < u) (jv_time_sub env t skew))"

text \<open>One check of the claims: a panic ends the call, a failure carries its error and its reason.\<close>

definition fail_when ::
    "bool option \<Rightarrow> gateway_error \<Rightarrow> string \<Rightarrow> (claim_failure + 'a) option \<Rightarrow> (claim_failure + 'a) option" where
  "fail_when condition e reason rest =
     (case condition of None \<Rightarrow> None | Some b \<Rightarrow> if b then Some (Err (e, reason)) else rest)"

definition claims_identity :: "entra_claims \<Rightarrow> entra_identity" where
  "claims_identity c =
     \<lparr>ei_audiences = claim_audiences (cl_aud c),
      ei_expires_at = Some (cl_exp c),
      ei_tenant_id = cl_tid c,
      ei_subject = cl_sub c,
      ei_object_id = cl_oid c,
      ei_app_id = cl_appid c,
      ei_authorized_party = cl_azp c,
      ei_email = (case cl_preferred_username c of None \<Rightarrow> cl_email c | Some u \<Rightarrow> Some u),
      ei_display_name = cl_name c,
      ei_nonce = cl_nonce c,
      ei_scopes = split_scopes (cl_scp c),
      ei_roles = (case cl_roles c of None \<Rightarrow> [] | Some rs \<Rightarrow> rs),
      ei_groups = (case cl_groups c of None \<Rightarrow> [] | Some gs \<Rightarrow> gs),
      ei_token_version = cl_ver c,
      ei_source = Jwt\<rparr>"

definition configured_authorization :: "entra_auth_config \<Rightarrow> entra_identity \<Rightarrow> string + unit" where
  "configured_authorization cfg i =
     validate_entra_authorization_detailed (ec_required_scope cfg) (ec_required_role cfg) (ec_allowed_groups cfg)
       (ei_scopes i) (ei_roles i) (ei_groups i)"

definition endpoint_time :: "entra_auth_config \<Rightarrow> int \<Rightarrow> int" where
  "endpoint_time cfg now = i64_saturating_sub (now div nanos) (ec_clock_skew_seconds cfg)"

definition claims_authorized ::
    "entra_auth_config \<Rightarrow> endpoint_entra_policy option \<Rightarrow> int \<Rightarrow> entra_identity \<Rightarrow> claim_failure + entra_identity" where
  "claims_authorized cfg endpoint now i =
     (case endpoint of
        None \<Rightarrow>
          (case configured_authorization cfg i of
             Inl reason \<Rightarrow> Err (InsufficientEntraAuthorization, reason) | Inr _ \<Rightarrow> Ok i)
      | Some policy \<Rightarrow>
          (case entra_authorize policy i (endpoint_time cfg now) of
             Inl e \<Rightarrow> Err (e, ''endpoint_authorization_failed'') | Inr _ \<Rightarrow> Ok i))"

definition validate_claims_for_endpoint ::
    "jwt_env \<Rightarrow> entra_auth_config \<Rightarrow> entra_claims \<Rightarrow> int \<Rightarrow> endpoint_entra_policy option \<Rightarrow>
     (claim_failure + entra_identity) option" where
  "validate_claims_for_endpoint env cfg c now endpoint =
     fail_when (Some (cl_iss c \<noteq> ec_issuer cfg)) InvalidEntraIssuer ''issuer_mismatch'' (
     fail_when (Some (cl_tid c \<noteq> ec_tenant_id cfg)) InvalidEntraIssuer ''tenant_mismatch'' (
     fail_when (Some (\<not> audience_contains (cl_aud c) (case endpoint of None \<Rightarrow> ec_audience cfg | Some p \<Rightarrow> ee_audience p)))
       InvalidEntraAudience ''audience_mismatch'' (
     case jv_seconds env (ec_clock_skew_seconds cfg) of
       None \<Rightarrow> None
     | Some skew \<Rightarrow>
     fail_when (token_expired env skew (cl_exp c) now) ExpiredEntraToken ''token_expired'' (
     fail_when (in_future env skew (cl_nbf c) now) InvalidEntraToken ''token_not_yet_valid'' (
     fail_when (in_future env skew (cl_iat c) now) InvalidEntraToken ''issued_at_in_future'' (
     fail_when (Some (cl_ver c \<noteq> ''1.0'' \<and> cl_ver c \<noteq> ''2.0'')) InvalidEntraToken ''token_version_unsupported'' (
     fail_when (Some (has_group_overage c)) InsufficientEntraAuthorization ''group_overage_not_supported'' (
     Some (claims_authorized cfg endpoint now (claims_identity c))))))))))"

section \<open>Keys\<close>

text \<open>A cooldown of 30 seconds.\<close>

definition jwks_refresh_cooldown :: nat where
  "jwks_refresh_cooldown = 30000000000"

definition cached_key :: "entra_verifier \<Rightarrow> nat \<Rightarrow> string \<Rightarrow> json_web_key option gateway_result" where
  "cached_key v now kid =
     (if ev_cache_poisoned v then Err InvalidEntraToken
      else Ok (case ev_cache v of
                 Some cache \<Rightarrow>
                   if now < cj_expires_at cache then find (\<lambda>k. jw_kid k = Some kid) (cj_keys cache) else None
               | None \<Rightarrow> None))"

definition request_error_reason :: "request_failure \<Rightarrow> string" where
  "request_error_reason e =
     (if rf_is_timeout e then ''network_timeout''
      else if rf_is_connect e then ''network_connect_failed''
      else if rf_is_decode e then ''response_decode_failed''
      else ''network_request_failed'')"

definition jwt_error_reason :: "jwt_error_kind \<Rightarrow> string" where
  "jwt_error_reason e =
     (case e of
        InvalidSignature \<Rightarrow> ''invalid_signature''
      | InvalidAlgorithm \<Rightarrow> ''invalid_algorithm''
      | MissingRequiredClaim \<Rightarrow> ''required_claim_missing''
      | JwtJson \<Rightarrow> ''claim_json_invalid''
      | JwtBase64 \<Rightarrow> ''base64url_invalid''
      | JwtUtf8 \<Rightarrow> ''utf8_invalid''
      | OtherJwtError \<Rightarrow> ''jwt_verification_failed'')"

definition is_success :: "nat \<Rightarrow> bool" where
  "is_success status = (200 \<le> status \<and> status < 300)"

definition upstream_status :: "nat \<Rightarrow> json" where
  "upstream_status status = json_object [(''upstream_status'', JNumber (PosInt status))]"

text \<open>The discovery document of the configured tenant.\<close>

definition discover ::
    "jwt_env \<Rightarrow> oidc_network \<Rightarrow> entra_auth_config \<Rightarrow> entra_debug_context \<Rightarrow> string \<Rightarrow> oidc_metadata verdict" where
  "discover env net cfg ctx token =
     (case on_get net (ec_oidc_discovery_url cfg) of
        Inl e \<Rightarrow> reject env cfg ctx ''oidc_discovery'' (request_error_reason e) InvalidEntraToken (Some token) ''unverified'' JNull
      | Inr (status, body) \<Rightarrow>
          if \<not> is_success status
          then reject env cfg ctx ''oidc_discovery'' ''discovery_http_status'' InvalidEntraToken (Some token) ''unverified''
                 (upstream_status status)
          else case Option.bind body (on_metadata net) of
            None \<Rightarrow> reject env cfg ctx ''oidc_discovery'' ''discovery_json_invalid'' InvalidEntraToken (Some token)
                       ''unverified'' JNull
          | Some metadata \<Rightarrow>
              if om_issuer metadata \<noteq> ec_issuer cfg
              then reject env cfg ctx ''oidc_discovery'' ''discovery_issuer_mismatch'' InvalidEntraIssuer (Some token)
                     ''unverified'' (json_object [(''discovered_issuer'', JString (om_issuer metadata))])
              else accept metadata)"

definition fetch_jwks ::
    "jwt_env \<Rightarrow> oidc_network \<Rightarrow> entra_auth_config \<Rightarrow> entra_debug_context \<Rightarrow> string \<Rightarrow> oidc_metadata \<Rightarrow> json_web_key list verdict" where
  "fetch_jwks env net cfg ctx token metadata =
     (case on_get net (om_jwks_uri metadata) of
        Inl e \<Rightarrow> reject env cfg ctx ''jwks_refresh'' (request_error_reason e) InvalidEntraToken (Some token) ''unverified'' JNull
      | Inr (status, body) \<Rightarrow>
          if \<not> is_success status
          then reject env cfg ctx ''jwks_refresh'' ''jwks_http_status'' InvalidEntraToken (Some token) ''unverified''
                 (upstream_status status)
          else case Option.bind body (on_jwks net) of
            None \<Rightarrow> reject env cfg ctx ''jwks_refresh'' ''jwks_json_invalid'' InvalidEntraToken (Some token)
                       ''unverified'' JNull
          | Some ks \<Rightarrow> accept ks)"

definition fetch_keys ::
    "jwt_env \<Rightarrow> oidc_network \<Rightarrow> entra_auth_config \<Rightarrow> entra_debug_context \<Rightarrow> string \<Rightarrow> json_web_key list verdict" where
  "fetch_keys env net cfg ctx token =
     verdict_then (discover env net cfg ctx token) (fetch_jwks env net cfg ctx token)"

definition cache_lifetime :: "entra_auth_config \<Rightarrow> nat" where
  "cache_lifetime cfg = max (ec_jwks_cache_ttl_seconds cfg * 1000000000) jwks_refresh_cooldown"

definition store_keys ::
    "jwt_env \<Rightarrow> entra_debug_context \<Rightarrow> string \<Rightarrow> nat \<Rightarrow> entra_verifier \<Rightarrow> json_web_key list \<Rightarrow> entra_verifier \<times> unit verdict" where
  "store_keys env ctx token now v ks =
     (let cfg = ev_config v in
      case jv_instant_add env now (cache_lifetime cfg) of
        None \<Rightarrow> (v, [], None)
      | Some expires_at \<Rightarrow>
          if ev_cache_poisoned v
          then (v, reject env cfg ctx ''jwks_cache'' ''jwks_cache_write_failed'' InvalidEntraToken (Some token) ''unverified'' JNull)
          else (v\<lparr>ev_cache := Some \<lparr>cj_keys = ks, cj_expires_at = expires_at\<rparr>\<rparr>,
                emit env cfg ctx ''jwks_refresh'' ''accepted'' ''jwks_cache_refreshed'' None (Some token) ''unverified''
                  (json_object [(''key_count'', JNumber (PosInt (length ks))),
                                (''cache_ttl_seconds'', JNumber (PosInt (ec_jwks_cache_ttl_seconds cfg)))]),
                Some (Ok ())))"

definition refresh_throttled :: "entra_verifier \<Rightarrow> nat \<Rightarrow> bool" where
  "refresh_throttled v now =
     (case ev_refresh_attempt v of None \<Rightarrow> False | Some earlier \<Rightarrow> now - earlier < jwks_refresh_cooldown)"

text \<open>The lock of the attempt is held throughout, so that refreshes do not overlap.\<close>

definition refresh_keys ::
    "jwt_env \<Rightarrow> oidc_network \<Rightarrow> entra_debug_context \<Rightarrow> string \<Rightarrow> nat \<Rightarrow> nat \<Rightarrow> entra_verifier \<Rightarrow> entra_verifier \<times> unit verdict" where
  "refresh_keys env net ctx token attempt stored v =
     (if refresh_throttled v attempt then (v, accept ())
      else
        let v = v\<lparr>ev_refresh_attempt := Some attempt\<rparr>;
            fetched = fetch_keys env net (ev_config v) ctx token
        in case snd fetched of
             None \<Rightarrow> (v, fst fetched, None)
           | Some (Inl e) \<Rightarrow> (v, fst fetched, Some (Err e))
           | Some (Inr ks) \<Rightarrow>
               let (v, events, r) = store_keys env ctx token stored v ks in (v, fst fetched @ events, r))"

section \<open>Verification of a token\<close>

definition token_header ::
    "jwt_env \<Rightarrow> entra_auth_config \<Rightarrow> entra_debug_context \<Rightarrow> string \<Rightarrow> (string \<times> jwt_header \<times> jwt_algorithm) verdict" where
  "token_header env cfg ctx token =
     (if token = [] then reject env cfg ctx ''jwt_decode'' ''token_empty'' MalformedEntraAuthorization None ''unverified'' JNull
      else case jv_decode_header env token of
        None \<Rightarrow> reject env cfg ctx ''jwt_decode'' ''jwt_header_decode_failed'' MalformedEntraAuthorization (Some token)
                  ''unverified'' JNull
      | Some h \<Rightarrow>
          (case jh_kid h of
             None \<Rightarrow> reject env cfg ctx ''jwt_header'' ''kid_missing'' InvalidEntraToken (Some token) ''unverified'' JNull
           | Some kid \<Rightarrow>
               let algorithm = header_algorithm_name (jh_alg h)
               in if algorithm \<notin> set (ec_accepted_algorithms cfg)
                  then reject env cfg ctx ''jwt_header'' ''algorithm_not_allowed'' InvalidEntraToken (Some token) ''unverified''
                         (json_object [(''actual_algorithm'', JString algorithm)])
                  else case algorithm_to_jsonwebtoken algorithm of
                    None \<Rightarrow> reject env cfg ctx ''jwt_header'' ''algorithm_unsupported'' InvalidEntraToken (Some token)
                               ''unverified'' JNull
                  | Some a \<Rightarrow> accept (kid, h, a)))"

text \<open>The instants a call reads, and what other calls do while it waits: before it holds the refresh lock and after.\<close>

record verify_moments =
  vm_lookup :: nat
  vm_attempt :: nat
  vm_stored :: nat
  vm_lookup_again :: nat
  vm_before :: "entra_verifier \<Rightarrow> entra_verifier"
  vm_after :: "entra_verifier \<Rightarrow> entra_verifier"

definition key_lookup ::
    "jwt_env \<Rightarrow> entra_debug_context \<Rightarrow> string \<Rightarrow> string \<Rightarrow> string \<Rightarrow> nat \<Rightarrow> entra_verifier \<Rightarrow> json_web_key option verdict" where
  "key_lookup env ctx reason token kid now v =
     (case cached_key v now kid of
        Inl e \<Rightarrow> reject env (ev_config v) ctx ''jwks_cache'' reason e (Some token) ''unverified'' JNull
      | Inr k \<Rightarrow> accept k)"

definition find_key ::
    "jwt_env \<Rightarrow> oidc_network \<Rightarrow> entra_debug_context \<Rightarrow> verify_moments \<Rightarrow> string \<Rightarrow> string \<Rightarrow> entra_verifier \<Rightarrow>
     entra_verifier \<times> json_web_key option verdict" where
  "find_key env net ctx m token kid v =
     (let looked = key_lookup env ctx ''jwks_cache_unavailable'' token kid (vm_lookup m) v in
      if snd looked = Some (Ok None) then
        let (v, refreshed) = refresh_keys env net ctx token (vm_attempt m) (vm_stored m) (vm_before m v) in
        if snd refreshed = Some (Ok ()) then
          let v = vm_after m v
          in (v, verdict_then refreshed (\<lambda>_.
                 key_lookup env ctx ''jwks_cache_unavailable_after_refresh'' token kid (vm_lookup_again m) v))
        else (v, verdict_then refreshed (\<lambda>_. accept None))
      else (v, looked))"

definition select_key ::
    "jwt_env \<Rightarrow> entra_auth_config \<Rightarrow> entra_debug_context \<Rightarrow> string \<Rightarrow> string \<Rightarrow> jwt_header \<Rightarrow> json_web_key option \<Rightarrow>
     json_web_key verdict" where
  "select_key env cfg ctx token kid h found =
     (case found of
        None \<Rightarrow> reject env cfg ctx ''jwks_key_selection'' ''kid_not_found_after_refresh'' InvalidEntraToken (Some token)
                  ''unverified'' (json_object [(''kid'', JString kid)])
      | Some k \<Rightarrow>
          if jw_kty k \<noteq> ''RSA''
          then reject env cfg ctx ''jwks_key_selection'' ''key_type_not_rsa'' InvalidEntraToken (Some token) ''unverified''
                 (json_object [(''key_type'', JString (jw_kty k))])
          else if (case jw_alg k of None \<Rightarrow> False | Some a \<Rightarrow> a \<noteq> header_algorithm_name (jh_alg h))
          then reject env cfg ctx ''jwks_key_selection'' ''key_algorithm_mismatch'' InvalidEntraToken (Some token) ''unverified''
                 (json_object [(''token_algorithm'', JString (header_algorithm_name (jh_alg h))),
                               (''key_algorithm'', JString (case jw_alg k of None \<Rightarrow> [] | Some a \<Rightarrow> a))])
          else if \<not> jv_rsa_components env (jw_n k) (jw_e k)
          then reject env cfg ctx ''jwks_key_selection'' ''rsa_key_components_invalid'' InvalidEntraToken (Some token)
                 ''unverified'' JNull
          else accept k)"

definition verify_with_key ::
    "jwt_env \<Rightarrow> entra_auth_config \<Rightarrow> entra_debug_context \<Rightarrow> string \<Rightarrow> int \<Rightarrow> endpoint_entra_policy option \<Rightarrow>
     jwt_algorithm \<Rightarrow> json_web_key \<Rightarrow> entra_identity verdict" where
  "verify_with_key env cfg ctx token now endpoint algorithm k =
     (case jv_decode env token (jw_n k) (jw_e k) algorithm of
        Inl e \<Rightarrow> reject env cfg ctx ''jwt_signature'' ''signature_or_claim_schema_invalid'' InvalidEntraToken (Some token)
                   ''unverified'' (json_object [(''verification_error'', JString (jwt_error_reason e))])
      | Inr claims \<Rightarrow>
          (case validate_claims_for_endpoint env cfg claims now endpoint of
             None \<Rightarrow> ([], None)
           | Some (Inl (e, reason)) \<Rightarrow>
               reject env cfg ctx ''jwt_claims'' reason e (Some token) ''signature_verified''
                 (json_object [(''server_time'', JString (jv_rfc3339 env now))])
           | Some (Inr i) \<Rightarrow>
               (emit env cfg ctx ''jwt_claims'' ''accepted'' ''token_verified'' None (Some token) ''signature_verified''
                  (json_object [(''normalized_identity'', authorization_debug_identity i)]),
                Some (Ok i))))"

definition verify_token_for_endpoint ::
    "jwt_env \<Rightarrow> oidc_network \<Rightarrow> entra_debug_context \<Rightarrow> verify_moments \<Rightarrow> string \<Rightarrow> int \<Rightarrow> endpoint_entra_policy option \<Rightarrow>
     entra_verifier \<Rightarrow> entra_verifier \<times> entra_identity verdict" where
  "verify_token_for_endpoint env net ctx m token now endpoint v =
     (let cfg = ev_config v; head = token_header env cfg ctx token in
      case snd head of
        None \<Rightarrow> (v, fst head, None)
      | Some (Inl e) \<Rightarrow> (v, fst head, Some (Err e))
      | Some (Inr (kid, h, algorithm)) \<Rightarrow>
          let (v, found) = find_key env net ctx m token kid v
          in (v, verdict_then found (\<lambda>k.
                 verdict_then (select_key env cfg ctx token kid h k)
                   (verify_with_key env cfg ctx token now endpoint algorithm))))"

definition verify_token_with_context ::
    "jwt_env \<Rightarrow> oidc_network \<Rightarrow> entra_debug_context \<Rightarrow> verify_moments \<Rightarrow> string \<Rightarrow> int \<Rightarrow> entra_verifier \<Rightarrow>
     entra_verifier \<times> entra_identity verdict" where
  "verify_token_with_context env net ctx m token now v = verify_token_for_endpoint env net ctx m token now None v"

definition verify_authorization_with_context ::
    "jwt_env \<Rightarrow> oidc_network \<Rightarrow> entra_debug_context \<Rightarrow> verify_moments \<Rightarrow> string option \<Rightarrow> int \<Rightarrow> entra_verifier \<Rightarrow>
     entra_verifier \<times> entra_identity verdict" where
  "verify_authorization_with_context env net ctx m authorization now v =
     (case authorization of
        None \<Rightarrow> (v, reject env (ev_config v) ctx ''authorization_header'' ''authorization_header_missing''
                      MissingEntraAuthorization None ''unverified'' JNull)
      | Some a \<Rightarrow>
          (case strip_prefix ''Bearer '' a of
             None \<Rightarrow> (v, reject env (ev_config v) ctx ''authorization_header'' ''bearer_scheme_invalid''
                           MalformedEntraAuthorization None ''unverified'' JNull)
           | Some token \<Rightarrow> verify_token_with_context env net ctx m (trim token) now v))"

definition verify_authorization ::
    "jwt_env \<Rightarrow> oidc_network \<Rightarrow> verify_moments \<Rightarrow> string option \<Rightarrow> int \<Rightarrow> entra_verifier \<Rightarrow>
     entra_verifier \<times> entra_identity verdict" where
  "verify_authorization env net m authorization now v =
     verify_authorization_with_context env net default_entra_debug_context m authorization now v"

definition verify_token ::
    "jwt_env \<Rightarrow> oidc_network \<Rightarrow> verify_moments \<Rightarrow> string \<Rightarrow> int \<Rightarrow> entra_verifier \<Rightarrow> entra_verifier \<times> entra_identity verdict" where
  "verify_token env net m token now v = verify_token_with_context env net default_entra_debug_context m token now v"

section \<open>Laws\<close>

lemma verdict_then_Ok:
  "snd (verdict_then m k) = Some (Ok y) \<longleftrightarrow> (\<exists>x. snd m = Some (Ok x) \<and> snd (k x) = Some (Ok y))"
  by (auto simp: verdict_then_def split: option.splits sum.splits)

lemma snd_reject [simp]: "snd (reject env c ctx phase reason e token trust extra) = Some (Err e)"
  by (simp add: reject_def)

lemma snd_accept [simp]: "snd (accept x) = Some (Ok x)"
  by (simp add: accept_def)

lemma fail_when_Ok:
  "fail_when c e reason rest = Some (Ok x) \<longleftrightarrow> c = Some False \<and> rest = Some (Ok x)"
  by (auto simp: fail_when_def split: option.splits)

lemma audience_contains_iff: "audience_contains aud x \<longleftrightarrow> x \<in> set (claim_audiences aud)"
  by (cases aud) (auto simp: audience_contains_def claim_audiences_def list_ex_iff List.map_filter_def image_iff split: option.splits)

lemma algorithm_roundtrip: "algorithm_to_jsonwebtoken (header_algorithm_name a) = Some b \<Longrightarrow> b = a"
  by (cases a) (auto simp: algorithm_to_jsonwebtoken_def header_algorithm_name_def)

lemma config_validate_algorithms:
  "entra_config_validate hn c = Ok () \<Longrightarrow> a \<in> set (ec_accepted_algorithms c) \<Longrightarrow>
   a \<in> {''RS256'', ''RS384'', ''RS512''}"
  by (auto simp: entra_config_validate_def algorithm_to_jsonwebtoken_def list_ex_iff split: if_splits)

subsection \<open>What an accepted token has\<close>

text \<open>The claims of an accepted token, in the words of the configuration.\<close>

definition claims_hold :: "entra_auth_config \<Rightarrow> entra_claims \<Rightarrow> int \<Rightarrow> endpoint_entra_policy option \<Rightarrow> bool" where
  "claims_hold cfg c now endpoint \<longleftrightarrow>
     cl_iss c = ec_issuer cfg \<and> cl_tid c = ec_tenant_id cfg \<and>
     (case endpoint of None \<Rightarrow> ec_audience cfg | Some p \<Rightarrow> ee_audience p) \<in> set (claim_audiences (cl_aud c)) \<and>
     now < (cl_exp c + ec_clock_skew_seconds cfg) * nanos \<and>
     cl_ver c \<in> {''1.0'', ''2.0''} \<and> \<not> has_group_overage c \<and>
     (case endpoint of
        None \<Rightarrow> configured_authorization cfg (claims_identity c) = Ok ()
      | Some p \<Rightarrow> entra_authorize p (claims_identity c) (endpoint_time cfg now) = Ok ())"

lemma token_expired_False:
  assumes "clock_exact env" "jv_seconds env s = Some skew" "token_expired env skew expiry now = Some False"
  shows "now < (expiry + s) * nanos"
proof -
  obtain t u where t: "jv_from_timestamp env expiry = Some t" "jv_time_add env t skew = Some u" "now < u"
    using assms(3) by (auto simp: token_expired_def split: option.splits)
  have "t = expiry * nanos" "skew = s * nanos" "u = t + skew"
    using assms(1,2) t(1,2) unfolding clock_exact_def by metis+
  then show ?thesis using t(3) by (simp add: distrib_right)
qed

lemma claims_authorized_Ok:
  "claims_authorized cfg endpoint now i = Ok j \<longleftrightarrow>
     j = i \<and> (case endpoint of None \<Rightarrow> configured_authorization cfg i = Ok ()
              | Some p \<Rightarrow> entra_authorize p i (endpoint_time cfg now) = Ok ())"
  by (auto simp: claims_authorized_def split: option.split sum.split)

lemma validate_claims_Ok:
  assumes "clock_exact env" "validate_claims_for_endpoint env cfg c now endpoint = Some (Ok i)"
  shows "i = claims_identity c \<and> claims_hold cfg c now endpoint"
proof -
  obtain skew where skew: "jv_seconds env (ec_clock_skew_seconds cfg) = Some skew"
    and live: "token_expired env skew (cl_exp c) now = Some False"
    and auth: "claims_authorized cfg endpoint now (claims_identity c) = Ok i"
    and rest: "cl_iss c = ec_issuer cfg" "cl_tid c = ec_tenant_id cfg"
      "audience_contains (cl_aud c) (case endpoint of None \<Rightarrow> ec_audience cfg | Some p \<Rightarrow> ee_audience p)"
      "cl_ver c = ''1.0'' \<or> cl_ver c = ''2.0''" "\<not> has_group_overage c"
    using assms(2)
    by (cases "jv_seconds env (ec_clock_skew_seconds cfg)") (simp_all add: validate_claims_for_endpoint_def fail_when_Ok)
  have "now < (cl_exp c + ec_clock_skew_seconds cfg) * nanos"
    by (rule token_expired_False [OF assms(1) skew live])
  then show ?thesis
    using rest auth by (simp add: claims_hold_def claims_authorized_Ok audience_contains_iff)
qed

lemma verify_with_key_Ok:
  assumes "clock_exact env" "snd (verify_with_key env cfg ctx token now endpoint a k) = Some (Ok i)"
  obtains c where "jv_decode env token (jw_n k) (jw_e k) a = Ok c" "i = claims_identity c" "claims_hold cfg c now endpoint"
proof -
  obtain c where c: "jv_decode env token (jw_n k) (jw_e k) a = Ok c"
    "validate_claims_for_endpoint env cfg c now endpoint = Some (Ok i)"
    using assms(2) by (auto simp: verify_with_key_def split: sum.splits option.splits)
  show ?thesis
    using that [OF c(1)] validate_claims_Ok [OF assms(1) c(2)] by blast
qed

lemma token_header_Ok:
  assumes "snd (token_header env cfg ctx token) = Some (Ok (kid, h, a))"
  shows "jv_decode_header env token = Some h \<and> jh_kid h = Some kid \<and> a = jh_alg h \<and>
         header_algorithm_name (jh_alg h) \<in> set (ec_accepted_algorithms cfg)"
  using assms
  by (auto simp: token_header_def Let_def dest: algorithm_roundtrip split: if_splits option.splits)

lemma select_key_Ok:
  assumes "snd (select_key env cfg ctx token kid h found) = Some (Ok k)"
  shows "found = Some k \<and> jw_kty k = ''RSA'' \<and> (\<forall>a. jw_alg k = Some a \<longrightarrow> a = header_algorithm_name (jh_alg h))"
  using assms by (auto simp: select_key_def split: if_splits option.splits)

subsection \<open>The keys come from the configured issuer, and not too often\<close>

text \<open>The network serves a key: its discovery document names the configured issuer and points to a document with the key.\<close>

definition serves :: "oidc_network \<Rightarrow> entra_auth_config \<Rightarrow> json_web_key \<Rightarrow> bool" where
  "serves net cfg k \<longleftrightarrow>
     (\<exists>s body metadata s' body' ks.
        on_get net (ec_oidc_discovery_url cfg) = Inr (s, Some body) \<and> is_success s \<and>
        on_metadata net body = Some metadata \<and> om_issuer metadata = ec_issuer cfg \<and>
        on_get net (om_jwks_uri metadata) = Inr (s', Some body') \<and> is_success s' \<and>
        on_jwks net body' = Some ks \<and> k \<in> set ks)"

text \<open>The refreshes of a verifier, with the instants at which it asked the network; the network varies with time.\<close>

inductive jwks_run :: "jwt_env \<Rightarrow> (nat \<Rightarrow> oidc_network) \<Rightarrow> entra_auth_config \<Rightarrow> entra_verifier \<Rightarrow> nat list \<Rightarrow> bool"
  for env net cfg where
  fresh: "entra_verifier_new env cfg = Ok v \<Longrightarrow> jwks_run env net cfg v []"
| refresh: "jwks_run env net cfg v ts \<Longrightarrow> refresh_keys env (net attempt) ctx token attempt stored v = (v', r) \<Longrightarrow>
     jwks_run env net cfg v' (if refresh_throttled v attempt then ts else ts @ [attempt])"

definition jwks_reached :: "jwt_env \<Rightarrow> (nat \<Rightarrow> oidc_network) \<Rightarrow> entra_auth_config \<Rightarrow> entra_verifier \<Rightarrow> bool" where
  "jwks_reached env net cfg v \<longleftrightarrow> (\<exists>ts. jwks_run env net cfg v ts)"

lemma discover_Ok:
  assumes "snd (discover env net cfg ctx token) = Some (Ok metadata)"
  obtains s body where "on_get net (ec_oidc_discovery_url cfg) = Inr (s, Some body)" "is_success s"
    "on_metadata net body = Some metadata" "om_issuer metadata = ec_issuer cfg"
  using assms by (auto simp: discover_def split: sum.splits prod.splits if_splits option.splits bind_splits)

lemma fetch_jwks_Ok:
  assumes "snd (fetch_jwks env net cfg ctx token metadata) = Some (Ok ks)"
  obtains s body where "on_get net (om_jwks_uri metadata) = Inr (s, Some body)" "is_success s" "on_jwks net body = Some ks"
  using assms by (auto simp: fetch_jwks_def split: sum.splits prod.splits if_splits option.splits bind_splits)

lemma fetch_keys_served:
  assumes "snd (fetch_keys env net cfg ctx token) = Some (Ok ks)" "k \<in> set ks"
  shows "serves net cfg k"
  using assms unfolding fetch_keys_def verdict_then_Ok serves_def
  by (metis discover_Ok fetch_jwks_Ok)

text \<open>What a refresh does to the verifier.\<close>

lemma store_keys_state:
  assumes "store_keys env ctx token now v ks = (v', r)"
  shows "v' = v \<or> (\<exists>e. v' = v\<lparr>ev_cache := Some \<lparr>cj_keys = ks, cj_expires_at = e\<rparr>\<rparr>)"
  using assms by (auto simp: store_keys_def Let_def split: option.splits if_splits)

lemma refresh_keys_state:
  assumes "refresh_keys env net ctx token attempt stored v = (v', r)" "\<not> refresh_throttled v attempt"
  shows "ev_config v' = ev_config v \<and> ev_refresh_attempt v' = Some attempt \<and> ev_cache_poisoned v' = ev_cache_poisoned v \<and>
         (ev_cache v' = ev_cache v \<or>
          (\<exists>c. ev_cache v' = Some c \<and> (\<forall>k\<in>set (cj_keys c). serves net (ev_config v) k)))"
proof -
  let ?v = "v\<lparr>ev_refresh_attempt := Some attempt\<rparr>"
  let ?fetched = "fetch_keys env net (ev_config v) ctx token"
  consider "v' = ?v" | ks where "snd ?fetched = Some (Ok ks)" "v' = fst (store_keys env ctx token stored ?v ks)"
    using assms by (auto simp: refresh_keys_def Let_def split: option.splits sum.splits prod.splits)
  then show ?thesis
  proof cases
    case 2
    obtain e where "v' = ?v \<or> v' = ?v\<lparr>ev_cache := Some \<lparr>cj_keys = ks, cj_expires_at = e\<rparr>\<rparr>"
      using store_keys_state [of env ctx token stored ?v ks] 2(2) by (metis prod.collapse)
    then show ?thesis using fetch_keys_served [OF 2(1)] by auto
  qed simp
qed

lemma refresh_throttled_state:
  "refresh_keys env net ctx token attempt stored v = (v', r) \<Longrightarrow> refresh_throttled v attempt \<Longrightarrow> v' = v"
  by (simp add: refresh_keys_def)

definition spaced :: "nat list \<Rightarrow> bool" where
  "spaced ts \<longleftrightarrow> sorted_wrt (\<lambda>a b. a + jwks_refresh_cooldown \<le> b) ts"

lemma spaced_snoc:
  assumes "spaced ts" "ts \<noteq> [] \<longrightarrow> last ts + jwks_refresh_cooldown \<le> t"
  shows "spaced (ts @ [t])"
  using assms
proof (cases ts rule: rev_cases)
  case (snoc us u)
  then have "\<forall>a\<in>set us. a + jwks_refresh_cooldown \<le> u" "u + jwks_refresh_cooldown \<le> t"
    using assms by (auto simp: spaced_def sorted_wrt_append)
  then show ?thesis using assms(1) snoc by (fastforce simp: spaced_def sorted_wrt_append)
qed (simp add: spaced_def)

lemma spaced_extent: "spaced (t # ts) \<Longrightarrow> t + length ts * jwks_refresh_cooldown \<le> last (t # ts)"
proof (induction ts arbitrary: t)
  case (Cons u us)
  have "u + length us * jwks_refresh_cooldown \<le> last (u # us)" "t + jwks_refresh_cooldown \<le> u"
    using Cons by (auto simp: spaced_def)
  then show ?case by simp
qed simp

lemma spaced_window:
  assumes "spaced ts"
  shows "length (filter (\<lambda>t. s \<le> t \<and> t < s + w) ts) \<le> w div jwks_refresh_cooldown + 1"
proof (cases "filter (\<lambda>t. s \<le> t \<and> t < s + w) ts")
  case (Cons u us)
  have "spaced (u # us)"
    using assms unfolding spaced_def Cons [symmetric] by (rule sorted_wrt_filter)
  moreover have "\<forall>t\<in>set (u # us). s \<le> t \<and> t < s + w"
    unfolding Cons [symmetric] by simp
  then have "s \<le> u" "last (u # us) < s + w" by (simp_all add: last_in_set)
  ultimately have "length us * jwks_refresh_cooldown \<le> w"
    using spaced_extent [of u us] by linarith
  then have "length us \<le> w div jwks_refresh_cooldown"
    by (simp add: less_eq_div_iff_mult_less_eq jwks_refresh_cooldown_def)
  then show ?thesis by (simp add: Cons)
qed simp

lemma jwks_run_invariant:
  assumes "jwks_run env net cfg v ts"
  shows "ev_config v = cfg \<and> entra_config_validate (jv_header_name env) cfg = Ok () \<and> \<not> ev_cache_poisoned v \<and> spaced ts \<and>
         ev_refresh_attempt v = (if ts = [] then None else Some (last ts)) \<and>
         (\<forall>c k. ev_cache v = Some c \<longrightarrow> k \<in> set (cj_keys c) \<longrightarrow> (\<exists>t\<in>set ts. serves (net t) cfg k))"
  using assms
proof induction
  case (fresh v)
  then show ?case
    by (auto simp: entra_verifier_new_def and_then_def spaced_def split: sum.splits if_splits)
next
  case (refresh v ts attempt ctx token stored v' r)
  show ?case
  proof (cases "refresh_throttled v attempt")
    case True
    then have "v' = v" using refresh.hyps(2) refresh_throttled_state by blast
    then show ?thesis using True refresh.IH by simp
  next
    case False
    have "ts \<noteq> [] \<longrightarrow> last ts + jwks_refresh_cooldown \<le> attempt"
      using False refresh.IH by (auto simp: refresh_throttled_def jwks_refresh_cooldown_def split: option.splits if_splits)
    then have "spaced (ts @ [attempt])" using refresh.IH spaced_snoc by blast
    moreover have "ev_config v' = cfg" "ev_refresh_attempt v' = Some attempt" "\<not> ev_cache_poisoned v'"
      using refresh_keys_state [OF refresh.hyps(2) False] refresh.IH by auto
    moreover have "\<exists>t\<in>set (ts @ [attempt]). serves (net t) cfg k" if "ev_cache v' = Some c" "k \<in> set (cj_keys c)" for c k
    proof (cases "ev_cache v' = ev_cache v")
      case True
      then have "ev_cache v = Some c" using that(1) by simp
      then show ?thesis using that(2) refresh.IH by auto
    next
      case False
      then show ?thesis
        using refresh_keys_state [OF refresh.hyps(2) \<open>\<not> refresh_throttled v attempt\<close>] refresh.IH that by auto
    qed
    ultimately show ?thesis using False refresh.IH by simp
  qed
qed

lemma jwks_reached_refresh:
  assumes "jwks_reached env net cfg v" "refresh_keys env (net attempt) ctx token attempt stored v = (v', r)"
  shows "jwks_reached env net cfg v'"
  using assms jwks_run.refresh unfolding jwks_reached_def by blast

lemma cached_key_found:
  assumes "cached_key v now kid = Ok (Some k)"
  shows "\<exists>c. ev_cache v = Some c \<and> k \<in> set (cj_keys c) \<and> jw_kid k = Some kid"
  using assms by (auto simp: cached_key_def find_Some_iff split: if_splits option.splits)

lemma key_lookup_served:
  assumes "jwks_reached env net cfg v" "snd (key_lookup env ctx reason token kid now v) = Some (Ok (Some k))"
  shows "jw_kid k = Some kid \<and> (\<exists>t. serves (net t) cfg k)"
proof -
  have "cached_key v now kid = Ok (Some k)"
    using assms(2) by (simp add: key_lookup_def split: sum.splits)
  then show ?thesis
    using cached_key_found assms(1) jwks_run_invariant unfolding jwks_reached_def by (metis (no_types, lifting))
qed

lemma find_key_served:
  assumes "jwks_reached env net cfg v"
    and before: "\<And>w. jwks_reached env net cfg w \<Longrightarrow> jwks_reached env net cfg (vm_before m w)"
    and after: "\<And>w. jwks_reached env net cfg w \<Longrightarrow> jwks_reached env net cfg (vm_after m w)"
    and found: "find_key env (net (vm_attempt m)) ctx m token kid v = (v', r)"
  shows "jwks_reached env net cfg v' \<and>
         (\<forall>k. snd r = Some (Ok (Some k)) \<longrightarrow> jw_kid k = Some kid \<and> (\<exists>t. serves (net t) cfg k))"
proof -
  let ?looked = "key_lookup env ctx ''jwks_cache_unavailable'' token kid (vm_lookup m) v"
  obtain v1 r1 where r1:
    "refresh_keys env (net (vm_attempt m)) ctx token (vm_attempt m) (vm_stored m) (vm_before m v) = (v1, r1)"
    by (cases "refresh_keys env (net (vm_attempt m)) ctx token (vm_attempt m) (vm_stored m) (vm_before m v)")
  have v1: "jwks_reached env net cfg v1"
    using jwks_reached_refresh [OF before r1] assms(1) by blast
  consider "v' = v" "r = ?looked" "snd ?looked \<noteq> Some (Ok None)"
    | "v' = vm_after m v1" "r = verdict_then r1 (\<lambda>_. key_lookup env ctx ''jwks_cache_unavailable_after_refresh'' token kid
        (vm_lookup_again m) (vm_after m v1))"
    | "v' = v1" "snd r1 \<noteq> Some (Ok ())" "r = verdict_then r1 (\<lambda>_. accept None)"
    using found r1 by (auto simp: find_key_def Let_def split: if_splits)
  then show ?thesis
  proof cases
    case 1
    then show ?thesis using assms(1) key_lookup_served [OF assms(1)] by simp
  next
    case 2
    then show ?thesis using after [OF v1] key_lookup_served [OF after [OF v1]] by (auto simp: verdict_then_Ok)
  next
    case 3
    then show ?thesis using v1 by (auto simp: verdict_then_Ok)
  qed
qed

subsection \<open>A sample tenant\<close>

definition sample_entra :: entra_auth_config where
  "sample_entra =
     \<lparr>ec_tenant_id = ''t'', ec_audience = ''api'', ec_issuer = ''iss'', ec_oidc_discovery_url = ''oidc'',
      ec_required_scope = Some ''call'', ec_required_role = None, ec_allowed_groups = [],
      ec_accepted_algorithms = [''RS256''], ec_relayna_key_header = ''k'', ec_jwks_cache_ttl_seconds = 300,
      ec_clock_skew_seconds = 60\<rparr>"

definition sample_jwk :: json_web_key where
  "sample_jwk = \<lparr>jw_kid = Some ''1'', jw_kty = ''RSA'', jw_alg = Some ''RS256'', jw_n = ''n'', jw_e = ''e''\<rparr>"

definition sample_claims :: entra_claims where
  "sample_claims =
     \<lparr>cl_iss = ''iss'', cl_aud = JArray [JString ''api''], cl_exp = 1000, cl_nbf = None, cl_iat = Some 900, cl_tid = ''t'',
      cl_ver = ''2.0'', cl_sub = Some ''s'', cl_oid = None, cl_appid = None, cl_azp = None, cl_preferred_username = None,
      cl_email = None, cl_name = None, cl_nonce = None, cl_scp = Some ''read call'', cl_roles = None, cl_groups = None,
      cl_hasgroups = None, cl_claim_names = None\<rparr>"

definition sample_jwt :: jwt_env where
  "sample_jwt =
     \<lparr>jv_decode_header = (\<lambda>t. if t = ''tok'' then Some \<lparr>jh_kid = Some ''1'', jh_alg = RS256\<rparr> else None),
      jv_rsa_components = (\<lambda>n e. n = ''n''),
      jv_decode = (\<lambda>t n e a. if t = ''tok'' \<and> n = ''n'' \<and> e = ''e'' \<and> a = RS256 then Ok sample_claims else Err InvalidSignature),
      jv_base64_url = Some, jv_from_slice = (\<lambda>s. Some (JString s)), jv_to_vec = (\<lambda>v. Some []), jv_rfc3339 = (\<lambda>t. []),
      jv_from_timestamp = (\<lambda>s. Some (s * nanos)), jv_seconds = (\<lambda>s. Some (s * nanos)),
      jv_time_add = (\<lambda>t d. Some (t + d)), jv_time_sub = (\<lambda>t d. Some (t - d)), jv_instant_add = (\<lambda>t d. Some (t + d)),
      jv_header_name = (\<lambda>h. True), jv_client_builds = True, jv_debug_enabled = False\<rparr>"

definition sample_oidc :: oidc_network where
  "sample_oidc =
     \<lparr>on_get = (\<lambda>url. Inr (200, Some url)),
      on_metadata = (\<lambda>b. Some \<lparr>om_issuer = ''iss'', om_jwks_uri = ''jwks''\<rparr>),
      on_jwks = (\<lambda>b. Some [sample_jwk])\<rparr>"

definition sample_moments :: verify_moments where
  "sample_moments =
     \<lparr>vm_lookup = 1, vm_attempt = 2, vm_stored = 3, vm_lookup_again = 4, vm_before = (\<lambda>v. v), vm_after = (\<lambda>v. v)\<rparr>"

definition sample_entra_verifier :: entra_verifier where
  "sample_entra_verifier =
     \<lparr>ev_config = sample_entra, ev_cache = None, ev_cache_poisoned = False, ev_refresh_attempt = None\<rparr>"

lemma sample_new: "entra_verifier_new sample_jwt sample_entra = Ok sample_entra_verifier"
  by code_simp

lemma sample_clock: "clock_exact sample_jwt"
  by (simp add: clock_exact_def sample_jwt_def)

lemma sample_reached: "jwks_reached sample_jwt (\<lambda>_. sample_oidc) sample_entra sample_entra_verifier"
  using jwks_run.fresh [OF sample_new] unfolding jwks_reached_def by blast

lemma sample_claims_pass:
  "validate_claims_for_endpoint sample_jwt sample_entra sample_claims (950 * nanos) None = Some (Ok (claims_identity sample_claims))"
  by code_simp

lemma sample_refresh:
  "refresh_keys sample_jwt sample_oidc ctx token 2 3 sample_entra_verifier =
     (sample_entra_verifier\<lparr>ev_refresh_attempt := Some 2, ev_cache := Some \<lparr>cj_keys = [sample_jwk], cj_expires_at = 300000000003\<rparr>\<rparr>,
      [], Some (Ok ()))"
  by (simp add: refresh_keys_def refresh_throttled_def fetch_keys_def discover_def fetch_jwks_def verdict_then_def accept_def
      store_keys_def emit_def is_success_def cache_lifetime_def jwks_refresh_cooldown_def
      sample_entra_verifier_def sample_oidc_def sample_entra_def sample_jwt_def)

lemma sample_header:
  "token_header sample_jwt sample_entra ctx ''tok'' = accept (''1'', \<lparr>jh_kid = Some ''1'', jh_alg = RS256\<rparr>, RS256)"
  by (simp add: token_header_def algorithm_to_jsonwebtoken_def header_algorithm_name_def sample_jwt_def sample_entra_def)

lemma sample_found:
  "find_key sample_jwt sample_oidc ctx sample_moments token ''1'' sample_entra_verifier =
     (fst (refresh_keys sample_jwt sample_oidc ctx token 2 3 sample_entra_verifier), [], Some (Ok (Some sample_jwk)))"
proof -
  have "ev_cache sample_entra_verifier = None" "\<not> ev_cache_poisoned sample_entra_verifier" by (simp_all add: sample_entra_verifier_def)
  then show ?thesis
    by (simp add: find_key_def sample_moments_def sample_refresh verdict_then_def accept_def key_lookup_def cached_key_def
      sample_jwk_def)
qed

lemma sample_selected:
  "select_key sample_jwt sample_entra ctx token kid \<lparr>jh_kid = Some ''1'', jh_alg = RS256\<rparr> (Some sample_jwk) = accept sample_jwk"
  by (simp add: select_key_def header_algorithm_name_def sample_jwt_def sample_jwk_def)

lemma sample_signed:
  assumes "validate_claims_for_endpoint sample_jwt sample_entra sample_claims now endpoint = Some (Ok i)"
  shows "verify_with_key sample_jwt sample_entra ctx ''tok'' now endpoint RS256 sample_jwk = ([], Some (Ok i))"
proof -
  have "jv_decode sample_jwt ''tok'' (jw_n sample_jwk) (jw_e sample_jwk) RS256 = Ok sample_claims" "\<not> jv_debug_enabled sample_jwt"
    by (simp_all add: sample_jwt_def sample_jwk_def)
  then show ?thesis by (simp add: verify_with_key_def assms emit_def)
qed

lemma sample_accepted:
  assumes "validate_claims_for_endpoint sample_jwt sample_entra sample_claims now endpoint = Some (Ok i)"
  shows "verify_token_for_endpoint sample_jwt sample_oidc ctx sample_moments ''tok'' now endpoint sample_entra_verifier =
     (fst (refresh_keys sample_jwt sample_oidc ctx ''tok'' 2 3 sample_entra_verifier), [], Some (Ok i))"
proof -
  have "ev_config sample_entra_verifier = sample_entra" by (simp add: sample_entra_verifier_def)
  then show ?thesis
    by (simp add: verify_token_for_endpoint_def sample_header sample_found sample_selected sample_signed [OF assms]
        verdict_then_def accept_def)
qed

subsection \<open>Main results\<close>

text \<open>
  A token is accepted only when its header names an accepted algorithm and a key that a discovery document
  of the configured issuer led to at some time, the key verifies the signature, and the claims name the configured issuer
  and tenant and the audience of the endpoint or the configuration, are not expired beyond the tolerated skew, list the groups in full and satisfy
  the endpoint's or the configured requirements. What other calls do to the verifier meanwhile does not matter, and the call itself
  leaves a verifier that refreshes lead to.
\<close>

theorem entra_token_verified:
  assumes "jwks_reached env net cfg v" "clock_exact env"
    and "\<And>w. jwks_reached env net cfg w \<Longrightarrow> jwks_reached env net cfg (vm_before m w)"
    and "\<And>w. jwks_reached env net cfg w \<Longrightarrow> jwks_reached env net cfg (vm_after m w)"
    and "verify_token_for_endpoint env (net (vm_attempt m)) ctx m token now endpoint v = (v', events, Some (Ok i))"
  shows "jwks_reached env net cfg v' \<and>
         (\<exists>h kid k t c. jv_decode_header env token = Some h \<and> jh_kid h = Some kid \<and>
            header_algorithm_name (jh_alg h) \<in> set (ec_accepted_algorithms cfg) \<inter> {''RS256'', ''RS384'', ''RS512''} \<and>
            jw_kid k = Some kid \<and> jw_kty k = ''RSA'' \<and> serves (net t) cfg k \<and>
            jv_decode env token (jw_n k) (jw_e k) (jh_alg h) = Ok c \<and> claims_hold cfg c now endpoint \<and>
            i = claims_identity c)"
proof -
  have cfg: "ev_config v = cfg" "entra_config_validate (jv_header_name env) cfg = Ok ()"
    using assms(1) jwks_run_invariant unfolding jwks_reached_def by metis+
  obtain kid h a where header: "snd (token_header env cfg ctx token) = Some (Ok (kid, h, a))"
    using assms(5) cfg(1) by (auto simp: verify_token_for_endpoint_def Let_def split: option.splits sum.splits)
  obtain v1 found where found: "find_key env (net (vm_attempt m)) ctx m token kid v = (v1, found)"
    by (cases "find_key env (net (vm_attempt m)) ctx m token kid v")
  have v': "v' = v1" and result: "snd (verdict_then found (\<lambda>k. verdict_then (select_key env cfg ctx token kid h k)
      (verify_with_key env cfg ctx token now endpoint a))) = Some (Ok i)"
    using assms(5) header found cfg(1) by (auto simp: verify_token_for_endpoint_def Let_def)
  then obtain f k where f: "snd found = Some (Ok f)" and k: "snd (select_key env cfg ctx token kid h f) = Some (Ok k)"
    and verified: "snd (verify_with_key env cfg ctx token now endpoint a k) = Some (Ok i)"
    by (auto simp: verdict_then_Ok)
  obtain c where c: "jv_decode env token (jw_n k) (jw_e k) a = Ok c" "i = claims_identity c" "claims_hold cfg c now endpoint"
    using verify_with_key_Ok [OF assms(2) verified] by blast
  obtain t where t: "jw_kid k = Some kid" "serves (net t) cfg k" and reached: "jwks_reached env net cfg v1"
    using find_key_served [OF assms(1,3,4) found] f select_key_Ok [OF k] by blast
  show ?thesis
    using v' reached token_header_Ok [OF header] select_key_Ok [OF k] t c config_validate_algorithms [OF cfg(2)] by blast
qed

theorem entra_token_verified_witness:
  "jwks_reached sample_jwt (\<lambda>_. sample_oidc) sample_entra
     (fst (refresh_keys sample_jwt sample_oidc default_entra_debug_context ''tok'' 2 3 sample_entra_verifier)) \<and>
   (\<exists>c. claims_hold sample_entra c (950 * nanos) None \<and> claims_identity sample_claims = claims_identity c)"
  using entra_token_verified [of sample_jwt "\<lambda>_. sample_oidc" sample_entra sample_entra_verifier sample_moments
      default_entra_debug_context "''tok''" "950 * nanos" None, OF sample_reached sample_clock _ _ sample_accepted [OF sample_claims_pass]]
  by (auto simp: sample_moments_def)

text \<open>
  Whatever tokens arrive, the verifier asks the network for keys at most once in 30 seconds: a window of length w sees at
  most w divided by 30 seconds, plus one, attempts, also when they fail.
\<close>

theorem jwks_refresh_rate:
  "jwks_run env net cfg v ts \<Longrightarrow>
   length (filter (\<lambda>t. s \<le> t \<and> t < s + w) ts) \<le> w div jwks_refresh_cooldown + 1"
  using jwks_run_invariant spaced_window by blast

text \<open>
  The expiry check of the claims and the one of the endpoint tolerate the same skew: with the skewed time within 64 bits,
  an endpoint refuses claims that passed the checks before it only for missing scopes, roles or groups.
\<close>

theorem endpoint_expiry_agrees:
  assumes "clock_exact env"
    and "- i64_max - 1 \<le> now div nanos - ec_clock_skew_seconds cfg" "now div nanos - ec_clock_skew_seconds cfg \<le> i64_max"
    and "validate_claims_for_endpoint env cfg c now (Some p) = Some (Err (e, ''endpoint_authorization_failed''))"
  shows "e = InsufficientEntraAuthorization"
proof -
  obtain skew where skew: "jv_seconds env (ec_clock_skew_seconds cfg) = Some skew"
    and live: "token_expired env skew (cl_exp c) now = Some False"
    and aud: "audience_contains (cl_aud c) (ee_audience p)"
    and auth: "claims_authorized cfg (Some p) now (claims_identity c) = Err (e, ''endpoint_authorization_failed'')"
    using assms(4)
    by (cases "jv_seconds env (ec_clock_skew_seconds cfg)")
      (simp_all add: validate_claims_for_endpoint_def fail_when_def split: if_splits option.splits)
  have "now < (cl_exp c + ec_clock_skew_seconds cfg) * nanos"
    by (rule token_expired_False [OF assms(1) skew live])
  then have "now div nanos < cl_exp c + ec_clock_skew_seconds cfg"
    by (simp add: nanos_def div_less_iff_less_mult)
  then have "\<not> cl_exp c \<le> endpoint_time cfg now"
    using assms(2,3) by (simp add: endpoint_time_def i64_saturating_sub_def)
  then show ?thesis
    using auth aud
    by (auto simp: claims_authorized_def entra_authorize_def claims_identity_def audience_contains_iff split: sum.splits if_splits)
qed

end
