(* ===== verification/Apigee_Identity.thy ===== *)
theory Apigee_Identity
  imports Entra_Verifier "HOL-Library.Word"
begin

unbundle bit_operations_syntax

text \<open>
  Identities that an Apigee front end signs (\<open>gateway-core/src/entra.rs\<close>): the signature, its comparison byte by byte,
  the checks of the identity and the debug event of every outcome. HMAC, base64 and the JSON reader are parameters.
\<close>

section \<open>Definitions\<close>

record apigee_env =
  ag_hmac_sha256 :: "string \<Rightarrow> string \<Rightarrow> string option"
  ag_base64_encode :: "string \<Rightarrow> string"
  ag_base64_decode :: "string \<Rightarrow> string option"
  ag_identity :: "string \<Rightarrow> entra_identity option"

record apigee_config =
  ac_secret :: string
  ac_required_scope :: "string option"
  ac_required_role :: "string option"
  ac_allowed_groups :: "string list"

definition apigee_validate :: "apigee_config \<Rightarrow> unit gateway_result" where
  "apigee_validate c = (if trim (ac_secret c) = [] then Err InvalidConfiguration else Ok ())"

definition hmac_sha256_base64url :: "apigee_env \<Rightarrow> string \<Rightarrow> string \<Rightarrow> string gateway_result" where
  "hmac_sha256_base64url ag secret d =
     and_then (ok_or (ag_hmac_sha256 ag secret d) InvalidConfiguration) (\<lambda>mac. Ok (ag_base64_encode ag mac))"

definition u8 :: "char \<Rightarrow> 8 word" where
  "u8 c = of_nat (byte c)"

definition digest_eq :: "string \<Rightarrow> string \<Rightarrow> bool" where
  "digest_eq left right =
     (if length left \<noteq> length right then False
      else foldl (\<lambda>acc (l, r). acc OR (u8 l XOR u8 r)) 0 (zip left right) = 0)"

definition apigee_debug ::
    "jwt_env \<Rightarrow> entra_debug_context \<Rightarrow> apigee_config \<Rightarrow> string \<Rightarrow> string \<Rightarrow> string \<Rightarrow> entra_identity option \<Rightarrow>
     gateway_error option \<Rightarrow> debug_event list" where
  "apigee_debug env ctx c phase outcome reason identity error =
     (if \<not> jv_debug_enabled env then []
      else authorization_debug env (dx_surface ctx) phase outcome reason (dx_request_id ctx) (json_object
        [(''public_error_code'', json_opt_string (map_option error_code error)),
         (''identity_trust'', JString (if identity = None then ''unverified'' else ''hmac_verified'')),
         (''identity'', case identity of None \<Rightarrow> JNull | Some i \<Rightarrow> authorization_debug_identity i),
         (''expected'', json_object
            [(''required_scope'', json_opt_string (ac_required_scope c)),
             (''required_role'', json_opt_string (ac_required_role c)),
             (''allowed_groups'', json_strings (ac_allowed_groups c))]),
         (''identity_header_logged'', JBool False),
         (''signature_header_logged'', JBool False)]))"

definition apigee_reject ::
    "jwt_env \<Rightarrow> entra_debug_context \<Rightarrow> apigee_config \<Rightarrow> string \<Rightarrow> string \<Rightarrow> entra_identity option \<Rightarrow> gateway_error \<Rightarrow> 'a verdict" where
  "apigee_reject env ctx c phase reason identity e =
     (apigee_debug env ctx c phase ''rejected'' reason identity (Some e), Some (Err e))"

definition apigee_authorize ::
    "jwt_env \<Rightarrow> entra_debug_context \<Rightarrow> apigee_config \<Rightarrow> entra_identity \<Rightarrow> entra_identity verdict" where
  "apigee_authorize env ctx c i =
     (case validate_entra_authorization_detailed (ac_required_scope c) (ac_required_role c) (ac_allowed_groups c)
             (ei_scopes i) (ei_roles i) (ei_groups i) of
        Inl reason \<Rightarrow>
          apigee_reject env ctx c ''trusted_header_authorization'' reason (Some i) InsufficientEntraAuthorization
      | Inr _ \<Rightarrow>
          (apigee_debug env ctx c ''trusted_header_authorization'' ''accepted'' ''identity_verified'' (Some i) None,
           Some (Ok i)))"

definition verify_apigee_trusted_identity_with_context ::
    "jwt_env \<Rightarrow> apigee_env \<Rightarrow> string option \<Rightarrow> string option \<Rightarrow> apigee_config \<Rightarrow> entra_debug_context \<Rightarrow> entra_identity verdict" where
  "verify_apigee_trusted_identity_with_context env ag identity_header signature_header c ctx =
     (case apigee_validate c of
        Inl e \<Rightarrow> ([], Some (Err e))
      | Inr _ \<Rightarrow>
     (case identity_header of
        None \<Rightarrow> apigee_reject env ctx c ''trusted_header'' ''identity_header_missing'' None UntrustedApigeeIdentity
      | Some identity_header \<Rightarrow>
     (case signature_header of
        None \<Rightarrow> apigee_reject env ctx c ''trusted_header'' ''signature_header_missing'' None UntrustedApigeeIdentity
      | Some signature_header \<Rightarrow>
     (case hmac_sha256_base64url ag (ac_secret c) identity_header of
        Inl e \<Rightarrow> ([], Some (Err e))
      | Inr expected \<Rightarrow>
          if \<not> digest_eq expected signature_header
          then apigee_reject env ctx c ''trusted_header_signature'' ''signature_mismatch'' None UntrustedApigeeIdentity
          else case ag_base64_decode ag identity_header of
            None \<Rightarrow> apigee_reject env ctx c ''trusted_header_payload'' ''identity_base64url_invalid'' None
                      UntrustedApigeeIdentity
          | Some identity_json \<Rightarrow>
              (case ag_identity ag identity_json of
                 None \<Rightarrow> apigee_reject env ctx c ''trusted_header_payload'' ''identity_json_invalid'' None
                           UntrustedApigeeIdentity
               | Some i \<Rightarrow> apigee_authorize env ctx c (i\<lparr>ei_source := ApigeeTrustedHeader\<rparr>))))))"

definition verify_apigee_trusted_identity ::
    "jwt_env \<Rightarrow> apigee_env \<Rightarrow> string option \<Rightarrow> string option \<Rightarrow> apigee_config \<Rightarrow> entra_identity verdict" where
  "verify_apigee_trusted_identity env ag identity_header signature_header c =
     verify_apigee_trusted_identity_with_context env ag identity_header signature_header c default_entra_debug_context"

definition sign_apigee_trusted_identity :: "apigee_env \<Rightarrow> string \<Rightarrow> apigee_config \<Rightarrow> string gateway_result" where
  "sign_apigee_trusted_identity ag identity_header c =
     and_then (apigee_validate c) (\<lambda>_. hmac_sha256_base64url ag (ac_secret c) identity_header)"

section \<open>The comparison is equality\<close>

lemma byte_less: "byte c < 256"
  by (simp add: byte_def)

lemma u8_inject: "u8 a = u8 b \<longleftrightarrow> a = b"
proof -
  have "unat (u8 c) = byte c" for c
    using byte_less [of c] by (simp add: u8_def unat_of_nat)
  then show ?thesis by (metis byte_def of_char_eq_iff)
qed

lemma xor_word_eq_0: "(x :: 8 word) XOR y = 0 \<longleftrightarrow> x = y"
proof
  assume "x XOR y = 0"
  then have "(x XOR y) XOR y = y" by simp
  then show "x = y" by (simp add: xor.assoc)
qed simp

lemma digest_fold_eq_0:
  "foldl (\<lambda>acc (l, r). acc OR (u8 l XOR u8 r)) acc ps = 0 \<longleftrightarrow> acc = 0 \<and> list_all (\<lambda>(l, r). l = r) ps"
proof (induction ps arbitrary: acc)
  case (Cons p ps)
  obtain l r where p: "p = (l, r)" by (cases p)
  have "acc OR (u8 l XOR u8 r) = 0 \<longleftrightarrow> acc = 0 \<and> l = r"
    by (simp only: or_eq_0_iff xor_word_eq_0 u8_inject)
  then show ?case unfolding p foldl_Cons prod.case Cons.IH by auto
qed simp

lemma list_all_zip_eq: "length xs = length ys \<Longrightarrow> list_all (\<lambda>(l, r). l = r) (zip xs ys) \<longleftrightarrow> xs = ys"
  by (induction xs ys rule: list_induct2) auto

lemma digest_eq_iff: "digest_eq xs ys \<longleftrightarrow> xs = ys"
  by (auto simp: digest_eq_def digest_fold_eq_0 list_all_zip_eq)

section \<open>Results\<close>

lemma snd_apigee_reject [simp]: "snd (apigee_reject env ctx c phase reason i e) = Some (Err e)"
  by (simp add: apigee_reject_def)

lemma apigee_authorize_Ok:
  "snd (apigee_authorize env ctx c i) = Some (Ok j) \<longleftrightarrow>
     j = i \<and> validate_entra_authorization_detailed (ac_required_scope c) (ac_required_role c) (ac_allowed_groups c)
       (ei_scopes i) (ei_roles i) (ei_groups i) = Ok ()"
  by (auto simp: apigee_authorize_def split: sum.splits)

lemma apigee_accepted_iff:
  "snd (verify_apigee_trusted_identity_with_context env ag (Some h) (Some s) c ctx) = Some (Ok i) \<longleftrightarrow>
     sign_apigee_trusted_identity ag h c = Ok s \<and>
     (\<exists>decoded claimed. ag_base64_decode ag h = Some decoded \<and> ag_identity ag decoded = Some claimed \<and>
        i = claimed\<lparr>ei_source := ApigeeTrustedHeader\<rparr>) \<and>
     validate_entra_authorization_detailed (ac_required_scope c) (ac_required_role c) (ac_allowed_groups c)
       (ei_scopes i) (ei_roles i) (ei_groups i) = Ok ()"
proof -
  have "snd (verify_apigee_trusted_identity_with_context env ag (Some h) (Some s) c ctx) = Some (Ok i) \<longleftrightarrow>
     sign_apigee_trusted_identity ag h c = Ok s \<and>
     (\<exists>decoded claimed. ag_base64_decode ag h = Some decoded \<and> ag_identity ag decoded = Some claimed \<and>
        snd (apigee_authorize env ctx c (claimed\<lparr>ei_source := ApigeeTrustedHeader\<rparr>)) = Some (Ok i))"
    by (auto simp: verify_apigee_trusted_identity_with_context_def sign_apigee_trusted_identity_def digest_eq_iff
        and_then_def split: sum.splits option.splits)
  then show ?thesis
    by (auto simp: apigee_authorize_Ok)
qed

text \<open>Without one of the two headers nothing is accepted.\<close>

theorem apigee_needs_both_headers:
  "identity_header = None \<or> signature_header = None \<Longrightarrow>
   snd (verify_apigee_trusted_identity_with_context env ag identity_header signature_header c ctx) \<noteq> Some (Ok i)"
  by (auto simp: verify_apigee_trusted_identity_with_context_def split: sum.split option.split)

end
