(* ===== verification/Auth_Settings.thy ===== *)
theory Auth_Settings
  imports Apigee_Identity
begin

text \<open>
  The authentication settings of the gateway (\<open>gateway-core/src/auth_settings.rs\<close>): stored settings with their patches and
  validation, the effective settings from the store or the environment, the response of the admin console, and the
  shared runtime that keeps the verifier of the installed configuration. The settings store is a parameter.
\<close>

section \<open>Settings\<close>

datatype settings_source = Persisted | Environment | Unset

record gateway_auth_env =
  ge_unverified_bearer_enabled :: bool
  ge_relayna_key_header :: string
  ge_entra_auth :: "entra_auth_config option"
  ge_apigee_trusted_header :: "apigee_config option"

record stored_auth_settings =
  sa_unverified_bearer_enabled :: bool
  sa_entra_enabled :: bool
  sa_tenant_id :: "string option"
  sa_audience :: "string option"
  sa_issuer :: "string option"
  sa_oidc_discovery_url :: "string option"
  sa_required_scope :: "string option"
  sa_required_role :: "string option"
  sa_allowed_groups :: "string list"
  sa_accepted_algorithms :: "string list"
  sa_relayna_key_header :: "string option"
  sa_jwks_cache_ttl_seconds :: "int option"
  sa_clock_skew_seconds :: "int option"
  sa_apigee_trusted_header_enabled :: bool
  sa_apigee_trusted_header_secret :: "string option"
  sa_updated_at :: "int option"

record effective_auth_settings =
  ef_unverified_bearer_enabled :: bool
  ef_source :: settings_source
  ef_relayna_key_header :: string
  ef_entra_auth :: "entra_auth_config option"
  ef_apigee_trusted_header :: "apigee_config option"
  ef_updated_at :: "int option"

datatype 'a auth_patch_value = Unchanged | Clear | Set 'a

record auth_settings_patch =
  pt_unverified_bearer_enabled :: "bool option"
  pt_relayna_key_header :: "string option"
  pt_entra_enabled :: "bool option"
  pt_tenant_id :: "string auth_patch_value"
  pt_audience :: "string auth_patch_value"
  pt_issuer :: "string auth_patch_value"
  pt_oidc_discovery_url :: "string auth_patch_value"
  pt_required_scope :: "string auth_patch_value"
  pt_required_role :: "string auth_patch_value"
  pt_allowed_groups :: "string list option"
  pt_accepted_algorithms :: "string list option"
  pt_jwks_cache_ttl_seconds :: "nat option"
  pt_clock_skew_seconds :: "int option"
  pt_apigee_trusted_header_enabled :: "bool option"
  pt_apigee_trusted_header_secret :: "string auth_patch_value"

record auth_runtime_config =
  rt_unverified_bearer_enabled :: bool
  rt_relayna_key_header :: string
  rt_entra_auth :: "entra_auth_config option"
  rt_apigee_trusted_header :: "apigee_config option"

record entra_settings_response =
  er_enabled :: bool
  er_tenant_id :: "string option"
  er_audience :: "string option"
  er_issuer :: "string option"
  er_oidc_discovery_url :: "string option"
  er_required_scope :: "string option"
  er_required_role :: "string option"
  er_allowed_groups :: "string list"
  er_accepted_algorithms :: "string list"
  er_jwks_cache_ttl_seconds :: nat
  er_clock_skew_seconds :: int

record auth_settings_response =
  rs_source :: settings_source
  rs_unverified_bearer_enabled :: bool
  rs_updated_at :: "int option"
  rs_relayna_key_header :: string
  rs_entra :: entra_settings_response
  rs_apigee_trusted_header_enabled :: bool
  rs_apigee_secret_configured :: bool

definition entra_default_relayna_key_header :: string where
  "entra_default_relayna_key_header = ''X-Relayna-Key''"

definition default_gateway_auth_env :: gateway_auth_env where
  "default_gateway_auth_env =
     \<lparr>ge_unverified_bearer_enabled = False, ge_relayna_key_header = entra_default_relayna_key_header,
      ge_entra_auth = None, ge_apigee_trusted_header = None\<rparr>"

definition default_auth_runtime_config :: auth_runtime_config where
  "default_auth_runtime_config =
     \<lparr>rt_unverified_bearer_enabled = False, rt_relayna_key_header = entra_default_relayna_key_header,
      rt_entra_auth = None, rt_apigee_trusted_header = None\<rparr>"

section \<open>Normalisation\<close>

definition normalize_optional_string :: "string option \<Rightarrow> string option" where
  "normalize_optional_string v =
     (case v of None \<Rightarrow> None | Some s \<Rightarrow> if trim s = [] then None else Some (trim s))"

definition normalize_string_list :: "string list \<Rightarrow> string list" where
  "normalize_string_list vs = filter (\<lambda>v. v \<noteq> []) (map trim vs)"

definition normalized_non_empty :: "string option \<Rightarrow> string option" where
  "normalized_non_empty v = (case v of None \<Rightarrow> None | Some s \<Rightarrow> if trim s = [] then None else Some (trim s))"

definition required_field :: "string option \<Rightarrow> string gateway_result" where
  "required_field v = ok_or (normalized_non_empty v) InvalidConfiguration"

fun apply_string_patch :: "string option \<Rightarrow> string auth_patch_value \<Rightarrow> string option" where
  "apply_string_patch target Unchanged = target"
| "apply_string_patch target Clear = None"
| "apply_string_patch target (Set v) = normalize_optional_string (Some v)"

definition validate_unverified_bearer_mode :: "bool \<Rightarrow> bool \<Rightarrow> unit gateway_result" where
  "validate_unverified_bearer_mode enabled apigee_enabled =
     (if enabled \<and> apigee_enabled then Err InvalidConfiguration else Ok ())"

section \<open>Stored settings\<close>

definition stored_entra_config :: "(string \<Rightarrow> bool) \<Rightarrow> stored_auth_settings \<Rightarrow> string \<Rightarrow> entra_auth_config gateway_result" where
  "stored_entra_config header_name_ok s relayna_key_header =
     and_then (required_field (sa_tenant_id s)) (\<lambda>tenant.
     and_then (required_field (sa_audience s)) (\<lambda>audience.
     and_then (required_field (sa_issuer s)) (\<lambda>issuer.
     and_then (required_field (sa_oidc_discovery_url s)) (\<lambda>discovery.
     let c = \<lparr>ec_tenant_id = tenant, ec_audience = audience, ec_issuer = issuer, ec_oidc_discovery_url = discovery,
              ec_required_scope = normalized_non_empty (sa_required_scope s),
              ec_required_role = normalized_non_empty (sa_required_role s),
              ec_allowed_groups = sa_allowed_groups s,
              ec_accepted_algorithms =
                (if sa_accepted_algorithms s = [] then [''RS256''] else sa_accepted_algorithms s),
              ec_relayna_key_header = relayna_key_header,
              ec_jwks_cache_ttl_seconds =
                (case sa_jwks_cache_ttl_seconds s of None \<Rightarrow> 300 | Some v \<Rightarrow> if 0 \<le> v then nat v else 300),
              ec_clock_skew_seconds = (case sa_clock_skew_seconds s of None \<Rightarrow> 60 | Some v \<Rightarrow> v)\<rparr>
     in and_then (entra_config_validate header_name_ok c) (\<lambda>_. Ok c)))))"

definition stored_apigee_config :: "stored_auth_settings \<Rightarrow> apigee_config gateway_result" where
  "stored_apigee_config s =
     and_then (required_field (sa_apigee_trusted_header_secret s)) (\<lambda>secret.
     let c = \<lparr>ac_secret = secret, ac_required_scope = normalized_non_empty (sa_required_scope s),
              ac_required_role = normalized_non_empty (sa_required_role s), ac_allowed_groups = sa_allowed_groups s\<rparr>
     in and_then (apigee_validate c) (\<lambda>_. Ok c))"

definition stored_validate :: "(string \<Rightarrow> bool) \<Rightarrow> stored_auth_settings \<Rightarrow> unit gateway_result" where
  "stored_validate header_name_ok s =
     and_then (validate_unverified_bearer_mode (sa_unverified_bearer_enabled s) (sa_apigee_trusted_header_enabled s)) (\<lambda>_.
     and_then (if sa_entra_enabled s
               then and_then (stored_entra_config header_name_ok s
                      (case sa_relayna_key_header s of None \<Rightarrow> entra_default_relayna_key_header | Some h \<Rightarrow> h)) (\<lambda>_. Ok ())
               else Ok ()) (\<lambda>_.
     if sa_apigee_trusted_header_enabled s then and_then (stored_apigee_config s) (\<lambda>_. Ok ()) else Ok ()))"

definition keep_or :: "'a option \<Rightarrow> 'a \<Rightarrow> 'a" where
  "keep_or v old = (case v of None \<Rightarrow> old | Some x \<Rightarrow> x)"

definition patched_header :: "(string \<Rightarrow> bool) \<Rightarrow> string option \<Rightarrow> string option \<Rightarrow> string option gateway_result" where
  "patched_header header_name_ok patch old =
     (case patch of
        None \<Rightarrow> Ok old
      | Some v \<Rightarrow>
          (case normalize_optional_string (Some v) of
             None \<Rightarrow> Ok None
           | Some h \<Rightarrow> and_then (validate_relayna_key_header_name header_name_ok h) (\<lambda>_. Ok (Some h))))"

definition patched_ttl :: "nat option \<Rightarrow> int option \<Rightarrow> int option gateway_result" where
  "patched_ttl patch old =
     (case patch of
        None \<Rightarrow> Ok old
      | Some v \<Rightarrow> if int v \<le> i64_max then Ok (Some (int v)) else Err InvalidConfiguration)"

definition apply_patch :: "(string \<Rightarrow> bool) \<Rightarrow> stored_auth_settings \<Rightarrow> auth_settings_patch \<Rightarrow> stored_auth_settings gateway_result" where
  "apply_patch header_name_ok s p =
     and_then (patched_header header_name_ok (pt_relayna_key_header p) (sa_relayna_key_header s)) (\<lambda>relayna_header.
     and_then (patched_ttl (pt_jwks_cache_ttl_seconds p) (sa_jwks_cache_ttl_seconds s)) (\<lambda>ttl.
     let s = s\<lparr>sa_unverified_bearer_enabled := keep_or (pt_unverified_bearer_enabled p) (sa_unverified_bearer_enabled s),
              sa_entra_enabled := keep_or (pt_entra_enabled p) (sa_entra_enabled s),
              sa_apigee_trusted_header_enabled :=
                keep_or (pt_apigee_trusted_header_enabled p) (sa_apigee_trusted_header_enabled s),
              sa_relayna_key_header := relayna_header,
              sa_tenant_id := apply_string_patch (sa_tenant_id s) (pt_tenant_id p),
              sa_audience := apply_string_patch (sa_audience s) (pt_audience p),
              sa_issuer := apply_string_patch (sa_issuer s) (pt_issuer p),
              sa_oidc_discovery_url := apply_string_patch (sa_oidc_discovery_url s) (pt_oidc_discovery_url p),
              sa_required_scope := apply_string_patch (sa_required_scope s) (pt_required_scope p),
              sa_required_role := apply_string_patch (sa_required_role s) (pt_required_role p),
              sa_apigee_trusted_header_secret :=
                apply_string_patch (sa_apigee_trusted_header_secret s) (pt_apigee_trusted_header_secret p),
              sa_allowed_groups :=
                (case pt_allowed_groups p of None \<Rightarrow> sa_allowed_groups s | Some vs \<Rightarrow> normalize_string_list vs),
              sa_accepted_algorithms :=
                (case pt_accepted_algorithms p of None \<Rightarrow> sa_accepted_algorithms s | Some vs \<Rightarrow> normalize_string_list vs),
              sa_jwks_cache_ttl_seconds := ttl,
              sa_clock_skew_seconds :=
                (case pt_clock_skew_seconds p of None \<Rightarrow> sa_clock_skew_seconds s | Some v \<Rightarrow> Some v)\<rparr>
     in and_then (stored_validate header_name_ok s) (\<lambda>_. Ok s)))"

section \<open>Effective settings\<close>

definition from_sources ::
    "(string \<Rightarrow> bool) \<Rightarrow> stored_auth_settings option \<Rightarrow> gateway_auth_env \<Rightarrow> effective_auth_settings gateway_result" where
  "from_sources header_name_ok stored genv =
     (case stored of
        Some s \<Rightarrow>
          and_then (stored_validate header_name_ok s) (\<lambda>_.
          let relayna_header = (case normalized_non_empty (sa_relayna_key_header s) of
                                  None \<Rightarrow> ge_relayna_key_header genv | Some h \<Rightarrow> h)
          in and_then (if sa_entra_enabled s
                       then and_then (stored_entra_config header_name_ok s relayna_header) (\<lambda>c. Ok (Some c))
                       else Ok None) (\<lambda>entra.
             and_then (if sa_apigee_trusted_header_enabled s
                       then and_then (stored_apigee_config s) (\<lambda>c. Ok (Some c)) else Ok None) (\<lambda>apigee.
             Ok \<lparr>ef_unverified_bearer_enabled = sa_unverified_bearer_enabled s, ef_source = Persisted,
                 ef_relayna_key_header = relayna_header, ef_entra_auth = entra, ef_apigee_trusted_header = apigee,
                 ef_updated_at = sa_updated_at s\<rparr>)))
      | None \<Rightarrow>
          and_then (validate_unverified_bearer_mode (ge_unverified_bearer_enabled genv) (ge_apigee_trusted_header genv \<noteq> None)) (\<lambda>_.
          if ge_unverified_bearer_enabled genv \<or> ge_entra_auth genv \<noteq> None \<or> ge_apigee_trusted_header genv \<noteq> None
          then Ok \<lparr>ef_unverified_bearer_enabled = ge_unverified_bearer_enabled genv, ef_source = Environment,
                   ef_relayna_key_header = ge_relayna_key_header genv, ef_entra_auth = ge_entra_auth genv,
                   ef_apigee_trusted_header = ge_apigee_trusted_header genv, ef_updated_at = None\<rparr>
          else Ok \<lparr>ef_unverified_bearer_enabled = False, ef_source = Unset,
                   ef_relayna_key_header = ge_relayna_key_header genv, ef_entra_auth = None,
                   ef_apigee_trusted_header = None, ef_updated_at = None\<rparr>))"

definition runtime_config :: "effective_auth_settings \<Rightarrow> auth_runtime_config" where
  "runtime_config e =
     \<lparr>rt_unverified_bearer_enabled = ef_unverified_bearer_enabled e, rt_relayna_key_header = ef_relayna_key_header e,
      rt_entra_auth = ef_entra_auth e, rt_apigee_trusted_header = ef_apigee_trusted_header e\<rparr>"

definition entra_response :: "entra_auth_config \<Rightarrow> entra_settings_response" where
  "entra_response c =
     \<lparr>er_enabled = True, er_tenant_id = Some (ec_tenant_id c), er_audience = Some (ec_audience c),
      er_issuer = Some (ec_issuer c), er_oidc_discovery_url = Some (ec_oidc_discovery_url c),
      er_required_scope = ec_required_scope c, er_required_role = ec_required_role c,
      er_allowed_groups = ec_allowed_groups c, er_accepted_algorithms = ec_accepted_algorithms c,
      er_jwks_cache_ttl_seconds = ec_jwks_cache_ttl_seconds c, er_clock_skew_seconds = ec_clock_skew_seconds c\<rparr>"

definition settings_response :: "effective_auth_settings \<Rightarrow> auth_settings_response" where
  "settings_response e =
     \<lparr>rs_source = ef_source e, rs_unverified_bearer_enabled = ef_unverified_bearer_enabled e,
      rs_updated_at = ef_updated_at e, rs_relayna_key_header = ef_relayna_key_header e,
      rs_entra =
        (case ef_entra_auth e of
           Some c \<Rightarrow> entra_response c
         | None \<Rightarrow>
             \<lparr>er_enabled = False, er_tenant_id = None, er_audience = None, er_issuer = None, er_oidc_discovery_url = None,
              er_required_scope = None, er_required_role = None, er_allowed_groups = [],
              er_accepted_algorithms = [''RS256''], er_jwks_cache_ttl_seconds = 300, er_clock_skew_seconds = 60\<rparr>),
      rs_apigee_trusted_header_enabled = (ef_apigee_trusted_header e \<noteq> None),
      rs_apigee_secret_configured = (ef_apigee_trusted_header e \<noteq> None)\<rparr>"

section \<open>The shared runtime\<close>

record auth_runtime_state =
  as_config :: auth_runtime_config
  as_entra_verifier :: "entra_verifier option"

definition auth_runtime_state_new :: "jwt_env \<Rightarrow> auth_runtime_config \<Rightarrow> auth_runtime_state gateway_result" where
  "auth_runtime_state_new env c =
     and_then (validate_relayna_key_header_name (jv_header_name env) (rt_relayna_key_header c)) (\<lambda>_.
     and_then (validate_unverified_bearer_mode (rt_unverified_bearer_enabled c) (rt_apigee_trusted_header c \<noteq> None)) (\<lambda>_.
     and_then (case rt_entra_auth c of
                 None \<Rightarrow> Ok None
               | Some e \<Rightarrow> if rt_unverified_bearer_enabled c then Ok None
                           else and_then (entra_verifier_new env e) (\<lambda>v. Ok (Some v))) (\<lambda>v.
     Ok \<lparr>as_config = c, as_entra_verifier = v\<rparr>)))"

text \<open>The lock of the state is poisoned only by a panic of its holder, of which there is none; its branch is kept.\<close>

record shared_auth_runtime =
  sh_state :: auth_runtime_state
  sh_poisoned :: bool

definition shared_runtime_new :: "jwt_env \<Rightarrow> auth_runtime_config \<Rightarrow> shared_auth_runtime gateway_result" where
  "shared_runtime_new env c =
     and_then (auth_runtime_state_new env c) (\<lambda>s. Ok \<lparr>sh_state = s, sh_poisoned = False\<rparr>)"

definition runtime_update ::
    "jwt_env \<Rightarrow> auth_runtime_config \<Rightarrow> shared_auth_runtime \<Rightarrow> shared_auth_runtime \<times> unit gateway_result" where
  "runtime_update env c r =
     (if sh_poisoned r then (r, Err InvalidConfiguration)
      else if as_config (sh_state r) = c then (r, Ok ())
      else case auth_runtime_state_new env c of
        Inl e \<Rightarrow> (r, Err e)
      | Inr s \<Rightarrow> (r\<lparr>sh_state := s\<rparr>, Ok ()))"

definition refresh_from_store ::
    "jwt_env \<Rightarrow> stored_auth_settings option gateway_result \<Rightarrow> gateway_auth_env \<Rightarrow> shared_auth_runtime \<Rightarrow>
     shared_auth_runtime \<times> effective_auth_settings gateway_result" where
  "refresh_from_store env stored genv r =
     (case and_then stored (\<lambda>s. from_sources (jv_header_name env) s genv) of
        Inl e \<Rightarrow> (r, Err e)
      | Inr settings \<Rightarrow>
          (case runtime_update env (runtime_config settings) r of
             (r, Inl e) \<Rightarrow> (r, Err e)
           | (r, Inr _) \<Rightarrow> (r, Ok settings)))"

definition runtime_snapshot :: "shared_auth_runtime \<Rightarrow> auth_runtime_state gateway_result" where
  "runtime_snapshot r = (if sh_poisoned r then Err InvalidConfiguration else Ok (sh_state r))"

definition entra_enabled :: "auth_runtime_state \<Rightarrow> bool" where
  "entra_enabled s = (as_entra_verifier s \<noteq> None \<or> rt_apigee_trusted_header (as_config s) \<noteq> None)"

section \<open>White space\<close>

lemma strip_any_prefix_Some: "strip_any_prefix ws s = Some t \<Longrightarrow> \<exists>w\<in>set ws. s = w @ t"
  by (induction ws) (auto split: option.splits)

lemma strip_any_prefix_None: "strip_any_prefix ws s = None \<longleftrightarrow> (\<forall>w\<in>set ws. \<forall>t. s \<noteq> w @ t)"
  by (induction ws) (auto simp: strip_prefix_None_iff split: option.splits)

lemma trim_any_start_stops:
  assumes "[] \<notin> set ws"
  shows "strip_any_prefix ws (trim_any_start ws s) = None"
proof (induction "length s" arbitrary: s rule: less_induct)
  case less
  show ?case
  proof (cases "strip_any_prefix ws s")
    case None
    then show ?thesis by (simp add: trim_any_start.simps)
  next
    case (Some t)
    then have "length t < length s"
      using strip_any_prefix_Some [OF Some] assms by auto
    then show ?thesis using less Some by (simp add: trim_any_start.simps [of ws s])
  qed
qed

lemma trim_any_start_stopped: "strip_any_prefix ws s = None \<Longrightarrow> trim_any_start ws s = s"
  by (simp add: trim_any_start.simps)

lemma trim_any_start_suffix: "\<exists>p. s = p @ trim_any_start ws s"
proof (induction "length s" arbitrary: s rule: less_induct)
  case less
  show ?case
  proof (cases "strip_any_prefix ws s")
    case (Some t)
    obtain w where w: "s = w @ t" using strip_any_prefix_Some [OF Some] by blast
    show ?thesis
    proof (cases "length t < length s")
      case True
      obtain p where p: "t = p @ trim_any_start ws t" using less [OF True] by blast
      have "trim_any_start ws s = trim_any_start ws t"
        using True Some by (simp add: trim_any_start.simps [of ws s])
      then have "s = (w @ p) @ trim_any_start ws s" using w p by simp
      then show ?thesis by blast
    next
      case False
      then show ?thesis using Some by (simp add: trim_any_start.simps [of ws s])
    qed
  qed (simp add: trim_any_start.simps)
qed

lemma white_space_proper: "[] \<notin> set white_space" "[] \<notin> set (map rev white_space)"
  by (simp_all add: white_space_def)

lemma trim_trim [simp]: "trim (trim s) = trim s"
proof -
  define x where "x = trim_start s"
  define y where "y = trim_end x"
  have x: "strip_any_prefix white_space x = None"
    unfolding x_def trim_start_def by (rule trim_any_start_stops [OF white_space_proper(1)])
  obtain p where "rev x = p @ rev y"
    using trim_any_start_suffix [of "rev x" "map rev white_space"] unfolding y_def trim_end_def by auto
  then have "x = y @ rev p" by (metis rev_append rev_rev_ident)
  then have "strip_any_prefix white_space y = None"
    using x by (auto simp: strip_any_prefix_None)
  then have start: "trim_start y = y"
    unfolding trim_start_def by (rule trim_any_start_stopped)
  have "strip_any_prefix (map rev white_space) (rev y) = None"
    unfolding y_def trim_end_def rev_rev_ident by (rule trim_any_start_stops [OF white_space_proper(2)])
  then have "trim_end y = y"
    unfolding trim_end_def by (simp only: trim_any_start_stopped rev_rev_ident)
  then show ?thesis
    using start unfolding trim_def x_def [symmetric] y_def [symmetric] by simp
qed

section \<open>What an administrator stores can be loaded\<close>

lemma validate_header_trim:
  "validate_relayna_key_header_name hn (trim h) = validate_relayna_key_header_name hn h"
  by (simp add: validate_relayna_key_header_name_def)

text \<open>The configuration without the header name.\<close>

lemma stored_entra_config_Ok:
  assumes "stored_entra_config hn s h = Ok c"
  shows "entra_config_validate hn c = Ok () \<and>
         (\<forall>h'. stored_entra_config hn s h' =
            and_then (entra_config_validate hn (c\<lparr>ec_relayna_key_header := h'\<rparr>)) (\<lambda>_. Ok (c\<lparr>ec_relayna_key_header := h'\<rparr>))) \<and>
         ec_relayna_key_header c = h"
proof -
  obtain t a i d where fields_ok: "required_field (sa_tenant_id s) = Ok t" "required_field (sa_audience s) = Ok a"
    "required_field (sa_issuer s) = Ok i" "required_field (sa_oidc_discovery_url s) = Ok d"
    using assms unfolding stored_entra_config_def and_then_Ok_iff by blast
  have ok: "and_then r (\<lambda>_. Ok x) = Ok y \<longleftrightarrow> r = Ok () \<and> y = x" for r :: "unit gateway_result" and x y :: entra_auth_config
    by (cases r) (auto simp: and_then_def)
  have bind: "and_then (Ok x) f = f x" for x :: string and f :: "string \<Rightarrow> entra_auth_config gateway_result"
    by (simp add: and_then_def)
  show ?thesis
    using assms unfolding stored_entra_config_def fields_ok bind Let_def ok by simp
qed

lemma config_validate_header:
  "entra_config_validate hn c = Ok () \<Longrightarrow> validate_relayna_key_header_name hn (ec_relayna_key_header c) = Ok ()"
  by (simp add: entra_config_validate_def split: if_splits)

lemma config_validate_update:
  "entra_config_validate hn c = Ok () \<Longrightarrow> validate_relayna_key_header_name hn h = Ok () \<Longrightarrow>
   entra_config_validate hn (c\<lparr>ec_relayna_key_header := h\<rparr>) = Ok ()"
  by (simp add: entra_config_validate_def split: if_splits)

lemma stored_entra_config_header:
  assumes "stored_entra_config hn s h = Ok c" "validate_relayna_key_header_name hn h' = Ok ()"
  shows "stored_entra_config hn s h' = Ok (c\<lparr>ec_relayna_key_header := h'\<rparr>)"
  using stored_entra_config_Ok [OF assms(1)] config_validate_update [OF _ assms(2)] by (simp add: and_then_def)

lemma stored_entra_config_name:
  "stored_entra_config hn s h = Ok c \<Longrightarrow> validate_relayna_key_header_name hn h = Ok ()"
  using stored_entra_config_Ok config_validate_header by metis

lemma normalized_header_valid:
  assumes "validate_relayna_key_header_name hn (case h of None \<Rightarrow> d | Some x \<Rightarrow> x) = Ok ()"
    and "validate_relayna_key_header_name hn e = Ok ()"
  shows "validate_relayna_key_header_name hn (case normalized_non_empty h of None \<Rightarrow> e | Some x \<Rightarrow> x) = Ok ()"
  using assms by (cases h) (auto simp: normalized_non_empty_def validate_header_trim)

lemma stored_validate_Ok:
  "stored_validate hn s = Ok () \<longleftrightarrow>
     \<not> (sa_unverified_bearer_enabled s \<and> sa_apigee_trusted_header_enabled s) \<and>
     (sa_entra_enabled s \<longrightarrow> (\<exists>c. stored_entra_config hn s
        (case sa_relayna_key_header s of None \<Rightarrow> entra_default_relayna_key_header | Some h \<Rightarrow> h) = Ok c)) \<and>
     (sa_apigee_trusted_header_enabled s \<longrightarrow> (\<exists>c. stored_apigee_config s = Ok c))"
  by (auto simp: stored_validate_def and_then_Ok_iff validate_unverified_bearer_mode_def)

lemma from_sources_stored:
  assumes "stored_validate hn s = Ok ()" "validate_relayna_key_header_name hn (ge_relayna_key_header genv) = Ok ()"
  shows "\<exists>e. from_sources hn (Some s) genv = Ok e"
proof -
  let ?h = "case normalized_non_empty (sa_relayna_key_header s) of None \<Rightarrow> ge_relayna_key_header genv | Some h \<Rightarrow> h"
  have "\<exists>c. stored_entra_config hn s ?h = Ok c" if entra: "sa_entra_enabled s"
  proof -
    obtain c where c: "stored_entra_config hn s
        (case sa_relayna_key_header s of None \<Rightarrow> entra_default_relayna_key_header | Some h \<Rightarrow> h) = Ok c"
      using assms(1) entra unfolding stored_validate_Ok by blast
    show ?thesis
      using stored_entra_config_header [OF c normalized_header_valid [OF stored_entra_config_name [OF c] assms(2)]] by blast
  qed
  moreover have "\<exists>c. stored_apigee_config s = Ok c" if "sa_apigee_trusted_header_enabled s"
    using assms(1) that unfolding stored_validate_Ok by blast
  ultimately show ?thesis
    using assms(1) by (cases "sa_entra_enabled s"; cases "sa_apigee_trusted_header_enabled s")
      (auto simp: from_sources_def Let_def and_then_def split: sum.splits)
qed

text \<open>
  What an accepted patch leaves in the store can be loaded: with a usable header name in the environment, the effective
  settings of the patched settings exist.
\<close>

theorem patched_settings_load:
  assumes "apply_patch hn s p = Ok s'" "validate_relayna_key_header_name hn (ge_relayna_key_header genv) = Ok ()"
  shows "\<exists>e. from_sources hn (Some s') genv = Ok e"
proof -
  have "stored_validate hn s' = Ok ()"
    using assms(1) by (auto simp: apply_patch_def and_then_Ok_iff Let_def)
  then show ?thesis using from_sources_stored assms(2) by blast
qed

section \<open>The runtime installs what it validated\<close>

text \<open>The runtime through its operations, and the verifier through its refreshes.\<close>

inductive auth_reachable :: "jwt_env \<Rightarrow> (nat \<Rightarrow> oidc_network) \<Rightarrow> shared_auth_runtime \<Rightarrow> bool"
  for env net where
  started: "shared_runtime_new env c = Ok r \<Longrightarrow> auth_reachable env net r"
| updated: "auth_reachable env net r \<Longrightarrow> runtime_update env c r = (r', result) \<Longrightarrow> auth_reachable env net r'"
| reloaded: "auth_reachable env net r \<Longrightarrow> refresh_from_store env stored genv r = (r', settings) \<Longrightarrow> auth_reachable env net r'"
| refreshed: "auth_reachable env net r \<Longrightarrow> as_entra_verifier (sh_state r) = Some v \<Longrightarrow>
     refresh_keys env (net attempt) ctx token attempt stored v = (v', verdict) \<Longrightarrow>
     auth_reachable env net (r\<lparr>sh_state := (sh_state r)\<lparr>as_entra_verifier := Some v'\<rparr>\<rparr>)"

definition auth_state_inv :: "jwt_env \<Rightarrow> (nat \<Rightarrow> oidc_network) \<Rightarrow> auth_runtime_state \<Rightarrow> bool" where
  "auth_state_inv env net s \<longleftrightarrow>
     validate_relayna_key_header_name (jv_header_name env) (rt_relayna_key_header (as_config s)) = Ok () \<and>
     \<not> (rt_unverified_bearer_enabled (as_config s) \<and> rt_apigee_trusted_header (as_config s) \<noteq> None) \<and>
     (case as_entra_verifier s of
        None \<Rightarrow> rt_entra_auth (as_config s) = None \<or> rt_unverified_bearer_enabled (as_config s)
      | Some v \<Rightarrow> \<not> rt_unverified_bearer_enabled (as_config s) \<and> rt_entra_auth (as_config s) = Some (ev_config v) \<and>
                  jwks_reached env net (ev_config v) v)"

lemma entra_verifier_new_reached:
  assumes "entra_verifier_new env c = Ok v"
  shows "ev_config v = c \<and> jwks_reached env net c v"
proof -
  have "jwks_run env net c v []" using assms by (rule jwks_run.fresh)
  then show ?thesis using jwks_run_invariant unfolding jwks_reached_def by blast
qed

lemma auth_runtime_state_new_inv:
  assumes "auth_runtime_state_new env c = Ok s"
  shows "as_config s = c \<and> auth_state_inv env net s"
proof -
  obtain v where v: "(case rt_entra_auth c of None \<Rightarrow> Ok None
      | Some e \<Rightarrow> if rt_unverified_bearer_enabled c then Ok None
                  else and_then (entra_verifier_new env e) (\<lambda>v. Ok (Some v))) = Ok v"
    and s: "s = \<lparr>as_config = c, as_entra_verifier = v\<rparr>"
    and name: "validate_relayna_key_header_name (jv_header_name env) (rt_relayna_key_header c) = Ok ()"
    and mode: "validate_unverified_bearer_mode (rt_unverified_bearer_enabled c) (rt_apigee_trusted_header c \<noteq> None) = Ok ()"
    using assms by (auto simp: auth_runtime_state_new_def and_then_Ok_iff)
  have "\<not> rt_unverified_bearer_enabled c \<and> rt_entra_auth c = Some (ev_config w) \<and> jwks_reached env net (ev_config w) w"
    if "v = Some w" for w
    using v that entra_verifier_new_reached [of env _ w net]
    by (auto simp: and_then_Ok_iff split: option.splits if_splits)
  moreover have "rt_entra_auth c = None \<or> rt_unverified_bearer_enabled c" if "v = None"
    using v that by (auto simp: and_then_Ok_iff split: option.splits if_splits)
  ultimately show ?thesis
    using s name mode by (auto simp: auth_state_inv_def validate_unverified_bearer_mode_def split: option.splits if_splits)
qed

lemma runtime_update_inv:
  assumes "runtime_update env c r = (r', result)" "auth_state_inv env net (sh_state r)"
  shows "auth_state_inv env net (sh_state r') \<and> sh_poisoned r' = sh_poisoned r"
proof (cases "auth_runtime_state_new env c")
  case (Inr s)
  then have "auth_state_inv env net s" using auth_runtime_state_new_inv by blast
  then show ?thesis using assms Inr by (auto simp: runtime_update_def split: if_splits)
qed (use assms in \<open>auto simp: runtime_update_def split: if_splits\<close>)

lemma refresh_from_store_inv:
  assumes "refresh_from_store env stored genv r = (r', settings)" "auth_state_inv env net (sh_state r)"
  shows "auth_state_inv env net (sh_state r') \<and> sh_poisoned r' = sh_poisoned r"
  using assms runtime_update_inv [of env _ r]
  by (auto simp: refresh_from_store_def split: sum.splits prod.splits)

lemma auth_reachable_inv:
  "auth_reachable env net r \<Longrightarrow> auth_state_inv env net (sh_state r) \<and> \<not> sh_poisoned r"
proof (induction rule: auth_reachable.induct)
  case (started c r)
  then show ?case using auth_runtime_state_new_inv [of env c _ net] by (auto simp: shared_runtime_new_def and_then_Ok_iff)
next
  case (updated r c r' result)
  then show ?case using runtime_update_inv by blast
next
  case (reloaded r stored genv r' settings)
  then show ?case using refresh_from_store_inv by blast
next
  case (refreshed r v attempt ctx token stored v' verdict)
  have "ev_config v' = ev_config v"
    using refresh_keys_state [OF refreshed.hyps(3)] refresh_throttled_state [OF refreshed.hyps(3)]
    by (cases "refresh_throttled v attempt") auto
  moreover have "jwks_reached env net (ev_config v) v'"
    using jwks_reached_refresh [of env net "ev_config v" v attempt ctx token stored v' verdict] refreshed
    by (simp add: auth_state_inv_def)
  ultimately show ?case using refreshed by (simp add: auth_state_inv_def)
qed

text \<open>
  The invariant of the shared runtime: the header name is usable, unverified bearers and the trusted header exclude each
  other, a verifier is installed exactly when an Entra configuration is and bearers are verified, it checks against
  that configuration, and installing the configuration in force again keeps the verifier and the keys it has.
\<close>

theorem auth_runtime_consistent:
  assumes "auth_reachable env net r"
  shows "auth_state_inv env net (sh_state r) \<and> runtime_snapshot r = Ok (sh_state r) \<and>
         runtime_update env (as_config (sh_state r)) r = (r, Ok ())"
  using auth_reachable_inv [OF assms] by (simp add: runtime_snapshot_def runtime_update_def)

end
