(* ===== verification/Request_Identity.thy ===== *)
theory Request_Identity
  imports Auth_Settings Proxy_Context
begin

text \<open>
  The identity of a request: \<open>verify_entra_request\<close> of \<open>gateway-proxy/src/pingora_plane.rs\<close>, for the routes the global
  settings protect, and \<open>verify_endpoint_identity\<close> of \<open>gateway-proxy/src/accessa_runtime.rs\<close>, for an endpoint with a
  policy of its own. Both work on a snapshot of the shared authentication runtime; its verifier is shared with the
  runtime, so that the verifier after the call is returned too.
\<close>

definition apigee_headers_present :: "header_map \<Rightarrow> bool" where
  "apigee_headers_present req =
     (header_value req ''x-apigee-entra-identity'' \<noteq> None \<or> header_value req ''x-apigee-entra-signature'' \<noteq> None)"

definition apigee_verdict ::
    "jwt_env \<Rightarrow> apigee_env \<Rightarrow> header_map \<Rightarrow> apigee_config \<Rightarrow> entra_debug_context \<Rightarrow> entra_identity verdict" where
  "apigee_verdict env ag req c ctx =
     verify_apigee_trusted_identity_with_context env ag (header_value req ''x-apigee-entra-identity'')
       (header_value req ''x-apigee-entra-signature'') c ctx"

definition bearer_verdict ::
    "jwt_env \<Rightarrow> oidc_network \<Rightarrow> verify_moments \<Rightarrow> header_map \<Rightarrow> int \<Rightarrow> auth_runtime_state \<Rightarrow> string \<Rightarrow>
     entra_verifier option \<times> entra_identity verdict" where
  "bearer_verdict env net m req now auth request_id =
     (case as_entra_verifier auth of
        None \<Rightarrow> (None, [], Some (Err MissingEntraAuthorization))
      | Some v \<Rightarrow>
          let (v, r) = verify_authorization_with_context env net
                \<lparr>dx_surface = ''request_plane'', dx_request_id = Some request_id\<rparr> m
                (header_value req ''authorization'') now v
          in (Some v, r))"

definition verify_entra_request ::
    "jwt_env \<Rightarrow> apigee_env \<Rightarrow> oidc_network \<Rightarrow> verify_moments \<Rightarrow> header_map \<Rightarrow> int \<Rightarrow> auth_runtime_state \<Rightarrow> string \<Rightarrow>
     entra_verifier option \<times> entra_identity verdict" where
  "verify_entra_request env ag net m req now auth request_id =
     (case rt_apigee_trusted_header (as_config auth) of
        Some c \<Rightarrow>
          if apigee_headers_present req
          then (as_entra_verifier auth,
                apigee_verdict env ag req c \<lparr>dx_surface = ''request_plane_apigee'', dx_request_id = Some request_id\<rparr>)
          else bearer_verdict env net m req now auth request_id
      | None \<Rightarrow> bearer_verdict env net m req now auth request_id)"

text \<open>The requirements of the endpoint replace the global ones.\<close>

definition without_requirements :: "apigee_config \<Rightarrow> apigee_config" where
  "without_requirements c = c\<lparr>ac_required_scope := None, ac_required_role := None, ac_allowed_groups := []\<rparr>"

definition endpoint_apigee_identity ::
    "jwt_env \<Rightarrow> apigee_env \<Rightarrow> header_map \<Rightarrow> int \<Rightarrow> auth_runtime_state \<Rightarrow> entra_debug_context \<Rightarrow> endpoint_entra_policy \<Rightarrow>
     entra_identity verdict" where
  "endpoint_apigee_identity env ag req now auth ctx policy =
     (if \<not> ee_allow_apigee policy then ([], Some (Err UntrustedApigeeIdentity))
      else case rt_apigee_trusted_header (as_config auth) of
        None \<Rightarrow> ([], Some (Err UntrustedApigeeIdentity))
      | Some c \<Rightarrow>
          verdict_then (apigee_verdict env ag req (without_requirements c) ctx) (\<lambda>i.
            if (case rt_entra_auth (as_config auth) of None \<Rightarrow> True | Some e \<Rightarrow> ec_tenant_id e \<noteq> ei_tenant_id i)
            then ([], Some (Err InvalidEntraIssuer))
            else case entra_authorize policy i (now div nanos) of
              Inl e \<Rightarrow> ([], Some (Err e))
            | Inr _ \<Rightarrow> accept i))"

definition verify_endpoint_identity ::
    "jwt_env \<Rightarrow> apigee_env \<Rightarrow> oidc_network \<Rightarrow> verify_moments \<Rightarrow> header_map \<Rightarrow> int \<Rightarrow> auth_runtime_state \<Rightarrow> string \<Rightarrow>
     endpoint_entra_policy \<Rightarrow> entra_verifier option \<times> entra_identity verdict" where
  "verify_endpoint_identity env ag net m req now auth request_id policy =
     (let ctx = \<lparr>dx_surface = ''endpoint'', dx_request_id = Some request_id\<rparr> in
      if apigee_headers_present req
      then (as_entra_verifier auth, endpoint_apigee_identity env ag req now auth ctx policy)
      else case header_value req ''authorization'' of
        None \<Rightarrow> (as_entra_verifier auth, [], Some (Err MissingEntraAuthorization))
      | Some authorization \<Rightarrow>
          (case strip_prefix ''Bearer '' authorization of
             None \<Rightarrow> (as_entra_verifier auth, [], Some (Err MalformedEntraAuthorization))
           | Some token \<Rightarrow>
               (case as_entra_verifier auth of
                  None \<Rightarrow> (None, [], Some (Err InvalidConfiguration))
                | Some v \<Rightarrow>
                    let (v, r) = verify_token_for_endpoint env net ctx m (trim token) now (Some policy) v
                    in (Some v, r))))"

section \<open>Laws\<close>

lemma apigee_verdict_source:
  assumes "snd (apigee_verdict env ag req c ctx) = Some (Ok i)"
  obtains h s where "header_value req ''x-apigee-entra-identity'' = Some h" "header_value req ''x-apigee-entra-signature'' = Some s"
    "sign_apigee_trusted_identity ag h c = Ok s" "ei_source i = ApigeeTrustedHeader"
proof -
  obtain h s where hs: "header_value req ''x-apigee-entra-identity'' = Some h" "header_value req ''x-apigee-entra-signature'' = Some s"
    using assms apigee_needs_both_headers [of "header_value req ''x-apigee-entra-identity''"
        "header_value req ''x-apigee-entra-signature''" env ag c ctx i]
    unfolding apigee_verdict_def
    by (cases "header_value req ''x-apigee-entra-identity''"; cases "header_value req ''x-apigee-entra-signature''") auto
  have "snd (verify_apigee_trusted_identity_with_context env ag (Some h) (Some s) c ctx) = Some (Ok i)"
    using assms unfolding apigee_verdict_def hs .
  then show ?thesis using that [OF hs] apigee_accepted_iff by fastforce
qed

lemma endpoint_apigee_identity_Ok:
  assumes "snd (endpoint_apigee_identity env ag req now auth ctx policy) = Some (Ok i)"
  obtains c e h s where "ee_allow_apigee policy" "rt_apigee_trusted_header (as_config auth) = Some c"
    "rt_entra_auth (as_config auth) = Some e" "ei_tenant_id i = ec_tenant_id e"
    "entra_authorize policy i (now div nanos) = Ok ()" "ei_source i = ApigeeTrustedHeader"
    "header_value req ''x-apigee-entra-identity'' = Some h" "header_value req ''x-apigee-entra-signature'' = Some s"
    "sign_apigee_trusted_identity ag h (without_requirements c) = Ok s"
proof -
  obtain c where c: "ee_allow_apigee policy" "rt_apigee_trusted_header (as_config auth) = Some c"
    using assms by (auto simp: endpoint_apigee_identity_def split: if_splits option.splits)
  obtain j where j: "snd (apigee_verdict env ag req (without_requirements c) ctx) = Some (Ok j)"
    and rest: "snd (if (case rt_entra_auth (as_config auth) of None \<Rightarrow> True | Some e \<Rightarrow> ec_tenant_id e \<noteq> ei_tenant_id j)
            then ([], Some (Err InvalidEntraIssuer))
            else case entra_authorize policy j (now div nanos) of Inl e \<Rightarrow> ([], Some (Err e)) | Inr _ \<Rightarrow> accept j) = Some (Ok i)"
    using assms c by (auto simp: endpoint_apigee_identity_def verdict_then_Ok)
  obtain e where "rt_entra_auth (as_config auth) = Some e" "ei_tenant_id j = ec_tenant_id e"
    "entra_authorize policy j (now div nanos) = Ok ()" "i = j"
    using rest by (auto split: if_splits option.splits sum.splits)
  then show ?thesis
    using that c apigee_verdict_source [OF j] by metis
qed

lemma claims_identity_fields [simp]:
  "ei_source (claims_identity c) = Jwt" "ei_tenant_id (claims_identity c) = cl_tid c"
  by (simp_all add: claims_identity_def)

section \<open>The identity of an endpoint\<close>

text \<open>What stands behind an identity: a bearer of this request whose signature a key of the issuer verifies, or signed headers.\<close>

definition bearer_backed ::
    "jwt_env \<Rightarrow> (nat \<Rightarrow> oidc_network) \<Rightarrow> entra_auth_config \<Rightarrow> header_map \<Rightarrow> entra_identity \<Rightarrow> bool" where
  "bearer_backed env net cfg req i \<longleftrightarrow>
     (\<exists>token k t a c. header_value req ''authorization'' = Some (''Bearer '' @ token) \<and> serves (net t) cfg k \<and>
        jv_decode env (trim token) (jw_n k) (jw_e k) a = Ok c \<and> cl_iss c = ec_issuer cfg \<and> i = claims_identity c)"

definition apigee_backed :: "apigee_env \<Rightarrow> apigee_config \<Rightarrow> header_map \<Rightarrow> bool" where
  "apigee_backed ag c req \<longleftrightarrow>
     (\<exists>h s. header_value req ''x-apigee-entra-identity'' = Some h \<and> header_value req ''x-apigee-entra-signature'' = Some s \<and>
        sign_apigee_trusted_identity ag h c = Ok s)"

text \<open>A request with a bearer for the sample tenant.\<close>

definition sample_policy :: endpoint_entra_policy where
  "sample_policy =
     \<lparr>ee_audience = ''api'', ee_required_scopes = [''read''], ee_required_roles = [], ee_allowed_groups = [], ee_allow_apigee = False\<rparr>"

definition sample_auth_config :: auth_runtime_config where
  "sample_auth_config =
     \<lparr>rt_unverified_bearer_enabled = False, rt_relayna_key_header = ''k'', rt_entra_auth = Some sample_entra,
      rt_apigee_trusted_header = None\<rparr>"

definition sample_shared :: shared_auth_runtime where
  "sample_shared =
     \<lparr>sh_state = \<lparr>as_config = sample_auth_config, as_entra_verifier = Some sample_entra_verifier\<rparr>, sh_poisoned = False\<rparr>"

definition sample_headers :: header_map where
  "sample_headers = [(''authorization'', ''Bearer tok'')]"

lemma sample_shared_reachable: "auth_reachable sample_jwt net sample_shared"
proof (rule auth_reachable.started)
  show "shared_runtime_new sample_jwt sample_auth_config = Ok sample_shared" by code_simp
qed

lemma sample_policy_pass:
  "validate_claims_for_endpoint sample_jwt sample_entra sample_claims (950 * nanos) (Some sample_policy) =
     Some (Ok (claims_identity sample_claims))"
  by code_simp

lemma sample_request_accepted:
  "verify_endpoint_identity sample_jwt ag sample_oidc sample_moments sample_headers (950 * nanos) (sh_state sample_shared) rid
     sample_policy =
   (Some (fst (refresh_keys sample_jwt sample_oidc \<lparr>dx_surface = ''endpoint'', dx_request_id = Some rid\<rparr> ''tok'' 2 3 sample_entra_verifier)),
    [], Some (Ok (claims_identity sample_claims)))"
proof -
  have "\<not> apigee_headers_present sample_headers" "header_value sample_headers ''authorization'' = Some ''Bearer tok''"
    "strip_prefix ''Bearer '' ''Bearer tok'' = Some ''tok''" "trim ''tok'' = ''tok''"
    by code_simp+
  moreover have "as_entra_verifier (sh_state sample_shared) = Some sample_entra_verifier"
    by (simp add: sample_shared_def)
  ultimately show ?thesis
    by (simp only: verify_endpoint_identity_def Let_def if_False option.case sample_accepted [OF sample_policy_pass] prod.case)
qed



end
