(* ===== verification/Accessa_Sessions.thy ===== *)
theory Accessa_Sessions
  imports Upstream_Request Control_State Socket_Frames "HOL-Library.Multiset"
begin

text \<open>
  Accessa sessions (\<open>gateway-proxy/src/accessa_runtime.rs\<close> with \<open>gateway-core/src/accessa.rs\<close> and the token store of
  \<open>gateway-store/src/redis.rs\<close>): the admission of a connection, which stores a session, and the admission of each turn of
  the session, which checks key, registration, identity, policy and budget again and charges the rate limit once per turn. The
  database, UUIDs, SHA-256 and the session's JSON are parameters, as is the Redis server; \<open>Utc::now\<close> and the server's
  time are arguments. Traffic diagnostics are left out.
\<close>

section \<open>The token store\<close>

definition accessa_get :: "'s redis_env \<Rightarrow> 's \<Rightarrow> nat \<Rightarrow> string \<Rightarrow> string option" where
  "accessa_get env st t k = re_get env st t k"

definition accessa_put :: "'s redis_env \<Rightarrow> 's \<Rightarrow> nat \<Rightarrow> string \<Rightarrow> string \<Rightarrow> nat \<Rightarrow> bool \<Rightarrow> bool \<times> 's" where
  "accessa_put env st t k v ttl only_if_absent =
     (if only_if_absent \<and> re_get env st t k \<noteq> None then (False, st)
      else (True, re_set_ex env st t k v (max ttl 1)))"

definition accessa_delete :: "'s redis_env \<Rightarrow> 's \<Rightarrow> string \<Rightarrow> 's" where
  "accessa_delete env st k = re_del env st k"

section \<open>Sessions\<close>

record accessa_session =
  ss_key_id :: string
  ss_key_prefix :: string
  ss_service_name :: string
  ss_identity :: entra_identity
  ss_access :: endpoint_access
  ss_expires_at :: int

record 's accessa_env =
  ax_redis :: "'s redis_env"
  ax_epoch :: string
  ax_policy :: "string \<Rightarrow> string option \<Rightarrow> effective_policy gateway_result"
  ax_committed :: "string \<Rightarrow> int \<Rightarrow> budget_state gateway_result"
  ax_find_by_prefix :: "string \<Rightarrow> stored_virtual_key option gateway_result"
  ax_registration :: "string \<Rightarrow> service_registration option gateway_result"
  ax_parse_uuid :: "string \<Rightarrow> string option"
  ax_sha256_hex :: "string \<Rightarrow> string"
  ax_session_to_json :: "accessa_session \<Rightarrow> string option"
  ax_session_from_json :: "string \<Rightarrow> accessa_session option"

definition admission_prefix :: string where
  "admission_prefix = ''/internal/accessa/admissions/''"

definition session_store_key :: "'s accessa_env \<Rightarrow> string \<Rightarrow> string gateway_result" where
  "session_store_key env token =
     and_then (ok_or (ax_parse_uuid env token) InvalidVirtualKey) (\<lambda>_. Ok (''accessa:session:'' @ ax_sha256_hex env token))"

section \<open>Policy, budget and rate\<close>

text \<open>The times of one call, in seconds; a pair has the times of two commands of a pipeline.\<close>

record accessa_times =
  tm_now :: int
  tm_key_now :: int
  tm_policy :: int
  tm_budget :: int
  tm_rate :: int
  tm_server_budget :: "nat \<times> nat \<times> nat"
  tm_server_get :: nat

definition accessa_policy ::
    "'s accessa_env \<Rightarrow> int \<Rightarrow> authenticated_key \<Rightarrow> string \<Rightarrow> bool \<Rightarrow> key_policy gateway_result" where
  "accessa_policy env now key service stream =
     and_then (ax_policy env (ak_key_id key) (ak_project_id key)) (\<lambda>effective.
     let policy = ep_policy effective
     in if service \<notin> set (kp_allowed_services policy) then Err PolicyDenied
        else and_then (evaluate_policy policy ServiceWildcard InternalService
                 (default_features\<lparr>gf_service_name := Some service, gf_stream := stream\<rparr>)) (\<lambda>_.
             and_then (evaluate_policy_limits policy now None None None None None) (\<lambda>_. Ok policy)))"

definition accessa_budget ::
    "'s accessa_env \<Rightarrow> accessa_times \<Rightarrow> 's \<Rightarrow> authenticated_key \<Rightarrow> key_policy \<Rightarrow> unit gateway_result \<times> 's" where
  "accessa_budget env tm st key policy =
     (let (t, t', t'') = tm_server_budget tm;
          check = (\<lambda>st t. check_budget (ax_redis env) st t (ax_epoch env) (ak_key_id key) (kp_daily_budget_usd policy)
                     (kp_monthly_budget_usd policy) (tm_budget tm));
          decide = (\<lambda>d. case d of Inl e \<Rightarrow> Err e | Inr (BudgetAllowed _) \<Rightarrow> Ok ()
                                | Inr (Control_State.BudgetExceeded _) \<Rightarrow> Err Gateway_Errors.BudgetExceeded)
      in if check st t = Err ControlStateUnavailable then
           case ax_committed env (ak_key_id key) (tm_budget tm) of
             Inl e \<Rightarrow> (Err e, st)
           | Inr committed \<Rightarrow>
               (case seed_committed_budget (ax_redis env) st t' (ax_epoch env) (ak_key_id key) committed (tm_budget tm) of
                  (Inl e, st) \<Rightarrow> (Err e, st)
                | (Inr _, st) \<Rightarrow> (decide (check st t''), st))
         else (decide (check st t), st))"

definition accessa_rate ::
    "'s accessa_env \<Rightarrow> int \<Rightarrow> 's \<Rightarrow> nat \<Rightarrow> nat \<Rightarrow> authenticated_key \<Rightarrow> key_policy \<Rightarrow> unit gateway_result \<times> 's" where
  "accessa_rate env now st t t' key policy =
     (case check_request_rate_limit (ax_redis env) st t t' (ak_key_id key) (kp_rpm_limit policy) now of
        (Inl e, st) \<Rightarrow> (Err e, st)
      | (Inr (RateAllowed _), st) \<Rightarrow> (Ok (), st)
      | (Inr (RateExceeded _ retry), st) \<Rightarrow> (Err (RateLimitExceeded retry), st))"

section \<open>Admission of a connection\<close>

record socket_context = pingora_context +
  sx_lease :: "connection_entry option"
  sx_request_frames :: "frame_limit option"
  sx_response_frames :: "frame_limit option"
  sx_expires_at :: int

definition attach_socket ::
    "connection_counts \<Rightarrow> socket_context \<Rightarrow> string \<Rightarrow> authenticated_key \<Rightarrow> accessa_binding \<Rightarrow>
     unit gateway_result \<times> socket_context \<times> connection_counts" where
  "attach_socket counts ctx service key binding =
     (if \<not> pc_socket ctx then (Ok (), ctx, counts)
      else case connection_acquire counts service (ak_key_id key) (ab_max_connections binding) (ab_max_connections_per_key binding) of
        (Inl e, counts) \<Rightarrow> (Err e, ctx, counts)
      | (Inr entry, counts) \<Rightarrow>
          (Ok (), ctx\<lparr>sx_lease := Some entry, sx_request_frames := Some (frame_limit_new (ab_max_frame_bytes binding) True),
                     sx_response_frames := Some (frame_limit_new (ab_max_frame_bytes binding) False), pc_is_streaming := True\<rparr>,
           counts))"

text \<open>The session of a connection; \<open>token\<close> is the fresh UUID.\<close>

definition open_session ::
    "'s accessa_env \<Rightarrow> int \<Rightarrow> nat \<Rightarrow> string \<Rightarrow> 's \<Rightarrow> socket_context \<Rightarrow> string \<Rightarrow> authenticated_key \<Rightarrow> entra_identity \<Rightarrow>
     unit gateway_result \<times> socket_context \<times> 's" where
  "open_session env now t token st ctx service key identity =
     (case ei_expires_at identity of
        None \<Rightarrow> (Err ExpiredEntraToken, ctx, st)
      | Some expiry \<Rightarrow>
          let expires_at = min expiry (now + 3600)
          in if expires_at \<le> now then (Err ExpiredEntraToken, ctx, st)
             else
               let snapshot = \<lparr>ss_key_id = ak_key_id key, ss_key_prefix = ak_key_prefix key, ss_service_name = service,
                               ss_identity = identity, ss_access = pc_access ctx, ss_expires_at = expires_at\<rparr>
               in case ax_session_to_json env snapshot of
                    None \<Rightarrow> (Err InvalidConfiguration, ctx, st)
                  | Some v \<Rightarrow>
                      (case session_store_key env token of
                         Inl e \<Rightarrow> (Err e, ctx, st)
                       | Inr k \<Rightarrow>
                           (Ok (), ctx\<lparr>pc_admission_token := Some token, sx_expires_at := expires_at\<rparr>,
                            snd (accessa_put (ax_redis env) st t k v (nat (expires_at - now)) False))))"

definition admit_accessa_connection ::
    "'s accessa_env \<Rightarrow> accessa_times \<Rightarrow> nat \<times> nat \<Rightarrow> nat \<Rightarrow> string \<Rightarrow> connection_counts \<Rightarrow> 's \<Rightarrow> socket_context \<Rightarrow> authenticated_key \<Rightarrow>
     unit gateway_result \<times> socket_context \<times> connection_counts \<times> 's" where
  "admit_accessa_connection env tm rate_times put_time token counts st ctx key =
     (case Option.bind (pc_route_match ctx) rm_service_name of
        None \<Rightarrow> (Err MissingService, ctx, counts, st)
      | Some service \<Rightarrow>
     (case pc_entra_identity ctx of
        None \<Rightarrow> (Err MissingEntraAuthorization, ctx, counts, st)
      | Some identity \<Rightarrow>
     if ei_object_id identity = None \<or> ei_object_id identity = Some []
     then (Err InsufficientEntraAuthorization, ctx, counts, st)
     else case accessa_policy env (tm_policy tm) key service (pc_socket ctx) of
        Inl e \<Rightarrow> (Err e, ctx, counts, st)
      | Inr policy \<Rightarrow>
     (case accessa_rate env (tm_rate tm) st (fst rate_times) (snd rate_times) key policy of
        (Inl e, st) \<Rightarrow> (Err e, ctx, counts, st)
      | (Inr _, st) \<Rightarrow>
     (case accessa_budget env tm st key policy of
        (Inl e, st) \<Rightarrow> (Err e, ctx, counts, st)
      | (Inr _, st) \<Rightarrow>
     let ctx = ctx\<lparr>pc_policy := Some policy\<rparr> in
     (case ea_accessa (pc_access ctx) of
        None \<Rightarrow> (Err InvalidConfiguration, ctx, counts, st)
      | Some binding \<Rightarrow>
     (case attach_socket counts ctx service key binding of
        (Inl e, ctx, counts) \<Rightarrow> (Err e, ctx, counts, st)
      | (Inr _, ctx, counts) \<Rightarrow>
          if ab_app binding = None then (Ok (), ctx, counts, st)
          else let (r, ctx, st) = open_session env (tm_now tm) put_time token st ctx service key identity
               in (r, ctx, counts, st)))))))"

section \<open>Admission of a turn\<close>

record turn_request =
  tq_method :: string
  tq_path :: string
  tq_headers :: header_map

definition admission_request :: "'s accessa_env \<Rightarrow> turn_request \<Rightarrow> (string \<times> string) gateway_result" where
  "admission_request env req =
     (if tq_method req \<noteq> ''POST'' \<or> get_all (tq_headers req) ''transfer-encoding'' \<noteq> [] \<or>
         (case header_value (tq_headers req) ''content-length'' of None \<Rightarrow> False | Some v \<Rightarrow> v \<noteq> ''0'')
      then Err InvalidServicePayload
      else and_then (ok_or (Option.bind (strip_prefix admission_prefix (tq_path req)) (ax_parse_uuid env)) InvalidServicePayload) (\<lambda>turn.
           and_then (ok_or (header_value (tq_headers req) admission_context_header) MissingAuthorization) (\<lambda>token.
           and_then (session_store_key env token) (\<lambda>k. Ok (turn, k)))))"

definition load_session :: "'s accessa_env \<Rightarrow> 's \<Rightarrow> nat \<Rightarrow> int \<Rightarrow> string \<Rightarrow> accessa_session gateway_result" where
  "load_session env st t now session_key =
     and_then (ok_or (accessa_get (ax_redis env) st t session_key) InvalidVirtualKey) (\<lambda>v.
     and_then (ok_or (ax_session_from_json env v) ControlStateUnavailable) (\<lambda>s.
     if ss_expires_at s \<le> now then Err ExpiredEntraToken else Ok s))"

definition session_key_holder :: "'s accessa_env \<Rightarrow> int \<Rightarrow> accessa_session \<Rightarrow> authenticated_key gateway_result" where
  "session_key_holder env now s =
     and_then (ax_find_by_prefix env (ss_key_prefix s)) (\<lambda>found.
     and_then (ok_or found InvalidVirtualKey) (\<lambda>stored.
     if sv_id stored \<noteq> ss_key_id s then Err InvalidVirtualKey
     else if sv_disabled stored then Err DisabledVirtualKey
     else if sv_revoked_at stored \<noteq> None then Err RevokedVirtualKey
     else if (case sv_expires_at stored of None \<Rightarrow> False | Some expiry \<Rightarrow> expiry \<le> now) then Err ExpiredVirtualKey
     else Ok \<lparr>ak_key_id = sv_id stored, ak_project_id = sv_project_id stored, ak_key_prefix = sv_key_prefix stored\<rparr>))"

definition bind_session :: "socket_context \<Rightarrow> authenticated_key \<Rightarrow> accessa_session \<Rightarrow> string \<Rightarrow> socket_context" where
  "bind_session ctx key s turn =
     ctx\<lparr>pc_key := Some key, pc_route := Some ServiceWildcard,
         pc_route_match := Some (service_match ServiceWildcard (ss_service_name s)),
         pc_access := ss_access s, pc_run_id := Some turn, pc_http_method := Some ''POST'',
         pc_endpoint_path := Some (admission_prefix @ turn), pc_endpoint_template := Some (admission_prefix @ ''{turn_id}'')\<rparr>"

definition session_current :: "'s accessa_env \<Rightarrow> int \<Rightarrow> accessa_session \<Rightarrow> unit gateway_result" where
  "session_current env now s =
     and_then (ax_registration env (ss_service_name s)) (\<lambda>found.
     and_then (ok_or found MissingService) (\<lambda>registration.
     if \<not> sr_enabled registration then Err DisabledService
     else if sr_access registration \<noteq> ss_access s \<or>
             (case ea_accessa (sr_access registration) of None \<Rightarrow> True | Some binding \<Rightarrow> ab_app binding = None)
     then Err PolicyDenied
     else and_then (identity_for_key (ss_access s) (ss_key_id s)) (\<lambda>identity.
          and_then (ok_or identity InvalidConfiguration) (\<lambda>policy.
          entra_authorize policy (ss_identity s) now))))"

text \<open>
  The marker of a turn: claimed with the value pending, set to accepted once the rate limit allowed the turn, deleted
  when it did not. A call goes through the phases below, one command of the server at a time, so that calls for the
  same turn may interleave.
\<close>

datatype turn_phase =
    Arrived
  | Claimed
  | Charged
  | Refused gateway_error
  | Duplicate
  | Accepted
  | Denied gateway_error
  | Repeated
  | Busy

record turn_call =
  tc_marker :: string
  tc_ttl :: nat
  tc_rate_now :: int
  tc_key :: authenticated_key
  tc_policy :: key_policy

fun turn_move :: "'s accessa_env \<Rightarrow> turn_call \<Rightarrow> nat \<times> nat \<Rightarrow> turn_phase \<times> 's \<Rightarrow> turn_phase \<times> 's" where
  "turn_move env c (t, t') (Arrived, st) =
     (case accessa_put (ax_redis env) st t (tc_marker c) ''pending'' (tc_ttl c) True of
        (claimed, st) \<Rightarrow> (if claimed then Claimed else Duplicate, st))"
| "turn_move env c (t, t') (Claimed, st) =
     (case accessa_rate env (tc_rate_now c) st t t' (tc_key c) (tc_policy c) of
        (Inl e, st) \<Rightarrow> (Refused e, st) | (Inr _, st) \<Rightarrow> (Charged, st))"
| "turn_move env c (t, t') (Charged, st) =
     (Accepted, snd (accessa_put (ax_redis env) st t (tc_marker c) ''accepted'' (tc_ttl c) False))"
| "turn_move env c (t, t') (Refused e, st) = (Denied e, accessa_delete (ax_redis env) st (tc_marker c))"
| "turn_move env c (t, t') (Duplicate, st) =
     (if accessa_get (ax_redis env) st t (tc_marker c) = Some ''accepted'' then Repeated else Busy, st)"
| "turn_move env c (t, t') (phase, st) = (phase, st)"

definition turn_answer :: "turn_phase \<Rightarrow> unit gateway_result" where
  "turn_answer phase =
     (case phase of Accepted \<Rightarrow> Ok () | Repeated \<Rightarrow> Ok () | Denied e \<Rightarrow> Err e | _ \<Rightarrow> Err (RateLimitExceeded (Some 1)))"

text \<open>A call on its own takes at most three commands.\<close>

definition charge_turn_once ::
    "'s accessa_env \<Rightarrow> turn_call \<Rightarrow> nat \<times> nat \<Rightarrow> nat \<times> nat \<Rightarrow> nat \<times> nat \<Rightarrow> 's \<Rightarrow> unit gateway_result \<times> 's" where
  "charge_turn_once env c t1 t2 t3 st =
     (let (phase, st) = turn_move env c t3 (turn_move env c t2 (turn_move env c t1 (Arrived, st)))
      in (turn_answer phase, st))"

definition admission_json :: "string \<Rightarrow> authenticated_key \<Rightarrow> accessa_session \<Rightarrow> json" where
  "admission_json turn key s =
     JObject (bt_extend []
       [(''admission_id'', JString turn), (''key_id'', JString (ak_key_id key)), (''service'', JString (ss_service_name s)),
        (''caller_oid'', case ei_object_id (ss_identity s) of None \<Rightarrow> JNull | Some oid \<Rightarrow> JString oid),
        (''app'', case Option.bind (ea_accessa (ss_access s)) ab_app of None \<Rightarrow> JNull | Some app \<Rightarrow> JString app),
        (''channel'', case ea_accessa (ss_access s) of None \<Rightarrow> JNull | Some b \<Rightarrow> JString (ab_channel b)),
        (''charged'', JBool False)])"

definition admit_turn ::
    "'s accessa_env \<Rightarrow> accessa_times \<Rightarrow> nat \<times> nat \<Rightarrow> nat \<times> nat \<Rightarrow> nat \<times> nat \<Rightarrow> turn_request \<Rightarrow> socket_context \<Rightarrow> 's \<Rightarrow>
     json gateway_result \<times> socket_context \<times> 's" where
  "admit_turn env tm t1 t2 t3 req ctx st =
     (case and_then (admission_request env req) (\<lambda>(turn, k).
           and_then (load_session env st (tm_server_get tm) (tm_now tm) k) (\<lambda>s.
           and_then (session_key_holder env (tm_key_now tm) s) (\<lambda>key. Ok (turn, k, s, key)))) of
        Inl e \<Rightarrow> (Err e, ctx, st)
      | Inr (turn, k, s, key) \<Rightarrow>
          let ctx = bind_session ctx key s turn in
          (case and_then (session_current env (tm_now tm) s) (\<lambda>_. accessa_policy env (tm_policy tm) key (ss_service_name s) True) of
             Inl e \<Rightarrow> (Err e, ctx, st)
           | Inr policy \<Rightarrow>
               (case accessa_budget env tm st key policy of
                  (Inl e, st) \<Rightarrow> (Err e, ctx, st)
                | (Inr _, st) \<Rightarrow>
                    (case charge_turn_once env
                            \<lparr>tc_marker = k @ '':turn:'' @ turn, tc_ttl = nat (ss_expires_at s - tm_now tm),
                             tc_rate_now = tm_rate tm, tc_key = key, tc_policy = policy\<rparr> t1 t2 t3 st of
                       (Inl e, st) \<Rightarrow> (Err e, ctx, st)
                     | (Inr _, st) \<Rightarrow> (Ok (admission_json turn key s), ctx, st)))))"

section \<open>One charge per turn\<close>

text \<open>The calls for one turn, in any interleaving; other requests leave the marker of the turn alone.\<close>

inductive turn_run :: "'s accessa_env \<Rightarrow> string \<Rightarrow> nat \<Rightarrow> turn_phase multiset \<Rightarrow> 's \<Rightarrow> nat \<Rightarrow> bool"
  for env marker horizon where
  unclaimed: "(\<And>u. t \<le> u \<Longrightarrow> re_get (ax_redis env) st u marker = None) \<Longrightarrow> turn_run env marker horizon {#} st t"
| arrival: "turn_run env marker horizon calls st t \<Longrightarrow> turn_run env marker horizon (add_mset Arrived calls) st t"
| move: "turn_run env marker horizon (add_mset phase calls) st t \<Longrightarrow> tc_marker c = marker \<Longrightarrow> t \<le> u \<Longrightarrow> u < horizon \<Longrightarrow>
     horizon \<le> u + tc_ttl c \<Longrightarrow> turn_move env c (u, u') (phase, st) = (phase', st') \<Longrightarrow>
     turn_run env marker horizon (add_mset phase' calls) st' u"
| others: "turn_run env marker horizon calls st t \<Longrightarrow> t \<le> u \<Longrightarrow>
     (\<And>w. re_get (ax_redis env) st' w marker = re_get (ax_redis env) st w marker) \<Longrightarrow> turn_run env marker horizon calls st' u"

fun holds :: "turn_phase \<Rightarrow> bool" where
  "holds Claimed = True"
| "holds Charged = True"
| "holds (Refused e) = True"
| "holds _ = False"

definition tally :: "('a \<Rightarrow> bool) \<Rightarrow> 'a multiset \<Rightarrow> nat" where
  "tally P calls = size (filter_mset P calls)"

lemma tally_simps [simp]:
  "tally P {#} = 0" "tally P (add_mset p calls) = (if P p then 1 else 0) + tally P calls"
  by (simp_all add: tally_def)

lemma tally_positive: "0 < tally ((=) p) calls \<longleftrightarrow> p \<in># calls"
  by (induction calls) auto

text \<open>The marker says where the calls are: nobody holds the turn, one call does, or it was accepted.\<close>

definition marker_agrees :: "string option \<Rightarrow> turn_phase multiset \<Rightarrow> bool" where
  "marker_agrees v calls \<longleftrightarrow>
     (v = None \<and> tally holds calls = 0 \<and> tally ((=) Accepted) calls = 0 \<or>
      v = Some ''pending'' \<and> tally holds calls = 1 \<and> tally ((=) Accepted) calls = 0 \<or>
      v = Some ''accepted'' \<and> tally holds calls = 0 \<and> tally ((=) Accepted) calls = 1) \<and>
     (0 < tally ((=) Repeated) calls \<longrightarrow> 0 < tally ((=) Accepted) calls)"

definition turn_inv :: "'s accessa_env \<Rightarrow> string \<Rightarrow> nat \<Rightarrow> turn_phase multiset \<Rightarrow> 's \<Rightarrow> nat \<Rightarrow> bool" where
  "turn_inv env marker horizon calls st t \<longleftrightarrow>
     (\<exists>v. (\<forall>u. t \<le> u \<and> u < horizon \<longrightarrow> re_get (ax_redis env) st u marker = v) \<and> marker_agrees v calls)"

lemma marker_agrees_free: "marker_agrees None (add_mset Arrived calls) \<Longrightarrow> marker_agrees (Some ''pending'') (add_mset Claimed calls)"
  by (auto simp: marker_agrees_def)

lemma marker_agrees_held:
  "marker_agrees v (add_mset p calls) \<Longrightarrow> holds p \<Longrightarrow>
   v = Some ''pending'' \<and> tally holds calls = 0 \<and> tally ((=) Accepted) calls = 0 \<and> tally ((=) Repeated) calls = 0"
  by (cases p) (auto simp: marker_agrees_def)

lemma marker_agrees_idle:
  "marker_agrees v (add_mset p calls) \<Longrightarrow> \<not> holds p \<Longrightarrow> p \<noteq> Accepted \<Longrightarrow> \<not> holds p' \<Longrightarrow> p' \<noteq> Accepted \<Longrightarrow> p' \<noteq> Repeated \<Longrightarrow>
   marker_agrees v (add_mset p' calls)"
  by (auto simp: marker_agrees_def split: if_splits)

lemma marker_agrees_repeated:
  "marker_agrees (Some ''accepted'') (add_mset Duplicate calls) \<Longrightarrow> marker_agrees (Some ''accepted'') (add_mset Repeated calls)"
  by (auto simp: marker_agrees_def)

text \<open>What the admission relies on beyond the budgets: incrementing a key leaves the others alone.\<close>

locale accessa_server = redis_server +
  assumes incr_other: "re_incr_by env s t k n = Some (c, s') \<Longrightarrow> j \<noteq> k \<Longrightarrow> re_get env s' u j = re_get env s u j"
begin

lemma rate_keeps:
  assumes "ax_redis ax = env" "accessa_rate ax now st t t' key policy = (r, st')"
  shows "re_get env st' u (''accessa:session:'' @ x) = re_get env st u (''accessa:session:'' @ x)"
proof -
  obtain d where d: "check_request_rate_limit env st t t' (ak_key_id key) (kp_rpm_limit policy) now = (d, st')"
    using assms by (auto simp: accessa_rate_def split: prod.splits sum.splits rate_limit_decision.splits)
  let ?k = "request_rate_limit_key env (ak_key_id key) now"
  have k: "?k \<noteq> ''accessa:session:'' @ x" "''accessa:session:'' @ x \<noteq> ?k"
    by (simp_all add: request_rate_limit_key_def)
  show ?thesis
  proof (cases "kp_rpm_limit policy")
    case None
    then show ?thesis using d by (simp add: check_request_rate_limit_def)
  next
    case (Some limit)
    show ?thesis
    proof (cases "re_incr_by env st t ?k 1")
      case None
      then show ?thesis using d Some k by (auto simp: check_request_rate_limit_def count_in_window_def get_expire_other)
    next
      case incr: (Some p)
      obtain n s1 where p: "p = (n, s1)" by (cases p)
      have "st' = re_expire env s1 t ?k 70"
        using d Some incr p by (simp add: check_request_rate_limit_def count_in_window_def Let_def)
      then show ?thesis
        using get_expire_other [OF k(1)] incr_other [OF incr [unfolded p] k(2)] by simp
    qed
  qed
qed

lemma turn_move_inv:
  assumes env: "ax_redis ax = env" and marker: "marker = ''accessa:session:'' @ x" "tc_marker c = marker"
    and inv: "turn_inv ax marker horizon (add_mset phase calls) st t"
    and times: "t \<le> u" "u < horizon" "horizon \<le> u + tc_ttl c"
    and moved: "turn_move ax c (u, u') (phase, st) = (phase', st')"
  shows "turn_inv ax marker horizon (add_mset phase' calls) st' u"
proof -
  obtain v where get: "\<And>w. t \<le> w \<Longrightarrow> w < horizon \<Longrightarrow> re_get env st w marker = v" and agrees: "marker_agrees v (add_mset phase calls)"
    using inv env by (auto simp: turn_inv_def)
  have kept: ?thesis if "\<And>w. re_get env st' w marker = re_get env st w marker" "marker_agrees v (add_mset phase' calls)"
    using that get times env unfolding turn_inv_def by (metis le_trans)
  have put: ?thesis if "st' = re_set_ex env st u marker val (max (tc_ttl c) 1)" "marker_agrees (Some val) (add_mset phase' calls)" for val
    using that get_set [of u _ st marker val] times env unfolding turn_inv_def by auto
  show ?thesis
  proof (cases phase)
    case Arrived
    show ?thesis
    proof (cases v)
      case None
      then show ?thesis
        using put [of "''pending''"] moved Arrived get [OF times(1,2)] agrees marker_agrees_free marker(2) env
        by (simp add: accessa_put_def)
    next
      case (Some val)
      then have "phase' = Duplicate" "st' = st"
        using moved Arrived get [OF times(1,2)] marker(2) env by (simp_all add: accessa_put_def)
      then show ?thesis using kept agrees Arrived marker_agrees_idle [of v Arrived calls Duplicate] by simp
    qed
  next
    case Claimed
    have same: "re_get env st' w marker = re_get env st w marker" for w
      using moved Claimed rate_keeps [OF env, of "tc_rate_now c" st u u' "tc_key c" "tc_policy c" _ st' w x] marker(1)
      by (auto split: prod.splits sum.splits)
    have "phase' = Charged \<or> (\<exists>e. phase' = Refused e)"
      using moved Claimed by (auto split: prod.splits sum.splits)
    then have "marker_agrees v (add_mset phase' calls)"
      using agrees Claimed by (auto simp: marker_agrees_def)
    then show ?thesis using kept same by blast
  next
    case Charged
    have "marker_agrees (Some ''accepted'') (add_mset Accepted calls)"
      using marker_agrees_held [OF agrees] Charged by (auto simp: marker_agrees_def)
    then show ?thesis using put [of "''accepted''"] moved Charged marker(2) env by (simp add: accessa_put_def)
  next
    case (Refused e)
    have st': "st' = re_del env st marker" "phase' = Denied e"
      using moved Refused marker(2) env by (simp_all add: accessa_delete_def)
    have "marker_agrees None (add_mset phase' calls)"
      using marker_agrees_held [OF agrees] Refused st'(2) by (auto simp: marker_agrees_def)
    then show ?thesis using st'(1) get_del [of st marker] env unfolding turn_inv_def by auto
  next
    case Duplicate
    have same: "st' = st" using moved Duplicate by simp
    have "marker_agrees v (add_mset phase' calls)"
    proof (cases "v = Some ''accepted''")
      case True
      then show ?thesis
        using moved Duplicate get [OF times(1,2)] marker(2) env agrees marker_agrees_repeated by (simp add: accessa_get_def)
    next
      case False
      then show ?thesis
        using moved Duplicate get [OF times(1,2)] marker(2) env agrees marker_agrees_idle [of v Duplicate calls Busy]
        by (simp add: accessa_get_def)
    qed
    then show ?thesis using kept same by blast
  qed (use moved kept agrees in auto)
qed

lemma turn_run_inv:
  assumes "turn_run ax marker horizon calls st t" "ax_redis ax = env" "marker = ''accessa:session:'' @ x"
  shows "turn_inv ax marker horizon calls st t"
  using assms
proof (induction rule: turn_run.induct)
  case (unclaimed t st)
  then show ?case by (auto simp: turn_inv_def marker_agrees_def)
next
  case (arrival calls st t)
  then show ?case by (auto simp: turn_inv_def marker_agrees_def)
next
  case (move phase calls st t c u u' phase' st')
  then show ?case using turn_move_inv by blast
next
  case (others calls st t u st')
  then show ?case unfolding turn_inv_def by (metis le_trans)
qed

end

interpretation accessa_memory: accessa_server memory_redis mem_plus mem_digits
  by unfold_locales (auto simp: memory_redis_def mem_incr_by_def Let_def split: option.splits if_splits)

text \<open>
  C35 (invariant): however the calls for one turn interleave within the life of their session, the rate limit allows the
  turn at most once, one call at a time holds it, and a repeated call is answered with success only after a call whose
  charge was allowed has been accepted.
\<close>

theorem turn_charged_once:
  assumes "accessa_server (ax_redis env) incr_sum digits"
    and "turn_run env (''accessa:session:'' @ x) horizon calls st t"
  shows "tally (\<lambda>p. p = Charged \<or> p = Accepted) calls \<le> 1 \<and> tally holds calls \<le> 1 \<and>
         (Repeated \<in># calls \<longrightarrow> Accepted \<in># calls)"
proof -
  have "turn_inv env (''accessa:session:'' @ x) horizon calls st t"
    using accessa_server.turn_run_inv [OF assms(1) assms(2) refl refl] .
  then obtain v where v: "marker_agrees v calls" by (auto simp: turn_inv_def)
  have "tally (\<lambda>p. p = Charged \<or> p = Accepted) calls \<le> tally holds calls + tally ((=) Accepted) calls"
    by (induction calls) auto
  then show ?thesis using v by (auto simp: marker_agrees_def simp flip: tally_positive)
qed

text \<open>A key without a rate limit, on the in-memory server.\<close>

definition sample_accessa :: "memory accessa_env" where
  "sample_accessa =
     \<lparr>ax_redis = memory_redis, ax_epoch = ''e'', ax_policy = (\<lambda>_ _. Err PolicyDenied), ax_committed = (\<lambda>_ _. Err PolicyDenied),
      ax_find_by_prefix = (\<lambda>_. Ok None), ax_registration = (\<lambda>_. Ok None), ax_parse_uuid = Some, ax_sha256_hex = (\<lambda>s. s),
      ax_session_to_json = (\<lambda>_. None), ax_session_from_json = (\<lambda>_. None)\<rparr>"

definition sample_turn :: turn_call where
  "sample_turn =
     \<lparr>tc_marker = ''accessa:session:s:turn:1'', tc_ttl = 100, tc_rate_now = 0,
      tc_key = \<lparr>ak_key_id = ''k'', ak_project_id = None, ak_key_prefix = ''p''\<rparr>, tc_policy = neutral_layer 1\<rparr>"

lemma sample_turn_moves:
  "turn_move sample_accessa sample_turn (0, 0) (Arrived, \<lambda>_. None) =
     (Claimed, [''accessa:session:s:turn:1'' \<mapsto> (''pending'', Some 100)])"
  "turn_move sample_accessa sample_turn (0, 0) (Claimed, st) = (Charged, st)"
  "turn_move sample_accessa sample_turn (0, 0) (Charged, st) =
     (Accepted, st(''accessa:session:s:turn:1'' \<mapsto> (''accepted'', Some 100)))"
  "turn_move sample_accessa sample_turn (0, 0) (Arrived, st(''accessa:session:s:turn:1'' \<mapsto> (''accepted'', Some 100))) =
     (Duplicate, st(''accessa:session:s:turn:1'' \<mapsto> (''accepted'', Some 100)))"
  "turn_move sample_accessa sample_turn (0, 0) (Duplicate, st(''accessa:session:s:turn:1'' \<mapsto> (''accepted'', Some 100))) =
     (Repeated, st(''accessa:session:s:turn:1'' \<mapsto> (''accepted'', Some 100)))"
  by (simp_all add: accessa_put_def accessa_get_def accessa_rate_def check_request_rate_limit_def sample_accessa_def sample_turn_def
      memory_redis_def mem_get_def mem_set_ex_def neutral_layer_def)

text \<open>One call is accepted, a second one repeats it.\<close>

lemma sample_turn_run:
  "\<exists>st. turn_run sample_accessa ''accessa:session:s:turn:1'' 100 {#Repeated, Accepted#} st 0"
proof -
  let ?mk = "''accessa:session:s:turn:1''"
  have c: "tc_marker sample_turn = ?mk" "100 \<le> 0 + tc_ttl sample_turn" by (simp_all add: sample_turn_def)
  have "turn_run sample_accessa ?mk 100 {#} (\<lambda>_. None) 0"
    by (rule turn_run.unclaimed) (simp add: sample_accessa_def memory_redis_def mem_get_def)
  then have "turn_run sample_accessa ?mk 100 {#Arrived#} (\<lambda>_. None) 0"
    by (rule turn_run.arrival)
  from turn_run.move [OF this c(1) _ _ c(2) sample_turn_moves(1)]
  have "turn_run sample_accessa ?mk 100 {#Claimed#} [?mk \<mapsto> (''pending'', Some 100)] 0" by simp
  from turn_run.move [OF this c(1) _ _ c(2) sample_turn_moves(2)]
  have "turn_run sample_accessa ?mk 100 {#Charged#} [?mk \<mapsto> (''pending'', Some 100)] 0" by simp
  from turn_run.move [OF this c(1) _ _ c(2) sample_turn_moves(3)]
  obtain st where "turn_run sample_accessa ?mk 100 {#Accepted#} (st(?mk \<mapsto> (''accepted'', Some 100))) 0" by auto
  then have "turn_run sample_accessa ?mk 100 {#Arrived, Accepted#} (st(?mk \<mapsto> (''accepted'', Some 100))) 0"
    by (rule turn_run.arrival)
  from turn_run.move [OF this c(1) _ _ c(2) sample_turn_moves(4)]
  have "turn_run sample_accessa ?mk 100 {#Duplicate, Accepted#} (st(?mk \<mapsto> (''accepted'', Some 100))) 0" by simp
  from turn_run.move [OF this c(1) _ _ c(2) sample_turn_moves(5)] show ?thesis by auto
qed

theorem turn_charged_once_witness:
  "tally (\<lambda>p. p = Charged \<or> p = Accepted) {#Repeated, Accepted#} \<le> 1 \<and> tally holds {#Repeated, Accepted#} \<le> 1 \<and>
   Accepted \<in># {#Repeated, Accepted#}"
proof -
  obtain st where run: "turn_run sample_accessa (''accessa:session:'' @ ''s:turn:1'') 100 {#Repeated, Accepted#} st 0"
    using sample_turn_run by auto
  have "accessa_server (ax_redis sample_accessa) mem_plus mem_digits"
    using accessa_memory.accessa_server_axioms by (simp add: sample_accessa_def)
  from turn_charged_once [OF this run] show ?thesis by simp
qed

section \<open>Every turn is checked again\<close>

lemma session_key_holder_Ok:
  assumes "session_key_holder env now s = Ok key"
  obtains stored where "ax_find_by_prefix env (ss_key_prefix s) = Ok (Some stored)" "sv_id stored = ss_key_id s"
    "\<not> sv_disabled stored" "sv_revoked_at stored = None" "\<forall>e. sv_expires_at stored = Some e \<longrightarrow> now < e"
    "ak_key_id key = ss_key_id s"
  using assms
  by (auto simp: session_key_holder_def and_then_Ok_iff ok_or_def split: if_splits option.splits)

lemma session_current_Ok:
  assumes "session_current env now s = Ok ()"
  obtains registration policy where "ax_registration env (ss_service_name s) = Ok (Some registration)"
    "sr_enabled registration" "sr_access registration = ss_access s" "identity_for_key (ss_access s) (ss_key_id s) = Ok (Some policy)"
    "entra_authorize policy (ss_identity s) now = Ok ()"
  using assms
  by (auto simp: session_current_def and_then_Ok_iff ok_or_def split: if_splits option.splits)

lemma accessa_policy_Ok:
  "accessa_policy env now key service stream = Ok policy \<Longrightarrow>
   service \<in> set (kp_allowed_services policy) \<and> evaluate_policy_limits policy now None None None None None = Ok ()"
  by (auto simp: accessa_policy_def and_then_Ok_iff Let_def split: if_splits)

text \<open>
  A turn is admitted only under the session its token names, unexpired, for a key that still exists under its id and is
  neither disabled, revoked nor expired, on a service that is still enabled with the access settings the session
  started with, for an identity these settings still authorise, under a policy that lists the service.
\<close>

theorem admitted_turn_rechecked:
  assumes "admit_turn env tm t1 t2 t3 req ctx st = (Ok answer, ctx', st')"
  shows "\<exists>turn k s key policy. admission_request env req = Ok (turn, k) \<and>
     load_session env st (tm_server_get tm) (tm_now tm) k = Ok s \<and> tm_now tm < ss_expires_at s \<and>
     session_key_holder env (tm_key_now tm) s = Ok key \<and> session_current env (tm_now tm) s = Ok () \<and>
     accessa_policy env (tm_policy tm) key (ss_service_name s) True = Ok policy \<and>
     ss_service_name s \<in> set (kp_allowed_services policy) \<and> answer = admission_json turn key s"
proof -
  obtain turn k s key where request: "admission_request env req = Ok (turn, k)"
    and session: "load_session env st (tm_server_get tm) (tm_now tm) k = Ok s"
    and key: "session_key_holder env (tm_key_now tm) s = Ok key"
    using assms unfolding admit_turn_def
    by (cases "and_then (admission_request env req) (\<lambda>(turn, k).
           and_then (load_session env st (tm_server_get tm) (tm_now tm) k) (\<lambda>s.
           and_then (session_key_holder env (tm_key_now tm) s) (\<lambda>key. Ok (turn, k, s, key))))")
      (auto simp: and_then_Ok_iff)
  have start: "and_then (admission_request env req) (\<lambda>(turn, k).
           and_then (load_session env st (tm_server_get tm) (tm_now tm) k) (\<lambda>s.
           and_then (session_key_holder env (tm_key_now tm) s) (\<lambda>key. Ok (turn, k, s, key)))) = Ok (turn, k, s, key)"
    using request session key by (simp add: and_then_def)
  obtain policy where policy: "and_then (session_current env (tm_now tm) s)
      (\<lambda>_. accessa_policy env (tm_policy tm) key (ss_service_name s) True) = Ok policy"
    using assms unfolding admit_turn_def start by (auto simp: Let_def split: sum.splits)
  have "answer = admission_json turn key s"
    using assms unfolding admit_turn_def start by (simp add: Let_def policy split: prod.splits sum.splits)
  moreover have "tm_now tm < ss_expires_at s"
    using session by (auto simp: load_session_def and_then_Ok_iff split: if_splits)
  ultimately show ?thesis
    using request session key policy by (auto dest: accessa_policy_Ok)
qed

end
