(* ===== verification/Body_Rewriting.thy ===== *)
theory Body_Rewriting
  imports Request_Admission
begin

text \<open>
  Rewriting of bodies (\<open>gateway-proxy/src/body_rewrite.rs\<close>): the buffer that collects a body chunk by chunk under a limit and
  hands the whole of it to the rewriting at the end, and the serialisation of a rewritten document under the working
  set of its lease. A vector has its bytes and its capacity; the allocator is a parameter that gives the new capacity, or
  None when it fails. The pieces in which serde writes a document are a parameter too, with whether it then fails.
\<close>

section \<open>The buffer\<close>

record byte_vec =
  bv_bytes :: string
  bv_capacity :: nat

definition empty_vec :: byte_vec where
  "empty_vec = \<lparr>bv_bytes = [], bv_capacity = 0\<rparr>"

type_synonym allocator = "byte_vec \<Rightarrow> nat \<Rightarrow> nat option"

text \<open>\<open>try_reserve_exact\<close> gives room for that many more bytes.\<close>

definition gives_room :: "allocator \<Rightarrow> bool" where
  "gives_room alloc \<longleftrightarrow> (\<forall>v additional c. alloc v additional = Some c \<longrightarrow> length (bv_bytes v) + additional \<le> c)"

definition extend_vec :: "byte_vec \<Rightarrow> string \<Rightarrow> byte_vec" where
  "extend_vec v s = v\<lparr>bv_bytes := bv_bytes v @ s\<rparr>"

record body_rewriter =
  br_max_bytes :: nat
  br_allocation_hint :: nat
  br_expected_length :: "nat option"
  br_buffer :: byte_vec

datatype rewrite_outcome = Suppressed | Emitted

definition rewriter_new :: "nat \<Rightarrow> body_rewriter" where
  "rewriter_new max_bytes =
     \<lparr>br_max_bytes = max_bytes, br_allocation_hint = max_bytes, br_expected_length = None, br_buffer = empty_vec\<rparr>"

definition with_expected_length :: "body_rewriter \<Rightarrow> nat option \<Rightarrow> body_rewriter" where
  "with_expected_length r expected =
     r\<lparr>br_expected_length := map_option (\<lambda>n. min n (br_max_bytes r)) expected,
       br_allocation_hint := min (case expected of None \<Rightarrow> br_max_bytes r | Some n \<Rightarrow> n) (br_max_bytes r)\<rparr>"

definition buffered_len :: "body_rewriter \<Rightarrow> nat" where
  "buffered_len r = length (bv_bytes (br_buffer r))"

definition saturating_double :: "nat \<Rightarrow> nat" where
  "saturating_double n = min (n * 2) usize_max"

definition next_capacity :: "body_rewriter \<Rightarrow> nat \<Rightarrow> nat gateway_result" where
  "next_capacity r additional =
     (case checked_add (buffered_len r) additional of
        None \<Rightarrow> Err RequestBodyTooLarge
      | Some len \<Rightarrow>
          if br_max_bytes r < len then Err RequestBodyTooLarge
          else let capacity = bv_capacity (br_buffer r) in
            if len \<le> capacity then Ok capacity
            else let hint = (if br_allocation_hint r < len then br_max_bytes r else br_allocation_hint r)
                 in Ok (min (max (saturating_double capacity) len) hint))"

text \<open>A hint that was too low no longer guides the allocation.\<close>

definition raise_hint :: "body_rewriter \<Rightarrow> nat \<Rightarrow> body_rewriter" where
  "raise_hint r next_len = (if br_allocation_hint r < next_len then r\<lparr>br_allocation_hint := br_max_bytes r\<rparr> else r)"

definition append_chunk :: "allocator \<Rightarrow> body_rewriter \<Rightarrow> string option \<Rightarrow> unit gateway_result \<times> body_rewriter" where
  "append_chunk alloc r body =
     (case body of
        None \<Rightarrow> (Ok (), r)
      | Some chunk \<Rightarrow>
          (case next_capacity r (length chunk) of
             Inl e \<Rightarrow> (Err e, r)
           | Inr capacity \<Rightarrow>
               let next_len = saturating_add (buffered_len r) (length chunk) in
               if br_max_bytes r < next_len then (Err RequestBodyTooLarge, r)
               else
                 let r = raise_hint r next_len in
                 if bv_capacity (br_buffer r) < next_len then
                   (case alloc (br_buffer r) (capacity - buffered_len r) of
                      None \<Rightarrow> (Err GatewayOverloaded, r)
                    | Some c \<Rightarrow> (Ok (), r\<lparr>br_buffer := extend_vec ((br_buffer r)\<lparr>bv_capacity := c\<rparr>) chunk\<rparr>))
                 else (Ok (), r\<lparr>br_buffer := extend_vec (br_buffer r) chunk\<rparr>)))"

definition take_buffer :: "body_rewriter \<Rightarrow> string \<times> body_rewriter" where
  "take_buffer r = (bv_bytes (br_buffer r), r\<lparr>br_buffer := empty_vec\<rparr>)"

definition preview_with_chunk :: "body_rewriter \<Rightarrow> string option \<Rightarrow> string gateway_result" where
  "preview_with_chunk r body =
     (let chunk = (case body of None \<Rightarrow> [] | Some c \<Rightarrow> c)
      in if br_max_bytes r < saturating_add (buffered_len r) (length chunk) then Err RequestBodyTooLarge
         else Ok (bv_bytes (br_buffer r) @ chunk))"

definition filter_chunk ::
    "allocator \<Rightarrow> (string \<Rightarrow> string gateway_result) \<Rightarrow> body_rewriter \<Rightarrow> string option \<Rightarrow> bool \<Rightarrow>
     rewrite_outcome gateway_result \<times> string option \<times> body_rewriter" where
  "filter_chunk alloc rewrite r body end_of_stream =
     (case append_chunk alloc r body of
        (Inl e, r) \<Rightarrow> (Err e, body, r)
      | (Inr _, r) \<Rightarrow>
          if end_of_stream then
            (case rewrite (bv_bytes (br_buffer r)) of
               Inl e \<Rightarrow> (Err e, body, r)
             | Inr rewritten \<Rightarrow> (Ok Emitted, Some rewritten, r\<lparr>br_buffer := empty_vec\<rparr>))
          else (Ok Suppressed, Some [], r))"

section \<open>Serialisation\<close>

record body_writer =
  bw_vec :: byte_vec
  bw_state :: body_state
  bw_lease :: "lease option"

definition charge_rewrite :: "nat \<Rightarrow> body_writer \<Rightarrow> unit gateway_result \<times> body_writer" where
  "charge_rewrite capacity w =
     (let (r, st, l) = with_lease (prepare_rewrite capacity) (bw_state w) (bw_lease w)
      in (r, w\<lparr>bw_state := st, bw_lease := l\<rparr>))"

definition write_piece ::
    "allocator \<Rightarrow> nat \<Rightarrow> gateway_error \<Rightarrow> body_writer \<Rightarrow> string \<Rightarrow> unit gateway_result \<times> body_writer" where
  "write_piece alloc maximum too_large w piece =
     (let v = bw_vec w in
      case checked_add (length (bv_bytes v)) (length piece) of
        None \<Rightarrow> (Err too_large, w)
      | Some len \<Rightarrow>
          if maximum < len then (Err too_large, w)
          else if bv_capacity v < len then
            let capacity = min (max (saturating_double (bv_capacity v)) len) maximum in
            (case charge_rewrite capacity w of
               (Inl e, w) \<Rightarrow> (Err e, w)
             | (Inr _, w) \<Rightarrow>
                 (case alloc v (capacity - length (bv_bytes v)) of
                    None \<Rightarrow> (Err GatewayOverloaded, w)
                  | Some c \<Rightarrow>
                      (case charge_rewrite c (w\<lparr>bw_vec := v\<lparr>bv_capacity := c\<rparr>\<rparr>) of
                         (Inl e, w) \<Rightarrow> (Err e, w)
                       | (Inr _, w) \<Rightarrow> (Ok (), w\<lparr>bw_vec := extend_vec (bw_vec w) piece\<rparr>))))
          else (Ok (), w\<lparr>bw_vec := extend_vec v piece\<rparr>))"

fun write_pieces ::
    "allocator \<Rightarrow> nat \<Rightarrow> gateway_error \<Rightarrow> body_writer \<Rightarrow> string list \<Rightarrow> unit gateway_result \<times> body_writer" where
  "write_pieces alloc maximum too_large w [] = (Ok (), w)"
| "write_pieces alloc maximum too_large w (piece # pieces) =
     (case write_piece alloc maximum too_large w piece of
        (Inl e, w) \<Rightarrow> (Err e, w)
      | (Inr _, w) \<Rightarrow> write_pieces alloc maximum too_large w pieces)"

definition serialize_with_admission ::
    "allocator \<Rightarrow> (json \<Rightarrow> string list \<times> bool) \<Rightarrow> json \<Rightarrow> nat \<Rightarrow> body_state \<Rightarrow> lease option \<Rightarrow> gateway_error \<Rightarrow>
     string gateway_result \<times> body_state \<times> lease option" where
  "serialize_with_admission alloc to_writer v maximum st l too_large =
     (case with_lease begin_processing st l of
        (Inl e, st, l) \<Rightarrow> (Err e, st, l)
      | (Inr _, st, l) \<Rightarrow>
          let (pieces, fails) = to_writer v;
              (r, w) = write_pieces alloc maximum too_large \<lparr>bw_vec = empty_vec, bw_state = st, bw_lease = l\<rparr> pieces
          in (case r of
                Inl e \<Rightarrow> Err e
              | Inr _ \<Rightarrow> if fails then Err InvalidGuardrailRequest else Ok (bv_bytes (bw_vec w)),
              bw_state w, bw_lease w))"

section \<open>Laws of the buffer\<close>

definition rewriter_inv :: "body_rewriter \<Rightarrow> bool" where
  "rewriter_inv r \<longleftrightarrow>
     buffered_len r \<le> br_max_bytes r \<and> buffered_len r \<le> bv_capacity (br_buffer r) \<and>
     br_allocation_hint r \<le> br_max_bytes r \<and> br_max_bytes r \<le> usize_max"

lemma rewriter_inv_new: "n \<le> usize_max \<Longrightarrow> rewriter_inv (with_expected_length (rewriter_new n) expected)"
  by (simp add: rewriter_inv_def rewriter_new_def with_expected_length_def empty_vec_def buffered_len_def)

lemma next_capacity_result:
  assumes "rewriter_inv r"
  shows "case next_capacity r n of
           Inl e \<Rightarrow> e = RequestBodyTooLarge \<and> br_max_bytes r < buffered_len r + n
         | Inr c \<Rightarrow> buffered_len r + n \<le> br_max_bytes r \<and> buffered_len r + n \<le> c"
  using assms
  by (auto simp: next_capacity_def rewriter_inv_def checked_add_def usize_max_def Let_def split: if_splits option.splits)

text \<open>Appending a chunk: the limit decides, then the allocator.\<close>

lemma append_chunk_result:
  assumes "rewriter_inv r" "gives_room alloc" "append_chunk alloc r (Some chunk) = (result, r')"
  shows "rewriter_inv r' \<and> br_max_bytes r' = br_max_bytes r \<and>
         (case result of
            Inl e \<Rightarrow> bv_bytes (br_buffer r') = bv_bytes (br_buffer r) \<and>
              (if br_max_bytes r < buffered_len r + length chunk then e = RequestBodyTooLarge else e = GatewayOverloaded)
          | Inr _ \<Rightarrow> bv_bytes (br_buffer r') = bv_bytes (br_buffer r) @ chunk \<and>
              buffered_len r + length chunk \<le> br_max_bytes r)"
proof (cases "next_capacity r (length chunk)")
  case (Inl e)
  then show ?thesis using assms(1,3) next_capacity_result [OF assms(1), of "length chunk"] by (auto simp: append_chunk_def)
next
  case (Inr capacity)
  have bound: "buffered_len r + length chunk \<le> br_max_bytes r" "buffered_len r + length chunk \<le> capacity"
    using next_capacity_result [OF assms(1), of "length chunk"] Inr by simp_all
  have sum: "saturating_add (buffered_len r) (length chunk) = buffered_len r + length chunk"
    using bound assms(1) by (simp add: saturating_add_def rewriter_inv_def usize_max_def)
  let ?q = "raise_hint r (buffered_len r + length chunk)"
  have q: "rewriter_inv ?q" "br_max_bytes ?q = br_max_bytes r" "br_buffer ?q = br_buffer r" "buffered_len ?q = buffered_len r"
    using assms(1) by (simp_all add: raise_hint_def rewriter_inv_def buffered_len_def)
  have step: "(result, r') =
      (if bv_capacity (br_buffer ?q) < buffered_len r + length chunk then
         (case alloc (br_buffer ?q) (capacity - buffered_len ?q) of
            None \<Rightarrow> (Err GatewayOverloaded, ?q)
          | Some c \<Rightarrow> (Ok (), ?q\<lparr>br_buffer := extend_vec ((br_buffer ?q)\<lparr>bv_capacity := c\<rparr>) chunk\<rparr>))
       else (Ok (), ?q\<lparr>br_buffer := extend_vec (br_buffer ?q) chunk\<rparr>))"
    unfolding assms(3) [symmetric] append_chunk_def using Inr sum bound(1) by (simp add: Let_def)
  have grown: "buffered_len r + length chunk \<le> c" if "alloc (br_buffer ?q) (capacity - buffered_len ?q) = Some c" for c
    using assms(2) that bound(2) q(4) unfolding gives_room_def buffered_len_def by fastforce
  show ?thesis
    using step q bound(1) grown
    by (auto simp: rewriter_inv_def buffered_len_def extend_vec_def split: if_splits option.splits)
qed

lemma append_chunk_unlimited:
  assumes "rewriter_inv r" "gives_room alloc" "\<And>v n. alloc v n \<noteq> None" "buffered_len r + length chunk \<le> br_max_bytes r"
  obtains r' where "append_chunk alloc r (Some chunk) = (Ok (), r')"
proof -
  obtain result r' where step: "append_chunk alloc r (Some chunk) = (result, r')" by (cases "append_chunk alloc r (Some chunk)")
  have "result \<noteq> Err GatewayOverloaded"
    using step assms(3) next_capacity_result [OF assms(1), of "length chunk"]
    by (auto simp: append_chunk_def Let_def split: if_splits option.splits sum.splits) (metis option.discI)+
  then have "result = Ok ()"
    using append_chunk_result [OF assms(1,2) step] assms(4) by (cases result) (auto split: if_splits)
  then show ?thesis using that step by blast
qed

section \<open>A body in chunks\<close>

text \<open>The filter over the chunks of a body, the last of which ends it, with what it forwards for each.\<close>

fun filter_run ::
    "allocator \<Rightarrow> (string \<Rightarrow> string gateway_result) \<Rightarrow> body_rewriter \<Rightarrow> string list \<Rightarrow> string list gateway_result" where
  "filter_run alloc rewrite r [] = Ok []"
| "filter_run alloc rewrite r (c # cs) =
     (case filter_chunk alloc rewrite r (Some c) (cs = []) of
        (Inl e, body, r) \<Rightarrow> Err e
      | (Inr outcome, body, r) \<Rightarrow>
          and_then (filter_run alloc rewrite r cs) (\<lambda>rest. Ok ((case body of None \<Rightarrow> [] | Some b \<Rightarrow> b) # rest)))"

definition whole_body ::
    "(string \<Rightarrow> string gateway_result) \<Rightarrow> nat \<Rightarrow> string \<Rightarrow> nat \<Rightarrow> string list gateway_result" where
  "whole_body rewrite limit body chunks =
     (if limit < length body then Err RequestBodyTooLarge
      else and_then (rewrite body) (\<lambda>w. Ok (replicate (chunks - 1) [] @ [w])))"

lemma filter_run_step:
  assumes "rewriter_inv r" "gives_room alloc" "\<And>v n. alloc v n \<noteq> None"
  shows "if br_max_bytes r < buffered_len r + length c then filter_run alloc rewrite r (c # cs) = Err RequestBodyTooLarge
         else \<exists>r'. rewriter_inv r' \<and> br_max_bytes r' = br_max_bytes r \<and>
           bv_bytes (br_buffer r') = bv_bytes (br_buffer r) @ c \<and>
           filter_run alloc rewrite r (c # cs) =
             (if cs = [] then and_then (rewrite (bv_bytes (br_buffer r'))) (\<lambda>w. Ok [w])
              else and_then (filter_run alloc rewrite r' cs) (\<lambda>rest. Ok ([] # rest)))"
proof (cases "br_max_bytes r < buffered_len r + length c")
  case True
  obtain result r' where step: "append_chunk alloc r (Some c) = (result, r')" by (cases "append_chunk alloc r (Some c)")
  have "result = Err RequestBodyTooLarge"
    using append_chunk_result [OF assms(1,2) step] True by (cases result) auto
  then show ?thesis using True step by (simp add: filter_chunk_def)
next
  case False
  then obtain r' where step: "append_chunk alloc r (Some c) = (Ok (), r')"
    using append_chunk_unlimited [OF assms] by (metis linorder_not_less)
  have "filter_run alloc rewrite r (c # cs) =
      (if cs = [] then and_then (rewrite (bv_bytes (br_buffer r'))) (\<lambda>w. Ok [w])
       else and_then (filter_run alloc rewrite r' cs) (\<lambda>rest. Ok ([] # rest)))"
    using step by (cases "rewrite (bv_bytes (br_buffer r'))") (simp_all add: filter_chunk_def)
  then show ?thesis
    using False append_chunk_result [OF assms(1,2) step] by (auto intro!: exI [of _ r'])
qed

text \<open>
  However a body is cut into chunks, the filter forwards nothing until the end and then what the rewriting makes of
  the whole body, and it refuses exactly the bodies over the limit, provided memory lasts.
\<close>

theorem filter_run_whole_body:
  assumes "rewriter_inv r" "gives_room alloc" "\<And>v n. alloc v n \<noteq> None" "chunks \<noteq> []"
  shows "filter_run alloc rewrite r chunks =
         whole_body rewrite (br_max_bytes r) (bv_bytes (br_buffer r) @ concat chunks) (length chunks)"
  using assms
proof (induction chunks arbitrary: r)
  case (Cons c cs)
  show ?case
  proof (cases "br_max_bytes r < buffered_len r + length c")
    case True
    then show ?thesis
      using filter_run_step [OF Cons.prems(1,2,3), of c rewrite cs] by (simp add: whole_body_def buffered_len_def)
  next
    case False
    then obtain r' where r': "rewriter_inv r'" "br_max_bytes r' = br_max_bytes r"
      "bv_bytes (br_buffer r') = bv_bytes (br_buffer r) @ c"
      and run: "filter_run alloc rewrite r (c # cs) =
        (if cs = [] then and_then (rewrite (bv_bytes (br_buffer r'))) (\<lambda>w. Ok [w])
         else and_then (filter_run alloc rewrite r' cs) (\<lambda>rest. Ok ([] # rest)))"
      using filter_run_step [OF Cons.prems(1,2,3), of c rewrite cs] by auto
    show ?thesis
    proof (cases cs)
      case Nil
      then show ?thesis using run r' False by (simp add: whole_body_def buffered_len_def)
    next
      case (Cons d ds)
      have "filter_run alloc rewrite r' cs =
          whole_body rewrite (br_max_bytes r) (bv_bytes (br_buffer r) @ c @ concat cs) (length cs)"
        using Cons.IH [OF r'(1) Cons.prems(2,3)] Cons r' by simp
      then show ?thesis
        using run Cons
        by (cases "rewrite (bv_bytes (br_buffer r) @ c @ concat cs)") (simp_all add: whole_body_def)
    qed
  qed
qed simp

section \<open>Serialisation under the lease\<close>

text \<open>The lease has charged the capacity of the output.\<close>

definition writer_inv :: "nat \<Rightarrow> body_writer \<Rightarrow> bool" where
  "writer_inv maximum w \<longleftrightarrow>
     length (bv_bytes (bw_vec w)) \<le> maximum \<and> length (bv_bytes (bw_vec w)) \<le> bv_capacity (bw_vec w) \<and>
     (\<forall>l. bw_lease w = Some l \<longrightarrow> bv_capacity (bw_vec w) \<le> le_rewrite_capacity l)"

lemma update_working_rewrite:
  "update_working len capacity large processing st l = (r, st', l') \<Longrightarrow> le_rewrite_capacity l' = le_rewrite_capacity l"
  by (auto simp: update_working_def Let_def split: option.splits if_splits)

lemma charge_rewrite_result:
  assumes "charge_rewrite capacity w = (r, w')"
  shows "bw_vec w' = bw_vec w \<and> (bw_lease w' = None \<longleftrightarrow> bw_lease w = None) \<and>
         (\<forall>l l'. bw_lease w = Some l \<longrightarrow> bw_lease w' = Some l' \<longrightarrow>
            le_rewrite_capacity l \<le> le_rewrite_capacity l' \<and> (r = Ok () \<longrightarrow> capacity \<le> le_rewrite_capacity l'))"
proof (cases "bw_lease w")
  case None
  then show ?thesis using assms by (auto simp: charge_rewrite_def with_lease_def)
next
  case (Some l)
  let ?l = "l\<lparr>le_rewrite_capacity := max (le_rewrite_capacity l) capacity\<rparr>"
  obtain r1 st1 l1 where upd: "update_working (le_extent ?l) (le_allocation_capacity ?l) (le_large ?l) True (bw_state w) ?l = (r1, st1, l1)"
    by (cases "update_working (le_extent ?l) (le_allocation_capacity ?l) (le_large ?l) True (bw_state w) ?l")
  have "le_rewrite_capacity l1 = max (le_rewrite_capacity l) capacity"
    using update_working_rewrite [OF upd] by simp
  then show ?thesis
    using assms Some upd
    by (auto simp: charge_rewrite_def with_lease_def prepare_rewrite_def on_update_def Let_def split: if_splits)
qed

lemma write_piece_result:
  assumes inv: "writer_inv maximum w" and room: "gives_room alloc"
    and written: "write_piece alloc maximum too_large w piece = (Ok (), w')"
  shows "writer_inv maximum w' \<and> bv_bytes (bw_vec w') = bv_bytes (bw_vec w) @ piece"
proof -
  let ?v = "bw_vec w"
  let ?len = "length (bv_bytes ?v) + length piece"
  have len: "?len \<le> maximum" "checked_add (length (bv_bytes ?v)) (length piece) = Some ?len"
    using written by (auto simp: write_piece_def Let_def checked_add_def split: if_splits option.splits)
  show ?thesis
  proof (cases "bv_capacity ?v < ?len")
    case False
    then have "w' = w\<lparr>bw_vec := extend_vec ?v piece\<rparr>"
      using written len by (simp add: write_piece_def Let_def)
    then show ?thesis using inv len False by (auto simp: writer_inv_def extend_vec_def)
  next
    case True
    let ?capacity = "min (max (saturating_double (bv_capacity ?v)) ?len) maximum"
    obtain w1 where w1: "charge_rewrite ?capacity w = (Ok (), w1)"
      using written len True by (auto simp: write_piece_def Let_def split: prod.splits sum.splits)
    obtain c where c: "alloc ?v (?capacity - length (bv_bytes ?v)) = Some c"
      using written len True w1 by (auto simp: write_piece_def Let_def split: option.splits)
    obtain w2 where w2: "charge_rewrite c (w1\<lparr>bw_vec := ?v\<lparr>bv_capacity := c\<rparr>\<rparr>) = (Ok (), w2)"
      and w': "w' = w2\<lparr>bw_vec := extend_vec (bw_vec w2) piece\<rparr>"
      using written len True w1 c by (auto simp: write_piece_def Let_def split: prod.splits sum.splits)
    have vec: "bw_vec w2 = ?v\<lparr>bv_capacity := c\<rparr>"
      using charge_rewrite_result [OF w2] by simp
    have "?len \<le> ?capacity" using len by simp
    then have "?len \<le> c"
      using room c unfolding gives_room_def by fastforce
    moreover have "c \<le> le_rewrite_capacity l" if "bw_lease w2 = Some l" for l
      using charge_rewrite_result [OF w2] that by (cases "bw_lease w1") auto
    ultimately show ?thesis
      using w' vec len by (auto simp: writer_inv_def extend_vec_def)
  qed
qed

lemma write_pieces_result:
  "writer_inv maximum w \<Longrightarrow> gives_room alloc \<Longrightarrow> write_pieces alloc maximum too_large w pieces = (Ok (), w') \<Longrightarrow>
   writer_inv maximum w' \<and> bv_bytes (bw_vec w') = bv_bytes (bw_vec w) @ concat pieces"
proof (induction pieces arbitrary: w)
  case (Cons piece pieces)
  obtain w1 where w1: "write_piece alloc maximum too_large w piece = (Ok (), w1)"
    and rest: "write_pieces alloc maximum too_large w1 pieces = (Ok (), w')"
    using Cons.prems(3) by (auto split: prod.splits sum.splits)
  show ?case
    using write_piece_result [OF Cons.prems(1,2) w1] Cons.IH [OF _ Cons.prems(2) rest] by simp
qed simp

text \<open>
  A rewritten document is what serde writes, within the maximum, and the lease has charged at least as much as the
  output occupies.
\<close>

theorem serialized_within_lease:
  assumes "gives_room alloc" "serialize_with_admission alloc to_writer v maximum st l too_large = (Ok bytes, st', l')"
  shows "bytes = concat (fst (to_writer v)) \<and> length bytes \<le> maximum \<and>
         (\<forall>lease. l' = Some lease \<longrightarrow> length bytes \<le> le_rewrite_capacity lease)"
proof -
  obtain st1 l1 where start: "with_lease begin_processing st l = (Ok (), st1, l1)"
    using assms(2) by (auto simp: serialize_with_admission_def split: prod.splits sum.splits)
  let ?w = "\<lparr>bw_vec = empty_vec, bw_state = st1, bw_lease = l1\<rparr>"
  obtain w where w: "write_pieces alloc maximum too_large ?w (fst (to_writer v)) = (Ok (), w)"
    and bytes: "bytes = bv_bytes (bw_vec w)" "l' = bw_lease w"
    using assms(2) start
    by (auto simp: serialize_with_admission_def Let_def split: prod.splits sum.splits if_splits)
  have "writer_inv maximum ?w" by (simp add: writer_inv_def empty_vec_def)
  from write_pieces_result [OF this assms(1) w] show ?thesis
    using bytes by (auto simp: writer_inv_def empty_vec_def)
qed

end
