(* ===== verification/Response_Pipeline.thy ===== *)
theory Response_Pipeline
  imports Body_Rewriting Stream_Guardrails Foundry_Checks Service_Cost_Context Socket_Frames Upstream_Request
begin

text \<open>
  The response on its way to the client (\<open>gateway-proxy/src/pingora_plane.rs\<close>): the headers that \<open>response_filter\<close> edits
  with the lease it takes for post-call guardrails, and the chunks that \<open>response_body_filter\<close> redacts, buffers, rewrites,
  bounds and observes. Traffic diagnostics and telemetry are left out; one reading of the clock, an argument, serves a call.
\<close>

section \<open>State\<close>

record response_env =
  rv_http :: http_env
  rv_uri :: "string \<Rightarrow> string option"
  rv_alloc :: allocator
  rv_to_writer :: "json \<Rightarrow> string list \<times> bool"
  rv_from_slice :: "string \<Rightarrow> json option"
  rv_send :: http_send
  rv_latency :: nat

record response_state =
  rx_trusted_ingress :: bool
  rx_rewriter :: "body_rewriter option"
  rx_lease :: "lease option"
  rx_bytes_seen :: nat
  rx_usage :: foundry_usage
  rx_observer :: observer
  rx_upgraded :: bool
  rx_frames :: "frame_limit option"
  rx_expires_at :: int

datatype response_failure = InternalError | ConnectionClosed

type_synonym response_parts = "response_state \<times> pingora_context \<times> body_state"

definition has_entries :: "guardrail_definition list option \<Rightarrow> bool" where
  "has_entries plan = (case plan of None \<Rightarrow> False | Some entries \<Rightarrow> entries \<noteq> [])"

section \<open>Headers\<close>

definition content_length :: "header_map \<Rightarrow> nat option" where
  "content_length headers = Option.bind (header_value headers ''content-length'') parse_u64"

definition response_buffer_reservation_bytes :: "header_map \<Rightarrow> nat \<Rightarrow> nat" where
  "response_buffer_reservation_bytes headers unknown_length = (case content_length headers of None \<Rightarrow> unknown_length | Some n \<Rightarrow> n)"

definition response_rewrite_edits :: "bool \<Rightarrow> header_edit list" where
  "response_rewrite_edits use_http1_chunked =
     [Remove ''Content-Length'', Remove ''Transfer-Encoding''] @
     (if use_http1_chunked then [Insert ''Transfer-Encoding'' ''Chunked''] else [])"

definition location_edits :: "response_env \<Rightarrow> response_state \<Rightarrow> pingora_context \<Rightarrow> header_map \<Rightarrow> header_edit list" where
  "location_edits env rx ctx headers =
     (if \<not> rx_trusted_ingress rx then []
      else case (pc_public_origin ctx, header_value headers ''location'') of
        (Some origin, Some location) \<Rightarrow>
          (case trusted_ingress_location (rv_uri env) location origin of
             Some rewritten \<Rightarrow> [Remove ''location'', Insert ''location'' rewritten]
           | None \<Rightarrow> [])
      | _ \<Rightarrow> [])"

definition response_first_edits :: "pingora_context \<Rightarrow> header_edit list" where
  "response_first_edits ctx =
     [Insert ''x-request-id'' (pc_request_id ctx), Insert ''x-relayna-request-id'' (pc_request_id ctx),
      Remove ''alt-svc'', Remove admission_context_header] @
     (if ea_accessa (pc_access ctx) = None then []
      else Remove ''x-access-token'' #
        (case ea_user_token_forwarding (pc_access ctx) of None \<Rightarrow> [] | Some f \<Rightarrow> [Remove (uf_header f)]))"

text \<open>The lease for the buffered response: a failure is the guardrail error of the request.\<close>

definition lease_response :: "header_map \<Rightarrow> response_parts \<Rightarrow> (response_failure + unit) \<times> response_parts" where
  "lease_response headers = (\<lambda>(rx, ctx, bs).
     if \<not> has_entries (pc_post_guardrail_plan ctx) \<or> rx_lease rx \<noteq> None then (Ok (), rx, ctx, bs)
     else case try_acquire_sized (content_length headers) bs of
       (Inl e, bs) \<Rightarrow> (Err InternalError, rx, ctx\<lparr>pc_guardrail_error := Some e\<rparr>, bs)
     | (Inr l, bs) \<Rightarrow>
         (case try_reserve (response_buffer_reservation_bytes headers (bs_max_bytes bs)) bs l of
            (Inl e, bs, l) \<Rightarrow> (Err InternalError, rx, ctx\<lparr>pc_guardrail_error := Some e\<rparr>, lease_drop bs l)
          | (Inr _, bs, l) \<Rightarrow> (Ok (), rx\<lparr>rx_lease := Some l\<rparr>, ctx, bs)))"

definition guardrail_header_edits :: "bool \<Rightarrow> pingora_context \<Rightarrow> header_edit list" where
  "guardrail_header_edits http2 ctx =
     (if has_entries (pc_post_guardrail_plan ctx) \<or> has_entries (pc_during_guardrail_plan ctx)
      then [Insert ''x-relayna-applied-guardrails'' (applied_guardrails_header ctx)] else []) @
     (if has_entries (pc_post_guardrail_plan ctx) then response_rewrite_edits (\<not> http2) else [])"

definition response_filter ::
    "response_env \<Rightarrow> bool \<Rightarrow> header_map \<Rightarrow> response_parts \<Rightarrow> (response_failure + header_map) \<times> response_parts" where
  "response_filter env http2 headers parts =
     (let (rx, ctx, bs) = parts in
      case apply_edits (rv_http env) (response_first_edits ctx) headers of
        None \<Rightarrow> (Err InternalError, parts)
      | Some headers \<Rightarrow>
     (case apply_edits (rv_http env) (location_edits env rx ctx headers) headers of
        None \<Rightarrow> (Err InternalError, parts)
      | Some headers \<Rightarrow>
     (case lease_response headers parts of
        (Inl e, parts) \<Rightarrow> (Err e, parts)
      | (Inr _, parts) \<Rightarrow>
          (case apply_edits (rv_http env) (guardrail_header_edits http2 ctx) headers of
             None \<Rightarrow> (Err InternalError, parts)
           | Some headers \<Rightarrow> (Ok headers, parts)))))"

section \<open>Chunks of a socket\<close>

definition octets :: "string \<Rightarrow> octet list" where
  "octets s = map (\<lambda>c. of_nat (byte c)) s"

definition socket_body :: "int \<Rightarrow> string option \<Rightarrow> response_state \<Rightarrow> (response_failure + unit) \<times> response_state" where
  "socket_body now body rx =
     (if \<not> rx_upgraded rx then (Ok (), rx)
      else case rx_frames rx of
        None \<Rightarrow> (Ok (), rx)
      | Some frames \<Rightarrow>
          if rx_expires_at rx \<le> now then (Err ConnectionClosed, rx)
          else case feed frames (octets (case body of None \<Rightarrow> [] | Some b \<Rightarrow> b)) of
            (Inl e, frames) \<Rightarrow> (Err ConnectionClosed, rx\<lparr>rx_frames := Some frames\<rparr>)
          | (Inr _, frames) \<Rightarrow> (Ok (), rx\<lparr>rx_frames := Some frames\<rparr>))"

section \<open>Chunks of a response\<close>

definition body_len :: "string option \<Rightarrow> nat" where
  "body_len body = (case body of None \<Rightarrow> 0 | Some b \<Rightarrow> length b)"

definition rewriter_len :: "response_state \<Rightarrow> nat" where
  "rewriter_len rx = (case rx_rewriter rx of None \<Rightarrow> 0 | Some r \<Rightarrow> buffered_len r)"

text \<open>A failure of the lease empties the buffer and gives the lease back.\<close>

definition abandon :: "gateway_error \<Rightarrow> lease \<Rightarrow> response_parts \<Rightarrow> response_parts" where
  "abandon e l = (\<lambda>(rx, ctx, bs).
     (rx\<lparr>rx_rewriter := map_option (\<lambda>r. snd (take_buffer r)) (rx_rewriter rx), rx_lease := None\<rparr>,
      ctx\<lparr>pc_guardrail_error := Some e\<rparr>, lease_drop bs l))"

definition then_op :: "unit gateway_result \<times> body_state \<times> lease \<Rightarrow> unit body_op \<Rightarrow> unit gateway_result \<times> body_state \<times> lease" where
  "then_op step f = (case step of (Inl e, bs, l) \<Rightarrow> (Err e, bs, l) | (Inr _, bs, l) \<Rightarrow> f bs l)"

text \<open>An operation of the lease, if there is one.\<close>

definition lease_step :: "unit body_op \<Rightarrow> response_parts \<Rightarrow> (response_failure + unit) \<times> response_parts" where
  "lease_step f parts =
     (let (rx, ctx, bs) = parts in
      case rx_lease rx of
        None \<Rightarrow> (Ok (), parts)
      | Some l \<Rightarrow>
          (case f bs l of
             (Inl e, bs, l) \<Rightarrow> (Err InternalError, abandon e l (rx, ctx, bs))
           | (Inr _, bs, l) \<Rightarrow> (Ok (), rx\<lparr>rx_lease := Some l\<rparr>, ctx, bs)))"

definition reserve_op :: "response_state \<Rightarrow> nat \<Rightarrow> unit body_op" where
  "reserve_op rx chunk_len bs l =
     (let required = saturating_add (rewriter_len rx) chunk_len;
          additional = required - le_reserved_bytes l
      in case (case rx_rewriter rx of None \<Rightarrow> Ok required | Some r \<Rightarrow> next_capacity r chunk_len) of
           Inl e \<Rightarrow> (Err e, bs, l)
         | Inr capacity \<Rightarrow> then_op (prepare_buffer required capacity bs l) (try_reserve additional))"

definition reserve_chunk :: "string option \<Rightarrow> response_parts \<Rightarrow> (response_failure + unit) \<times> response_parts" where
  "reserve_chunk body = (\<lambda>(rx, ctx, bs).
     if has_entries (pc_post_guardrail_plan ctx) \<and> 0 < body_len body
     then lease_step (reserve_op rx (body_len body)) (rx, ctx, bs) else (Ok (), rx, ctx, bs))"

definition post_call_rewrite ::
    "response_env \<Rightarrow> int \<Rightarrow> pingora_context \<Rightarrow> body_state \<Rightarrow> lease option \<Rightarrow> string \<Rightarrow>
     string gateway_result \<times> execution_event list \<times> body_state \<times> lease option" where
  "post_call_rewrite env now ctx bs l raw =
     (case rv_from_slice env raw of
        None \<Rightarrow> (Ok raw, [], bs, l)
      | Some response_json \<Rightarrow>
          (case pc_guardrail_context ctx of
             None \<Rightarrow> (Ok raw, [], bs, l)
           | Some context \<Rightarrow>
               (case execute (guardrail_executor_for_definitions (rv_send env) (rv_latency env) (pc_guardrail_definitions ctx))
                       (case pc_post_guardrail_plan ctx of None \<Rightarrow> [] | Some plan \<Rightarrow> plan) PostCall context None (Some response_json) of
                  Inl e \<Rightarrow> (Err e, [], bs, l)
                | Inr execution \<Rightarrow>
                    let (r, bs, l) = serialize_with_admission (rv_alloc env) (rv_to_writer env)
                          (case ge_response execution of None \<Rightarrow> JNull | Some v \<Rightarrow> v)
                          (case pc_route_match ctx of None \<Rightarrow> usize_max | Some m \<Rightarrow> rm_max_response_body_bytes m)
                          bs l ResponseBodyTooLarge
                    in (r, execution_events_from_records (ge_context execution) (ge_records execution) now, bs, l))))"

definition apply_post_call_guardrails ::
    "response_env \<Rightarrow> int \<Rightarrow> string option \<Rightarrow> bool \<Rightarrow> response_parts \<Rightarrow> unit gateway_result \<times> string option \<times> response_parts" where
  "apply_post_call_guardrails env now body end_of_stream = (\<lambda>(rx, ctx, bs).
     if \<not> has_entries (pc_post_guardrail_plan ctx) then (Ok (), body, rx, ctx, bs)
     else case rx_rewriter rx of
       None \<Rightarrow> (Ok (), body, rx, ctx, bs)
     | Some r \<Rightarrow>
         let rewrite = post_call_rewrite env now ctx bs (rx_lease rx);
             appended = append_chunk (rv_alloc env) r body;
             (events, bs, l) = (if end_of_stream \<and> is_ok (fst appended) then snd (rewrite (bv_bytes (br_buffer (snd appended))))
                                else ([], bs, rx_lease rx));
             (result, body, r) = filter_chunk (rv_alloc env) (\<lambda>raw. fst (rewrite raw)) r body end_of_stream;
             rx = rx\<lparr>rx_rewriter := Some r, rx_lease := l\<rparr>
         in (case result of
               Inl e \<Rightarrow> (Err e, body, rx, ctx, bs)
             | Inr _ \<Rightarrow> (Ok (), body, rx, ctx\<lparr>pc_guardrail_events := pc_guardrail_events ctx @ events\<rparr>, bs)))"

definition settle_op :: "bool \<Rightarrow> nat \<Rightarrow> nat \<Rightarrow> unit body_op" where
  "settle_op end_of_stream len retained bs l =
     then_op (if end_of_stream then (Ok (), bs, l) else prepare_buffer len (max retained len) bs l)
       (\<lambda>bs l. try_reserve (len - le_reserved_bytes l) bs l)"

definition settle_chunk :: "string option \<Rightarrow> bool \<Rightarrow> response_parts \<Rightarrow> (response_failure + unit) \<times> response_parts" where
  "settle_chunk body end_of_stream = (\<lambda>(rx, ctx, bs).
     lease_step
       (settle_op end_of_stream (max (body_len body) (rewriter_len rx))
         (case rx_rewriter rx of None \<Rightarrow> 0 | Some r \<Rightarrow> bv_capacity (br_buffer r))) (rx, ctx, bs))"

definition response_usage_tokens ::
    "response_env \<Rightarrow> response_state \<Rightarrow> pingora_context \<Rightarrow> int option \<times> int option \<times> int option" where
  "response_usage_tokens env rx ctx =
     (if pc_foundry ctx \<noteq> None \<and> pc_is_streaming ctx then fu_tokens (rx_usage rx)
      else extract_usage_tokens (rv_from_slice env) (pc_response_body_prefix ctx))"

definition observe_response_body_chunk ::
    "response_env \<Rightarrow> string \<Rightarrow> response_state \<Rightarrow> pingora_context \<Rightarrow> response_state \<times> pingora_context" where
  "observe_response_body_chunk env body rx ctx =
     (let rx = (if pc_foundry ctx \<noteq> None \<and> pc_is_streaming ctx
                then rx\<lparr>rx_usage := usage_feed (rv_from_slice env) (rx_usage rx) body\<rparr> else rx);
          ctx = (if pc_is_streaming ctx \<and> \<not> pc_first_chunk_recorded ctx then ctx\<lparr>pc_first_chunk_recorded := True\<rparr> else ctx);
          ctx = (if length (pc_response_body_prefix ctx) < 65536
                 then ctx\<lparr>pc_response_body_prefix :=
                        pc_response_body_prefix ctx @ take (65536 - length (pc_response_body_prefix ctx)) body\<rparr>
                 else ctx)
      in (rx, ctx))"

definition try_i64 :: "nat \<Rightarrow> int option" where
  "try_i64 n = (if int n \<le> i64_max then Some (int n) else None)"

definition try_i32 :: "int \<Rightarrow> int option" where
  "try_i32 n = (if - 2147483648 \<le> n \<and> n \<le> 2147483647 then Some n else None)"

definition policy_failure :: "unit gateway_result \<Rightarrow> response_parts \<Rightarrow> (response_failure + unit) \<times> response_parts" where
  "policy_failure result = (\<lambda>(rx, ctx, bs).
     case result of
       Inl e \<Rightarrow> (Err InternalError, rx, ctx\<lparr>pc_guardrail_error := Some e\<rparr>, bs)
     | Inr _ \<Rightarrow> (Ok (), rx, ctx, bs))"

definition size_limit :: "int \<Rightarrow> response_state \<Rightarrow> pingora_context \<Rightarrow> unit gateway_result" where
  "size_limit now rx ctx =
     (if (case pc_route_match ctx of None \<Rightarrow> False | Some m \<Rightarrow> rm_max_response_body_bytes m < rx_bytes_seen rx)
      then Err ResponseBodyTooLarge
      else case pc_policy ctx of
        None \<Rightarrow> Ok ()
      | Some policy \<Rightarrow> evaluate_policy_limits policy now None (try_i64 (rx_bytes_seen rx)) None None None)"

definition final_limit :: "response_env \<Rightarrow> int \<Rightarrow> response_state \<Rightarrow> pingora_context \<Rightarrow> unit gateway_result" where
  "final_limit env now rx ctx =
     (case pc_policy ctx of
        None \<Rightarrow> Ok ()
      | Some policy \<Rightarrow>
          evaluate_policy_limits policy now None None None
            (Option.bind (fst (snd (response_usage_tokens env rx ctx))) try_i32)
            (ru_estimated_cost_usd (resolved_usage_cost_for (rv_from_slice env) (rx_observer rx) ctx)))"

definition deliver :: "response_env \<Rightarrow> int \<Rightarrow> string option \<Rightarrow> bool \<Rightarrow> response_parts \<Rightarrow> (response_failure + unit) \<times> response_parts" where
  "deliver env now body end_of_stream = (\<lambda>(rx, ctx, bs).
     case body of
       None \<Rightarrow> (Ok (), rx, ctx, bs)
     | Some b \<Rightarrow>
         let rx = rx\<lparr>rx_bytes_seen := saturating_add (rx_bytes_seen rx) (length b)\<rparr> in
         (case policy_failure (size_limit now rx ctx) (rx, ctx, bs) of
            (Inl e, parts) \<Rightarrow> (Err e, parts)
          | (Inr _, parts) \<Rightarrow>
              let (rx, ctx) = observe_response_body_chunk env b rx ctx
              in if end_of_stream then policy_failure (final_limit env now rx ctx) (rx, ctx, bs) else (Ok (), rx, ctx, bs)))"

definition response_body_filter ::
    "response_env \<Rightarrow> int \<Rightarrow> string option \<Rightarrow> bool \<Rightarrow> response_parts \<Rightarrow> (response_failure + unit) \<times> string option \<times> response_parts" where
  "response_body_filter env now body end_of_stream parts =
     (let (rx, ctx, bs) = parts in
      if pc_socket ctx then let (r, rx) = socket_body now body rx in (r, body, rx, ctx, bs)
      else
        let (body, ctx) = (if has_entries (pc_during_guardrail_plan ctx)
                           then apply_streaming_guardrails (rv_send env) (rv_latency env) now body end_of_stream ctx
                           else (body, ctx))
        in case reserve_chunk body (rx, ctx, bs) of
             (Inl e, parts) \<Rightarrow> (Err e, Some [], parts)
           | (Inr _, parts) \<Rightarrow>
        (case (if end_of_stream then lease_step begin_processing parts else (Ok (), parts)) of
             (Inl e, parts) \<Rightarrow> (Err e, Some [], parts)
           | (Inr _, parts) \<Rightarrow>
        (case apply_post_call_guardrails env now body end_of_stream parts of
             (Inl e, body, rx, ctx, bs) \<Rightarrow> (Err InternalError, Some [], rx, ctx\<lparr>pc_guardrail_error := Some e\<rparr>, bs)
           | (Inr _, body, parts) \<Rightarrow>
        (case settle_chunk body end_of_stream parts of
             (Inl e, parts) \<Rightarrow> (Err e, Some [], parts)
           | (Inr _, parts) \<Rightarrow>
               let (r, parts) = deliver env now body end_of_stream parts in (r, body, parts)))))"

section \<open>What a step keeps\<close>

definition kept :: "response_parts \<Rightarrow> response_parts \<Rightarrow> bool" where
  "kept p q \<longleftrightarrow>
     rx_bytes_seen (fst q) = rx_bytes_seen (fst p) \<and> pc_route_match (fst (snd q)) = pc_route_match (fst (snd p)) \<and>
     pc_policy (fst (snd q)) = pc_policy (fst (snd p)) \<and> pc_socket (fst (snd q)) = pc_socket (fst (snd p))"

lemma kept_refl [simp]: "kept p p"
  by (simp add: kept_def)

lemma kept_trans: "kept p q \<Longrightarrow> kept q r \<Longrightarrow> kept p r"
  by (simp add: kept_def)

lemma during_call_kept:
  "during_call send latency now ctx s = (out, ctx') \<Longrightarrow>
   pc_route_match ctx' = pc_route_match ctx \<and> pc_policy ctx' = pc_policy ctx \<and> pc_socket ctx' = pc_socket ctx"
  by (auto simp: during_call_def split: option.splits sum.splits)

lemma apply_streaming_kept:
  "apply_streaming_guardrails send latency now body e ctx = (body', ctx') \<Longrightarrow>
   pc_route_match ctx' = pc_route_match ctx \<and> pc_policy ctx' = pc_policy ctx \<and> pc_socket ctx' = pc_socket ctx"
  by (auto simp: apply_streaming_guardrails_def Let_def dest!: during_call_kept split: option.splits if_splits prod.splits)

lemma lease_step_kept: "lease_step f p = (r, q) \<Longrightarrow> kept p q"
  by (cases p) (auto simp: lease_step_def abandon_def kept_def Let_def split: option.splits sum.splits prod.splits)

lemma reserve_chunk_kept: "reserve_chunk body p = (r, q) \<Longrightarrow> kept p q"
  by (cases p) (auto simp: reserve_chunk_def dest: lease_step_kept split: if_splits)

lemma settle_chunk_kept: "settle_chunk body e p = (r, q) \<Longrightarrow> kept p q"
  by (cases p) (auto simp: settle_chunk_def dest: lease_step_kept)

lemma post_call_kept: "apply_post_call_guardrails env now body e p = (r, body', q) \<Longrightarrow> kept p q"
  by (cases p)
    (auto simp: apply_post_call_guardrails_def kept_def Let_def split: if_splits option.splits prod.splits sum.splits)

lemma observe_kept:
  "observe_response_body_chunk env b rx ctx = (rx', ctx') \<Longrightarrow>
   rx_bytes_seen rx' = rx_bytes_seen rx \<and> pc_route_match ctx' = pc_route_match ctx \<and> pc_policy ctx' = pc_policy ctx \<and>
   pc_socket ctx' = pc_socket ctx"
  by (auto simp: observe_response_body_chunk_def Let_def split: if_splits)

lemma size_limit_cong:
  "rx_bytes_seen rx = rx_bytes_seen rx' \<Longrightarrow> pc_route_match ctx = pc_route_match ctx' \<Longrightarrow> pc_policy ctx = pc_policy ctx' \<Longrightarrow>
   size_limit now rx ctx = size_limit now rx' ctx'"
  by (simp only: size_limit_def)

text \<open>A chunk that is delivered was counted, and the count was within the limits.\<close>

lemma deliver_counted:
  assumes "deliver env now (Some b) e (rx, ctx, bs) = (Ok (), rx', ctx', bs')"
  shows "rx_bytes_seen rx' = saturating_add (rx_bytes_seen rx) (length b) \<and> size_limit now rx' ctx' = Ok () \<and>
         pc_route_match ctx' = pc_route_match ctx \<and> pc_policy ctx' = pc_policy ctx \<and> pc_socket ctx' = pc_socket ctx"
proof -
  let ?rx = "rx\<lparr>rx_bytes_seen := saturating_add (rx_bytes_seen rx) (length b)\<rparr>"
  have ok: "size_limit now ?rx ctx = Ok ()"
    using assms by (cases "size_limit now ?rx ctx") (auto simp: deliver_def policy_failure_def Let_def)
  obtain rx1 ctx1 where ob: "observe_response_body_chunk env b ?rx ctx = (rx1, ctx1)"
    by (cases "observe_response_body_chunk env b ?rx ctx")
  have same: "rx' = rx1" "ctx' = ctx1"
    using assms ok ob by (auto simp: deliver_def policy_failure_def Let_def split: if_splits sum.splits)
  have "size_limit now rx1 ctx1 = size_limit now ?rx ctx"
    using observe_kept [OF ob] by (blast intro: size_limit_cong)
  then show ?thesis using same observe_kept [OF ob] ok by simp
qed

lemma filter_step:
  assumes "response_body_filter env now body e (rx, ctx, bs) = (Ok (), body', rx', ctx', bs')" "\<not> pc_socket ctx"
  shows "pc_route_match ctx' = pc_route_match ctx \<and> pc_policy ctx' = pc_policy ctx \<and> \<not> pc_socket ctx' \<and>
         (case body' of
            None \<Rightarrow> rx_bytes_seen rx' = rx_bytes_seen rx
          | Some b \<Rightarrow> rx_bytes_seen rx' = saturating_add (rx_bytes_seen rx) (length b) \<and> size_limit now rx' ctx' = Ok ())"
proof -
  obtain body1 ctx1 where s1: "(if has_entries (pc_during_guardrail_plan ctx)
      then apply_streaming_guardrails (rv_send env) (rv_latency env) now body e ctx else (body, ctx)) = (body1, ctx1)"
    by (cases "if has_entries (pc_during_guardrail_plan ctx)
      then apply_streaming_guardrails (rv_send env) (rv_latency env) now body e ctx else (body, ctx)")
  have k1: "kept (rx, ctx, bs) (rx, ctx1, bs)"
    using s1 apply_streaming_kept [of "rv_send env" "rv_latency env" now body e ctx body1 ctx1]
    by (auto simp: kept_def split: if_splits)
  note step = assms(1) [unfolded response_body_filter_def Let_def prod.case s1]
  obtain r2 p2 where s2: "reserve_chunk body1 (rx, ctx1, bs) = (r2, p2)" by (cases "reserve_chunk body1 (rx, ctx1, bs)")
  have r2: "r2 = Ok ()" using step assms(2) s2 by (cases r2) auto
  obtain r3 p3 where s3: "(if e then lease_step begin_processing p2 else (Ok (), p2)) = (r3, p3)"
    by (cases "if e then lease_step begin_processing p2 else (Ok (), p2)")
  have r3: "r3 = Ok ()" using step assms(2) s2 r2 s3 by (cases r3) auto
  obtain r4 body4 p4 where s4: "apply_post_call_guardrails env now body1 e p3 = (r4, body4, p4)"
    by (cases "apply_post_call_guardrails env now body1 e p3")
  have r4: "r4 = Ok ()" using step assms(2) s2 r2 s3 r3 s4 by (cases r4; cases p4) auto
  obtain r5 p5 where s5: "settle_chunk body4 e p4 = (r5, p5)" by (cases "settle_chunk body4 e p4")
  have r5: "r5 = Ok ()" using step assms(2) s2 r2 s3 r3 s4 r4 s5 by (cases r5) auto
  have last_step: "deliver env now body4 e p5 = (Ok (), rx', ctx', bs')" "body' = body4"
    using step assms(2) s2 r2 s3 r3 s4 r4 s5 r5 by (auto split: prod.splits)
  have k3: "kept p2 p3" using s3 lease_step_kept by (cases e) auto
  have k: "kept (rx, ctx, bs) p5"
    using k1 reserve_chunk_kept [OF s2] k3 post_call_kept [OF s4] settle_chunk_kept [OF s5] by (blast intro: kept_trans)
  obtain rx5 ctx5 bs5 where p5: "p5 = (rx5, ctx5, bs5)" by (cases p5)
  show ?thesis
  proof (cases body4)
    case None
    then show ?thesis using last_step k p5 assms(2) by (simp add: deliver_def kept_def)
  next
    case (Some b)
    then show ?thesis
      using deliver_counted [of env now b e rx5 ctx5 bs5 rx' ctx' bs'] last_step k p5 assms(2) by (simp add: kept_def)
  qed
qed

section \<open>A whole response\<close>

text \<open>The chunks of a response with the times at which they pass; what the client gets until one of them fails.\<close>

fun response_run :: "response_env \<Rightarrow> (int \<times> string option \<times> bool) list \<Rightarrow> response_parts \<Rightarrow> string list" where
  "response_run env [] parts = []"
| "response_run env ((now, body, e) # chunks) parts =
     (case response_body_filter env now body e parts of
        (Inl failure, body, parts) \<Rightarrow> []
      | (Inr _, body, parts) \<Rightarrow> (case body of None \<Rightarrow> [] | Some b \<Rightarrow> b) # response_run env chunks parts)"

definition delivered :: "response_env \<Rightarrow> (int \<times> string option \<times> bool) list \<Rightarrow> response_parts \<Rightarrow> nat" where
  "delivered env chunks parts = length (concat (response_run env chunks parts))"

lemma delivered_Nil [simp]: "delivered env [] parts = 0"
  by (simp add: delivered_def)

lemma delivered_Cons:
  assumes "\<not> pc_socket ctx"
  shows "delivered env ((now, body, e) # chunks) (rx, ctx, bs) = 0 \<or>
    (\<exists>b rx' ctx' bs'. delivered env ((now, body, e) # chunks) (rx, ctx, bs) = b + delivered env chunks (rx', ctx', bs') \<and>
       pc_route_match ctx' = pc_route_match ctx \<and> pc_policy ctx' = pc_policy ctx \<and> \<not> pc_socket ctx' \<and>
       (b = 0 \<and> rx_bytes_seen rx' = rx_bytes_seen rx \<or>
        rx_bytes_seen rx' = saturating_add (rx_bytes_seen rx) b \<and> size_limit now rx' ctx' = Ok ()))"
proof -
  obtain r body' rx' ctx' bs' where step: "response_body_filter env now body e (rx, ctx, bs) = (r, body', rx', ctx', bs')"
    by (cases "response_body_filter env now body e (rx, ctx, bs)")
  show ?thesis
  proof (cases r)
    case (Inl failure)
    then show ?thesis using step by (simp add: delivered_def)
  next
    case (Inr u)
    then have "response_body_filter env now body e (rx, ctx, bs) = (Ok (), body', rx', ctx', bs')" using step by simp
    note facts = filter_step [OF this assms]
    have "delivered env ((now, body, e) # chunks) (rx, ctx, bs) = body_len body' + delivered env chunks (rx', ctx', bs')"
      using step Inr by (cases body') (simp_all add: delivered_def body_len_def)
    moreover have "body_len body' = 0 \<and> rx_bytes_seen rx' = rx_bytes_seen rx \<or>
        rx_bytes_seen rx' = saturating_add (rx_bytes_seen rx) (body_len body') \<and> size_limit now rx' ctx' = Ok ()"
      using facts by (cases body') (simp_all add: body_len_def)
    ultimately show ?thesis using facts by blast
  qed
qed

lemma size_limit_route:
  "size_limit now rx ctx = Ok () \<Longrightarrow> pc_route_match ctx = Some m \<Longrightarrow> rx_bytes_seen rx \<le> rm_max_response_body_bytes m"
  by (auto simp: size_limit_def split: if_splits)

lemma size_limit_policy:
  "size_limit now rx ctx = Ok () \<Longrightarrow> pc_policy ctx = Some p \<Longrightarrow> kp_max_response_body_bytes p = Some n \<Longrightarrow>
   int (rx_bytes_seen rx) \<le> i64_max \<Longrightarrow> int (rx_bytes_seen rx) \<le> n"
  by (auto simp: size_limit_def evaluate_policy_limits_def try_i64_def split: if_splits)

lemma delivered_route_bound:
  assumes "\<not> pc_socket ctx" "pc_route_match ctx = Some m" "rm_max_response_body_bytes m < usize_max"
    and "rx_bytes_seen rx \<le> rm_max_response_body_bytes m"
  shows "rx_bytes_seen rx + delivered env chunks (rx, ctx, bs) \<le> rm_max_response_body_bytes m"
  using assms
proof (induction chunks arbitrary: rx ctx bs)
  case (Cons c chunks)
  obtain now body e where c: "c = (now, body, e)" by (cases c)
  consider "delivered env (c # chunks) (rx, ctx, bs) = 0"
    | b rx' ctx' bs' where "delivered env (c # chunks) (rx, ctx, bs) = b + delivered env chunks (rx', ctx', bs')"
      "pc_route_match ctx' = Some m" "\<not> pc_socket ctx'"
      "b = 0 \<and> rx_bytes_seen rx' = rx_bytes_seen rx \<or>
       rx_bytes_seen rx' = saturating_add (rx_bytes_seen rx) b \<and> size_limit now rx' ctx' = Ok ()"
    using delivered_Cons [OF Cons.prems(1), of env now body e chunks rx bs] Cons.prems(2) c by auto
  then show ?case
  proof cases
    case 1
    then show ?thesis using Cons.prems(4) by simp
  next
    case 2
    have "rx_bytes_seen rx' = rx_bytes_seen rx + b \<and> rx_bytes_seen rx' \<le> rm_max_response_body_bytes m"
      using 2 Cons.prems(3,4) size_limit_route [of now rx' ctx' m] by (auto simp: saturating_add_def usize_max_def min_def split: if_splits)
    then show ?thesis using 2 Cons.IH [of ctx' rx' bs'] Cons.prems(3) by simp
  qed
qed simp

lemma delivered_policy_bound:
  assumes "\<not> pc_socket ctx" "pc_policy ctx = Some p" "kp_max_response_body_bytes p = Some n"
    and "int (rx_bytes_seen rx) \<le> max 0 n" "int (rx_bytes_seen rx + delivered env chunks (rx, ctx, bs)) \<le> i64_max"
  shows "int (rx_bytes_seen rx + delivered env chunks (rx, ctx, bs)) \<le> max 0 n"
  using assms
proof (induction chunks arbitrary: rx ctx bs)
  case (Cons c chunks)
  obtain now body e where c: "c = (now, body, e)" by (cases c)
  consider "delivered env (c # chunks) (rx, ctx, bs) = 0"
    | b rx' ctx' bs' where "delivered env (c # chunks) (rx, ctx, bs) = b + delivered env chunks (rx', ctx', bs')"
      "pc_policy ctx' = Some p" "\<not> pc_socket ctx'"
      "b = 0 \<and> rx_bytes_seen rx' = rx_bytes_seen rx \<or>
       rx_bytes_seen rx' = saturating_add (rx_bytes_seen rx) b \<and> size_limit now rx' ctx' = Ok ()"
    using delivered_Cons [OF Cons.prems(1), of env now body e chunks rx bs] Cons.prems(2) c by auto
  then show ?case
  proof cases
    case 1
    then show ?thesis using Cons.prems(4) by simp
  next
    case 2
    have seen: "rx_bytes_seen rx' = rx_bytes_seen rx + b"
      using 2 Cons.prems(5) by (auto simp: saturating_add_def usize_max_def i64_max_def)
    then have "int (rx_bytes_seen rx') \<le> max 0 n"
      using 2 Cons.prems(3,4,5) size_limit_policy [of now rx' ctx' p n] by auto
    then show ?thesis using 2 seen Cons.IH [of ctx' rx' bs'] Cons.prems(3,5) by (simp add: add.assoc)
  qed
qed simp

text \<open>
  C10 (bounds): whatever chunks the upstream sends and whatever the guardrails make of them, the bytes that reach the
  client stay within the limit of the route, unless it is the largest number there is, and within the limit of the
  policy, as long as the count fits 63 bits.
\<close>

theorem response_within_limits:
  assumes "\<not> pc_socket ctx" "rx_bytes_seen rx = 0"
  shows "(\<forall>m. pc_route_match ctx = Some m \<longrightarrow> rm_max_response_body_bytes m < usize_max \<longrightarrow>
            delivered env chunks (rx, ctx, bs) \<le> rm_max_response_body_bytes m) \<and>
         (\<forall>p n. pc_policy ctx = Some p \<longrightarrow> kp_max_response_body_bytes p = Some n \<longrightarrow>
            int (delivered env chunks (rx, ctx, bs)) \<le> i64_max \<longrightarrow> int (delivered env chunks (rx, ctx, bs)) \<le> max 0 n)"
  using delivered_route_bound [OF assms(1), of _ rx env chunks bs] delivered_policy_bound [OF assms(1), of _ _ rx env chunks bs]
  by (simp add: assms(2))

definition sample_response_env :: response_env where
  "sample_response_env =
     \<lparr>rv_http = \<lparr>ht_url = (\<lambda>_. None), ht_name_ok = (\<lambda>_. True), ht_value_ok = (\<lambda>_. True), ht_uri_ok = (\<lambda>_. True)\<rparr>,
      rv_uri = (\<lambda>_. None), rv_alloc = (\<lambda>v n. Some (length (bv_bytes v) + n)), rv_to_writer = (\<lambda>_. ([], False)),
      rv_from_slice = (\<lambda>_. None), rv_send = (\<lambda>_ _. Err GuardrailUnavailable), rv_latency = 0\<rparr>"

definition sample_response :: response_state where
  "sample_response =
     \<lparr>rx_trusted_ingress = False, rx_rewriter = None, rx_lease = None, rx_bytes_seen = 0, rx_usage = default_foundry_usage,
      rx_observer = observer_default, rx_upgraded = False, rx_frames = None, rx_expires_at = 0\<rparr>"

definition sample_response_context :: pingora_context where
  "sample_response_context =
     sample_context\<lparr>pc_route_match := Some ((litellm_match ChatCompletions)\<lparr>rm_max_response_body_bytes := 5\<rparr>)\<rparr>"

theorem response_within_limits_witness:
  "delivered sample_response_env [(0, Some ''abc'', False), (1, Some ''defg'', True)]
     (sample_response, sample_response_context, sample_state) \<le> 5"
proof -
  have "\<not> pc_socket sample_response_context" "rx_bytes_seen sample_response = 0"
    by (simp_all add: sample_response_context_def sample_context_def new_ctx_def sample_response_def)
  from response_within_limits [OF this, of sample_response_env "[(0, Some ''abc'', False), (1, Some ''defg'', True)]" sample_state]
  show ?thesis by (simp add: sample_response_context_def usize_max_def)
qed

end
