(* ===== verification/Phases.thy ===== *)
theory Phases
  imports Gateway_Prelude
begin

text \<open>
  Callbacks of the proxy as sequences of phases. A phase works on the state of the callback and passes a value on or ends the
  callback early, which is how the code uses \<open>return\<close>.
\<close>

type_synonym ('s, 'e, 'a) phased = "'s \<Rightarrow> ('e + 'a) \<times> 's"

definition ends :: "'e \<Rightarrow> ('s, 'e, 'a) phased" where
  "ends x st = (Inl x, st)"

definition passes :: "'a \<Rightarrow> ('s, 'e, 'a) phased" where
  "passes x st = (Inr x, st)"

definition in_turn :: "('s, 'e, 'a) phased \<Rightarrow> ('a \<Rightarrow> ('s, 'e, 'b) phased) \<Rightarrow> ('s, 'e, 'b) phased" where
  "in_turn p f st = (case p st of (Inl x, st) \<Rightarrow> (Inl x, st) | (Inr y, st) \<Rightarrow> f y st)"

definition stop_if :: "bool \<Rightarrow> 'e \<Rightarrow> ('s, 'e, unit) phased" where
  "stop_if b x = (if b then ends x else passes ())"

definition updates :: "('s \<Rightarrow> 's) \<Rightarrow> ('s, 'e, unit) phased" where
  "updates f st = (Inr (), f st)"

definition depending :: "('s \<Rightarrow> ('s, 'e, 'a) phased) \<Rightarrow> ('s, 'e, 'a) phased" where
  "depending f st = f st st"

lemma in_turn_Inr:
  "in_turn p f st = (Inr y, st') \<longleftrightarrow> (\<exists>x st1. p st = (Inr x, st1) \<and> f x st1 = (Inr y, st'))"
  by (auto simp: in_turn_def split: prod.splits sum.splits)

lemma in_turn_Inl:
  "in_turn p f st = (Inl e, st') \<longleftrightarrow> p st = (Inl e, st') \<or> (\<exists>x st1. p st = (Inr x, st1) \<and> f x st1 = (Inl e, st'))"
  by (auto simp: in_turn_def split: prod.splits sum.splits)

lemma passes_eq [simp]: "passes x st = (r, st') \<longleftrightarrow> r = Inr x \<and> st' = st"
  by (auto simp: passes_def)

lemma ends_eq [simp]: "ends x st = (r, st') \<longleftrightarrow> r = Inl x \<and> st' = st"
  by (auto simp: ends_def)

lemma stop_if_Inr [simp]: "stop_if b x st = (Inr u, st') \<longleftrightarrow> \<not> b \<and> st' = st"
  by (auto simp: stop_if_def)

lemma updates_eq [simp]: "updates f st = (r, st') \<longleftrightarrow> r = Inr () \<and> st' = f st"
  by (auto simp: updates_def)

lemma depending_eq [simp]: "depending f st = f st st"
  by (simp add: depending_def)

text \<open>A part of the state that no phase touches.\<close>

definition keeps :: "('s \<Rightarrow> 'b) \<Rightarrow> ('s, 'e, 'a) phased \<Rightarrow> bool" where
  "keeps f p \<longleftrightarrow> (\<forall>st r st'. p st = (r, st') \<longrightarrow> f st' = f st)"

named_theorems keeps_intros

lemma keepsD: "keeps f p \<Longrightarrow> p st = (r, st') \<Longrightarrow> f st' = f st"
  by (simp add: keeps_def)

lemma keeps_basic [keeps_intros]: "keeps f (passes x)" "keeps f (ends e)" "keeps f (stop_if b e)"
  by (auto simp: keeps_def stop_if_def)

lemma keeps_updates [keeps_intros]: "(\<And>st. f (g st) = f st) \<Longrightarrow> keeps f (updates g)"
  by (simp add: keeps_def)

lemma keeps_in_turn [keeps_intros]: "keeps f p \<Longrightarrow> (\<And>x. keeps f (g x)) \<Longrightarrow> keeps f (in_turn p g)"
  by (auto simp: keeps_def in_turn_def split: prod.splits sum.splits)

lemma keeps_depending [keeps_intros]: "(\<And>st. keeps f (g st)) \<Longrightarrow> keeps f (depending g)"
  by (auto simp: keeps_def)

lemma keeps_cases [keeps_intros]:
  "(b \<Longrightarrow> keeps f p) \<Longrightarrow> (\<not> b \<Longrightarrow> keeps f q) \<Longrightarrow> keeps f (if b then p else q)"
  "keeps f p \<Longrightarrow> (\<And>y. keeps f (k y)) \<Longrightarrow> keeps f (case x of None \<Rightarrow> p | Some y \<Rightarrow> k y)"
  "(\<And>a c. keeps f (g a c)) \<Longrightarrow> keeps f (case z of (a, c) \<Rightarrow> g a c)"
  "(\<And>e. keeps f (h e)) \<Longrightarrow> (\<And>y. keeps f (k' y)) \<Longrightarrow> keeps f (case r of Inl e \<Rightarrow> h e | Inr y \<Rightarrow> k' y)"
  by (simp_all split: option.split prod.split sum.split)

end
