(* ===== verification/Request_Filter.thy ===== *)
theory Request_Filter
  imports Phases Request_Identity Accessa_Sessions Service_Cost_Context Upstream_Request Body_Rewriting
begin

text \<open>
  The first callback of a request (\<open>request_filter\<close> in \<open>gateway-proxy/src/pingora_plane.rs\<close>, with the handshake check of
  \<open>gateway-proxy/src/websocket.rs\<close>): it finds the route with its limits, decides who the caller is and which upstream and
  credential the request gets, and lets it through or answers it. The database is a parameter. It may change while the
  request runs, so the filter sees \<open>fe_store env n\<close> at its n-th reading. Timings, traffic diagnostics and telemetry
  are left out.
\<close>

section \<open>Phases\<close>

text \<open>
  A part of the filter ends the request or passes a value on. \<open>AdmitTurn\<close> is the call of
  \<open>handle_accessa_admission\<close>, \<open>Proceeds\<close> the return value false, which lets the request through.
\<close>

datatype filter_end = Proceeds | Responded gateway_error | AdmitTurn | Aborted | Panicked

record filter_state =
  fs_ctx :: pingora_context
  fs_trace_id :: "string option"
  fs_trusted_ingress :: bool
  fs_request_rewriter :: "body_rewriter option"
  fs_response_rewriter :: "body_rewriter option"
  fs_verifier :: verifier
  fs_entra :: "entra_verifier option"
  fs_used :: "(string \<times> int) list"

type_synonym 'a phase = "(filter_state, filter_end, 'a) phased"

text \<open>An error is answered with \<open>respond_error\<close>.\<close>

definition or_respond :: "'a gateway_result \<Rightarrow> 'a phase" where
  "or_respond r = (case r of Inl e \<Rightarrow> ends (Responded e) | Inr x \<Rightarrow> passes x)"

definition change :: "(pingora_context \<Rightarrow> pingora_context) \<Rightarrow> unit phase" where
  "change f st = (Inr (), st\<lparr>fs_ctx := f (fs_ctx st)\<rparr>)"

definition with_ctx :: "(pingora_context \<Rightarrow> 'a phase) \<Rightarrow> 'a phase" where
  "with_ctx f st = f (fs_ctx st) st"

section \<open>The environment\<close>

record provider_runtime_config =
  pv_base_url :: string
  pv_credential :: "string option"
  pv_credential_header_mode :: credential_header_mode
  pv_credential_header_name :: "string option"
  pv_credential_header_value_format :: credential_value_format

record filter_store =
  fl_service_for_route :: "string \<Rightarrow> string \<Rightarrow> service_registration option gateway_result"
  fl_service :: "string \<Rightarrow> service_registration option gateway_result"
  fl_passthrough :: "passthrough_settings gateway_result"
  fl_route_identity :: "route \<Rightarrow> endpoint_access gateway_result"
  fl_openai_mode :: "route \<Rightarrow> openai_route_mode gateway_result"
  fl_anthropic_mode :: "route \<Rightarrow> openai_route_mode gateway_result"
  fl_openai_enabled :: "route \<Rightarrow> bool gateway_result"
  fl_anthropic_enabled :: "route \<Rightarrow> bool gateway_result"
  fl_openai_limits :: "route \<Rightarrow> route_limits gateway_result"
  fl_anthropic_limits :: "route \<Rightarrow> route_limits gateway_result"
  fl_guardrail_definitions :: "guardrail_definition list gateway_result"
  fl_foundry_config :: "string \<Rightarrow> foundry_runtime_config option gateway_result"
  fl_litellm_config :: "provider_runtime_config option gateway_result"
  fl_credential_mapping :: "string \<Rightarrow> string option \<Rightarrow> string option gateway_result"

text \<open>\<open>fe_admitted\<close> is the answer of the admission before authentication, \<open>fe_base64\<close> the decoder of the base64 crate.\<close>

record filter_env =
  fe_admitted :: "unit gateway_result"
  fe_runtime :: shared_auth_runtime
  fe_store :: "nat \<Rightarrow> filter_store"
  fe_proxy :: proxy_config
  fe_url :: url_env
  fe_http :: http_env
  fe_services :: service_env
  fe_lower :: "string \<Rightarrow> string"
  fe_base64 :: "string \<Rightarrow> string option"
  fe_keys :: auth_env
  fe_key_time :: int
  fe_jwt :: jwt_env
  fe_apigee :: apigee_env
  fe_network :: oidc_network
  fe_moments :: verify_moments
  fe_now :: int

record proxy_request =
  qr_method :: string
  qr_path :: string
  qr_query :: "string option"
  qr_http11 :: bool
  qr_headers :: header_map

definition has_header :: "proxy_request \<Rightarrow> string \<Rightarrow> bool" where
  "has_header req name = (get_all (qr_headers req) name \<noteq> [])"

definition authorization_of :: "proxy_request \<Rightarrow> string option" where
  "authorization_of req = header_value (qr_headers req) ''authorization''"

definition key_header :: "auth_runtime_state \<Rightarrow> string" where
  "key_header auth = rt_relayna_key_header (as_config auth)"

definition dedicated_key :: "auth_runtime_state \<Rightarrow> proxy_request \<Rightarrow> string option" where
  "dedicated_key auth req = header_value (qr_headers req) (key_header auth)"

section \<open>WebSocket handshakes\<close>

definition upgrade_requested :: "proxy_request \<Rightarrow> bool" where
  "upgrade_requested req = (has_header req ''upgrade'' \<or> has_header req ''sec-websocket-key'')"

definition valid_handshake :: "(string \<Rightarrow> string option) \<Rightarrow> proxy_request \<Rightarrow> bool" where
  "valid_handshake base64 req =
     (let headers = qr_headers req in
      qr_method req = ''GET'' \<and> qr_http11 req \<and>
      list_all (\<lambda>name. length (get_all headers name) \<le> 1)
        [''upgrade'', ''sec-websocket-key'', ''sec-websocket-version'', ''authorization''] \<and>
      (case header_value headers ''upgrade'' of None \<Rightarrow> False | Some v \<Rightarrow> eq_ignore_ascii_case v ''websocket'') \<and>
      list_ex (\<lambda>v. visible_ascii v \<and> list_ex (\<lambda>p. eq_ignore_ascii_case (trim p) ''upgrade'') (split_char (CHR '','') v))
        (get_all headers ''connection'') \<and>
      header_value headers ''sec-websocket-version'' = Some ''13'' \<and>
      (case Option.bind (header_value headers ''sec-websocket-key'') base64 of None \<Rightarrow> False | Some v \<Rightarrow> length v = 16) \<and>
      \<not> has_header req ''transfer-encoding'' \<and>
      list_all (\<lambda>v. v = ''0'') (get_all headers ''content-length''))"

section \<open>Upstreams\<close>

definition route_enabled :: "filter_store \<Rightarrow> route \<Rightarrow> bool gateway_result" where
  "route_enabled s r = (if is_anthropic_route r then fl_anthropic_enabled s r else fl_openai_enabled s r)"

definition route_mode :: "filter_store \<Rightarrow> route \<Rightarrow> openai_route_mode gateway_result" where
  "route_mode s r = (if is_anthropic_route r then fl_anthropic_mode s r else fl_openai_mode s r)"

definition ensure_litellm_canonical_route_enabled :: "filter_store \<Rightarrow> route \<Rightarrow> unit gateway_result" where
  "ensure_litellm_canonical_route_enabled s r =
     and_then (route_enabled s r) (\<lambda>enabled. if enabled then Ok () else Err DisabledRoute)"

definition apply_litellm_route_limits :: "filter_store \<Rightarrow> route_match \<Rightarrow> route_match gateway_result" where
  "apply_litellm_route_limits s m =
     and_then (if is_anthropic_route (rm_route m) then fl_anthropic_limits s (rm_route m) else fl_openai_limits s (rm_route m))
       (apply_litellm_limits_to_match m)"

definition apply_litellm_passthrough_limits :: "filter_store \<Rightarrow> route_match \<Rightarrow> route_match gateway_result" where
  "apply_litellm_passthrough_limits s m =
     and_then (fl_passthrough s) (\<lambda>settings.
       apply_litellm_limits_to_match m
         \<lparr>rl_timeout_ms = ps_timeout_ms settings, rl_max_request_body_bytes = ps_max_request_body_bytes settings,
          rl_max_response_body_bytes = ps_max_response_body_bytes settings\<rparr>)"

definition service_upstream ::
    "filter_env \<Rightarrow> filter_store \<Rightarrow> service_registration \<Rightarrow> proxy_request \<Rightarrow>
     (upstream_config \<times> (foundry_binding \<times> foundry_runtime_config) option) gateway_result" where
  "service_upstream env s registration req =
     (case sr_foundry registration of
        Some binding \<Rightarrow>
          and_then (ensure_routable (fe_services env) registration) (\<lambda>_.
          and_then (foundry_validate_path (qr_method req) (qr_path req) (qr_query req) (sr_route_pattern registration)) (\<lambda>_.
          and_then (fl_foundry_config s (binding_provider_id binding)) (\<lambda>found.
          and_then (ok_or found InvalidFoundryConfiguration) (\<lambda>c.
          and_then (foundry_identity_validate (ue_parse (fe_url env)) (fc_identity c) (fc_base_url c) (fc_secret c \<noteq> None)) (\<lambda>_.
          and_then (upstream_from_base_url (fe_url env) (fc_base_url c) []) (\<lambda>u.
          Ok (u, Some (binding, c))))))))
      | None \<Rightarrow>
          and_then (service_upstream_from_registration (fe_url env) (fe_services env) registration) (\<lambda>u. Ok (u, None)))"

definition apply_service_registration_runtime_limits :: "route_match \<Rightarrow> int \<Rightarrow> int \<Rightarrow> route_match option" where
  "apply_service_registration_runtime_limits m timeout max_body =
     (if timeout < 0 \<or> max_body < 0 then None
      else Some (m\<lparr>rm_timeout_ms := nat timeout, rm_max_body_bytes := nat max_body,
                  rm_max_response_body_bytes := usize_max\<rparr>))"

definition selected_credential ::
    "string option \<Rightarrow> string option \<Rightarrow> provider_runtime_config option \<Rightarrow> proxy_config \<Rightarrow> string" where
  "selected_credential passthrough mapped stored px =
     (case passthrough of
        Some c \<Rightarrow> c
      | None \<Rightarrow>
          (case mapped of
             Some c \<Rightarrow> c
           | None \<Rightarrow>
               (case Option.bind stored pv_credential of Some c \<Rightarrow> c | None \<Rightarrow> up_service_key (px_litellm px))))"

text \<open>The LiteLLM upstream of the context, if this sets one.\<close>

definition configure_litellm_upstream_for_credential ::
    "filter_env \<Rightarrow> filter_store \<Rightarrow> authenticated_key option \<Rightarrow> string option \<Rightarrow> upstream_config option gateway_result" where
  "configure_litellm_upstream_for_credential env s key passthrough =
     and_then (fl_litellm_config s) (\<lambda>stored.
     and_then (case key of
         None \<Rightarrow> Ok None
       | Some k \<Rightarrow> fl_credential_mapping s (ak_key_id k) (ak_project_id k)) (\<lambda>mapped.
     let credential = selected_credential passthrough mapped stored (fe_proxy env)
     in if trim credential = [] then Err InvalidConfiguration
        else case stored of
          Some c \<Rightarrow>
            and_then (upstream_from_base_url (fe_url env) (pv_base_url c) credential) (\<lambda>u.
            and_then (with_litellm_credential_header u (pv_credential_header_mode c) (pv_credential_header_name c)
                (pv_credential_header_value_format c)) (\<lambda>u. Ok (Some u)))
        | None \<Rightarrow>
            Ok (if mapped \<noteq> None \<or> passthrough \<noteq> None then Some ((px_litellm (fe_proxy env))\<lparr>up_service_key := credential\<rparr>)
                else None)))"

definition set_litellm_upstream :: "upstream_config option \<Rightarrow> pingora_context \<Rightarrow> pingora_context" where
  "set_litellm_upstream u ctx = (case u of None \<Rightarrow> ctx | Some u \<Rightarrow> ctx\<lparr>pc_litellm_upstream := Some u\<rparr>)"

definition configure_litellm ::
    "filter_env \<Rightarrow> filter_store \<Rightarrow> authenticated_key option \<Rightarrow> string option \<Rightarrow> unit phase" where
  "configure_litellm env s key passthrough =
     in_turn (or_respond (configure_litellm_upstream_for_credential env s key passthrough)) (\<lambda>u. change (set_litellm_upstream u))"

section \<open>Routing\<close>

text \<open>What a registration gives to the context; both ways to a service end here.\<close>

definition registered_ctx ::
    "filter_env \<Rightarrow> service_registration \<Rightarrow> proxy_request \<Rightarrow> upstream_config \<Rightarrow> pingora_context \<Rightarrow> pingora_context" where
  "registered_ctx env registration req u ctx =
     (configure_service_pricing_context (fe_services env) ctx registration (qr_method req) (qr_path req))
       \<lparr>pc_service_route_pattern := Some (sr_route_pattern registration), pc_service_upstream := Some u\<rparr>"

definition set_foundry :: "(foundry_binding \<times> foundry_runtime_config) option \<Rightarrow> pingora_context \<Rightarrow> pingora_context" where
  "set_foundry f ctx = (case f of None \<Rightarrow> ctx | Some b \<Rightarrow> ctx\<lparr>pc_foundry := Some b\<rparr>)"

definition use_registration ::
    "filter_env \<Rightarrow> filter_store \<Rightarrow> service_registration \<Rightarrow> proxy_request \<Rightarrow> route_match \<Rightarrow> route_match phase" where
  "use_registration env s registration req m =
     in_turn (or_respond (service_upstream env s registration req)) (\<lambda>(u, foundry).
     in_turn (change (set_foundry foundry)) (\<lambda>_.
     case apply_service_registration_runtime_limits m (sr_timeout_ms registration) (sr_max_body_bytes registration) of
       None \<Rightarrow> ends Aborted
     | Some m \<Rightarrow>
         in_turn (change (registered_ctx env registration req u)) (\<lambda>_.
         passes (m\<lparr>rm_estimated_cost_usd := sr_estimated_cost_usd registration\<rparr>))))"

definition passthrough_match :: route_match where
  "passthrough_match =
     \<lparr>rm_route = LiteLlmPassthrough, rm_backend = LiteLlmBackend, rm_provider = LiteLlm, rm_service_name = None,
      rm_timeout_ms = 120000, rm_max_body_bytes = 1048576, rm_max_response_body_bytes = 1048576, rm_estimated_cost_usd = None\<rparr>"

definition passthrough_route :: "filter_store \<Rightarrow> proxy_request \<Rightarrow> gateway_error \<Rightarrow> route_match phase" where
  "passthrough_route s req e =
     in_turn (or_respond (fl_passthrough s)) (\<lambda>settings.
     if denies_path settings (qr_path req) then ends (Responded PolicyDenied)
     else if allows settings (qr_method req) (qr_path req) \<or>
             trusted_ingress_passthrough_path_allowed settings (qr_method req) (qr_path req)
     then in_turn (change (\<lambda>ctx. ctx\<lparr>pc_litellm_passthrough := True\<rparr>)) (\<lambda>_. passes passthrough_match)
     else ends (Responded (if ps_authentication_mode settings = LitellmBearer then PolicyDenied else e)))"

definition resolve_route :: "filter_env \<Rightarrow> proxy_request \<Rightarrow> route_match phase" where
  "resolve_route env req =
     in_turn (or_respond (if should_check_service_routes (qr_path req)
                          then fl_service_for_route (fe_store env 0) (qr_method req) (qr_path req) else Ok None)) (\<lambda>persisted.
     case persisted of
       Some registration \<Rightarrow>
         in_turn (change (\<lambda>ctx. ctx\<lparr>pc_access := sr_access registration\<rparr>)) (\<lambda>_.
         use_registration env (fe_store env 1) registration req
           (service_route_match_for_persisted_registration (qr_method req) (qr_path req) (sr_name registration)))
     | None \<Rightarrow>
         let meth = (if upgrade_requested req \<and> qr_method req = ''GET'' \<and>
                        (qr_path req = ''/responses'' \<or> qr_path req = ''/v1/responses'')
                     then ''POST'' else qr_method req)
         in (case resolve_match meth (qr_path req) of
               Inr m \<Rightarrow> passes m
             | Inl e \<Rightarrow> passthrough_route (fe_store env 1) req e))"

text \<open>The access settings of a route, and of the service that a route names.\<close>

definition route_access :: "filter_env \<Rightarrow> route_match \<Rightarrow> unit phase" where
  "route_access env m =
     with_ctx (\<lambda>ctx.
     if pc_service_upstream ctx \<noteq> None then passes ()
     else in_turn (or_respond (fl_route_identity (fe_store env 2) (rm_route m))) (\<lambda>access.
          in_turn (change (\<lambda>ctx. ctx\<lparr>pc_access := access\<rparr>)) (\<lambda>_.
          case rm_service_name m of
            None \<Rightarrow> passes ()
          | Some name \<Rightarrow>
              in_turn (or_respond (fl_service (fe_store env 3) name)) (\<lambda>found.
              case found of
                None \<Rightarrow> passes ()
              | Some registration \<Rightarrow>
                  in_turn (change (\<lambda>ctx. ctx\<lparr>pc_access := sr_access registration\<rparr>)) (\<lambda>_.
                  stop_if (ea_accessa (sr_access registration) \<noteq> None) (Responded UnsupportedRoute))))))"

definition litellm_limits :: "filter_env \<Rightarrow> proxy_request \<Rightarrow> route_match \<Rightarrow> route_match phase" where
  "litellm_limits env req m =
     (if is_litellm_canonical_route (rm_route m)
      then in_turn (or_respond (route_mode (fe_store env 4) (rm_route m))) (\<lambda>mode.
           in_turn (if mode = DirectLiteLlmPassthrough
                    then in_turn (or_respond (fl_passthrough (fe_store env 5))) (\<lambda>settings.
                         stop_if (denies_path settings (qr_path req)) (Responded PolicyDenied))
                    else passes ()) (\<lambda>_.
           or_respond (apply_litellm_route_limits (fe_store env 6) m)))
      else if rm_route m = LiteLlmPassthrough then or_respond (apply_litellm_passthrough_limits (fe_store env 6) m)
      else passes m)"

section \<open>The context\<close>

definition accessa_socket :: "proxy_request \<Rightarrow> pingora_context \<Rightarrow> bool" where
  "accessa_socket req ctx =
     (case ea_accessa (pc_access ctx) of None \<Rightarrow> False | Some b \<Rightarrow> run_path b = Some (qr_path req))"

definition general_socket :: "route_match \<Rightarrow> pingora_context \<Rightarrow> bool" where
  "general_socket m ctx =
     (ea_websocket (pc_access ctx) \<noteq> None \<and> ea_accessa (pc_access ctx) = None \<and> pc_foundry ctx = None \<and>
      (rm_provider m = InternalService \<and> rm_service_name m \<noteq> None \<or> rm_route m = LiteLlmPassthrough \<or> rm_route m = Responses))"

definition upgrade_socket :: "filter_env \<Rightarrow> proxy_request \<Rightarrow> route_match \<Rightarrow> unit phase" where
  "upgrade_socket env req m =
     in_turn (change (\<lambda>ctx. ctx\<lparr>pc_route := Some (rm_route m)\<rparr>)) (\<lambda>_.
     if \<not> upgrade_requested req then passes ()
     else with_ctx (\<lambda>ctx.
       in_turn (stop_if (\<not> accessa_socket req ctx \<and> \<not> general_socket m ctx \<or> \<not> valid_handshake (fe_base64 env) req \<or>
                        accessa_socket req ctx \<and> has_header req ''sec-websocket-extensions'') (Responded UnsupportedRoute)) (\<lambda>_.
       change (\<lambda>ctx. ctx\<lparr>pc_socket := True\<rparr>))))"

definition request_facts :: "filter_env \<Rightarrow> auth_runtime_state \<Rightarrow> proxy_request \<Rightarrow> pingora_context \<Rightarrow> pingora_context" where
  "request_facts env auth req ctx =
     (let headers = qr_headers req;
          trusted = trusted_worker (fe_proxy env) headers;
          traceparent = Option.bind (header_value headers ''traceparent'') (\<lambda>v. if is_valid_traceparent v then Some v else None)
      in ctx\<lparr>pc_traceparent := traceparent, pc_public_origin := request_public_origin headers,
             pc_task_id := (if trusted then header_value headers ''x-relayna-task-id'' else pc_task_id ctx),
             pc_run_id := (if trusted then header_value headers ''x-relayna-run-id'' else pc_run_id ctx),
             pc_relayna_key_header := key_header auth\<rparr>)"

definition prepare_context :: "filter_env \<Rightarrow> auth_runtime_state \<Rightarrow> proxy_request \<Rightarrow> route_match \<Rightarrow> route_match phase" where
  "prepare_context env auth req m st =
     (let ctx = request_facts env auth req (fs_ctx st);
          expected = Option.bind (header_value (qr_headers req) ''content-length'') parse_u64
      in (Inr (if ea_accessa (pc_access ctx) \<noteq> None then m\<lparr>rm_estimated_cost_usd := None\<rparr> else m),
          st\<lparr>fs_ctx := ctx, fs_trace_id := Option.bind (pc_traceparent ctx) trace_id_from_traceparent,
             fs_request_rewriter := Some (with_expected_length (rewriter_new (rm_max_body_bytes m)) expected),
             fs_response_rewriter := Some (rewriter_new (rm_max_response_body_bytes m))\<rparr>))"

section \<open>Credentials of the caller\<close>

definition authenticates :: "(verifier \<Rightarrow> auth_outcome) \<Rightarrow> authenticated_key phase" where
  "authenticates f st =
     (let (r, vs, used) = f (fs_verifier st);
          st = st\<lparr>fs_verifier := vs, fs_used := fs_used st @ (case used of None \<Rightarrow> [] | Some u \<Rightarrow> [u])\<rparr>
      in or_respond r st)"

definition raw_key_phase :: "filter_env \<Rightarrow> string option \<Rightarrow> authenticated_key phase" where
  "raw_key_phase env raw = authenticates (\<lambda>vs. authenticate_raw_key (fe_keys env) vs raw (fe_key_time env))"

definition authorization_phase :: "filter_env \<Rightarrow> proxy_request \<Rightarrow> authenticated_key phase" where
  "authorization_phase env req =
     authenticates (\<lambda>vs. authenticate_authorization (fe_keys env) vs (authorization_of req) (fe_key_time env))"

text \<open>A verified identity goes into the context.\<close>

definition identifies :: "entra_verifier option \<times> entra_identity verdict \<Rightarrow> unit phase" where
  "identifies outcome st =
     (let (v, _, r) = outcome; st = st\<lparr>fs_entra := v\<rparr>
      in case r of
           None \<Rightarrow> ends Panicked st
         | Some r \<Rightarrow> in_turn (or_respond r) (\<lambda>i. change (\<lambda>ctx. ctx\<lparr>pc_entra_identity := Some i\<rparr>)) st)"

definition foreign_credentials :: "auth_runtime_state \<Rightarrow> proxy_request \<Rightarrow> bool" where
  "foreign_credentials auth req =
     (1 < length (get_all (qr_headers req) ''authorization'') \<or> has_header req (key_header auth) \<or>
      has_header req ''x-apigee-entra-identity'' \<or> has_header req ''x-apigee-entra-signature'')"

text \<open>A request that brings its own LiteLLM credential.\<close>

definition caller_owned_phase ::
    "filter_env \<Rightarrow> filter_store \<Rightarrow> bool \<Rightarrow> auth_runtime_state \<Rightarrow> proxy_request \<Rightarrow> route_match \<Rightarrow> unit phase" where
  "caller_owned_phase env s check auth req m =
     in_turn (or_respond (if check \<and> foreign_credentials auth req then Err MalformedAuthorization
                          else litellm_bearer_credential (authorization_of req))) (\<lambda>credential.
     in_turn (configure_litellm env s None (Some credential)) (\<lambda>_.
     change (\<lambda>ctx. ctx\<lparr>pc_litellm_passthrough := True, pc_direct_litellm_passthrough := True, pc_route_match := Some m\<rparr>)))"

definition bearer_passthrough ::
    "filter_env \<Rightarrow> auth_runtime_state \<Rightarrow> proxy_request \<Rightarrow> route_match \<Rightarrow> unit phase" where
  "bearer_passthrough env auth req m =
     with_ctx (\<lambda>ctx.
     if rm_route m \<noteq> LiteLlmPassthrough \<or> \<not> pc_litellm_passthrough ctx then passes ()
     else in_turn (or_respond (fl_passthrough (fe_store env 7))) (\<lambda>settings.
       if ps_authentication_mode settings \<noteq> LitellmBearer then passes ()
       else in_turn (stop_if (\<not> allows settings (qr_method req) (qr_path req) \<or>
                             sensitive_exposure_for_path settings (qr_path req) = Some OperatorOnly) (Responded PolicyDenied)) (\<lambda>_.
            in_turn (stop_if (ea_authentication_profiles (pc_access ctx) \<noteq> None \<or> ea_entra (pc_access ctx) \<noteq> None \<or>
                             \<not> ea_skip_entra (pc_access ctx) \<and>
                             (entra_enabled auth \<or> rt_unverified_bearer_enabled (as_config auth)))
                      (Responded LiteLlmAuthenticationConflict)) (\<lambda>_.
            in_turn (caller_owned_phase env (fe_store env 8) True auth req m) (\<lambda>_. ends Proceeds)))))"

text \<open>The key that selects the authentication profile of the endpoint, and the policy of that profile.\<close>

definition profile_key_result :: "filter_env \<Rightarrow> auth_runtime_state \<Rightarrow> proxy_request \<Rightarrow> authenticated_key phase" where
  "profile_key_result env auth req =
     (let dedicated = dedicated_key auth req in
      if 1 < length (get_all (qr_headers req) ''authorization'') \<or> 1 < length (get_all (qr_headers req) (key_header auth)) \<or>
         dedicated \<noteq> None \<and> authorization_has_relayna_key (authorization_of req)
      then ends (Responded MalformedAuthorization)
      else if dedicated \<noteq> None then raw_key_phase env dedicated
      else authorization_phase env req)"

definition select_profile ::
    "filter_env \<Rightarrow> auth_runtime_state \<Rightarrow> proxy_request \<Rightarrow> (authenticated_key option \<times> endpoint_entra_policy option) phase" where
  "select_profile env auth req =
     with_ctx (\<lambda>ctx.
     case ea_authentication_profiles (pc_access ctx) of
       None \<Rightarrow> passes (None, ea_entra (pc_access ctx))
     | Some profiles \<Rightarrow>
         in_turn (or_respond (profiles_validate (ht_name_ok (fe_http env)) (fe_lower env) (ea_accessa (pc_access ctx) \<noteq> None) profiles)) (\<lambda>_.
         in_turn (profile_key_result env auth req) (\<lambda>key.
         in_turn (change (\<lambda>ctx. ctx\<lparr>pc_key := Some key\<rparr>)) (\<lambda>_.
         in_turn (or_respond (profiles_select profiles (ak_key_id key))) (\<lambda>profile.
         in_turn (stop_if (ap_entra profile = None \<and>
                          (dedicated_key auth req \<noteq> None \<and> authorization_of req \<noteq> None \<or>
                           header_value (qr_headers req) ''x-apigee-entra-identity'' \<noteq> None \<or>
                           header_value (qr_headers req) ''x-apigee-entra-signature'' \<noteq> None)) (Responded MalformedAuthorization)) (\<lambda>_.
         passes (Some key, ap_entra profile)))))))"

definition identify_endpoint ::
    "filter_env \<Rightarrow> auth_runtime_state \<Rightarrow> proxy_request \<Rightarrow> endpoint_entra_policy option \<Rightarrow> unit phase" where
  "identify_endpoint env auth req policy =
     (case policy of
        None \<Rightarrow> passes ()
      | Some p \<Rightarrow>
          with_ctx (\<lambda>ctx.
            identifies (verify_endpoint_identity (fe_jwt env) (fe_apigee env) (fe_network env) (fe_moments env) (qr_headers req)
              (fe_now env) auth (pc_request_id ctx) p)))"

definition check_forwarding :: "filter_env \<Rightarrow> proxy_request \<Rightarrow> unit phase" where
  "check_forwarding env req =
     with_ctx (\<lambda>ctx.
       in_turn (or_respond (forwarded_user_token (fe_http env) (qr_headers req) (pc_access ctx) (pc_entra_identity ctx)
         (pc_relayna_key_header ctx))) (\<lambda>_. passes ()))"

definition trusted_ingress :: "filter_env \<Rightarrow> proxy_request \<Rightarrow> route_match \<Rightarrow> unit phase" where
  "trusted_ingress env req m =
     with_ctx (\<lambda>ctx.
     if ea_authentication_profiles (pc_access ctx) = None \<and> \<not> pc_socket ctx \<and> pc_litellm_passthrough ctx \<and>
        rm_route m = LiteLlmPassthrough
     then in_turn (or_respond (fl_passthrough (fe_store env 9))) (\<lambda>settings.
          if trusted_ingress_passthrough_path_allowed settings (qr_method req) (qr_path req)
          then in_turn (configure_litellm env (fe_store env 10) None None) (\<lambda>_.
               in_turn (change (\<lambda>ctx. ctx\<lparr>pc_route_match := Some m\<rparr>)) (\<lambda>_.
               \<lambda>st. ends Proceeds (st\<lparr>fs_trusted_ingress := True\<rparr>)))
          else passes ())
     else passes ())"

definition direct_passthrough ::
    "filter_env \<Rightarrow> auth_runtime_state \<Rightarrow> proxy_request \<Rightarrow> route_match \<Rightarrow> unit phase" where
  "direct_passthrough env auth req m =
     (if \<not> is_litellm_canonical_route (rm_route m) then passes ()
      else in_turn (or_respond (route_mode (fe_store env 11) (rm_route m))) (\<lambda>mode.
        with_ctx (\<lambda>ctx.
        if mode = DirectLiteLlmPassthrough \<and> ea_authentication_profiles (pc_access ctx) = None \<and>
           ea_entra (pc_access ctx) = None \<and> \<not> authorization_has_relayna_key (authorization_of req) \<and>
           (\<not> ea_skip_entra (pc_access ctx) \<or> dedicated_key auth req = None)
        then in_turn (or_respond (ensure_litellm_canonical_route_enabled (fe_store env 12) (rm_route m))) (\<lambda>_.
             in_turn (caller_owned_phase env (fe_store env 13) (pc_socket ctx) auth req m) (\<lambda>_. ends Proceeds))
        else passes ())))"

definition authenticate_request ::
    "filter_env \<Rightarrow> auth_runtime_state \<Rightarrow> proxy_request \<Rightarrow> authenticated_key option \<Rightarrow> authenticated_key phase" where
  "authenticate_request env auth req profile_key =
     with_ctx (\<lambda>ctx.
     case profile_key of
       Some key \<Rightarrow> passes key
     | None \<Rightarrow>
         if ea_entra (pc_access ctx) \<noteq> None then raw_key_phase env (dedicated_key auth req)
         else if ea_skip_entra (pc_access ctx)
         then (if dedicated_key auth req \<noteq> None then raw_key_phase env (dedicated_key auth req) else authorization_phase env req)
         else if rt_unverified_bearer_enabled (as_config auth)
         then in_turn (or_respond (require_unverified_bearer (authorization_of req))) (\<lambda>_. raw_key_phase env (dedicated_key auth req))
         else if entra_enabled auth
         then in_turn (identifies (verify_entra_request (fe_jwt env) (fe_apigee env) (fe_network env) (fe_moments env)
                (qr_headers req) (fe_now env) auth (pc_request_id ctx))) (\<lambda>_. raw_key_phase env (dedicated_key auth req))
         else authorization_phase env req)"

section \<open>After authentication\<close>

definition named_service :: "filter_env \<Rightarrow> proxy_request \<Rightarrow> route_match \<Rightarrow> string \<Rightarrow> route_match phase" where
  "named_service env req m name =
     in_turn (or_respond (fl_service (fe_store env 15) name)) (\<lambda>found.
     in_turn (or_respond (ok_or found MissingService)) (\<lambda>registration.
     in_turn (stop_if (\<not> list_ex (\<lambda>meth. eq_ignore_ascii_case meth (qr_method req)) (sr_allowed_methods registration))
       (Responded UnsupportedRoute)) (\<lambda>_.
     use_registration env (fe_store env 16) registration req m)))"

definition governed_upstream ::
    "filter_env \<Rightarrow> proxy_request \<Rightarrow> authenticated_key \<Rightarrow> route_match \<Rightarrow> unit phase" where
  "governed_upstream env req key m =
     in_turn (if is_litellm_canonical_route (rm_route m)
              then in_turn (or_respond (route_mode (fe_store env 17) (rm_route m))) (\<lambda>mode.
                   change (\<lambda>ctx. if mode = DirectLiteLlmPassthrough then ctx\<lparr>pc_litellm_passthrough := True\<rparr> else ctx))
              else passes ()) (\<lambda>_.
     in_turn (with_ctx (\<lambda>ctx.
              if pc_litellm_passthrough ctx \<and> rm_route m = LiteLlmPassthrough
              then in_turn (or_respond (fl_passthrough (fe_store env 18))) (\<lambda>settings.
                   stop_if (\<not> sensitive_litellm_passthrough_authorized (sensitive_exposure_for_path settings (qr_path req))
                              (pc_entra_identity ctx)) (Responded InsufficientEntraAuthorization))
              else passes ())) (\<lambda>_.
     in_turn (if rm_provider m = LiteLlm then configure_litellm env (fe_store env 19) (Some key) None else passes ()) (\<lambda>_.
     change (\<lambda>ctx. ctx\<lparr>pc_route_match := Some m, pc_key := Some key\<rparr>))))"

definition authenticated_request ::
    "filter_env \<Rightarrow> proxy_request \<Rightarrow> route_match \<Rightarrow> authenticated_key \<Rightarrow> unit phase" where
  "authenticated_request env req m key =
     in_turn (change (\<lambda>ctx. ctx\<lparr>pc_key := Some key\<rparr>)) (\<lambda>_.
     in_turn (stop_if (governed_batch_lifecycle_denied (qr_method req) (qr_path req)) (Responded PolicyDenied)) (\<lambda>_.
     in_turn (or_respond (fl_guardrail_definitions (fe_store env 14))) (\<lambda>definitions.
     in_turn (change (\<lambda>ctx. ctx\<lparr>pc_guardrail_definitions := definitions\<rparr>)) (\<lambda>_.
     with_ctx (\<lambda>ctx.
       case rm_service_name m of
         None \<Rightarrow> governed_upstream env req key m
       | Some name \<Rightarrow>
           if pc_service_upstream ctx \<noteq> None then change (\<lambda>ctx. ctx\<lparr>pc_route_match := Some m, pc_key := Some key\<rparr>)
           else in_turn (named_service env req m name) (governed_upstream env req key))))))"

section \<open>The filter\<close>

definition identify_request ::
    "filter_env \<Rightarrow> auth_runtime_state \<Rightarrow> proxy_request \<Rightarrow> route_match \<Rightarrow> authenticated_key phase" where
  "identify_request env auth req m =
     in_turn (bearer_passthrough env auth req m) (\<lambda>_.
     in_turn (select_profile env auth req) (\<lambda>(profile_key, policy).
     in_turn (identify_endpoint env auth req policy) (\<lambda>_.
     in_turn (check_forwarding env req) (\<lambda>_.
     in_turn (trusted_ingress env req m) (\<lambda>_.
     in_turn (direct_passthrough env auth req m) (\<lambda>_.
     in_turn (with_ctx (\<lambda>ctx. stop_if (pc_socket ctx \<and> rm_provider m = LiteLlm) (Responded UnsupportedRoute))) (\<lambda>_.
     authenticate_request env auth req profile_key)))))))"

definition route_phases :: "filter_env \<Rightarrow> auth_runtime_state \<Rightarrow> proxy_request \<Rightarrow> route_match phase" where
  "route_phases env auth req =
     in_turn (change (\<lambda>ctx. ctx\<lparr>pc_request_content_type := header_value (qr_headers req) ''content-type''\<rparr>)) (\<lambda>_.
     in_turn (resolve_route env req) (\<lambda>m.
     in_turn (route_access env m) (\<lambda>_.
     in_turn (litellm_limits env req m) (\<lambda>m.
     in_turn (upgrade_socket env req m) (\<lambda>_.
     prepare_context env auth req m)))))"

definition filter_phases :: "filter_env \<Rightarrow> proxy_request \<Rightarrow> unit phase" where
  "filter_phases env req =
     in_turn (or_respond (fe_admitted env)) (\<lambda>_.
     in_turn (or_respond (runtime_snapshot (fe_runtime env))) (\<lambda>auth.
     in_turn (or_respond (validate_credential_headers (qr_headers req) (key_header auth))) (\<lambda>_.
     in_turn (stop_if (starts_with (qr_path req) admission_prefix) AdmitTurn) (\<lambda>_.
     in_turn (route_phases env auth req) (\<lambda>m.
     in_turn (identify_request env auth req m) (authenticated_request env req m))))))"

definition request_filter :: "filter_env \<Rightarrow> proxy_request \<Rightarrow> filter_state \<Rightarrow> filter_end \<times> filter_state" where
  "request_filter env req st =
     (case filter_phases env req st of (Inl x, st) \<Rightarrow> (x, st) | (Inr _, st) \<Rightarrow> (Proceeds, st))"

section \<open>Laws of the phases\<close>

lemmas phase_defs = in_turn_def or_respond_def change_def passes_def stop_if_def ends_def with_ctx_def

lemma change_eq [simp]: "change f st = (r, st') \<longleftrightarrow> r = Inr () \<and> st' = st\<lparr>fs_ctx := f (fs_ctx st)\<rparr>"
  by (auto simp: change_def)

lemma or_respond_Inr [simp]: "or_respond r st = (Inr x, st') \<longleftrightarrow> r = Ok x \<and> st' = st"
  by (cases r) (auto simp: or_respond_def)

lemma with_ctx_eq [simp]: "with_ctx f st = f (fs_ctx st) st"
  by (simp add: with_ctx_def)

text \<open>Most parts never let the request through by themselves.\<close>

definition quiet :: "'a phase \<Rightarrow> bool" where
  "quiet p \<longleftrightarrow> (\<forall>st st'. p st \<noteq> (Inl Proceeds, st'))"

named_theorems quiet_intros

lemma quietD: "quiet p \<Longrightarrow> p st = (Inl Proceeds, st') \<Longrightarrow> False"
  by (simp add: quiet_def)

lemma in_turn_quiet:
  "quiet p \<Longrightarrow> in_turn p f st = (Inl Proceeds, st') \<longleftrightarrow> (\<exists>x st1. p st = (Inr x, st1) \<and> f x st1 = (Inl Proceeds, st'))"
  by (auto simp: in_turn_Inl quiet_def)

lemma quiet_basic [quiet_intros]:
  "quiet (passes x)" "quiet (change f)" "quiet (or_respond r)" "e \<noteq> Proceeds \<Longrightarrow> quiet (ends e)" "e \<noteq> Proceeds \<Longrightarrow> quiet (stop_if b e)"
  by (auto simp: quiet_def or_respond_def stop_if_def split: sum.splits)

lemma quiet_in_turn [quiet_intros]: "quiet p \<Longrightarrow> (\<And>x. quiet (f x)) \<Longrightarrow> quiet (in_turn p f)"
  by (auto simp: quiet_def in_turn_Inl)

lemma quiet_with_ctx [quiet_intros]: "(\<And>ctx. quiet (f ctx)) \<Longrightarrow> quiet (with_ctx f)"
  by (auto simp: quiet_def)

lemma quiet_cases [quiet_intros]:
  "(b \<Longrightarrow> quiet p) \<Longrightarrow> (\<not> b \<Longrightarrow> quiet q) \<Longrightarrow> quiet (if b then p else q)"
  "quiet p \<Longrightarrow> (\<And>y. quiet (f y)) \<Longrightarrow> quiet (case x of None \<Rightarrow> p | Some y \<Rightarrow> f y)"
  "(\<And>a c. quiet (g a c)) \<Longrightarrow> quiet (case z of (a, c) \<Rightarrow> g a c)"
  "(\<And>e. quiet (h e)) \<Longrightarrow> (\<And>y. quiet (k y)) \<Longrightarrow> quiet (case r of Inl e \<Rightarrow> h e | Inr y \<Rightarrow> k y)"
  by (simp_all split: option.split prod.split sum.split)

lemma quiet_authenticates [quiet_intros]: "quiet (authenticates f)"
  by (auto simp: quiet_def authenticates_def Let_def or_respond_def split: prod.splits sum.splits)

lemma quiet_identifies [quiet_intros]: "quiet (identifies outcome)"
  using quiet_basic(3) by (auto simp: quiet_def identifies_def Let_def in_turn_Inl split: prod.splits option.splits)

lemma quiet_prepare [quiet_intros]: "quiet (prepare_context env auth req m)"
  by (simp add: quiet_def prepare_context_def Let_def)

lemma quiet_use_registration [quiet_intros]: "quiet (use_registration env s registration req m)"
  unfolding use_registration_def by (intro quiet_intros; simp)

lemma quiet_resolve_route [quiet_intros]: "quiet (resolve_route env req)"
  unfolding resolve_route_def passthrough_route_def Let_def by (intro quiet_intros; simp)

lemma quiet_route_access [quiet_intros]: "quiet (route_access env m)"
  unfolding route_access_def by (intro quiet_intros; simp)

lemma quiet_litellm_limits [quiet_intros]: "quiet (litellm_limits env req m)"
  unfolding litellm_limits_def by (intro quiet_intros; simp)

lemma quiet_upgrade_socket [quiet_intros]: "quiet (upgrade_socket env req m)"
  unfolding upgrade_socket_def by (intro quiet_intros; simp)

lemma quiet_select_profile [quiet_intros]: "quiet (select_profile env auth req)"
  unfolding select_profile_def profile_key_result_def raw_key_phase_def authorization_phase_def Let_def by (intro quiet_intros; simp)

lemma quiet_identify_endpoint [quiet_intros]: "quiet (identify_endpoint env auth req policy)"
  unfolding identify_endpoint_def by (intro quiet_intros; simp)

lemma quiet_check_forwarding [quiet_intros]: "quiet (check_forwarding env req)"
  unfolding check_forwarding_def by (intro quiet_intros; simp)

lemma quiet_authenticate_request [quiet_intros]: "quiet (authenticate_request env auth req k)"
  unfolding authenticate_request_def raw_key_phase_def authorization_phase_def by (intro quiet_intros; simp)

lemma quiet_configure_litellm [quiet_intros]: "quiet (configure_litellm env s key c)"
  unfolding configure_litellm_def by (intro quiet_intros; simp)

lemma quiet_caller_owned [quiet_intros]: "quiet (caller_owned_phase env s c auth req m)"
  unfolding caller_owned_phase_def by (intro quiet_intros; simp)

lemma not_proceeding [simp]:
  "or_respond r st = (Inl Proceeds, st') \<longleftrightarrow> False"
  "stop_if b e st = (Inl x, st') \<longleftrightarrow> b \<and> x = e \<and> st' = st"
  "caller_owned_phase env s c auth req m st = (Inl Proceeds, st') \<longleftrightarrow> False"
  "configure_litellm env s key token st = (Inl Proceeds, st') \<longleftrightarrow> False"
  using quiet_basic(3) quiet_caller_owned quiet_configure_litellm by (auto simp: quiet_def stop_if_def)

lemma quiet_authenticated_request [quiet_intros]: "quiet (authenticated_request env req m key)"
  unfolding authenticated_request_def governed_upstream_def named_service_def by (intro quiet_intros; simp)

section \<open>What a request must show\<close>

text \<open>The key that a request presents, in the header for keys or as a bearer.\<close>

definition presents :: "auth_runtime_state \<Rightarrow> proxy_request \<Rightarrow> string \<Rightarrow> bool" where
  "presents auth req w \<longleftrightarrow>
     (\<exists>raw. dedicated_key auth req = Some raw \<and> w = trim raw) \<or>
     (\<exists>token. authorization_of req = Some (''Bearer '' @ token) \<and> w = trim token)"

text \<open>The store holds the key, usable, and its secret verifies.\<close>

definition vouched :: "filter_env \<Rightarrow> auth_runtime_state \<Rightarrow> proxy_request \<Rightarrow> authenticated_key \<Rightarrow> bool" where
  "vouched env auth req key \<longleftrightarrow>
     (\<exists>w s. presents auth req w \<and> starts_with w ''rk_live_'' \<and>
        verify_secret (ae_crypto (fe_keys env)) w (sv_key_hash s) = Ok () \<and> key = authenticated s \<and>
        (ae_find (fe_keys env) (take 16 w) = Ok (Some s) \<and> key_usable s (fe_key_time env + ae_found_after (fe_keys env)) \<or>
         ae_refind (fe_keys env) (take 16 w) = Ok (Some s) \<and> key_usable s (fe_key_time env + ae_refound_after (fe_keys env))))"

definition endpoint_accepts ::
    "filter_env \<Rightarrow> auth_runtime_state \<Rightarrow> proxy_request \<Rightarrow> endpoint_entra_policy \<Rightarrow> entra_identity option \<Rightarrow> bool" where
  "endpoint_accepts env auth req p identity \<longleftrightarrow>
     (\<exists>i rid v events. identity = Some i \<and>
        verify_endpoint_identity (fe_jwt env) (fe_apigee env) (fe_network env) (fe_moments env) (qr_headers req) (fe_now env) auth rid p
          = (v, events, Some (Ok i)))"

definition gateway_accepts :: "filter_env \<Rightarrow> auth_runtime_state \<Rightarrow> proxy_request \<Rightarrow> entra_identity option \<Rightarrow> bool" where
  "gateway_accepts env auth req identity \<longleftrightarrow>
     (\<exists>i rid v events. identity = Some i \<and>
        verify_entra_request (fe_jwt env) (fe_apigee env) (fe_network env) (fe_moments env) (qr_headers req) (fe_now env) auth rid
          = (v, events, Some (Ok i)))"

text \<open>The history of the verifier in which the proofs of secrets are told apart.\<close>

definition sound_history :: "filter_env \<Rightarrow> verifier \<Rightarrow> bool" where
  "sound_history env vs \<longleftrightarrow> collision_free (ae_crypto (fe_keys env)) (vs_requests vs) \<and> list_all request_wf (vs_requests vs)"

text \<open>Three ways through the filter.\<close>

definition governed :: "filter_env \<Rightarrow> auth_runtime_state \<Rightarrow> proxy_request \<Rightarrow> pingora_context \<Rightarrow> bool" where
  "governed env auth req ctx \<longleftrightarrow>
     \<not> governed_batch_lifecycle_denied (qr_method req) (qr_path req) \<and>
     (\<exists>key policy. pc_key ctx = Some key \<and> vouched env auth req key \<and>
        identity_for_key (pc_access ctx) (ak_key_id key) = Ok policy \<and>
        (case policy of
           Some p \<Rightarrow> endpoint_accepts env auth req p (pc_entra_identity ctx)
         | None \<Rightarrow> ea_authentication_profiles (pc_access ctx) \<noteq> None \<or> ea_skip_entra (pc_access ctx) \<or>
                   rt_unverified_bearer_enabled (as_config auth) \<or> \<not> entra_enabled auth \<or>
                   gateway_accepts env auth req (pc_entra_identity ctx)))"

definition caller_owned :: "filter_env \<Rightarrow> auth_runtime_state \<Rightarrow> proxy_request \<Rightarrow> pingora_context \<Rightarrow> bool" where
  "caller_owned env auth req ctx \<longleftrightarrow>
     pc_direct_litellm_passthrough ctx \<and> ea_authentication_profiles (pc_access ctx) = None \<and> ea_entra (pc_access ctx) = None \<and>
     (\<exists>token u. litellm_bearer_credential (authorization_of req) = Ok token \<and> pc_litellm_upstream ctx = Some u \<and> up_service_key u = token) \<and>
     (\<exists>m. pc_route_match ctx = Some m \<and>
        (if rm_route m = LiteLlmPassthrough
         then \<exists>s. fl_passthrough (fe_store env 7) = Ok s \<and> ps_authentication_mode s = LitellmBearer \<and> allows s (qr_method req) (qr_path req)
         else route_mode (fe_store env 11) (rm_route m) = Ok DirectLiteLlmPassthrough \<and>
              \<not> authorization_has_relayna_key (authorization_of req)))"

definition by_ingress :: "filter_env \<Rightarrow> auth_runtime_state \<Rightarrow> proxy_request \<Rightarrow> filter_state \<Rightarrow> bool" where
  "by_ingress env auth req st \<longleftrightarrow>
     fs_trusted_ingress st \<and> \<not> pc_socket (fs_ctx st) \<and> ea_authentication_profiles (pc_access (fs_ctx st)) = None \<and>
     (\<exists>s. fl_passthrough (fe_store env 9) = Ok s \<and> trusted_ingress_passthrough_path_allowed s (qr_method req) (qr_path req)) \<and>
     (\<forall>p. ea_entra (pc_access (fs_ctx st)) = Some p \<longrightarrow> endpoint_accepts env auth req p (pc_entra_identity (fs_ctx st)))"

section \<open>Facts of the parts\<close>

text \<open>The routing does not touch the verifier of keys.\<close>

lemma keeps_or_respond [keeps_intros]: "keeps f (or_respond r)"
  by (auto simp: keeps_def or_respond_def split: sum.splits)

lemma keeps_with_ctx [keeps_intros]: "(\<And>ctx. keeps f (g ctx)) \<Longrightarrow> keeps f (with_ctx g)"
  by (auto simp: keeps_def)

lemma keeps_verifier_change [keeps_intros]: "keeps fs_verifier (change g)"
  by (simp add: keeps_def)

lemma keeps_verifier_prepare [keeps_intros]: "keeps fs_verifier (prepare_context env auth req m)"
  by (auto simp: keeps_def prepare_context_def Let_def)

lemma keeps_verifier_routing [keeps_intros]:
  "keeps fs_verifier (use_registration env s registration req m)" "keeps fs_verifier (resolve_route env req)"
  "keeps fs_verifier (route_access env m)" "keeps fs_verifier (litellm_limits env req m)"
  "keeps fs_verifier (upgrade_socket env req m)" "keeps fs_verifier (configure_litellm env s key c)"
  unfolding use_registration_def resolve_route_def passthrough_route_def route_access_def litellm_limits_def upgrade_socket_def
    configure_litellm_def Let_def
  by (intro keeps_intros)+

text \<open>What follows authentication keeps the access settings, the identity and the verifier.\<close>

definition who :: "filter_state \<Rightarrow> endpoint_access \<times> entra_identity option \<times> verifier" where
  "who st = (pc_access (fs_ctx st), pc_entra_identity (fs_ctx st), fs_verifier st)"

lemma keeps_who_change [keeps_intros]:
  "(\<And>ctx. pc_access (g ctx) = pc_access ctx) \<Longrightarrow> (\<And>ctx. pc_entra_identity (g ctx) = pc_entra_identity ctx) \<Longrightarrow> keeps who (change g)"
  by (simp add: keeps_def who_def)

lemma who_fields [simp]:
  "pc_access (set_litellm_upstream u ctx) = pc_access ctx" "pc_entra_identity (set_litellm_upstream u ctx) = pc_entra_identity ctx"
  "pc_access (set_foundry f ctx) = pc_access ctx" "pc_entra_identity (set_foundry f ctx) = pc_entra_identity ctx"
  "pc_access (registered_ctx env registration req u' ctx) = pc_access ctx"
  "pc_entra_identity (registered_ctx env registration req u' ctx) = pc_entra_identity ctx"
  by (simp_all add: set_litellm_upstream_def set_foundry_def registered_ctx_def configure_service_pricing_context_def Let_def
      split: option.split)

lemma keeps_who_upstreams [keeps_intros]:
  "keeps who (configure_litellm env s key c)" "keeps who (use_registration env s registration req m)"
  unfolding configure_litellm_def use_registration_def by (intro keeps_intros; simp)+

lemma authenticated_request_keeps: "keeps who (authenticated_request env req m key)"
  unfolding authenticated_request_def governed_upstream_def named_service_def by (intro keeps_intros; simp)

lemma governed_upstream_Inr: "governed_upstream env req key m st = (Inr u, st') \<Longrightarrow> pc_key (fs_ctx st') = Some key"
  unfolding governed_upstream_def in_turn_Inr by auto

lemma authenticated_request_Inr:
  assumes "authenticated_request env req m key st = (Inr u, st')"
  shows "pc_key (fs_ctx st') = Some key \<and> \<not> governed_batch_lifecycle_denied (qr_method req) (qr_path req)"
proof -
  have ok: "\<not> governed_batch_lifecycle_denied (qr_method req) (qr_path req)"
    using assms unfolding authenticated_request_def in_turn_Inr by auto
  obtain st1 where last_part: "(case rm_service_name m of
         None \<Rightarrow> governed_upstream env req key m
       | Some name \<Rightarrow>
           if pc_service_upstream (fs_ctx st1) \<noteq> None then change (\<lambda>ctx. ctx\<lparr>pc_route_match := Some m, pc_key := Some key\<rparr>)
           else in_turn (named_service env req m name) (governed_upstream env req key)) st1 = (Inr u, st')"
    using assms unfolding authenticated_request_def in_turn_Inr with_ctx_eq by blast
  show ?thesis
  proof (cases "rm_service_name m")
    case None
    then show ?thesis using last_part ok governed_upstream_Inr by simp
  next
    case (Some name)
    then show ?thesis
      using last_part ok governed_upstream_Inr by (cases "pc_service_upstream (fs_ctx st1)") (auto simp: in_turn_Inr)
  qed
qed

text \<open>A key that is authenticated is vouched for.\<close>

lemma authenticates_Inr:
  "authenticates f st = (Inr key, st') \<longleftrightarrow>
     (\<exists>vs used. f (fs_verifier st) = (Ok key, vs, used) \<and>
        st' = st\<lparr>fs_verifier := vs, fs_used := fs_used st @ (case used of None \<Rightarrow> [] | Some u \<Rightarrow> [u])\<rparr>)"
  by (auto simp: authenticates_def Let_def split: prod.splits)

lemma parsed_key_vouched:
  assumes ok: "verifier_ok (ae_crypto (fe_keys env)) vs" and sound: "sound_history env vs'"
    and parse: "virtual_key_parse w = Ok k" and w: "presents auth req w"
    and a: "authenticate_virtual_key (fe_keys env) vs k (fe_key_time env) = (Ok key, vs', used)"
  shows "vouched env auth req key"
proof -
  let ?ae = "fe_keys env"
  obtain s where s: "secret_ok (ae_crypto ?ae) (request_of s k)" "key = authenticated s"
    "if cached (ae_crypto ?ae) vs (request_of s k)
     then ae_find ?ae (vk_prefix k) = Ok (Some s) \<and> key_usable s (fe_key_time env + ae_found_after ?ae)
     else ae_refind ?ae (vk_prefix k) = Ok (Some s) \<and> key_usable s (fe_key_time env + ae_refound_after ?ae)"
    using authenticate_virtual_key_Ok [OF ok a] sound unfolding sound_history_def by blast
  have k: "vk_raw k = w" "vk_prefix k = take 16 w" "starts_with w ''rk_live_''"
    using virtual_key_parse_Ok [OF parse] by blast+
  have "verify_secret (ae_crypto ?ae) w (sv_key_hash s) = Ok ()"
    using s(1) k(1) by (simp add: request_of_def)
  moreover have "ae_find ?ae (take 16 w) = Ok (Some s) \<and> key_usable s (fe_key_time env + ae_found_after ?ae) \<or>
      ae_refind ?ae (take 16 w) = Ok (Some s) \<and> key_usable s (fe_key_time env + ae_refound_after ?ae)"
    using s(3) k(2) by (simp split: if_splits)
  ultimately show ?thesis using w k(3) s(2) unfolding vouched_def by blast
qed

lemma raw_key_vouched:
  assumes "verifier_ok (ae_crypto (fe_keys env)) (fs_verifier st)" "sound_history env (fs_verifier st')"
    and "raw_key_phase env (dedicated_key auth req) st = (Inr key, st')"
  shows "vouched env auth req key \<and> fs_ctx st' = fs_ctx st"
proof -
  obtain vs used where a: "authenticate_raw_key (fe_keys env) (fs_verifier st) (dedicated_key auth req) (fe_key_time env) = (Ok key, vs, used)"
    and st': "fs_verifier st' = vs" "fs_ctx st' = fs_ctx st"
    using assms(3) by (auto simp: raw_key_phase_def authenticates_Inr)
  then obtain raw k where raw: "dedicated_key auth req = Some raw" "virtual_key_parse (trim raw) = Ok k"
    "authenticate_virtual_key (fe_keys env) (fs_verifier st) k (fe_key_time env) = (Ok key, vs, used)"
    by (cases "dedicated_key auth req")
      (auto simp: authenticate_raw_key_def authenticate_parsed_def ok_or_def and_then_def split: if_splits sum.splits)
  have "presents auth req (trim raw)" using raw(1) by (auto simp: presents_def)
  from parsed_key_vouched [OF assms(1) _ raw(2) this raw(3)] assms(2) st' show ?thesis by simp
qed

lemma authorization_vouched:
  assumes "verifier_ok (ae_crypto (fe_keys env)) (fs_verifier st)" "sound_history env (fs_verifier st')"
    and "authorization_phase env req st = (Inr key, st')"
  shows "vouched env auth req key \<and> fs_ctx st' = fs_ctx st"
proof -
  obtain vs used where a: "authenticate_authorization (fe_keys env) (fs_verifier st) (authorization_of req) (fe_key_time env) = (Ok key, vs, used)"
    and st': "fs_verifier st' = vs" "fs_ctx st' = fs_ctx st"
    using assms(3) by (auto simp: authorization_phase_def authenticates_Inr)
  then obtain h k where h: "authorization_of req = Some h" "from_authorization h = Ok k"
    "authenticate_virtual_key (fe_keys env) (fs_verifier st) k (fe_key_time env) = (Ok key, vs, used)"
    by (cases "authorization_of req")
      (auto simp: authenticate_authorization_def authenticate_parsed_def ok_or_def and_then_def split: if_splits sum.splits)
  obtain token where token: "h = ''Bearer '' @ token" "virtual_key_parse (trim token) = Ok k"
    using h(2) by (cases "strip_prefix ''Bearer '' h") (auto simp: from_authorization_def simp del: append.simps)
  have "presents auth req (trim token)" using h(1) token(1) unfolding presents_def by blast
  from parsed_key_vouched [OF assms(1) _ token(2) this h(3)] assms(2) st' show ?thesis by simp
qed

lemma identifies_Inr:
  assumes "identifies outcome st = (Inr u, st')"
  shows "\<exists>v events i. outcome = (v, events, Some (Ok i)) \<and> st' = st\<lparr>fs_entra := v, fs_ctx := (fs_ctx st)\<lparr>pc_entra_identity := Some i\<rparr>\<rparr>"
proof -
  obtain v events r where o: "outcome = (v, events, r)" by (cases outcome)
  show ?thesis
    using assms o by (cases r) (auto simp: identifies_def in_turn_Inr)
qed

lemma identify_endpoint_Inr:
  assumes "identify_endpoint env auth req policy st = (Inr u, st')"
  shows "fs_verifier st' = fs_verifier st \<and> pc_access (fs_ctx st') = pc_access (fs_ctx st) \<and>
    (case policy of None \<Rightarrow> st' = st | Some p \<Rightarrow> endpoint_accepts env auth req p (pc_entra_identity (fs_ctx st')))"
proof (cases policy)
  case None
  then show ?thesis using assms by (simp add: identify_endpoint_def)
next
  case (Some p)
  then have "identifies (verify_endpoint_identity (fe_jwt env) (fe_apigee env) (fe_network env) (fe_moments env) (qr_headers req)
      (fe_now env) auth (pc_request_id (fs_ctx st)) p) st = (Inr u, st')"
    using assms by (simp add: identify_endpoint_def)
  then obtain v events i where
      "verify_endpoint_identity (fe_jwt env) (fe_apigee env) (fe_network env) (fe_moments env) (qr_headers req)
         (fe_now env) auth (pc_request_id (fs_ctx st)) p = (v, events, Some (Ok i))"
    and st': "st' = st\<lparr>fs_entra := v, fs_ctx := (fs_ctx st)\<lparr>pc_entra_identity := Some i\<rparr>\<rparr>"
    using identifies_Inr by blast
  then have "endpoint_accepts env auth req p (Some i)" unfolding endpoint_accepts_def by blast
  then show ?thesis using st' Some by simp
qed

lemma select_profile_None:
  assumes "select_profile env auth req st = (Inr (k, policy), st')" "ea_authentication_profiles (pc_access (fs_ctx st)) = None"
  shows "k = None \<and> policy = ea_entra (pc_access (fs_ctx st)) \<and> st' = st"
  using assms by (auto simp: select_profile_def)

lemma profile_key_vouched:
  assumes "verifier_ok (ae_crypto (fe_keys env)) (fs_verifier st)" "sound_history env (fs_verifier st')"
    and "profile_key_result env auth req st = (Inr key, st')"
  shows "vouched env auth req key \<and> fs_ctx st' = fs_ctx st"
proof (cases "dedicated_key auth req = None")
  case True
  then show ?thesis
    using assms(3) authorization_vouched [OF assms(1,2)] by (auto simp: profile_key_result_def Let_def split: if_splits)
next
  case False
  then have "raw_key_phase env (dedicated_key auth req) st = (Inr key, st')"
    using assms(3) by (auto simp: profile_key_result_def Let_def split: if_splits)
  then show ?thesis by (rule raw_key_vouched [OF assms(1,2)])
qed

lemma select_profile_Some:
  assumes "verifier_ok (ae_crypto (fe_keys env)) (fs_verifier st)" "sound_history env (fs_verifier st')"
    and "select_profile env auth req st = (Inr (k, policy), st')" "ea_authentication_profiles (pc_access (fs_ctx st)) = Some profiles"
  shows "pc_access (fs_ctx st') = pc_access (fs_ctx st) \<and>
    (\<exists>key. k = Some key \<and> vouched env auth req key \<and> identity_for_key (pc_access (fs_ctx st)) (ak_key_id key) = Ok policy)"
proof -
  obtain key st1 profile where key: "profile_key_result env auth req st = (Inr key, st1)"
    and profile: "profiles_select profiles (ak_key_id key) = Ok profile" "policy = ap_entra profile" "k = Some key"
    and st': "st' = st1\<lparr>fs_ctx := (fs_ctx st1)\<lparr>pc_key := Some key\<rparr>\<rparr>"
    using assms(3,4) unfolding select_profile_def with_ctx_eq by (auto simp: in_turn_Inr)
  have "vouched env auth req key \<and> fs_ctx st1 = fs_ctx st"
    using profile_key_vouched [OF assms(1) _ key] assms(2) st' by simp
  then show ?thesis
    using profile st' assms(4) by (simp add: identity_for_key_def and_then_def)
qed

lemma configure_litellm_caller:
  assumes "configure_litellm env s None (Some token) st = (Inr u, st')"
  shows "(\<exists>up. pc_litellm_upstream (fs_ctx st') = Some up \<and> up_service_key up = token) \<and>
    pc_access (fs_ctx st') = pc_access (fs_ctx st)"
proof -
  obtain found where found: "configure_litellm_upstream_for_credential env s None (Some token) = Ok found"
    and st': "st' = st\<lparr>fs_ctx := set_litellm_upstream found (fs_ctx st)\<rparr>"
    using assms by (auto simp: configure_litellm_def in_turn_Inr)
  have "\<exists>up. found = Some up \<and> up_service_key up = token"
    using found
    by (auto simp: configure_litellm_upstream_for_credential_def selected_credential_def Let_def upstream_from_base_url_def
        with_litellm_credential_header_def split: if_splits option.splits)
  then show ?thesis using st' by (auto simp: set_litellm_upstream_def)
qed

lemma caller_owned_phase_Inr:
  assumes "caller_owned_phase env s check auth req m st = (Inr u, st')"
  shows "pc_direct_litellm_passthrough (fs_ctx st') \<and> pc_route_match (fs_ctx st') = Some m \<and>
    pc_access (fs_ctx st') = pc_access (fs_ctx st) \<and>
    (\<exists>token up. litellm_bearer_credential (authorization_of req) = Ok token \<and> pc_litellm_upstream (fs_ctx st') = Some up \<and> up_service_key up = token)"
proof -
  obtain token st1 where token: "litellm_bearer_credential (authorization_of req) = Ok token"
    and st1: "configure_litellm env s None (Some token) st = (Inr (), st1)"
    and st': "st' = st1\<lparr>fs_ctx := (fs_ctx st1)\<lparr>pc_litellm_passthrough := True, pc_direct_litellm_passthrough := True, pc_route_match := Some m\<rparr>\<rparr>"
    using assms by (auto simp: caller_owned_phase_def in_turn_Inr split: if_splits)
  from configure_litellm_caller [OF st1] token st' show ?thesis by auto
qed

lemma bearer_passthrough_Inr: "bearer_passthrough env auth req m st = (Inr u, st') \<Longrightarrow> st' = st"
  by (auto simp: bearer_passthrough_def in_turn_Inr split: if_splits)

lemma bearer_passthrough_Proceeds:
  assumes "bearer_passthrough env auth req m st = (Inl Proceeds, st')"
  shows "caller_owned env auth req (fs_ctx st')"
proof -
  obtain s where s: "rm_route m = LiteLlmPassthrough" "fl_passthrough (fe_store env 7) = Ok s" "ps_authentication_mode s = LitellmBearer"
    "allows s (qr_method req) (qr_path req)" "ea_authentication_profiles (pc_access (fs_ctx st)) = None" "ea_entra (pc_access (fs_ctx st)) = None"
    and st': "caller_owned_phase env (fe_store env 8) True auth req m st = (Inr (), st')"
    using assms
    by (auto simp: bearer_passthrough_def in_turn_Inl split: if_splits)
  from caller_owned_phase_Inr [OF st'] s show ?thesis by (auto simp: caller_owned_def)
qed

lemma direct_passthrough_Inr: "direct_passthrough env auth req m st = (Inr u, st') \<Longrightarrow> st' = st"
  by (auto simp: direct_passthrough_def in_turn_Inr split: if_splits)

lemma direct_passthrough_Proceeds:
  assumes "direct_passthrough env auth req m st = (Inl Proceeds, st')"
  shows "caller_owned env auth req (fs_ctx st')"
proof -
  obtain c where s: "is_litellm_canonical_route (rm_route m)" "route_mode (fe_store env 11) (rm_route m) = Ok DirectLiteLlmPassthrough"
    "ea_authentication_profiles (pc_access (fs_ctx st)) = None" "ea_entra (pc_access (fs_ctx st)) = None"
    "\<not> authorization_has_relayna_key (authorization_of req)"
    and st': "caller_owned_phase env (fe_store env 13) c auth req m st = (Inr (), st')"
    using assms
    by (auto simp: direct_passthrough_def in_turn_Inl split: if_splits)
  have "rm_route m \<noteq> LiteLlmPassthrough"
    using s(1) by (auto simp: is_litellm_canonical_route_def is_openai_route_def is_anthropic_route_def)
  with caller_owned_phase_Inr [OF st'] s show ?thesis by (auto simp: caller_owned_def)
qed

lemma trusted_ingress_Inr: "trusted_ingress env req m st = (Inr u, st') \<Longrightarrow> st' = st"
  by (auto simp: trusted_ingress_def in_turn_Inr split: if_splits)

lemma trusted_ingress_Proceeds:
  assumes "trusted_ingress env req m st = (Inl Proceeds, st')"
    and "\<And>p. ea_entra (pc_access (fs_ctx st)) = Some p \<Longrightarrow> endpoint_accepts env auth req p (pc_entra_identity (fs_ctx st))"
  shows "by_ingress env auth req st'"
proof -
  obtain s st1 where s: "ea_authentication_profiles (pc_access (fs_ctx st)) = None" "\<not> pc_socket (fs_ctx st)"
      "fl_passthrough (fe_store env 9) = Ok s" "trusted_ingress_passthrough_path_allowed s (qr_method req) (qr_path req)"
    and st1: "configure_litellm env (fe_store env 10) None None st = (Inr (), st1)"
    and st': "st' = st1\<lparr>fs_ctx := (fs_ctx st1)\<lparr>pc_route_match := Some m\<rparr>, fs_trusted_ingress := True\<rparr>"
    using assms(1) by (auto simp: trusted_ingress_def in_turn_Inl split: if_splits)
  obtain found where "fs_ctx st1 = set_litellm_upstream found (fs_ctx st)"
    using st1 by (auto simp: configure_litellm_def in_turn_Inr)
  then have "pc_access (fs_ctx st') = pc_access (fs_ctx st)" "pc_entra_identity (fs_ctx st') = pc_entra_identity (fs_ctx st)"
    "pc_socket (fs_ctx st') = pc_socket (fs_ctx st)" "fs_trusted_ingress st'"
    using st' by (auto simp: set_litellm_upstream_def split: option.splits)
  then show ?thesis using s assms(2) unfolding by_ingress_def by simp
qed

lemma authenticate_request_None:
  assumes "verifier_ok (ae_crypto (fe_keys env)) (fs_verifier st)" "sound_history env (fs_verifier st')"
    and "authenticate_request env auth req None st = (Inr key, st')"
  shows "vouched env auth req key \<and> pc_access (fs_ctx st') = pc_access (fs_ctx st) \<and>
    (if ea_entra (pc_access (fs_ctx st)) \<noteq> None then pc_entra_identity (fs_ctx st') = pc_entra_identity (fs_ctx st)
     else ea_skip_entra (pc_access (fs_ctx st)) \<or> rt_unverified_bearer_enabled (as_config auth) \<or> \<not> entra_enabled auth \<or>
          gateway_accepts env auth req (pc_entra_identity (fs_ctx st')))"
proof (cases "ea_entra (pc_access (fs_ctx st)) = None \<and> \<not> ea_skip_entra (pc_access (fs_ctx st)) \<and>
    \<not> rt_unverified_bearer_enabled (as_config auth) \<and> entra_enabled auth")
  case True
  then obtain st1 where i: "identifies (verify_entra_request (fe_jwt env) (fe_apigee env) (fe_network env) (fe_moments env)
         (qr_headers req) (fe_now env) auth (pc_request_id (fs_ctx st))) st = (Inr (), st1)"
    and k: "raw_key_phase env (dedicated_key auth req) st1 = (Inr key, st')"
    using assms(3) by (auto simp: authenticate_request_def in_turn_Inr)
  obtain v events j where j: "verify_entra_request (fe_jwt env) (fe_apigee env) (fe_network env) (fe_moments env)
         (qr_headers req) (fe_now env) auth (pc_request_id (fs_ctx st)) = (v, events, Some (Ok j))"
    and st1: "st1 = st\<lparr>fs_entra := v, fs_ctx := (fs_ctx st)\<lparr>pc_entra_identity := Some j\<rparr>\<rparr>"
    using identifies_Inr [OF i] by blast
  have "vouched env auth req key \<and> fs_ctx st' = fs_ctx st1"
    using raw_key_vouched [OF _ assms(2) k] assms(1) st1 by simp
  moreover have "gateway_accepts env auth req (Some j)" using j unfolding gateway_accepts_def by blast
  ultimately show ?thesis using st1 True by simp
next
  case False
  have "vouched env auth req key \<and> fs_ctx st' = fs_ctx st"
  proof (cases "raw_key_phase env (dedicated_key auth req) st = (Inr key, st')")
    case True
    then show ?thesis by (rule raw_key_vouched [OF assms(1,2)])
  next
    case other: False
    have "authorization_phase env req st = (Inr key, st')"
      using assms(3) other False by (auto simp: authenticate_request_def in_turn_Inr split: if_splits)
    then show ?thesis by (rule authorization_vouched [OF assms(1,2)])
  qed
  then show ?thesis using False by auto
qed

lemma check_forwarding_Inr: "check_forwarding env req st = (Inr u, st') \<Longrightarrow> st' = st"
  by (auto simp: check_forwarding_def in_turn_Inr)

text \<open>After the profile and the endpoint, the identity that the endpoint demands is in the context.\<close>

lemma endpoint_identified:
  assumes "select_profile env auth req st = (Inr (k, policy), st1)" "identify_endpoint env auth req policy st1 = (Inr u, st2)"
    and "ea_authentication_profiles (pc_access (fs_ctx st2)) = None"
  shows "k = None \<and> policy = ea_entra (pc_access (fs_ctx st2)) \<and> fs_verifier st2 = fs_verifier st \<and>
    (\<forall>p. policy = Some p \<longrightarrow> endpoint_accepts env auth req p (pc_entra_identity (fs_ctx st2)))"
proof -
  note id = identify_endpoint_Inr [OF assms(2)]
  have acc: "pc_access (fs_ctx st1) = pc_access (fs_ctx st)"
    using assms(1) unfolding select_profile_def with_ctx_eq profile_key_result_def raw_key_phase_def authorization_phase_def
    by (auto simp: in_turn_Inr authenticates_Inr Let_def split: option.splits if_splits)
  then have "ea_authentication_profiles (pc_access (fs_ctx st)) = None" using assms(3) id by simp
  from select_profile_None [OF assms(1) this] id acc show ?thesis by (auto split: option.splits)
qed

text \<open>The parts that may let a request through.\<close>

definition last_phases :: "filter_env \<Rightarrow> auth_runtime_state \<Rightarrow> proxy_request \<Rightarrow> route_match \<Rightarrow> authenticated_key option \<Rightarrow> authenticated_key phase" where
  "last_phases env auth req m k =
     in_turn (check_forwarding env req) (\<lambda>_.
     in_turn (trusted_ingress env req m) (\<lambda>_.
     in_turn (direct_passthrough env auth req m) (\<lambda>_.
     in_turn (with_ctx (\<lambda>ctx. stop_if (pc_socket ctx \<and> rm_provider m = LiteLlm) (Responded UnsupportedRoute))) (\<lambda>_.
     authenticate_request env auth req k))))"

lemma last_phases_Inr:
  assumes "last_phases env auth req m k st = (Inr key, st')"
  shows "authenticate_request env auth req k st = (Inr key, st')"
  using assms unfolding last_phases_def
  by (auto simp: in_turn_Inr dest!: check_forwarding_Inr trusted_ingress_Inr direct_passthrough_Inr)

lemma last_phases_Proceeds:
  assumes "last_phases env auth req m k st = (Inl Proceeds, st')"
  shows "trusted_ingress env req m st = (Inl Proceeds, st') \<or> direct_passthrough env auth req m st = (Inl Proceeds, st')"
proof (rule ccontr)
  assume none: "\<not> ?thesis"
  have 1: "in_turn (trusted_ingress env req m) (\<lambda>_.
     in_turn (direct_passthrough env auth req m) (\<lambda>_.
     in_turn (with_ctx (\<lambda>ctx. stop_if (pc_socket ctx \<and> rm_provider m = LiteLlm) (Responded UnsupportedRoute))) (\<lambda>_.
     authenticate_request env auth req k))) st = (Inl Proceeds, st')"
    using assms check_forwarding_Inr unfolding last_phases_def in_turn_quiet [OF quiet_check_forwarding] by blast
  then have 2: "in_turn (direct_passthrough env auth req m) (\<lambda>_.
     in_turn (with_ctx (\<lambda>ctx. stop_if (pc_socket ctx \<and> rm_provider m = LiteLlm) (Responded UnsupportedRoute))) (\<lambda>_.
     authenticate_request env auth req k)) st = (Inl Proceeds, st')"
    using none trusted_ingress_Inr unfolding in_turn_Inl [of "trusted_ingress env req m"] by blast
  have "quiet (in_turn (with_ctx (\<lambda>ctx. stop_if (pc_socket ctx \<and> rm_provider m = LiteLlm) (Responded UnsupportedRoute))) (\<lambda>_.
     authenticate_request env auth req k))"
    by (intro quiet_intros) simp
  from quietD [OF this] 2 none show False unfolding in_turn_Inl [of "direct_passthrough env auth req m"] by blast
qed

lemma identify_request_splits:
  shows "identify_request env auth req m st = (Inl Proceeds, st') \<Longrightarrow> bearer_passthrough env auth req m st = (Inl Proceeds, st') \<or>
      (\<exists>k policy st1 u st2. select_profile env auth req st = (Inr (k, policy), st1) \<and>
         identify_endpoint env auth req policy st1 = (Inr u, st2) \<and>
         (trusted_ingress env req m st2 = (Inl Proceeds, st') \<or> direct_passthrough env auth req m st2 = (Inl Proceeds, st')))"
    and "identify_request env auth req m st = (Inr key, st') \<Longrightarrow>
      \<exists>k policy st1 u st2. select_profile env auth req st = (Inr (k, policy), st1) \<and>
         identify_endpoint env auth req policy st1 = (Inr u, st2) \<and> authenticate_request env auth req k st2 = (Inr key, st')"
proof -
  have unfold: "identify_request env auth req m = in_turn (bearer_passthrough env auth req m) (\<lambda>_.
      in_turn (select_profile env auth req) (\<lambda>(k, policy).
      in_turn (identify_endpoint env auth req policy) (\<lambda>_. last_phases env auth req m k)))"
    unfolding identify_request_def last_phases_def ..
  show "identify_request env auth req m st = (Inl Proceeds, st') \<Longrightarrow> bearer_passthrough env auth req m st = (Inl Proceeds, st') \<or>
      (\<exists>k policy st1 u st2. select_profile env auth req st = (Inr (k, policy), st1) \<and>
         identify_endpoint env auth req policy st1 = (Inr u, st2) \<and>
         (trusted_ingress env req m st2 = (Inl Proceeds, st') \<or> direct_passthrough env auth req m st2 = (Inl Proceeds, st')))"
    unfolding unfold in_turn_Inl [of "bearer_passthrough env auth req m"] in_turn_quiet [OF quiet_select_profile]
    using bearer_passthrough_Inr last_phases_Proceeds
    by (fastforce simp: in_turn_quiet [OF quiet_identify_endpoint])
  show "identify_request env auth req m st = (Inr key, st') \<Longrightarrow>
      \<exists>k policy st1 u st2. select_profile env auth req st = (Inr (k, policy), st1) \<and>
         identify_endpoint env auth req policy st1 = (Inr u, st2) \<and> authenticate_request env auth req k st2 = (Inr key, st')"
    unfolding unfold in_turn_Inr using bearer_passthrough_Inr last_phases_Inr by (fastforce simp: in_turn_Inr)
qed

lemma identify_request_Proceeds:
  assumes "identify_request env auth req m st = (Inl Proceeds, st')"
  shows "caller_owned env auth req (fs_ctx st') \<or> by_ingress env auth req st'"
proof (cases "bearer_passthrough env auth req m st = (Inl Proceeds, st')")
  case True
  then show ?thesis using bearer_passthrough_Proceeds by blast
next
  case False
  obtain k policy st1 u2 st2 where s: "select_profile env auth req st = (Inr (k, policy), st1)"
    and i: "identify_endpoint env auth req policy st1 = (Inr u2, st2)"
    and rest: "trusted_ingress env req m st2 = (Inl Proceeds, st') \<or> direct_passthrough env auth req m st2 = (Inl Proceeds, st')"
    using identify_request_splits(1) [OF assms] False by blast
  from rest show ?thesis
  proof
    assume "direct_passthrough env auth req m st2 = (Inl Proceeds, st')"
    then show ?thesis using direct_passthrough_Proceeds by blast
  next
    assume t: "trusted_ingress env req m st2 = (Inl Proceeds, st')"
    then have "ea_authentication_profiles (pc_access (fs_ctx st2)) = None"
      by (auto simp: trusted_ingress_def split: if_splits)
    from endpoint_identified [OF s i this] trusted_ingress_Proceeds [OF t, of auth] show ?thesis by auto
  qed
qed

lemma identify_request_Inr:
  assumes "verifier_ok (ae_crypto (fe_keys env)) (fs_verifier st)" "sound_history env (fs_verifier st')"
    and "identify_request env auth req m st = (Inr key, st')"
  obtains policy where "vouched env auth req key" "identity_for_key (pc_access (fs_ctx st')) (ak_key_id key) = Ok policy"
    "case policy of
       Some p \<Rightarrow> endpoint_accepts env auth req p (pc_entra_identity (fs_ctx st'))
     | None \<Rightarrow> ea_authentication_profiles (pc_access (fs_ctx st')) \<noteq> None \<or> ea_skip_entra (pc_access (fs_ctx st')) \<or>
               rt_unverified_bearer_enabled (as_config auth) \<or> \<not> entra_enabled auth \<or>
               gateway_accepts env auth req (pc_entra_identity (fs_ctx st'))"
proof -
  obtain k policy st1 u2 st2 where s: "select_profile env auth req st = (Inr (k, policy), st1)"
    and i: "identify_endpoint env auth req policy st1 = (Inr u2, st2)"
    and a: "authenticate_request env auth req k st2 = (Inr key, st')"
    using identify_request_splits(2) [OF assms(3)] by blast
  note id = identify_endpoint_Inr [OF i]
  show ?thesis
  proof (cases "ea_authentication_profiles (pc_access (fs_ctx st))")
    case None
    from select_profile_None [OF s this] have k: "k = None" "policy = ea_entra (pc_access (fs_ctx st))" "st1 = st" by blast+
    have ok: "verifier_ok (ae_crypto (fe_keys env)) (fs_verifier st2)" using assms(1) id k(3) by simp
    note auth = authenticate_request_None [OF ok assms(2) a [unfolded k(1)]]
    show ?thesis
    proof (rule that [of policy])
      show "identity_for_key (pc_access (fs_ctx st')) (ak_key_id key) = Ok policy"
        using None k(2,3) id auth by (simp add: identity_for_key_def)
    qed (use auth id k in \<open>auto split: option.splits if_splits\<close>)
  next
    case (Some profiles)
    have k_some: "k \<noteq> None"
      using s Some unfolding select_profile_def with_ctx_eq by (auto simp: in_turn_Inr)
    then have st': "st' = st2" "k = Some key"
      using a by (auto simp: authenticate_request_def)
    have "sound_history env (fs_verifier st1)" using assms(2) st'(1) id by simp
    from select_profile_Some [OF assms(1) this s Some] st' id Some show ?thesis
      by (intro that [of policy]) (auto split: option.splits)
  qed
qed

section \<open>Who gets through\<close>

lemma route_phases_quiet: "quiet (route_phases env auth req)"
  unfolding route_phases_def by (intro quiet_intros)

lemma route_phases_keep: "keeps fs_verifier (route_phases env auth req)"
  unfolding route_phases_def by (intro keeps_intros)

lemma request_filter_Proceeds:
  assumes "request_filter env req st = (Proceeds, st')"
  obtains auth m st1 where "runtime_snapshot (fe_runtime env) = Ok auth" "fs_verifier st1 = fs_verifier st"
    "identify_request env auth req m st1 = (Inl Proceeds, st') \<or>
     (\<exists>key st2 u. identify_request env auth req m st1 = (Inr key, st2) \<and> authenticated_request env req m key st2 = (Inr u, st'))"
proof -
  consider "filter_phases env req st = (Inl Proceeds, st')" | "filter_phases env req st = (Inr (), st')"
    using assms by (auto simp: request_filter_def split: prod.splits sum.splits)
  then have "\<exists>auth m st1. runtime_snapshot (fe_runtime env) = Ok auth \<and> route_phases env auth req st = (Inr m, st1) \<and>
    (identify_request env auth req m st1 = (Inl Proceeds, st') \<or>
     (\<exists>key st2 u. identify_request env auth req m st1 = (Inr key, st2) \<and> authenticated_request env req m key st2 = (Inr u, st')))"
  proof cases
    case 1
    then obtain auth m st1 where "runtime_snapshot (fe_runtime env) = Ok auth" "route_phases env auth req st = (Inr m, st1)"
      "in_turn (identify_request env auth req m) (authenticated_request env req m) st1 = (Inl Proceeds, st')"
      unfolding filter_phases_def by (auto simp: in_turn_quiet quiet_basic route_phases_quiet)
    then show ?thesis
      using quietD [OF quiet_authenticated_request] unfolding in_turn_Inl by blast
  next
    case 2
    then obtain auth m st1 key st2 where "runtime_snapshot (fe_runtime env) = Ok auth" "route_phases env auth req st = (Inr m, st1)"
      "identify_request env auth req m st1 = (Inr key, st2)" "authenticated_request env req m key st2 = (Inr (), st')"
      unfolding filter_phases_def by (auto simp: in_turn_Inr)
    then show ?thesis by blast
  qed
  then show ?thesis using that keepsD [OF route_phases_keep] by blast
qed

text \<open>
  C1 (safety): a request that the filter lets through, whatever the database answers at each reading and whatever the
  verifier of keys has done before, is one of three. It presents a Relayna key whose secret verifies against an
  entry of the store that is neither revoked nor disabled nor expired, with the identity that the endpoint demands of
  that key verified; or it brings its own LiteLLM credential, which then is the one that goes upstream, to a route that allows that
  and demands no identity; or it takes a path opened to the trusted ingress, under the identity that the endpoint demands.
\<close>

theorem request_let_through:
  assumes "fs_verifier st = foldl (verifier_step (ae_crypto (fe_keys env))) (initial_verifier t) evs"
    and "request_filter env req st = (Proceeds, st')" and "sound_history env (fs_verifier st')"
  shows "\<exists>auth. runtime_snapshot (fe_runtime env) = Ok auth \<and>
    (governed env auth req (fs_ctx st') \<or> caller_owned env auth req (fs_ctx st') \<or> by_ingress env auth req st')"
proof -
  obtain auth m st1 where auth: "runtime_snapshot (fe_runtime env) = Ok auth"
    and kept: "fs_verifier st1 = fs_verifier st"
    and rest: "identify_request env auth req m st1 = (Inl Proceeds, st') \<or>
      (\<exists>key st2 u. identify_request env auth req m st1 = (Inr key, st2) \<and> authenticated_request env req m key st2 = (Inr u, st'))"
    by (rule request_filter_Proceeds [OF assms(2)])
  show ?thesis
  proof (cases "identify_request env auth req m st1 = (Inl Proceeds, st')")
    case True
    then show ?thesis using auth identify_request_Proceeds by blast
  next
    case False
    then obtain key st2 u where key: "identify_request env auth req m st1 = (Inr key, st2)"
      and finish: "authenticated_request env req m key st2 = (Inr u, st')"
      using rest by blast
    have same: "who st' = who st2" using authenticated_request_keeps finish by (rule keepsD)
    have ok: "verifier_ok (ae_crypto (fe_keys env)) (fs_verifier st1)" using reachable_ok assms(1) kept by simp
    have fields: "pc_access (fs_ctx st') = pc_access (fs_ctx st2)" "pc_entra_identity (fs_ctx st') = pc_entra_identity (fs_ctx st2)"
      "fs_verifier st' = fs_verifier st2"
      using same by (simp_all add: who_def)
    have "sound_history env (fs_verifier st2)" using assms(3) fields(3) by simp
    from identify_request_Inr [OF ok this key] have "governed env auth req (fs_ctx st')"
      using authenticated_request_Inr [OF finish] unfolding governed_def fields(1,2) by blast
    then show ?thesis using auth by blast
  qed
qed

text \<open>A managed chat completion with a key as its bearer, on a gateway without Entra.\<close>

definition sample_filter_store :: filter_store where
  "sample_filter_store =
     \<lparr>fl_service_for_route = (\<lambda>_ _. Ok None), fl_service = (\<lambda>_. Ok None), fl_passthrough = Err InvalidConfiguration,
      fl_route_identity = (\<lambda>_. Ok default_endpoint_access), fl_openai_mode = (\<lambda>_. Ok ManagedByGateway),
      fl_anthropic_mode = (\<lambda>_. Ok ManagedByGateway), fl_openai_enabled = (\<lambda>_. Ok True), fl_anthropic_enabled = (\<lambda>_. Ok True),
      fl_openai_limits = (\<lambda>_. Ok \<lparr>rl_timeout_ms = 10, rl_max_request_body_bytes = 20, rl_max_response_body_bytes = 30\<rparr>),
      fl_anthropic_limits = (\<lambda>_. Err InvalidConfiguration), fl_guardrail_definitions = Ok [], fl_foundry_config = (\<lambda>_. Ok None),
      fl_litellm_config = Ok None, fl_credential_mapping = (\<lambda>_ _. Ok None)\<rparr>"

definition sample_filter_env :: filter_env where
  "sample_filter_env =
     \<lparr>fe_admitted = Ok (),
      fe_runtime = \<lparr>sh_state = \<lparr>as_config = \<lparr>rt_unverified_bearer_enabled = False, rt_relayna_key_header = ''x-relayna-key'',
        rt_entra_auth = None, rt_apigee_trusted_header = None\<rparr>, as_entra_verifier = None\<rparr>, sh_poisoned = False\<rparr>,
      fe_store = (\<lambda>_. sample_filter_store), fe_proxy = sample_proxy, fe_url = \<lparr>ue_parse = (\<lambda>_. None), ue_port = (\<lambda>_. None)\<rparr>,
      fe_http = \<lparr>ht_url = (\<lambda>_. None), ht_name_ok = (\<lambda>_. True), ht_value_ok = (\<lambda>_. True), ht_uri_ok = (\<lambda>_. True)\<rparr>,
      fe_services = sample_env, fe_lower = (\<lambda>s. s), fe_base64 = (\<lambda>_. None), fe_keys = sample_auth [WorkCheck 0, WorkInsert 0],
      fe_key_time = 5, fe_jwt = sample_jwt, fe_apigee = \<lparr>ag_hmac_sha256 = (\<lambda>_ _. None), ag_base64_encode = (\<lambda>s. s), ag_base64_decode = Some, ag_identity = (\<lambda>_. None)\<rparr>,
      fe_network = sample_oidc, fe_moments = sample_moments, fe_now = 5\<rparr>"

definition sample_filter_request :: proxy_request where
  "sample_filter_request =
     \<lparr>qr_method = ''POST'', qr_path = ''/v1/chat/completions'', qr_query = None, qr_http11 = True,
      qr_headers = [(''authorization'', ''Bearer rk_live_1234567890'')]\<rparr>"

definition sample_filter_state :: filter_state where
  "sample_filter_state =
     \<lparr>fs_ctx = sample_context, fs_trace_id = None, fs_trusted_ingress = False, fs_request_rewriter = None,
      fs_response_rewriter = None, fs_verifier = initial_verifier 0, fs_entra = None, fs_used = []\<rparr>"

definition sample_runtime :: auth_runtime_state where
  "sample_runtime = sh_state (fe_runtime sample_filter_env)"

definition sample_route :: route_match where
  "sample_route = (litellm_match ChatCompletions)\<lparr>rm_timeout_ms := 10, rm_max_body_bytes := 20, rm_max_response_body_bytes := 30\<rparr>"

lemma sample_headers_checked:
  "validate_credential_headers (qr_headers sample_filter_request) (key_header sample_runtime) = Ok ()"
  "\<not> starts_with (qr_path sample_filter_request) admission_prefix" "\<not> should_check_service_routes (qr_path sample_filter_request)"
  "\<not> upgrade_requested sample_filter_request" "dedicated_key sample_runtime sample_filter_request = None"
  "authorization_of sample_filter_request = Some ''Bearer rk_live_1234567890''"
  "\<not> governed_batch_lifecycle_denied (qr_method sample_filter_request) (qr_path sample_filter_request)"
  by code_simp+

lemma sample_routed:
  "resolve_match (qr_method sample_filter_request) (qr_path sample_filter_request) = Ok (litellm_match ChatCompletions)"
  "is_litellm_canonical_route ChatCompletions" "\<not> is_anthropic_route ChatCompletions"
  by (simp_all add: sample_filter_request_def resolve_match_def is_litellm_canonical_route_def is_openai_route_def is_anthropic_route_def)

lemma sample_credential: "trim (up_service_key (px_litellm (fe_proxy sample_filter_env))) \<noteq> []"
  by code_simp

lemma sample_store_fields:
  "fl_guardrail_definitions sample_filter_store = Ok []" "fl_litellm_config sample_filter_store = Ok None"
  "fl_credential_mapping sample_filter_store i j = Ok None"
  by (simp_all add: sample_filter_store_def)

lemma sample_store: "fe_store sample_filter_env n = sample_filter_store"
  by (simp add: sample_filter_env_def)

lemma sample_route_phases:
  "\<exists>st1. route_phases sample_filter_env sample_runtime sample_filter_request sample_filter_state = (Inr sample_route, st1) \<and>
     fs_verifier st1 = initial_verifier 0 \<and> pc_access (fs_ctx st1) = default_endpoint_access \<and> \<not> pc_socket (fs_ctx st1) \<and>
     pc_service_upstream (fs_ctx st1) = None \<and> \<not> pc_litellm_passthrough (fs_ctx st1)"
proof -
  note samples = sample_headers_checked sample_routed sample_store
  have 1: "resolve_route sample_filter_env sample_filter_request st = (Inr (litellm_match ChatCompletions), st)" for st
    by (simp add: resolve_route_def phase_defs Let_def samples)
  have 2: "route_access sample_filter_env (litellm_match ChatCompletions) st =
      (Inr (), st\<lparr>fs_ctx := (fs_ctx st)\<lparr>pc_access := default_endpoint_access\<rparr>\<rparr>)"
    if "pc_service_upstream (fs_ctx st) = None" for st
    using that by (simp add: route_access_def phase_defs samples sample_filter_store_def litellm_match_def)
  have 3: "litellm_limits sample_filter_env sample_filter_request (litellm_match ChatCompletions) st = (Inr sample_route, st)" for st
    by (simp add: litellm_limits_def phase_defs samples sample_filter_store_def litellm_match_def route_mode_def
        apply_litellm_route_limits_def apply_litellm_limits_to_match_def and_then_def sample_route_def)
  show ?thesis
    by (simp add: route_phases_def phase_defs 1 2 3 upgrade_socket_def samples prepare_context_def request_facts_def Let_def
        sample_filter_state_def sample_context_def new_ctx_def default_endpoint_access_def)
qed

lemma sample_authenticated:
  "\<exists>vs'. authenticate_authorization (fe_keys sample_filter_env) (initial_verifier 0) (Some ''Bearer rk_live_1234567890'') 5 =
      (Ok (authenticated sample_stored), vs', Some (sv_id sample_stored, 8)) \<and>
     vs_requests vs' = [request_of sample_stored sample_key, request_of sample_stored sample_key]"
proof -
  let ?ae = "sample_auth [WorkCheck 0, WorkInsert 0]" and ?r = "request_of sample_stored sample_key"
  have "\<exists>vs'. authenticate_raw_key ?ae (initial_verifier 0) (Some ''rk_live_1234567890'') 5 =
      (Ok (authenticated sample_stored), vs', Some (sv_id sample_stored, 5 + ae_used_after ?ae)) \<and>
      vs_requests vs' = ?r # ?r # vs_requests (initial_verifier 0) \<and> cached (ae_crypto ?ae) vs' ?r"
  proof (rule authenticate_fresh [where key = sample_key and p = "proof_input ?r" and c = 0])
    show "verify_secret (ae_crypto ?ae) (rq_raw ?r) (rq_hash ?r) = Ok ()"
      by (simp add: sample_auth_simps verify_secret_def sample_crypto_def)
    show "key_proof (ae_crypto ?ae) ?r = Some (proof_input ?r)"
      by (simp add: sample_auth_def sample_proof)
    show "\<not> cached (ae_crypto ?ae) (initial_verifier 0) ?r"
      by (simp add: sample_auth_def sample_not_cached)
    show "virtual_key_parse (trim ''rk_live_1234567890'') = Ok sample_key"
      by (simp only: sample_parse sample_key_def)
  qed (use verifier_ok_initial in \<open>simp_all add: sample_auth_simps\<close>)
  moreover have "authenticate_authorization ?ae vs (Some ''Bearer rk_live_1234567890'') 5 =
      authenticate_raw_key ?ae vs (Some ''rk_live_1234567890'') 5" for vs
  proof -
    have "from_authorization ''Bearer rk_live_1234567890'' = virtual_key_parse (trim ''rk_live_1234567890'')" by code_simp
    then show ?thesis
      by (simp add: authenticate_authorization_def authenticate_raw_key_def ok_or_def and_then_def max_key_bytes_def)
  qed
  ultimately show ?thesis
    by (auto simp: sample_filter_env_def initial_verifier_def sample_auth_def)
qed

lemma sample_let_through:
  "\<exists>st'. request_filter sample_filter_env sample_filter_request sample_filter_state = (Proceeds, st') \<and>
     vs_requests (fs_verifier st') = [request_of sample_stored sample_key, request_of sample_stored sample_key]"
proof -
  note samples = sample_headers_checked sample_routed sample_store
  obtain st1 where st1: "route_phases sample_filter_env sample_runtime sample_filter_request sample_filter_state = (Inr sample_route, st1)"
    "fs_verifier st1 = initial_verifier 0" "pc_access (fs_ctx st1) = default_endpoint_access" "\<not> pc_socket (fs_ctx st1)"
    "pc_service_upstream (fs_ctx st1) = None" "\<not> pc_litellm_passthrough (fs_ctx st1)"
    using sample_route_phases by blast
  obtain vs' where vs': "authenticate_authorization (fe_keys sample_filter_env) (initial_verifier 0)
        (Some ''Bearer rk_live_1234567890'') 5 = (Ok (authenticated sample_stored), vs', Some (sv_id sample_stored, 8))"
    "vs_requests vs' = [request_of sample_stored sample_key, request_of sample_stored sample_key]"
    using sample_authenticated by blast
  let ?st2 = "st1\<lparr>fs_verifier := vs', fs_used := fs_used st1 @ [(sv_id sample_stored, 8)]\<rparr>"
  have route: "rm_route sample_route = ChatCompletions" "rm_provider sample_route = LiteLlm" "rm_service_name sample_route = None"
    by (simp_all add: sample_route_def litellm_match_def)
  have auth: "rt_unverified_bearer_enabled (as_config sample_runtime) = False" "\<not> entra_enabled sample_runtime" "fe_key_time sample_filter_env = 5"
    by (simp_all add: sample_runtime_def sample_filter_env_def entra_enabled_def)
  have access: "ea_authentication_profiles default_endpoint_access = None" "ea_entra default_endpoint_access = None"
    "\<not> ea_skip_entra default_endpoint_access" "ea_user_token_forwarding default_endpoint_access = None"
    by (simp_all add: default_endpoint_access_def)
  have mode: "route_mode sample_filter_store ChatCompletions = Ok ManagedByGateway"
    by (simp add: route_mode_def sample_filter_store_def samples)
  have "identify_request sample_filter_env sample_runtime sample_filter_request sample_route st1 = (Inr (authenticated sample_stored), ?st2)"
    by (simp add: identify_request_def bearer_passthrough_def select_profile_def identify_endpoint_def check_forwarding_def
        forwarded_user_token_def trusted_ingress_def direct_passthrough_def authenticate_request_def authorization_phase_def
        authenticates_def phase_defs st1 vs' route auth access mode samples)
  moreover have "\<exists>st'. authenticated_request sample_filter_env sample_filter_request sample_route (authenticated sample_stored) ?st2 = (Inr (), st') \<and>
      fs_verifier st' = vs'"
    by (simp add: authenticated_request_def governed_upstream_def configure_litellm_def configure_litellm_upstream_for_credential_def
        phase_defs st1 route samples mode and_then_def sample_store_fields set_litellm_upstream_def selected_credential_def sample_credential Let_def)
  moreover have "runtime_snapshot (fe_runtime sample_filter_env) = Ok sample_runtime" "fe_admitted sample_filter_env = Ok ()"
    by (simp_all add: sample_runtime_def sample_filter_env_def runtime_snapshot_def)
  ultimately obtain st' where "filter_phases sample_filter_env sample_filter_request sample_filter_state = (Inr (), st')" "fs_verifier st' = vs'"
    by (auto simp: filter_phases_def phase_defs st1 samples)
  then show ?thesis using vs'(2) by (auto simp: request_filter_def)
qed

theorem request_let_through_witness:
  "\<exists>st'. request_filter sample_filter_env sample_filter_request sample_filter_state = (Proceeds, st') \<and>
     (governed sample_filter_env sample_runtime sample_filter_request (fs_ctx st') \<or>
      caller_owned sample_filter_env sample_runtime sample_filter_request (fs_ctx st') \<or>
      by_ingress sample_filter_env sample_runtime sample_filter_request st')"
proof -
  obtain st' where st': "request_filter sample_filter_env sample_filter_request sample_filter_state = (Proceeds, st')"
    "vs_requests (fs_verifier st') = [request_of sample_stored sample_key, request_of sample_stored sample_key]"
    using sample_let_through by blast
  have "fs_verifier sample_filter_state =
      foldl (verifier_step (ae_crypto (fe_keys sample_filter_env))) (initial_verifier 0) []"
    by (simp add: sample_filter_state_def)
  moreover have "sound_history sample_filter_env (fs_verifier st')"
    using st'(2) by (simp add: sound_history_def collision_free_def request_wf_def request_of_def sample_auth_simps)
  ultimately obtain auth where "runtime_snapshot (fe_runtime sample_filter_env) = Ok auth"
    "governed sample_filter_env auth sample_filter_request (fs_ctx st') \<or>
      caller_owned sample_filter_env auth sample_filter_request (fs_ctx st') \<or>
      by_ingress sample_filter_env auth sample_filter_request st'"
    using request_let_through [OF _ st'(1)] by blast
  then show ?thesis
    using st'(1) by (auto simp: sample_runtime_def sample_filter_env_def runtime_snapshot_def)
qed

end
