(* ===== verification/Request_Body.thy ===== *)
theory Request_Body
  imports Phases Response_Pipeline
begin

text \<open>
  The body of a request on its way upstream (\<open>request_body_filter\<close> in \<open>gateway-proxy/src/pingora_plane.rs\<close>): the chunks
  are counted and collected under the lease of the request, and the complete body passes the policy, the guardrails before
  the call and the admission of \<open>admit_complete_body\<close> before a byte of it is forwarded. Requests that may stream
  pass chunk by chunk. The read timeout of the connection, traffic diagnostics and telemetry are left out.
\<close>

section \<open>State\<close>

record 's body_env =
  be_admission :: "'s admission_env"
  be_times :: admission_times
  be_alloc :: allocator
  be_to_writer :: "json \<Rightarrow> string list \<times> bool"
  be_form :: form_reader
  be_services :: service_env
  be_send :: http_send
  be_latency :: nat
  be_now :: int
  be_elapsed :: nat

record 's body_parts =
  bp_ctx :: pingora_context
  bp_rewriter :: "body_rewriter option"
  bp_bytes_seen :: nat
  bp_prefix :: string
  bp_frames :: "frame_limit option"
  bp_expires_at :: int
  bp_admission :: body_state
  bp_store :: 's
  bp_body :: "string option"
  bp_owner :: "lease option"

text \<open>
  How the filter fails: with an answer to the client, with an answer left to \<open>fail_to_proxy\<close>, by closing a socket, or by a panic.
\<close>

datatype body_end = AnsweredWith gateway_error | FailsWith gateway_error | SocketClosed | BodyPanics

type_synonym ('s, 'a) body_phase = "('s body_parts, body_end, 'a) phased"

definition guardrail_failure :: "gateway_error \<Rightarrow> 's body_parts \<Rightarrow> 's body_parts" where
  "guardrail_failure e st = st\<lparr>bp_ctx := (bp_ctx st)\<lparr>pc_guardrail_error := Some e\<rparr>\<rparr>"

definition no_body :: "'s body_parts \<Rightarrow> 's body_parts" where
  "no_body st = st\<lparr>bp_body := Some []\<rparr>"

definition answers :: "gateway_error \<Rightarrow> ('s, 'a) body_phase" where
  "answers e = in_turn (updates (guardrail_failure e)) (\<lambda>_. ends (AnsweredWith e))"

definition fails :: "gateway_error \<Rightarrow> ('s, 'a) body_phase" where
  "fails e = in_turn (updates (guardrail_failure e)) (\<lambda>_. ends (FailsWith e))"

definition or_answer :: "'a gateway_result \<Rightarrow> ('s, 'a) body_phase" where
  "or_answer r = (case r of Inl e \<Rightarrow> answers e | Inr x \<Rightarrow> passes x)"

definition or_fail :: "'a gateway_result \<Rightarrow> ('s, 'a) body_phase" where
  "or_fail r = (case r of Inl e \<Rightarrow> fails e | Inr x \<Rightarrow> passes x)"

text \<open>The buffer and the lease are given up together.\<close>

definition give_up :: "'s body_parts \<Rightarrow> 's body_parts" where
  "give_up st =
     st\<lparr>bp_rewriter := map_option (\<lambda>r. snd (take_buffer r)) (bp_rewriter st),
        bp_ctx := (bp_ctx st)\<lparr>pc_request_body_lease := None\<rparr>,
        bp_admission := (case pc_request_body_lease (bp_ctx st) of None \<Rightarrow> bp_admission st | Some l \<Rightarrow> lease_drop (bp_admission st) l)\<rparr>"

text \<open>An operation of the lease, if the request has one.\<close>

definition leased :: "unit body_op \<Rightarrow> ('s, unit gateway_result) body_phase" where
  "leased f st =
     (case with_lease f (bp_admission st) (pc_request_body_lease (bp_ctx st)) of
        (r, bs, l) \<Rightarrow> (Inr r, st\<lparr>bp_admission := bs, bp_ctx := (bp_ctx st)\<lparr>pc_request_body_lease := l\<rparr>\<rparr>))"

section \<open>A chunk\<close>

definition socket_chunk :: "'s body_env \<Rightarrow> ('s, unit) body_phase" where
  "socket_chunk env =
     depending (\<lambda>st.
     case bp_frames st of
       None \<Rightarrow> passes ()
     | Some frames \<Rightarrow>
         if bp_expires_at st \<le> be_now env then ends SocketClosed
         else (case feed frames (octets (case bp_body st of None \<Rightarrow> [] | Some b \<Rightarrow> b)) of
                 (r, frames) \<Rightarrow>
                   in_turn (updates (\<lambda>st. st\<lparr>bp_frames := Some frames\<rparr>)) (\<lambda>_.
                   stop_if (\<not> is_ok r) SocketClosed)))"

definition count_bytes :: "string \<Rightarrow> 's body_parts \<Rightarrow> 's body_parts" where
  "count_bytes chunk st =
     st\<lparr>bp_bytes_seen := saturating_add (bp_bytes_seen st) (length chunk),
        bp_prefix := (if length (bp_prefix st) < 65536
                      then bp_prefix st @ take (65536 - length (bp_prefix st)) chunk else bp_prefix st)\<rparr>"

definition body_limit :: "int \<Rightarrow> nat \<Rightarrow> pingora_context \<Rightarrow> unit gateway_result" where
  "body_limit now seen ctx =
     (if (case pc_route_match ctx of None \<Rightarrow> False | Some m \<Rightarrow> rm_max_body_bytes m < seen) then Err RequestBodyTooLarge
      else case pc_policy ctx of
        None \<Rightarrow> Ok ()
      | Some policy \<Rightarrow> evaluate_policy_limits policy now (try_i64 seen) None None None None)"

definition count_chunk :: "'s body_env \<Rightarrow> ('s, unit) body_phase" where
  "count_chunk env =
     depending (\<lambda>st.
     case bp_body st of
       None \<Rightarrow> passes ()
     | Some chunk \<Rightarrow>
         in_turn (updates (count_bytes chunk)) (\<lambda>_.
         depending (\<lambda>st.
           case body_limit (be_now env) (bp_bytes_seen st) (bp_ctx st) of
             Inl e \<Rightarrow> in_turn (updates no_body) (\<lambda>_. answers e)
           | Inr _ \<Rightarrow> passes ())))"

definition passes_unbuffered :: "bool \<Rightarrow> 's body_parts \<Rightarrow> bool" where
  "passes_unbuffered end_of_stream st =
     (pc_litellm_passthrough (bp_ctx st) \<and> pc_direct_litellm_passthrough (bp_ctx st) \<or>
      managed_service_request_can_stream (bp_ctx st) \<or>
      pc_budget_reserved (bp_ctx st) \<and> bp_bytes_seen st = 0 \<and> end_of_stream)"

definition acquire_lease :: "body_rewriter \<Rightarrow> ('s, unit) body_phase" where
  "acquire_lease r =
     depending (\<lambda>st.
     if pc_request_body_lease (bp_ctx st) \<noteq> None then passes ()
     else case try_acquire_sized (br_expected_length r) (bp_admission st) of
       (result, bs) \<Rightarrow>
         in_turn (updates (\<lambda>st. st\<lparr>bp_admission := bs\<rparr>)) (\<lambda>_.
         case result of
           Inl e \<Rightarrow> in_turn (updates no_body) (\<lambda>_. answers e)
         | Inr l \<Rightarrow> updates (\<lambda>st. st\<lparr>bp_ctx := (bp_ctx st)\<lparr>pc_request_body_lease := Some l\<rparr>\<rparr>)))"

definition reserve_body :: "body_rewriter \<Rightarrow> nat \<Rightarrow> unit body_op" where
  "reserve_body r chunk_len bs l =
     (case next_capacity r chunk_len of
        Inl e \<Rightarrow> (Err e, bs, l)
      | Inr capacity \<Rightarrow>
          then_op (prepare_buffer (saturating_add (buffered_len r) chunk_len) capacity bs l) (try_reserve chunk_len))"

text \<open>A failure that gives the buffer and the lease up.\<close>

definition or_give_up :: "unit gateway_result \<Rightarrow> ('s, unit) body_phase" where
  "or_give_up r =
     (case r of Inl e \<Rightarrow> in_turn (updates (\<lambda>st. no_body (give_up st))) (\<lambda>_. answers e) | Inr _ \<Rightarrow> passes ())"

definition reserve_lease :: "'s body_env \<Rightarrow> body_rewriter \<Rightarrow> nat \<Rightarrow> ('s, unit) body_phase" where
  "reserve_lease env r chunk_len =
     (if chunk_len = 0 then passes ()
      else in_turn (acquire_lease r) (\<lambda>_.
           in_turn (leased (reserve_body r chunk_len)) (\<lambda>result.
           in_turn (or_give_up result) (\<lambda>_.
           depending (\<lambda>st.
             if pc_request_body_lease (bp_ctx st) \<noteq> None \<and> upload_remaining (bp_admission st) (be_elapsed env) = Some 0
             then or_give_up (Err GatewayOverloaded) else passes ())))))"

definition set_rewriter :: "body_rewriter \<Rightarrow> 's body_parts \<Rightarrow> 's body_parts" where
  "set_rewriter r st = st\<lparr>bp_rewriter := Some r\<rparr>"

text \<open>The chunk is appended to the buffer, and nothing is forwarded yet.\<close>

definition collect_chunk :: "'s body_env \<Rightarrow> body_rewriter \<Rightarrow> ('s, body_rewriter) body_phase" where
  "collect_chunk env r =
     depending (\<lambda>st.
     in_turn (reserve_lease env r (body_len (bp_body st))) (\<lambda>_.
     case append_chunk (be_alloc env) r (bp_body st) of
       (result, r) \<Rightarrow>
         in_turn (updates (set_rewriter r)) (\<lambda>_.
         in_turn (case result of
                    Inl e \<Rightarrow> in_turn (updates (\<lambda>st. no_body (give_up st))) (\<lambda>_. fails e)
                  | Inr _ \<Rightarrow> passes ()) (\<lambda>_.
         in_turn (leased (prepare_buffer (buffered_len r) (bv_capacity (br_buffer r)))) (\<lambda>result.
         in_turn (or_give_up result) (\<lambda>_.
         in_turn (updates no_body) (\<lambda>_. passes r)))))))"

section \<open>The complete body\<close>

definition update_ctx :: "(pingora_context \<Rightarrow> pingora_context) \<Rightarrow> ('s, unit) body_phase" where
  "update_ctx f = updates (\<lambda>st. st\<lparr>bp_ctx := f (bp_ctx st)\<rparr>)"

definition from_slice :: "'s body_env \<Rightarrow> string \<Rightarrow> json option" where
  "from_slice env = from_value (ae_serde (be_admission env))"

definition complete :: "'s body_env \<Rightarrow> string \<Rightarrow> complete_body" where
  "complete env bytes = complete_body_new (ae_serde (be_admission env)) bytes"

definition take_body :: "'s body_env \<Rightarrow> body_rewriter \<Rightarrow> ('s, string) body_phase" where
  "take_body env r =
     in_turn (leased begin_processing) (\<lambda>result.
     in_turn (or_give_up result) (\<lambda>_.
     in_turn (updates (set_rewriter (snd (take_buffer r)))) (\<lambda>_.
     depending (\<lambda>st.
       case pc_foundry (bp_ctx st) of
         None \<Rightarrow> passes (fst (take_buffer r))
       | Some (binding, _) \<Rightarrow>
           or_fail (prepare_request (from_slice env) (ae_to_vec (be_admission env)) binding (fst (take_buffer r)))))))"

definition body_selector :: "'s body_env \<Rightarrow> pingora_context \<Rightarrow> string \<Rightarrow> json option" where
  "body_selector env ctx raw =
     (if pc_service_pricing_rules ctx = [] then None
      else service_pricing_selector (be_form env) raw (pc_request_content_type ctx)
        (case pc_route_match ctx of Some m \<Rightarrow> rm_max_body_bytes m | None \<Rightarrow> length raw))"

definition resolve_cost :: "'s body_env \<Rightarrow> json option \<Rightarrow> ('s, unit) body_phase" where
  "resolve_cost env selector = update_ctx (\<lambda>ctx. resolve_service_cost_for_ctx (be_services env) ctx selector)"

definition retain_metadata :: "'s body_env \<Rightarrow> complete_body \<Rightarrow> ('s, unit gateway_result) body_phase" where
  "retain_metadata env b st =
     (case retain_request_metadata_workspace (be_admission env) (bp_ctx st) b (bp_admission st) (pc_request_body_lease (bp_ctx st)) of
        (r, bs, l) \<Rightarrow> (Inr r, st\<lparr>bp_admission := bs, bp_ctx := (bp_ctx st)\<lparr>pc_request_body_lease := l\<rparr>\<rparr>))"

definition wildcard_delegation :: "pingora_context \<Rightarrow> bool" where
  "wildcard_delegation ctx =
     (pc_litellm_passthrough ctx \<and> pc_route ctx = Some LiteLlmPassthrough \<and> ea_authentication_profiles (pc_access ctx) = None)"

definition malformed_delegation :: "'s body_env \<Rightarrow> pingora_context \<Rightarrow> complete_body \<Rightarrow> bool" where
  "malformed_delegation env ctx b =
     (wildcard_delegation ctx \<and> cb_generation b = None \<and>
      (case from_slice env (cb_bytes b) of Some v \<Rightarrow> is_object v | None \<Rightarrow> False))"

text \<open>The policy that the complete body selects. The code panics on a key without a route.\<close>

definition body_policy :: "'s body_env \<Rightarrow> complete_body \<Rightarrow> authenticated_key \<Rightarrow> route_match \<Rightarrow> ('s, unit) body_phase" where
  "body_policy env b key m =
     in_turn (or_fail (effective_complete_policy (be_admission env) key m b)) (\<lambda>effective.
     in_turn (leased begin_processing) (\<lambda>r.
     in_turn (or_answer r) (\<lambda>_.
     depending (\<lambda>st.
     in_turn (or_answer (if wildcard_delegation (bp_ctx st)
                then enforce_output_token_limit (ae_serde (be_admission env)) (ep_policy effective) (rm_route m) (cb_bytes b)
                else check_complete_request_policy (be_admission env) (be_now env) (ep_policy effective) m b (request_features m b))) (\<lambda>_.
     in_turn (retain_metadata env b) (\<lambda>r.
     in_turn (or_answer r) (\<lambda>_.
     update_ctx (\<lambda>ctx. ctx\<lparr>pc_policy := Some (ep_policy effective), pc_guardrail_policy := ep_guardrail_policy effective\<rparr>))))))))"

definition select_policy :: "'s body_env \<Rightarrow> complete_body \<Rightarrow> ('s, unit) body_phase" where
  "select_policy env b =
     depending (\<lambda>st.
     case pc_key (bp_ctx st) of
       None \<Rightarrow> passes ()
     | Some key \<Rightarrow>
         (case pc_route_match (bp_ctx st) of
            None \<Rightarrow> ends BodyPanics
          | Some m \<Rightarrow> body_policy env b key (fallback_match (bp_ctx st) m)))"

definition admit_body :: "'s body_env \<Rightarrow> admission_times \<Rightarrow> complete_body \<Rightarrow> ('s, unit) body_phase" where
  "admit_body env ts b st =
     (case admit_complete_body (be_admission env) ts (bp_ctx st) b (bp_admission st) (bp_store st) of
        (r, bytes, ctx, bs, store) \<Rightarrow>
          (case r of Inl e \<Rightarrow> Inl (AnsweredWith e) | Inr _ \<Rightarrow> Inr (),
           st\<lparr>bp_body := Some bytes, bp_ctx := ctx, bp_admission := bs, bp_store := store\<rparr>))"

definition bind_body :: "('s, unit) body_phase" where
  "bind_body st =
     (case bind_request_body_admission (bp_body st) (bp_ctx st) (bp_admission st) of
        (ok, body, ctx, bs, owner) \<Rightarrow>
          (if ok then Inr () else Inl (FailsWith (case pc_guardrail_error ctx of Some e \<Rightarrow> e | None \<Rightarrow> GatewayOverloaded)),
           st\<lparr>bp_body := body, bp_ctx := ctx, bp_admission := bs, bp_owner := owner\<rparr>))"

definition admit_and_bind :: "'s body_env \<Rightarrow> admission_times \<Rightarrow> complete_body \<Rightarrow> ('s, unit) body_phase" where
  "admit_and_bind env ts b = in_turn (admit_body env ts b) (\<lambda>_. bind_body)"

definition set_prefix :: "string \<Rightarrow> 's body_parts \<Rightarrow> 's body_parts" where
  "set_prefix bytes st = st\<lparr>bp_prefix := take 65536 bytes\<rparr>"

section \<open>Guardrails before the call\<close>

definition guardrail_plan :: "guardrail_mode \<Rightarrow> pingora_context \<Rightarrow> string list \<Rightarrow> guardrail_definition list gateway_result" where
  "guardrail_plan mode ctx requested =
     resolve_guardrail_plan
       \<lparr>pr_mode = mode, pr_definitions = pc_guardrail_definitions ctx,
        pr_policies = \<lparr>key_policy = pc_guardrail_policy ctx, team_policy = None, route_policy = None, model_policy = None\<rparr>,
        pr_client_requested = requested\<rparr>"

definition response_plan :: "pingora_context \<Rightarrow> string list \<Rightarrow> bool \<Rightarrow> guardrail_definition list \<Rightarrow> guardrail_definition list gateway_result" where
  "response_plan ctx requested stream post_call =
     (if \<not> stream then Ok post_call
      else and_then (guardrail_plan DuringCall ctx requested) (\<lambda>during_call.
           if guardrail_plan_names_match post_call during_call then Ok during_call else Err GuardrailUnavailable))"

definition resolve_plans ::
    "pingora_context \<Rightarrow> complete_body \<Rightarrow> (guardrail_definition list \<times> guardrail_definition list) gateway_result" where
  "resolve_plans ctx b =
     and_then (extract_client_guardrails_value (Option.bind (cb_generation b) ra_client_guardrails)) (\<lambda>requested.
     and_then (guardrail_plan PreCall ctx requested) (\<lambda>plan.
     and_then (guardrail_plan PostCall ctx requested) (\<lambda>post_call.
     and_then (response_plan ctx requested (gf_stream (body_features b)) post_call) (\<lambda>response.
     Ok (plan, response)))))"

definition call_context :: "pingora_context \<Rightarrow> authenticated_key \<Rightarrow> complete_body \<Rightarrow> guardrail_context" where
  "call_context ctx key b =
     (case pc_guardrail_context ctx of
        Some c \<Rightarrow> c
      | None \<Rightarrow>
          \<lparr>gc_request_id = pc_request_id ctx, gc_key_id = Some (ak_key_id key), gc_team_id = None, gc_user_id = None,
           gc_project_id = ak_project_id key, gc_model = gf_model (body_features b), gc_route = pc_route ctx,
           gc_provider = map_option rm_provider (pc_route_match ctx), gc_pii_mappings = [], gc_applied_guardrails = [],
           gc_guardrail_results = []\<rparr>)"

definition execute_before ::
    "'s body_env \<Rightarrow> pingora_context \<Rightarrow> complete_body \<Rightarrow> guardrail_definition list \<Rightarrow> json \<Rightarrow> guardrail_execution gateway_result" where
  "execute_before env ctx b plan request =
     and_then (ok_or (pc_key ctx) MissingAuthorization) (\<lambda>key.
     execute (guardrail_executor_for_definitions (be_send env) (be_latency env) (pc_guardrail_definitions ctx)) plan PreCall
       (call_context ctx key b) (Some (strip_client_guardrails request)) None)"

definition guarded_ctx ::
    "'s body_env \<Rightarrow> complete_body \<Rightarrow> guardrail_definition list \<Rightarrow> guardrail_definition list \<Rightarrow> guardrail_execution \<Rightarrow> nat \<Rightarrow>
     pingora_context \<Rightarrow> pingora_context" where
  "guarded_ctx env b plan response execution len ctx =
     (let ctx = ctx\<lparr>pc_pre_guardrail_plan := Some plan, pc_guardrail_context := Some (ge_context execution),
            pc_guardrail_events := pc_guardrail_events ctx @
              execution_events_from_records (ge_context execution) (ge_records execution) (be_now env),
            pc_rewritten_request_len := Some len\<rparr>
      in if gf_stream (body_features b) then ctx\<lparr>pc_during_guardrail_plan := Some response\<rparr>
         else ctx\<lparr>pc_post_guardrail_plan := Some response\<rparr>)"

definition serialize_request :: "'s body_env \<Rightarrow> json \<Rightarrow> ('s, string) body_phase" where
  "serialize_request env v =
     depending (\<lambda>st.
     case serialize_with_admission (be_alloc env) (be_to_writer env) v
            (case pc_route_match (bp_ctx st) of None \<Rightarrow> usize_max | Some m \<Rightarrow> rm_max_body_bytes m)
            (bp_admission st) (pc_request_body_lease (bp_ctx st)) RequestBodyTooLarge of
       (r, bs, l) \<Rightarrow>
         in_turn (updates (\<lambda>st. st\<lparr>bp_admission := bs, bp_ctx := (bp_ctx st)\<lparr>pc_request_body_lease := l\<rparr>\<rparr>)) (\<lambda>_.
         or_fail r))"

definition guarded_body ::
    "'s body_env \<Rightarrow> json option \<Rightarrow> complete_body \<Rightarrow> guardrail_definition list \<Rightarrow> guardrail_definition list \<Rightarrow> ('s, unit) body_phase" where
  "guarded_body env selector b plan response =
     in_turn (leased begin_processing) (\<lambda>r.
     in_turn (or_answer r) (\<lambda>_.
     case from_slice env (cb_bytes b) of
       None \<Rightarrow> in_turn (resolve_cost env selector) (\<lambda>_. admit_and_bind env (be_times env) b)
     | Some request \<Rightarrow>
         depending (\<lambda>st.
         in_turn (or_fail (execute_before env (bp_ctx st) b plan request)) (\<lambda>execution.
         in_turn (serialize_request env (case ge_request execution of Some v \<Rightarrow> v | None \<Rightarrow> JNull)) (\<lambda>rewritten.
         in_turn (update_ctx (guarded_ctx env b plan response execution (length rewritten))) (\<lambda>_.
         in_turn (updates (set_prefix rewritten)) (\<lambda>_.
         in_turn (resolve_cost env selector) (\<lambda>_.
         admit_and_bind env (be_times env) (complete env rewritten)))))))))"

section \<open>The filter\<close>

definition managed_body :: "'s body_env \<Rightarrow> json option \<Rightarrow> complete_body \<Rightarrow> ('s, unit) body_phase" where
  "managed_body env selector b =
     depending (\<lambda>st.
     in_turn (or_fail (resolve_plans (bp_ctx st) b)) (\<lambda>(plan, response).
     if plan = [] \<and> response = []
     then in_turn (update_ctx (\<lambda>ctx. ctx\<lparr>pc_rewritten_request_len := Some (length (cb_bytes b))\<rparr>)) (\<lambda>_.
          in_turn (updates (set_prefix (cb_bytes b))) (\<lambda>_.
          in_turn (resolve_cost env selector) (\<lambda>_.
          admit_and_bind env (be_times env) b)))
     else guarded_body env selector b plan response))"

definition passthrough_body :: "'s body_env \<Rightarrow> complete_body \<Rightarrow> ('s, unit) body_phase" where
  "passthrough_body env b =
     in_turn (updates (set_prefix (cb_bytes b))) (\<lambda>_.
     depending (\<lambda>st.
     in_turn (if wildcard_delegation (bp_ctx st) then updates (\<lambda>st. st\<lparr>bp_body := Some (cb_bytes b)\<rparr>)
              else admit_body env (be_times env) b) (\<lambda>_. bind_body)))"

definition complete_request :: "'s body_env \<Rightarrow> string \<Rightarrow> ('s, unit) body_phase" where
  "complete_request env raw =
     depending (\<lambda>st.
     let selector = body_selector env (bp_ctx st) raw; b = complete env raw in
     in_turn (resolve_cost env selector) (\<lambda>_.
     in_turn (retain_metadata env b) (\<lambda>r.
     in_turn (or_answer r) (\<lambda>_.
     depending (\<lambda>st.
     in_turn (if malformed_delegation env (bp_ctx st) b then answers PolicyDenied else passes ()) (\<lambda>_.
     in_turn (select_policy env b) (\<lambda>_.
     depending (\<lambda>st.
     if pc_litellm_passthrough (bp_ctx st) then passthrough_body env b else managed_body env selector b))))))))"

definition buffered_body :: "'s body_env \<Rightarrow> bool \<Rightarrow> body_rewriter \<Rightarrow> ('s, unit) body_phase" where
  "buffered_body env end_of_stream r =
     in_turn (collect_chunk env r) (\<lambda>r.
     if \<not> end_of_stream then passes ()
     else in_turn (take_body env r) (complete_request env))"

definition request_body_filter :: "'s body_env \<Rightarrow> bool \<Rightarrow> ('s, unit) body_phase" where
  "request_body_filter env end_of_stream =
     depending (\<lambda>st.
     if pc_socket (bp_ctx st) then socket_chunk env
     else case pc_guardrail_error (bp_ctx st) of
       Some e \<Rightarrow> in_turn (updates no_body) (\<lambda>_. ends (FailsWith e))
     | None \<Rightarrow>
         in_turn (count_chunk env) (\<lambda>_.
         depending (\<lambda>st.
         case bp_rewriter st of
           None \<Rightarrow> passes ()
         | Some r \<Rightarrow> if passes_unbuffered end_of_stream st then passes () else buffered_body env end_of_stream r)))"

section \<open>What the phases keep\<close>

definition subject ::
    "'s body_parts \<Rightarrow> authenticated_key option \<times> route option \<times> bool \<times> route option \<times> endpoint_access" where
  "subject st =
     (pc_key (bp_ctx st), map_option rm_route (pc_route_match (bp_ctx st)), pc_litellm_passthrough (bp_ctx st), pc_route (bp_ctx st),
      pc_access (bp_ctx st))"

lemma subject_simps [simp]:
  "subject (st\<lparr>bp_rewriter := r\<rparr>) = subject st" "subject (st\<lparr>bp_body := b\<rparr>) = subject st" "subject (st\<lparr>bp_prefix := p\<rparr>) = subject st"
  "subject (st\<lparr>bp_bytes_seen := n\<rparr>) = subject st" "subject (st\<lparr>bp_admission := bs\<rparr>) = subject st" "subject (st\<lparr>bp_frames := f\<rparr>) = subject st"
  "subject (guardrail_failure e st) = subject st" "subject (no_body st) = subject st" "subject (give_up st) = subject st"
  "subject (count_bytes c st) = subject st" "subject (set_rewriter r' st) = subject st" "subject (set_prefix p st) = subject st"
  "subject (st\<lparr>bp_ctx := (bp_ctx st)\<lparr>pc_request_body_lease := l\<rparr>\<rparr>) = subject st"
  "subject (st\<lparr>bp_admission := bs, bp_ctx := (bp_ctx st)\<lparr>pc_request_body_lease := l\<rparr>\<rparr>) = subject st"
  by (simp_all add: subject_def guardrail_failure_def no_body_def give_up_def count_bytes_def set_rewriter_def set_prefix_def)

lemma keeps_leased [keeps_intros]: "keeps subject (leased f)"
  by (auto simp: keeps_def leased_def split: prod.splits)

lemma keeps_retain [keeps_intros]: "keeps subject (retain_metadata env b)"
  by (auto simp: keeps_def retain_metadata_def split: prod.splits)

lemma keeps_outcomes [keeps_intros]:
  "keeps subject (answers e)" "keeps subject (fails e)" "keeps subject (or_answer r)" "keeps subject (or_fail r)" "keeps subject (or_give_up r')"
  unfolding or_answer_def or_fail_def or_give_up_def answers_def fails_def by (intro keeps_intros; simp)+

lemma keeps_resolve_cost [keeps_intros]: "keeps subject (resolve_cost env selector)"
  unfolding resolve_cost_def update_ctx_def
  by (intro keeps_intros) (auto simp: subject_def resolve_service_cost_for_ctx_def with_service_cost_def Let_def split: option.split)

lemma keeps_collect [keeps_intros]: "keeps subject (collect_chunk env r)"
  unfolding collect_chunk_def reserve_lease_def acquire_lease_def by (intro keeps_intros; simp)

lemma keeps_take_body [keeps_intros]: "keeps subject (take_body env r)"
  unfolding take_body_def by (intro keeps_intros; simp)

lemma keeps_count [keeps_intros]: "keeps subject (count_chunk env)"
  unfolding count_chunk_def by (intro keeps_intros; simp)

lemma keeps_select_policy [keeps_intros]: "keeps subject (select_policy env b)"
  unfolding select_policy_def body_policy_def update_ctx_def by (intro keeps_intros; simp add: subject_def)

lemma keeps_serialize [keeps_intros]: "keeps subject (serialize_request env v)"
  unfolding serialize_request_def by (intro keeps_intros; simp)

lemma keeps_guarded_ctx [keeps_intros]: "keeps subject (update_ctx (guarded_ctx env b plan response execution n))"
  unfolding update_ctx_def by (intro keeps_intros) (simp add: subject_def guarded_ctx_def Let_def)

section \<open>Nothing leaves unchecked\<close>

text \<open>These bytes passed the policy that they select for the key and the route, and their cost is reserved.\<close>

definition checked_bytes :: "'s body_env \<Rightarrow> authenticated_key \<Rightarrow> route \<Rightarrow> string \<Rightarrow> pingora_context \<Rightarrow> bool" where
  "checked_bytes env key rt bytes ctx \<longleftrightarrow>
     pc_budget_reserved ctx \<and>
     (\<exists>m effective. rm_route m = rt \<and> effective_complete_policy (be_admission env) key m (complete env bytes) = Ok effective \<and>
        pc_policy ctx = Some (ep_policy effective) \<and>
        check_complete_request_policy (be_admission env) (at_policy (be_times env)) (ep_policy effective) m (complete env bytes)
          (request_features m (complete env bytes)) = Ok ())"

lemma complete_bytes [simp]: "cb_bytes (complete env raw) = raw" "complete env (cb_bytes (complete env raw)) = complete env raw"
  by (simp_all add: complete_def complete_body_new_def)

lemma admit_needs_key:
  assumes "admit_complete_body env ts ctx b bs st = (Ok u, fwd, ctx', bs', st')"
  shows "pc_key ctx \<noteq> None \<and> pc_route_match ctx \<noteq> None"
  using assms
  by (auto simp: admit_complete_body_def admit_checks_def Let_def split: prod.splits sum.splits option.splits)

lemma admit_body_Inr:
  assumes "admit_body env (be_times env) (complete env raw) st = (Inr u, st')"
  shows "\<exists>key rt. pc_key (bp_ctx st) = Some key \<and> map_option rm_route (pc_route_match (bp_ctx st)) = Some rt \<and>
    checked_bytes env key rt raw (bp_ctx st') \<and> bp_body st' = Some raw"
proof -
  obtain u' fwd ctx' bs' store' where a: "admit_complete_body (be_admission env) (be_times env) (bp_ctx st) (complete env raw) (bp_admission st) (bp_store st) =
      (Ok u', fwd, ctx', bs', store')" and st': "bp_body st' = Some fwd" "bp_ctx st' = ctx'"
    using assms by (auto simp: admit_body_def split: prod.splits sum.splits)
  obtain key m where km: "pc_key (bp_ctx st) = Some key" "pc_route_match (bp_ctx st) = Some m"
    using admit_needs_key [OF a] by auto
  have a': "admit_complete_body (be_admission env) (be_times env) (bp_ctx st) (complete env raw) (bp_admission st) (bp_store st) =
      (Ok (), fwd, ctx', bs', store')" using a by simp
  obtain effective where "effective_complete_policy (be_admission env) key (fallback_match (bp_ctx st) m) (complete env raw) = Ok effective"
    "check_complete_request_policy (be_admission env) (at_policy (be_times env)) (ep_policy effective) (fallback_match (bp_ctx st) m) (complete env raw)
       (request_features (fallback_match (bp_ctx st) m) (complete env raw)) = Ok ()"
    "pc_policy ctx' = Some (ep_policy effective)" "pc_budget_reserved ctx'" "fwd = cb_bytes (complete env raw)"
    by (rule admit_checks_Ok [OF a' km])
  moreover have "rm_route (fallback_match (bp_ctx st) m) = rm_route m" by (simp add: fallback_match_def)
  ultimately have "checked_bytes env key (rm_route m) raw (bp_ctx st')" "bp_body st' = Some raw"
    using st' unfolding checked_bytes_def by auto
  then show ?thesis using km by simp
qed

lemma bind_body_Inr:
  assumes "bind_body st = (Inr u, st')"
  shows "bp_body st' = bp_body st \<and> pc_budget_reserved (bp_ctx st') = pc_budget_reserved (bp_ctx st) \<and>
    pc_policy (bp_ctx st') = pc_policy (bp_ctx st)"
  using assms
  by (auto simp: bind_body_def bind_request_body_admission_def Let_def split: prod.splits option.splits sum.splits if_splits)

definition safe_body :: "'s body_env \<Rightarrow> 's body_parts \<Rightarrow> 's body_parts \<Rightarrow> bool" where
  "safe_body env st st' \<longleftrightarrow>
     (\<exists>key rt bytes. pc_key (bp_ctx st) = Some key \<and> map_option rm_route (pc_route_match (bp_ctx st)) = Some rt \<and>
        bp_body st' = Some bytes \<and> checked_bytes env key rt bytes (bp_ctx st'))"

lemma safe_body_subject: "subject st = subject st1 \<Longrightarrow> safe_body env st1 st' \<Longrightarrow> safe_body env st st'"
  by (simp add: safe_body_def subject_def)

lemma admit_then_bind:
  assumes "in_turn (admit_body env (be_times env) (complete env raw)) (\<lambda>_. bind_body) st = (Inr u, st')"
  shows "safe_body env st st'"
proof -
  obtain u1 st1 where a: "admit_body env (be_times env) (complete env raw) st = (Inr u1, st1)" and b: "bind_body st1 = (Inr u, st')"
    using assms by (auto simp: in_turn_Inr)
  have "checked_bytes env key rt bytes (bp_ctx st')" if "checked_bytes env key rt bytes (bp_ctx st1)" for key rt bytes
    using that bind_body_Inr [OF b] unfolding checked_bytes_def by simp
  with admit_body_Inr [OF a] bind_body_Inr [OF b] show ?thesis unfolding safe_body_def by metis
qed

text \<open>Phases whose success means that the body was checked.\<close>

definition safe :: "'s body_env \<Rightarrow> ('s, unit) body_phase \<Rightarrow> bool" where
  "safe env p \<longleftrightarrow> (\<forall>st u st'. p st = (Inr u, st') \<longrightarrow> safe_body env st st')"

named_theorems safe_intros

lemma safe_admit [safe_intros]: "safe env (admit_and_bind env (be_times env) (complete env raw))"
  by (simp add: safe_def admit_and_bind_def admit_then_bind)

lemma safe_in_turn [safe_intros]:
  assumes "keeps subject p" "\<And>x. safe env (f x)"
  shows "safe env (in_turn p f)"
  unfolding safe_def
proof (intro allI impI)
  fix st u st'
  assume "in_turn p f st = (Inr u, st')"
  then obtain x st1 where "p st = (Inr x, st1)" "f x st1 = (Inr u, st')" by (auto simp: in_turn_Inr)
  then show "safe_body env st st'"
    using keepsD [OF assms(1)] assms(2) safe_body_subject unfolding safe_def by metis
qed

lemma safe_depending [safe_intros]: "(\<And>st. safe env (f st)) \<Longrightarrow> safe env (depending f)"
  by (simp add: safe_def)

lemma safe_cases [safe_intros]:
  "(b \<Longrightarrow> safe env p) \<Longrightarrow> (\<not> b \<Longrightarrow> safe env q) \<Longrightarrow> safe env (if b then p else q)"
  "safe env p \<Longrightarrow> (\<And>y. safe env (k y)) \<Longrightarrow> safe env (case x of None \<Rightarrow> p | Some y \<Rightarrow> k y)"
  "(\<And>a c. safe env (g a c)) \<Longrightarrow> safe env (case z of (a, c) \<Rightarrow> g a c)"
  by (simp_all split: option.split prod.split)

lemma guarded_body_safe [safe_intros]: "safe env (guarded_body env selector (complete env raw) plan response)"
  unfolding guarded_body_def by (intro safe_intros keeps_intros; simp)

lemma managed_body_safe [safe_intros]: "safe env (managed_body env selector (complete env raw))"
  unfolding managed_body_def update_ctx_def by (intro safe_intros keeps_intros; simp add: subject_def set_prefix_def)

lemma passthrough_body_safe:
  assumes "passthrough_body env (complete env raw) st = (Inr u, st')" "\<not> wildcard_delegation (bp_ctx st)"
  shows "safe_body env st st'"
proof -
  have w: "\<not> wildcard_delegation (bp_ctx (set_prefix raw st))" using assms(2) by (simp add: set_prefix_def)
  have "in_turn (admit_body env (be_times env) (complete env raw)) (\<lambda>_. bind_body) (set_prefix raw st) = (Inr u, st')"
    using assms(1) w unfolding passthrough_body_def in_turn_Inr [of "updates _"] by simp
  from admit_then_bind [OF this] show ?thesis by (rule safe_body_subject [rotated]) simp
qed

lemma wildcard_subject: "subject st = subject st1 \<Longrightarrow> wildcard_delegation (bp_ctx st) = wildcard_delegation (bp_ctx st1)"
  by (simp add: subject_def wildcard_delegation_def)

lemma complete_request_safe:
  assumes "complete_request env raw st = (Inr u, st')" "\<not> wildcard_delegation (bp_ctx st)"
  shows "safe_body env st st'"
proof -
  let ?b = "complete env raw" and ?sel = "body_selector env (bp_ctx st) raw"
  define early where "early = in_turn (resolve_cost env ?sel) (\<lambda>_. in_turn (retain_metadata env ?b) (\<lambda>r. in_turn (or_answer r) (\<lambda>_.
     depending (\<lambda>st. in_turn (if malformed_delegation env (bp_ctx st) ?b then answers PolicyDenied else passes ()) (\<lambda>_. select_policy env ?b)))))"
  have "keeps subject early" unfolding early_def by (intro keeps_intros; simp)
  obtain u1 st1 where e: "early st = (Inr u1, st1)"
    and rest: "(if pc_litellm_passthrough (bp_ctx st1) then passthrough_body env ?b else managed_body env ?sel ?b) st1 = (Inr u, st')"
    using assms(1) unfolding complete_request_def early_def Let_def depending_eq by (auto simp: in_turn_Inr)
  have same: "subject st = subject st1" using keepsD [OF \<open>keeps subject early\<close> e] by simp
  have "safe_body env st1 st'"
  proof (cases "pc_litellm_passthrough (bp_ctx st1)")
    case True
    then show ?thesis using rest passthrough_body_safe wildcard_subject [OF same] assms(2) by auto
  next
    case False
    then show ?thesis using rest managed_body_safe [of env ?sel raw] unfolding safe_def by auto
  qed
  then show ?thesis by (rule safe_body_subject [OF same])
qed

lemma buffered_body_safe:
  assumes "buffered_body env end_of_stream r st = (Inr u, st')" "\<not> wildcard_delegation (bp_ctx st)"
  shows "if end_of_stream then safe_body env st st' else bp_body st' = Some []"
proof -
  obtain r1 st1 where c: "collect_chunk env r st = (Inr r1, st1)"
    and rest: "(if \<not> end_of_stream then passes () else in_turn (take_body env r1) (complete_request env)) st1 = (Inr u, st')"
    using assms(1) unfolding buffered_body_def in_turn_Inr by blast
  have same: "subject st = subject st1" using keepsD [OF keeps_collect c] by simp
  have quiet_end: "bp_body st1 = Some []"
    using c unfolding collect_chunk_def depending_eq by (auto simp: in_turn_Inr no_body_def split: prod.splits)
  show ?thesis
  proof (cases end_of_stream)
    case True
    then obtain raw st2 where t: "take_body env r1 st1 = (Inr raw, st2)" and q: "complete_request env raw st2 = (Inr u, st')"
      using rest by (auto simp: in_turn_Inr)
    have same2: "subject st = subject st2" using keepsD [OF keeps_take_body t] same by simp
    have "safe_body env st2 st'"
      using complete_request_safe [OF q] wildcard_subject [OF same2] assms(2) by simp
    then show ?thesis using True safe_body_subject [OF same2] by simp
  next
    case False
    then show ?thesis using rest quiet_end by simp
  qed
qed

lemma count_chunk_Inr:
  assumes "count_chunk env st = (Inr u, st')"
  shows "bp_ctx st' = bp_ctx st \<and> bp_rewriter st' = bp_rewriter st \<and> bp_body st' = bp_body st \<and>
    (\<forall>chunk. bp_body st = Some chunk \<longrightarrow> bp_bytes_seen st' = saturating_add (bp_bytes_seen st) (length chunk))"
  using assms unfolding count_chunk_def depending_eq
  by (auto simp: in_turn_Inr count_bytes_def answers_def split: option.splits sum.splits)


text \<open>A batch that was collected before, with an empty last chunk.\<close>

definition sample_body_env :: "memory body_env" where
  "sample_body_env =
     \<lparr>be_admission = sample_admission, be_times = sample_times, be_alloc = (\<lambda>v n. Some (length (bv_bytes v) + n)),
      be_to_writer = (\<lambda>_. ([], False)),
      be_form = \<lparr>fm_boundary = (\<lambda>_. None), fm_fields = (\<lambda>_ _ _. ([], False)), fm_from_slice = (\<lambda>_. None)\<rparr>, be_services = sample_env,
      be_send = (\<lambda>_ _. Err GuardrailUnavailable), be_latency = 0, be_now = 0, be_elapsed = 0\<rparr>"

definition sample_rewriter :: body_rewriter where
  "sample_rewriter =
     \<lparr>br_max_bytes = 100, br_allocation_hint = 100, br_expected_length = None, br_buffer = \<lparr>bv_bytes = ''batch'', bv_capacity = 5\<rparr>\<rparr>"

definition sample_parts :: "memory body_parts" where
  "sample_parts =
     \<lparr>bp_ctx = sample_context, bp_rewriter = Some sample_rewriter, bp_bytes_seen = 5, bp_prefix = ''batch'', bp_frames = None,
      bp_expires_at = 0, bp_admission = sample_state, bp_store = sample_budgets, bp_body = Some [], bp_owner = None\<rparr>"

lemmas body_phase_defs = in_turn_def passes_def updates_def depending_def leased_def with_lease_def or_give_up_def or_answer_def or_fail_def
  retain_metadata_def update_ctx_def resolve_cost_def

lemma sample_subjects: "sample_subject sample_context"
  by (simp add: sample_subject_def sample_context_def new_ctx_def)

lemma sample_complete: "complete sample_body_env ''batch'' = sample_body"
  by (simp add: complete_def sample_body_env_def sample_admission_def redis_admission_def sample_body_def)

lemma sample_plans:
  assumes "pc_guardrail_definitions ctx = []" "pc_guardrail_policy ctx = default_guardrail_policy"
  shows "resolve_plans ctx sample_body = Ok ([], [])"
proof -
  have "guardrail_plan mode ctx [] = Ok []" for mode
    using assms by (simp add: guardrail_plan_def resolve_guardrail_plan_def validate_guardrail_config_overrides_def default_guardrail_policy_def
        plan_definitions_def bt_values_def bt_keys_def policy_iter_def guardrail_policy_validate_def Let_def and_then_def)
  moreover have "Option.bind (cb_generation sample_body) ra_client_guardrails = None" "\<not> gf_stream (body_features sample_body)"
    by (simp_all add: sample_body_def complete_body_new_def analyze_generation_request_def batch_serde_def sample_probe_def body_features_def)
  ultimately show ?thesis
    by (simp add: resolve_plans_def extract_client_guardrails_value_def response_plan_def and_then_def)
qed

lemma unleased:
  assumes "pc_request_body_lease (bp_ctx st) = None"
  shows "leased f st = (Inr (Ok ()), st)" "retain_metadata env b st = (Inr (Ok ()), st)"
proof -
  have "(bp_ctx st)\<lparr>pc_request_body_lease := None\<rparr> = bp_ctx st" using assms by (cases "bp_ctx st") simp
  then show "leased f st = (Inr (Ok ()), st)" "retain_metadata env b st = (Inr (Ok ()), st)"
    using assms by (cases st; simp add: leased_def retain_metadata_def retain_request_metadata_workspace_def with_lease_def)+
qed

lemma sample_append: "append_chunk alloc sample_rewriter (Some []) = (Ok (), sample_rewriter)"
  by (simp add: append_chunk_def next_capacity_def buffered_len_def checked_add_def saturating_add_def usize_max_def raise_hint_def
      extend_vec_def sample_rewriter_def)

lemma sample_collected: "collect_chunk sample_body_env sample_rewriter sample_parts = (Inr sample_rewriter, sample_parts)"
proof -
  have "pc_request_body_lease (bp_ctx sample_parts) = None" "bp_body sample_parts = Some []" "bp_rewriter sample_parts = Some sample_rewriter"
    by (simp_all add: sample_parts_def sample_context_def new_ctx_def)
  moreover have "set_rewriter sample_rewriter sample_parts = sample_parts" "no_body sample_parts = sample_parts"
    by (simp_all add: set_rewriter_def no_body_def sample_parts_def)
  ultimately show ?thesis
    by (simp add: collect_chunk_def depending_def in_turn_def reserve_lease_def body_len_def passes_def updates_def unleased or_give_up_def sample_append)
qed

definition taken_parts :: "memory body_parts" where
  "taken_parts = set_rewriter (snd (take_buffer sample_rewriter)) sample_parts"

lemma sample_taken: "take_body sample_body_env sample_rewriter sample_parts = (Inr ''batch'', taken_parts)"
proof -
  have "pc_request_body_lease (bp_ctx sample_parts) = None" "pc_foundry (bp_ctx taken_parts) = None"
    by (simp_all add: taken_parts_def set_rewriter_def sample_parts_def sample_context_def new_ctx_def)
  then show ?thesis
    by (simp add: take_body_def depending_def in_turn_def passes_def updates_def unleased or_give_up_def flip: taken_parts_def)
      (simp add: take_buffer_def sample_rewriter_def)
qed

lemma sample_policy_passed:
  assumes "bp_ctx st = sample_context"
  shows "\<exists>eff :: effective_policy. select_policy sample_body_env sample_body st =
    (Inr (), st\<lparr>bp_ctx := sample_context\<lparr>pc_policy := Some (ep_policy eff), pc_guardrail_policy := default_guardrail_policy\<rparr>\<rparr>)"
proof -
  let ?m = "(litellm_match AnthropicMessageBatches)\<lparr>rm_estimated_cost_usd := None\<rparr>"
  let ?key = "\<lparr>ak_key_id = ''k'', ak_project_id = None, ak_key_prefix = ''p''\<rparr>"
  have ctx: "pc_key sample_context = Some ?key" "pc_route_match sample_context = Some ?m" "pc_request_body_lease sample_context = None"
    "\<not> wildcard_delegation sample_context"
    by (simp_all add: sample_context_def new_ctx_def wildcard_delegation_def)
  have m: "fallback_match sample_context ?m = ?m" "rm_route ?m = AnthropicMessageBatches"
    by (simp_all add: fallback_match_def sample_context_def new_ctx_def litellm_match_def)
  obtain eff where eff: "effective_complete_policy sample_admission ?key ?m sample_body = Ok eff" "ep_guardrail_policy eff = default_guardrail_policy"
    using sample_policy_loaded [OF m(2)] by blast
  obtain fwd ctx' st' where "admit_complete_body sample_admission sample_times sample_context sample_body sample_state sample_budgets =
     (Ok (), fwd, ctx', sample_state, st')" using sample_admitted [OF sample_subjects] by blast
  from admit_checks_Ok [OF this ctx(1,2)] eff(1) m(1)
  have check: "check_complete_request_policy sample_admission 0 (ep_policy eff) ?m sample_body (request_features ?m sample_body) = Ok ()"
    by (auto simp: sample_times_def)
  have env: "be_admission sample_body_env = sample_admission" "be_now sample_body_env = 0" by (simp_all add: sample_body_env_def)
  have "pc_request_body_lease (bp_ctx st) = None" using assms ctx(3) by simp
  then have "select_policy sample_body_env sample_body st =
    (Inr (), st\<lparr>bp_ctx := sample_context\<lparr>pc_policy := Some (ep_policy eff), pc_guardrail_policy := default_guardrail_policy\<rparr>\<rparr>)"
    using check eff ctx m env assms
    by (simp add: select_policy_def body_policy_def depending_def in_turn_def passes_def updates_def update_ctx_def
        or_fail_def or_answer_def unleased)
  then show ?thesis by blast
qed

lemma sample_forwarded:
  "\<exists>st'. request_body_filter sample_body_env True sample_parts = (Inr (), st') \<and> bp_body st' = Some ''batch''"
proof -
  let ?m = "(litellm_match AnthropicMessageBatches)\<lparr>rm_estimated_cost_usd := None\<rparr>"
  have ctx: "pc_socket sample_context = False" "pc_guardrail_error sample_context = None" "pc_policy sample_context = None"
    "pc_litellm_passthrough sample_context = False" "pc_service_pricing_rules sample_context = []" "pc_budget_reserved sample_context = False"
    "pc_request_body_lease sample_context = None" "pc_guardrail_definitions sample_context = []" "pc_route_match sample_context = Some ?m"
    by (simp_all add: sample_context_def new_ctx_def)
  have parts: "bp_ctx sample_parts = sample_context" "bp_body sample_parts = Some []" "bp_rewriter sample_parts = Some sample_rewriter"
    "count_bytes [] sample_parts = sample_parts" "bp_ctx taken_parts = sample_context" "bp_admission taken_parts = sample_state" "bp_store taken_parts = sample_budgets"
    by (simp_all add: sample_parts_def taken_parts_def set_rewriter_def count_bytes_def saturating_add_def usize_max_def)
  have limit: "body_limit 0 (bp_bytes_seen sample_parts) sample_context = Ok ()" "be_now sample_body_env = 0" "be_admission sample_body_env = sample_admission"
    "be_times sample_body_env = sample_times"
    by (simp_all add: body_limit_def ctx sample_parts_def litellm_match_def sample_body_env_def)
  have buffered: "\<not> passes_unbuffered True sample_parts"
    by (simp add: passes_unbuffered_def parts ctx managed_service_request_can_stream_def)
  have cost: "resolve_service_cost_for_ctx e c sel = c" if "pc_route_match c = Some ?m" for e c sel
    using that by (simp add: resolve_service_cost_for_ctx_def litellm_match_def)
  obtain eff :: effective_policy where policy: "select_policy sample_body_env sample_body taken_parts =
      (Inr (), taken_parts\<lparr>bp_ctx := sample_context\<lparr>pc_policy := Some (ep_policy eff), pc_guardrail_policy := default_guardrail_policy\<rparr>\<rparr>)"
    using sample_policy_passed [of taken_parts] parts by auto
  define c where "c = sample_context\<lparr>pc_policy := Some (ep_policy eff), pc_guardrail_policy := default_guardrail_policy\<rparr>"
  have c: "pc_litellm_passthrough c = False" "pc_route_match c = Some ?m" "pc_guardrail_definitions c = []" "pc_guardrail_policy c = default_guardrail_policy"
    "sample_subject (c\<lparr>pc_rewritten_request_len := Some (Suc (Suc (Suc (Suc (Suc 0)))))\<rparr>)"
    using sample_subjects ctx by (simp_all add: c_def sample_subject_def)
  obtain ctx' store' where admitted: "admit_complete_body sample_admission sample_times (c\<lparr>pc_rewritten_request_len := Some (Suc (Suc (Suc (Suc (Suc 0)))))\<rparr>) sample_body sample_state sample_budgets =
      (Ok (), ''batch'', ctx', sample_state, store')" "pc_request_body_lease ctx' = None"
    using sample_admitted [OF c(5)] by (auto simp: sample_body_def complete_body_new_def)
  have body: "cb_bytes sample_body = ''batch''" by (simp add: sample_body_def complete_body_new_def)
  have selector: "body_selector sample_body_env sample_context raw = None" for raw by (simp add: body_selector_def ctx)
  have same: "taken_parts\<lparr>bp_ctx := sample_context\<rparr> = taken_parts" using parts(5) by (cases taken_parts) simp
  have "\<exists>st'. managed_body sample_body_env None sample_body (taken_parts\<lparr>bp_ctx := c\<rparr>) = (Inr (), st') \<and> bp_body st' = Some ''batch''"
    using admitted parts c sample_plans [of c]
    by (simp add: managed_body_def depending_def in_turn_def passes_def updates_def update_ctx_def or_fail_def resolve_cost_def cost set_prefix_def
        admit_and_bind_def admit_body_def bind_body_def bind_request_body_admission_def limit body)
  then have "\<exists>st'. complete_request sample_body_env ''batch'' taken_parts = (Inr (), st') \<and> bp_body st' = Some ''batch''"
    using policy parts c(1) ctx
    by (simp add: complete_request_def Let_def sample_complete depending_def in_turn_def passes_def updates_def update_ctx_def or_answer_def
        resolve_cost_def cost unleased malformed_delegation_def wildcard_delegation_def selector same flip: c_def)
  then show ?thesis
    using ctx parts limit buffered sample_collected sample_taken
    by (simp add: request_body_filter_def count_chunk_def buffered_body_def depending_def in_turn_def passes_def updates_def)
qed


end
