(* ===== verification/Spec2Isabelle.thy ===== *)
theory Spec2Isabelle
  imports Route_Settings Pii_Redaction Policies Provider_Intelligence Endpoint_Access Foundry Service_Pricing Auth_Admission Body_Admission Control_State Response_Documents Traffic_Journal
    Upstream_Request Request_Admission Stream_Guardrails Foundry_Checks Socket_Frames Upstream_Attempts Service_Cost_Context Request_Identity Accessa_Sessions Response_Pipeline Request_Filter Request_Body
begin

text \<open>
  A verification library for the relayna gateway, a Rust service that stands between applications and AI
  providers. A request meets the proxy plane (\<open>gateway-proxy\<close>), which authenticates a virtual key or an
  Entra identity, resolves the route, applies the policies and limits, runs the guardrails on the body,
  sends it upstream with credentials of the gateway's own, and watches the response for usage and cost.
  The rules it applies are in \<open>gateway-core\<close>; counters, budgets and sessions that the replicas share are in
  Redis (\<open>gateway-store/src/redis.rs\<close>). The administration API (\<open>gateway-api\<close>) and the database
  (\<open>gateway-store/src/postgres.rs\<close>) maintain what those rules read. Paths below are under \<open>src/crates\<close>.

  \<^bold>\<open>Conventions.\<close> A Rust \<open>Result\<close> is a sum with the error on the left (\<open>Err\<close>, \<open>Ok\<close>), an early return is a
  branch, and shared state behind a lock or an atomic is a record that each operation takes and returns.
  Where operations of several tasks interleave, each atomic section is one step of a step function and the
  theorems range over every sequence of steps. A string is its UTF-8 bytes; \<open>usize\<close> and \<open>i64\<close> arithmetic
  saturates, fails or wraps where the source does. \<open>F64\<close> has values of binary64 as rationals with an
  explicit rounding, so sums of costs have the rounding errors of the program. Code outside the repository
  is a parameter: \<open>serde_json\<close> (readers and writers of JSON), the \<open>url\<close> and \<open>http\<close> crates (\<open>http_env\<close>),
  Argon2, HMAC, SHA-256 and base64 (\<open>apigee_env\<close>, \<open>crypto_env\<close>), the JWT library (\<open>jwt_env\<close>), the OpenID
  network (\<open>oidc_network\<close>), Redis commands (\<open>redis_env\<close>), the database, UUIDs (\<open>accessa_env\<close>), the multipart
  reader (\<open>form_reader\<close>) and the allocator. What a proof needs of one of them is a named hypothesis
  of its documented behaviour, and the witnesses instantiate it. Clocks are arguments.

  \<^bold>\<open>Foundation.\<close> \<open>Gateway_Prelude\<close>: results, loops, machine arithmetic, and the locales the components
  share: \<open>comparator\<close> (Rust's sort and min by a comparison), \<open>tightening\<close> and \<open>restriction\<close> (merging that can
  only narrow what is allowed), \<open>invariant_system\<close> and \<open>refinement_system\<close> (step functions).
  \<open>Phases\<close>: callbacks of the proxy as phases in turn, each of which passes its state on or ends the request.
  \<open>Rust_Strings\<close>: \<open>str\<close> and \<open>char\<close>. \<open>Json_Values\<close>: JSON values and \<open>BTreeMap\<close> (locale \<open>finite_map\<close>,
  interpreted on it). \<open>F64\<close>, \<open>F64_Order\<close>: binary64 and the monotonicity of its arithmetic.
  \<open>Gateway_Errors\<close> (\<open>gateway-core/src/errors.rs\<close>): the error catalogue with status, code and message.

  \<^bold>\<open>Routes and services.\<close> \<open>Routing\<close> (\<open>routing.rs\<close>) and \<open>Route_Settings\<close> (\<open>route_settings.rs\<close>): the route of a
  path with its limits, identifiers that round trip, and the LiteLLM passthrough, whose allowed paths exclude
  the denied and the sensitive ones. \<open>Services\<close>, \<open>Service_Pricing\<close> (\<open>services.rs\<close>): registrations, prices by
  selector and the repricing of recorded costs. \<open>Service_Cost_Context\<close> (\<open>pingora_plane.rs\<close>): the price of one
  request; what is reserved covers what is charged. \<open>Provider_Intelligence\<close> (\<open>provider_intelligence.rs\<close>):
  the provider selected is eligible and best for the strategy, and the weighted choice is proportional.
  \<open>Foundry\<close> (\<open>foundry.rs\<close>), \<open>Foundry_Tokens\<close>, \<open>Foundry_Checks\<close> (\<open>gateway-proxy/src/foundry.rs\<close>): bindings and
  the stateless request, one token acquisition at a time per provider, and the usage of a streamed answer.

  \<^bold>\<open>Keys and identities.\<close> \<open>Key_Authentication\<close> (\<open>auth.rs\<close>) rests on \<open>Verification_Cache\<close> and
  \<open>Verification_Flight\<close> (files of those names): the cache refines a bounded queue with expiry, concurrent verifications of one
  secret share a flight, everybody who waits is answered, and a key is accepted exactly when its stored
  state and its secret are right. \<open>Auth_Admission\<close> (\<open>auth_admission.rs\<close>): token buckets per source, whose
  pruning cannot be observed, and the gate of expensive work. \<open>Entra_Verifier\<close>, \<open>Apigee_Identity\<close>
  (\<open>entra.rs\<close>), \<open>Auth_Settings\<close> (\<open>auth_settings.rs\<close>), \<open>Endpoint_Access\<close> (\<open>endpoint_access.rs\<close>,
  \<open>auth_profiles.rs\<close>) and \<open>Request_Identity\<close> (\<open>pingora_plane.rs\<close>, \<open>accessa_runtime.rs\<close>): an identity that an
  endpoint accepts was signed by a key that the issuer published or by the front end's secret, for the tenant and with the claims
  that the endpoint demands. \<open>Accessa_Sessions\<close> (\<open>accessa_runtime.rs\<close>, \<open>redis.rs\<close>): sessions of a socket, with
  every turn checked again and charged once however its retries interleave.

  \<^bold>\<open>Policies and guardrails.\<close> \<open>Policies\<close> (\<open>policies.rs\<close>): the effective policy admits only what every layer
  admits and keeps every mandatory guardrail. \<open>Guardrails\<close>, \<open>Pii_Redaction\<close> (\<open>guardrails.rs\<close>): the plan, the
  executor on its modes and failures, the redaction of personal data with its placeholders, and the metadata that leaves it
  without secrets. \<open>Stream_Guardrails\<close> (\<open>pingora_plane.rs\<close>): streamed text is forwarded whole and in order.

  \<^bold>\<open>Counters and bodies.\<close> \<open>Control_State\<close> (\<open>redis.rs\<close>, \<open>budgets.rs\<close>, \<open>rate_limits.rs\<close>): the locale
  \<open>redis_server\<close> states what Redis does for the scripts, and is interpreted on a memory store; a rate limit
  admits exactly its number and a reservation is charged once. \<open>Body_Admission\<close> (\<open>body_admission.rs\<close>): counters of
  requests, bytes and working set are those of the leases, and a small request finds its reserve.
  \<open>Body_Rewriting\<close> (\<open>body_rewrite.rs\<close>): the bounded buffer and the serialisation under a lease.
  \<open>Request_Admission\<close> (\<open>pingora_plane.rs\<close>): a complete body passes the policy, also every entry of
  a batch, the token rate and the budget; locale \<open>budget_store\<close>, provided by every \<open>redis_server\<close> through a
  \<open>sublocale\<close>.

  \<^bold>\<open>The filters.\<close> \<open>Request_Filter\<close> (\<open>request_filter\<close> of \<open>pingora_plane.rs\<close>, the handshake check of
  \<open>websocket.rs\<close>) composes the parts above in the order of the code: route, access settings, limits,
  handshake, identity, key, upstream. Every reading of the database may see another content. A request that gets through presents
  a key that was verified, with the identity its endpoint demands, or brings its own credential, or comes by a path opened to the trusted
  ingress. \<open>Request_Body\<close> (\<open>request_body_filter\<close>): the chunks of the body are counted and buffered under a lease, and no
  byte of a buffered request goes upstream before the complete body has passed policy, guardrails and admission.

  \<^bold>\<open>The exchange with the upstream.\<close> \<open>Proxy_Context\<close>, \<open>Upstream_Request\<close>, \<open>Upstream_Attempts\<close>,
  \<open>Response_Pipeline\<close> (\<open>pingora_plane.rs\<close>): the context of a request, the headers and credentials that go
  upstream, the attempts, which come to an end, and the response, whose bytes stay within the limits.
  \<open>Socket_Frames\<close> (\<open>accessa_transport.rs\<close>): connection counts and the frame scanner, which accepts exactly the
  streams within the limit whatever the chunks. \<open>Usage\<close> (\<open>usage.rs\<close>): token estimates and usage events.
  \<open>Response_Cost\<close>, \<open>Response_Documents\<close> (\<open>response_cost.rs\<close>): the streaming scanner holds a bounded state and
  finds in every document of the JSON grammar the cost that reading the parsed document finds.
  \<open>Traffic\<close>, \<open>Traffic_Monitor\<close>, \<open>Traffic_Counts\<close>, \<open>Traffic_Journal\<close> (\<open>traffic.rs\<close>): the monitor of live
  requests, with exact counts and a journal whose readers miss nothing without being told.

  \<^bold>\<open>Bounds.\<close> Loops are structural or have a measure; there is no fuel. Numeric bounds
  (buffer sizes, token windows, frame sizes) are those of the source.

  \<^bold>\<open>Not modelled.\<close> The HTTP handlers of the administration API and the portal (\<open>gateway-api\<close>) and the SQL of
  \<open>gateway-store/src/postgres.rs\<close> are input and output around the rules above; the database is a parameter.
  \<open>proxy_upstream_filter\<close> and \<open>logging\<close> of the proxy are modelled in the parts that decide
  (admission, cost), and not in their order within the framework. Timings, metrics, tracing and log
  writers do not influence what a client receives. Argon2, HMAC, JWT signatures, TLS and the Pingora framework are not code of this
  repository.
\<close>

end
